(* ===== verification/Prelude.thy ===== *)
theory Prelude
  imports Main "HOL-Library.Word" "HOL-Library.Monad_Syntax"
begin

unbundle bit_operations_syntax

text \<open>
  Shared vocabulary of the development: the C integer types, the C array accesses with their
  bounds, byte order conversions, the loop combinator \<open>for_each\<close>, the two contracts
  (\<open>codec\<close>, \<open>invariant_machine\<close>) several components share, and the collections that
  carry the component proofs.

  A C function of the program is modelled as a function into \<open>option\<close>: \<open>Some\<close> of the result
  and the state it leaves, or \<open>None\<close> when the C code has no defined result, because it never
  returns or because it reads or writes outside an object.
\<close>

named_theorems frame_rules \<comment> \<open>what an operation leaves alone\<close>
named_theorems word_facts \<comment> \<open>reading fields of assembled words\<close>

subsection \<open>C integer types\<close>

type_synonym byte = "8 word"
type_synonym half = "16 word"
type_synonym uint = "32 word"

subsection \<open>Arrays with bounds\<close>

definition arr_get :: "'a list \<Rightarrow> nat \<Rightarrow> 'a option" where
  "arr_get xs i = (if i < length xs then Some (xs ! i) else None)"

definition arr_set :: "'a list \<Rightarrow> nat \<Rightarrow> 'a \<Rightarrow> 'a list option" where
  "arr_set xs i v = (if i < length xs then Some (xs[i := v]) else None)"

definition slice :: "'a list \<Rightarrow> nat \<Rightarrow> nat \<Rightarrow> 'a list option" where
  \<comment> \<open>\<open>n\<close> elements from index \<open>off\<close>\<close>
  "slice xs off n = (if off + n \<le> length xs then Some (take n (drop off xs)) else None)"

definition blit :: "'a list \<Rightarrow> nat \<Rightarrow> 'a list \<Rightarrow> 'a list option" where
  \<comment> \<open>\<open>memcpy (dst + off, src, length src)\<close>\<close>
  "blit dst off src =
     (if off + length src \<le> length dst
      then Some (take off dst @ src @ drop (off + length src) dst) else None)"

lemma arr_get_Some [simp]: "i < length xs \<Longrightarrow> arr_get xs i = Some (xs ! i)"
  by (simp add: arr_get_def)

lemma arr_get_eq_Some: "arr_get xs i = Some v \<longleftrightarrow> i < length xs \<and> xs ! i = v"
  by (auto simp: arr_get_def)

lemma arr_set_Some [simp]: "i < length xs \<Longrightarrow> arr_set xs i v = Some (xs[i := v])"
  by (simp add: arr_set_def)

lemma arr_set_eq_Some: "arr_set xs i v = Some ys \<longleftrightarrow> i < length xs \<and> ys = xs[i := v]"
  by (auto simp: arr_set_def)

lemma slice_eq_Some: "slice xs off n = Some ys \<longleftrightarrow> off + n \<le> length xs \<and> ys = take n (drop off xs)"
  by (auto simp: slice_def)

lemma slice_Some: "off + n \<le> length xs \<Longrightarrow> slice xs off n = Some (take n (drop off xs))"
  by (simp add: slice_def)

lemma slice_length: "slice xs off n = Some ys \<Longrightarrow> length ys = n"
  by (auto simp: slice_def split: if_splits)

lemma blit_eq_Some:
  "blit dst off src = Some ys \<longleftrightarrow>
     off + length src \<le> length dst \<and> ys = take off dst @ src @ drop (off + length src) dst"
  by (auto simp: blit_def)

lemma blit_Some:
  "off + length src \<le> length dst \<Longrightarrow>
     blit dst off src = Some (take off dst @ src @ drop (off + length src) dst)"
  by (simp add: blit_def)

lemma blit_length: "blit dst off src = Some ys \<Longrightarrow> length ys = length dst"
  by (auto simp: blit_def split: if_splits)

lemma blit_slice: "blit dst off src = Some ys \<Longrightarrow> slice ys off (length src) = Some src"
  by (auto simp: blit_def slice_def split: if_splits)

lemma take_blit: "blit dst off src = Some ys \<Longrightarrow> take (off + length src) ys = take off dst @ src"
  by (auto simp: blit_def split: if_splits)

subsection \<open>The counting loop\<close>

primrec for_each :: "'a list \<Rightarrow> ('a \<Rightarrow> 's \<Rightarrow> 's option) \<Rightarrow> 's \<Rightarrow> 's option" where
  "for_each [] f s = Some s"
| "for_each (x # xs) f s = do { s \<leftarrow> f x s; for_each xs f s }"

lemma for_each_append:
  "for_each (xs @ ys) f s = do { s \<leftarrow> for_each xs f s; for_each ys f s }"
  by (induction xs arbitrary: s) (auto split: bind_splits)

lemma for_each_inv:
  assumes "for_each xs f s = Some s'" and "P s"
    and "\<And>x s t. x \<in> set xs \<Longrightarrow> P s \<Longrightarrow> f x s = Some t \<Longrightarrow> P t"
  shows "P s'"
  using assms(1,2,3)
proof (induction xs arbitrary: s)
  case Nil
  then show ?case by simp
next
  case (Cons x xs)
  from Cons.prems(1) obtain t where t: "f x s = Some t" and rest: "for_each xs f t = Some s'"
    by (auto split: bind_splits)
  have "P t" using Cons.prems(3) [of x s t] Cons.prems(2) t by simp
  show ?case
    by (rule Cons.IH [OF rest \<open>P t\<close>]) (use Cons.prems(3) in auto)
qed

lemma for_each_rel:
  assumes "for_each xs f s = Some s'" and "\<And>s. R s s" and "\<And>a b c. R a b \<Longrightarrow> R b c \<Longrightarrow> R a c"
    and "\<And>x s t. x \<in> set xs \<Longrightarrow> f x s = Some t \<Longrightarrow> R s t"
  shows "R s s'"
  using assms(1,4)
proof (induction xs arbitrary: s)
  case Nil
  then show ?case using assms(2) by simp
next
  case (Cons x xs)
  from Cons.prems(1) obtain t where t: "f x s = Some t" and rest: "for_each xs f t = Some s'"
    by (auto split: bind_splits)
  have "R t s'" using rest Cons.prems(2) by (intro Cons.IH) auto
  moreover have "R s t" using t Cons.prems(2) by auto
  ultimately show ?case using assms(3) by blast
qed

lemma for_each_fold:
  assumes "\<And>x s. x \<in> set xs \<Longrightarrow> P s \<Longrightarrow> f x s = Some (g x s) \<and> P (g x s)" and "P s"
  shows "for_each xs f s = Some (fold g xs s)"
  using assms by (induction xs arbitrary: s) auto

subsection \<open>Byte order and word surgery\<close>

definition be32 :: "byte \<Rightarrow> byte \<Rightarrow> byte \<Rightarrow> byte \<Rightarrow> uint" where
  \<comment> \<open>\<open>(a << 24) + (b << 16) + (c << 8) + d\<close>\<close>
  "be32 a b c d = push_bit 24 (ucast a) + push_bit 16 (ucast b) + push_bit 8 (ucast c) + ucast d"

definition be16 :: "byte \<Rightarrow> byte \<Rightarrow> uint" where
  "be16 a b = push_bit 8 (ucast a) + ucast b"

definition byte_of :: "nat \<Rightarrow> uint \<Rightarrow> byte" where
  \<comment> \<open>\<open>(v >> n) & 0xff\<close>\<close>
  "byte_of n v = ucast (drop_bit n v AND 0xff)"

definition be32_bytes :: "uint \<Rightarrow> byte list" where
  "be32_bytes v = [byte_of 24 v, byte_of 16 v, byte_of 8 v, byte_of 0 v]"

definition le32_bytes :: "uint \<Rightarrow> byte list" where
  "le32_bytes v = [byte_of 0 v, byte_of 8 v, byte_of 16 v, byte_of 24 v]"

definition le16_bytes :: "half \<Rightarrow> byte list" where
  "le16_bytes v = [ucast v, ucast (drop_bit 8 v)]"

definition le32 :: "byte list \<Rightarrow> uint" where
  "le32 bs = be32 (bs ! 3) (bs ! 2) (bs ! 1) (bs ! 0)"

definition le16 :: "byte list \<Rightarrow> half" where
  "le16 bs = push_bit 8 (ucast (bs ! 1)) + ucast (bs ! 0)"

definition swap_halves :: "uint \<Rightarrow> uint" where
  \<comment> \<open>\<open>(data >> 16) + (data << 16)\<close>, applied to every word that crosses a FIFO\<close>
  "swap_halves d = drop_bit 16 d + push_bit 16 d"

lemma add_or_disjoint:
  fixes a b :: "'a::len word"
  assumes "\<And>n. n < LENGTH('a) \<Longrightarrow> bit a n \<Longrightarrow> bit b n \<Longrightarrow> False"
  shows "a + b = a OR b"
proof (rule disjunctive_add_eq_or, rule bit_word_eqI)
  fix n assume "n < LENGTH('a)"
  then show "bit (a AND b) n = bit (0 :: 'a word) n"
    using assms [of n] by (auto simp: bit_simps)
qed

lemma bit_be32:
  "bit (be32 a b c d) n \<longleftrightarrow>
     (if n < 8 then bit d n else if n < 16 then bit c (n - 8)
      else if n < 24 then bit b (n - 16) else bit a (n - 24))"
proof -
  have 1: "push_bit 24 (ucast a) + push_bit 16 (ucast b)
      = (push_bit 24 (ucast a) OR push_bit 16 (ucast b) :: uint)"
    by (rule add_or_disjoint) (auto simp: bit_simps dest: bit_imp_le_length)
  have 2: "\<dots> + push_bit 8 (ucast c) = \<dots> OR push_bit 8 (ucast c)"
    by (rule add_or_disjoint) (auto simp: bit_simps dest: bit_imp_le_length)
  have 3: "\<dots> + ucast d = \<dots> OR ucast d"
    by (rule add_or_disjoint) (auto simp: bit_simps dest: bit_imp_le_length)
  show ?thesis
    unfolding be32_def 1 2 3 by (auto simp: bit_simps dest: bit_imp_le_length)
qed

lemma bit_swap_halves:
  "bit (swap_halves d) n \<longleftrightarrow> (if n < 16 then bit d (n + 16) else bit d (n - 16) \<and> n < 32)"
proof -
  have "drop_bit 16 d + push_bit 16 d = drop_bit 16 d OR push_bit 16 d"
    by (rule add_or_disjoint) (auto simp: bit_simps dest: bit_imp_le_length)
  then show ?thesis
    unfolding swap_halves_def by (auto simp: bit_simps add.commute dest: bit_imp_le_length)
qed

lemma swap_halves_invol [simp]: "swap_halves (swap_halves d) = d"
  by (rule bit_word_eqI) (auto simp: bit_swap_halves)

lemma bit_byte_of: "bit (byte_of k v) n \<longleftrightarrow> n < 8 \<and> bit v (k + n)"
proof -
  have "bit (0xff :: uint) n \<longleftrightarrow> n < 8"
    using bit_mask_iff [of 8 n, where 'a = "32 word"] by (simp add: mask_eq_decr_exp) (auto dest: bit_imp_le_length)
  then show ?thesis
    unfolding byte_of_def by (auto simp: bit_simps dest: bit_imp_le_length)
qed

lemma byte_of_be32 [simp, word_facts]:
  "byte_of 24 (be32 a b c d) = a" "byte_of 16 (be32 a b c d) = b"
  "byte_of 8 (be32 a b c d) = c" "byte_of 0 (be32 a b c d) = d"
  by (rule bit_word_eqI; auto simp: bit_byte_of bit_be32)+

lemma be32_byte_of [simp, word_facts]:
  "be32 (byte_of 24 v) (byte_of 16 v) (byte_of 8 v) (byte_of 0 v) = v"
  by (rule bit_word_eqI) (auto simp: bit_byte_of bit_be32)

lemma le16_le16_bytes [simp]: "le16 (le16_bytes v) = v"
proof -
  have "push_bit 8 (ucast (ucast (drop_bit 8 v) :: byte)) + ucast (ucast v :: byte)
      = (push_bit 8 (ucast (ucast (drop_bit 8 v) :: byte)) OR ucast (ucast v :: byte) :: half)"
    by (rule add_or_disjoint) (auto simp: bit_simps)
  moreover have "\<dots> = v"
    by (rule bit_word_eqI) (auto simp: bit_simps)
  ultimately show ?thesis by (simp add: le16_def le16_bytes_def)
qed

subsection \<open>Contract: fixed-width encodings\<close>

text \<open>
  The program stores and sends its data as runs of bytes of a fixed width. A \<open>codec\<close> says
  how a value of a type is laid out and read back; inside the contract a sequence of values
  is laid out by concatenation and read back by cutting it into chunks.
\<close>

locale codec =
  fixes enc :: "'a \<Rightarrow> 'b list"
    and dec :: "'b list \<Rightarrow> 'a"
    and ok :: "'a \<Rightarrow> bool"
    and width :: nat
  assumes enc_length: "ok x \<Longrightarrow> length (enc x) = width"
    and dec_enc: "ok x \<Longrightarrow> dec (enc x) = x"
begin

lemma enc_inj: "ok x \<Longrightarrow> ok y \<Longrightarrow> enc x = enc y \<Longrightarrow> x = y"
  using dec_enc by metis

lemma enc_all_length: "list_all ok xs \<Longrightarrow> length (concat (map enc xs)) = width * length xs"
  by (induction xs) (auto simp: enc_length)

lemma dec_nth:
  assumes "list_all ok xs" and "i < length xs"
  shows "dec (take width (drop (width * i) (concat (map enc xs)))) = xs ! i"
  using assms
proof (induction xs arbitrary: i)
  case Nil
  then show ?case by simp
next
  case (Cons x xs)
  then have x: "length (enc x) = width" by (simp add: enc_length)
  show ?case
  proof (cases i)
    case 0
    then show ?thesis using Cons.prems x by (simp add: dec_enc)
  next
    case (Suc j)
    then have "drop (width * i) (concat (map enc (x # xs))) = drop (width * j) (concat (map enc xs))"
      using x by simp
    then show ?thesis using Cons Suc by simp
  qed
qed

lemma dec_all:
  assumes "list_all ok xs"
  shows "map (\<lambda>i. dec (take width (drop (width * i) (concat (map enc xs))))) [0..<length xs] = xs"
  using dec_nth [OF assms] by (intro nth_equalityI) auto

end

interpretation le16_codec: codec le16_bytes le16 "\<lambda>_. True" 2
  by unfold_locales (simp_all, simp add: le16_bytes_def)

lemma le32_le32_bytes [simp]: "le32 (le32_bytes v) = v"
  by (simp add: le32_def le32_bytes_def)

interpretation le32_codec: codec le32_bytes le32 "\<lambda>_. True" 4
  by unfold_locales (simp_all, simp add: le32_bytes_def)

interpretation be32_codec: codec be32_bytes "\<lambda>bs. be32 (bs ! 0) (bs ! 1) (bs ! 2) (bs ! 3)" "\<lambda>_. True" 4
  by unfold_locales (auto simp: be32_bytes_def)

subsection \<open>Contract: operations that keep an invariant\<close>

text \<open>
  Several components are state machines driven by inputs in an order the program does not
  control. \<open>invariant_machine\<close> is the obligation (every defined step keeps the invariant)
  and what a client gets from it (every defined run keeps it); \<open>safe_machine\<close> adds a
  start state.
\<close>

locale invariant_machine =
  fixes step :: "'i \<Rightarrow> 's \<Rightarrow> 's option"
    and inv :: "'s \<Rightarrow> bool"
  assumes step_inv: "inv s \<Longrightarrow> step i s = Some t \<Longrightarrow> inv t"
begin

lemma run_inv: "for_each is step s = Some t \<Longrightarrow> inv s \<Longrightarrow> inv t"
  by (rule for_each_inv) (auto intro: step_inv)

end

locale safe_machine = invariant_machine +
  fixes init :: 's
  assumes init_inv: "inv init"
begin

lemma reach_inv: "for_each is step init = Some t \<Longrightarrow> inv t"
  using run_inv init_inv by blast

end

subsection \<open>Exclusive-or checksums\<close>

definition xor_all :: "'a::len word \<Rightarrow> 'a word list \<Rightarrow> 'a word" where
  "xor_all c xs = foldl (XOR) c xs"

lemma xor_all_Nil [simp]: "xor_all c [] = c"
  by (simp add: xor_all_def)

lemma xor_all_Cons [simp]: "xor_all c (x # xs) = xor_all (c XOR x) xs"
  by (simp add: xor_all_def)

lemma xor_all_append [simp]: "xor_all c (xs @ ys) = xor_all (xor_all c xs) ys"
  by (simp add: xor_all_def)

lemma xor_all_start: "xor_all c xs = c XOR xor_all 0 xs"
proof (induction xs arbitrary: c)
  case Nil
  then show ?case by simp
next
  case (Cons x xs)
  have "xor_all (c XOR x) xs = (c XOR x) XOR xor_all 0 xs"
    by (rule Cons.IH)
  also have "\<dots> = c XOR (x XOR xor_all 0 xs)"
    by (simp only: xor.assoc)
  also have "x XOR xor_all 0 xs = xor_all x xs"
    by (rule Cons.IH [symmetric])
  finally show ?case by simp
qed

lemma xor_all_self [simp]: "xor_all 0 (xs @ [xor_all 0 xs]) = 0"
  by simp

subsection \<open>Strings\<close>

definition cstr :: "string \<Rightarrow> byte list" where
  \<comment> \<open>the characters of a literal, without the terminator\<close>
  "cstr s = map of_char s"

lemma cstr_length [simp]: "length (cstr s) = length s"
  by (simp add: cstr_def)

lemma of_char_byte: "(of_char c :: byte) = of_char d \<longleftrightarrow> c = d"
proof
  assume "(of_char c :: byte) = of_char d"
  then have "unat (word_of_nat (of_char c) :: byte) = unat (word_of_nat (of_char d) :: byte)"
    by (simp add: of_nat_of_char)
  then show "c = d" by (simp add: unat_of_nat)
qed simp

lemma cstr_inj [simp]: "cstr a = cstr b \<longleftrightarrow> a = b"
  unfolding cstr_def by (rule inj_map_eq_map) (simp add: inj_def of_char_byte)

lemma of_char_zero: "(of_char c :: byte) = 0 \<longleftrightarrow> c = CHR 0x00"
  using of_char_byte [of c "CHR 0x00"] by simp

definition c_text :: "string \<Rightarrow> bool" where
  \<comment> \<open>text without an embedded terminator\<close>
  "c_text s \<longleftrightarrow> CHR 0x00 \<notin> set s"

lemma c_text_bytes: "c_text s \<Longrightarrow> 0 \<notin> set (cstr s)"
  by (auto simp: c_text_def cstr_def of_char_zero)

end
