(* ===== verification/RingQueue.thy ===== *)
theory RingQueue
  imports Prelude
begin

text \<open>
  \<open>queue.c\<close>: the ring buffer of 32-bit words that carries frames from the FPGA FIFO to the
  parser. The operations are modelled on the C structure; the abstraction \<open>queue_list\<close> reads
  the structure as the list of words still to be popped, and the FIFO contract \<open>fifo_store\<close>
  is proved of the operations. \<open>queue_push\<close> does not test for a full buffer: what it does
  then is stated too.
\<close>

record Queue =
  q_front :: uint
  q_rear :: uint
  q_depth :: uint
  frame_over_flag :: uint
  q_data :: "uint list"

definition c_umod :: "uint \<Rightarrow> uint \<Rightarrow> uint option" where
  \<comment> \<open>unsigned \<open>%\<close>; a zero divisor has no defined result\<close>
  "c_umod a b = (if b = 0 then None else Some (a mod b))"

definition queue_init :: "Queue \<Rightarrow> uint list \<Rightarrow> uint \<Rightarrow> Queue option" where
  \<comment> \<open>\<open>ptr\<close> is the array handed over; \<open>memset\<close> clears its first \<open>sz\<close> words\<close>
  "queue_init q ptr sz = do {
     let q = q\<lparr>q_front := 0, q_rear := 0, q_depth := sz, q_data := ptr\<rparr>;
     d \<leftarrow> blit (q_data q) 0 (replicate (unat (q_depth q)) 0);
     Some (q\<lparr>q_data := d, frame_over_flag := 0\<rparr>)
   }"

definition queue_clear :: "Queue \<Rightarrow> Queue" where
  "queue_clear q = q\<lparr>q_front := 0, q_rear := 0\<rparr>"

definition queue_push :: "Queue \<Rightarrow> uint \<Rightarrow> (bool \<times> Queue) option" where
  "queue_push q x = do {
     d \<leftarrow> arr_set (q_data q) (unat (q_rear q)) x;
     let q = q\<lparr>q_data := d\<rparr>;
     r \<leftarrow> c_umod (q_rear q + 1) (q_depth q);
     Some (True, q\<lparr>q_rear := r\<rparr>)
   }"

definition queue_pop :: "Queue \<Rightarrow> (uint \<times> Queue) option" where
  "queue_pop q = do {
     x \<leftarrow> arr_get (q_data q) (unat (q_front q));
     f \<leftarrow> c_umod (q_front q + 1) (q_depth q);
     Some (x, q\<lparr>q_front := f\<rparr>)
   }"

definition queue_is_empty :: "Queue \<Rightarrow> bool" where
  "queue_is_empty q = (q_front q = q_rear q)"

definition queue_is_full :: "Queue \<Rightarrow> bool option" where
  "queue_is_full q = do {
     n \<leftarrow> c_umod (q_rear q + 1) (q_depth q);
     Some (q_front q = n)
   }"

definition queue_count :: "Queue \<Rightarrow> uint option" where
  "queue_count q =
     (if \<not> queue_is_empty q
      then c_umod (q_rear q + q_depth q - q_front q) (q_depth q)
      else Some 0)"

subsection \<open>Abstraction and invariant\<close>

definition queue_inv :: "Queue \<Rightarrow> bool" where
  "queue_inv q \<longleftrightarrow>
     0 < unat (q_depth q) \<and> unat (q_depth q) \<le> 2 ^ 31 \<and> length (q_data q) = unat (q_depth q) \<and>
     unat (q_front q) < unat (q_depth q) \<and> unat (q_rear q) < unat (q_depth q)"

definition ring_len :: "nat \<Rightarrow> nat \<Rightarrow> nat \<Rightarrow> nat" where
  \<comment> \<open>the distance from \<open>f\<close> to \<open>r\<close> on a ring of \<open>n\<close> places\<close>
  "ring_len n f r = (r + n - f) mod n"

definition queue_list :: "Queue \<Rightarrow> uint list" where
  "queue_list q =
     map (\<lambda>i. q_data q ! ((unat (q_front q) + i) mod unat (q_depth q)))
       [0..<ring_len (unat (q_depth q)) (unat (q_front q)) (unat (q_rear q))]"

lemma ring_len_less: "0 < n \<Longrightarrow> ring_len n f r < n"
  by (simp add: ring_len_def)

lemma ring_len_cases:
  assumes "f < n" and "r < n"
  shows "ring_len n f r = (if f \<le> r then r - f else r + n - f)"
proof (cases "f \<le> r")
  case True
  then have "r + n - f = (r - f) + n" by simp
  then have "ring_len n f r = (r - f) mod n" by (simp add: ring_len_def del: diff_add_assoc2)
  then show ?thesis using True assms by simp
next
  case False
  then show ?thesis using assms by (simp add: ring_len_def)
qed

lemma ring_len_0_iff: "f < n \<Longrightarrow> r < n \<Longrightarrow> ring_len n f r = 0 \<longleftrightarrow> f = r"
  by (auto simp: ring_len_cases)

lemma mod_Suc_small: "r < n \<Longrightarrow> Suc r mod n = (if Suc r = n then 0 else Suc r)"
  by auto

lemma ring_len_push:
  assumes "f < n" and "r < n" and "f \<noteq> Suc r mod n"
  shows "ring_len n f (Suc r mod n) = Suc (ring_len n f r)"
  using assms by (auto simp: ring_len_cases mod_Suc_small split: if_splits)

lemma ring_len_pop:
  assumes "f < n" and "r < n" and "f \<noteq> r"
  shows "Suc (ring_len n (Suc f mod n) r) = ring_len n f r"
  using assms by (auto simp: ring_len_cases mod_Suc_small split: if_splits)

lemma ring_pos_rear:
  assumes "f < n" and "r < n"
  shows "(f + ring_len n f r) mod n = r"
  using assms by (auto simp: ring_len_cases)

lemma ring_pos_other:
  assumes "f < n" and "r < n" and "i < ring_len n f r"
  shows "(f + i) mod n \<noteq> r"
proof
  assume eq: "(f + i) mod n = r"
  have "ring_len n f r < n" using assms(1) by (intro ring_len_less) simp
  then have i: "i < n" using assms(3) by simp
  show False
  proof (cases "f + i < n")
    case True
    then have "r = f + i" using eq by simp
    then show False using assms by (simp add: ring_len_cases)
  next
    case False
    then have "(f + i) mod n = f + i - n" using assms(1) i by (simp add: le_mod_geq)
    then show False using eq assms False by (auto simp: ring_len_cases split: if_splits)
  qed
qed

lemma unat_next:
  fixes a b :: uint
  assumes "unat a < unat b" and "unat b \<le> 2 ^ 31"
  shows "unat ((a + 1) mod b) = Suc (unat a) mod unat b"
proof -
  have "unat (a + 1) = Suc (unat a)"
    using assms by (simp add: unat_word_ariths)
  then show ?thesis by (simp add: unat_mod_distrib)
qed

lemma queue_push_result:
  assumes "queue_inv q"
  shows "queue_push q x =
    Some (True, q\<lparr>q_data := (q_data q)[unat (q_rear q) := x],
                  q_rear := (q_rear q + 1) mod q_depth q\<rparr>)"
  using assms by (auto simp: queue_push_def queue_inv_def c_umod_def Let_def)

lemma queue_pop_result:
  assumes "queue_inv q"
  shows "queue_pop q =
    Some (q_data q ! unat (q_front q), q\<lparr>q_front := (q_front q + 1) mod q_depth q\<rparr>)"
  using assms by (auto simp: queue_pop_def queue_inv_def c_umod_def)

lemma queue_is_full_result:
  assumes "queue_inv q"
  shows "queue_is_full q = Some (q_front q = (q_rear q + 1) mod q_depth q)"
  using assms by (auto simp: queue_is_full_def queue_inv_def c_umod_def)

lemma full_iff_nat:
  assumes "queue_inv q"
  shows "q_front q = (q_rear q + 1) mod q_depth q \<longleftrightarrow>
     unat (q_front q) = Suc (unat (q_rear q)) mod unat (q_depth q)"
  using assms unat_next [of "q_rear q" "q_depth q"]
  by (metis queue_inv_def word_unat_eq_iff)

lemma queue_push_inv: "queue_inv q \<Longrightarrow> queue_push q x = Some (b, q') \<Longrightarrow> queue_inv q'"
  by (auto simp: queue_push_result queue_inv_def unat_next)

lemma queue_pop_inv: "queue_inv q \<Longrightarrow> queue_pop q = Some (x, q') \<Longrightarrow> queue_inv q'"
  by (auto simp: queue_pop_result queue_inv_def unat_next)

lemma queue_clear_inv: "queue_inv q \<Longrightarrow> queue_inv (queue_clear q)"
  by (auto simp: queue_clear_def queue_inv_def)

lemma queue_list_clear [simp]: "queue_list (queue_clear q) = []"
  by (simp add: queue_clear_def queue_list_def ring_len_def)

lemma queue_is_empty_iff: "queue_inv q \<Longrightarrow> queue_is_empty q \<longleftrightarrow> queue_list q = []"
  by (auto simp: queue_is_empty_def queue_list_def queue_inv_def ring_len_0_iff word_unat_eq_iff)

lemma queue_list_push:
  assumes inv: "queue_inv q" and room: "queue_is_full q = Some False"
    and push: "queue_push q x = Some (b, q')"
  shows "queue_list q' = queue_list q @ [x]"
proof -
  define n f r where "n = unat (q_depth q)" and "f = unat (q_front q)" and "r = unat (q_rear q)"
  have bounds: "f < n" "r < n" "length (q_data q) = n" "n \<le> 2 ^ 31"
    using inv by (auto simp: queue_inv_def n_def f_def r_def)
  have room': "f \<noteq> Suc r mod n"
    using room inv by (simp add: queue_is_full_result full_iff_nat n_def f_def r_def)
  have q': "q' = q\<lparr>q_data := (q_data q)[r := x], q_rear := (q_rear q + 1) mod q_depth q\<rparr>"
    using push inv by (simp add: queue_push_result r_def)
  have len: "ring_len n f (Suc r mod n) = Suc (ring_len n f r)"
    using bounds room' by (simp add: ring_len_push)
  have rear: "unat ((q_rear q + 1) mod q_depth q) = Suc r mod n"
    using bounds by (simp add: unat_next n_def r_def)
  have "queue_list q' =
      map (\<lambda>i. (q_data q)[r := x] ! ((f + i) mod n)) [0..<Suc (ring_len n f r)]"
    unfolding queue_list_def using q' len rear by (simp add: n_def f_def del: upt_Suc)
  also have "\<dots> = map (\<lambda>i. q_data q ! ((f + i) mod n)) [0..<ring_len n f r] @ [x]"
    using bounds ring_pos_other [of f n r, THEN not_sym] ring_pos_rear [of f n r] by auto
  finally show ?thesis by (simp add: queue_list_def n_def f_def r_def)
qed

lemma queue_list_pop:
  assumes inv: "queue_inv q" and some: "queue_list q \<noteq> []"
    and pop: "queue_pop q = Some (x, q')"
  shows "queue_list q = x # queue_list q'"
proof -
  define n f r where "n = unat (q_depth q)" and "f = unat (q_front q)" and "r = unat (q_rear q)"
  have bounds: "f < n" "r < n" "length (q_data q) = n" "n \<le> 2 ^ 31"
    using inv by (auto simp: queue_inv_def n_def f_def r_def)
  have ne: "f \<noteq> r"
    using some ring_len_0_iff [OF bounds(1,2)] by (auto simp: queue_list_def n_def f_def r_def)
  have q': "q' = q\<lparr>q_front := (q_front q + 1) mod q_depth q\<rparr>" and x: "x = q_data q ! f"
    using pop inv by (simp_all add: queue_pop_result f_def)
  have front: "unat ((q_front q + 1) mod q_depth q) = Suc f mod n"
    using bounds by (simp add: unat_next n_def f_def)
  have len: "ring_len n f r = Suc (ring_len n (Suc f mod n) r)"
    using bounds ne by (simp add: ring_len_pop)
  have "queue_list q = map (\<lambda>i. q_data q ! ((f + i) mod n)) [0..<Suc (ring_len n (Suc f mod n) r)]"
    using len by (simp add: queue_list_def n_def f_def r_def del: upt_Suc)
  also have "\<dots> = q_data q ! f #
      map (\<lambda>i. q_data q ! ((f + Suc i) mod n)) [0..<ring_len n (Suc f mod n) r]"
    using bounds by (simp add: map_upt_Suc del: upt_Suc)
  also have "map (\<lambda>i. q_data q ! ((f + Suc i) mod n)) [0..<ring_len n (Suc f mod n) r] = queue_list q'"
    using q' front by (simp add: queue_list_def n_def r_def mod_simps)
  finally show ?thesis using x by simp
qed

lemma queue_list_length_less: "queue_inv q \<Longrightarrow> length (queue_list q) < unat (q_depth q)"
  by (simp add: queue_list_def ring_len_less queue_inv_def)

lemma queue_full_iff_length:
  assumes "queue_inv q"
  shows "queue_is_full q = Some (Suc (length (queue_list q)) = unat (q_depth q))"
  using assms
  by (auto simp: queue_is_full_result full_iff_nat queue_list_def queue_inv_def ring_len_cases
      mod_Suc_small split: if_splits)

subsection \<open>Contract: a bounded FIFO store\<close>

locale fifo_store =
  fixes push :: "'q \<Rightarrow> 'a \<Rightarrow> (bool \<times> 'q) option"
    and pop :: "'q \<Rightarrow> ('a \<times> 'q) option"
    and full :: "'q \<Rightarrow> bool option"
    and content :: "'q \<Rightarrow> 'a list"
    and capacity :: "'q \<Rightarrow> nat"
    and inv :: "'q \<Rightarrow> bool"
  assumes push_ok: "inv q \<Longrightarrow> full q = Some False \<Longrightarrow>
      \<exists>q'. push q x = Some (True, q') \<and> inv q' \<and> content q' = content q @ [x] \<and> capacity q' = capacity q"
    and pop_ok: "inv q \<Longrightarrow> content q = x # xs \<Longrightarrow>
      \<exists>q'. pop q = Some (x, q') \<and> inv q' \<and> content q' = xs \<and> capacity q' = capacity q"
    and full_iff: "inv q \<Longrightarrow> full q = Some (capacity q \<le> length (content q))"
begin

definition push_all :: "'a list \<Rightarrow> 'q \<Rightarrow> 'q option" where
  "push_all xs = for_each xs (\<lambda>x q. map_option snd (push q x))"

primrec pop_n :: "nat \<Rightarrow> 'q \<Rightarrow> ('a list \<times> 'q) option" where
  "pop_n 0 q = Some ([], q)"
| "pop_n (Suc n) q = do { (x, q) \<leftarrow> pop q; (xs, q) \<leftarrow> pop_n n q; Some (x # xs, q) }"

lemma push_all_ok:
  assumes "inv q" and "length (content q) + length xs \<le> capacity q"
  shows "\<exists>q'. push_all xs q = Some q' \<and> inv q' \<and> content q' = content q @ xs \<and> capacity q' = capacity q"
  using assms
proof (induction xs arbitrary: q)
  case Nil
  then show ?case by (simp add: push_all_def)
next
  case (Cons x xs)
  then have "full q = Some False" by (simp add: full_iff)
  then obtain q1 where q1: "push q x = Some (True, q1)" "inv q1" "content q1 = content q @ [x]"
      "capacity q1 = capacity q"
    using push_ok Cons.prems(1) by blast
  then have "\<exists>q'. push_all xs q1 = Some q' \<and> inv q' \<and> content q' = content q1 @ xs \<and> capacity q' = capacity q1"
    using Cons.prems by (intro Cons.IH) auto
  then show ?case using q1 by (auto simp: push_all_def)
qed

lemma pop_n_ok:
  assumes "inv q" and "content q = xs @ ys"
  shows "\<exists>q'. pop_n (length xs) q = Some (xs, q') \<and> inv q' \<and> content q' = ys"
  using assms
proof (induction xs arbitrary: q)
  case Nil
  then show ?case by simp
next
  case (Cons x xs)
  then obtain q1 where q1: "pop q = Some (x, q1)" "inv q1" "content q1 = xs @ ys"
    using pop_ok [of q x "xs @ ys"] by auto
  then show ?case using Cons.IH [of q1] by auto
qed

lemma fifo_order:
  assumes "inv q" and "content q = []" and "length xs \<le> capacity q"
  shows "\<exists>q1 q2. push_all xs q = Some q1 \<and> pop_n (length xs) q1 = Some (xs, q2) \<and> content q2 = []"
proof -
  obtain q1 where q1: "push_all xs q = Some q1" "inv q1" "content q1 = xs"
    using push_all_ok [of q xs] assms by auto
  then show ?thesis using pop_n_ok [of q1 xs "[]"] by auto
qed

end

interpretation ring: fifo_store queue_push queue_pop queue_is_full queue_list
    "\<lambda>q. unat (q_depth q) - 1" queue_inv
proof
  fix q and x :: uint
  assume "queue_inv q" "queue_is_full q = Some False"
  then show "\<exists>q'. queue_push q x = Some (True, q') \<and> queue_inv q' \<and> queue_list q' = queue_list q @ [x] \<and>
      unat (q_depth q') - 1 = unat (q_depth q) - 1"
    using queue_list_push queue_push_inv by (auto simp: queue_push_result)
next
  fix q x xs
  assume inv: "queue_inv q" and "queue_list q = x # xs"
  then show "\<exists>q'. queue_pop q = Some (x, q') \<and> queue_inv q' \<and> queue_list q' = xs \<and>
      unat (q_depth q') - 1 = unat (q_depth q) - 1"
    using queue_list_pop [OF inv] queue_pop_inv [OF inv] by (auto simp: queue_pop_result)
next
  fix q
  assume "queue_inv q"
  then show "queue_is_full q = Some (unat (q_depth q) - 1 \<le> length (queue_list q))"
    using queue_list_length_less [of q] by (auto simp: queue_full_iff_length queue_inv_def)
qed

datatype queue_op = Push uint | Pop | Clear

fun queue_step :: "queue_op \<Rightarrow> Queue \<Rightarrow> Queue option" where
  "queue_step (Push x) q = map_option snd (queue_push q x)"
| "queue_step Pop q = map_option snd (queue_pop q)"
| "queue_step Clear q = Some (queue_clear q)"

interpretation ring_machine: invariant_machine queue_step queue_inv
proof
  fix q i t
  assume "queue_inv q" "queue_step i q = Some t"
  then show "queue_inv t"
  proof (cases i)
    case (Push x)
    then show ?thesis using \<open>queue_step i q = Some t\<close> queue_push_inv [OF \<open>queue_inv q\<close>] by force
  next
    case Pop
    then show ?thesis using \<open>queue_step i q = Some t\<close> queue_pop_inv [OF \<open>queue_inv q\<close>] by force
  next
    case Clear
    then show ?thesis using \<open>queue_step i q = Some t\<close> queue_clear_inv [OF \<open>queue_inv q\<close>] by simp
  qed
qed

subsection \<open>Refinement of a bounded list\<close>

text \<open>
  The specification of the ring is a list with a capacity: a push appends, a pop takes the head,
  and both are undefined where the program must not call them (a push on a full queue, a pop on
  an empty one). \<open>queue_exec\<close> runs the same operations on the C structure and collects the
  words popped.
\<close>

fun fifo_spec :: "nat \<Rightarrow> queue_op list \<Rightarrow> uint list \<Rightarrow> (uint list \<times> uint list) option" where
  "fifo_spec cap [] xs = Some ([], xs)"
| "fifo_spec cap (Push x # ops) xs = (if length xs < cap then fifo_spec cap ops (xs @ [x]) else None)"
| "fifo_spec cap (Pop # ops) [] = None"
| "fifo_spec cap (Pop # ops) (x # xs) =
     do { (outs, ys) \<leftarrow> fifo_spec cap ops xs; Some (x # outs, ys) }"
| "fifo_spec cap (Clear # ops) xs = fifo_spec cap ops []"

fun queue_exec :: "queue_op list \<Rightarrow> Queue \<Rightarrow> (uint list \<times> Queue) option" where
  "queue_exec [] q = Some ([], q)"
| "queue_exec (Push x # ops) q = do { (_, q) \<leftarrow> queue_push q x; queue_exec ops q }"
| "queue_exec (Pop # ops) q =
     do { (x, q) \<leftarrow> queue_pop q; (outs, q) \<leftarrow> queue_exec ops q; Some (x # outs, q) }"
| "queue_exec (Clear # ops) q = queue_exec ops (queue_clear q)"

lemma queue_clear_depth [simp]: "q_depth (queue_clear q) = q_depth q"
  by (simp add: queue_clear_def)

text \<open>C10: the ring buffer refines a bounded FIFO list: any sequence of pushes, pops and clears that
  the list specification allows runs on the C structure without leaving its array, pops the same
  words in the same order, keeps the structure's invariant, and leaves the same contents.\<close>

theorem queue_refines_fifo:
  assumes "queue_inv q" and "fifo_spec (unat (q_depth q) - 1) ops (queue_list q) = Some (outs, ys)"
  shows "\<exists>q'. queue_exec ops q = Some (outs, q') \<and> queue_list q' = ys \<and> queue_inv q'"
  using assms
proof (induction ops arbitrary: q outs)
  case Nil
  then show ?case by simp
next
  case (Cons i ops)
  show ?case
  proof (cases i)
    case (Push x)
    have room: "queue_is_full q = Some False"
      using Cons.prems Push by (auto simp: ring.full_iff split: if_splits)
    obtain q1 where "queue_push q x = Some (True, q1)" "queue_inv q1"
        "queue_list q1 = queue_list q @ [x]" "unat (q_depth q1) - 1 = unat (q_depth q) - 1"
      using ring.push_ok [OF Cons.prems(1) room] by blast
    then show ?thesis using Cons.IH [of q1 outs] Cons.prems Push by (auto split: if_splits)
  next
    case Pop
    then obtain x xs where xs: "queue_list q = x # xs"
      using Cons.prems by (cases "queue_list q") auto
    then obtain outs' where "outs = x # outs'" "fifo_spec (unat (q_depth q) - 1) ops xs = Some (outs', ys)"
      using Cons.prems Pop by (auto split: bind_splits)
    moreover obtain q1 where "queue_pop q = Some (x, q1)" "queue_inv q1" "queue_list q1 = xs"
        "unat (q_depth q1) - 1 = unat (q_depth q) - 1"
      using ring.pop_ok [OF Cons.prems(1) xs] by blast
    ultimately show ?thesis using Cons.IH [of q1 outs'] Pop by auto
  next
    case Clear
    then show ?thesis using Cons.IH [of "queue_clear q" outs] Cons.prems queue_clear_inv by auto
  qed
qed

definition demo_queue :: Queue where
  \<comment> \<open>four places, two of them in use, wrapped around the end of the array\<close>
  "demo_queue = \<lparr>q_front = 3, q_rear = 1, q_depth = 4, frame_over_flag = 0, q_data = [8, 0, 0, 7]\<rparr>"

lemma demo_queue_facts:
  "queue_inv demo_queue" "queue_list demo_queue = [7, 8]" "unat (q_depth demo_queue) = 4"
  by (simp_all add: demo_queue_def queue_inv_def queue_list_def ring_len_def upt_rec)

theorem queue_refines_fifo_witness:
  "\<exists>q'. queue_exec [Push 9, Pop, Pop, Push 1] demo_queue = Some ([7, 8], q') \<and>
     queue_list q' = [9, 1] \<and> queue_inv q'"
  by (rule queue_refines_fifo) (simp_all add: demo_queue_facts)

text \<open>On a well-formed queue \<open>queue_count\<close> is the number of words waiting, and that number
  is below the depth.\<close>

theorem queue_count_waiting:
  assumes "queue_inv q"
  shows "queue_count q = Some (word_of_nat (length (queue_list q))) \<and>
    length (queue_list q) < unat (q_depth q)"
proof -
  define n f r where "n = unat (q_depth q)" and "f = unat (q_front q)" and "r = unat (q_rear q)"
  have b: "f < n" "r < n" "n \<le> 2 ^ 31" "0 < n"
    using assms by (auto simp: queue_inv_def n_def f_def r_def)
  have len: "length (queue_list q) = ring_len n f r"
    by (simp add: queue_list_def n_def f_def r_def)
  have "unat (q_rear q + q_depth q) = r + n"
    using b by (simp add: unat_word_ariths n_def r_def)
  then have "unat (q_rear q + q_depth q - q_front q) = r + n - f"
    using b by (simp add: unat_sub word_le_nat_alt f_def)
  then have "unat ((q_rear q + q_depth q - q_front q) mod q_depth q) = ring_len n f r"
    by (simp add: unat_mod_distrib ring_len_def n_def)
  then have "(q_rear q + q_depth q - q_front q) mod q_depth q = word_of_nat (ring_len n f r)"
    by (metis of_nat_unat ucast_id)
  moreover have "queue_is_empty q \<Longrightarrow> ring_len n f r = 0"
    using b by (simp add: queue_is_empty_def ring_len_0_iff f_def r_def)
  ultimately show ?thesis
    using b len ring_len_less [of n f r]
    by (auto simp: queue_count_def c_umod_def n_def unat_eq_0)
qed

theorem queue_count_waiting_witness:
  "queue_count demo_queue = Some (word_of_nat (length (queue_list demo_queue))) \<and>
   length (queue_list demo_queue) < unat (q_depth demo_queue)"
  by (rule queue_count_waiting) (rule demo_queue_facts)

text \<open>\<open>queue_push\<close> does not refuse when the ring is full: it reports success, and the queue it
  leaves is empty, so every word waiting and the word pushed are lost.\<close>

theorem queue_push_full_loses_all:
  assumes "queue_inv q" and "queue_is_full q = Some True"
  shows "\<exists>q'. queue_push q x = Some (True, q') \<and> queue_is_empty q' \<and> queue_list q' = [] \<and>
    length (queue_list q) = unat (q_depth q) - 1"
proof -
  have front: "q_front q = (q_rear q + 1) mod q_depth q"
    using assms by (simp add: queue_is_full_result)
  obtain q' where q': "queue_push q x = Some (True, q')" "q_front q' = q_rear q'"
    using assms(1) front by (simp add: queue_push_result)
  have "queue_inv q'" using queue_push_inv [OF assms(1) q'(1)] .
  moreover have "queue_is_empty q'" using q' by (simp add: queue_is_empty_def)
  ultimately have "queue_list q' = []" by (simp add: queue_is_empty_iff)
  moreover have "length (queue_list q) = unat (q_depth q) - 1"
    using assms queue_full_iff_length [of q] by simp
  ultimately show ?thesis using q' \<open>queue_is_empty q'\<close> by blast
qed

theorem queue_push_full_loses_all_witness:
  "\<exists>q'. queue_push \<lparr>q_front = 2, q_rear = 1, q_depth = 3, frame_over_flag = 0, q_data = [5, 0, 4]\<rparr> 6
      = Some (True, q') \<and> queue_is_empty q' \<and> queue_list q' = [] \<and>
    length (queue_list \<lparr>q_front = 2, q_rear = 1, q_depth = 3, frame_over_flag = 0, q_data = [5, 0, 4]\<rparr>)
      = unat (q_depth \<lparr>q_front = 2, q_rear = 1, q_depth = 3, frame_over_flag = 0, q_data = [5, 0, 4]\<rparr>) - 1"
  by (rule queue_push_full_loses_all) (simp_all add: queue_inv_def queue_is_full_def c_umod_def)

lemma queue_init_result:
  assumes "length ptr = unat sz" and "0 < unat sz" and "unat sz \<le> 2 ^ 31"
  shows "\<exists>q'. queue_init q ptr sz = Some q' \<and> queue_inv q' \<and> queue_list q' = [] \<and>
    q_data q' = replicate (unat sz) 0"
  using assms
  by (auto simp: queue_init_def blit_def Let_def queue_inv_def queue_list_def ring_len_def)

end
