(* ===== verification/SysPara.thy ===== *)
theory SysPara
  imports Prelude
begin

text \<open>
  The system parameters (\<open>Sys_Para\<close> of \<open>bsp.h\<close>), their power-on values (\<open>bsp.c\<close>), and the
  layout of the structure in memory, which is what the program stores in the EEPROM and sends
  to the PC: it copies the structure byte by byte. \<open>sp_pad\<close> stands for the three padding bytes
  after the leading \<open>bool\<close>; with them the structure is an exact run of 308 bytes.
\<close>

record Sys_Para =
  update_pos_flag :: bool
  sp_pad :: "byte list"
  laser_enable :: uint
  laser_freq :: uint
  laser_recv_delay :: uint
  motor_enable :: uint
  motor_expect_speed :: uint
  zero_distance_revise :: uint
  zero_angle_revise :: uint
  gray_distance_revise1 :: uint
  gray_distance_revise2 :: uint
  gray_distance_revise3 :: uint
  laser_pulse_width :: uint
  signal_thresold :: uint
  noise_diff_setting1 :: uint
  noise_diff_setting2 :: uint
  apd_vol_base :: uint
  gray_inflection1 :: uint
  gray_inflection2 :: uint
  min_display_distance :: uint
  placeholer1 :: uint
  first_noise_filter :: uint
  nios_ver :: "byte list"
  fpga_ver :: "byte list"
  temp_volt_cof1 :: uint
  temp_volt_cof2 :: uint
  temp_volt_inflection :: uint
  temp_distance_cof1 :: uint
  temp_distance_cof2 :: uint
  temp_distance_inflection :: uint
  zero_value :: uint
  sys_temp :: uint
  max_pwm_duty :: uint
  min_pwm_duty :: uint
  motor_real_speed :: uint
  dust_alarm_threshold :: uint
  da_cycle_para1 :: uint
  da_cycle_para2 :: uint
  da_cycle_para3 :: uint
  da_cycle_para4 :: uint
  da_cycle_para5 :: uint
  da_cycle_para6 :: uint
  da_cycle_para7 :: uint
  da_cycle_para8 :: uint
  da_cycle_para9 :: uint
  board_type :: uint
  zero_pulse_width :: uint
  dev_type :: "byte list"
  dev_pn :: "byte list"
  dev_sn :: "byte list"
  laser_presdo :: "byte list"
  xxx1 :: byte
  xxx2 :: byte
  valid_num_threshold :: uint
  gray_inflection3 :: uint
  gray_inflection4 :: uint
  gray_distance_revise4 :: uint
  gray_distance_revise5 :: uint
  dust_threshold :: uint
  min_target_size :: uint
  alarm_output_threshold :: uint
  pc_command_value :: uint

text \<open>The initialiser; fields it does not name are zero, as for any static object.\<close>

definition SysPara_init :: Sys_Para where
  "SysPara_init = \<lparr>
     update_pos_flag = False,
     sp_pad = [0, 0, 0],
     laser_enable = 0x11111111,
     laser_freq = 100000000,
     laser_recv_delay = 2,
     motor_enable = 0x11111111,
     motor_expect_speed = 15,
     zero_distance_revise = 0,
     zero_angle_revise = 135,
     gray_distance_revise1 = 35,
     gray_distance_revise2 = 140,
     gray_distance_revise3 = 140,
     laser_pulse_width = 7,
     signal_thresold = 100,
     noise_diff_setting1 = 180,
     noise_diff_setting2 = 100,
     apd_vol_base = 520,
     gray_inflection1 = 59,
     gray_inflection2 = 120,
     min_display_distance = 50,
     placeholer1 = 0xeeeeeeee,
     first_noise_filter = 3,
     nios_ver = [0x30, 0x2e, 0x30, 0x31],
     fpga_ver = [0x30, 0x2e, 0x30, 0x31],
     temp_volt_cof1 = 35,
     temp_volt_cof2 = 38,
     temp_volt_inflection = 25,
     temp_distance_cof1 = 13,
     temp_distance_cof2 = 9,
     temp_distance_inflection = 16,
     zero_value = 0,
     sys_temp = 0,
     max_pwm_duty = 10,
     min_pwm_duty = 0,
     motor_real_speed = 0,
     dust_alarm_threshold = 35,
     da_cycle_para1 = 88,
     da_cycle_para2 = 112,
     da_cycle_para3 = 136,
     da_cycle_para4 = 160,
     da_cycle_para5 = 172,
     da_cycle_para6 = 148,
     da_cycle_para7 = 124,
     da_cycle_para8 = 100,
     da_cycle_para9 = 76,
     board_type = 1,
     zero_pulse_width = 0,
     dev_type = replicate 20 0,
     dev_pn = replicate 20 0,
     dev_sn = replicate 16 0,
     laser_presdo = replicate 30 0,
     xxx1 = 0,
     xxx2 = 0,
     valid_num_threshold = 0,
     gray_inflection3 = 200,
     gray_inflection4 = 0,
     gray_distance_revise4 = 0,
     gray_distance_revise5 = 0,
     dust_threshold = 400,
     min_target_size = 0,
     alarm_output_threshold = 1,
     pc_command_value = 0\<rparr>"

definition sys_para_wf :: "Sys_Para \<Rightarrow> bool" where
  \<comment> \<open>the arrays of the structure have their declared lengths\<close>
  "sys_para_wf p \<longleftrightarrow> length (sp_pad p) = 3 \<and> length (nios_ver p) = 4 \<and> length (fpga_ver p) = 4 \<and>
     length (dev_type p) = 20 \<and> length (dev_pn p) = 20 \<and> length (dev_sn p) = 16 \<and>
     length (laser_presdo p) = 30"

subsection \<open>Layout in memory\<close>

definition SYS_PARA_SIZE :: nat where "SYS_PARA_SIZE = 308" \<comment> \<open>\<open>sizeof(Sys_Para)\<close>\<close>

definition sys_para_bytes :: "Sys_Para \<Rightarrow> byte list" where
  "sys_para_bytes p =
     [of_bool (update_pos_flag p)] @ sp_pad p @
     le32_bytes (laser_enable p) @ le32_bytes (laser_freq p) @ le32_bytes (laser_recv_delay p) @
     le32_bytes (motor_enable p) @ le32_bytes (motor_expect_speed p) @
     le32_bytes (zero_distance_revise p) @ le32_bytes (zero_angle_revise p) @
     le32_bytes (gray_distance_revise1 p) @ le32_bytes (gray_distance_revise2 p) @
     le32_bytes (gray_distance_revise3 p) @ le32_bytes (laser_pulse_width p) @
     le32_bytes (signal_thresold p) @ le32_bytes (noise_diff_setting1 p) @
     le32_bytes (noise_diff_setting2 p) @ le32_bytes (apd_vol_base p) @
     le32_bytes (gray_inflection1 p) @ le32_bytes (gray_inflection2 p) @
     le32_bytes (min_display_distance p) @ le32_bytes (placeholer1 p) @
     le32_bytes (first_noise_filter p) @ nios_ver p @ fpga_ver p @
     le32_bytes (temp_volt_cof1 p) @ le32_bytes (temp_volt_cof2 p) @
     le32_bytes (temp_volt_inflection p) @ le32_bytes (temp_distance_cof1 p) @
     le32_bytes (temp_distance_cof2 p) @ le32_bytes (temp_distance_inflection p) @
     le32_bytes (zero_value p) @ le32_bytes (sys_temp p) @ le32_bytes (max_pwm_duty p) @
     le32_bytes (min_pwm_duty p) @ le32_bytes (motor_real_speed p) @
     le32_bytes (dust_alarm_threshold p) @ le32_bytes (da_cycle_para1 p) @
     le32_bytes (da_cycle_para2 p) @ le32_bytes (da_cycle_para3 p) @
     le32_bytes (da_cycle_para4 p) @ le32_bytes (da_cycle_para5 p) @
     le32_bytes (da_cycle_para6 p) @ le32_bytes (da_cycle_para7 p) @
     le32_bytes (da_cycle_para8 p) @ le32_bytes (da_cycle_para9 p) @ le32_bytes (board_type p) @
     le32_bytes (zero_pulse_width p) @ dev_type p @ dev_pn p @ dev_sn p @ laser_presdo p @
     [xxx1 p] @ [xxx2 p] @ le32_bytes (valid_num_threshold p) @ le32_bytes (gray_inflection3 p) @
     le32_bytes (gray_inflection4 p) @ le32_bytes (gray_distance_revise4 p) @
     le32_bytes (gray_distance_revise5 p) @ le32_bytes (dust_threshold p) @
     le32_bytes (min_target_size p) @ le32_bytes (alarm_output_threshold p) @
     le32_bytes (pc_command_value p)"

definition u32_at :: "byte list \<Rightarrow> nat \<Rightarrow> uint" where
  "u32_at bs off = le32 (take 4 (drop off bs))"

definition bytes_at :: "byte list \<Rightarrow> nat \<Rightarrow> nat \<Rightarrow> byte list" where
  "bytes_at bs off n = take n (drop off bs)"

definition sys_para_of_bytes :: "byte list \<Rightarrow> Sys_Para" where
  "sys_para_of_bytes bs = \<lparr>
     update_pos_flag = (bs ! 0 \<noteq> 0),
     sp_pad = bytes_at bs 1 3,
     laser_enable = u32_at bs 4,
     laser_freq = u32_at bs 8,
     laser_recv_delay = u32_at bs 12,
     motor_enable = u32_at bs 16,
     motor_expect_speed = u32_at bs 20,
     zero_distance_revise = u32_at bs 24,
     zero_angle_revise = u32_at bs 28,
     gray_distance_revise1 = u32_at bs 32,
     gray_distance_revise2 = u32_at bs 36,
     gray_distance_revise3 = u32_at bs 40,
     laser_pulse_width = u32_at bs 44,
     signal_thresold = u32_at bs 48,
     noise_diff_setting1 = u32_at bs 52,
     noise_diff_setting2 = u32_at bs 56,
     apd_vol_base = u32_at bs 60,
     gray_inflection1 = u32_at bs 64,
     gray_inflection2 = u32_at bs 68,
     min_display_distance = u32_at bs 72,
     placeholer1 = u32_at bs 76,
     first_noise_filter = u32_at bs 80,
     nios_ver = bytes_at bs 84 4,
     fpga_ver = bytes_at bs 88 4,
     temp_volt_cof1 = u32_at bs 92,
     temp_volt_cof2 = u32_at bs 96,
     temp_volt_inflection = u32_at bs 100,
     temp_distance_cof1 = u32_at bs 104,
     temp_distance_cof2 = u32_at bs 108,
     temp_distance_inflection = u32_at bs 112,
     zero_value = u32_at bs 116,
     sys_temp = u32_at bs 120,
     max_pwm_duty = u32_at bs 124,
     min_pwm_duty = u32_at bs 128,
     motor_real_speed = u32_at bs 132,
     dust_alarm_threshold = u32_at bs 136,
     da_cycle_para1 = u32_at bs 140,
     da_cycle_para2 = u32_at bs 144,
     da_cycle_para3 = u32_at bs 148,
     da_cycle_para4 = u32_at bs 152,
     da_cycle_para5 = u32_at bs 156,
     da_cycle_para6 = u32_at bs 160,
     da_cycle_para7 = u32_at bs 164,
     da_cycle_para8 = u32_at bs 168,
     da_cycle_para9 = u32_at bs 172,
     board_type = u32_at bs 176,
     zero_pulse_width = u32_at bs 180,
     dev_type = bytes_at bs 184 20,
     dev_pn = bytes_at bs 204 20,
     dev_sn = bytes_at bs 224 16,
     laser_presdo = bytes_at bs 240 30,
     xxx1 = bs ! 270,
     xxx2 = bs ! 271,
     valid_num_threshold = u32_at bs 272,
     gray_inflection3 = u32_at bs 276,
     gray_inflection4 = u32_at bs 280,
     gray_distance_revise4 = u32_at bs 284,
     gray_distance_revise5 = u32_at bs 288,
     dust_threshold = u32_at bs 292,
     min_target_size = u32_at bs 296,
     alarm_output_threshold = u32_at bs 300,
     pc_command_value = u32_at bs 304\<rparr>"

lemma le32_bytes_length [simp]: "length (le32_bytes v) = 4"
  by (simp add: le32_bytes_def)

lemma sys_para_bytes_length: "sys_para_wf p \<Longrightarrow> length (sys_para_bytes p) = SYS_PARA_SIZE"
  by (simp add: sys_para_bytes_def sys_para_wf_def SYS_PARA_SIZE_def)

lemma u32_at_skip: "length xs \<le> off \<Longrightarrow> u32_at (xs @ ys) off = u32_at ys (off - length xs)"
  by (simp add: u32_at_def)

lemma u32_at_here: "u32_at (le32_bytes v @ ys) 0 = v"
  by (simp add: u32_at_def)

lemma u32_at_last: "u32_at (le32_bytes v) 0 = v"
  by (simp add: u32_at_def)

lemma bytes_at_skip: "length xs \<le> off \<Longrightarrow> bytes_at (xs @ ys) off n = bytes_at ys (off - length xs) n"
  by (simp add: bytes_at_def)

lemma bytes_at_here: "length xs = n \<Longrightarrow> bytes_at (xs @ ys) 0 n = xs"
  by (simp add: bytes_at_def)

lemma nth_skip: "length xs \<le> i \<Longrightarrow> (xs @ ys) ! i = ys ! (i - length xs)"
  by (simp add: nth_append)

lemma nth_here: "([x] @ ys) ! 0 = x"
  by simp

lemmas layout_simps = nth_here u32_at_skip u32_at_here u32_at_last bytes_at_skip bytes_at_here nth_skip

lemma sys_para_decode:
  assumes "sys_para_wf p"
  shows "sys_para_of_bytes (sys_para_bytes p) = p"
proof -
  have len: "length (sp_pad p) = 3" "length (nios_ver p) = 4" "length (fpga_ver p) = 4"
    "length (dev_type p) = 20" "length (dev_pn p) = 20" "length (dev_sn p) = 16"
    "length (laser_presdo p) = 30"
    using assms by (simp_all add: sys_para_wf_def)
  show ?thesis
    unfolding sys_para_of_bytes_def sys_para_bytes_def
    by (simp add: layout_simps len del: append_Cons append_assoc)
qed

interpretation para_codec: codec sys_para_bytes sys_para_of_bytes sys_para_wf SYS_PARA_SIZE
  by unfold_locales (simp_all add: sys_para_bytes_length sys_para_decode)

lemma SysPara_init_wf: "sys_para_wf SysPara_init"
  by (simp add: sys_para_wf_def SysPara_init_def)

text \<open>The parameter block survives storage: the byte image of a well-formed parameter structure
  has the size the EEPROM transfer uses (308 bytes), and reading it back gives the same structure,
  so two different structures never have the same image.\<close>

theorem sys_para_storage_roundtrip:
  assumes "sys_para_wf p"
  shows "length (sys_para_bytes p) = SYS_PARA_SIZE \<and> sys_para_of_bytes (sys_para_bytes p) = p \<and>
    inj_on sys_para_bytes (Collect sys_para_wf)"
  using assms para_codec.enc_length para_codec.dec_enc para_codec.enc_inj
  by (auto simp: inj_on_def)

theorem sys_para_storage_roundtrip_witness:
  "length (sys_para_bytes SysPara_init) = SYS_PARA_SIZE \<and>
    sys_para_of_bytes (sys_para_bytes SysPara_init) = SysPara_init \<and>
    inj_on sys_para_bytes (Collect sys_para_wf)"
  by (rule sys_para_storage_roundtrip [OF SysPara_init_wf])

end
