(* ===== verification/Bus.thy ===== *)
theory Bus
  imports Prelude "HOL-Library.While_Combinator"
begin

text \<open>
  The processor's view of its peripherals. Every effect of the program outside memory is an
  access to a device register (the \<open>IORD\<close> and \<open>IOWR\<close> macros of the HAL), so the state every
  operation threads has the \<open>trace\<close> of the accesses made so far, and the hardware is a
  parameter \<open>env\<close>: the value a register read returns is a function of the whole trace before
  it, which covers every device that reacts to what it was sent. No property assumes more of
  \<open>env\<close> than its hypotheses say.

  The theory also holds the Avalon FIFO driver (\<open>altera_avalon_fifo_util.c\<close>), the busy-wait
  delays of \<open>bsp.c\<close>, and the frame contract \<open>frame_rel\<close>, by which every component shows what
  its operations leave alone.
\<close>

subsection \<open>Devices, registers, trace\<close>

datatype dev =
    SCL_BASE | SDA_BASE | ALARM_SELECT_BASE | POWER_LED_BASE | STATUS_LED_BASE
  | W5500_CS_BASE | W5500_INT_BASE | W5500_RST_BASE
  | LASER_FIFO_IN_CSR_BASE | LASER_FIFO_OUT_BASE
  | PROTOCOL_FIFO_IN_BASE | PROTOCOL_FIFO_IN_CSR_BASE
  | SPIRD_FIFO_IN_CSR_BASE | SPIRD_FIFO_OUT_BASE
  | SPIWR_FIFO_IN_BASE | SPIWR_FIFO_IN_CSR_BASE
  | LED_TIMER_BASE | WATCHDOG_BASE
  | JTAG_UART_BASE
  | EPCS_FLASH_REGS  \<comment> \<open>at \<open>EPCS_FLASH_BASE + EPCS_FLASH_REGISTER_OFFSET\<close>\<close>

text \<open>The address map of \<open>system.h\<close>: the names stand for different devices.\<close>

fun base_addr :: "dev \<Rightarrow> uint" where
  "base_addr SCL_BASE = 0x82180"
| "base_addr SDA_BASE = 0x82170"
| "base_addr ALARM_SELECT_BASE = 0x82140"
| "base_addr POWER_LED_BASE = 0x82160"
| "base_addr STATUS_LED_BASE = 0x82150"
| "base_addr W5500_CS_BASE = 0x82190"
| "base_addr W5500_INT_BASE = 0x821a0"
| "base_addr W5500_RST_BASE = 0x821b0"
| "base_addr LASER_FIFO_IN_CSR_BASE = 0x82120"
| "base_addr LASER_FIFO_OUT_BASE = 0x821d0"
| "base_addr PROTOCOL_FIFO_IN_BASE = 0x821e8"
| "base_addr PROTOCOL_FIFO_IN_CSR_BASE = 0x82100"
| "base_addr SPIRD_FIFO_IN_CSR_BASE = 0x820c0"
| "base_addr SPIRD_FIFO_OUT_BASE = 0x821d8"
| "base_addr SPIWR_FIFO_IN_BASE = 0x821e0"
| "base_addr SPIWR_FIFO_IN_CSR_BASE = 0x820e0"
| "base_addr LED_TIMER_BASE = 0x820a0"
| "base_addr WATCHDOG_BASE = 0x82080"
| "base_addr JTAG_UART_BASE = 0x821f8"
| "base_addr EPCS_FLASH_REGS = 0x81000 + 1024"

datatype event =
    Iowr dev nat uint    \<comment> \<open>\<open>IOWR(base, regnum, value)\<close>\<close>
  | Iord dev nat         \<comment> \<open>\<open>IORD(base, regnum)\<close>; the value is \<open>rd\<close> of the trace before it\<close>
  | Spin nat             \<comment> \<open>a busy-wait loop of so many iterations\<close>

record env =
  rd :: "event list \<Rightarrow> dev \<Rightarrow> nat \<Rightarrow> uint"
  indet :: "string \<Rightarrow> event list \<Rightarrow> uint"
    \<comment> \<open>what an uninitialised variable or memory past an object holds\<close>
  irq_lines :: "event list \<Rightarrow> uint"
    \<comment> \<open>the interrupt lines that are raised\<close>

definition quiet_env :: env where
  \<comment> \<open>every register reads zero: FIFOs are never full, the slave always acknowledges\<close>
  "quiet_env = \<lparr>rd = \<lambda>_ _ _. 0, indet = \<lambda>_ _. 0, irq_lines = \<lambda>_. 0\<rparr>"

record bus =
  trace :: "event list"

definition emit :: "event \<Rightarrow> 'a bus_scheme \<Rightarrow> 'a bus_scheme option" where
  "emit e w = Some (w\<lparr>trace := trace w @ [e]\<rparr>)"

definition iowr :: "dev \<Rightarrow> nat \<Rightarrow> uint \<Rightarrow> 'a bus_scheme \<Rightarrow> 'a bus_scheme option" where
  "iowr d r v w = Some (w\<lparr>trace := trace w @ [Iowr d r v]\<rparr>)"

definition iord :: "dev \<Rightarrow> nat \<Rightarrow> env \<Rightarrow> 'a bus_scheme \<Rightarrow> (uint \<times> 'a bus_scheme) option" where
  "iord d r h w = Some (rd h (trace w) d r, w\<lparr>trace := trace w @ [Iord d r]\<rparr>)"

abbreviation "IOWR_PIO_DATA b v \<equiv> iowr b 0 v"
abbreviation "IORD_PIO_DATA b \<equiv> iord b 0"
abbreviation "IOWR_PIO_DIRECTION b v \<equiv> iowr b 1 v"

subsection \<open>The frame contract\<close>

definition keeps :: "('w \<Rightarrow> 'w \<Rightarrow> bool) \<Rightarrow> ('w \<Rightarrow> 'w option) \<Rightarrow> bool" where
  "keeps R f \<longleftrightarrow> (\<forall>w w'. f w = Some w' \<longrightarrow> R w w')"

definition keepsv :: "('w \<Rightarrow> 'w \<Rightarrow> bool) \<Rightarrow> ('w \<Rightarrow> ('v \<times> 'w) option) \<Rightarrow> bool" where
  "keepsv R f \<longleftrightarrow> (\<forall>w x w'. f w = Some (x, w') \<longrightarrow> R w w')"

lemma keepsD: "keeps R f \<Longrightarrow> f w = Some w' \<Longrightarrow> R w w'"
  by (simp add: keeps_def)

lemma keepsvD: "keepsv R f \<Longrightarrow> f w = Some (x, w') \<Longrightarrow> R w w'"
  by (auto simp: keepsv_def)

lemma keeps_mono: "keeps R f \<Longrightarrow> (\<And>w w'. R w w' \<Longrightarrow> S w w') \<Longrightarrow> keeps S f"
  by (auto simp: keeps_def)

lemma keepsv_mono: "keepsv R f \<Longrightarrow> (\<And>w w'. R w w' \<Longrightarrow> S w w') \<Longrightarrow> keepsv S f"
  by (fastforce simp: keepsv_def)

text \<open>
  Loops that may not end are least fixed points; a frame property of the body carries over to
  them because the properties are admissible.
\<close>

lemma adm_keeps2: "option.admissible (\<lambda>f. \<forall>x y. keeps R (curry (curry f) x y))"
  using option_admissible [of "\<lambda>((x, y), w) w'. R w w'"] by (simp add: keeps_def)

lemma adm_keepsv2: "option.admissible (\<lambda>f. \<forall>x y. keepsv R (curry (curry f) x y))"
  using option_admissible [of "\<lambda>((x, y), w) (v, w'). R w w'"] by (simp add: keepsv_def)

lemma adm_keepsv3: "option.admissible (\<lambda>f. \<forall>x y z. keepsv R (curry (curry (curry f)) x y z))"
  using option_admissible [of "\<lambda>(((x, y), z), w) (v, w'). R w w'"] by (simp add: keepsv_def)

lemma adm_keepsv4: "option.admissible (\<lambda>f. \<forall>x y z u. keepsv R (curry (curry (curry (curry f))) x y z u))"
  using option_admissible [of "\<lambda>((((x, y), z), u), w) (v, w'). R w w'"] by (simp add: keepsv_def)

locale frame_rel =
  fixes R :: "'w \<Rightarrow> 'w \<Rightarrow> bool"
  assumes R_refl: "R w w"
    and R_trans: "R a b \<Longrightarrow> R b c \<Longrightarrow> R a c"
begin

lemma keeps_done: "keeps R Some"
  by (simp add: keeps_def R_refl)

lemma keepsv_done: "keepsv R (\<lambda>w. Some (x w, w))"
  by (simp add: keepsv_def R_refl)

lemma keeps_None: "keeps R (\<lambda>w. None)"
  by (simp add: keeps_def)

lemma keepsv_None: "keepsv R (\<lambda>w. None)"
  by (simp add: keepsv_def)

lemma keeps_seq: "keeps R f \<Longrightarrow> keeps R g \<Longrightarrow> keeps R (\<lambda>w. do { w \<leftarrow> f w; g w })"
  unfolding keeps_def by (fastforce split: bind_splits intro: R_trans)

lemma keeps_bind: "keepsv R f \<Longrightarrow> (\<And>x. keeps R (g x)) \<Longrightarrow> keeps R (\<lambda>w. do { (x, w) \<leftarrow> f w; g x w })"
  unfolding keeps_def keepsv_def by (fastforce split: bind_splits intro: R_trans)

lemma keepsv_seq: "keeps R f \<Longrightarrow> keepsv R g \<Longrightarrow> keepsv R (\<lambda>w. do { w \<leftarrow> f w; g w })"
  unfolding keeps_def keepsv_def by (fastforce split: bind_splits intro: R_trans)

lemma keepsv_bind: "keepsv R f \<Longrightarrow> (\<And>x. keepsv R (g x)) \<Longrightarrow> keepsv R (\<lambda>w. do { (x, w) \<leftarrow> f w; g x w })"
  unfolding keepsv_def by (fastforce split: bind_splits intro: R_trans)

lemma keeps_pure: "(\<And>x. keeps R (g x)) \<Longrightarrow> keeps R (\<lambda>w. do { x \<leftarrow> p w; g x w })"
  unfolding keeps_def by (auto split: bind_splits)

lemma keepsv_pure: "(\<And>x. keepsv R (g x)) \<Longrightarrow> keepsv R (\<lambda>w. do { x \<leftarrow> p w; g x w })"
  unfolding keepsv_def by (fastforce split: bind_splits)

lemma keeps_if: "keeps R f \<Longrightarrow> keeps R g \<Longrightarrow> keeps R (\<lambda>w. if c w then f w else g w)"
  unfolding keeps_def by auto

lemma keepsv_if: "keepsv R f \<Longrightarrow> keepsv R g \<Longrightarrow> keepsv R (\<lambda>w. if c w then f w else g w)"
  unfolding keepsv_def by auto

lemma keeps_upd: "(\<And>w. R w (u w)) \<Longrightarrow> keeps R g \<Longrightarrow> keeps R (\<lambda>w. g (u w))"
  unfolding keeps_def by (blast intro: R_trans)

lemma keepsv_upd: "(\<And>w. R w (u w)) \<Longrightarrow> keepsv R g \<Longrightarrow> keepsv R (\<lambda>w. g (u w))"
  unfolding keepsv_def by (blast intro: R_trans)

lemma keeps_for: "(\<And>x. keeps R (f x)) \<Longrightarrow> keeps R (for_each xs f)"
  unfolding keeps_def using for_each_rel [where R = R] R_refl R_trans by metis

lemmas keeps_intros = keeps_done keepsv_done keeps_None keepsv_None keeps_seq keeps_bind
  keepsv_seq keepsv_bind keeps_if keepsv_if keeps_for

end

definition only_trace :: "'a bus_scheme \<Rightarrow> 'a bus_scheme \<Rightarrow> bool" where
  \<comment> \<open>only the trace has changed, and it has only grown\<close>
  "only_trace w w' \<longleftrightarrow> (\<exists>evs. w' = w\<lparr>trace := trace w @ evs\<rparr>)"

interpretation tr: frame_rel only_trace
proof
  fix w :: "'a bus_scheme"
  have "w = w\<lparr>trace := trace w @ []\<rparr>" by simp
  then show "only_trace w w" unfolding only_trace_def by blast
next
  fix a b c :: "'a bus_scheme"
  assume "only_trace a b" "only_trace b c"
  then obtain e f where "b = a\<lparr>trace := trace a @ e\<rparr>" "c = b\<lparr>trace := trace b @ f\<rparr>"
    unfolding only_trace_def by blast
  then have "c = a\<lparr>trace := trace a @ (e @ f)\<rparr>" by simp
  then show "only_trace a c" unfolding only_trace_def by blast
qed

lemma only_traceD: "only_trace w w' \<Longrightarrow> w' = w\<lparr>trace := trace w'\<rparr>"
  by (auto simp: only_trace_def)

lemma only_trace_more: "only_trace w w' \<Longrightarrow> bus.more w' = bus.more w"
  by (auto simp: only_trace_def)

lemma keeps_emit: "keeps only_trace (emit e)"
  by (auto simp: keeps_def emit_def only_trace_def)

lemma keeps_iowr: "keeps only_trace (iowr d r v)"
  by (auto simp: keeps_def iowr_def only_trace_def)

lemma keepsv_iord: "keepsv only_trace (iord d r h)"
  by (auto simp: keepsv_def iord_def only_trace_def)

lemmas tr_rules = tr.keeps_intros keeps_emit keeps_iowr keepsv_iord

subsection \<open>Busy-wait delays (\<open>bsp.c\<close>)\<close>

definition delay_ms_count :: "uint \<Rightarrow> nat" where
  \<comment> \<open>\<open>while (i < d * 1000) i++;\<close> with \<open>d * 1000\<close> in unsigned arithmetic\<close>
  "delay_ms_count d = while (\<lambda>i. i < unat (d * 1000)) Suc 0"

definition delay_ms :: "uint \<Rightarrow> 'a bus_scheme \<Rightarrow> 'a bus_scheme option" where
  \<comment> \<open>the counter is an \<open>int\<close>: counting past its range has no defined result\<close>
  "delay_ms d w = (if unat (d * 1000) < 2 ^ 31 then emit (Spin (delay_ms_count d)) w else None)"

definition delay_us_count :: "uint \<Rightarrow> nat" where
  \<comment> \<open>\<open>d\<close> rounds of an inner loop of two iterations\<close>
  "delay_us_count d = snd (while (\<lambda>(i, n). i < unat d) (\<lambda>(i, n). (Suc i, n + 2)) (0, 0))"

definition delay_us :: "uint \<Rightarrow> 'a bus_scheme \<Rightarrow> 'a bus_scheme option" where
  "delay_us d w = (if unat d < 2 ^ 31 then emit (Spin (delay_us_count d)) w else None)"

lemma delay_ms_count [simp]: "delay_ms_count d = unat (d * 1000)"
  unfolding delay_ms_count_def
  by (rule while_rule [where P = "\<lambda>i. i \<le> unat (d * 1000)" and r = "measure (\<lambda>i. unat (d * 1000) - i)"])
    auto

lemma delay_us_count [simp]: "delay_us_count d = 2 * unat d"
proof -
  have "while (\<lambda>(i, n). i < unat d) (\<lambda>(i, n). (Suc i, n + 2)) (0, 0 :: nat) = (unat d, 2 * unat d)"
    by (rule while_rule [where P = "\<lambda>(i, n). i \<le> unat d \<and> n = 2 * i"
          and r = "measure (\<lambda>(i, n). unat d - i)"]) auto
  then show ?thesis by (simp add: delay_us_count_def)
qed

lemma keeps_delay_us: "keeps only_trace (delay_us d)"
  unfolding delay_us_def by (intro tr_rules)

lemma keeps_delay_ms: "keeps only_trace (delay_ms d)"
  unfolding delay_ms_def by (intro tr_rules)

subsection \<open>The Avalon FIFO driver\<close>

definition ALTERA_AVALON_FIFO_OK :: int where "ALTERA_AVALON_FIFO_OK = 0"
definition ALTERA_AVALON_FIFO_EVENT_CLEAR_ERROR :: int where "ALTERA_AVALON_FIFO_EVENT_CLEAR_ERROR = -1"
definition ALTERA_AVALON_FIFO_IENABLE_WRITE_ERROR :: int where "ALTERA_AVALON_FIFO_IENABLE_WRITE_ERROR = -2"
definition ALTERA_AVALON_FIFO_THRESHOLD_WRITE_ERROR :: int where "ALTERA_AVALON_FIFO_THRESHOLD_WRITE_ERROR = -3"
definition ALTERA_AVALON_FIFO_FULL :: int where "ALTERA_AVALON_FIFO_FULL = -4"

lemmas fifo_codes = ALTERA_AVALON_FIFO_OK_def ALTERA_AVALON_FIFO_EVENT_CLEAR_ERROR_def
  ALTERA_AVALON_FIFO_IENABLE_WRITE_ERROR_def ALTERA_AVALON_FIFO_THRESHOLD_WRITE_ERROR_def
  ALTERA_AVALON_FIFO_FULL_def

definition altera_avalon_fifo_read_status ::
    "dev \<Rightarrow> uint \<Rightarrow> env \<Rightarrow> 'a bus_scheme \<Rightarrow> (uint \<times> 'a bus_scheme) option" where
  "altera_avalon_fifo_read_status addr msk h w = do {
     (v, w) \<leftarrow> iord addr 1 h w;
     Some (v AND msk, w)
   }"

definition altera_avalon_fifo_read_level ::
    "dev \<Rightarrow> env \<Rightarrow> 'a bus_scheme \<Rightarrow> (uint \<times> 'a bus_scheme) option" where
  "altera_avalon_fifo_read_level addr h w = iord addr 0 h w"

definition altera_avalon_fifo_clear_event ::
    "dev \<Rightarrow> uint \<Rightarrow> env \<Rightarrow> 'a bus_scheme \<Rightarrow> (int \<times> 'a bus_scheme) option" where
  "altera_avalon_fifo_clear_event addr msk h w = do {
     w \<leftarrow> iowr addr 2 msk w;
     (v, w) \<leftarrow> iord addr 2 h w;
     Some (if v AND msk = 0 then ALTERA_AVALON_FIFO_OK else ALTERA_AVALON_FIFO_EVENT_CLEAR_ERROR, w)
   }"

definition altera_avalon_fifo_write_ienable ::
    "dev \<Rightarrow> uint \<Rightarrow> env \<Rightarrow> 'a bus_scheme \<Rightarrow> (int \<times> 'a bus_scheme) option" where
  "altera_avalon_fifo_write_ienable addr msk h w = do {
     w \<leftarrow> iowr addr 3 msk w;
     (v, w) \<leftarrow> iord addr 3 h w;
     Some (if v = msk then ALTERA_AVALON_FIFO_OK else ALTERA_AVALON_FIFO_IENABLE_WRITE_ERROR, w)
   }"

definition altera_avalon_fifo_write_almostfull ::
    "dev \<Rightarrow> uint \<Rightarrow> env \<Rightarrow> 'a bus_scheme \<Rightarrow> (int \<times> 'a bus_scheme) option" where
  "altera_avalon_fifo_write_almostfull addr data h w = do {
     w \<leftarrow> iowr addr 4 data w;
     (v, w) \<leftarrow> iord addr 4 h w;
     Some (if v = data then ALTERA_AVALON_FIFO_OK else ALTERA_AVALON_FIFO_THRESHOLD_WRITE_ERROR, w)
   }"

definition altera_avalon_fifo_write_almostempty ::
    "dev \<Rightarrow> uint \<Rightarrow> env \<Rightarrow> 'a bus_scheme \<Rightarrow> (int \<times> 'a bus_scheme) option" where
  "altera_avalon_fifo_write_almostempty addr data h w = do {
     w \<leftarrow> iowr addr 5 data w;
     (v, w) \<leftarrow> iord addr 5 h w;
     Some (if v = data then ALTERA_AVALON_FIFO_OK else ALTERA_AVALON_FIFO_THRESHOLD_WRITE_ERROR, w)
   }"

definition altera_avalon_fifo_init ::
    "dev \<Rightarrow> uint \<Rightarrow> uint \<Rightarrow> uint \<Rightarrow> env \<Rightarrow> 'a bus_scheme \<Rightarrow> (int \<times> 'a bus_scheme) option" where
  "altera_avalon_fifo_init addr ienable emptymark fullmark h w = do {
     (c, w) \<leftarrow> altera_avalon_fifo_clear_event addr 0x3F h w;
     if c \<noteq> ALTERA_AVALON_FIFO_OK then Some (ALTERA_AVALON_FIFO_EVENT_CLEAR_ERROR, w)
     else do {
       (c, w) \<leftarrow> altera_avalon_fifo_write_ienable addr ienable h w;
       if c \<noteq> ALTERA_AVALON_FIFO_OK then Some (ALTERA_AVALON_FIFO_IENABLE_WRITE_ERROR, w)
       else do {
         (c, w) \<leftarrow> altera_avalon_fifo_write_almostfull addr fullmark h w;
         if c \<noteq> ALTERA_AVALON_FIFO_OK then Some (ALTERA_AVALON_FIFO_THRESHOLD_WRITE_ERROR, w)
         else do {
           (c, w) \<leftarrow> altera_avalon_fifo_write_almostempty addr emptymark h w;
           if c \<noteq> ALTERA_AVALON_FIFO_OK then Some (ALTERA_AVALON_FIFO_THRESHOLD_WRITE_ERROR, w)
           else Some (ALTERA_AVALON_FIFO_OK, w)
         }
       }
     }
   }"

definition altera_avalon_fifo_write_fifo ::
    "dev \<Rightarrow> dev \<Rightarrow> uint \<Rightarrow> env \<Rightarrow> 'a bus_scheme \<Rightarrow> (int \<times> 'a bus_scheme) option" where
  "altera_avalon_fifo_write_fifo waddr caddr data h w = do {
     (s, w) \<leftarrow> altera_avalon_fifo_read_status caddr 0x01 h w;
     if s = 0 then do { w \<leftarrow> iowr waddr 0 data w; Some (ALTERA_AVALON_FIFO_OK, w) }
     else Some (ALTERA_AVALON_FIFO_FULL, w)
   }"

definition altera_avalon_fifo_read_fifo ::
    "dev \<Rightarrow> dev \<Rightarrow> env \<Rightarrow> 'a bus_scheme \<Rightarrow> (uint \<times> 'a bus_scheme) option" where
  "altera_avalon_fifo_read_fifo raddr caddr h w = do {
     (s, w) \<leftarrow> altera_avalon_fifo_read_status caddr 0x02 h w;
     if s = 0 then iord raddr 0 h w else Some (0, w)
   }"

definition altera_avalon_fifo_read_ienable ::
    "dev \<Rightarrow> uint \<Rightarrow> env \<Rightarrow> 'a bus_scheme \<Rightarrow> (uint \<times> 'a bus_scheme) option" where
  "altera_avalon_fifo_read_ienable addr msk h w = do {
     (v, w) \<leftarrow> iord addr 3 h w;
     Some (v AND msk, w)
   }"

definition altera_avalon_fifo_read_almostfull ::
    "dev \<Rightarrow> env \<Rightarrow> 'a bus_scheme \<Rightarrow> (uint \<times> 'a bus_scheme) option" where
  "altera_avalon_fifo_read_almostfull addr h w = iord addr 4 h w"

definition altera_avalon_fifo_read_almostempty ::
    "dev \<Rightarrow> env \<Rightarrow> 'a bus_scheme \<Rightarrow> (uint \<times> 'a bus_scheme) option" where
  "altera_avalon_fifo_read_almostempty addr h w = iord addr 5 h w"

definition altera_avalon_fifo_read_event ::
    "dev \<Rightarrow> uint \<Rightarrow> env \<Rightarrow> 'a bus_scheme \<Rightarrow> (uint \<times> 'a bus_scheme) option" where
  "altera_avalon_fifo_read_event addr msk h w = do {
     (v, w) \<leftarrow> iord addr 2 h w;
     Some (v AND msk, w)
   }"

definition altera_avalon_read_fifo ::
    "dev \<Rightarrow> dev \<Rightarrow> env \<Rightarrow> 'a bus_scheme \<Rightarrow> ((uint \<times> uint) \<times> 'a bus_scheme) option" where
  \<comment> \<open>the level before the read, and the word stored through \<open>data\<close>; both 0 when the FIFO is empty\<close>
  "altera_avalon_read_fifo raddr caddr h w = do {
     (s, w) \<leftarrow> altera_avalon_fifo_read_status caddr 0x02 h w;
     if s = 0
     then do {
       (n, w) \<leftarrow> altera_avalon_fifo_read_level caddr h w;
       (d, w) \<leftarrow> iord raddr 0 h w;
       Some ((n, d), w) }
     else Some ((0, 0), w)
   }"

definition altera_avalon_fifo_write_other_info ::
    "dev \<Rightarrow> dev \<Rightarrow> uint \<Rightarrow> env \<Rightarrow> 'a bus_scheme \<Rightarrow> (int \<times> 'a bus_scheme) option" where
  "altera_avalon_fifo_write_other_info waddr caddr data h w = do {
     (s, w) \<leftarrow> altera_avalon_fifo_read_status caddr 0x01 h w;
     if s = 0 then do { w \<leftarrow> iowr waddr 1 data w; Some (ALTERA_AVALON_FIFO_OK, w) }
     else Some (ALTERA_AVALON_FIFO_FULL, w)
   }"

definition altera_avalon_fifo_read_other_info ::
    "dev \<Rightarrow> env \<Rightarrow> 'a bus_scheme \<Rightarrow> (uint \<times> 'a bus_scheme) option" where
  "altera_avalon_fifo_read_other_info raddr h w = iord raddr 1 h w"

definition altera_avalon_fifo_read_backpressure ::
    "dev \<Rightarrow> env \<Rightarrow> 'a bus_scheme \<Rightarrow> (uint \<times> 'a bus_scheme) option" where
  "altera_avalon_fifo_read_backpressure raddr h w = iord raddr 0 h w"

lemma keepsv_fifo:
  "keepsv only_trace (altera_avalon_fifo_read_status a m h)"
  "keepsv only_trace (altera_avalon_fifo_read_level a h)"
  "keepsv only_trace (altera_avalon_fifo_write_fifo b a d h)"
  "keepsv only_trace (altera_avalon_fifo_read_fifo b a h)"
  unfolding altera_avalon_fifo_read_status_def altera_avalon_fifo_read_level_def
    altera_avalon_fifo_write_fifo_def altera_avalon_fifo_read_fifo_def
  by (intro tr_rules)+

lemma keepsv_fifo_setup:
  "keepsv only_trace (altera_avalon_fifo_clear_event a m h)"
  "keepsv only_trace (altera_avalon_fifo_write_ienable a m h)"
  "keepsv only_trace (altera_avalon_fifo_write_almostfull a m h)"
  "keepsv only_trace (altera_avalon_fifo_write_almostempty a m h)"
  unfolding altera_avalon_fifo_clear_event_def altera_avalon_fifo_write_ienable_def
    altera_avalon_fifo_write_almostfull_def altera_avalon_fifo_write_almostempty_def
  by (intro tr_rules)+

lemma keepsv_fifo_init: "keepsv only_trace (altera_avalon_fifo_init a i e f h)"
  unfolding altera_avalon_fifo_init_def by (intro tr_rules keepsv_fifo_setup)

lemmas bus_rules = tr_rules keeps_delay_us keeps_delay_ms keepsv_fifo keepsv_fifo_init

text \<open>
  What a FIFO write does, in one equation: the status register is always read; the word is
  written unless the full bit was set, and is dropped silently otherwise.
\<close>

lemma fifo_write_result:
  "altera_avalon_fifo_write_fifo b c d h w =
     (if rd h (trace w) c 1 AND 1 = 0
      then Some (ALTERA_AVALON_FIFO_OK, w\<lparr>trace := trace w @ [Iord c 1, Iowr b 0 d]\<rparr>)
      else Some (ALTERA_AVALON_FIFO_FULL, w\<lparr>trace := trace w @ [Iord c 1]\<rparr>))"
  by (simp add: altera_avalon_fifo_write_fifo_def altera_avalon_fifo_read_status_def iord_def iowr_def)

definition never_full :: "env \<Rightarrow> dev \<Rightarrow> bool" where
  \<comment> \<open>the reader on the other side of the FIFO keeps up\<close>
  "never_full h c \<longleftrightarrow> (\<forall>tr. rd h tr c 1 AND 1 = 0)"

definition words_to :: "dev \<Rightarrow> event list \<Rightarrow> uint list" where
  \<comment> \<open>the words that reached the data register of a device\<close>
  "words_to b evs = List.map_filter (\<lambda>e. case e of Iowr d r v \<Rightarrow>
     (if d = b \<and> r = 0 then Some v else None) | _ \<Rightarrow> None) evs"

lemma words_to_simps [simp]:
  "words_to b [] = []"
  "words_to b (Iowr d r v # evs) = (if d = b \<and> r = 0 then v # words_to b evs else words_to b evs)"
  "words_to b (Iord d r # evs) = words_to b evs"
  "words_to b (Spin n # evs) = words_to b evs"
  "words_to b (xs @ ys) = words_to b xs @ words_to b ys"
  by (simp_all add: words_to_def List.map_filter_def)

subsection \<open>Appending to the trace\<close>

definition logged :: "'a bus_scheme \<Rightarrow> event list \<Rightarrow> 'a bus_scheme" where
  "logged w evs = w\<lparr>trace := trace w @ evs\<rparr>"

lemma logged_simps [simp]:
  "logged (logged w a) b = logged w (a @ b)" "trace (logged w a) = trace w @ a" "logged w [] = w"
  by (simp_all add: logged_def)

lemma iowr_logged [simp]: "iowr d r v w = Some (logged w [Iowr d r v])"
  by (simp add: iowr_def logged_def)

lemma iord_logged [simp]: "iord d r h w = Some (rd h (trace w) d r, logged w [Iord d r])"
  by (simp add: iord_def logged_def)

lemma delay_us_logged [simp]: "unat d < 2 ^ 31 \<Longrightarrow> delay_us d w = Some (logged w [Spin (2 * unat d)])"
  by (simp add: delay_us_def emit_def logged_def)

lemma fifo_write_logged:
  "never_full h c \<Longrightarrow> altera_avalon_fifo_write_fifo b c d h w =
     Some (ALTERA_AVALON_FIFO_OK, logged w [Iord c 1, Iowr b 0 d])"
  by (simp add: fifo_write_result never_full_def logged_def)

lemma emit_logged [simp]: "emit e w = Some (logged w [e])"
  by (simp add: emit_def logged_def)

lemma delay_ms_logged [simp]: "unat (d * 1000) < 2 ^ 31 \<Longrightarrow> delay_ms d w = Some (logged w [Spin (unat (d * 1000))])"
  by (simp add: delay_ms_def)

lemma only_trace_logged [simp]: "only_trace w (logged w evs)"
  by (auto simp: only_trace_def logged_def)

subsection \<open>The observer contract\<close>

text \<open>
  A chip on the other side of a bus is a machine that reads the trace. What a driver operation
  does to it is stated with \<open>does\<close>: from an idle bus the operation returns, and the observer
  decodes exactly the given transactions and finds the bus idle again.
\<close>

locale observer =
  fixes step :: "'m \<Rightarrow> event \<Rightarrow> 'm"
    and idle :: "'o list \<Rightarrow> 'm"
  assumes step_spin: "step m (Spin n) = m"
begin

definition sees :: "event list \<Rightarrow> 'o list \<Rightarrow> bool" where
  "sees evs xs \<longleftrightarrow> (\<forall>pre. foldl step (idle pre) evs = idle (pre @ xs))"

definition does :: "('a bus_scheme \<Rightarrow> 'a bus_scheme option) \<Rightarrow> 'o list \<Rightarrow> bool" where
  "does f xs \<longleftrightarrow> (\<forall>w. \<exists>evs. f w = Some (logged w evs) \<and> sees evs xs)"

definition answers :: "('a bus_scheme \<Rightarrow> ('v \<times> 'a bus_scheme) option) \<Rightarrow> 'v \<Rightarrow> 'o list \<Rightarrow> bool" where
  \<comment> \<open>the same for an operation with a result: it is always \<open>v\<close>\<close>
  "answers f v xs \<longleftrightarrow> (\<forall>w. \<exists>evs. f w = Some (v, logged w evs) \<and> sees evs xs)"

lemma sees_Nil: "sees [] []"
  by (simp add: sees_def)

lemma sees_append: "sees e a \<Longrightarrow> sees e' b \<Longrightarrow> sees (e @ e') (a @ b)"
  by (simp add: sees_def)

lemma sees_spin: "sees [Spin n] []"
  by (simp add: sees_def step_spin)

lemma doesI: "(\<And>w. f w = Some (logged w (evs w))) \<Longrightarrow> (\<And>w. sees (evs w) xs) \<Longrightarrow> does f xs"
  unfolding does_def by blast

lemma doesD: "does f xs \<Longrightarrow> \<exists>evs. f w = Some (logged w evs) \<and> sees evs xs"
  unfolding does_def by blast

lemma answersI: "(\<And>w. f w = Some (v, logged w (evs w))) \<Longrightarrow> (\<And>w. sees (evs w) xs) \<Longrightarrow> answers f v xs"
  unfolding answers_def by blast

lemma answersD: "answers f v xs \<Longrightarrow> \<exists>evs. f w = Some (v, logged w evs) \<and> sees evs xs"
  unfolding answers_def by blast

lemma does_done: "does Some []"
  unfolding does_def by (metis logged_simps(3) sees_Nil)

lemma answers_done: "answers (\<lambda>w. Some (v, w)) v []"
  unfolding answers_def by (metis logged_simps(3) sees_Nil)

lemma does_seq:
  assumes "does f a" and "does g b"
  shows "does (\<lambda>w. do { w \<leftarrow> f w; g w }) (a @ b)"
  unfolding does_def
proof
  fix w :: "'a bus_scheme"
  obtain e e' where "f w = Some (logged w e)" "sees e a" "g (logged w e) = Some (logged (logged w e) e')" "sees e' b"
    using doesD [OF assms(1)] doesD [OF assms(2)] by metis
  then show "\<exists>evs. (do { w \<leftarrow> f w; g w }) = Some (logged w evs) \<and> sees evs (a @ b)"
    by (intro exI [of _ "e @ e'"]) (simp add: sees_append)
qed

lemma does_bind:
  assumes "answers f v a" and "does (g v) b"
  shows "does (\<lambda>w. do { (x, w) \<leftarrow> f w; g x w }) (a @ b)"
  unfolding does_def
proof
  fix w :: "'a bus_scheme"
  obtain e e' where "f w = Some (v, logged w e)" "sees e a" "g v (logged w e) = Some (logged (logged w e) e')" "sees e' b"
    using answersD [OF assms(1)] doesD [OF assms(2)] by metis
  then show "\<exists>evs. (do { (x, w) \<leftarrow> f w; g x w }) = Some (logged w evs) \<and> sees evs (a @ b)"
    by (intro exI [of _ "e @ e'"]) (simp add: sees_append)
qed

lemma answers_seq:
  assumes "does f a" and "answers g v b"
  shows "answers (\<lambda>w. do { w \<leftarrow> f w; g w }) v (a @ b)"
  unfolding answers_def
proof
  fix w :: "'a bus_scheme"
  obtain e e' where "f w = Some (logged w e)" "sees e a" "g (logged w e) = Some (v, logged (logged w e) e')" "sees e' b"
    using doesD [OF assms(1)] answersD [OF assms(2)] by metis
  then show "\<exists>evs. (do { w \<leftarrow> f w; g w }) = Some (v, logged w evs) \<and> sees evs (a @ b)"
    by (intro exI [of _ "e @ e'"]) (simp add: sees_append)
qed

lemma answers_bind:
  assumes "answers f u a" and "answers (g u) v b"
  shows "answers (\<lambda>w. do { (x, w) \<leftarrow> f w; g x w }) v (a @ b)"
  unfolding answers_def
proof
  fix w :: "'a bus_scheme"
  obtain e e' where "f w = Some (u, logged w e)" "sees e a" "g u (logged w e) = Some (v, logged (logged w e) e')" "sees e' b"
    using answersD [OF assms(1)] answersD [OF assms(2)] by metis
  then show "\<exists>evs. (do { (x, w) \<leftarrow> f w; g x w }) = Some (v, logged w evs) \<and> sees evs (a @ b)"
    by (intro exI [of _ "e @ e'"]) (simp add: sees_append)
qed

lemma does_for:
  "(\<And>x. x \<in> set xs \<Longrightarrow> does (f x) (s x)) \<Longrightarrow> does (for_each xs f) (concat (map s xs))"
proof (induction xs)
  case Nil
  show ?case using does_done by (simp add: for_each_def)
next
  case (Cons x xs)
  have "does (\<lambda>w. do { w \<leftarrow> f x w; for_each xs f w }) (s x @ concat (map s xs))"
    using Cons by (intro does_seq) auto
  then show ?case by (simp add: for_each_def)
qed

end

text \<open>Writing to a hardware FIFO reads the status register once; the word reaches the data register
  exactly when the full bit was clear, otherwise it is dropped and only the return code says so.\<close>

theorem fifo_write_drops_when_full:
  "\<exists>r evs. altera_avalon_fifo_write_fifo b c d h w = Some (r, w\<lparr>trace := trace w @ evs\<rparr>) \<and>
     words_to b evs = (if bit (rd h (trace w) c 1) 0 then [] else [d]) \<and>
     (r = ALTERA_AVALON_FIFO_OK) = (\<not> bit (rd h (trace w) c 1) 0) \<and>
     (r = ALTERA_AVALON_FIFO_FULL) = bit (rd h (trace w) c 1) 0"
proof -
  have "rd h (trace w) c 1 AND 1 = of_bool (bit (rd h (trace w) c 1) 0)"
    by (simp add: bit_0 and_one_eq mod_2_eq_odd)
  then show ?thesis
    by (auto simp: fifo_write_result fifo_codes)
qed

text \<open>The two busy-wait delays run for the number of iterations their argument asks for whenever the
  product fits a signed counter, and change nothing but the time that passes.\<close>

theorem delay_iterations:
  assumes "unat d * 1000 < 2 ^ 31"
  shows "delay_ms d w = Some (w\<lparr>trace := trace w @ [Spin (1000 * unat d)]\<rparr>) \<and>
    delay_us d w = Some (w\<lparr>trace := trace w @ [Spin (2 * unat d)]\<rparr>)"
proof -
  have "unat (d * 1000) = unat d * 1000"
    using assms by (simp add: unat_word_ariths)
  then show ?thesis
    using assms by (simp add: logged_def mult.commute)
qed

theorem delay_iterations_witness:
  "delay_ms 200 \<lparr>trace = []\<rparr> = Some (\<lparr>trace = [] @ [Spin (1000 * unat (200 :: uint))]\<rparr>) \<and>
    delay_us 200 \<lparr>trace = []\<rparr> = Some (\<lparr>trace = [] @ [Spin (2 * unat (200 :: uint))]\<rparr>)"
  using delay_iterations [of 200 "\<lparr>trace = []\<rparr>"] by simp

end
