(* ===== verification/Iic.thy ===== *)
theory Iic
  imports Bus
begin

unbundle bit_operations_syntax

text \<open>
  \<open>iic.c\<close>: the two-wire bus to the AT24C1024 EEPROM, driven bit by bit on two PIO pins, and the
  EEPROM transactions built on it. The level at which the code works is the single pin write;
  the abstraction is a bus monitor (\<open>mon_run\<close>) that reads a trace of pin writes the way the
  chip on the other end does, as start conditions, bytes and stop conditions.
\<close>

definition OUT :: uint where "OUT = 1"
definition IN :: uint where "IN = 0"
definition EEPROM_PAGE_SIZE :: nat where "EEPROM_PAGE_SIZE = 256"
definition AT24C1024_MAX_ADDR :: uint where "AT24C1024_MAX_ADDR = 120000"

subsection \<open>Bus conditions\<close>

definition start :: "'a bus_scheme \<Rightarrow> 'a bus_scheme option" where
  "start w = do {
     w \<leftarrow> IOWR_PIO_DIRECTION SDA_BASE OUT w;
     w \<leftarrow> IOWR_PIO_DATA SDA_BASE 1 w;
     w \<leftarrow> IOWR_PIO_DATA SCL_BASE 1 w;
     w \<leftarrow> delay_us 2 w;
     w \<leftarrow> IOWR_PIO_DATA SDA_BASE 0 w;
     delay_us 1 w
   }"

definition stop :: "'a bus_scheme \<Rightarrow> 'a bus_scheme option" where
  "stop w = do {
     w \<leftarrow> IOWR_PIO_DIRECTION SDA_BASE OUT w;
     w \<leftarrow> IOWR_PIO_DATA SDA_BASE 0 w;
     w \<leftarrow> IOWR_PIO_DATA SCL_BASE 0 w;
     w \<leftarrow> delay_us 2 w;
     w \<leftarrow> IOWR_PIO_DATA SCL_BASE 1 w;
     w \<leftarrow> delay_us 1 w;
     w \<leftarrow> IOWR_PIO_DATA SDA_BASE 1 w;
     delay_us 2 w
   }"

definition wait_slave_ack :: "env \<Rightarrow> 'a bus_scheme \<Rightarrow> 'a bus_scheme option" where
  "wait_slave_ack h w = do {
     w \<leftarrow> IOWR_PIO_DATA SCL_BASE 0 w;
     w \<leftarrow> IOWR_PIO_DIRECTION SDA_BASE IN w;
     w \<leftarrow> delay_us 2 w;
     w \<leftarrow> IOWR_PIO_DATA SCL_BASE 1 w;
     w \<leftarrow> delay_us 1 w;
     (v, w) \<leftarrow> IORD_PIO_DATA SDA_BASE h w;
     let tmp = (ucast v :: byte);
     w \<leftarrow> delay_us 1 w;
     w \<leftarrow> IOWR_PIO_DATA SCL_BASE 0 w;
     w \<leftarrow> delay_us 2 w;
     if tmp = 1 then stop w else Some w
   }"

definition master_send_ack :: "'a bus_scheme \<Rightarrow> 'a bus_scheme option" where
  "master_send_ack w = do {
     w \<leftarrow> IOWR_PIO_DATA SCL_BASE 0 w;
     w \<leftarrow> IOWR_PIO_DIRECTION SDA_BASE OUT w;
     w \<leftarrow> delay_us 2 w;
     w \<leftarrow> IOWR_PIO_DATA SDA_BASE 0 w;
     w \<leftarrow> delay_us 1 w;
     w \<leftarrow> IOWR_PIO_DATA SCL_BASE 1 w;
     w \<leftarrow> delay_us 1 w;
     w \<leftarrow> IOWR_PIO_DATA SCL_BASE 0 w;
     delay_us 2 w
   }"

definition no_ack :: "'a bus_scheme \<Rightarrow> 'a bus_scheme option" where
  "no_ack w = do {
     w \<leftarrow> IOWR_PIO_DATA SCL_BASE 0 w;
     w \<leftarrow> IOWR_PIO_DIRECTION SDA_BASE OUT w;
     w \<leftarrow> delay_us 2 w;
     w \<leftarrow> IOWR_PIO_DATA SDA_BASE 1 w;
     w \<leftarrow> delay_us 1 w;
     w \<leftarrow> IOWR_PIO_DATA SCL_BASE 1 w;
     w \<leftarrow> delay_us 1 w;
     w \<leftarrow> IOWR_PIO_DATA SCL_BASE 0 w;
     delay_us 2 w
   }"

subsection \<open>Bytes\<close>

text \<open>The loops shift an 8-bit variable; the recursion argument counts the rounds left.\<close>

primrec iic_write_loop :: "nat \<Rightarrow> byte \<Rightarrow> 'a bus_scheme \<Rightarrow> 'a bus_scheme option" where
  "iic_write_loop 0 dat w = Some w"
| "iic_write_loop (Suc n) dat w = do {
     w \<leftarrow> IOWR_PIO_DATA SCL_BASE 0 w;
     w \<leftarrow> delay_us 2 w;
     let tmp = (if dat AND 0x80 \<noteq> 0 then 1 else 0);
     let dat = push_bit 1 dat;
     w \<leftarrow> IOWR_PIO_DATA SDA_BASE tmp w;
     w \<leftarrow> delay_us 1 w;
     w \<leftarrow> IOWR_PIO_DATA SCL_BASE 1 w;
     w \<leftarrow> delay_us 2 w;
     iic_write_loop n dat w
   }"

definition iic_write :: "byte \<Rightarrow> 'a bus_scheme \<Rightarrow> 'a bus_scheme option" where
  "iic_write dat w = do {
     w \<leftarrow> IOWR_PIO_DIRECTION SDA_BASE OUT w;
     iic_write_loop 8 dat w
   }"

primrec iic_read_loop :: "nat \<Rightarrow> byte \<Rightarrow> env \<Rightarrow> 'a bus_scheme \<Rightarrow> (byte \<times> 'a bus_scheme) option" where
  "iic_read_loop 0 dat h w = Some (dat, w)"
| "iic_read_loop (Suc n) dat h w = do {
     w \<leftarrow> IOWR_PIO_DATA SCL_BASE 0 w;
     w \<leftarrow> delay_us 2 w;
     w \<leftarrow> IOWR_PIO_DATA SCL_BASE 1 w;
     w \<leftarrow> delay_us 1 w;
     let dat = push_bit 1 dat;
     (v, w) \<leftarrow> IORD_PIO_DATA SDA_BASE h w;
     let dat = dat OR ucast v;
     w \<leftarrow> delay_us 1 w;
     iic_read_loop n dat h w
   }"

definition iic_read :: "env \<Rightarrow> 'a bus_scheme \<Rightarrow> (byte \<times> 'a bus_scheme) option" where
  "iic_read h w = do {
     w \<leftarrow> IOWR_PIO_DIRECTION SDA_BASE IN w;
     (dat, w) \<leftarrow> iic_read_loop 8 0 h w;
     w \<leftarrow> delay_us 1 w;
     Some (dat, w)
   }"

subsection \<open>EEPROM transactions\<close>

definition eeprom_cmd :: "uint \<Rightarrow> byte" where
  \<comment> \<open>\<open>0xa0 | ((addr >> 15) & 0x02)\<close>: the device code with address bit 16\<close>
  "eeprom_cmd addr = ucast (0xa0 OR (drop_bit 15 addr AND 0x02))"

text \<open>The run of calls every transaction opens with: device code, then the two address bytes.\<close>

definition eeprom_select :: "byte \<Rightarrow> uint \<Rightarrow> env \<Rightarrow> 'a bus_scheme \<Rightarrow> 'a bus_scheme option" where
  "eeprom_select cmd addr h w = do {
     w \<leftarrow> start w;
     w \<leftarrow> iic_write cmd w;
     w \<leftarrow> wait_slave_ack h w;
     w \<leftarrow> iic_write (byte_of 8 addr) w;
     w \<leftarrow> wait_slave_ack h w;
     w \<leftarrow> iic_write (byte_of 0 addr) w;
     wait_slave_ack h w
   }"

definition eeprom_write_byte :: "uint \<Rightarrow> byte \<Rightarrow> env \<Rightarrow> 'a bus_scheme \<Rightarrow> 'a bus_scheme option" where
  "eeprom_write_byte addr dat h w = do {
     let cmd = eeprom_cmd addr;
     w \<leftarrow> eeprom_select cmd addr h w;
     w \<leftarrow> iic_write dat w;
     w \<leftarrow> wait_slave_ack h w;
     w \<leftarrow> stop w;
     delay_us 2500 w
   }"

definition eeprom_put :: "byte list \<Rightarrow> env \<Rightarrow> nat \<Rightarrow> 'a bus_scheme \<Rightarrow> 'a bus_scheme option" where
  \<comment> \<open>one data byte, read through the pointer \<open>dat\<close> at index \<open>k\<close>\<close>
  "eeprom_put dat h k w = do {
     b \<leftarrow> arr_get dat k;
     w \<leftarrow> iic_write b w;
     wait_slave_ack h w
   }"

definition eeprom_write_run ::
    "byte \<Rightarrow> uint \<Rightarrow> byte list \<Rightarrow> nat \<Rightarrow> nat \<Rightarrow> env \<Rightarrow> 'a bus_scheme \<Rightarrow> 'a bus_scheme option" where
  \<comment> \<open>one page: the bytes from index \<open>off\<close>, \<open>n\<close> of them, to \<open>i2c_addr\<close>\<close>
  "eeprom_write_run cmd i2c_addr dat off n h w = do {
     w \<leftarrow> eeprom_select cmd i2c_addr h w;
     w \<leftarrow> for_each [0..<n] (\<lambda>j. eeprom_put dat h (off + j)) w;
     w \<leftarrow> stop w;
     delay_us 10000 w
   }"

definition eeprom_write_page ::
    "uint \<Rightarrow> byte list \<Rightarrow> half \<Rightarrow> env \<Rightarrow> 'a bus_scheme \<Rightarrow> 'a bus_scheme option" where
  "eeprom_write_page addr dat len h w = do {
     let cmd = eeprom_cmd addr;
     let number = unat (ucast (len div 256) :: byte);
     let remain = unat (ucast (len mod 256) :: byte);
     w \<leftarrow> for_each [0..<number] (\<lambda>i.
            eeprom_write_run cmd (addr + of_nat (i * EEPROM_PAGE_SIZE)) dat
              (i * EEPROM_PAGE_SIZE) EEPROM_PAGE_SIZE h) w;
     if remain \<noteq> 0
     then eeprom_write_run cmd (addr + of_nat (number * EEPROM_PAGE_SIZE)) dat
            (number * EEPROM_PAGE_SIZE) remain h w
     else Some w
   }"

definition eeprom_reselect :: "byte \<Rightarrow> uint \<Rightarrow> env \<Rightarrow> 'a bus_scheme \<Rightarrow> 'a bus_scheme option" where
  \<comment> \<open>the opening of a read: address phase, then a repeated start with the read bit\<close>
  "eeprom_reselect cmd addr h w = do {
     w \<leftarrow> eeprom_select cmd addr h w;
     let cmd = cmd OR 0x01;
     w \<leftarrow> start w;
     w \<leftarrow> iic_write cmd w;
     wait_slave_ack h w
   }"

definition eeprom_read_byte :: "uint \<Rightarrow> env \<Rightarrow> 'a bus_scheme \<Rightarrow> (byte \<times> 'a bus_scheme) option" where
  "eeprom_read_byte addr h w =
     (if addr > AT24C1024_MAX_ADDR then Some (0xff, w)
      else do {
        w \<leftarrow> eeprom_reselect (eeprom_cmd addr) addr h w;
        (dat, w) \<leftarrow> iic_read h w;
        w \<leftarrow> no_ack w;
        w \<leftarrow> stop w;
        Some (dat, w)
      })"

primrec eeprom_get :: "nat \<Rightarrow> env \<Rightarrow> 'a bus_scheme \<Rightarrow> (byte list \<times> 'a bus_scheme) option" where
  \<comment> \<open>the loop of the sequential read; the list is what it stores through \<open>dat\<close>\<close>
  "eeprom_get 0 h w = Some ([], w)"
| "eeprom_get (Suc n) h w = do {
     (b, w) \<leftarrow> iic_read h w;
     w \<leftarrow> master_send_ack w;
     (bs, w) \<leftarrow> eeprom_get n h w;
     Some (b # bs, w)
   }"

definition eeprom_sequential_read ::
    "uint \<Rightarrow> half \<Rightarrow> env \<Rightarrow> 'a bus_scheme \<Rightarrow> (byte list \<times> 'a bus_scheme) option" where
  \<comment> \<open>the bytes stored from \<open>dat\<close> on: none when the address is rejected\<close>
  "eeprom_sequential_read addr len h w =
     (if addr > AT24C1024_MAX_ADDR then Some ([], w)
      else do {
        w \<leftarrow> eeprom_reselect (eeprom_cmd addr) addr h w;
        (bs, w) \<leftarrow> eeprom_get (unat len) h w;
        w \<leftarrow> no_ack w;
        w \<leftarrow> stop w;
        (_, w) \<leftarrow> eeprom_read_byte addr h w;
        Some (bs, w)
      })"

subsection \<open>Only the bus is touched\<close>

lemma keeps_conditions:
  "keeps only_trace start" "keeps only_trace stop" "keeps only_trace master_send_ack"
  "keeps only_trace no_ack"
  unfolding start_def stop_def master_send_ack_def no_ack_def
  by (intro bus_rules)+

lemma keeps_wait_slave_ack: "keeps only_trace (wait_slave_ack h)"
  unfolding wait_slave_ack_def Let_def by (intro bus_rules keeps_conditions)

lemma keeps_iic_write: "keeps only_trace (iic_write dat)"
proof -
  have "keeps only_trace (iic_write_loop n dat)" for n
  proof (induction n arbitrary: dat)
    case 0
    show ?case unfolding iic_write_loop.simps by (intro bus_rules)
  next
    case (Suc n)
    show ?case unfolding iic_write_loop.simps Let_def by (intro bus_rules Suc.IH)
  qed
  then show ?thesis unfolding iic_write_def by (intro bus_rules)
qed

lemma keepsv_iic_read: "keepsv only_trace (iic_read h)"
proof -
  have "keepsv only_trace (iic_read_loop n dat h)" for n dat
  proof (induction n arbitrary: dat)
    case 0
    show ?case unfolding iic_read_loop.simps by (intro bus_rules)
  next
    case (Suc n)
    show ?case unfolding iic_read_loop.simps Let_def by (intro bus_rules Suc.IH)
  qed
  then show ?thesis unfolding iic_read_def by (intro bus_rules)
qed

lemmas iic_rules = bus_rules keeps_conditions keeps_wait_slave_ack keeps_iic_write keepsv_iic_read

lemma keeps_eeprom_select: "keeps only_trace (eeprom_select cmd addr h)"
  unfolding eeprom_select_def by (intro iic_rules)

lemma keeps_eeprom_write_byte: "keeps only_trace (eeprom_write_byte addr dat h)"
  unfolding eeprom_write_byte_def Let_def by (intro iic_rules keeps_eeprom_select)

lemma keeps_eeprom_write_run: "keeps only_trace (eeprom_write_run cmd addr dat off n h)"
  unfolding eeprom_write_run_def eeprom_put_def
  by (intro iic_rules keeps_eeprom_select tr.keeps_pure)

lemma keeps_eeprom_write_page: "keeps only_trace (eeprom_write_page addr dat len h)"
  unfolding eeprom_write_page_def Let_def by (intro iic_rules keeps_eeprom_write_run)

lemma keeps_eeprom_reselect: "keeps only_trace (eeprom_reselect cmd addr h)"
  unfolding eeprom_reselect_def Let_def by (intro iic_rules keeps_eeprom_select)

lemma keepsv_eeprom_read_byte: "keepsv only_trace (eeprom_read_byte addr h)"
  unfolding eeprom_read_byte_def by (intro iic_rules keeps_eeprom_reselect)

lemma keepsv_eeprom_get: "keepsv only_trace (eeprom_get n h)"
proof (induction n)
  case 0
  show ?case unfolding eeprom_get.simps by (intro iic_rules)
next
  case (Suc n)
  show ?case unfolding eeprom_get.simps by (intro iic_rules Suc.IH)
qed

lemma keepsv_eeprom_sequential_read: "keepsv only_trace (eeprom_sequential_read addr len h)"
  unfolding eeprom_sequential_read_def
  by (intro iic_rules keeps_eeprom_reselect keepsv_eeprom_read_byte keepsv_eeprom_get)

lemmas eeprom_rules = iic_rules keeps_eeprom_write_byte keeps_eeprom_write_page
  keepsv_eeprom_read_byte keepsv_eeprom_sequential_read

end
