(* ===== verification/IicProtocol.thy ===== *)
theory IicProtocol
  imports Iic
begin

unbundle bit_operations_syntax

text \<open>
  What the bit-banged EEPROM transactions look like from the bus. The first part computes the
  exact pin accesses of every operation of \<open>iic.c\<close>; the second runs a bus monitor over them
  and shows that the byte level the code means is the byte level a chip on the bus sees.
\<close>

subsection \<open>The pin accesses of each operation\<close>

definition start_evs :: "event list" where
  "start_evs = [Iowr SDA_BASE 1 OUT, Iowr SDA_BASE 0 1, Iowr SCL_BASE 0 1, Spin 4,
     Iowr SDA_BASE 0 0, Spin 2]"

definition stop_evs :: "event list" where
  "stop_evs = [Iowr SDA_BASE 1 OUT, Iowr SDA_BASE 0 0, Iowr SCL_BASE 0 0, Spin 4,
     Iowr SCL_BASE 0 1, Spin 2, Iowr SDA_BASE 0 1, Spin 4]"

definition ack_sample_evs :: "event list" where
  "ack_sample_evs = [Iowr SCL_BASE 0 0, Iowr SDA_BASE 1 IN, Spin 4, Iowr SCL_BASE 0 1, Spin 2]"

definition nack :: "env \<Rightarrow> event list \<Rightarrow> bool" where
  \<comment> \<open>the level sampled in the acknowledge slot that follows \<open>tr\<close> is high\<close>
  "nack h tr \<longleftrightarrow> (ucast (rd h (tr @ ack_sample_evs) SDA_BASE 0) :: byte) = 1"

definition ack_evs :: "bool \<Rightarrow> event list" where
  "ack_evs refused = ack_sample_evs @ [Iord SDA_BASE 0, Spin 2, Iowr SCL_BASE 0 0, Spin 4] @
     (if refused then stop_evs else [])"

definition bit_evs :: "bool \<Rightarrow> event list" where
  "bit_evs b = [Iowr SCL_BASE 0 0, Spin 4, Iowr SDA_BASE 0 (of_bool b), Spin 2,
     Iowr SCL_BASE 0 1, Spin 4]"

definition byte_evs :: "byte \<Rightarrow> event list" where
  \<comment> \<open>most significant bit first\<close>
  "byte_evs b = Iowr SDA_BASE 1 OUT # concat (map bit_evs
     [bit b 7, bit b 6, bit b 5, bit b 4, bit b 3, bit b 2, bit b 1, bit b 0])"

lemma start_result: "start w = Some (logged w start_evs)"
  by (simp add: start_def start_evs_def)

lemma stop_result: "stop w = Some (logged w stop_evs)"
  by (simp add: stop_def stop_evs_def)

lemma wait_slave_ack_result:
  "wait_slave_ack h w = Some (logged w (ack_evs (nack h (trace w))))"
  by (simp add: wait_slave_ack_def ack_evs_def nack_def ack_sample_evs_def stop_result Let_def)

lemma top_bit: "(dat AND 0x80 \<noteq> 0) = bit (dat :: byte) 7"
  using and_exp_eq_0_iff_not_bit [of dat 7] by simp

lemma iic_write_loop_Suc:
  "iic_write_loop (Suc n) dat w = iic_write_loop n (push_bit 1 dat) (logged w (bit_evs (bit dat 7)))"
  by (simp add: top_bit bit_evs_def Let_def del: push_bit_of_1)

lemma iic_write_result: "iic_write dat w = Some (logged w (byte_evs dat))"
proof -
  have 8: "(8 :: nat) = Suc (Suc (Suc (Suc (Suc (Suc (Suc (Suc 0)))))))"
    by simp
  show ?thesis
    unfolding iic_write_def 8 iic_write_loop_Suc iic_write_loop.simps(1)
    by (simp add: byte_evs_def bit_simps del: push_bit_Suc One_nat_def, simp)
qed

definition sent_evs :: "env \<Rightarrow> event list \<Rightarrow> byte \<Rightarrow> event list" where
  \<comment> \<open>a byte and its acknowledge slot, after \<open>tr\<close>\<close>
  "sent_evs h tr b = byte_evs b @ ack_evs (nack h (tr @ byte_evs b))"

primrec sent_all :: "env \<Rightarrow> event list \<Rightarrow> byte list \<Rightarrow> event list" where
  "sent_all h tr [] = []"
| "sent_all h tr (b # bs) = sent_evs h tr b @ sent_all h (tr @ sent_evs h tr b) bs"

lemma send_byte_result:
  "do { w \<leftarrow> iic_write b w; wait_slave_ack h w } = Some (logged w (sent_evs h (trace w) b))"
  by (simp add: iic_write_result wait_slave_ack_result sent_evs_def)

lemma sent_all_append:
  "sent_all h tr (xs @ ys) = sent_all h tr xs @ sent_all h (tr @ sent_all h tr xs) ys"
  by (induction xs arbitrary: tr) auto

lemma eeprom_select_result:
  "eeprom_select cmd addr h w =
     Some (logged w (start_evs @ sent_all h (trace w @ start_evs) [cmd, byte_of 8 addr, byte_of 0 addr]))"
  by (simp add: eeprom_select_def start_result iic_write_result wait_slave_ack_result sent_evs_def)

definition frame_evs :: "env \<Rightarrow> event list \<Rightarrow> byte list \<Rightarrow> event list" where
  \<comment> \<open>a whole write transaction that starts after \<open>tr\<close>\<close>
  "frame_evs h tr bs = start_evs @ sent_all h (tr @ start_evs) bs @ stop_evs"

definition address_bytes :: "uint \<Rightarrow> uint \<Rightarrow> byte list" where
  \<comment> \<open>device code from the base address of the call, word address of the page\<close>
  "address_bytes base addr = [eeprom_cmd base, byte_of 8 addr, byte_of 0 addr]"

lemma eeprom_write_byte_result:
  "eeprom_write_byte addr dat h w =
     Some (logged w (frame_evs h (trace w) (address_bytes addr addr @ [dat]) @ [Spin 5000]))"
  by (simp add: eeprom_write_byte_def eeprom_select_result frame_evs_def address_bytes_def Let_def
      iic_write_result wait_slave_ack_result stop_result sent_evs_def)

lemma eeprom_put_result:
  "k < length dat \<Longrightarrow> eeprom_put dat h k w = Some (logged w (sent_evs h (trace w) (dat ! k)))"
  by (simp add: eeprom_put_def iic_write_result wait_slave_ack_result sent_evs_def)

lemma eeprom_put_all:
  "off + n \<le> length dat \<Longrightarrow>
     for_each [0..<n] (\<lambda>j. eeprom_put dat h (off + j)) w =
     Some (logged w (sent_all h (trace w) (take n (drop off dat))))"
proof (induction n)
  case 0
  then show ?case by simp
next
  case (Suc n)
  then show ?case
    by (simp add: for_each_append eeprom_put_result take_Suc_conv_app_nth sent_all_append)
qed

lemma eeprom_write_run_result:
  assumes "off + n \<le> length dat"
  shows "eeprom_write_run (eeprom_cmd base) addr dat off n h w =
     Some (logged w (frame_evs h (trace w) (address_bytes base addr @ take n (drop off dat)) @ [Spin 20000]))"
  using assms
  by (simp add: eeprom_write_run_def eeprom_select_result eeprom_put_all stop_result frame_evs_def
      sent_all_append address_bytes_def)

subsection \<open>The bus monitor\<close>

datatype sym = Start | Stop | Byte byte

datatype mon = Mon (scl: bool) (sda: bool) (acc: "bool list") (out: "sym list")

definition byte_of_bits :: "bool list \<Rightarrow> byte" where
  "byte_of_bits bs = foldl (\<lambda>v b. push_bit 1 v OR of_bool b) 0 bs"

definition clock_in :: "mon \<Rightarrow> mon" where
  \<comment> \<open>a rising clock edge samples the data line; the ninth sample is the acknowledge slot\<close>
  "clock_in m = (let a = acc m @ [sda m] in
     if length a = 9 then Mon True (sda m) [] (out m @ [Byte (byte_of_bits (take 8 a))])
     else Mon True (sda m) a (out m))"

fun mon_step :: "mon \<Rightarrow> event \<Rightarrow> mon" where
  "mon_step m (Iowr d r v) =
     (if d = SCL_BASE \<and> r = 0
      then (if v = 0 then Mon False (sda m) (acc m) (out m)
            else if scl m then m else clock_in m)
      else if d = SDA_BASE \<and> r = 0
      then (if scl m \<and> sda m \<and> v = 0 then Mon True False [] (out m @ [Start])
            else if scl m \<and> \<not> sda m \<and> v \<noteq> 0 then Mon True True [] (out m @ [Stop])
            else Mon (scl m) (v \<noteq> 0) (acc m) (out m))
      else m)"
| "mon_step m _ = m"

definition mon_run :: "event list \<Rightarrow> mon \<Rightarrow> mon" where
  "mon_run evs m = foldl mon_step m evs"

lemma mon_run_simps [simp]:
  "mon_run [] m = m" "mon_run (e # evs) m = mon_run evs (mon_step m e)"
  "mon_run (xs @ ys) m = mon_run ys (mon_run xs m)"
  by (simp_all add: mon_run_def)

lemma bit_shift_in:
  "n < 8 \<Longrightarrow> bit (push_bit 1 v OR of_bool c :: byte) n = (if n = 0 then c else bit v (n - 1))"
  by (auto simp: bit_simps simp del: push_bit_Suc One_nat_def)

lemma byte_of_bits_msb:
  "byte_of_bits [bit b 7, bit b 6, bit b 5, bit b 4, bit b 3, bit b 2, bit b 1, bit b 0] = b"
  (is "byte_of_bits ?bs = b")
proof (rule bit_word_eqI)
  fix n assume "n < LENGTH(8)"
  then have "n = 0 \<or> n = 1 \<or> n = 2 \<or> n = 3 \<or> n = 4 \<or> n = 5 \<or> n = 6 \<or> n = 7" by auto
  then show "bit (byte_of_bits ?bs) n = bit b n"
    unfolding byte_of_bits_def foldl.simps by (elim disjE) (simp_all add: bit_shift_in)
qed

lemma mon_sent:
  "\<exists>d. mon_run (byte_evs b @ ack_evs refused) (Mon s d0 [] syms) =
     (if refused then Mon True True [] (syms @ [Byte b, Stop]) else Mon False d [] (syms @ [Byte b]))"
proof -
  have "mon_run (byte_evs b) (Mon s d0 [] syms) =
      Mon True (bit b 0) [bit b 7, bit b 6, bit b 5, bit b 4, bit b 3, bit b 2, bit b 1, bit b 0] syms"
    by (simp add: byte_evs_def bit_evs_def clock_in_def)
  then show ?thesis
    by (auto simp: ack_evs_def ack_sample_evs_def stop_evs_def clock_in_def
        byte_of_bits_msb [unfolded One_nat_def])
qed

definition slot_syms :: "byte \<times> bool \<Rightarrow> sym list" where
  "slot_syms x = Byte (fst x) # (if snd x then [Stop] else [])"

primrec refusals :: "env \<Rightarrow> event list \<Rightarrow> byte list \<Rightarrow> bool list" where
  \<comment> \<open>which of the bytes sent after \<open>tr\<close> the slave refuses\<close>
  "refusals h tr [] = []"
| "refusals h tr (b # bs) = nack h (tr @ byte_evs b) # refusals h (tr @ sent_evs h tr b) bs"

lemma refusals_length [simp]: "length (refusals h tr bs) = length bs"
  by (induction bs arbitrary: tr) auto

definition released :: "mon \<Rightarrow> bool" where
  \<comment> \<open>both lines high, or the clock held low: the states a transaction may start or go on from\<close>
  "released m \<longleftrightarrow> acc m = [] \<and> (scl m \<longrightarrow> sda m)"

lemma mon_sent_all:
  "\<exists>m'. mon_run (sent_all h tr bs) m = m' \<and> out m' = out m @ concat (map slot_syms (zip bs (refusals h tr bs)))
     \<and> acc m' = [] \<and> (bs \<noteq> [] \<longrightarrow> released m' \<and> scl m' = last (refusals h tr bs))"
  if "acc m = []" for m
  using that
proof (induction bs arbitrary: m tr)
  case Nil
  then show ?case by simp
next
  case (Cons b bs)
  obtain s d0 syms where m: "m = Mon s d0 [] syms" using Cons.prems by (cases m) auto
  define r where "r = nack h (tr @ byte_evs b)"
  obtain d where d: "mon_run (byte_evs b @ ack_evs r) m =
     (if r then Mon True True [] (syms @ [Byte b, Stop]) else Mon False d [] (syms @ [Byte b]))"
    using mon_sent [of b r s d0 syms] unfolding m by blast
  define m1 where "m1 = mon_run (sent_evs h tr b) m"
  have m1: "acc m1 = []" "released m1" "scl m1 = r" "out m1 = out m @ slot_syms (b, r)"
    unfolding m1_def sent_evs_def r_def [symmetric] d by (auto simp: slot_syms_def m released_def)
  have "mon_run (sent_all h tr (b # bs)) m = mon_run (sent_all h (tr @ sent_evs h tr b) bs) m1"
    by (simp add: m1_def)
  then show ?case
    using Cons.IH [OF m1(1), of "tr @ sent_evs h tr b"] m1 by (cases bs) (auto simp: r_def)
qed

lemma mon_start: "released m \<Longrightarrow> mon_run start_evs m = Mon True False [] (out m @ [Start])"
  by (cases m) (auto simp: start_evs_def released_def clock_in_def)

lemma mon_stop: "released m \<Longrightarrow> \<not> scl m \<Longrightarrow> mon_run stop_evs m = Mon True True [] (out m @ [Stop])"
  by (cases m) (auto simp: stop_evs_def released_def clock_in_def)

subsection \<open>Acknowledged transactions\<close>

definition always_acks :: "env \<Rightarrow> bool" where
  \<comment> \<open>the slave pulls the data line low in every acknowledge slot\<close>
  "always_acks h \<longleftrightarrow> (\<forall>tr. \<not> nack h tr)"

lemma refusals_acked: "always_acks h \<Longrightarrow> refusals h tr bs = replicate (length bs) False"
  by (induction bs arbitrary: tr) (auto simp: always_acks_def)

lemma slots_acked: "concat (map slot_syms (zip bs (replicate (length bs) False))) = map Byte bs"
  by (induction bs) (auto simp: slot_syms_def)

lemma mon_frame_acked:
  assumes acks: "always_acks h" and m: "released m" and bs: "bs \<noteq> []"
  shows "mon_run (frame_evs h tr bs) m = Mon True True [] (out m @ Start # map Byte bs @ [Stop])"
proof -
  define m1 where "m1 = mon_run (sent_all h (tr @ start_evs) bs) (Mon True False [] (out m @ [Start]))"
  have "out m1 = out m @ [Start] @ map Byte bs" "released m1" "\<not> scl m1"
    using mon_sent_all [of "Mon True False [] (out m @ [Start])" h "tr @ start_evs" bs] bs acks
    by (auto simp: m1_def refusals_acked slots_acked)
  then show ?thesis
    using mon_start [OF m] mon_stop [of m1] by (simp add: frame_evs_def m1_def)
qed

definition page_split :: "nat \<Rightarrow> (nat \<times> nat) list" where
  \<comment> \<open>offset and length of the runs \<open>eeprom_write_page\<close> cuts a buffer into\<close>
  "page_split len = map (\<lambda>i. (i * 256, 256)) [0..<len div 256] @
     (if len mod 256 \<noteq> 0 then [(len div 256 * 256, len mod 256)] else [])"

definition page_syms :: "uint \<Rightarrow> byte list \<Rightarrow> nat \<times> nat \<Rightarrow> sym list" where
  "page_syms addr dat pg = (case pg of (off, n) \<Rightarrow>
     Start # map Byte (address_bytes addr (addr + of_nat off) @ take n (drop off dat)) @ [Stop])"

lemma page_split_covers: "concat (map (\<lambda>(off, n). take n (drop off dat)) (page_split len)) = take len dat"
proof -
  have pages: "concat (map (\<lambda>i. take 256 (drop (i * 256) dat)) [0..<k]) = take (k * 256) dat" for k
  proof (induction k)
    case 0
    then show ?case by simp
  next
    case (Suc k)
    have "take (Suc k * 256) dat = take (k * 256 + 256) dat" by (simp add: add.commute)
    also have "\<dots> = take (k * 256) dat @ take 256 (drop (k * 256) dat)" by (rule take_add)
    finally show ?case using Suc by simp
  qed
  have "take len dat = take (len div 256 * 256 + len mod 256) dat" by simp
  also have "\<dots> = take (len div 256 * 256) dat @ take (len mod 256) (drop (len div 256 * 256) dat)"
    by (simp only: take_add)
  finally have split: "take len dat = \<dots>" .
  show ?thesis
  proof (cases "len mod 256 = 0")
    case True
    then show ?thesis using pages [of "len div 256"] split by (simp add: page_split_def comp_def)
  next
    case False
    then show ?thesis using pages [of "len div 256"] split by (simp add: page_split_def comp_def)
  qed
qed

interpretation wire: observer mon_step "Mon True True []"
  by unfold_locales simp

lemma mon_sees:
  "(\<And>pre. mon_run evs (Mon True True [] pre) = Mon True True [] (pre @ syms)) \<Longrightarrow> wire.sees evs syms"
  by (simp add: wire.sees_def mon_run_def)

lemma sees_mon: "wire.sees evs syms \<Longrightarrow> mon_run evs (Mon True True [] pre) = Mon True True [] (pre @ syms)"
  by (simp add: wire.sees_def mon_run_def)

lemma transfers_run:
  assumes "always_acks h" and "off + n \<le> length dat"
  shows "wire.does (eeprom_write_run (eeprom_cmd addr) (addr + of_nat off) dat off n h)
    (page_syms addr dat (off, n))"
proof (rule wire.doesI)
  let ?bs = "address_bytes addr (addr + of_nat off) @ take n (drop off dat)"
  show "eeprom_write_run (eeprom_cmd addr) (addr + of_nat off) dat off n h w =
      Some (logged w (frame_evs h (trace w) ?bs @ [Spin 20000]))" for w :: "'a bus_scheme"
    by (rule eeprom_write_run_result [OF assms(2)])
  show "wire.sees (frame_evs h (trace w) ?bs @ [Spin 20000]) (page_syms addr dat (off, n))"
    for w :: "'a bus_scheme"
    using mon_frame_acked [OF assms(1), of "Mon True True [] _" ?bs]
    by (intro mon_sees) (simp add: released_def address_bytes_def page_syms_def)
qed

lemma page_counts:
  fixes len :: half
  shows "unat (ucast (len div 256) :: byte) = unat len div 256"
    and "unat (ucast (len mod 256) :: byte) = unat len mod 256"
proof -
  have "unat len < 2 ^ LENGTH(16)" by (rule unsigned_less)
  then have "unat len div 256 < 256" by (simp add: less_mult_imp_div_less)
  then show "unat (ucast (len div 256) :: byte) = unat len div 256"
    by (simp add: unsigned_ucast_eq take_bit_eq_mod unat_div_distrib)
  show "unat (ucast (len mod 256) :: byte) = unat len mod 256"
    by (simp add: unsigned_ucast_eq take_bit_eq_mod unat_mod_distrib)
qed

lemma eeprom_write_page_transfers:
  assumes acks: "always_acks h" and len: "unat len \<le> length dat"
  shows "wire.does (eeprom_write_page addr dat len h :: 'a bus_scheme \<Rightarrow> _) (concat (map (page_syms addr dat) (page_split (unat len))))"
proof -
  let ?k = "unat len div 256" and ?r = "unat len mod 256"
  have all: "?k * 256 + ?r \<le> length dat" using len by simp
  have loop: "wire.does (for_each [0..<?k] (\<lambda>i. eeprom_write_run (eeprom_cmd addr) (addr + of_nat (i * 256))
      dat (i * 256) 256 h) :: 'a bus_scheme \<Rightarrow> _) (concat (map (\<lambda>i. page_syms addr dat (i * 256, 256)) [0..<?k]))"
  proof (rule wire.does_for)
    fix i assume "i \<in> set [0..<?k]"
    then have "Suc i * 256 \<le> ?k * 256" by (intro mult_le_mono) auto
    then have "i * 256 + 256 \<le> length dat" using all by simp
    then show "wire.does (eeprom_write_run (eeprom_cmd addr) (addr + of_nat (i * 256)) dat (i * 256) 256 h)
      (page_syms addr dat (i * 256, 256))" by (rule transfers_run [OF acks])
  qed
  have rest: "wire.does (\<lambda>w :: 'a bus_scheme. if ?r \<noteq> 0 then eeprom_write_run (eeprom_cmd addr) (addr + of_nat (?k * 256))
      dat (?k * 256) ?r h w else Some w) (if ?r \<noteq> 0 then page_syms addr dat (?k * 256, ?r) else [])"
    using transfers_run [OF acks all] wire.does_done by auto
  have "eeprom_write_page addr dat len h = (\<lambda>w :: 'a bus_scheme. do {
     w \<leftarrow> for_each [0..<?k] (\<lambda>i. eeprom_write_run (eeprom_cmd addr) (addr + of_nat (i * 256)) dat (i * 256) 256 h) w;
     if ?r \<noteq> 0 then eeprom_write_run (eeprom_cmd addr) (addr + of_nat (?k * 256)) dat (?k * 256) ?r h w else Some w })"
    by (rule ext) (simp only: eeprom_write_page_def Let_def page_counts EEPROM_PAGE_SIZE_def)
  moreover have "concat (map (page_syms addr dat) (page_split (unat len))) =
      concat (map (\<lambda>i. page_syms addr dat (i * 256, 256)) [0..<?k]) @
      (if ?r \<noteq> 0 then page_syms addr dat (?k * 256, ?r) else [])"
    by (simp add: page_split_def comp_def)
  ultimately show ?thesis
    using wire.does_seq [OF loop rest] by (simp only:)
qed

lemma eeprom_write_byte_transfers:
  assumes "always_acks h"
  shows "wire.does (eeprom_write_byte addr dat h) (Start # map Byte (address_bytes addr addr @ [dat]) @ [Stop])"
proof (rule wire.doesI [OF eeprom_write_byte_result])
  show "wire.sees (frame_evs h (trace w) (address_bytes addr addr @ [dat]) @ [Spin 5000])
      (Start # map Byte (address_bytes addr addr @ [dat]) @ [Stop])" for w :: "'a bus_scheme"
    using mon_frame_acked [OF assms, of "Mon True True [] _" "address_bytes addr addr @ [dat]"]
    by (intro mon_sees) (simp add: released_def)
qed

subsection \<open>Reading a byte\<close>

definition read_bit_evs :: "event list" where
  "read_bit_evs = [Iowr SCL_BASE 0 0, Spin 4, Iowr SCL_BASE 0 1, Spin 2, Iord SDA_BASE 0, Spin 2]"

definition sampled :: "env \<Rightarrow> event list \<Rightarrow> uint" where
  \<comment> \<open>the data line during the high phase of the clock pulse that follows \<open>tr\<close>\<close>
  "sampled h tr = rd h (tr @ [Iowr SCL_BASE 0 0, Spin 4, Iowr SCL_BASE 0 1, Spin 2]) SDA_BASE 0"

primrec samples :: "nat \<Rightarrow> env \<Rightarrow> event list \<Rightarrow> bool list" where
  "samples 0 h tr = []"
| "samples (Suc n) h tr = (sampled h tr \<noteq> 0) # samples n h (tr @ read_bit_evs)"

definition one_bit_pin :: "env \<Rightarrow> bool" where
  \<comment> \<open>the data port is one bit wide\<close>
  "one_bit_pin h \<longleftrightarrow> (\<forall>tr. rd h tr SDA_BASE 0 \<in> {0, 1})"

lemma iic_read_loop_samples:
  assumes "one_bit_pin h"
  shows "iic_read_loop n v h w =
    Some (foldl (\<lambda>v b. push_bit 1 v OR of_bool b) v (samples n h (trace w)),
          logged w (concat (replicate n read_bit_evs)))"
proof (induction n arbitrary: v w)
  case 0
  show ?case by simp
next
  case (Suc n)
  have "sampled h (trace w) \<in> {0, 1}"
    using assms by (simp add: one_bit_pin_def sampled_def)
  then have "(ucast (sampled h (trace w)) :: byte) = of_bool (sampled h (trace w) \<noteq> 0)"
    by auto
  then show ?case
    by (simp add: Suc.IH read_bit_evs_def sampled_def Let_def del: push_bit_Suc One_nat_def)
qed

text \<open>Reading a byte samples the data line once in the high phase of each of eight clock
  pulses and assembles the samples most significant bit first; nothing but the pins is touched.\<close>

theorem iic_read_assembles_samples:
  assumes "one_bit_pin h"
  shows "iic_read h w = Some (byte_of_bits (samples 8 h (trace w @ [Iowr SDA_BASE 1 IN])),
    w\<lparr>trace := trace w @ Iowr SDA_BASE 1 IN # concat (replicate 8 read_bit_evs) @ [Spin 2]\<rparr>)"
  using iic_read_loop_samples [OF assms, of 8 0 "logged w [Iowr SDA_BASE 1 IN]"]
  by (simp add: iic_read_def byte_of_bits_def logged_def)

theorem iic_read_assembles_samples_witness:
  "iic_read quiet_env \<lparr>trace = []\<rparr> =
     Some (byte_of_bits (samples 8 quiet_env ([] @ [Iowr SDA_BASE 1 IN])),
       \<lparr>trace = [] @ Iowr SDA_BASE 1 IN # concat (replicate 8 read_bit_evs) @ [Spin 2]\<rparr>)"
  using iic_read_assembles_samples [of quiet_env "\<lparr>trace = []\<rparr>"]
  by (simp add: one_bit_pin_def quiet_env_def)

subsection \<open>Writing to the EEPROM\<close>

lemma quiet_env_acks: "always_acks quiet_env"
  by (simp add: always_acks_def nack_def quiet_env_def)

text \<open>C23: writing a block to an acknowledging EEPROM: a chip watching the two wires decodes exactly
  one framed transaction per 256-byte page, each with the device code, the page address and the
  bytes of that page, the pages together carry the whole block in order, and the bus is idle after.\<close>

theorem eeprom_write_page_protocol:
  assumes "always_acks h" and "unat len \<le> length dat"
  shows "\<exists>evs. eeprom_write_page addr dat len h w = Some (w\<lparr>trace := trace w @ evs\<rparr>) \<and>
    mon_run evs (Mon True True [] []) =
      Mon True True [] (concat (map (page_syms addr dat) (page_split (unat len)))) \<and>
    concat (map (\<lambda>(off, n). take n (drop off dat)) (page_split (unat len))) = take (unat len) dat"
proof -
  obtain evs where evs: "eeprom_write_page addr dat len h w = Some (logged w evs)"
      "wire.sees evs (concat (map (page_syms addr dat) (page_split (unat len))))"
    using wire.doesD [OF eeprom_write_page_transfers [OF assms, of addr]] by blast
  show ?thesis
    using evs(1) sees_mon [OF evs(2), of "[]"] page_split_covers [of dat "unat len"]
    by (intro exI [of _ evs]) (simp add: logged_def)
qed

theorem eeprom_write_page_protocol_witness:
  "\<exists>evs. eeprom_write_page 512 (replicate 300 7) 300 quiet_env \<lparr>trace = []\<rparr> =
      Some (\<lparr>trace = [] :: event list\<rparr>\<lparr>trace := trace \<lparr>trace = []\<rparr> @ evs\<rparr>) \<and>
    mon_run evs (Mon True True [] []) =
      Mon True True [] (concat (map (page_syms 512 (replicate 300 7)) (page_split (unat (300 :: half))))) \<and>
    concat (map (\<lambda>(off, n). take n (drop off (replicate 300 7))) (page_split (unat (300 :: half)))) =
      take (unat (300 :: half)) (replicate 300 (7 :: byte))"
  by (rule eeprom_write_page_protocol) (simp_all add: quiet_env_acks)

text \<open>The driver ignores refusals: whatever the slave answers in the acknowledge slots, writing a
  byte returns, and all four bytes of the transaction (device code, two address bytes, data) are
  put on the bus in order, the later ones also after a refusal, which only inserts a stop.\<close>

theorem eeprom_write_ignores_nack:
  "\<exists>evs. eeprom_write_byte addr dat h w = Some (w\<lparr>trace := trace w @ evs\<rparr>) \<and>
    [b. Byte b \<leftarrow> out (mon_run evs (Mon True True [] []))] =
      [eeprom_cmd addr, byte_of 8 addr, byte_of 0 addr, dat]"
proof -
  let ?bs = "address_bytes addr addr @ [dat]"
  let ?m0 = "Mon True False [] [Start]"
  have bytes: "[b. Byte b \<leftarrow> concat (map slot_syms (zip xs (refusals h tr xs)))] = xs" for xs tr
    by (induction xs arbitrary: tr) (simp_all add: slot_syms_def)
  have stop_bytes: "[b. Byte b \<leftarrow> out (mon_run stop_evs m)] = [b. Byte b \<leftarrow> out m]"
    if "acc m = []" for m
    using that by (cases m) (auto simp: stop_evs_def clock_in_def)
  define m1 where "m1 = mon_run (sent_all h (trace w @ start_evs) ?bs) ?m0"
  have m1: "out m1 = Start # concat (map slot_syms (zip ?bs (refusals h (trace w @ start_evs) ?bs)))"
    "acc m1 = []"
    using mon_sent_all [of ?m0 h "trace w @ start_evs" ?bs] by (auto simp: m1_def)
  have "mon_run (frame_evs h (trace w) ?bs @ [Spin 5000]) (Mon True True [] []) = mon_run stop_evs m1"
    using mon_start [of "Mon True True [] []"] by (simp add: frame_evs_def m1_def released_def)
  then have "[b. Byte b \<leftarrow> out (mon_run (frame_evs h (trace w) ?bs @ [Spin 5000]) (Mon True True [] []))] = ?bs"
    by (simp only: stop_bytes [OF m1(2)] m1(1)) (simp add: bytes)
  then show ?thesis
    using eeprom_write_byte_result [of addr dat h w] by (auto simp: logged_def address_bytes_def)
qed

subsection \<open>Reading from the EEPROM\<close>

definition sda_reads :: "event list \<Rightarrow> nat" where
  "sda_reads tr = length (filter (\<lambda>e. e = Iord SDA_BASE 0) tr)"

lemma sda_reads_simps [simp]:
  "sda_reads [] = 0" "sda_reads (xs @ ys) = sda_reads xs + sda_reads ys"
  "sda_reads (Iowr d r v # es) = sda_reads es" "sda_reads (Spin n # es) = sda_reads es"
  "sda_reads (Iord SDA_BASE 0 # es) = Suc (sda_reads es)"
  by (simp_all add: sda_reads_def)

definition clocked :: "env \<Rightarrow> (nat \<Rightarrow> bool) \<Rightarrow> bool" where
  \<comment> \<open>the level of the data line is a function of how often it has been sampled before\<close>
  "clocked h f \<longleftrightarrow> (\<forall>tr. rd h tr SDA_BASE 0 = of_bool (f (sda_reads tr)))"

definition byte_at :: "(nat \<Rightarrow> bool) \<Rightarrow> nat \<Rightarrow> byte" where
  "byte_at f k = byte_of_bits (map (\<lambda>i. f (k + i)) [0..<8])"

lemma sda_reads_concat: "sda_reads (concat (replicate n xs)) = n * sda_reads xs"
  by (induction n) auto

lemma sda_reads_evs [simp]:
  "sda_reads start_evs = 0" "sda_reads stop_evs = 0" "sda_reads (byte_evs b) = 0"
  "sda_reads (ack_evs r) = 1" "sda_reads read_bit_evs = 1"
  by (simp_all add: start_evs_def stop_evs_def byte_evs_def bit_evs_def ack_evs_def ack_sample_evs_def
      read_bit_evs_def)

lemma sda_reads_sent [simp]: "sda_reads (sent_all h tr bs) = length bs"
  by (induction bs arbitrary: tr) (simp_all add: sent_evs_def)

lemma samples_clocked:
  "clocked h f \<Longrightarrow> samples n h tr = map (\<lambda>i. f (sda_reads tr + i)) [0..<n]"
proof (induction n arbitrary: tr)
  case 0
  show ?case by simp
next
  case (Suc n)
  have "sampled h tr = of_bool (f (sda_reads tr))"
    using Suc.prems by (simp add: clocked_def sampled_def)
  then show ?case
    using Suc by (simp add: map_upt_Suc del: upt_Suc)
qed

lemma iic_read_clocked:
  assumes "clocked h f"
  shows "\<exists>evs. iic_read h w = Some (byte_at f (sda_reads (trace w)), logged w evs) \<and> sda_reads evs = 8"
proof -
  have "one_bit_pin h" using assms by (auto simp: one_bit_pin_def clocked_def)
  then have "iic_read_loop 8 0 h (logged w [Iowr SDA_BASE 1 IN]) =
      Some (byte_at f (sda_reads (trace w)), logged w (Iowr SDA_BASE 1 IN # concat (replicate 8 read_bit_evs)))"
    by (simp add: iic_read_loop_samples samples_clocked [OF assms] byte_at_def byte_of_bits_def)
  then show ?thesis
    by (intro exI [of _ "Iowr SDA_BASE 1 IN # concat (replicate 8 read_bit_evs) @ [Spin 2]"])
      (simp add: iic_read_def sda_reads_concat)
qed

lemma ack_line_total:
  "\<exists>evs. master_send_ack w = Some (logged w evs) \<and> sda_reads evs = 0"
  "\<exists>evs. no_ack w = Some (logged w evs) \<and> sda_reads evs = 0"
  by (auto simp: master_send_ack_def no_ack_def)

lemma eeprom_get_clocked:
  assumes "clocked h f"
  shows "\<exists>evs. eeprom_get n h w = Some (map (\<lambda>j. byte_at f (sda_reads (trace w) + 8 * j)) [0..<n], logged w evs) \<and>
    sda_reads evs = 8 * n"
proof (induction n arbitrary: w)
  case 0
  show ?case by (intro exI [of _ "[]"]) simp
next
  case (Suc n)
  obtain e1 where e1: "iic_read h w = Some (byte_at f (sda_reads (trace w)), logged w e1)" "sda_reads e1 = 8"
    using iic_read_clocked [OF assms] by blast
  obtain e2 where e2: "master_send_ack (logged w e1) = Some (logged (logged w e1) e2)" "sda_reads e2 = 0"
    using ack_line_total(1) by blast
  obtain e3 where e3: "eeprom_get n h (logged w (e1 @ e2)) =
      Some (map (\<lambda>j. byte_at f (sda_reads (trace w) + 8 + 8 * j)) [0..<n], logged w (e1 @ e2 @ e3))"
      "sda_reads e3 = 8 * n"
    using Suc.IH [of "logged w (e1 @ e2)"] e1(2) e2(2) by auto
  have "[0..<Suc n] = 0 # map Suc [0..<n]"
    by (simp add: map_Suc_upt upt_conv_Cons)
  then have "map (\<lambda>j. byte_at f (sda_reads (trace w) + 8 * j)) [0..<Suc n] =
      byte_at f (sda_reads (trace w)) # map (\<lambda>j. byte_at f (sda_reads (trace w) + 8 + 8 * j)) [0..<n]"
    by (simp add: algebra_simps comp_def)
  then show ?case
    using e1 e2 e3 by (intro exI [of _ "e1 @ e2 @ e3"]) (simp del: upt_Suc)
qed

lemma eeprom_reselect_total:
  "\<exists>evs. eeprom_reselect (eeprom_cmd base) addr h w = Some (logged w evs) \<and> sda_reads evs = 4"
proof -
  define e where "e = start_evs @ sent_all h (trace w @ start_evs) [eeprom_cmd base, byte_of 8 addr, byte_of 0 addr]"
  define e' where "e' = start_evs @ sent_all h (trace w @ e @ start_evs) [eeprom_cmd base OR 1]"
  have "sda_reads (e @ e') = 4"
    by (simp add: e_def e'_def del: sent_all.simps)
  moreover have "eeprom_reselect (eeprom_cmd base) addr h w = Some (logged w (e @ e'))"
    by (simp add: eeprom_reselect_def eeprom_select_result start_result iic_write_result
        wait_slave_ack_result sent_evs_def e_def e'_def Let_def)
  ultimately show ?thesis by blast
qed

lemma iic_read_total: "\<exists>b evs. iic_read h w = Some (b, logged w evs)"
proof -
  have "\<exists>b evs. iic_read_loop n dat h v = Some (b, logged v evs)" for n dat and v :: "'a bus_scheme"
  proof (induction n arbitrary: dat v)
    case 0
    show ?case by (auto intro: exI [of _ "[]"])
  next
    case (Suc n)
    show ?case by (simp add: Let_def) (metis Suc.IH logged_simps(1))
  qed
  then obtain b evs where "iic_read_loop 8 0 h (logged w [Iowr SDA_BASE 1 IN]) = Some (b, logged (logged w [Iowr SDA_BASE 1 IN]) evs)"
    by blast
  then show ?thesis
    by (intro exI [of _ b] exI [of _ "Iowr SDA_BASE 1 IN # evs @ [Spin 2]"]) (simp add: iic_read_def)
qed

lemma eeprom_get_total: "\<exists>bs evs. eeprom_get n h w = Some (bs, logged w evs) \<and> length bs = n"
proof (induction n arbitrary: w)
  case 0
  show ?case by (auto intro: exI [of _ "[]"])
next
  case (Suc n)
  obtain b e1 where "iic_read h w = Some (b, logged w e1)" using iic_read_total by blast
  moreover obtain e2 where "master_send_ack (logged w e1) = Some (logged (logged w e1) e2)"
    using ack_line_total(1) by blast
  moreover obtain bs e3 where "eeprom_get n h (logged w (e1 @ e2)) = Some (bs, logged (logged w (e1 @ e2)) e3)" "length bs = n"
    using Suc.IH by blast
  ultimately show ?case by (intro exI [of _ "b # bs"] exI [of _ "e1 @ e2 @ e3"]) simp
qed

lemma eeprom_read_byte_total: "\<exists>b evs. eeprom_read_byte addr h w = Some (b, logged w evs)"
proof (cases "addr > AT24C1024_MAX_ADDR")
  case True
  then show ?thesis by (auto simp: eeprom_read_byte_def intro!: exI [of _ "[]"])
next
  case False
  obtain e1 where e1: "eeprom_reselect (eeprom_cmd addr) addr h w = Some (logged w e1)"
    using eeprom_reselect_total by blast
  obtain b e2 where e2: "iic_read h (logged w e1) = Some (b, logged (logged w e1) e2)"
    using iic_read_total by blast
  obtain e3 where e3: "no_ack (logged w (e1 @ e2)) = Some (logged (logged w (e1 @ e2)) e3)"
    using ack_line_total(2) by blast
  show ?thesis
    using False e1 e2 e3 by (auto simp: eeprom_read_byte_def stop_result)
qed

text \<open>A sequential read ends whatever the data line says: acknowledged or not, erased or written.\<close>

lemma eeprom_sequential_total:
  assumes "addr \<le> AT24C1024_MAX_ADDR"
  shows "\<exists>bs evs. eeprom_sequential_read addr len h w = Some (bs, logged w evs) \<and> length bs = unat len"
proof -
  obtain e1 where e1: "eeprom_reselect (eeprom_cmd addr) addr h w = Some (logged w e1)"
    using eeprom_reselect_total by blast
  obtain bs e2 where e2: "eeprom_get (unat len) h (logged w e1) = Some (bs, logged (logged w e1) e2)" "length bs = unat len"
    using eeprom_get_total by blast
  obtain e3 where e3: "no_ack (logged w (e1 @ e2)) = Some (logged (logged w (e1 @ e2)) e3)"
    using ack_line_total(2) by blast
  obtain b e4 where e4: "eeprom_read_byte addr h (logged w (e1 @ e2 @ e3 @ stop_evs)) =
      Some (b, logged (logged w (e1 @ e2 @ e3 @ stop_evs)) e4)"
    using eeprom_read_byte_total by blast
  show ?thesis
    using assms e1 e2 e3 e4 by (auto simp: eeprom_sequential_read_def stop_result)
qed

lemma eeprom_sequential_clocked:
  assumes "clocked h f" and "addr \<le> AT24C1024_MAX_ADDR"
  shows "\<exists>evs. eeprom_sequential_read addr len h w =
    Some (map (\<lambda>j. byte_at f (sda_reads (trace w) + 4 + 8 * j)) [0..<unat len], logged w evs)"
proof -
  obtain e1 where e1: "eeprom_reselect (eeprom_cmd addr) addr h w = Some (logged w e1)" "sda_reads e1 = 4"
    using eeprom_reselect_total by blast
  obtain e2 where e2: "eeprom_get (unat len) h (logged w e1) =
      Some (map (\<lambda>j. byte_at f (sda_reads (trace w) + 4 + 8 * j)) [0..<unat len], logged w (e1 @ e2))"
    using eeprom_get_clocked [OF assms(1), of "unat len" "logged w e1"] e1(2) by auto
  obtain e3 where e3: "no_ack (logged w (e1 @ e2)) = Some (logged (logged w (e1 @ e2)) e3)"
    using ack_line_total(2) by blast
  obtain b e4 where e4: "eeprom_read_byte addr h (logged w (e1 @ e2 @ e3 @ stop_evs)) =
      Some (b, logged (logged w (e1 @ e2 @ e3 @ stop_evs)) e4)"
    using eeprom_read_byte_total by blast
  show ?thesis
    using assms(2) e1(1) e2 e3 e4 by (auto simp: eeprom_sequential_read_def stop_result)
qed

text \<open>Reading from the EEPROM: below the address limit a sequential read of any length returns
  exactly the bytes the chip shifts out, most significant bit first, from the fifth sample on (four
  acknowledge slots come before), whatever the chip acknowledges.\<close>

theorem eeprom_sequential_read_bytes:
  assumes "clocked h f" and "addr \<le> AT24C1024_MAX_ADDR"
  shows "\<exists>evs. eeprom_sequential_read addr len h w =
    Some (map (\<lambda>j. byte_of_bits (map (\<lambda>i. f (sda_reads (trace w) + 4 + 8 * j + i)) [0..<8])) [0..<unat len],
      w\<lparr>trace := trace w @ evs\<rparr>)"
  using eeprom_sequential_clocked [OF assms, of len w] by (simp add: byte_at_def logged_def)

definition shift_out :: "byte list \<Rightarrow> nat \<Rightarrow> bool" where
  \<comment> \<open>four low acknowledge slots, then the bytes, most significant bit first\<close>
  "shift_out bs k = (4 \<le> k \<and> (k - 4) div 8 < length bs \<and> bit (bs ! ((k - 4) div 8)) (7 - (k - 4) mod 8))"

definition eeprom_env :: "byte list \<Rightarrow> env" where
  "eeprom_env bs = quiet_env\<lparr>rd := \<lambda>tr d r. if d = SDA_BASE then of_bool (shift_out bs (sda_reads tr)) else 0\<rparr>"

lemma eeprom_env_clocked: "clocked (eeprom_env bs) (shift_out bs)"
  by (simp add: clocked_def eeprom_env_def)

lemma shift_out_byte: "j < length bs \<Longrightarrow> byte_at (shift_out bs) (4 + 8 * j) = bs ! j"
proof -
  assume "j < length bs"
  then have "shift_out bs (4 + 8 * j + i) = bit (bs ! j) (7 - i)" if "i < 8" for i
    using that by (simp add: shift_out_def)
  then have "map (\<lambda>i. shift_out bs (4 + 8 * j + i)) [0..<8] = map (\<lambda>i. bit (bs ! j) (7 - i)) [0..<8]"
    by (intro map_cong) auto
  also have "\<dots> = [bit (bs ! j) 7, bit (bs ! j) 6, bit (bs ! j) 5, bit (bs ! j) 4,
      bit (bs ! j) 3, bit (bs ! j) 2, bit (bs ! j) 1, bit (bs ! j) 0]"
    by (simp add: upt_rec)
  finally show ?thesis by (simp only: byte_at_def byte_of_bits_msb)
qed

lemma eeprom_env_read:
  assumes "unat len \<le> length bs" and "addr \<le> AT24C1024_MAX_ADDR" and "sda_reads (trace w) = 0"
  shows "\<exists>evs. eeprom_sequential_read addr len (eeprom_env bs) w = Some (take (unat len) bs, logged w evs)"
proof -
  have "map (\<lambda>j. byte_at (shift_out bs) (4 + 8 * j)) [0..<unat len] = take (unat len) bs"
    using assms(1) by (intro nth_equalityI) (simp_all add: shift_out_byte)
  then show ?thesis
    using eeprom_sequential_clocked [OF eeprom_env_clocked [of bs] assms(2), of len w] assms(3) by simp
qed

theorem eeprom_sequential_read_bytes_witness:
  "\<exists>evs. eeprom_sequential_read 0x400 3 (eeprom_env [1, 2, 3]) \<lparr>trace = []\<rparr> =
    Some (map (\<lambda>j. byte_of_bits (map (\<lambda>i. shift_out [1, 2, 3] (sda_reads (trace \<lparr>trace = []\<rparr>) + 4 + 8 * j + i)) [0..<8]))
        [0..<unat (3 :: half)],
      \<lparr>trace = []\<rparr>\<lparr>trace := trace \<lparr>trace = []\<rparr> @ evs\<rparr>)"
  by (rule eeprom_sequential_read_bytes) (simp_all add: eeprom_env_clocked AT24C1024_MAX_ADDR_def)

end
