(* ===== verification/W5500.thy ===== *)
theory W5500
  imports Bus
begin

unbundle bit_operations_syntax

text \<open>
  \<open>w5500.c\<close>: register and buffer access to the W5500 network controller through the SPI bridge.
  A register address is a 24-bit frame (offset, block, control bits); every access is a run of
  words written to the SPI FIFO between chip-select low and high, and data comes back through a
  second FIFO. The buffer sizes the driver keeps are in the state \<open>net\<close>.
\<close>

record net = bus +
  SSIZE :: "half list"
  RSIZE :: "half list"
  local_port :: half   \<comment> \<open>the static variable of \<open>socket.c\<close>\<close>

definition MAX_SOCK_NUM :: nat where "MAX_SOCK_NUM = 8"

subsection \<open>Register map\<close>

definition GAR0 :: uint where "GAR0 = 0x000100"
definition SUBR0 :: uint where "SUBR0 = 0x000500"
definition SHAR0 :: uint where "SHAR0 = 0x000900"
definition SIPR0 :: uint where "SIPR0 = 0x000F00"
definition RTR0 :: uint where "RTR0 = 0x001900"
definition RTR1 :: uint where "RTR1 = 0x001A00"
definition WIZ_RCR :: uint where "WIZ_RCR = 0x001B00"
definition IR :: uint where "IR = 0x001500"
definition MR :: uint where "MR = 0x000000"

definition Sn_MR :: "byte \<Rightarrow> uint" where "Sn_MR ch = 0x000008 + push_bit 5 (ucast ch)"
definition Sn_CR :: "byte \<Rightarrow> uint" where "Sn_CR ch = 0x000108 + push_bit 5 (ucast ch)"
definition Sn_IR :: "byte \<Rightarrow> uint" where "Sn_IR ch = 0x000208 + push_bit 5 (ucast ch)"
definition Sn_SR :: "byte \<Rightarrow> uint" where "Sn_SR ch = 0x000308 + push_bit 5 (ucast ch)"
definition Sn_PORT0 :: "byte \<Rightarrow> uint" where "Sn_PORT0 ch = 0x000408 + push_bit 5 (ucast ch)"
definition Sn_PORT1 :: "byte \<Rightarrow> uint" where "Sn_PORT1 ch = 0x000508 + push_bit 5 (ucast ch)"
definition Sn_DIPR0 :: "byte \<Rightarrow> uint" where "Sn_DIPR0 ch = 0x000C08 + push_bit 5 (ucast ch)"
definition Sn_DIPR1 :: "byte \<Rightarrow> uint" where "Sn_DIPR1 ch = 0x000D08 + push_bit 5 (ucast ch)"
definition Sn_DIPR2 :: "byte \<Rightarrow> uint" where "Sn_DIPR2 ch = 0x000E08 + push_bit 5 (ucast ch)"
definition Sn_DIPR3 :: "byte \<Rightarrow> uint" where "Sn_DIPR3 ch = 0x000F08 + push_bit 5 (ucast ch)"
definition Sn_DPORT0 :: "byte \<Rightarrow> uint" where "Sn_DPORT0 ch = 0x001008 + push_bit 5 (ucast ch)"
definition Sn_DPORT1 :: "byte \<Rightarrow> uint" where "Sn_DPORT1 ch = 0x001108 + push_bit 5 (ucast ch)"
definition Sn_MSSR0 :: "byte \<Rightarrow> uint" where "Sn_MSSR0 ch = 0x001208 + push_bit 5 (ucast ch)"
definition Sn_MSSR1 :: "byte \<Rightarrow> uint" where "Sn_MSSR1 ch = 0x001308 + push_bit 5 (ucast ch)"
definition Sn_RXMEM_SIZE :: "byte \<Rightarrow> uint" where "Sn_RXMEM_SIZE ch = 0x001E08 + push_bit 5 (ucast ch)"
definition Sn_TXMEM_SIZE :: "byte \<Rightarrow> uint" where "Sn_TXMEM_SIZE ch = 0x001F08 + push_bit 5 (ucast ch)"
definition Sn_TX_FSR0 :: "byte \<Rightarrow> uint" where "Sn_TX_FSR0 ch = 0x002008 + push_bit 5 (ucast ch)"
definition Sn_TX_FSR1 :: "byte \<Rightarrow> uint" where "Sn_TX_FSR1 ch = 0x002108 + push_bit 5 (ucast ch)"
definition Sn_TX_WR0 :: "byte \<Rightarrow> uint" where "Sn_TX_WR0 ch = 0x002408 + push_bit 5 (ucast ch)"
definition Sn_TX_WR1 :: "byte \<Rightarrow> uint" where "Sn_TX_WR1 ch = 0x002508 + push_bit 5 (ucast ch)"
definition Sn_RX_RSR0 :: "byte \<Rightarrow> uint" where "Sn_RX_RSR0 ch = 0x002608 + push_bit 5 (ucast ch)"
definition Sn_RX_RSR1 :: "byte \<Rightarrow> uint" where "Sn_RX_RSR1 ch = 0x002708 + push_bit 5 (ucast ch)"
definition Sn_RX_RD0 :: "byte \<Rightarrow> uint" where "Sn_RX_RD0 ch = 0x002808 + push_bit 5 (ucast ch)"
definition Sn_RX_RD1 :: "byte \<Rightarrow> uint" where "Sn_RX_RD1 ch = 0x002908 + push_bit 5 (ucast ch)"
definition Sn_KPALVTR :: "byte \<Rightarrow> uint" where "Sn_KPALVTR ch = 0x002F08 + push_bit 5 (ucast ch)"

definition MR_RST :: byte where "MR_RST = 0x80"
definition Sn_MR_TCP :: byte where "Sn_MR_TCP = 0x01"
definition Sn_MR_UDP :: byte where "Sn_MR_UDP = 0x02"
definition Sn_MR_IPRAW :: byte where "Sn_MR_IPRAW = 0x03"
definition Sn_MR_MACRAW :: byte where "Sn_MR_MACRAW = 0x04"
definition Sn_MR_PPPOE :: byte where "Sn_MR_PPPOE = 0x05"
definition Sn_MR_ND :: byte where "Sn_MR_ND = 0x20"
definition Sn_CR_OPEN :: byte where "Sn_CR_OPEN = 0x01"
definition Sn_CR_LISTEN :: byte where "Sn_CR_LISTEN = 0x02"
definition Sn_CR_CONNECT :: byte where "Sn_CR_CONNECT = 0x04"
definition Sn_CR_DISCON :: byte where "Sn_CR_DISCON = 0x08"
definition Sn_CR_CLOSE :: byte where "Sn_CR_CLOSE = 0x10"
definition Sn_CR_SEND :: byte where "Sn_CR_SEND = 0x20"
definition Sn_CR_RECV :: byte where "Sn_CR_RECV = 0x40"
definition Sn_IR_SEND_OK :: byte where "Sn_IR_SEND_OK = 0x10"
definition Sn_IR_TIMEOUT :: byte where "Sn_IR_TIMEOUT = 0x08"
definition Sn_IR_RECV :: byte where "Sn_IR_RECV = 0x04"
definition Sn_IR_CON :: byte where "Sn_IR_CON = 0x01"
definition SOCK_CLOSED :: byte where "SOCK_CLOSED = 0x00"
definition SOCK_INIT :: byte where "SOCK_INIT = 0x13"
definition SOCK_LISTEN :: byte where "SOCK_LISTEN = 0x14"
definition SOCK_SYNSENT :: byte where "SOCK_SYNSENT = 0x15"
definition SOCK_SYNRECV :: byte where "SOCK_SYNRECV = 0x16"
definition SOCK_ESTABLISHED :: byte where "SOCK_ESTABLISHED = 0x17"
definition SOCK_CLOSE_WAIT :: byte where "SOCK_CLOSE_WAIT = 0x1C"
definition SOCK_UDP :: byte where "SOCK_UDP = 0x22"

lemmas Sn_regs = Sn_MR_def Sn_CR_def Sn_IR_def Sn_SR_def Sn_PORT0_def Sn_PORT1_def Sn_DIPR0_def Sn_DIPR1_def Sn_DIPR2_def Sn_DIPR3_def Sn_DPORT0_def Sn_DPORT1_def Sn_MSSR0_def Sn_MSSR1_def Sn_RXMEM_SIZE_def Sn_TXMEM_SIZE_def Sn_TX_FSR0_def Sn_TX_FSR1_def Sn_TX_WR0_def Sn_TX_WR1_def Sn_RX_RSR0_def Sn_RX_RSR1_def Sn_RX_RD0_def Sn_RX_RD1_def Sn_KPALVTR_def
lemmas w5500_vals = MR_RST_def Sn_MR_TCP_def Sn_MR_UDP_def Sn_MR_IPRAW_def Sn_MR_MACRAW_def Sn_MR_PPPOE_def Sn_MR_ND_def Sn_CR_OPEN_def Sn_CR_LISTEN_def Sn_CR_CONNECT_def Sn_CR_DISCON_def Sn_CR_CLOSE_def Sn_CR_SEND_def Sn_CR_RECV_def Sn_IR_SEND_OK_def Sn_IR_TIMEOUT_def Sn_IR_RECV_def Sn_IR_CON_def SOCK_CLOSED_def SOCK_INIT_def SOCK_LISTEN_def SOCK_SYNSENT_def SOCK_SYNRECV_def SOCK_ESTABLISHED_def SOCK_CLOSE_WAIT_def SOCK_UDP_def

subsection \<open>The SPI bridge\<close>

definition IINCHIP_CSoff :: "'a bus_scheme \<Rightarrow> 'a bus_scheme option" where
  "IINCHIP_CSoff w = IOWR_PIO_DATA W5500_CS_BASE 0 w"

definition IINCHIP_CSon :: "'a bus_scheme \<Rightarrow> 'a bus_scheme option" where
  "IINCHIP_CSon w = IOWR_PIO_DATA W5500_CS_BASE 1 w"

definition IINCHIP_SpiSendData :: "half \<Rightarrow> env \<Rightarrow> 'a bus_scheme \<Rightarrow> 'a bus_scheme option" where
  "IINCHIP_SpiSendData dat h w = do {
     (_, w) \<leftarrow> altera_avalon_fifo_write_fifo SPIWR_FIFO_IN_BASE SPIWR_FIFO_IN_CSR_BASE
        (swap_halves (ucast dat)) h w;
     Some w
   }"

definition SPI_I2S_ReceiveData :: "env \<Rightarrow> 'a bus_scheme \<Rightarrow> (byte \<times> 'a bus_scheme) option" where
  "SPI_I2S_ReceiveData h w = do {
     (num, w) \<leftarrow> altera_avalon_fifo_read_level SPIRD_FIFO_IN_CSR_BASE h w;
     (rxbuf, w) \<leftarrow> (if sint num > 0
        then do {
          (data, w) \<leftarrow> altera_avalon_fifo_read_fifo SPIRD_FIFO_OUT_BASE SPIRD_FIFO_IN_CSR_BASE h w;
          Some (ucast (swap_halves data AND 0xff), w)
        }
        else Some (0, w));
     (_, w) \<leftarrow> altera_avalon_fifo_read_level SPIRD_FIFO_IN_CSR_BASE h w;
     Some (rxbuf, w)
   }"

definition addr_hi :: "uint \<Rightarrow> half" where "addr_hi a = ucast (drop_bit 16 (a AND 0x00FF0000))"
definition addr_lo :: "uint \<Rightarrow> half" where "addr_lo a = ucast (drop_bit 8 (a AND 0x0000FF00))"
definition addr_ctl :: "uint \<Rightarrow> half" where "addr_ctl a = ucast (a AND 0x000000F8)"

definition IINCHIP_WRITE :: "uint \<Rightarrow> byte \<Rightarrow> env \<Rightarrow> 'a bus_scheme \<Rightarrow> 'a bus_scheme option" where
  "IINCHIP_WRITE addrbsb data h w = do {
     w \<leftarrow> IINCHIP_CSoff w;
     w \<leftarrow> IINCHIP_SpiSendData (addr_hi addrbsb) h w;
     w \<leftarrow> IINCHIP_SpiSendData (addr_lo addrbsb) h w;
     w \<leftarrow> IINCHIP_SpiSendData (addr_ctl addrbsb + 4) h w;
     w \<leftarrow> IINCHIP_SpiSendData (ucast data) h w;
     IINCHIP_CSon w
   }"

definition IINCHIP_READ :: "uint \<Rightarrow> env \<Rightarrow> 'a bus_scheme \<Rightarrow> (byte \<times> 'a bus_scheme) option" where
  "IINCHIP_READ addrbsb h w = do {
     w \<leftarrow> IINCHIP_CSoff w;
     w \<leftarrow> IINCHIP_SpiSendData (addr_hi addrbsb) h w;
     w \<leftarrow> IINCHIP_SpiSendData (addr_lo addrbsb) h w;
     w \<leftarrow> IINCHIP_SpiSendData (addr_ctl addrbsb) h w;
     w \<leftarrow> IINCHIP_SpiSendData 1 h w;
     (data, w) \<leftarrow> SPI_I2S_ReceiveData h w;
     w \<leftarrow> IINCHIP_CSon w;
     Some (data, w)
   }"

definition wiz_write_buf ::
    "uint \<Rightarrow> byte list \<Rightarrow> half \<Rightarrow> env \<Rightarrow> 'a bus_scheme \<Rightarrow> (half \<times> 'a bus_scheme) option" where
  "wiz_write_buf addrbsb buf len h w = do {
     w \<leftarrow> IINCHIP_CSoff w;
     w \<leftarrow> IINCHIP_SpiSendData (addr_hi addrbsb) h w;
     w \<leftarrow> IINCHIP_SpiSendData (addr_lo addrbsb) h w;
     w \<leftarrow> IINCHIP_SpiSendData (addr_ctl addrbsb + 4) h w;
     w \<leftarrow> for_each [0..<unat len] (\<lambda>idx w. do {
            b \<leftarrow> arr_get buf idx;
            IINCHIP_SpiSendData (ucast b) h w }) w;
     w \<leftarrow> IINCHIP_CSon w;
     Some (len, w)
   }"

text \<open>
  Emptying the receive FIFO before and after a burst: the level is a 16-bit variable, and it is
  read again before the word it announced is taken out.
\<close>

partial_function (option) spi_drain :: "half \<Rightarrow> env \<Rightarrow> 'a bus_scheme \<Rightarrow> 'a bus_scheme option" where
  "spi_drain num h w =
     (if num > 0
      then do {
        (lvl, w) \<leftarrow> altera_avalon_fifo_read_level SPIRD_FIFO_IN_CSR_BASE h w;
        (_, w) \<leftarrow> altera_avalon_fifo_read_fifo SPIRD_FIFO_OUT_BASE SPIRD_FIFO_IN_CSR_BASE h w;
        spi_drain (ucast lvl) h w
      }
      else Some w)"

primrec spi_collect :: "nat \<Rightarrow> env \<Rightarrow> 'a bus_scheme \<Rightarrow> (byte list \<times> 'a bus_scheme) option" where
  "spi_collect 0 h w = Some ([], w)"
| "spi_collect (Suc n) h w = do {
     (b, w) \<leftarrow> SPI_I2S_ReceiveData h w;
     (bs, w) \<leftarrow> spi_collect n h w;
     Some (b # bs, w)
   }"

definition wiz_read_buf :: "uint \<Rightarrow> half \<Rightarrow> env \<Rightarrow> 'a bus_scheme \<Rightarrow> (byte list \<times> 'a bus_scheme) option" where
  \<comment> \<open>the list is what is stored through \<open>buf\<close>\<close>
  "wiz_read_buf addrbsb len h w = do {
     (lvl, w) \<leftarrow> altera_avalon_fifo_read_level SPIRD_FIFO_IN_CSR_BASE h w;
     w \<leftarrow> spi_drain (ucast lvl) h w;
     w \<leftarrow> IINCHIP_CSoff w;
     w \<leftarrow> IINCHIP_SpiSendData (addr_hi addrbsb) h w;
     w \<leftarrow> IINCHIP_SpiSendData (addr_lo addrbsb) h w;
     w \<leftarrow> IINCHIP_SpiSendData (addr_ctl addrbsb) h w;
     w \<leftarrow> IINCHIP_SpiSendData len h w;
     (bs, w) \<leftarrow> spi_collect (unat len) h w;
     (lvl, w) \<leftarrow> altera_avalon_fifo_read_level SPIRD_FIFO_IN_CSR_BASE h w;
     w \<leftarrow> spi_drain (ucast lvl) h w;
     w \<leftarrow> IINCHIP_CSon w;
     Some (bs, w)
   }"

subsection \<open>Registers\<close>

definition byte_hi :: "half \<Rightarrow> byte" where "byte_hi v = ucast (drop_bit 8 (v AND 0xff00))"
definition byte_lo :: "half \<Rightarrow> byte" where "byte_lo v = ucast (v AND 0x00ff)"

definition reg_pair :: "byte \<Rightarrow> byte \<Rightarrow> half" where
  \<comment> \<open>\<open>(hi << 8) + lo\<close> in a 16-bit variable\<close>
  "reg_pair hi lo = push_bit 8 (ucast hi) + ucast lo"

definition setMR :: "byte \<Rightarrow> env \<Rightarrow> 'a bus_scheme \<Rightarrow> 'a bus_scheme option" where
  "setMR val h w = IINCHIP_WRITE MR val h w"

definition iinchip_init :: "env \<Rightarrow> 'a bus_scheme \<Rightarrow> 'a bus_scheme option" where
  "iinchip_init h w = setMR MR_RST h w"

definition setGAR :: "byte list \<Rightarrow> env \<Rightarrow> 'a bus_scheme \<Rightarrow> 'a bus_scheme option" where
  "setGAR a h w = map_option snd (wiz_write_buf GAR0 a 4 h w)"

definition setSUBR :: "byte list \<Rightarrow> env \<Rightarrow> 'a bus_scheme \<Rightarrow> 'a bus_scheme option" where
  "setSUBR a h w = map_option snd (wiz_write_buf SUBR0 a 4 h w)"

definition setSHAR :: "byte list \<Rightarrow> env \<Rightarrow> 'a bus_scheme \<Rightarrow> 'a bus_scheme option" where
  "setSHAR a h w = map_option snd (wiz_write_buf SHAR0 a 6 h w)"

definition setSIPR :: "byte list \<Rightarrow> env \<Rightarrow> 'a bus_scheme \<Rightarrow> 'a bus_scheme option" where
  "setSIPR a h w = map_option snd (wiz_write_buf SIPR0 a 4 h w)"

definition getGAR :: "env \<Rightarrow> 'a bus_scheme \<Rightarrow> (byte list \<times> 'a bus_scheme) option" where
  "getGAR h w = wiz_read_buf GAR0 4 h w"

definition getSUBR :: "env \<Rightarrow> 'a bus_scheme \<Rightarrow> (byte list \<times> 'a bus_scheme) option" where
  "getSUBR h w = wiz_read_buf SUBR0 4 h w"

definition getSHAR :: "env \<Rightarrow> 'a bus_scheme \<Rightarrow> (byte list \<times> 'a bus_scheme) option" where
  "getSHAR h w = wiz_read_buf SHAR0 6 h w"

definition getSIPR :: "env \<Rightarrow> 'a bus_scheme \<Rightarrow> (byte list \<times> 'a bus_scheme) option" where
  "getSIPR h w = wiz_read_buf SIPR0 4 h w"

definition setkeepalive :: "byte \<Rightarrow> env \<Rightarrow> 'a bus_scheme \<Rightarrow> 'a bus_scheme option" where
  "setkeepalive s h w = IINCHIP_WRITE (Sn_KPALVTR s) 0x02 h w"

definition getIR :: "env \<Rightarrow> 'a bus_scheme \<Rightarrow> (byte \<times> 'a bus_scheme) option" where
  "getIR h w = IINCHIP_READ IR h w"

definition setRTR :: "half \<Rightarrow> env \<Rightarrow> 'a bus_scheme \<Rightarrow> 'a bus_scheme option" where
  "setRTR timeout h w = do {
     w \<leftarrow> IINCHIP_WRITE RTR0 (byte_hi timeout) h w;
     IINCHIP_WRITE RTR1 (byte_lo timeout) h w
   }"

definition setRCR :: "byte \<Rightarrow> env \<Rightarrow> 'a bus_scheme \<Rightarrow> 'a bus_scheme option" where
  "setRCR retry h w = IINCHIP_WRITE WIZ_RCR retry h w"

definition clearIR :: "byte \<Rightarrow> env \<Rightarrow> 'a bus_scheme \<Rightarrow> 'a bus_scheme option" where
  "clearIR msk h w = do {
     (v, w) \<leftarrow> getIR h w;
     IINCHIP_WRITE IR (NOT msk OR v) h w
   }"

definition setSn_MSS :: "byte \<Rightarrow> half \<Rightarrow> env \<Rightarrow> 'a bus_scheme \<Rightarrow> 'a bus_scheme option" where
  "setSn_MSS s Sn_MSSR h w = do {
     w \<leftarrow> IINCHIP_WRITE (Sn_MSSR0 s) (byte_hi Sn_MSSR) h w;
     IINCHIP_WRITE (Sn_MSSR1 s) (byte_lo Sn_MSSR) h w
   }"

definition getSn_IR :: "byte \<Rightarrow> env \<Rightarrow> 'a bus_scheme \<Rightarrow> (byte \<times> 'a bus_scheme) option" where
  "getSn_IR s h w = IINCHIP_READ (Sn_IR s) h w"

definition getSn_SR :: "byte \<Rightarrow> env \<Rightarrow> 'a bus_scheme \<Rightarrow> (byte \<times> 'a bus_scheme) option" where
  "getSn_SR s h w = IINCHIP_READ (Sn_SR s) h w"

definition setSn_IR :: "byte \<Rightarrow> byte \<Rightarrow> env \<Rightarrow> 'a bus_scheme \<Rightarrow> 'a bus_scheme option" where
  "setSn_IR s val h w = IINCHIP_WRITE (Sn_IR s) val h w"

definition read_pair :: "uint \<Rightarrow> uint \<Rightarrow> env \<Rightarrow> 'a bus_scheme \<Rightarrow> (half \<times> 'a bus_scheme) option" where
  \<comment> \<open>a 16-bit register, upper byte first\<close>
  "read_pair r0 r1 h w = do {
     (hi, w) \<leftarrow> IINCHIP_READ r0 h w;
     (lo, w) \<leftarrow> IINCHIP_READ r1 h w;
     Some (reg_pair hi lo, w)
   }"

text \<open>
  The size registers change while they are read, so the driver reads them until two readings
  agree. \<open>val\<close> is the variable that survives from one round to the next.
\<close>

partial_function (option) stable_pair ::
    "uint \<Rightarrow> uint \<Rightarrow> half \<Rightarrow> env \<Rightarrow> 'a bus_scheme \<Rightarrow> (half \<times> 'a bus_scheme) option" where
  "stable_pair r0 r1 val h w = do {
     (val1, w) \<leftarrow> read_pair r0 r1 h w;
     (val, w) \<leftarrow> (if val1 \<noteq> 0 then read_pair r0 r1 h w else Some (val, w));
     if val \<noteq> val1 then stable_pair r0 r1 val h w else Some (val, w)
   }"

definition getSn_TX_FSR :: "byte \<Rightarrow> env \<Rightarrow> 'a bus_scheme \<Rightarrow> (half \<times> 'a bus_scheme) option" where
  "getSn_TX_FSR s h w = stable_pair (Sn_TX_FSR0 s) (Sn_TX_FSR1 s) 0 h w"

definition getSn_RX_RSR :: "byte \<Rightarrow> env \<Rightarrow> 'a bus_scheme \<Rightarrow> (half \<times> 'a bus_scheme) option" where
  "getSn_RX_RSR s h w = stable_pair (Sn_RX_RSR0 s) (Sn_RX_RSR1 s) 0 h w"

subsection \<open>Buffer memory\<close>

definition buf_addr :: "half \<Rightarrow> byte \<Rightarrow> uint \<Rightarrow> uint" where
  \<comment> \<open>\<open>(uint32)(ptr<<8) + (s<<5) + block\<close>\<close>
  "buf_addr ptr s block = push_bit 8 (ucast ptr) + push_bit 5 (ucast s) + block"

definition send_data_processing ::
    "byte \<Rightarrow> byte list \<Rightarrow> half \<Rightarrow> env \<Rightarrow> 'a bus_scheme \<Rightarrow> 'a bus_scheme option" where
  "send_data_processing s data len h w =
     (if len = 0 then Some w
      else do {
        (ptr, w) \<leftarrow> read_pair (Sn_TX_WR0 s) (Sn_TX_WR1 s) h w;
        (_, w) \<leftarrow> wiz_write_buf (buf_addr ptr s 0x10) data len h w;
        let ptr = ptr + len;
        w \<leftarrow> IINCHIP_WRITE (Sn_TX_WR0 s) (byte_hi ptr) h w;
        IINCHIP_WRITE (Sn_TX_WR1 s) (byte_lo ptr) h w
      })"

definition recv_data_processing ::
    "byte \<Rightarrow> half \<Rightarrow> env \<Rightarrow> 'a bus_scheme \<Rightarrow> (byte list \<times> 'a bus_scheme) option" where
  "recv_data_processing s len h w =
     (if len = 0 then Some ([], w)
      else do {
        (ptr, w) \<leftarrow> read_pair (Sn_RX_RD0 s) (Sn_RX_RD1 s) h w;
        (bs, w) \<leftarrow> wiz_read_buf (buf_addr ptr s 0x18) len h w;
        let ptr = ptr + len;
        w \<leftarrow> IINCHIP_WRITE (Sn_RX_RD0 s) (byte_hi ptr) h w;
        w \<leftarrow> IINCHIP_WRITE (Sn_RX_RD1 s) (byte_lo ptr) h w;
        Some (bs, w)
      })"

subsection \<open>Buffer sizes\<close>

definition getIINCHIP_RxMAX :: "byte \<Rightarrow> 'a net_scheme \<Rightarrow> half option" where
  "getIINCHIP_RxMAX s w = arr_get (RSIZE w) (unat s)"

definition getIINCHIP_TxMAX :: "byte \<Rightarrow> 'a net_scheme \<Rightarrow> half option" where
  "getIINCHIP_TxMAX s w = arr_get (SSIZE w) (unat s)"

text \<open>
  One channel's sizes: the transmit \<open>switch\<close> assigns \<open>RSIZE\<close>, not \<open>SSIZE\<close>, in its default
  case; the receive \<open>switch\<close> follows it.
\<close>

definition tx_switch :: "byte \<Rightarrow> half \<times> half \<Rightarrow> half \<times> half" where
  "tx_switch t sr = (case sr of (ss, rs) \<Rightarrow>
     if t = 1 then (1024, rs) else if t = 2 then (2048, rs) else if t = 4 then (4096, rs)
     else if t = 8 then (8192, rs) else if t = 16 then (16384, rs) else (ss, 2048))"

definition rx_switch :: "byte \<Rightarrow> half \<times> half \<Rightarrow> half \<times> half" where
  "rx_switch t sr = (case sr of (ss, rs) \<Rightarrow>
     if t = 1 then (ss, 1024) else if t = 2 then (ss, 2048) else if t = 4 then (ss, 4096)
     else if t = 8 then (ss, 8192) else if t = 16 then (ss, 16384) else (ss, 2048))"

fun sysinit_step ::
    "byte list \<Rightarrow> byte list \<Rightarrow> env \<Rightarrow> nat \<Rightarrow> (int \<times> int) \<times> 'a net_scheme \<Rightarrow> ((int \<times> int) \<times> 'a net_scheme) option" where
  \<comment> \<open>\<open>ssum\<close> and \<open>rsum\<close> are \<open>int16\<close>, which \<open>types.h\<close> defines as \<open>int\<close>\<close>
  "sysinit_step tx_size rx_size h i ((ssum, rsum), w) = do {
     t \<leftarrow> arr_get tx_size i;
     w \<leftarrow> IINCHIP_WRITE (Sn_TXMEM_SIZE (of_nat i)) t h w;
     r \<leftarrow> arr_get rx_size i;
     w \<leftarrow> IINCHIP_WRITE (Sn_RXMEM_SIZE (of_nat i)) r h w;
     let sr = (0, 0);
     let sr = (if ssum \<le> 16384 then tx_switch t sr else sr);
     let sr = (if rsum \<le> 16384 then rx_switch r sr else sr);
     ss \<leftarrow> arr_set (SSIZE w) i (fst sr);
     rs \<leftarrow> arr_set (RSIZE w) i (snd sr);
     Some ((ssum + uint (fst sr), rsum + uint (snd sr)), w\<lparr>SSIZE := ss, RSIZE := rs\<rparr>)
   }"

definition sysinit ::
    "byte list \<Rightarrow> byte list \<Rightarrow> env \<Rightarrow> 'a net_scheme \<Rightarrow> 'a net_scheme option" where
  "sysinit tx_size rx_size h w =
     map_option snd (for_each [0..<MAX_SOCK_NUM] (sysinit_step tx_size rx_size h) ((0, 0), w))"

subsection \<open>Only the trace changes\<close>

lemma keeps_spi:
  "keeps only_trace IINCHIP_CSoff" "keeps only_trace IINCHIP_CSon"
  "keeps only_trace (IINCHIP_SpiSendData d h)" "keepsv only_trace (SPI_I2S_ReceiveData h)"
  unfolding IINCHIP_CSoff_def IINCHIP_CSon_def IINCHIP_SpiSendData_def SPI_I2S_ReceiveData_def
  by (intro bus_rules)+

lemma keeps_spi_drain: "keeps only_trace (spi_drain num h)"
proof -
  have "\<forall>n h. keeps only_trace (spi_drain n h :: 'a bus_scheme \<Rightarrow> _)"
    by (rule spi_drain.fixp_induct, rule adm_keeps2, simp add: tr.keeps_None, intro allI bus_rules, blast)
  then show ?thesis by blast
qed

lemma keepsv_spi_collect: "keepsv only_trace (spi_collect n h)"
proof (induction n)
  case 0
  show ?case unfolding spi_collect.simps by (intro bus_rules)
next
  case (Suc n)
  show ?case unfolding spi_collect.simps by (intro bus_rules keeps_spi Suc.IH)
qed

lemma keeps_chip:
  "keeps only_trace (IINCHIP_WRITE a d h)" "keepsv only_trace (IINCHIP_READ a h)"
  "keepsv only_trace (wiz_write_buf a bs n h)" "keepsv only_trace (wiz_read_buf a n h)"
  unfolding IINCHIP_WRITE_def IINCHIP_READ_def wiz_write_buf_def wiz_read_buf_def
  by (intro bus_rules keeps_spi keeps_spi_drain keepsv_spi_collect tr.keeps_pure)+

lemma keepsv_read_pair: "keepsv only_trace (read_pair a b h)"
  unfolding read_pair_def by (intro bus_rules keeps_chip)

lemma keepsv_stable_pair: "keepsv only_trace (stable_pair r0 r1 v h)"
proof -
  have "\<forall>r0 r1 v h. keepsv only_trace (stable_pair r0 r1 v h :: 'a bus_scheme \<Rightarrow> _)"
    by (rule stable_pair.fixp_induct, rule adm_keepsv4, simp add: tr.keepsv_None,
        intro allI bus_rules keepsv_read_pair, blast)
  then show ?thesis by blast
qed

lemma keeps_registers:
  "keeps only_trace (setMR v h)" "keeps only_trace (iinchip_init h)"
  "keeps only_trace (setkeepalive s h)" "keepsv only_trace (getIR h)"
  "keeps only_trace (setRTR t h)" "keeps only_trace (setRCR v h)"
  "keeps only_trace (setSn_MSS s m h)" "keepsv only_trace (getSn_IR s h)"
  "keepsv only_trace (getSn_SR s h)" "keeps only_trace (setSn_IR s v h)"
  "keepsv only_trace (getSn_TX_FSR s h)" "keepsv only_trace (getSn_RX_RSR s h)"
  unfolding setMR_def iinchip_init_def setkeepalive_def getIR_def setRTR_def setRCR_def
    setSn_MSS_def getSn_IR_def getSn_SR_def setSn_IR_def getSn_TX_FSR_def getSn_RX_RSR_def
  by (intro bus_rules keeps_chip keepsv_stable_pair)+

lemma keeps_clearIR: "keeps only_trace (clearIR m h)"
  unfolding clearIR_def by (intro bus_rules keeps_registers keeps_chip)

lemma map_option_snd_bind: "map_option snd (f w) = do { (x, w) \<leftarrow> f w; Some w }"
  by (cases "f w") auto

lemma keeps_addresses:
  "keeps only_trace (setGAR a h)" "keeps only_trace (setSUBR a h)"
  "keeps only_trace (setSHAR a h)" "keeps only_trace (setSIPR a h)"
  "keepsv only_trace (getGAR h)" "keepsv only_trace (getSUBR h)"
  "keepsv only_trace (getSHAR h)" "keepsv only_trace (getSIPR h)"
  unfolding setGAR_def setSUBR_def setSHAR_def setSIPR_def getGAR_def getSUBR_def getSHAR_def
    getSIPR_def map_option_snd_bind
  by (intro bus_rules keeps_chip)+

lemma keeps_data_processing:
  "keeps only_trace (send_data_processing s d n h)" "keepsv only_trace (recv_data_processing s n h)"
  unfolding send_data_processing_def recv_data_processing_def Let_def
  by (intro bus_rules keepsv_read_pair keeps_chip)+

lemmas chip_rules = bus_rules keeps_chip keeps_registers keeps_clearIR keeps_addresses
  keeps_data_processing

subsection \<open>What reaches the chip\<close>

definition spi_sent :: "event list \<Rightarrow> half list" where
  \<comment> \<open>the 16-bit words the SPI bridge takes from its FIFO\<close>
  "spi_sent evs = map (\<lambda>v. ucast (swap_halves v)) (words_to SPIWR_FIFO_IN_BASE evs)"

lemma spi_sent_append [simp]: "spi_sent (a @ b) = spi_sent a @ spi_sent b"
  by (simp add: spi_sent_def)

definition spi_frame :: "uint \<Rightarrow> byte list \<Rightarrow> half list" where
  \<comment> \<open>a write access: offset, control byte with the write bit, data\<close>
  "spi_frame a bs = [addr_hi a, addr_lo a, addr_ctl a + 4] @ map ucast bs"

definition spi_word_evs :: "half \<Rightarrow> event list" where
  "spi_word_evs d = [Iord SPIWR_FIFO_IN_CSR_BASE 1, Iowr SPIWR_FIFO_IN_BASE 0 (swap_halves (ucast d))]"

lemma half_uint_half [simp]: "(ucast (ucast d :: uint) :: half) = d"
  by (rule bit_word_eqI) (auto simp: bit_simps)

lemma spi_sent_word [simp]: "spi_sent (spi_word_evs d) = [d]"
  by (simp add: spi_sent_def spi_word_evs_def)

lemma SpiSendData_logged:
  "never_full h SPIWR_FIFO_IN_CSR_BASE \<Longrightarrow> IINCHIP_SpiSendData d h w = Some (logged w (spi_word_evs d))"
  by (simp add: IINCHIP_SpiSendData_def fifo_write_logged spi_word_evs_def)

definition access_evs :: "half list \<Rightarrow> event list" where
  "access_evs ds = Iowr W5500_CS_BASE 0 0 # concat (map spi_word_evs ds) @ [Iowr W5500_CS_BASE 0 1]"

lemma spi_sent_access [simp]: "spi_sent (access_evs ds) = ds"
proof -
  have "spi_sent (concat (map spi_word_evs ds)) = ds" for ds
  proof (induction ds)
    case (Cons d ds)
    then show ?case by simp
  qed (simp add: spi_sent_def)
  then show ?thesis by (simp add: access_evs_def spi_sent_def)
qed

lemma IINCHIP_WRITE_logged:
  "never_full h SPIWR_FIFO_IN_CSR_BASE \<Longrightarrow>
     IINCHIP_WRITE a d h w = Some (logged w (access_evs (spi_frame a [d])))"
  by (simp add: IINCHIP_WRITE_def IINCHIP_CSoff_def IINCHIP_CSon_def SpiSendData_logged
      access_evs_def spi_frame_def)

lemma wiz_write_buf_logged:
  assumes "never_full h SPIWR_FIFO_IN_CSR_BASE" and "unat len \<le> length buf"
  shows "wiz_write_buf a buf len h w =
    Some (len, logged w (access_evs (spi_frame a (take (unat len) buf))))"
proof -
  have "for_each [0..<n] (\<lambda>idx w. do { b \<leftarrow> arr_get buf idx; IINCHIP_SpiSendData (ucast b) h w }) w =
      Some (logged w (concat (map spi_word_evs (map ucast (take n buf)))))"
    if "n \<le> length buf" for n and w :: "'a bus_scheme"
    using that by (induction n)
      (simp_all add: for_each_append SpiSendData_logged [OF assms(1)] take_Suc_conv_app_nth)
  then show ?thesis
    using assms by (simp add: wiz_write_buf_def IINCHIP_CSoff_def IINCHIP_CSon_def SpiSendData_logged
      access_evs_def spi_frame_def)
qed

lemma spi_receive_total: "\<exists>b evs. SPI_I2S_ReceiveData h w = Some (b, logged w evs) \<and> spi_sent evs = []"
  by (auto simp: SPI_I2S_ReceiveData_def altera_avalon_fifo_read_level_def spi_sent_def
      altera_avalon_fifo_read_fifo_def altera_avalon_fifo_read_status_def)

lemma IINCHIP_READ_logged:
  assumes "never_full h SPIWR_FIFO_IN_CSR_BASE"
  shows "\<exists>b evs. IINCHIP_READ a h w = Some (b, logged w evs) \<and>
    spi_sent evs = [addr_hi a, addr_lo a, addr_ctl a, 1]"
proof -
  define w1 where "w1 = logged w (Iowr W5500_CS_BASE 0 0 #
    concat (map spi_word_evs [addr_hi a, addr_lo a, addr_ctl a, 1]))"
  obtain b evs where "SPI_I2S_ReceiveData h w1 = Some (b, logged w1 evs)" "spi_sent evs = []"
    using spi_receive_total by blast
  then show ?thesis
    using assms by (auto simp: IINCHIP_READ_def IINCHIP_CSoff_def IINCHIP_CSon_def SpiSendData_logged
        w1_def spi_sent_def spi_word_evs_def)
qed

lemma read_pair_logged:
  assumes "never_full h SPIWR_FIFO_IN_CSR_BASE"
  shows "\<exists>v evs. read_pair a b h w = Some (v, logged w evs)"
proof -
  obtain x ev1 where 1: "IINCHIP_READ a h w = Some (x, logged w ev1)"
    using IINCHIP_READ_logged [OF assms] by blast
  obtain y ev2 where 2: "IINCHIP_READ b h (logged w ev1) = Some (y, logged (logged w ev1) ev2)"
    using IINCHIP_READ_logged [OF assms] by blast
  show ?thesis using 1 2 by (auto simp: read_pair_def)
qed

text \<open>Queueing bytes for transmission: when the SPI FIFO keeps up, the driver reads the chip's write
  pointer, copies exactly the bytes asked for to the socket's transmit block at that pointer, and
  then stores the pointer advanced by the length modulo 2^16, high byte first.\<close>

theorem send_data_processing_frames:
  assumes "never_full h SPIWR_FIFO_IN_CSR_BASE" and "len \<noteq> 0" and "unat len \<le> length data"
  shows "\<exists>ptr pre evs. read_pair (Sn_TX_WR0 s) (Sn_TX_WR1 s) h w = Some (ptr, w\<lparr>trace := trace w @ pre\<rparr>) \<and>
    send_data_processing s data len h w = Some (w\<lparr>trace := trace w @ pre @ evs\<rparr>) \<and>
    spi_sent evs = spi_frame (buf_addr ptr s 0x10) (take (unat len) data) @
      spi_frame (Sn_TX_WR0 s) [byte_hi (ptr + len)] @ spi_frame (Sn_TX_WR1 s) [byte_lo (ptr + len)]"
proof -
  obtain ptr pre where rp: "read_pair (Sn_TX_WR0 s) (Sn_TX_WR1 s) h w = Some (ptr, logged w pre)"
    using read_pair_logged [OF assms(1)] by blast
  define evs where "evs = access_evs (spi_frame (buf_addr ptr s 0x10) (take (unat len) data)) @
    access_evs (spi_frame (Sn_TX_WR0 s) [byte_hi (ptr + len)]) @
    access_evs (spi_frame (Sn_TX_WR1 s) [byte_lo (ptr + len)])"
  have "send_data_processing s data len h w = Some (logged w (pre @ evs))"
    using assms(2) by (simp add: send_data_processing_def rp Let_def wiz_write_buf_logged [OF assms(1,3)]
        IINCHIP_WRITE_logged [OF assms(1)] evs_def)
  moreover have "spi_sent evs = spi_frame (buf_addr ptr s 0x10) (take (unat len) data) @
      spi_frame (Sn_TX_WR0 s) [byte_hi (ptr + len)] @ spi_frame (Sn_TX_WR1 s) [byte_lo (ptr + len)]"
    by (simp add: evs_def)
  ultimately show ?thesis
    using rp unfolding logged_def by blast
qed

lemma quiet_env_never_full: "never_full quiet_env c"
  by (simp add: never_full_def quiet_env_def)

theorem send_data_processing_frames_witness:
  "\<exists>ptr pre evs. read_pair (Sn_TX_WR0 1) (Sn_TX_WR1 1) quiet_env \<lparr>trace = []\<rparr> =
      Some (ptr, \<lparr>trace = []\<rparr>\<lparr>trace := trace \<lparr>trace = []\<rparr> @ pre\<rparr>) \<and>
    send_data_processing 1 [5, 6, 7] 2 quiet_env \<lparr>trace = []\<rparr> =
      Some (\<lparr>trace = []\<rparr>\<lparr>trace := trace \<lparr>trace = []\<rparr> @ pre @ evs\<rparr>) \<and>
    spi_sent evs = spi_frame (buf_addr ptr 1 0x10) (take (unat (2 :: half)) [5, 6, 7]) @
      spi_frame (Sn_TX_WR0 1) [byte_hi (ptr + 2)] @ spi_frame (Sn_TX_WR1 1) [byte_lo (ptr + 2)]"
  by (rule send_data_processing_frames) (simp_all add: quiet_env_never_full)

lemma bit_255_half: "bit (0xff :: half) n \<longleftrightarrow> n < 8"
  using bit_mask_iff [of 8 n, where 'a = "16 word"] by (simp add: mask_eq_decr_exp) (auto dest: bit_imp_le_length)

lemma bit_255_int: "bit (0xff :: int) n \<longleftrightarrow> n < 8"
  using bit_mask_iff [of 8 n, where 'a = int] by (simp add: mask_eq_exp_minus_1)

lemma reg_pair_split: "reg_pair (byte_hi v) (byte_lo v) = v"
proof -
  have hi: "byte_hi v = ucast (drop_bit 8 v)"
    by (rule bit_word_eqI) (auto simp: byte_hi_def bit_simps bit_255_int)
  have lo: "byte_lo v = ucast v"
    by (rule bit_word_eqI) (auto simp: byte_lo_def bit_simps bit_255_half bit_255_int)
  show ?thesis
    using le16_le16_bytes [of v] by (simp add: reg_pair_def hi lo le16_def le16_bytes_def)
qed

text \<open>
  The chip reads the block number from the upper five bits of the control byte; the driver puts
  socket \<open>s\<close>'s registers, transmit and receive memory in blocks \<open>4 s + 1\<close>, \<open>4 s + 2\<close>, \<open>4 s + 3\<close>.
\<close>

definition spi_block :: "uint \<Rightarrow> nat" where
  "spi_block a = unat (drop_bit 3 (addr_ctl a))"

definition spi_offset :: "uint \<Rightarrow> nat" where
  "spi_offset a = 256 * unat (addr_hi a) + unat (addr_lo a)"

definition socket_regs :: "byte \<Rightarrow> uint list" where
  "socket_regs s = [Sn_MR s, Sn_CR s, Sn_IR s, Sn_SR s, Sn_PORT0 s, Sn_PORT1 s, Sn_DIPR0 s, Sn_DIPR1 s,
     Sn_DIPR2 s, Sn_DIPR3 s, Sn_DPORT0 s, Sn_DPORT1 s, Sn_MSSR0 s, Sn_MSSR1 s, Sn_RXMEM_SIZE s,
     Sn_TXMEM_SIZE s, Sn_TX_FSR0 s, Sn_TX_FSR1 s, Sn_TX_WR0 s, Sn_TX_WR1 s, Sn_RX_RSR0 s, Sn_RX_RSR1 s,
     Sn_RX_RD0 s, Sn_RX_RD1 s, Sn_KPALVTR s]"

lemma socket_cases:
  fixes s :: byte
  assumes "s < 8"
  shows "s \<in> {0, 1, 2, 3, 4, 5, 6, 7}"
proof -
  have "unat s < 8" using assms by (simp add: word_less_nat_alt)
  then have "unat s = 0 \<or> unat s = 1 \<or> unat s = 2 \<or> unat s = 3 \<or> unat s = 4 \<or> unat s = 5 \<or> unat s = 6 \<or> unat s = 7"
    by auto
  then show ?thesis by (auto simp: word_unat_eq_iff)
qed

lemma bit_255_uint: "bit (0xff :: uint) n \<longleftrightarrow> n < 8"
  using bit_mask_iff [of 8 n, where 'a = "32 word"] by (simp add: mask_eq_decr_exp) (auto dest: bit_imp_le_length)

lemma bit_31_int: "bit (0x1f :: int) n \<longleftrightarrow> n < 5"
  using bit_mask_iff [of 5 n, where 'a = int] by (simp add: mask_eq_exp_minus_1)

lemma bit_248_int: "bit (0xf8 :: int) n \<longleftrightarrow> 3 \<le> n \<and> n < 8"
proof -
  have "(0xf8 :: int) = push_bit 3 0x1f" by simp
  then show ?thesis by (simp only: bit_push_bit_iff bit_31_int) auto
qed

lemma ctl_byte_addr:
  fixes p :: half and c :: byte
  shows "addr_hi (push_bit 8 (ucast p) + ucast c) = drop_bit 8 p"
    and "addr_lo (push_bit 8 (ucast p) + ucast c) = p AND 0xff"
    and "addr_ctl (push_bit 8 (ucast p) + ucast c) = ucast (c AND 0xf8)"
proof -
  have a: "push_bit 8 (ucast p) + ucast c = (push_bit 8 (ucast p) OR ucast c :: uint)"
    by (rule add_or_disjoint) (auto simp: bit_simps dest: bit_imp_le_length)
  have m: "(0x00FF0000 :: uint) = push_bit 16 0xff" "(0x0000FF00 :: uint) = push_bit 8 0xff"
      "(0xF8 :: uint) = ucast (0xF8 :: byte)"
    by simp_all
  show "addr_hi (push_bit 8 (ucast p) + ucast c) = drop_bit 8 p"
    unfolding a addr_hi_def m(1)
    by (rule bit_word_eqI) (auto simp: bit_simps bit_255_uint bit_255_int dest: bit_imp_le_length)
  show "addr_lo (push_bit 8 (ucast p) + ucast c) = p AND 0xff"
    unfolding a addr_lo_def m(2)
    by (rule bit_word_eqI) (auto simp: bit_simps bit_255_uint bit_255_half bit_255_int dest: bit_imp_le_length)
  show "addr_ctl (push_bit 8 (ucast p) + ucast c) = ucast (c AND 0xf8)"
    unfolding a addr_ctl_def
    by (rule bit_word_eqI) (auto simp: bit_simps bit_248_int dest: bit_imp_le_length)
qed

lemma spi_block_ctl: "spi_block (push_bit 8 (ucast (p :: half)) + ucast (c :: byte)) = unat (drop_bit 3 c)"
proof -
  have "drop_bit 3 (ucast (c AND 0xf8) :: half) = ucast (drop_bit 3 c)"
    by (rule bit_word_eqI) (auto simp: bit_simps bit_248_int dest: bit_imp_le_length)
  moreover have "unat (ucast b :: half) = unat b" for b :: byte
    using unsigned_less [of b, where 'a = nat] by (simp add: unsigned_ucast_eq take_bit_eq_mod)
  ultimately show ?thesis by (simp only: spi_block_def ctl_byte_addr)
qed

lemma spi_offset_ctl: "spi_offset (push_bit 8 (ucast (p :: half)) + ucast (c :: byte)) = unat p"
proof -
  have "unat (p AND 0xff) = unat p mod 256"
    using unsigned_take_bit_eq [of 8 p, where 'a = nat] take_bit_eq_mask [of 8 p]
    by (simp add: mask_eq_decr_exp take_bit_eq_mod)
  then show ?thesis
    by (simp add: spi_offset_def ctl_byte_addr unat_drop_bit_eq drop_bit_eq_div unat_div_distrib)
qed

lemma socket_regs_form:
  assumes "s < 8"
  shows "socket_regs s = map (\<lambda>off. push_bit 8 (ucast (off :: half)) + ucast (8 + push_bit 5 s))
    [0, 1, 2, 3, 4, 5, 0xc, 0xd, 0xe, 0xf, 0x10, 0x11, 0x12, 0x13, 0x1e, 0x1f, 0x20, 0x21, 0x24, 0x25,
     0x26, 0x27, 0x28, 0x29, 0x2f]"
proof -
  have "(ucast (8 + push_bit 5 s) :: uint) = 8 + push_bit 5 (ucast s)"
    using socket_cases [OF assms] by auto
  then show ?thesis by (simp add: socket_regs_def Sn_regs)
qed

lemma socket_reg_blocks:
  assumes "s < 8"
  shows "spi_block ` set (socket_regs s) = {4 * unat s + 1}"
proof -
  have "spi_block ` set (socket_regs s) = {unat (drop_bit 3 (8 + push_bit 5 s))}"
    by (simp only: socket_regs_form [OF assms] set_map image_image spi_block_ctl) auto
  moreover have "unat (drop_bit 3 (8 + push_bit 5 s)) = 4 * unat s + 1"
    using socket_cases [OF assms] by auto
  ultimately show ?thesis by simp
qed

lemma socket_buf_blocks:
  assumes "s < 8"
  shows "spi_block (buf_addr p s 0x10) = 4 * unat s + 2" and "spi_offset (buf_addr p s 0x10) = unat p"
    and "spi_block (buf_addr p s 0x18) = 4 * unat s + 3" and "spi_offset (buf_addr p s 0x18) = unat p"
proof -
  have buf: "buf_addr p s blk = push_bit 8 (ucast p) + ucast (push_bit 5 s + ucast blk)"
    if "blk = 0x10 \<or> blk = 0x18" for blk
    using that socket_cases [OF assms] unfolding buf_addr_def by auto
  show "spi_block (buf_addr p s 0x10) = 4 * unat s + 2" "spi_block (buf_addr p s 0x18) = 4 * unat s + 3"
    using socket_cases [OF assms] by (auto simp: buf spi_block_ctl)
  show "spi_offset (buf_addr p s 0x10) = unat p" "spi_offset (buf_addr p s 0x18) = unat p"
    by (simp_all only: buf spi_offset_ctl simp_thms)
qed

text \<open>The register and buffer addresses of the eight sockets are decoded by the chip the way the
  driver means: all registers of socket \<open>s\<close> lie in block \<open>4 s + 1\<close> at pairwise different offsets,
  transmit and receive memory in blocks \<open>4 s + 2\<close> and \<open>4 s + 3\<close> at the offset asked for, so no access
  to one socket ever reaches another.\<close>

theorem socket_addresses_decoded:
  assumes "s < 8"
  shows "(spi_block ` set (socket_regs s) = {4 * unat s + 1} \<and> distinct (map spi_offset (socket_regs s))) \<and>
    (spi_block (buf_addr p s 0x10) = 4 * unat s + 2 \<and> spi_offset (buf_addr p s 0x10) = unat p) \<and>
    (spi_block (buf_addr p s 0x18) = 4 * unat s + 3 \<and> spi_offset (buf_addr p s 0x18) = unat p)"
proof -
  have "distinct (map spi_offset (socket_regs s))"
    by (simp only: socket_regs_form [OF assms] map_map comp_def spi_offset_ctl) simp
  then show ?thesis
    using socket_reg_blocks [OF assms] socket_buf_blocks [OF assms] by simp
qed

theorem socket_addresses_decoded_witness:
  "(spi_block ` set (socket_regs 3) = {4 * unat (3 :: byte) + 1} \<and> distinct (map spi_offset (socket_regs 3))) \<and>
    (spi_block (buf_addr 0x1234 3 0x10) = 4 * unat (3 :: byte) + 2 \<and>
     spi_offset (buf_addr 0x1234 3 0x10) = unat (0x1234 :: half)) \<and>
    (spi_block (buf_addr 0x1234 3 0x18) = 4 * unat (3 :: byte) + 3 \<and>
     spi_offset (buf_addr 0x1234 3 0x18) = unat (0x1234 :: half))"
  by (rule socket_addresses_decoded) simp

subsection \<open>Buffer sizes after initialisation\<close>

definition size_table_ok :: "byte list \<Rightarrow> bool" where
  \<comment> \<open>eight sizes the chip supports, in kilobytes, that fit its 16 KB\<close>
  "size_table_ok t \<longleftrightarrow> length t = 8 \<and> set t \<subseteq> {1, 2, 4, 8, 16} \<and> sum_list (map unat t) \<le> 16"

definition kbytes :: "byte \<Rightarrow> half" where
  "kbytes t = 1024 * ucast t"

lemma switches_ok:
  "t \<in> {1, 2, 4, 8, 16} \<Longrightarrow> tx_switch t (a, b) = (kbytes t, b)"
  "t \<in> {1, 2, 4, 8, 16} \<Longrightarrow> rx_switch t (a, b) = (a, kbytes t)"
  "t \<in> {1, 2, 4, 8, 16} \<Longrightarrow> uint (kbytes t) = 1024 * int (unat t)"
  by (auto simp: tx_switch_def rx_switch_def kbytes_def)

lemma table_prefix:
  assumes "size_table_ok t"
  shows "n \<le> 8 \<Longrightarrow> sum_list (map unat (take n t)) \<le> 16" "i < 8 \<Longrightarrow> t ! i \<in> {1, 2, 4, 8, 16}"
proof -
  have "sum_list (map unat t) = sum_list (map unat (take n t)) + sum_list (map unat (drop n t))"
    by (metis append_take_drop_id map_append sum_list_append)
  then show "sum_list (map unat (take n t)) \<le> 16"
    using assms by (simp add: size_table_ok_def)
  show "i < 8 \<Longrightarrow> t ! i \<in> {1, 2, 4, 8, 16}"
    using assms nth_mem [of i t] unfolding size_table_ok_def by (metis subsetD)
qed

lemma sysinit_loop:
  assumes h: "never_full h SPIWR_FIFO_IN_CSR_BASE" and tx: "size_table_ok tx" and rx: "size_table_ok rx"
    and len: "length (SSIZE w) = 8" "length (RSIZE w) = 8" and n: "n \<le> 8"
  shows "\<exists>evs. for_each [0..<n] (sysinit_step tx rx h) ((0, 0), w) =
    Some ((1024 * int (sum_list (map unat (take n tx))), 1024 * int (sum_list (map unat (take n rx)))),
      w\<lparr>trace := trace w @ evs, SSIZE := map kbytes (take n tx) @ drop n (SSIZE w),
        RSIZE := map kbytes (take n rx) @ drop n (RSIZE w)\<rparr>)"
  using n
proof (induction n)
  case 0
  show ?case by (rule exI [of _ "[]"]) simp
next
  case (Suc n)
  then obtain evs where IH: "for_each [0..<n] (sysinit_step tx rx h) ((0, 0), w) =
    Some ((1024 * int (sum_list (map unat (take n tx))), 1024 * int (sum_list (map unat (take n rx)))),
      w\<lparr>trace := trace w @ evs, SSIZE := map kbytes (take n tx) @ drop n (SSIZE w),
        RSIZE := map kbytes (take n rx) @ drop n (RSIZE w)\<rparr>)"
    by auto
  have lens: "length tx = 8" "length rx = 8" and n8: "n < 8"
    using tx rx Suc.prems by (auto simp: size_table_ok_def)
  have small: "1024 * int (sum_list (map unat (take n tx))) \<le> 16384"
      "1024 * int (sum_list (map unat (take n rx))) \<le> 16384"
    using table_prefix(1) [OF tx, of n] table_prefix(1) [OF rx, of n] n8 by auto
  have upd: "(map kbytes (take n t) @ drop n s)[n := kbytes (t ! n)] =
      map kbytes (take (Suc n) t) @ drop (Suc n) s" if "length t = 8" "length s = 8" for t and s :: "half list"
    using that n8 by (simp add: list_update_append take_Suc_conv_app_nth Cons_nth_drop_Suc [symmetric])
  show ?case
    using n8 small IH upd [OF lens(1) len(1)] upd [OF lens(2) len(2)]
      switches_ok [OF table_prefix(2) [OF tx n8]] switches_ok [OF table_prefix(2) [OF rx n8]]
    by (auto simp: for_each_append lens len IINCHIP_WRITE_logged [OF h] logged_def arr_set_def
        take_Suc_conv_app_nth Let_def)
qed

text \<open>For two tables of supported sizes that fit the chip's memory, initialisation returns and the
  driver's record of the transmit and receive buffer sizes is exactly the tables, in bytes.\<close>

theorem sysinit_sizes:
  assumes "never_full h SPIWR_FIFO_IN_CSR_BASE" and "size_table_ok tx" and "size_table_ok rx"
    and "length (SSIZE w) = 8" and "length (RSIZE w) = 8"
  shows "\<exists>evs. sysinit tx rx h w = Some (w\<lparr>trace := trace w @ evs,
    SSIZE := map (\<lambda>t. 1024 * ucast t) tx, RSIZE := map (\<lambda>t. 1024 * ucast t) rx\<rparr>)"
proof -
  have lens: "length tx = 8" "length rx = 8"
    using assms by (auto simp: size_table_ok_def)
  obtain evs where "for_each [0..<8] (sysinit_step tx rx h) ((0, 0), w) =
    Some ((1024 * int (sum_list (map unat (take 8 tx))), 1024 * int (sum_list (map unat (take 8 rx)))),
      w\<lparr>trace := trace w @ evs, SSIZE := map kbytes (take 8 tx) @ drop 8 (SSIZE w),
        RSIZE := map kbytes (take 8 rx) @ drop 8 (RSIZE w)\<rparr>)"
    using sysinit_loop [OF assms, of 8] by auto
  then have "sysinit tx rx h w = Some (w\<lparr>trace := trace w @ evs,
      SSIZE := map kbytes tx, RSIZE := map kbytes rx\<rparr>)"
    using assms(4,5) lens by (simp add: sysinit_def MAX_SOCK_NUM_def del: upt_conv_Cons)
  then show ?thesis by (auto simp: kbytes_def [abs_def])
qed

definition reset_net :: net where
  \<comment> \<open>the network state at reset: static storage, cleared\<close>
  "reset_net = \<lparr>trace = [], SSIZE = replicate 8 0, RSIZE = replicate 8 0, local_port = 0\<rparr>"

theorem sysinit_sizes_witness:
  "\<exists>evs. sysinit (replicate 8 2) [1, 1, 2, 4, 4, 2, 1, 1] quiet_env reset_net =
    Some (reset_net\<lparr>trace := trace reset_net @ evs,
      SSIZE := map (\<lambda>t. 1024 * ucast t) (replicate 8 (2 :: byte)),
      RSIZE := map (\<lambda>t. 1024 * ucast t) [1, 1, 2, 4, 4, 2, 1, 1 :: byte]\<rparr>)"
  by (rule sysinit_sizes)
    (simp_all add: quiet_env_never_full size_table_ok_def reset_net_def sum_list_replicate)

end
