(* ===== verification/Sockets.thy ===== *)
theory Sockets
  imports W5500
begin

unbundle bit_operations_syntax

text \<open>
  \<open>socket.c\<close>: the socket operations on top of the register access of \<open>W5500\<close>. Every command is
  written to the socket's command register and the driver then waits until the chip has cleared
  it; a chip that never does leaves the operation without a result.
\<close>

definition SOCKET4 :: byte where "SOCKET4 = 4"
definition SOCKET0 :: byte where "SOCKET0 = 0"
definition SOCKET1 :: byte where "SOCKET1 = 1"
definition SOCKET5 :: byte where "SOCKET5 = 5"
definition SOCKET7 :: byte where "SOCKET7 = 7"

subsection \<open>Waiting for the chip\<close>

partial_function (option) wait_cr :: "byte \<Rightarrow> env \<Rightarrow> 'a bus_scheme \<Rightarrow> 'a bus_scheme option" where
  \<comment> \<open>\<open>while (IINCHIP_READ(Sn_CR(s)));\<close>\<close>
  "wait_cr s h w = do {
     (v, w) \<leftarrow> IINCHIP_READ (Sn_CR s) h w;
     if v \<noteq> 0 then wait_cr s h w else Some w
   }"

definition chip_command :: "byte \<Rightarrow> byte \<Rightarrow> env \<Rightarrow> 'a bus_scheme \<Rightarrow> 'a bus_scheme option" where
  "chip_command s c h w = do {
     w \<leftarrow> IINCHIP_WRITE (Sn_CR s) c h w;
     wait_cr s h w
   }"

definition close_socket :: "byte \<Rightarrow> env \<Rightarrow> 'a bus_scheme \<Rightarrow> 'a bus_scheme option" where
  "close_socket s h w = do {
     w \<leftarrow> chip_command s Sn_CR_CLOSE h w;
     IINCHIP_WRITE (Sn_IR s) 0xFF h w
   }"

subsection \<open>Opening and connecting\<close>

definition known_protocol :: "byte \<Rightarrow> bool" where
  "known_protocol p \<longleftrightarrow> (let p = p AND 0x0F in
     p = Sn_MR_TCP \<or> p = Sn_MR_UDP \<or> p = Sn_MR_IPRAW \<or> p = Sn_MR_MACRAW \<or> p = Sn_MR_PPPOE)"

definition set_port :: "byte \<Rightarrow> half \<Rightarrow> env \<Rightarrow> 'a net_scheme \<Rightarrow> 'a net_scheme option" where
  \<comment> \<open>the source port; zero takes the next value of the driver's own counter\<close>
  "set_port s port h w =
     (if port \<noteq> 0
      then do {
        w \<leftarrow> IINCHIP_WRITE (Sn_PORT0 s) (byte_hi port) h w;
        IINCHIP_WRITE (Sn_PORT1 s) (byte_lo port) h w
      }
      else do {
        let w = w\<lparr>local_port := local_port w + 1\<rparr>;
        w \<leftarrow> IINCHIP_WRITE (Sn_PORT0 s) (byte_hi (local_port w)) h w;
        IINCHIP_WRITE (Sn_PORT1 s) (byte_lo (local_port w)) h w
      })"

definition socket ::
    "byte \<Rightarrow> byte \<Rightarrow> half \<Rightarrow> byte \<Rightarrow> env \<Rightarrow> 'a net_scheme \<Rightarrow> (byte \<times> 'a net_scheme) option" where
  "socket s protocol port flag h w =
     (if known_protocol protocol
      then do {
        w \<leftarrow> close_socket s h w;
        w \<leftarrow> IINCHIP_WRITE (Sn_MR s) (protocol OR flag) h w;
        w \<leftarrow> set_port s port h w;
        w \<leftarrow> chip_command s Sn_CR_OPEN h w;
        Some (1, w)
      }
      else Some (0, w))"

definition listen :: "byte \<Rightarrow> env \<Rightarrow> 'a bus_scheme \<Rightarrow> (byte \<times> 'a bus_scheme) option" where
  "listen s h w = do {
     (st, w) \<leftarrow> IINCHIP_READ (Sn_SR s) h w;
     if st = SOCK_INIT
     then do {
       w \<leftarrow> chip_command s Sn_CR_LISTEN h w;
       Some (1, w)
     }
     else Some (0, w)
   }"

definition set_peer :: "byte \<Rightarrow> byte list \<Rightarrow> half \<Rightarrow> env \<Rightarrow> 'a bus_scheme \<Rightarrow> 'a bus_scheme option" where
  \<comment> \<open>destination address and port registers\<close>
  "set_peer s addr port h w = do {
     a \<leftarrow> arr_get addr 0; w \<leftarrow> IINCHIP_WRITE (Sn_DIPR0 s) a h w;
     a \<leftarrow> arr_get addr 1; w \<leftarrow> IINCHIP_WRITE (Sn_DIPR1 s) a h w;
     a \<leftarrow> arr_get addr 2; w \<leftarrow> IINCHIP_WRITE (Sn_DIPR2 s) a h w;
     a \<leftarrow> arr_get addr 3; w \<leftarrow> IINCHIP_WRITE (Sn_DIPR3 s) a h w;
     w \<leftarrow> IINCHIP_WRITE (Sn_DPORT0 s) (byte_hi port) h w;
     IINCHIP_WRITE (Sn_DPORT1 s) (byte_lo port) h w
   }"

partial_function (option) wait_connected ::
    "byte \<Rightarrow> env \<Rightarrow> 'a bus_scheme \<Rightarrow> (byte \<times> 'a bus_scheme) option" where
  "wait_connected s h w = do {
     (st, w) \<leftarrow> IINCHIP_READ (Sn_SR s) h w;
     if st \<noteq> SOCK_SYNSENT
     then do {
       (st, w) \<leftarrow> IINCHIP_READ (Sn_SR s) h w;
       if st = SOCK_ESTABLISHED then Some (1, w)
       else do {
         (ir, w) \<leftarrow> getSn_IR s h w;
         if ir AND Sn_IR_TIMEOUT \<noteq> 0
         then do { w \<leftarrow> IINCHIP_WRITE (Sn_IR s) Sn_IR_TIMEOUT h w; Some (0, w) }
         else wait_connected s h w
       }
     }
     else Some (1, w)
   }"

definition connect ::
    "byte \<Rightarrow> byte list \<Rightarrow> half \<Rightarrow> env \<Rightarrow> 'a bus_scheme \<Rightarrow> (byte \<times> 'a bus_scheme) option" where
  "connect s addr port h w = do {
     ip \<leftarrow> slice addr 0 4;
     if ip = [0xFF, 0xFF, 0xFF, 0xFF] \<or> ip = [0, 0, 0, 0] \<or> port = 0 then Some (0, w)
     else do {
       w \<leftarrow> set_peer s addr port h w;
       w \<leftarrow> chip_command s Sn_CR_CONNECT h w;
       wait_connected s h w
     }
   }"

definition disconnect :: "byte \<Rightarrow> env \<Rightarrow> 'a bus_scheme \<Rightarrow> 'a bus_scheme option" where
  "disconnect s h w = chip_command s Sn_CR_DISCON h w"

subsection \<open>Stream transfer\<close>

definition connected :: "byte \<Rightarrow> bool" where
  "connected st \<longleftrightarrow> \<not> (st \<noteq> SOCK_ESTABLISHED \<and> st \<noteq> SOCK_CLOSE_WAIT)"

partial_function (option) wait_room ::
    "byte \<Rightarrow> half \<Rightarrow> env \<Rightarrow> 'a bus_scheme \<Rightarrow> (half \<times> 'a bus_scheme) option" where
  \<comment> \<open>wait for \<open>ret\<close> bytes of free buffer; nothing is sent on a socket that is not connected\<close>
  "wait_room s ret h w = do {
     (freesize, w) \<leftarrow> getSn_TX_FSR s h w;
     (status, w) \<leftarrow> IINCHIP_READ (Sn_SR s) h w;
     if \<not> connected status then Some (0, w)
     else if freesize < ret then wait_room s ret h w else Some (ret, w)
   }"

partial_function (option) wait_sent :: "byte \<Rightarrow> env \<Rightarrow> 'a bus_scheme \<Rightarrow> (bool \<times> 'a bus_scheme) option" where
  \<comment> \<open>\<open>False\<close>: the socket left the connected states and has been closed\<close>
  "wait_sent s h w = do {
     (ir, w) \<leftarrow> IINCHIP_READ (Sn_IR s) h w;
     if ir AND Sn_IR_SEND_OK \<noteq> Sn_IR_SEND_OK
     then do {
       (status, w) \<leftarrow> IINCHIP_READ (Sn_SR s) h w;
       if \<not> connected status then do { w \<leftarrow> close_socket s h w; Some (False, w) }
       else wait_sent s h w
     }
     else Some (True, w)
   }"

definition clip_len :: "byte \<Rightarrow> half \<Rightarrow> 'a net_scheme \<Rightarrow> half option" where
  \<comment> \<open>the length, cut down to the socket's transmit buffer\<close>
  "clip_len s len w = do {
     mx \<leftarrow> getIINCHIP_TxMAX s w;
     Some (if len > mx then mx else len)
   }"

definition send :: "byte \<Rightarrow> byte list \<Rightarrow> half \<Rightarrow> env \<Rightarrow> 'a net_scheme \<Rightarrow> (half \<times> 'a net_scheme) option" where
  "send s buf len h w = do {
     ret \<leftarrow> clip_len s len w;
     (ret, w) \<leftarrow> wait_room s ret h w;
     w \<leftarrow> send_data_processing s buf ret h w;
     w \<leftarrow> chip_command s Sn_CR_SEND h w;
     (ok, w) \<leftarrow> wait_sent s h w;
     if \<not> ok then Some (0, w)
     else do {
       w \<leftarrow> IINCHIP_WRITE (Sn_IR s) Sn_IR_SEND_OK h w;
       w \<leftarrow> IINCHIP_WRITE (Sn_IR s) Sn_IR_SEND_OK h w;
       Some (ret, w)
     }
   }"

definition recv :: "byte \<Rightarrow> half \<Rightarrow> env \<Rightarrow> 'a bus_scheme \<Rightarrow> (half \<times> byte list \<times> 'a bus_scheme) option" where
  \<comment> \<open>the returned length and the bytes stored from \<open>buf\<close> on\<close>
  "recv s len h w =
     (if len > 0
      then do {
        (bs, w) \<leftarrow> recv_data_processing s len h w;
        w \<leftarrow> chip_command s Sn_CR_RECV h w;
        Some (len, bs, w)
      }
      else Some (0, [], w))"

subsection \<open>Datagram transfer\<close>

partial_function (option) wait_sent_to ::
    "byte \<Rightarrow> env \<Rightarrow> 'a bus_scheme \<Rightarrow> (bool \<times> 'a bus_scheme) option" where
  \<comment> \<open>\<open>False\<close>: timed out\<close>
  "wait_sent_to s h w = do {
     (ir, w) \<leftarrow> IINCHIP_READ (Sn_IR s) h w;
     if ir AND Sn_IR_SEND_OK \<noteq> Sn_IR_SEND_OK
     then do {
       (ir, w) \<leftarrow> IINCHIP_READ (Sn_IR s) h w;
       if ir AND Sn_IR_TIMEOUT \<noteq> 0
       then do { w \<leftarrow> IINCHIP_WRITE (Sn_IR s) (Sn_IR_SEND_OK OR Sn_IR_TIMEOUT) h w; Some (False, w) }
       else wait_sent_to s h w
     }
     else Some (True, w)
   }"

definition sendto ::
    "byte \<Rightarrow> byte list \<Rightarrow> half \<Rightarrow> byte list \<Rightarrow> half \<Rightarrow> env \<Rightarrow> 'a net_scheme \<Rightarrow> (half \<times> 'a net_scheme) option" where
  "sendto s buf len addr port h w = do {
     ret \<leftarrow> clip_len s len w;
     ip \<leftarrow> slice addr 0 4;
     if ip = [0, 0, 0, 0] \<or> port = 0 then Some (0, w)
     else do {
       w \<leftarrow> set_peer s addr port h w;
       w \<leftarrow> send_data_processing s buf ret h w;
       w \<leftarrow> chip_command s Sn_CR_SEND h w;
       (ok, w) \<leftarrow> wait_sent_to s h w;
       if \<not> ok then Some (0, w)
       else do {
         w \<leftarrow> IINCHIP_WRITE (Sn_IR s) Sn_IR_SEND_OK h w;
         Some (ret, w)
       }
     }
   }"

record datagram =
  dg_len :: half
  dg_data :: "byte list"          \<comment> \<open>stored through \<open>buf\<close>\<close>
  dg_addr :: "byte list option"   \<comment> \<open>stored through \<open>addr\<close>, when it is\<close>
  dg_port :: "half option"

definition store_rd :: "byte \<Rightarrow> half \<Rightarrow> env \<Rightarrow> 'a bus_scheme \<Rightarrow> 'a bus_scheme option" where
  "store_rd s ptr h w = do {
     w \<leftarrow> IINCHIP_WRITE (Sn_RX_RD0 s) (byte_hi ptr) h w;
     IINCHIP_WRITE (Sn_RX_RD1 s) (byte_lo ptr) h w
   }"

definition recv_body ::
    "byte \<Rightarrow> half \<Rightarrow> half \<Rightarrow> env \<Rightarrow> 'a bus_scheme \<Rightarrow> (byte list \<times> 'a bus_scheme) option" where
  \<comment> \<open>the payload after a header, and the read pointer moved past it\<close>
  "recv_body s ptr data_len h w = do {
     (bs, w) \<leftarrow> wiz_read_buf (buf_addr ptr s 0x18) data_len h w;
     w \<leftarrow> store_rd s (ptr + data_len) h w;
     Some (bs, w)
   }"

definition recvfrom_case ::
    "byte \<Rightarrow> byte \<Rightarrow> half \<Rightarrow> env \<Rightarrow> 'a bus_scheme \<Rightarrow> (datagram \<times> 'a bus_scheme) option" where
  "recvfrom_case s mode ptr h w =
     (if mode = Sn_MR_UDP then do {
        (hd, w) \<leftarrow> wiz_read_buf (buf_addr ptr s 0x18) 8 h w;
        let data_len = reg_pair (hd ! 6) (hd ! 7);
        (bs, w) \<leftarrow> recv_body s (ptr + 8) data_len h w;
        Some (\<lparr>dg_len = data_len, dg_data = bs, dg_addr = Some (take 4 hd),
               dg_port = Some (reg_pair (hd ! 4) (hd ! 5))\<rparr>, w)
      }
      else if mode = Sn_MR_IPRAW then do {
        (hd, w) \<leftarrow> wiz_read_buf (buf_addr ptr s 0x18) 6 h w;
        let data_len = reg_pair (hd ! 4) (hd ! 5);
        (bs, w) \<leftarrow> recv_body s (ptr + 6) data_len h w;
        Some (\<lparr>dg_len = data_len, dg_data = bs, dg_addr = Some (take 4 hd), dg_port = None\<rparr>, w)
      }
      else if mode = Sn_MR_MACRAW then do {
        (hd, w) \<leftarrow> wiz_read_buf (buf_addr ptr s 0x18) 2 h w;
        let data_len = reg_pair (hd ! 0) (hd ! 1) - 2;
        if data_len > 1514 then None
        else do {
          (bs, w) \<leftarrow> recv_body s (ptr + 2) data_len h w;
          Some (\<lparr>dg_len = data_len, dg_data = bs, dg_addr = None, dg_port = None\<rparr>, w)
        }
      }
      else Some (\<lparr>dg_len = 0, dg_data = [], dg_addr = None, dg_port = None\<rparr>, w))"

definition recvfrom :: "byte \<Rightarrow> half \<Rightarrow> env \<Rightarrow> 'a bus_scheme \<Rightarrow> (datagram \<times> 'a bus_scheme) option" where
  "recvfrom s len h w =
     (if len > 0
      then do {
        (ptr, w) \<leftarrow> read_pair (Sn_RX_RD0 s) (Sn_RX_RD1 s) h w;
        (mode, w) \<leftarrow> IINCHIP_READ (Sn_MR s) h w;
        (dg, w) \<leftarrow> recvfrom_case s (mode AND 0x07) ptr h w;
        w \<leftarrow> chip_command s Sn_CR_RECV h w;
        Some (dg, w)
      }
      else Some (\<lparr>dg_len = 0, dg_data = [], dg_addr = None, dg_port = None\<rparr>, w))"

subsection \<open>What the operations leave alone\<close>

lemma keeps_wait_cr: "keeps only_trace (wait_cr s h)"
proof -
  have "\<forall>s h. keeps only_trace (wait_cr s h :: 'a bus_scheme \<Rightarrow> _)"
    by (rule wait_cr.fixp_induct, rule adm_keeps2, simp add: tr.keeps_None, intro allI chip_rules, blast)
  then show ?thesis by blast
qed

lemma keeps_command: "keeps only_trace (chip_command s c h)" "keeps only_trace (close_socket s h)"
  unfolding close_socket_def chip_command_def by (intro chip_rules keeps_wait_cr)+

lemma keepsv_wait_connected: "keepsv only_trace (wait_connected s h)"
proof -
  have "\<forall>s h. keepsv only_trace (wait_connected s h :: 'a bus_scheme \<Rightarrow> _)"
    by (rule wait_connected.fixp_induct, rule adm_keepsv2, simp add: tr.keepsv_None, intro allI chip_rules, blast)
  then show ?thesis by blast
qed

lemma keepsv_wait_room: "keepsv only_trace (wait_room s r h)"
proof -
  have "\<forall>s r h. keepsv only_trace (wait_room s r h :: 'a bus_scheme \<Rightarrow> _)"
    by (rule wait_room.fixp_induct, rule adm_keepsv3, simp add: tr.keepsv_None, intro allI chip_rules, blast)
  then show ?thesis by blast
qed

lemma keepsv_wait_sent: "keepsv only_trace (wait_sent s h)"
proof -
  have "\<forall>s h. keepsv only_trace (wait_sent s h :: 'a bus_scheme \<Rightarrow> _)"
    by (rule wait_sent.fixp_induct, rule adm_keepsv2, simp add: tr.keepsv_None,
        intro allI chip_rules keeps_command, blast)
  then show ?thesis by blast
qed

lemma keepsv_wait_sent_to: "keepsv only_trace (wait_sent_to s h)"
proof -
  have "\<forall>s h. keepsv only_trace (wait_sent_to s h :: 'a bus_scheme \<Rightarrow> _)"
    by (rule wait_sent_to.fixp_induct, rule adm_keepsv2, simp add: tr.keepsv_None, intro allI chip_rules, blast)
  then show ?thesis by blast
qed

lemma keeps_set_peer: "keeps only_trace (set_peer s addr port h)"
  unfolding set_peer_def by (intro chip_rules tr.keeps_pure)

lemma keepsv_listen: "keepsv only_trace (listen s h)"
  unfolding listen_def by (intro chip_rules keeps_command)

lemma keepsv_connect: "keepsv only_trace (connect s addr port h)"
  unfolding connect_def
  by (intro chip_rules keeps_command keeps_set_peer keepsv_wait_connected tr.keepsv_pure)

lemma keepsv_send: "keepsv only_trace (send s buf len h)"
  unfolding send_def
  by (intro chip_rules keeps_command keepsv_wait_room keepsv_wait_sent tr.keepsv_pure)

lemma keepsv_sendto: "keepsv only_trace (sendto s buf len addr port h)"
  unfolding sendto_def
  by (intro chip_rules keeps_command keeps_set_peer keepsv_wait_sent_to tr.keepsv_pure)

lemma recv_only_trace:
  assumes "recv s len h w = Some (n, bs, w')"
  shows "only_trace w w'"
proof (cases "len > 0")
  case True
  then obtain w1 where "recv_data_processing s len h w = Some (bs, w1)" "chip_command s Sn_CR_RECV h w1 = Some w'"
    using assms by (auto simp: recv_def split: bind_splits)
  then show ?thesis
    using keepsvD [OF keeps_data_processing(2)] keepsD [OF keeps_command(1)] tr.R_trans by metis
next
  case False
  then show ?thesis using assms tr.R_refl by (simp add: recv_def)
qed

lemma keepsv_recvfrom: "keepsv only_trace (recvfrom s len h)"
  unfolding recvfrom_def recvfrom_case_def recv_body_def store_rd_def Let_def
  by (intro chip_rules keepsv_read_pair keeps_command)

definition only_net :: "'a net_scheme \<Rightarrow> 'a net_scheme \<Rightarrow> bool" where
  \<comment> \<open>only the trace and the source port counter have changed\<close>
  "only_net w w' \<longleftrightarrow> (\<exists>evs p. w' = w\<lparr>trace := trace w @ evs, local_port := p\<rparr>)"

interpretation nt: frame_rel only_net
proof
  fix w :: "'a net_scheme"
  have "w = w\<lparr>trace := trace w @ [], local_port := local_port w\<rparr>" by simp
  then show "only_net w w" unfolding only_net_def by blast
next
  fix a b c :: "'a net_scheme"
  assume "only_net a b" "only_net b c"
  then obtain e p f q where "b = a\<lparr>trace := trace a @ e, local_port := p\<rparr>"
      "c = b\<lparr>trace := trace b @ f, local_port := q\<rparr>"
    unfolding only_net_def by blast
  then have "c = a\<lparr>trace := trace a @ (e @ f), local_port := q\<rparr>" by simp
  then show "only_net a c" unfolding only_net_def by blast
qed

lemma only_trace_net: "only_trace w w' \<Longrightarrow> only_net w w'"
proof -
  assume "only_trace w w'"
  then obtain evs where "w' = w\<lparr>trace := trace w @ evs\<rparr>" unfolding only_trace_def by blast
  then have "w' = w\<lparr>trace := trace w @ evs, local_port := local_port w\<rparr>" by simp
  then show "only_net w w'" unfolding only_net_def by blast
qed

lemma only_net_write: "IINCHIP_WRITE a v h w = Some w' \<Longrightarrow> only_net w w'"
  using keepsD [OF keeps_chip(1)] only_trace_net by blast

lemma set_port_only_net: "set_port s port h w = Some w' \<Longrightarrow> only_net w w'"
proof -
  assume set: "set_port s port h w = Some w'"
  let ?w = "if port \<noteq> 0 then w else w\<lparr>local_port := local_port w + 1\<rparr>"
  obtain a b w1 where "IINCHIP_WRITE (Sn_PORT0 s) a h ?w = Some w1" "IINCHIP_WRITE (Sn_PORT1 s) b h w1 = Some w'"
    using set by (auto simp: set_port_def split: if_splits bind_splits)
  then have "only_net ?w w'" using only_net_write nt.R_trans by blast
  moreover have "?w = w\<lparr>trace := trace w @ [], local_port := (if port \<noteq> 0 then local_port w else local_port w + 1)\<rparr>"
    by simp
  then have "only_net w ?w" unfolding only_net_def by blast
  ultimately show "only_net w w'" using nt.R_trans by blast
qed

lemma keepsv_socket: "keepsv only_net (socket s p port f h)"
  unfolding socket_def
  by (intro nt.keeps_intros keeps_mono [OF keeps_chip(1) only_trace_net]
      keeps_mono [OF keeps_command(1) only_trace_net] keeps_mono [OF keeps_command(2) only_trace_net])
    (simp_all add: keeps_def set_port_only_net)

lemmas socket_rules = chip_rules keeps_command keepsv_listen keepsv_connect keepsv_send
  keepsv_sendto keepsv_recvfrom

end
