(* ===== verification/SocketSpec.thy ===== *)
theory SocketSpec
  imports Sockets
begin

unbundle bit_operations_syntax

text \<open>
  The socket operations as the network chip sees them. The observer \<open>chip_step\<close> follows chip
  select and the SPI words of a trace and keeps the write accesses it has taken; on it the
  operations of \<open>socket.c\<close> are sequences of register writes. What the chip answers is a
  hypothesis on \<open>env\<close>; \<open>chip_env\<close> builds an environment from a register file, so that each
  hypothesis can be met.
\<close>

definition is_write :: "half list \<Rightarrow> bool" where
  "is_write f \<longleftrightarrow> 2 < length f \<and> bit (f ! 2) 2"

fun chip_step :: "half list \<times> half list list \<Rightarrow> event \<Rightarrow> half list \<times> half list list" where
  "chip_step (cur, log) (Iowr d r v) =
     (if d = W5500_CS_BASE \<and> r = 0
      then (if v = 0 then ([], log) else ([], if is_write cur then log @ [cur] else log))
      else if d = SPIWR_FIFO_IN_BASE \<and> r = 0 then (cur @ [ucast (swap_halves v)], log)
      else (cur, log))"
| "chip_step m _ = m"

interpretation chip: observer chip_step "\<lambda>pre. ([], pre)"
  by unfold_locales simp

definition chip_log :: "event list \<Rightarrow> half list list" where
  \<comment> \<open>the write accesses of a trace\<close>
  "chip_log evs = snd (foldl chip_step ([], []) evs)"

lemma sees_log: "chip.sees evs xs \<Longrightarrow> chip_log evs = xs"
  by (simp add: chip.sees_def chip_log_def)

lemma chip_word: "foldl chip_step (cur, log) (spi_word_evs d) = (cur @ [d], log)"
  by (simp add: spi_word_evs_def)

lemma chip_words: "foldl chip_step (cur, log) (concat (map spi_word_evs ds)) = (cur @ ds, log)"
  by (induction ds arbitrary: cur) (simp_all add: chip_word)

lemma sees_access: "chip.sees (access_evs ds) (if is_write ds then [ds] else [])"
  by (simp add: chip.sees_def access_evs_def chip_words)

lemma frame_is_write: "is_write (spi_frame a bs)"
proof -
  have ctl: "addr_ctl a + 4 = addr_ctl a OR 4"
  proof (rule add_or_disjoint)
    fix n assume "bit (addr_ctl a) n" "bit (4 :: half) n"
    then show False
      using bit_exp_iff [of 2 n, where 'a = half] by (auto simp: addr_ctl_def bit_simps bit_248_int)
  qed
  have "bit (4 :: half) 2"
    using bit_exp_iff [of 2 2, where 'a = half] by simp
  then show ?thesis by (simp add: is_write_def spi_frame_def ctl bit_or_iff)
qed

lemma does_write:
  "never_full h SPIWR_FIFO_IN_CSR_BASE \<Longrightarrow> chip.does (IINCHIP_WRITE a v h) [spi_frame a [v]]"
  using sees_access [of "spi_frame a [v]"] by (auto simp: chip.does_def IINCHIP_WRITE_logged frame_is_write)

lemma answers_write_buf:
  "never_full h SPIWR_FIFO_IN_CSR_BASE \<Longrightarrow> unat len \<le> length buf \<Longrightarrow>
     chip.answers (wiz_write_buf a buf len h) len [spi_frame a (take (unat len) buf)]"
  using sees_access [of "spi_frame a (take (unat len) buf)"]
  by (auto simp: chip.answers_def wiz_write_buf_logged frame_is_write)

subsection \<open>An environment from a register file\<close>

definition chip_env :: "(half list \<Rightarrow> byte) \<Rightarrow> env" where
  \<comment> \<open>the SPI bridge returns the value of the register addressed by the last four words\<close>
  "chip_env regs = quiet_env\<lparr>rd := \<lambda>tr d r.
     if d = SPIRD_FIFO_IN_CSR_BASE \<and> r = 0 then 1
     else if d = SPIRD_FIFO_OUT_BASE
     then (let ws = spi_sent tr in swap_halves (ucast (regs (drop (length ws - 4) ws))))
     else 0\<rparr>"

lemma chip_env_never_full: "never_full (chip_env regs) SPIWR_FIFO_IN_CSR_BASE"
  by (simp add: never_full_def chip_env_def)

lemma spi_sent_other [simp]:
  "spi_sent [Iord d r] = []" "spi_sent [] = []" "spi_sent [Iowr W5500_CS_BASE r v] = []"
  by (simp_all add: spi_sent_def)

definition read_words :: "uint \<Rightarrow> half list" where
  "read_words a = [addr_hi a, addr_lo a, addr_ctl a, 1]"

lemma not_write_read: "\<not> is_write (read_words a)"
proof -
  have "\<not> bit (4 :: half) 0" "\<not> bit (addr_ctl a) 2"
    by (auto simp: addr_ctl_def bit_simps bit_248_int)
  then show ?thesis by (simp add: is_write_def read_words_def)
qed

lemma ff_byte: "(ucast (ucast (v :: byte) AND (0xff :: uint)) :: byte) = v"
  by (rule bit_word_eqI) (auto simp: bit_simps bit_255_int bit_255_uint)

lemma answers_chip_env:
  "chip.answers (IINCHIP_READ a (chip_env regs)) (regs (read_words a)) []"
  unfolding chip.answers_def
proof
  fix w :: "'a bus_scheme"
  let ?h = "chip_env regs"
  define pre where "pre = Iowr W5500_CS_BASE 0 0 # concat (map spi_word_evs (read_words a))"
  have send: "IINCHIP_SpiSendData d ?h w = Some (logged w (spi_word_evs d))" for d and w :: "'a bus_scheme"
    by (rule SpiSendData_logged [OF chip_env_never_full])
  have sent: "spi_sent (trace w @ pre) = spi_sent (trace w) @ read_words a"
    using spi_sent_access [of "read_words a"] by (simp add: pre_def read_words_def spi_sent_def spi_word_evs_def)
  have "SPI_I2S_ReceiveData ?h (logged w pre) = Some (regs (read_words a),
      logged w (pre @ [Iord SPIRD_FIFO_IN_CSR_BASE 0, Iord SPIRD_FIFO_IN_CSR_BASE 1,
        Iord SPIRD_FIFO_OUT_BASE 0, Iord SPIRD_FIFO_IN_CSR_BASE 0]))"
    using sent by (simp add: SPI_I2S_ReceiveData_def altera_avalon_fifo_read_level_def
        altera_avalon_fifo_read_fifo_def altera_avalon_fifo_read_status_def chip_env_def Let_def ff_byte
        read_words_def)
  then have "IINCHIP_READ a ?h w = Some (regs (read_words a),
      logged w (pre @ [Iord SPIRD_FIFO_IN_CSR_BASE 0, Iord SPIRD_FIFO_IN_CSR_BASE 1,
        Iord SPIRD_FIFO_OUT_BASE 0, Iord SPIRD_FIFO_IN_CSR_BASE 0, Iowr W5500_CS_BASE 0 1]))"
    by (simp add: IINCHIP_READ_def IINCHIP_CSoff_def IINCHIP_CSon_def send pre_def read_words_def)
  moreover have "chip.sees (pre @ [Iord SPIRD_FIFO_IN_CSR_BASE 0, Iord SPIRD_FIFO_IN_CSR_BASE 1,
        Iord SPIRD_FIFO_OUT_BASE 0, Iord SPIRD_FIFO_IN_CSR_BASE 0, Iowr W5500_CS_BASE 0 1]) []"
    by (simp add: chip.sees_def pre_def chip_words not_write_read)
  ultimately show "\<exists>evs. IINCHIP_READ a ?h w = Some (regs (read_words a), logged w evs) \<and> chip.sees evs []"
    by blast
qed

subsection \<open>Operations as register writes\<close>

definition frames :: "(uint \<times> byte) list \<Rightarrow> half list list" where
  "frames ws = map (\<lambda>(a, v). spi_frame a [v]) ws"

definition close_frames :: "byte \<Rightarrow> half list list" where
  "close_frames s = frames [(Sn_CR s, Sn_CR_CLOSE), (Sn_IR s, 0xFF)]"

lemma does_wait_cr:
  assumes "chip.answers (IINCHIP_READ (Sn_CR s) h :: 'a bus_scheme \<Rightarrow> _) 0 []"
  shows "chip.does (wait_cr s h :: 'a bus_scheme \<Rightarrow> _) []"
proof -
  have "chip.does (\<lambda>w :: 'a bus_scheme. do { (v, w) \<leftarrow> IINCHIP_READ (Sn_CR s) h w;
      if v \<noteq> 0 then wait_cr s h w else Some w }) ([] @ [])"
    by (rule chip.does_bind [OF assms]) (simp add: chip.does_done)
  then show ?thesis by (subst wait_cr.simps [abs_def]) simp
qed

lemma does_command:
  assumes "never_full h SPIWR_FIFO_IN_CSR_BASE"
    and "chip.answers (IINCHIP_READ (Sn_CR s) h :: 'a bus_scheme \<Rightarrow> _) 0 []"
  shows "chip.does (chip_command s c h :: 'a bus_scheme \<Rightarrow> _) (frames [(Sn_CR s, c)])"
  using chip.does_seq [OF does_write [OF assms(1)] does_wait_cr [OF assms(2)]]
  by (simp add: chip_command_def [abs_def] frames_def)

lemma does_close:
  assumes "never_full h SPIWR_FIFO_IN_CSR_BASE"
    and "chip.answers (IINCHIP_READ (Sn_CR s) h :: 'a bus_scheme \<Rightarrow> _) 0 []"
  shows "chip.does (close_socket s h :: 'a bus_scheme \<Rightarrow> _) (close_frames s)"
  using chip.does_seq [OF does_command [OF assms] does_write [OF assms(1)]]
  by (simp add: close_socket_def [abs_def] frames_def close_frames_def)

lemma chip_env_reads:
  "regs (read_words a) = v \<Longrightarrow> chip.answers (IINCHIP_READ a (chip_env regs)) v []"
  using answers_chip_env [of a regs] by simp

lemma logged_port:
  "logged (w\<lparr>local_port := p\<rparr>) e = (logged w e)\<lparr>local_port := p\<rparr>"
  "local_port (logged w e) = local_port w"
  by (simp_all add: logged_def)

text \<open>Opening a socket: a protocol the driver does not know is refused with nothing sent; for a known
  one (TCP, UDP, IPRAW, MACRAW, PPPoE) on a chip that takes its commands, the driver closes the
  socket, sets mode, source port and OPEN in this order, and a port of zero is replaced by the next
  value of the driver's own port counter.\<close>

theorem socket_open_sequence:
  fixes w :: "'a net_scheme"
  assumes "never_full h SPIWR_FIFO_IN_CSR_BASE"
    and "chip.answers (IINCHIP_READ (Sn_CR s) h :: 'a net_scheme \<Rightarrow> _) 0 []"
  shows "\<exists>evs. let p = (if port \<noteq> 0 then port else local_port w + 1) in
    socket s protocol port flag h w =
      (if known_protocol protocol
       then Some (1, w\<lparr>trace := trace w @ evs, local_port := (if port \<noteq> 0 then local_port w else p)\<rparr>)
       else Some (0, w)) \<and>
    chip_log evs = close_frames s @ frames [(Sn_MR s, protocol OR flag), (Sn_PORT0 s, byte_hi p),
      (Sn_PORT1 s, byte_lo p), (Sn_CR s, Sn_CR_OPEN)]"
proof -
  define p where "p = (if port \<noteq> 0 then port else local_port w + 1)"
  define w1 where "w1 = (if port \<noteq> 0 then w else w\<lparr>local_port := p\<rparr>)"
  define mid where "mid = access_evs (spi_frame (Sn_MR s) [protocol OR flag]) @
    access_evs (spi_frame (Sn_PORT0 s) [byte_hi p]) @ access_evs (spi_frame (Sn_PORT1 s) [byte_lo p])"
  obtain c1 where c1: "close_socket s h w = Some (logged w c1)" "chip.sees c1 (close_frames s)"
    using chip.doesD [OF does_close [OF assms]] by blast
  obtain c2 where c2: "chip_command s Sn_CR_OPEN h (logged w1 (c1 @ mid)) = Some (logged (logged w1 (c1 @ mid)) c2)"
      "chip.sees c2 (frames [(Sn_CR s, Sn_CR_OPEN)])"
    using chip.doesD [OF does_command [OF assms]] by blast
  have "known_protocol protocol \<Longrightarrow> socket s protocol port flag h w = Some (1, logged w1 (c1 @ mid @ c2))"
    using c2(1) by (cases "port = 0") (simp_all add: socket_def set_port_def c1(1) w1_def p_def logged_port mid_def
        IINCHIP_WRITE_logged [OF assms(1)] Let_def)
  moreover have "logged w1 evs = w\<lparr>trace := trace w @ evs,
      local_port := (if port \<noteq> 0 then local_port w else p)\<rparr>" for evs
    by (simp add: w1_def logged_def)
  moreover have "\<not> known_protocol protocol \<Longrightarrow> socket s protocol port flag h w = Some (0, w)"
    by (simp add: socket_def)
  moreover have "chip_log (c1 @ mid @ c2) = close_frames s @ frames [(Sn_MR s, protocol OR flag),
      (Sn_PORT0 s, byte_hi p), (Sn_PORT1 s, byte_lo p)] @ frames [(Sn_CR s, Sn_CR_OPEN)]"
  proof (rule sees_log, intro chip.sees_append c1(2) c2(2))
    have "chip.sees (access_evs (spi_frame a bs)) [spi_frame a bs]" for a bs
      using sees_access [of "spi_frame a bs"] by (simp add: frame_is_write)
    from chip.sees_append [OF this chip.sees_append [OF this this]]
    show "chip.sees mid (frames [(Sn_MR s, protocol OR flag), (Sn_PORT0 s, byte_hi p), (Sn_PORT1 s, byte_lo p)])"
      unfolding mid_def frames_def by simp
  qed
  ultimately show ?thesis
    unfolding Let_def p_def [symmetric] by (intro exI [of _ "c1 @ mid @ c2"]) (simp add: frames_def)
qed

theorem socket_open_sequence_witness:
  "\<exists>evs. let p = (if (0 :: half) \<noteq> 0 then 0 else local_port reset_net + 1) in
    socket 4 Sn_MR_TCP 0 Sn_MR_ND (chip_env (\<lambda>_. 0)) reset_net =
      (if known_protocol Sn_MR_TCP
       then Some (1, reset_net\<lparr>trace := trace reset_net @ evs,
         local_port := (if (0 :: half) \<noteq> 0 then local_port reset_net else p)\<rparr>)
       else Some (0, reset_net)) \<and>
    chip_log evs = close_frames 4 @ frames [(Sn_MR 4, Sn_MR_TCP OR Sn_MR_ND), (Sn_PORT0 4, byte_hi p),
      (Sn_PORT1 4, byte_lo p), (Sn_CR 4, Sn_CR_OPEN)]"
  by (rule socket_open_sequence) (auto intro: chip_env_never_full chip_env_reads)

subsection \<open>Sending on a stream socket\<close>

lemma answers_wait_room_closed:
  assumes "chip.answers (getSn_TX_FSR s h :: 'a bus_scheme \<Rightarrow> _) free []"
    and "chip.answers (IINCHIP_READ (Sn_SR s) h :: 'a bus_scheme \<Rightarrow> _) st []" and "\<not> connected st"
  shows "chip.answers (wait_room s n h :: 'a bus_scheme \<Rightarrow> _) 0 []"
proof -
  have "chip.answers (\<lambda>w :: 'a bus_scheme. do { (freesize, w) \<leftarrow> getSn_TX_FSR s h w;
      (status, w) \<leftarrow> IINCHIP_READ (Sn_SR s) h w;
      if \<not> connected status then Some (0, w)
      else if freesize < n then wait_room s n h w else Some (n, w) }) 0 ([] @ [] @ [])"
    by (rule chip.answers_bind [OF assms(1) chip.answers_bind [OF assms(2)]])
      (simp add: assms(3) chip.answers_done)
  then show ?thesis by (subst wait_room.simps [abs_def]) simp
qed

lemma answers_wait_room_open:
  assumes "chip.answers (getSn_TX_FSR s h :: 'a bus_scheme \<Rightarrow> _) free []"
    and "chip.answers (IINCHIP_READ (Sn_SR s) h :: 'a bus_scheme \<Rightarrow> _) st []" and "connected st" and "n \<le> free"
  shows "chip.answers (wait_room s n h :: 'a bus_scheme \<Rightarrow> _) n []"
proof -
  have "chip.answers (\<lambda>w :: 'a bus_scheme. do { (freesize, w) \<leftarrow> getSn_TX_FSR s h w;
      (status, w) \<leftarrow> IINCHIP_READ (Sn_SR s) h w;
      if \<not> connected status then Some (0, w)
      else if freesize < n then wait_room s n h w else Some (n, w) }) n ([] @ [] @ [])"
    by (rule chip.answers_bind [OF assms(1) chip.answers_bind [OF assms(2)]])
      (simp add: chip.answers_done assms(3) assms(4) [THEN leD])
  then show ?thesis by (subst wait_room.simps [abs_def]) simp
qed

lemma answers_wait_sent_ok:
  assumes "chip.answers (IINCHIP_READ (Sn_IR s) h :: 'a bus_scheme \<Rightarrow> _) ir []"
    and "ir AND Sn_IR_SEND_OK = Sn_IR_SEND_OK"
  shows "chip.answers (wait_sent s h :: 'a bus_scheme \<Rightarrow> _) True []"
proof -
  have "chip.answers (\<lambda>w :: 'a bus_scheme. do { (ir, w) \<leftarrow> IINCHIP_READ (Sn_IR s) h w;
      if ir AND Sn_IR_SEND_OK \<noteq> Sn_IR_SEND_OK
      then do { (status, w) \<leftarrow> IINCHIP_READ (Sn_SR s) h w;
        if \<not> connected status then do { w \<leftarrow> close_socket s h w; Some (False, w) } else wait_sent s h w }
      else Some (True, w) }) True ([] @ [])"
    by (rule chip.answers_bind [OF assms(1)]) (simp add: assms(2) chip.answers_done)
  then show ?thesis by (subst wait_sent.simps [abs_def]) simp
qed

lemma answers_wait_sent_closed:
  assumes "never_full h SPIWR_FIFO_IN_CSR_BASE"
    and "chip.answers (IINCHIP_READ (Sn_CR s) h :: 'a bus_scheme \<Rightarrow> _) 0 []"
    and "chip.answers (IINCHIP_READ (Sn_IR s) h :: 'a bus_scheme \<Rightarrow> _) ir []"
    and "chip.answers (IINCHIP_READ (Sn_SR s) h :: 'a bus_scheme \<Rightarrow> _) st []" and "\<not> connected st"
    and "ir AND Sn_IR_SEND_OK \<noteq> Sn_IR_SEND_OK"
  shows "chip.answers (wait_sent s h :: 'a bus_scheme \<Rightarrow> _) False (close_frames s)"
proof -
  let ?left = "\<lambda>w :: 'a bus_scheme. do { (status, w) \<leftarrow> IINCHIP_READ (Sn_SR s) h w;
      if \<not> connected status then do { w \<leftarrow> close_socket s h w; Some (False, w) } else wait_sent s h w }"
  have "chip.answers ?left False ([] @ close_frames s)"
    by (rule chip.answers_bind [OF assms(4)])
      (use chip.answers_seq [OF does_close [OF assms(1,2)] chip.answers_done, of False] in \<open>simp add: assms(5)\<close>)
  then have "chip.answers (\<lambda>w. do { (ir, w) \<leftarrow> IINCHIP_READ (Sn_IR s) h w;
      if ir AND Sn_IR_SEND_OK \<noteq> Sn_IR_SEND_OK then ?left w else Some (True, w) }) False ([] @ close_frames s)"
    by (intro chip.answers_bind [OF assms(3)]) (simp add: assms(6))
  then show ?thesis by (subst wait_sent.simps [abs_def]) simp
qed

definition send_len :: "half \<Rightarrow> half \<Rightarrow> half" where
  "send_len len mx = (if len > mx then mx else len)"

lemma does_send_data:
  assumes h: "never_full h SPIWR_FIFO_IN_CSR_BASE" and n: "n \<noteq> 0" "unat n \<le> length buf"
    and ptr: "chip.answers (read_pair (Sn_TX_WR0 s) (Sn_TX_WR1 s) h :: 'a bus_scheme \<Rightarrow> _) ptr []"
  shows "chip.does (send_data_processing s buf n h :: 'a bus_scheme \<Rightarrow> _)
    (spi_frame (buf_addr ptr s 0x10) (take (unat n) buf) #
     frames [(Sn_TX_WR0 s, byte_hi (ptr + n)), (Sn_TX_WR1 s, byte_lo (ptr + n))])"
  using chip.does_bind [OF ptr chip.does_bind [OF answers_write_buf [OF h n(2)]
      chip.does_seq [OF does_write [OF h] does_write [OF h]]]] n(1)
  by (simp add: send_data_processing_def [abs_def] frames_def Let_def)

lemma answers_read_pair:
  assumes "chip.answers (IINCHIP_READ a h :: 'a bus_scheme \<Rightarrow> _) hi []"
    and "chip.answers (IINCHIP_READ b h :: 'a bus_scheme \<Rightarrow> _) lo []"
  shows "chip.answers (read_pair a b h :: 'a bus_scheme \<Rightarrow> _) (reg_pair hi lo) []"
  using chip.answers_bind [OF assms(1) chip.answers_bind [OF assms(2) chip.answers_done]]
  by (simp add: read_pair_def [abs_def])

lemma answers_stable_pair:
  assumes "chip.answers (read_pair a b h :: 'a bus_scheme \<Rightarrow> _) v []"
  shows "chip.answers (stable_pair a b 0 h :: 'a bus_scheme \<Rightarrow> _) v []"
proof -
  have "chip.answers (\<lambda>w :: 'a bus_scheme. if v \<noteq> 0 then read_pair a b h w else Some (0, w)) v []" (is ?again)
    using assms chip.answers_done by (cases "v = 0") simp_all
  have "chip.answers (\<lambda>w :: 'a bus_scheme. do { (val1, w) \<leftarrow> read_pair a b h w;
      (val, w) \<leftarrow> (if val1 \<noteq> 0 then read_pair a b h w else Some (0, w));
      if val \<noteq> val1 then stable_pair a b val h w else Some (val, w) }) v ([] @ [] @ [])"
    by (rule chip.answers_bind [OF assms], rule chip.answers_bind [OF \<open>?again\<close>]) (simp add: chip.answers_done)
  then show ?thesis by (subst stable_pair.simps [abs_def]) simp
qed

text \<open>C25: sending on a connected stream socket with room in the transmit buffer: the call returns the
  requested length cut down to the socket's buffer, and the chip receives exactly that many bytes of
  the caller's data at its write pointer, the advanced pointer, one SEND command and the (doubled)
  acknowledgement of the send interrupt.\<close>

theorem send_connected_transmits:
  fixes w :: "'a net_scheme"
  assumes "never_full h SPIWR_FIFO_IN_CSR_BASE"
    and "chip.answers (IINCHIP_READ (Sn_CR s) h :: 'a net_scheme \<Rightarrow> _) 0 []"
    and "chip.answers (IINCHIP_READ (Sn_SR s) h :: 'a net_scheme \<Rightarrow> _) st []" and "connected st"
    and "chip.answers (IINCHIP_READ (Sn_IR s) h :: 'a net_scheme \<Rightarrow> _) ir []"
    and "ir AND Sn_IR_SEND_OK = Sn_IR_SEND_OK"
    and "chip.answers (getSn_TX_FSR s h :: 'a net_scheme \<Rightarrow> _) free []"
    and "chip.answers (read_pair (Sn_TX_WR0 s) (Sn_TX_WR1 s) h :: 'a net_scheme \<Rightarrow> _) ptr []"
    and "getIINCHIP_TxMAX s w = Some mx"
    and "send_len len mx \<noteq> 0" and "send_len len mx \<le> free" and "unat (send_len len mx) \<le> length buf"
  shows "\<exists>evs. send s buf len h w = Some (send_len len mx, w\<lparr>trace := trace w @ evs\<rparr>) \<and>
    chip_log evs = spi_frame (buf_addr ptr s 0x10) (take (unat (send_len len mx)) buf) #
      frames [(Sn_TX_WR0 s, byte_hi (ptr + send_len len mx)), (Sn_TX_WR1 s, byte_lo (ptr + send_len len mx)),
        (Sn_CR s, Sn_CR_SEND), (Sn_IR s, Sn_IR_SEND_OK), (Sn_IR s, Sn_IR_SEND_OK)]"
proof -
  let ?n = "send_len len mx"
  let ?d = "spi_frame (buf_addr ptr s 0x10) (take (unat ?n) buf) #
     frames [(Sn_TX_WR0 s, byte_hi (ptr + ?n)), (Sn_TX_WR1 s, byte_lo (ptr + ?n))]"
  have "chip.answers (\<lambda>w :: 'a net_scheme. do { (ret, w) \<leftarrow> wait_room s ?n h w;
      w \<leftarrow> send_data_processing s buf ret h w; w \<leftarrow> chip_command s Sn_CR_SEND h w;
      (ok, w) \<leftarrow> wait_sent s h w;
      if \<not> ok then Some (0, w)
      else do { w \<leftarrow> IINCHIP_WRITE (Sn_IR s) Sn_IR_SEND_OK h w;
        w \<leftarrow> IINCHIP_WRITE (Sn_IR s) Sn_IR_SEND_OK h w; Some (ret, w) } }) ?n
    ([] @ ?d @ frames [(Sn_CR s, Sn_CR_SEND)] @ [] @ frames [(Sn_IR s, Sn_IR_SEND_OK)] @ frames [(Sn_IR s, Sn_IR_SEND_OK)] @ [])"
    by (rule chip.answers_bind [OF answers_wait_room_open [OF assms(7,3,4,11)]],
        rule chip.answers_seq [OF does_send_data [OF assms(1,10,12,8)]],
        rule chip.answers_seq [OF does_command [OF assms(1,2)]],
        rule chip.answers_bind [OF answers_wait_sent_ok [OF assms(5,6)]])
      (use chip.answers_seq [OF does_write [OF assms(1)] chip.answers_seq [OF does_write [OF assms(1)] chip.answers_done]]
       in \<open>simp add: frames_def\<close>)
  then obtain evs where "send s buf len h w = Some (?n, logged w evs)"
      "chip.sees evs (?d @ frames [(Sn_CR s, Sn_CR_SEND), (Sn_IR s, Sn_IR_SEND_OK), (Sn_IR s, Sn_IR_SEND_OK)])"
    using assms(9) chip.answersD
    by (fastforce simp: send_def clip_len_def send_len_def frames_def)
  then show ?thesis using sees_log by (force simp: logged_def frames_def)
qed

definition demo_regs :: "half list \<Rightarrow> byte" where
  \<comment> \<open>socket 4 connected, 2048 bytes free, send interrupt raised\<close>
  "demo_regs ws = (if ws = read_words (Sn_SR 4) then 0x17 else if ws = read_words (Sn_IR 4) then 0x10
     else if ws = read_words (Sn_TX_FSR0 4) then 8 else 0)"

lemmas reg_words = read_words_def addr_hi_def addr_lo_def addr_ctl_def Sn_regs

theorem send_connected_transmits_witness:
  "\<exists>evs. send 4 [1, 2, 3, 4, 5] 5 (chip_env demo_regs) (reset_net\<lparr>SSIZE := replicate 8 4\<rparr>) =
      Some (send_len 5 4, (reset_net\<lparr>SSIZE := replicate 8 4\<rparr>)
        \<lparr>trace := trace (reset_net\<lparr>SSIZE := replicate 8 4\<rparr>) @ evs\<rparr>) \<and>
    chip_log evs = spi_frame (buf_addr 0 4 0x10) (take (unat (send_len 5 4)) [1, 2, 3, 4, 5]) #
      frames [(Sn_TX_WR0 4, byte_hi (0 + send_len 5 4)), (Sn_TX_WR1 4, byte_lo (0 + send_len 5 4)),
        (Sn_CR 4, Sn_CR_SEND), (Sn_IR 4, Sn_IR_SEND_OK), (Sn_IR 4, Sn_IR_SEND_OK)]"
proof (rule send_connected_transmits)
  have zero: "(0 :: half) = reg_pair 0 0" and free: "(0x800 :: half) = reg_pair 8 0"
    by (simp_all add: reg_pair_def)
  show "never_full (chip_env demo_regs) SPIWR_FIFO_IN_CSR_BASE" by (rule chip_env_never_full)
  show "chip.answers (IINCHIP_READ (Sn_CR 4) (chip_env demo_regs)) 0 []"
    "chip.answers (IINCHIP_READ (Sn_SR 4) (chip_env demo_regs)) 0x17 []"
    "chip.answers (IINCHIP_READ (Sn_IR 4) (chip_env demo_regs)) 0x10 []"
    by (rule chip_env_reads, simp add: demo_regs_def reg_words)+
  show "chip.answers (getSn_TX_FSR 4 (chip_env demo_regs)) 0x800 []"
    unfolding getSn_TX_FSR_def [abs_def] free
    by (rule answers_stable_pair, rule answers_read_pair; rule chip_env_reads, simp add: demo_regs_def reg_words)
  show "chip.answers (read_pair (Sn_TX_WR0 4) (Sn_TX_WR1 4) (chip_env demo_regs)) 0 []"
    unfolding zero by (rule answers_read_pair; rule chip_env_reads, simp add: demo_regs_def reg_words)
  show "connected 0x17" "(0x10 :: byte) AND Sn_IR_SEND_OK = Sn_IR_SEND_OK"
    by (simp_all add: connected_def w5500_vals)
  show "getIINCHIP_TxMAX 4 (reset_net\<lparr>SSIZE := replicate 8 4\<rparr>) = Some 4"
    by (simp add: getIINCHIP_TxMAX_def)
qed (simp_all add: send_len_def)

text \<open>C40: sending on a socket that is not connected: the call reports zero bytes and leaves the socket
  closed, and no byte of the caller's data reaches the chip, but the driver still issues a SEND
  command for the empty transmission before it notices.\<close>

theorem send_disconnected_closes:
  fixes w :: "'a net_scheme"
  assumes "never_full h SPIWR_FIFO_IN_CSR_BASE"
    and "chip.answers (IINCHIP_READ (Sn_CR s) h :: 'a net_scheme \<Rightarrow> _) 0 []"
    and "chip.answers (IINCHIP_READ (Sn_SR s) h :: 'a net_scheme \<Rightarrow> _) st []" and "\<not> connected st"
    and "chip.answers (IINCHIP_READ (Sn_IR s) h :: 'a net_scheme \<Rightarrow> _) ir []"
    and "ir AND Sn_IR_SEND_OK \<noteq> Sn_IR_SEND_OK"
    and "chip.answers (getSn_TX_FSR s h :: 'a net_scheme \<Rightarrow> _) free []"
    and "getIINCHIP_TxMAX s w = Some mx"
  shows "\<exists>evs. send s buf len h w = Some (0, w\<lparr>trace := trace w @ evs\<rparr>) \<and>
    chip_log evs = frames [(Sn_CR s, Sn_CR_SEND)] @ close_frames s"
proof -
  have "chip.answers (\<lambda>w :: 'a net_scheme. do { (ret, w) \<leftarrow> wait_room s (send_len len mx) h w;
      w \<leftarrow> send_data_processing s buf ret h w; w \<leftarrow> chip_command s Sn_CR_SEND h w;
      (ok, w) \<leftarrow> wait_sent s h w;
      if \<not> ok then Some (0, w)
      else do { w \<leftarrow> IINCHIP_WRITE (Sn_IR s) Sn_IR_SEND_OK h w;
        w \<leftarrow> IINCHIP_WRITE (Sn_IR s) Sn_IR_SEND_OK h w; Some (ret, w) } }) 0
    ([] @ [] @ frames [(Sn_CR s, Sn_CR_SEND)] @ close_frames s @ [])"
  proof (rule chip.answers_bind [OF answers_wait_room_closed [OF assms(7,3,4)]],
      rule chip.answers_seq, rule_tac [2] chip.answers_seq [OF does_command [OF assms(1,2)]],
      rule_tac [2] chip.answers_bind [OF answers_wait_sent_closed [OF assms(1,2,5,3,4,6)]])
    show "chip.does (send_data_processing s buf 0 h :: 'a net_scheme \<Rightarrow> _) []"
      by (simp add: send_data_processing_def [abs_def] chip.does_done)
  qed (simp add: chip.answers_done)
  then obtain evs where "send s buf len h w = Some (0, logged w evs)"
      "chip.sees evs (frames [(Sn_CR s, Sn_CR_SEND)] @ close_frames s)"
    using assms(8) chip.answersD
    by (fastforce simp: send_def clip_len_def send_len_def)
  then show ?thesis using sees_log by (force simp: logged_def)
qed

lemma answers_quiet_fsr: "chip.answers (getSn_TX_FSR s (chip_env (\<lambda>_. 0))) 0 []"
proof -
  have "chip.answers (stable_pair a b 0 (chip_env (\<lambda>_. 0))) (reg_pair 0 0) []" for a b
    by (intro answers_stable_pair answers_read_pair chip_env_reads refl)
  then show ?thesis by (simp add: getSn_TX_FSR_def [abs_def] reg_pair_def)
qed

theorem send_disconnected_closes_witness:
  "\<exists>evs. send 4 [1, 2, 3] 3 (chip_env (\<lambda>_. 0)) reset_net =
      Some (0, reset_net\<lparr>trace := trace reset_net @ evs\<rparr>) \<and>
    chip_log evs = frames [(Sn_CR 4, Sn_CR_SEND)] @ close_frames 4"
proof (rule send_disconnected_closes)
  show "never_full (chip_env (\<lambda>_. 0)) SPIWR_FIFO_IN_CSR_BASE" by (rule chip_env_never_full)
  show "chip.answers (getSn_TX_FSR 4 (chip_env (\<lambda>_. 0))) 0 []" by (rule answers_quiet_fsr)
  show "\<not> connected 0" "(0 :: byte) AND Sn_IR_SEND_OK \<noteq> Sn_IR_SEND_OK"
    by (simp_all add: connected_def w5500_vals)
  show "getIINCHIP_TxMAX 4 reset_net = Some 0"
    by (simp add: getIINCHIP_TxMAX_def reset_net_def)
qed (rule chip_env_reads, rule refl)+

end
