(* ===== verification/Spi.thy ===== *)
theory Spi
  imports Bus
begin

unbundle bit_operations_syntax

text \<open>
  The SPI master of the serial flash: \<open>alt_avalon_spi_command\<close> of \<open>altera_avalon_spi.c\<close>, one
  transfer of the Avalon SPI core. The observer \<open>spi_step\<close> reads the core's registers off the trace: the
  transactions finished so far, the bytes clocked out while the chip is selected, and whether a
  received byte waits in \<open>RXDATA\<close>. What the core and the chip behind it do is the hypothesis
  \<open>spi_core\<close>; it bounds no waiting time, it only says that every wait ends.
\<close>

abbreviation (input) "ALTERA_AVALON_SPI_RXDATA_REG \<equiv> 0 :: nat"
abbreviation (input) "ALTERA_AVALON_SPI_TXDATA_REG \<equiv> 1 :: nat"
abbreviation (input) "ALTERA_AVALON_SPI_STATUS_REG \<equiv> 2 :: nat"
abbreviation (input) "ALTERA_AVALON_SPI_CONTROL_REG \<equiv> 3 :: nat"
abbreviation (input) "ALTERA_AVALON_SPI_SLAVE_SEL_REG \<equiv> 5 :: nat"

definition ALTERA_AVALON_SPI_STATUS_TMT_MSK :: uint where "ALTERA_AVALON_SPI_STATUS_TMT_MSK = 0x20"
definition ALTERA_AVALON_SPI_STATUS_TRDY_MSK :: uint where "ALTERA_AVALON_SPI_STATUS_TRDY_MSK = 0x40"
definition ALTERA_AVALON_SPI_STATUS_RRDY_MSK :: uint where "ALTERA_AVALON_SPI_STATUS_RRDY_MSK = 0x80"
definition ALTERA_AVALON_SPI_CONTROL_SSO_MSK :: uint where "ALTERA_AVALON_SPI_CONTROL_SSO_MSK = 0x400"
definition ALT_AVALON_SPI_COMMAND_MERGE :: uint where "ALT_AVALON_SPI_COMMAND_MERGE = 0x01"
definition ALT_AVALON_SPI_COMMAND_TOGGLE_SS_N :: uint where "ALT_AVALON_SPI_COMMAND_TOGGLE_SS_N = 0x02"

lemmas spi_masks = ALTERA_AVALON_SPI_STATUS_TMT_MSK_def ALTERA_AVALON_SPI_STATUS_TRDY_MSK_def
  ALTERA_AVALON_SPI_STATUS_RRDY_MSK_def ALTERA_AVALON_SPI_CONTROL_SSO_MSK_def
  ALT_AVALON_SPI_COMMAND_MERGE_def ALT_AVALON_SPI_COMMAND_TOGGLE_SS_N_def

subsection \<open>One transfer\<close>

partial_function (option) spi_poll :: "int \<Rightarrow> dev \<Rightarrow> env \<Rightarrow> 'a bus_scheme \<Rightarrow> (uint \<times> 'a bus_scheme) option" where
  \<comment> \<open>until the core can take a byte and there is credit for it, or has received one\<close>
  "spi_poll credits base h w = do {
     (status, w) \<leftarrow> iord base ALTERA_AVALON_SPI_STATUS_REG h w;
     if (status AND ALTERA_AVALON_SPI_STATUS_TRDY_MSK = 0 \<or> credits = 0) \<and> status AND ALTERA_AVALON_SPI_STATUS_RRDY_MSK = 0
     then spi_poll credits base h w
     else Some (status, w)
   }"

definition spi_put :: "dev \<Rightarrow> int \<Rightarrow> byte list \<Rightarrow> nat \<Rightarrow> 'a bus_scheme \<Rightarrow> ((int \<times> byte list \<times> nat) \<times> 'a bus_scheme) option" where
  \<comment> \<open>the next byte, or a zero for each byte still to be read, or no more credit\<close>
  "spi_put base credits wr zeros w =
     (case wr of
        b # bs \<Rightarrow> do { w \<leftarrow> iowr base ALTERA_AVALON_SPI_TXDATA_REG (ucast b) w; Some ((credits - 1, bs, zeros), w) }
      | [] \<Rightarrow>
          if zeros > 0
          then do { w \<leftarrow> iowr base ALTERA_AVALON_SPI_TXDATA_REG 0 w; Some ((credits - 1, [], zeros - 1), w) }
          else Some ((-1024, [], zeros), w))"

definition spi_take :: "nat \<Rightarrow> nat \<Rightarrow> byte list \<Rightarrow> uint \<Rightarrow> (nat \<times> byte list) option" where
  \<comment> \<open>a received byte: ignored while the command goes out, then stored; the buffer has room for \<open>n\<close>\<close>
  "spi_take n ignore got rxdata =
     (if ignore > 0 then Some (ignore - 1, got)
      else if length got < n then Some (0, got @ [ucast rxdata]) else None)"

partial_function (option) spi_loop ::
    "dev \<Rightarrow> nat \<Rightarrow> int \<Rightarrow> byte list \<Rightarrow> nat \<Rightarrow> nat \<Rightarrow> byte list \<Rightarrow> env \<Rightarrow> 'a bus_scheme \<Rightarrow> (byte list \<times> 'a bus_scheme) option" where
  \<comment> \<open>\<open>for ( ; ; )\<close>: \<open>wr\<close> and \<open>zeros\<close> are still to be sent, \<open>ignore\<close> bytes still to be dropped, \<open>got\<close>
    are the bytes stored through \<open>read_data\<close>\<close>
  "spi_loop base n credits wr zeros ignore got h w = do {
     (status, w) \<leftarrow> spi_poll credits base h w;
     ((credits, wr, zeros), w) \<leftarrow>
       (if status AND ALTERA_AVALON_SPI_STATUS_TRDY_MSK \<noteq> 0 \<and> credits > 0
        then spi_put base credits wr zeros w else Some ((credits, wr, zeros), w));
     if status AND ALTERA_AVALON_SPI_STATUS_RRDY_MSK \<noteq> 0
     then do {
       (rxdata, w) \<leftarrow> iord base ALTERA_AVALON_SPI_RXDATA_REG h w;
       (ignore, got) \<leftarrow> spi_take n ignore got rxdata;
       if ignore = 0 \<and> length got = n then Some (got, w)
       else spi_loop base n (credits + 1) wr zeros ignore got h w }
     else spi_loop base n credits wr zeros ignore got h w
   }"

partial_function (option) spi_finish :: "dev \<Rightarrow> env \<Rightarrow> 'a bus_scheme \<Rightarrow> 'a bus_scheme option" where
  \<comment> \<open>wait until the interface has finished transmitting\<close>
  "spi_finish base h w = do {
     (status, w) \<leftarrow> iord base ALTERA_AVALON_SPI_STATUS_REG h w;
     if status AND ALTERA_AVALON_SPI_STATUS_TMT_MSK = 0 then spi_finish base h w else Some w
   }"

definition alt_avalon_spi_command ::
    "dev \<Rightarrow> nat \<Rightarrow> byte list \<Rightarrow> nat \<Rightarrow> uint \<Rightarrow> env \<Rightarrow> 'a bus_scheme \<Rightarrow> (byte list \<times> 'a bus_scheme) option" where
  \<comment> \<open>with the result, \<open>read_length\<close>, the bytes stored through \<open>read_data\<close>\<close>
  "alt_avalon_spi_command base slave write_data read_length flags h w = do {
     w \<leftarrow> iowr base ALTERA_AVALON_SPI_SLAVE_SEL_REG (push_bit slave 1) w;
     w \<leftarrow> (if flags AND ALT_AVALON_SPI_COMMAND_TOGGLE_SS_N = 0
       then iowr base ALTERA_AVALON_SPI_CONTROL_REG ALTERA_AVALON_SPI_CONTROL_SSO_MSK w else Some w);
     (_, w) \<leftarrow> iord base ALTERA_AVALON_SPI_RXDATA_REG h w;
     (got, w) \<leftarrow> spi_loop base read_length 1 write_data read_length (length write_data) [] h w;
     w \<leftarrow> spi_finish base h w;
     w \<leftarrow> (if flags AND ALT_AVALON_SPI_COMMAND_MERGE = 0
       then iowr base ALTERA_AVALON_SPI_CONTROL_REG 0 w else Some w);
     Some (got, w)
   }"

subsection \<open>Frame\<close>

lemma keepsv_spi_poll: "keepsv only_trace (spi_poll c b h)"
proof -
  have "\<forall>c b h. keepsv only_trace (spi_poll c b h :: 'a bus_scheme \<Rightarrow> _)"
    by (rule spi_poll.fixp_induct, rule adm_keepsv3, simp add: tr.keepsv_None, intro allI tr_rules, blast)
  then show ?thesis by blast
qed

lemma keeps_spi_finish: "keeps only_trace (spi_finish b h)"
proof -
  have "\<forall>b h. keeps only_trace (spi_finish b h :: 'a bus_scheme \<Rightarrow> _)"
    by (rule spi_finish.fixp_induct, rule adm_keeps2, simp add: tr.keeps_None, intro allI tr_rules, blast)
  then show ?thesis by blast
qed

lemma keepsv_spi_put: "keepsv only_trace (spi_put b c wr z)"
  unfolding spi_put_def by (cases wr; simp only: list.case; intro tr_rules)

lemma keepsv_case_prod: "(\<And>a b. keepsv R (f a b)) \<Longrightarrow> keepsv R (case_prod f x)"
  by (cases x) simp

lemma keepsv_case_pair: "(\<And>a b. keepsv R (f a b)) \<Longrightarrow> keepsv R (\<lambda>w. case x of (a, b) \<Rightarrow> f a b w)"
  by (cases x) simp

lemma keepsv_spi_loop: "keepsv only_trace (spi_loop b n c wr z i g h)"
proof -
  have "(\<lambda>b n c wr z i g h w (y, w'). only_trace w w') b n c wr z i g h w (y, w')"
    if run: "spi_loop b n c wr z i g h w = Some (y, w')" for y and w w' :: "'a bus_scheme"
  proof (rule spi_loop.raw_induct [OF _ run])
    fix again :: "dev \<Rightarrow> nat \<Rightarrow> int \<Rightarrow> byte list \<Rightarrow> nat \<Rightarrow> nat \<Rightarrow> byte list \<Rightarrow> env \<Rightarrow> 'a bus_scheme \<Rightarrow> (byte list \<times> 'a bus_scheme) option"
      and b n c wr z i g h and w :: "'a bus_scheme" and r
    assume IH: "\<And>b n c wr z i g h w r. again b n c wr z i g h w = Some r \<Longrightarrow> (case r of (y, w') \<Rightarrow> only_trace w w')"
    have again: "keepsv only_trace (again b n c wr z i g h)" for b n c wr z i g h
      using IH by (fastforce simp: keepsv_def)
    assume "(do {
     (status, w) \<leftarrow> spi_poll c b h w;
     ((credits, wr, zeros), w) \<leftarrow>
       (if status AND ALTERA_AVALON_SPI_STATUS_TRDY_MSK \<noteq> 0 \<and> c > 0
        then spi_put b c wr z w else Some ((c, wr, z), w));
     if status AND ALTERA_AVALON_SPI_STATUS_RRDY_MSK \<noteq> 0
     then do {
       (rxdata, w) \<leftarrow> iord b ALTERA_AVALON_SPI_RXDATA_REG h w;
       (ignore, got) \<leftarrow> spi_take n i g rxdata;
       if ignore = 0 \<and> length got = n then Some (got, w)
       else again b n (credits + 1) wr zeros ignore got h w }
     else again b n credits wr zeros i g h w }) = Some r"
    moreover have "keepsv only_trace (\<lambda>w. do {
     (status, w) \<leftarrow> spi_poll c b h w;
     ((credits, wr, zeros), w) \<leftarrow>
       (if status AND ALTERA_AVALON_SPI_STATUS_TRDY_MSK \<noteq> 0 \<and> c > 0
        then spi_put b c wr z w else Some ((c, wr, z), w));
     if status AND ALTERA_AVALON_SPI_STATUS_RRDY_MSK \<noteq> 0
     then do {
       (rxdata, w) \<leftarrow> iord b ALTERA_AVALON_SPI_RXDATA_REG h w;
       (ignore, got) \<leftarrow> spi_take n i g rxdata;
       if ignore = 0 \<and> length got = n then Some (got, w)
       else again b n (credits + 1) wr zeros ignore got h w }
     else again b n credits wr zeros i g h w })"
      by (intro tr.keepsv_bind keepsv_case_prod keepsv_case_pair tr.keepsv_if tr.keepsv_pure tr.keepsv_done again
          keepsv_spi_poll keepsv_spi_put keepsv_iord)
    ultimately show "case r of (y, w') \<Rightarrow> only_trace w w'"
      by (cases r) (auto dest: keepsvD)
  qed
  then show ?thesis by (simp add: keepsv_def)
qed

lemma keepsv_spi_command: "keepsv only_trace (alt_avalon_spi_command b s wr n f h)"
  unfolding alt_avalon_spi_command_def by (intro tr_rules keepsv_spi_loop keeps_spi_finish)

subsection \<open>What the core has done\<close>

type_synonym spi_state = "byte list list \<times> byte list option \<times> bool"
  \<comment> \<open>the finished transactions, the bytes of the one in progress, and whether \<open>RXDATA\<close> holds a byte\<close>

fun spi_step :: "spi_state \<Rightarrow> event \<Rightarrow> spi_state" where
  "spi_step (past, cur, full) (Iowr d r v) =
     (if d \<noteq> EPCS_FLASH_REGS then (past, cur, full)
      else if r = ALTERA_AVALON_SPI_TXDATA_REG then (past, map_option (\<lambda>c. c @ [ucast v]) cur, True)
      else if r = ALTERA_AVALON_SPI_CONTROL_REG
      then (if v AND ALTERA_AVALON_SPI_CONTROL_SSO_MSK \<noteq> 0
        then (past, Some (case cur of None \<Rightarrow> [] | Some c \<Rightarrow> c), full)
        else (case cur of None \<Rightarrow> (past, None, full) | Some c \<Rightarrow> (past @ [c], None, full)))
      else (past, cur, full))"
| "spi_step (past, cur, full) (Iord d r) = (past, cur, full \<and> \<not> (d = EPCS_FLASH_REGS \<and> r = ALTERA_AVALON_SPI_RXDATA_REG))"
| "spi_step m (Spin n) = m"

interpretation spi: observer spi_step "\<lambda>pre. (pre, None, False)"
  by unfold_locales (case_tac m, simp)

definition spi_seen :: "event list \<Rightarrow> spi_state" where
  "spi_seen evs = foldl spi_step ([], None, False) evs"

lemma spi_seen_append: "spi_seen (evs @ es) = foldl spi_step (spi_seen evs) es"
  by (simp add: spi_seen_def)

definition spi_status :: "env \<Rightarrow> event list \<Rightarrow> nat \<Rightarrow> uint" where
  \<comment> \<open>the status register after \<open>k\<close> more readings\<close>
  "spi_status h tr k = rd h (tr @ replicate k (Iord EPCS_FLASH_REGS ALTERA_AVALON_SPI_STATUS_REG))
     EPCS_FLASH_REGS ALTERA_AVALON_SPI_STATUS_REG"

definition spi_core :: "env \<Rightarrow> (byte list list \<Rightarrow> byte list \<Rightarrow> byte) \<Rightarrow> bool" where
  \<comment> \<open>the core accepts a byte once the last one has been read back; a byte that was sent brings one
    back, which is what the chip answers, given its history; transmission comes to an end\<close>
  "spi_core h miso \<longleftrightarrow> (\<forall>tr past cur full. spi_seen tr = (past, Some cur, full) \<longrightarrow>
     (\<exists>k. (if full then spi_status h tr k AND ALTERA_AVALON_SPI_STATUS_RRDY_MSK \<noteq> 0
           else spi_status h tr k AND ALTERA_AVALON_SPI_STATUS_TRDY_MSK \<noteq> 0 \<and>
             spi_status h tr k AND ALTERA_AVALON_SPI_STATUS_RRDY_MSK = 0) \<and>
       (\<forall>j<k. spi_status h tr j AND ALTERA_AVALON_SPI_STATUS_RRDY_MSK = 0 \<and>
         (full \<or> spi_status h tr j AND ALTERA_AVALON_SPI_STATUS_TRDY_MSK = 0))) \<and>
     (\<exists>k. spi_status h tr k AND ALTERA_AVALON_SPI_STATUS_TMT_MSK \<noteq> 0) \<and>
     (full \<longrightarrow> ucast (rd h tr EPCS_FLASH_REGS ALTERA_AVALON_SPI_RXDATA_REG) = miso past cur))"

abbreviation polls :: "nat \<Rightarrow> event list" where
  "polls k \<equiv> replicate k (Iord EPCS_FLASH_REGS ALTERA_AVALON_SPI_STATUS_REG)"

lemma polls_seen [simp]: "foldl spi_step m (polls k) = m"
  by (induction k; cases m; simp)

lemma spi_status_Suc:
  "spi_status h (trace (logged w [Iord EPCS_FLASH_REGS ALTERA_AVALON_SPI_STATUS_REG])) k = spi_status h (trace w) (Suc k)"
  by (simp add: spi_status_def)

definition poll_ends :: "int \<Rightarrow> uint \<Rightarrow> bool" where
  "poll_ends credits s \<longleftrightarrow> s AND ALTERA_AVALON_SPI_STATUS_TRDY_MSK \<noteq> 0 \<and> credits \<noteq> 0 \<or>
     s AND ALTERA_AVALON_SPI_STATUS_RRDY_MSK \<noteq> 0"

lemma spi_poll_eq:
  "spi_poll credits EPCS_FLASH_REGS h w =
     (if poll_ends credits (spi_status h (trace w) 0) then Some (spi_status h (trace w) 0, logged w (polls 1))
      else spi_poll credits EPCS_FLASH_REGS h (logged w (polls 1)))"
  by (subst spi_poll.simps) (auto simp: spi_status_def poll_ends_def)

lemma spi_poll_waits:
  assumes "poll_ends credits (spi_status h (trace w) k)" and "\<forall>j<k. \<not> poll_ends credits (spi_status h (trace w) j)"
  shows "spi_poll credits EPCS_FLASH_REGS h w = Some (spi_status h (trace w) k, logged w (polls (Suc k)))"
  using assms
proof (induction k arbitrary: w)
  case 0
  then show ?case by (subst spi_poll_eq) simp
next
  case (Suc k)
  let ?w = "logged w (polls 1)"
  have st: "spi_status h (trace ?w) j = spi_status h (trace w) (Suc j)" for j
    using spi_status_Suc by simp
  have "spi_poll credits EPCS_FLASH_REGS h w = spi_poll credits EPCS_FLASH_REGS h ?w"
    using Suc.prems(2) by (subst spi_poll_eq) simp
  also have "\<dots> = Some (spi_status h (trace ?w) k, logged ?w (polls (Suc k)))"
    by (rule Suc.IH) (use Suc.prems in \<open>simp_all only: st Suc_less_eq\<close>, blast)
  finally show ?case unfolding st by simp
qed

lemma spi_finish_waits:
  assumes "spi_status h (trace w) k AND ALTERA_AVALON_SPI_STATUS_TMT_MSK \<noteq> 0"
  shows "\<exists>m. spi_finish EPCS_FLASH_REGS h w = Some (logged w (polls m))"
  using assms
proof (induction k arbitrary: w)
  case 0
  then show ?case
    by (intro exI [of _ 1], subst spi_finish.simps) (simp add: spi_status_def)
next
  case (Suc k)
  let ?w = "logged w [Iord EPCS_FLASH_REGS ALTERA_AVALON_SPI_STATUS_REG]"
  have "spi_status h (trace ?w) k AND ALTERA_AVALON_SPI_STATUS_TMT_MSK \<noteq> 0"
    using Suc.prems by (simp only: spi_status_Suc not_False_eq_True)
  then obtain m where m: "spi_finish EPCS_FLASH_REGS h ?w = Some (logged ?w (polls m))"
    using Suc.IH by blast
  show ?case
  proof (cases "spi_status h (trace w) 0 AND ALTERA_AVALON_SPI_STATUS_TMT_MSK = 0")
    case True
    then have "spi_finish EPCS_FLASH_REGS h w = spi_finish EPCS_FLASH_REGS h ?w"
      by (subst spi_finish.simps) (simp add: spi_status_def)
    then show ?thesis using m by (intro exI [of _ "Suc m"]) simp
  next
    case False
    then show ?thesis by (intro exI [of _ 1], subst spi_finish.simps) (simp add: spi_status_def)
  qed
qed

subsection \<open>A byte goes out and one comes back\<close>

lemma masks_single: "ALTERA_AVALON_SPI_CONTROL_SSO_MSK \<noteq> 0"
  by (simp add: spi_masks)

lemma spi_core_ends:
  "spi_core h miso \<Longrightarrow> spi_seen tr = (past, Some cur, full) \<Longrightarrow> \<exists>k. spi_status h tr k AND ALTERA_AVALON_SPI_STATUS_TMT_MSK \<noteq> 0"
  unfolding spi_core_def by blast

lemma spi_idle_wait:
  assumes "spi_core h miso" and "spi_seen (trace w) = (past, Some cur, False)" and "credits \<noteq> 0"
  shows "\<exists>m s. spi_poll credits EPCS_FLASH_REGS h w = Some (s, logged w (polls m)) \<and>
    s AND ALTERA_AVALON_SPI_STATUS_TRDY_MSK \<noteq> 0 \<and> s AND ALTERA_AVALON_SPI_STATUS_RRDY_MSK = 0"
proof -
  obtain k where k: "spi_status h (trace w) k AND ALTERA_AVALON_SPI_STATUS_TRDY_MSK \<noteq> 0"
      "spi_status h (trace w) k AND ALTERA_AVALON_SPI_STATUS_RRDY_MSK = 0"
      "\<forall>j<k. \<not> poll_ends credits (spi_status h (trace w) j)"
    using assms unfolding spi_core_def poll_ends_def by (metis (no_types, lifting))
  then have "poll_ends credits (spi_status h (trace w) k)" using assms(3) by (simp add: poll_ends_def)
  from spi_poll_waits [OF this k(3)] show ?thesis using k(1,2) by blast
qed

lemma spi_full_wait:
  assumes "spi_core h miso" and "spi_seen (trace w) = (past, Some cur, True)"
  shows "\<exists>m s. spi_poll 0 EPCS_FLASH_REGS h w = Some (s, logged w (polls m)) \<and> s AND ALTERA_AVALON_SPI_STATUS_RRDY_MSK \<noteq> 0"
proof -
  obtain k where k: "spi_status h (trace w) k AND ALTERA_AVALON_SPI_STATUS_RRDY_MSK \<noteq> 0"
      "\<forall>j<k. \<not> poll_ends 0 (spi_status h (trace w) j)"
    using assms unfolding spi_core_def poll_ends_def by (metis (no_types, lifting))
  then have "poll_ends 0 (spi_status h (trace w) k)" by (simp add: poll_ends_def)
  from spi_poll_waits [OF this k(2)] show ?thesis using k(1) by blast
qed

definition to_send :: "byte list \<Rightarrow> nat \<Rightarrow> byte list" where
  "to_send wr zeros = wr @ replicate zeros 0"

lemma spi_put_next:
  assumes "to_send wr zeros = b # rest"
  shows "\<exists>wr' zeros'. spi_put EPCS_FLASH_REGS 1 wr zeros w =
      Some ((0, wr', zeros'), logged w [Iowr EPCS_FLASH_REGS ALTERA_AVALON_SPI_TXDATA_REG (ucast b)]) \<and> to_send wr' zeros' = rest"
  using assms by (cases wr; cases zeros) (auto simp: spi_put_def to_send_def)

lemma byte_uint_byte: "(ucast (ucast b :: uint) :: byte) = b"
  by (rule bit_word_eqI) (simp add: bit_simps)

lemma spi_round:
  assumes "spi_core h miso" and "spi_seen (trace w) = (past, Some cur, False)" and "to_send wr zeros = b # rest"
  shows "\<exists>evs wr' zeros'. to_send wr' zeros' = rest \<and> spi_seen (trace w @ evs) = (past, Some (cur @ [b]), False) \<and>
    spi_loop EPCS_FLASH_REGS n 1 wr zeros ignore got h w = do {
      (ignore, got) \<leftarrow> (if ignore > 0 then Some (ignore - 1, got)
        else if length got < n then Some (0, got @ [miso past (cur @ [b])]) else None);
      if ignore = 0 \<and> length got = n then Some (got, logged w evs)
      else spi_loop EPCS_FLASH_REGS n 1 wr' zeros' ignore got h (logged w evs) }"
proof -
  obtain m s where 1: "spi_poll 1 EPCS_FLASH_REGS h w = Some (s, logged w (polls m))"
    "s AND ALTERA_AVALON_SPI_STATUS_TRDY_MSK \<noteq> 0" "s AND ALTERA_AVALON_SPI_STATUS_RRDY_MSK = 0"
    using spi_idle_wait [OF assms(1,2), of 1] by auto
  obtain wr' zeros' where put: "spi_put EPCS_FLASH_REGS 1 wr zeros (logged w (polls m)) = Some ((0, wr', zeros'),
      logged (logged w (polls m)) [Iowr EPCS_FLASH_REGS ALTERA_AVALON_SPI_TXDATA_REG (ucast b)])" and rest: "to_send wr' zeros' = rest"
    using spi_put_next [OF assms(3)] by blast
  let ?v = "logged w (polls m @ [Iowr EPCS_FLASH_REGS ALTERA_AVALON_SPI_TXDATA_REG (ucast b)])"
  have full: "spi_seen (trace ?v) = (past, Some (cur @ [b]), True)"
    using assms(2) by (simp add: spi_seen_append byte_uint_byte)
  then obtain k t where 2: "spi_poll 0 EPCS_FLASH_REGS h ?v = Some (t, logged ?v (polls k))"
    "t AND ALTERA_AVALON_SPI_STATUS_RRDY_MSK \<noteq> 0"
    using spi_full_wait [OF assms(1)] by blast
  let ?u = "logged ?v (polls k)"
  have "spi_seen (trace ?u) = (past, Some (cur @ [b]), True)"
    using full by (simp add: spi_seen_append)
  then have rx: "ucast (rd h (trace ?u) EPCS_FLASH_REGS ALTERA_AVALON_SPI_RXDATA_REG) = miso past (cur @ [b])"
    using assms(1) unfolding spi_core_def by blast
  let ?evs = "polls m @ [Iowr EPCS_FLASH_REGS ALTERA_AVALON_SPI_TXDATA_REG (ucast b)] @ polls k @
    [Iord EPCS_FLASH_REGS ALTERA_AVALON_SPI_RXDATA_REG]"
  have "spi_loop EPCS_FLASH_REGS n 1 wr zeros ignore got h w = spi_loop EPCS_FLASH_REGS n 0 wr' zeros' ignore got h ?v"
    by (subst spi_loop.simps) (simp add: 1 put)
  also have "\<dots> = do {
      (ignore, got) \<leftarrow> spi_take n ignore got (rd h (trace ?u) EPCS_FLASH_REGS ALTERA_AVALON_SPI_RXDATA_REG);
      if ignore = 0 \<and> length got = n then Some (got, logged w ?evs)
      else spi_loop EPCS_FLASH_REGS n 1 wr' zeros' ignore got h (logged w ?evs) }"
    by (subst spi_loop.simps) (simp add: 2 cong: if_cong del: One_nat_def)
  finally show ?thesis
    using rest full by (intro exI [of _ ?evs] exI [of _ wr'] exI [of _ zeros'])
      (simp add: spi_take_def rx [simplified] spi_seen_append)
qed

lemma spi_loop_sends:
  assumes "spi_core h miso" and "spi_seen (trace w) = (past, Some cur, False)" and "to_send wr zeros = out" and "out \<noteq> []"
    and "ignore + n = length got + length out" and "length got \<le> n" and "0 < ignore \<Longrightarrow> got = []"
  shows "\<exists>evs. spi_seen (trace w @ evs) = (past, Some (cur @ out), False) \<and>
    spi_loop EPCS_FLASH_REGS n 1 wr zeros ignore got h w =
      Some (got @ drop ignore (map (\<lambda>i. miso past (cur @ take (Suc i) out)) [0..<length out]), logged w evs)"
  using assms(2-7)
proof (induction out arbitrary: w cur wr zeros ignore got)
  case Nil
  then show ?case by simp
next
  case (Cons b rest)
  obtain evs wr' zeros' where rest: "to_send wr' zeros' = rest" and seen: "spi_seen (trace w @ evs) = (past, Some (cur @ [b]), False)"
    and loop: "spi_loop EPCS_FLASH_REGS n 1 wr zeros ignore got h w = do {
      (ignore, got) \<leftarrow> (if ignore > 0 then Some (ignore - 1, got)
        else if length got < n then Some (0, got @ [miso past (cur @ [b])]) else None);
      if ignore = 0 \<and> length got = n then Some (got, logged w evs)
      else spi_loop EPCS_FLASH_REGS n 1 wr' zeros' ignore got h (logged w evs) }"
    using spi_round [OF assms(1) Cons.prems(1,2)] by meson
  define got' where "got' = (if ignore > 0 then got else got @ [miso past (cur @ [b])])"
  have len: "ignore - 1 + n = length got' + length rest" "length got' \<le> n" "0 < ignore - 1 \<Longrightarrow> got' = []"
    and room: "ignore > 0 \<or> length got < n"
    using Cons.prems(4-6) by (auto simp: got'_def)
  have step: "spi_loop EPCS_FLASH_REGS n 1 wr zeros ignore got h w =
     (if ignore - 1 = 0 \<and> length got' = n then Some (got', logged w evs)
      else spi_loop EPCS_FLASH_REGS n 1 wr' zeros' (ignore - 1) got' h (logged w evs))"
    using room unfolding loop by (auto simp: got'_def)
  have answers: "got @ drop ignore (map (\<lambda>i. miso past (cur @ take (Suc i) (b # rest))) [0..<length (b # rest)]) =
      got' @ drop (ignore - 1) (map (\<lambda>i. miso past ((cur @ [b]) @ take (Suc i) rest)) [0..<length rest])"
    by (cases ignore) (simp_all add: got'_def upt_conv_Cons map_Suc_upt [symmetric] o_def del: upt_Suc)
  show ?case
  proof (cases "rest = []")
    case True
    then have "ignore - 1 = 0 \<and> length got' = n"
      using len by (cases "0 < ignore - 1") auto
    then show ?thesis
      using step seen answers True by (intro exI [of _ evs]) simp
  next
    case False
    have again: "\<not> (ignore - 1 = 0 \<and> length got' = n)" using len(1) False by auto
    obtain e where "spi_seen (trace (logged w evs) @ e) = (past, Some ((cur @ [b]) @ rest), False)"
      "spi_loop EPCS_FLASH_REGS n 1 wr' zeros' (ignore - 1) got' h (logged w evs) =
        Some (got' @ drop (ignore - 1) (map (\<lambda>i. miso past ((cur @ [b]) @ take (Suc i) rest)) [0..<length rest]), logged (logged w evs) e)"
      using Cons.IH [of "logged w evs" "cur @ [b]" wr' zeros' "ignore - 1" got'] seen rest False len by auto
    then show ?thesis
      using step [unfolded if_not_P [OF again]] unfolding answers by (intro exI [of _ "evs @ e"]) simp
  qed
qed

text \<open>What one call of the master does: the chip is selected, or stays selected, exactly the bytes of
  the command and a zero for each byte to be read go out, what the chip answered behind the command is stored, and
  the chip is released unless the caller goes on with it.\<close>

lemma spi_command_transfers:
  assumes "spi_core h miso" and "spi_seen (trace w) = (past, cur, full)" and "wr @ replicate n 0 \<noteq> []"
    and "f AND ALT_AVALON_SPI_COMMAND_TOGGLE_SS_N = 0"
  defines "c \<equiv> (case cur of None \<Rightarrow> [] | Some c \<Rightarrow> c)"
  shows "\<exists>evs. alt_avalon_spi_command EPCS_FLASH_REGS s wr n f h w =
      Some (map (\<lambda>i. miso past (c @ wr @ replicate (Suc i) 0)) [0..<n], logged w evs) \<and>
    spi_seen (trace w @ evs) = (if f AND ALT_AVALON_SPI_COMMAND_MERGE = 0 then (past @ [c @ wr @ replicate n 0], None, False)
      else (past, Some (c @ wr @ replicate n 0), False))"
proof -
  let ?open = "[Iowr EPCS_FLASH_REGS ALTERA_AVALON_SPI_SLAVE_SEL_REG (push_bit s 1),
    Iowr EPCS_FLASH_REGS ALTERA_AVALON_SPI_CONTROL_REG ALTERA_AVALON_SPI_CONTROL_SSO_MSK, Iord EPCS_FLASH_REGS ALTERA_AVALON_SPI_RXDATA_REG]"
  let ?out = "wr @ replicate n 0"
  have "spi_seen (trace (logged w ?open)) = (past, Some c, False)"
    using assms(2) by (simp add: spi_seen_append masks_single c_def)
  from spi_loop_sends [OF assms(1) this _ assms(3), of wr n "length wr" n "[]"]
  obtain evs where seen: "spi_seen (trace (logged w ?open) @ evs) = (past, Some (c @ ?out), False)"
    and loop: "spi_loop EPCS_FLASH_REGS n 1 wr n (length wr) [] h (logged w ?open) =
      Some (drop (length wr) (map (\<lambda>i. miso past (c @ take (Suc i) ?out)) [0..<length ?out]), logged (logged w ?open) evs)"
    by (auto simp: to_send_def)
  have rx: "drop (length wr) (map (\<lambda>i. miso past (c @ take (Suc i) ?out)) [0..<length ?out]) =
      map (\<lambda>i. miso past (c @ wr @ replicate (Suc i) 0)) [0..<n]"
    by (rule nth_equalityI) (auto simp: Suc_diff_le simp del: replicate_Suc)
  obtain k where "spi_status h (trace (logged (logged w ?open) evs)) k AND ALTERA_AVALON_SPI_STATUS_TMT_MSK \<noteq> 0"
    using spi_core_ends [OF assms(1) seen] by auto
  then obtain m where fin: "spi_finish EPCS_FLASH_REGS h (logged (logged w ?open) evs) = Some (logged (logged (logged w ?open) evs) (polls m))"
    using spi_finish_waits by blast
  define close where "close = (if f AND ALT_AVALON_SPI_COMMAND_MERGE = 0 then [Iowr EPCS_FLASH_REGS ALTERA_AVALON_SPI_CONTROL_REG 0] else [])"
  have "alt_avalon_spi_command EPCS_FLASH_REGS s wr n f h w =
      Some (map (\<lambda>i. miso past (c @ wr @ replicate (Suc i) 0)) [0..<n], logged w (?open @ evs @ polls m @ close))"
    unfolding alt_avalon_spi_command_def using assms(4) loop fin rx by (simp add: close_def)
  moreover have "spi_seen (trace w @ (?open @ evs @ polls m @ close)) =
      (if f AND ALT_AVALON_SPI_COMMAND_MERGE = 0 then (past @ [c @ ?out], None, False) else (past, Some (c @ ?out), False))"
    using seen by (simp add: spi_seen_append close_def)
  ultimately show ?thesis by blast
qed

end
