(* ===== verification/EpcsFlash.thy ===== *)
theory EpcsFlash
  imports Spi
begin

unbundle bit_operations_syntax

text \<open>
  The driver of the serial configuration flash, in which the firmware image of a remote update
  is stored: the commands of \<open>epcs_commands.c\<close> and the device operations of
  \<open>altera_avalon_epcs_flash_controller.c\<close>, down to the transfers of the SPI master. The chip
  itself is not modelled: it is the parameter \<open>miso\<close> of \<open>spi_core\<close>, the byte it answers after a
  history of transactions.
\<close>

subsection \<open>Commands of the chip (\<open>epcs_commands.c\<close>)\<close>

definition epcs_read :: byte where "epcs_read = 0x03"
definition epcs_pp :: byte where "epcs_pp = 0x02"
definition epcs_wren :: byte where "epcs_wren = 0x06"
definition epcs_rdsr :: byte where "epcs_rdsr = 0x05"
definition epcs_wrsr :: byte where "epcs_wrsr = 0x01"
definition epcs_se :: byte where "epcs_se = 0xD8"
definition epcs_res :: byte where "epcs_res = 0xAB"
definition epcs_rdid :: byte where "epcs_rdid = 0x9F"
definition epcs_en4b :: byte where "epcs_en4b = 0xB7"
definition epcs_dis4b :: byte where "epcs_dis4b = 0xE9"

lemmas epcs_codes = epcs_read_def epcs_pp_def epcs_wren_def epcs_rdsr_def epcs_wrsr_def epcs_se_def
  epcs_res_def epcs_rdid_def epcs_en4b_def epcs_dis4b_def

definition spi_write :: "dev \<Rightarrow> byte list \<Rightarrow> uint \<Rightarrow> env \<Rightarrow> 'a bus_scheme \<Rightarrow> 'a bus_scheme option" where
  \<comment> \<open>\<open>alt_avalon_spi_command\<close> with nothing to read\<close>
  "spi_write base bs flags h w = do { (_, w) \<leftarrow> alt_avalon_spi_command base 0 bs 0 flags h w; Some w }"

definition epcs_write_enable :: "dev \<Rightarrow> env \<Rightarrow> 'a bus_scheme \<Rightarrow> 'a bus_scheme option" where
  "epcs_write_enable base h w = spi_write base [epcs_wren] 0 h w"

definition epcs_enter_4_bytes_mode :: "dev \<Rightarrow> env \<Rightarrow> 'a bus_scheme \<Rightarrow> 'a bus_scheme option" where
  "epcs_enter_4_bytes_mode base h w = do {
     w \<leftarrow> epcs_write_enable base h w;
     spi_write base [epcs_en4b] 0 h w
   }"

definition epcs_exit_4_bytes_mode :: "dev \<Rightarrow> env \<Rightarrow> 'a bus_scheme \<Rightarrow> 'a bus_scheme option" where
  "epcs_exit_4_bytes_mode base h w = do {
     w \<leftarrow> epcs_write_enable base h w;
     spi_write base [epcs_dis4b] 0 h w
   }"

definition epcs_read_status_register :: "dev \<Rightarrow> env \<Rightarrow> 'a bus_scheme \<Rightarrow> (byte \<times> 'a bus_scheme) option" where
  "epcs_read_status_register base h w = do {
     (status, w) \<leftarrow> alt_avalon_spi_command base 0 [epcs_rdsr] 1 0 h w;
     b \<leftarrow> arr_get status 0;
     Some (b, w)
   }"

definition epcs_test_wip :: "dev \<Rightarrow> env \<Rightarrow> 'a bus_scheme \<Rightarrow> (bool \<times> 'a bus_scheme) option" where
  "epcs_test_wip base h w = do {
     (status, w) \<leftarrow> epcs_read_status_register base h w;
     Some (status AND 1 \<noteq> 0, w)
   }"

partial_function (option) epcs_await_wip_released :: "dev \<Rightarrow> env \<Rightarrow> 'a bus_scheme \<Rightarrow> 'a bus_scheme option" where
  "epcs_await_wip_released base h w = do {
     (wip, w) \<leftarrow> epcs_test_wip base h w;
     if wip then epcs_await_wip_released base h w else Some w
   }"

definition epcs_address :: "uint \<Rightarrow> int \<Rightarrow> byte list" where
  \<comment> \<open>\<open>(offset >> n) & 0xFF\<close>, four bytes or three\<close>
  "epcs_address four offset =
     (let b = \<lambda>n. word_of_int (drop_bit n offset AND 0xFF)
      in if four \<noteq> 0 then [b 24, b 16, b 8, b 0] else [b 16, b 8, b 0])"

definition epcs_sector_erase :: "dev \<Rightarrow> uint \<Rightarrow> uint \<Rightarrow> env \<Rightarrow> 'a bus_scheme \<Rightarrow> 'a bus_scheme option" where
  "epcs_sector_erase base offset four h w = do {
     let se = epcs_se # epcs_address four (uint offset);
     w \<leftarrow> (if four \<noteq> 0 then epcs_enter_4_bytes_mode base h w else Some w);
     w \<leftarrow> epcs_write_enable base h w;
     w \<leftarrow> spi_write base se 0 h w;
     w \<leftarrow> epcs_await_wip_released base h w;
     if four \<noteq> 0 then epcs_exit_4_bytes_mode base h w else Some w
   }"

definition epcs_read_buffer :: "dev \<Rightarrow> int \<Rightarrow> nat \<Rightarrow> uint \<Rightarrow> env \<Rightarrow> 'a bus_scheme \<Rightarrow> ((int \<times> byte list) \<times> 'a bus_scheme) option" where
  \<comment> \<open>the returned length and what has been stored at \<open>dest_addr\<close>\<close>
  "epcs_read_buffer base offset len four h w = do {
     let read_command = epcs_read # epcs_address four offset;
     w \<leftarrow> (if four \<noteq> 0 then epcs_enter_4_bytes_mode base h w else Some w);
     w \<leftarrow> epcs_await_wip_released base h w;
     (bs, w) \<leftarrow> alt_avalon_spi_command base 0 read_command len 0 h w;
     w \<leftarrow> (if four \<noteq> 0 then epcs_exit_4_bytes_mode base h w else Some w);
     Some ((int len, bs), w)
   }"

definition epcs_write_status_register :: "dev \<Rightarrow> byte \<Rightarrow> env \<Rightarrow> 'a bus_scheme \<Rightarrow> 'a bus_scheme option" where
  "epcs_write_status_register base val h w = do {
     w \<leftarrow> spi_write base [epcs_wrsr, val] 0 h w;
     epcs_await_wip_released base h w
   }"

definition epcs_write_buffer :: "dev \<Rightarrow> int \<Rightarrow> byte list \<Rightarrow> uint \<Rightarrow> env \<Rightarrow> 'a bus_scheme \<Rightarrow> (int \<times> 'a bus_scheme) option" where
  "epcs_write_buffer base offset src four h w = do {
     let pp = epcs_pp # epcs_address four offset;
     w \<leftarrow> (if four \<noteq> 0 then epcs_enter_4_bytes_mode base h w else Some w);
     w \<leftarrow> epcs_write_enable base h w;
     w \<leftarrow> spi_write base pp ALT_AVALON_SPI_COMMAND_MERGE h w;
     w \<leftarrow> spi_write base src 0 h w;
     w \<leftarrow> epcs_await_wip_released base h w;
     w \<leftarrow> (if four \<noteq> 0 then epcs_exit_4_bytes_mode base h w else Some w);
     Some (int (length src), w)
   }"

definition epcs_read_electronic_signature :: "dev \<Rightarrow> env \<Rightarrow> 'a bus_scheme \<Rightarrow> (byte \<times> 'a bus_scheme) option" where
  "epcs_read_electronic_signature base h w = do {
     (res, w) \<leftarrow> alt_avalon_spi_command base 0 [epcs_res, 0, 0, 0] 1 0 h w;
     b \<leftarrow> arr_get res 0;
     Some (b, w)
   }"

definition epcs_read_device_id :: "dev \<Rightarrow> env \<Rightarrow> 'a bus_scheme \<Rightarrow> (uint \<times> 'a bus_scheme) option" where
  "epcs_read_device_id base h w = do {
     (ids, w) \<leftarrow> alt_avalon_spi_command base 0 [epcs_rdid] 3 0 h w;
     a \<leftarrow> arr_get ids 0;
     b \<leftarrow> arr_get ids 1;
     c \<leftarrow> arr_get ids 2;
     Some (push_bit 16 (ucast a) OR push_bit 8 (ucast b) OR ucast c, w)
   }"

subsection \<open>The device (\<open>altera_avalon_epcs_flash_controller.c\<close>)\<close>

record flash_region =
  r_offset :: int
  region_size :: int
  number_of_blocks :: int
  block_size :: int

record alt_flash_epcs_dev =
  \<comment> \<open>the members of \<open>dev\<close> that hold data, then the driver's own\<close>
  fd_name :: string
  number_of_regions :: int
  region_info :: "flash_region list"
  register_base :: dev
  size_in_bytes :: uint
  silicon_id :: uint
  page_size :: uint
  four_bytes_mode :: uint

definition EIO :: int where "EIO = 5"
definition ENOMEM :: int where "ENOMEM = 12"
definition ENODEV :: int where "ENODEV = 19"
definition ALT_MAX_NUMBER_OF_FLASH_REGIONS :: nat where "ALT_MAX_NUMBER_OF_FLASH_REGIONS = 8"

definition signature_geometry :: "uint \<Rightarrow> (int \<times> int \<times> int) option" where
  \<comment> \<open>size, number and size of the blocks of the chips the electronic signature tells apart\<close>
  "signature_geometry k =
     (if k = 0x16 then Some (64 * 1024 * 1024 div 8, 128, 65536)
      else if k = 0x14 then Some (16 * 1024 * 1024 div 8, 32, 65536)
      else if k = 0x13 then Some (8 * 1024 * 1024 div 8, 16, 65536)
      else if k = 0x12 then Some (4 * 1024 * 1024 div 8, 8, 65536)
      else if k = 0x10 then Some (1 * 1024 * 1024 div 8, 4, 32768)
      else None)"

definition device_geometry :: "uint \<Rightarrow> ((int \<times> int \<times> int) \<times> uint) option" where
  \<comment> \<open>the chips known by their device id, with the address mode\<close>
  "device_geometry k =
     (if k AND 0xFFFFFF = 0x20BA15 then Some ((16 * 1024 * 1024 div 8, 32, 65536), 0)
      else if k AND 0xFFFFFF = 0x20BA16 then Some ((32 * 1024 * 1024 div 8, 64, 65536), 0)
      else if k AND 0xFFFFFF = 0xEF4016 then Some ((32 * 1024 * 1024 div 8, 64, 65536), 0)
      else if k AND 0xFFFFFF = 0xC22016 then Some ((32 * 1024 * 1024 div 8, 64, 65536), 0)
      else if k AND 0xFFFFFF = 0x20BA17 then Some ((64 * 1024 * 1024 div 8, 128, 65536), 0)
      else if k AND 0xFFFFFF = 0x20BA18 then Some ((128 * 1024 * 1024 div 8, 256, 65536), 0)
      else if k AND 0xFF = 0x18 then Some ((128 * 1024 * 1024 div 8, 64, 262144), 0)
      else if k AND 0xFF = 0x19 then Some ((256 * 1024 * 1024 div 8, 512, 65536), 1)
      else if k AND 0xFF = 0x20 then Some ((512 * 1024 * 1024 div 8, 1024, 65536), 1)
      else if k AND 0xFF = 0x21 then Some ((1024 * 1024 * 1024 div 8, 2048, 65536), 1)
      else None)"

definition on_region0 :: "(flash_region \<Rightarrow> flash_region) \<Rightarrow> alt_flash_epcs_dev \<Rightarrow> alt_flash_epcs_dev" where
  "on_region0 f flash = flash\<lparr>region_info := (region_info flash)[0 := f (region_info flash ! 0)]\<rparr>"

definition set_geometry :: "int \<times> int \<times> int \<Rightarrow> alt_flash_epcs_dev \<Rightarrow> alt_flash_epcs_dev" where
  "set_geometry g = on_region0 (\<lambda>r. case g of (bytes, blocks, block) \<Rightarrow>
     r\<lparr>region_size := bytes, number_of_blocks := blocks, block_size := block\<rparr>)"

definition alt_epcs_flash_query ::
    "alt_flash_epcs_dev \<Rightarrow> env \<Rightarrow> 'a bus_scheme \<Rightarrow> ((int \<times> alt_flash_epcs_dev) \<times> 'a bus_scheme) option" where
  "alt_epcs_flash_query flash h w = do {
     let flash = flash\<lparr>four_bytes_mode := 0\<rparr>;
     (sig, w) \<leftarrow> epcs_read_electronic_signature (register_base flash) h w;
     let flash = flash\<lparr>silicon_id := ucast sig\<rparr>;
     ((ret_code, flash), w) \<leftarrow>
       (case signature_geometry (silicon_id flash) of
          Some g \<Rightarrow> Some ((0, set_geometry g flash), w)
        | None \<Rightarrow> do {
            (k, w) \<leftarrow> epcs_read_device_id (register_base flash) h w;
            let flash = flash\<lparr>silicon_id := k\<rparr>;
            case device_geometry (silicon_id flash) of
              Some (g, four) \<Rightarrow> Some ((0, (set_geometry g flash)\<lparr>four_bytes_mode := four\<rparr>), w)
            | None \<Rightarrow> Some ((- ENODEV, flash), w) });
     let flash = flash\<lparr>size_in_bytes := word_of_int (region_size (region_info flash ! 0)), number_of_regions := 1\<rparr>;
     let flash = on_region0 (\<lambda>r. r\<lparr>r_offset := 0\<rparr>) flash;
     Some ((ret_code, flash\<lparr>page_size := 256\<rparr>), w)
   }"

definition alt_epcs_test_address :: "alt_flash_epcs_dev \<Rightarrow> int \<Rightarrow> int option" where
  \<comment> \<open>the comparison is unsigned\<close>
  "alt_epcs_test_address f offset = do {
     let last_region_index = (word_of_int (number_of_regions f) - 1 :: uint);
     r \<leftarrow> arr_get (region_info f) (unat last_region_index);
     let last_device_address = (word_of_int (-1 + r_offset r + region_size r) :: uint);
     Some (if word_of_int offset > last_device_address then - EIO else 0)
   }"

definition alt_epcs_flash_erase_block :: "alt_flash_epcs_dev \<Rightarrow> int \<Rightarrow> env \<Rightarrow> 'a bus_scheme \<Rightarrow> (int \<times> 'a bus_scheme) option" where
  "alt_epcs_flash_erase_block f block_offset h w = do {
     ret_code \<leftarrow> alt_epcs_test_address f block_offset;
     if ret_code \<ge> 0
     then do {
       w \<leftarrow> epcs_sector_erase (register_base f) (word_of_int block_offset) (four_bytes_mode f) h w;
       Some (ret_code, w) }
     else Some (ret_code, w)
   }"

definition next_page_start :: "alt_flash_epcs_dev \<Rightarrow> int \<Rightarrow> int" where
  \<comment> \<open>\<open>(data_offset + f->page_size) & ~(f->page_size - 1)\<close> in unsigned arithmetic\<close>
  "next_page_start f data_offset = sint ((word_of_int data_offset + page_size f) AND NOT (page_size f - 1))"

partial_function (option) write_pages ::
    "alt_flash_epcs_dev \<Rightarrow> int \<Rightarrow> nat \<Rightarrow> int \<Rightarrow> byte list \<Rightarrow> env \<Rightarrow> 'a bus_scheme \<Rightarrow> 'a bus_scheme option" where
  \<comment> \<open>\<open>while (length)\<close>: page writes of what is left of \<open>data\<close> behind \<open>buffer_offset\<close>; a negative
    count would be sent as a huge unsigned one, past the end of the data\<close>
  "write_pages f data_offset buffer_offset len data h w =
     (if len = 0 then Some w
      else do {
        let length_of_current_write = min len (next_page_start f data_offset - data_offset);
        bs \<leftarrow> (if length_of_current_write < 0 then None else slice data buffer_offset (nat length_of_current_write));
        (_, w) \<leftarrow> epcs_write_buffer (register_base f) data_offset bs (four_bytes_mode f) h w;
        write_pages f (next_page_start f data_offset) (buffer_offset + nat length_of_current_write)
          (len - length_of_current_write) data h w
      })"

definition alt_epcs_flash_write_block ::
    "alt_flash_epcs_dev \<Rightarrow> int \<Rightarrow> int \<Rightarrow> byte list \<Rightarrow> int \<Rightarrow> env \<Rightarrow> 'a bus_scheme \<Rightarrow> (int \<times> 'a bus_scheme) option" where
  "alt_epcs_flash_write_block f block_offset data_offset data len h w = do {
     ret_code \<leftarrow> alt_epcs_test_address f data_offset;
     if ret_code \<ge> 0
     then do {
       w \<leftarrow> write_pages f data_offset 0 len data h w;
       Some (ret_code, w) }
     else Some (ret_code, w)
   }"

definition alt_epcs_flash_read ::
    "alt_flash_epcs_dev \<Rightarrow> int \<Rightarrow> int \<Rightarrow> env \<Rightarrow> 'a bus_scheme \<Rightarrow> ((int \<times> byte list option) \<times> 'a bus_scheme) option" where
  \<comment> \<open>the return code and what has been stored at \<open>dest_addr\<close>, nothing when the address is refused;
    a negative length has no buffer to go to\<close>
  "alt_epcs_flash_read f offset len h w = do {
     ret_code \<leftarrow> alt_epcs_test_address f offset;
     if ret_code \<ge> 0
     then if len < 0 then None else do {
       ((ret_code, bs), w) \<leftarrow> epcs_read_buffer (register_base f) offset (nat len) (four_bytes_mode f) h w;
       Some ((if ret_code = len then 0 else ret_code, Some bs), w) }
     else Some ((ret_code, None), w)
   }"

definition c_memcmp :: "byte list \<Rightarrow> byte list \<Rightarrow> int" where
  \<comment> \<open>only the sign is defined: that of the first difference\<close>
  "c_memcmp a b = (case filter (\<lambda>(x, y). x \<noteq> y) (zip a b) of [] \<Rightarrow> 0 | (x, y) # _ \<Rightarrow> if x < y then -1 else 1)"

fun alt_epcs_flash_memcmp ::
    "alt_flash_epcs_dev \<Rightarrow> byte list \<Rightarrow> int \<Rightarrow> nat \<Rightarrow> nat \<Rightarrow> env \<Rightarrow> 'a bus_scheme \<Rightarrow> (int \<times> 'a bus_scheme) option" where
  \<comment> \<open>from \<open>current_offset\<close> on, \<open>n\<close> bytes in chunks of 32\<close>
  "alt_epcs_flash_memcmp f src offset current_offset n h w =
     (if n = 0 then Some (0, w)
      else do {
        let this_chunk_size = (if n > 32 then 32 else n);
        ((r, chunk_buffer), w) \<leftarrow> alt_epcs_flash_read f (offset + int current_offset) (int this_chunk_size) h w;
        if r < 0 then Some (-1, w)
        else do {
          part \<leftarrow> slice src current_offset this_chunk_size;
          chunk_buffer \<leftarrow> chunk_buffer;
          if c_memcmp part chunk_buffer \<noteq> 0 then Some (c_memcmp part chunk_buffer, w)
          else alt_epcs_flash_memcmp f src offset (current_offset + this_chunk_size) (n - this_chunk_size) h w
        }
      })"

declare alt_epcs_flash_memcmp.simps [simp del]

fun write_blocks ::
    "alt_flash_epcs_dev \<Rightarrow> nat \<Rightarrow> int \<Rightarrow> int \<Rightarrow> int \<Rightarrow> byte list \<Rightarrow> int \<Rightarrow> env \<Rightarrow> 'a bus_scheme \<Rightarrow>
      ((bool \<times> int \<times> int \<times> byte list \<times> int) \<times> 'a bus_scheme) option" where
  \<comment> \<open>the inner loop of \<open>alt_epcs_flash_write\<close> over the blocks left: whether it jumped to \<open>finished\<close>, the
    code, and \<open>offset\<close>, \<open>src_addr\<close>, \<open>length\<close> as they are then\<close>
  "write_blocks f 0 block current_offset offset src len h w = Some ((False, 0, offset, src, len), w)"
| "write_blocks f (Suc j) block current_offset offset src len h w =
     (if current_offset \<le> offset \<and> offset < current_offset + block
      then do {
        let data_to_write = min (current_offset + block - offset) len;
        (differ, w) \<leftarrow> (if data_to_write < 0 then None else alt_epcs_flash_memcmp f src offset 0 (nat data_to_write) h w);
        (ret_code, w) \<leftarrow>
          (if differ \<noteq> 0
           then do {
             (ret_code, w) \<leftarrow> alt_epcs_flash_erase_block f current_offset h w;
             if ret_code = 0 then alt_epcs_flash_write_block f current_offset offset src data_to_write h w
             else Some (ret_code, w) }
           else Some (0, w));
        if len = data_to_write \<or> ret_code \<noteq> 0 then Some ((True, ret_code, offset, src, len), w)
        else write_blocks f j block (current_offset + block) (current_offset + block) (drop (nat data_to_write) src)
          (len - data_to_write) h w }
      else write_blocks f j block (current_offset + block) offset src len h w)"

primrec write_regions ::
    "flash_region list \<Rightarrow> alt_flash_epcs_dev \<Rightarrow> int \<Rightarrow> byte list \<Rightarrow> int \<Rightarrow> env \<Rightarrow> 'a bus_scheme \<Rightarrow> (int \<times> 'a bus_scheme) option" where
  "write_regions [] f offset src len h w = Some (0, w)"
| "write_regions (r # rs) f offset src len h w =
     (if r_offset r \<le> offset \<and> offset < r_offset r + region_size r
      then do {
        ((finished, ret_code, offset, src, len), w) \<leftarrow>
          write_blocks f (nat (number_of_blocks r)) (block_size r) (r_offset r) offset src len h w;
        if finished then Some (ret_code, w) else write_regions rs f offset src len h w }
      else write_regions rs f offset src len h w)"

definition alt_epcs_flash_write ::
    "alt_flash_epcs_dev \<Rightarrow> int \<Rightarrow> byte list \<Rightarrow> int \<Rightarrow> env \<Rightarrow> 'a bus_scheme \<Rightarrow> (int \<times> 'a bus_scheme) option" where
  "alt_epcs_flash_write f offset src len h w = do {
     regions \<leftarrow> slice (region_info f) 0 (nat (number_of_regions f));
     write_regions regions f offset src len h w
   }"

definition alt_epcs_flash_get_info :: "alt_flash_epcs_dev \<Rightarrow> int \<times> int \<times> flash_region list" where
  \<comment> \<open>the return code, the number of regions, and the table \<open>info\<close> points to, when it is set\<close>
  "alt_epcs_flash_get_info f =
     (if number_of_regions f = 0 then (- EIO, number_of_regions f, [])
      else if number_of_regions f > int ALT_MAX_NUMBER_OF_FLASH_REGIONS then (- ENOMEM, number_of_regions f, [])
      else (0, number_of_regions f, region_info f))"

subsection \<open>Frame\<close>

lemma keeps_spi_write: "keeps only_trace (spi_write b bs f h)"
  unfolding spi_write_def by (intro tr_rules keepsv_spi_command)

lemmas spi_rules = tr_rules tr.keepsv_pure keepsv_spi_command keeps_spi_write

lemma keeps_epcs_commands:
  "keeps only_trace (epcs_write_enable b h)" "keeps only_trace (epcs_enter_4_bytes_mode b h)"
  "keeps only_trace (epcs_exit_4_bytes_mode b h)" "keepsv only_trace (epcs_test_wip b h)"
  "keepsv only_trace (epcs_read_electronic_signature b h)" "keepsv only_trace (epcs_read_device_id b h)"
  unfolding epcs_enter_4_bytes_mode_def epcs_exit_4_bytes_mode_def epcs_write_enable_def epcs_test_wip_def
    epcs_read_status_register_def epcs_read_electronic_signature_def epcs_read_device_id_def
  by (intro spi_rules)+

lemma keeps_await_wip: "keeps only_trace (epcs_await_wip_released b h)"
proof -
  have "\<forall>b h. keeps only_trace (epcs_await_wip_released b h :: 'a bus_scheme \<Rightarrow> _)"
    by (rule epcs_await_wip_released.fixp_induct, rule adm_keeps2, simp add: tr.keeps_None,
        intro allI tr_rules keeps_epcs_commands, blast)
  then show ?thesis by blast
qed

lemma keeps_epcs_buffers:
  "keeps only_trace (epcs_sector_erase b a f h)" "keepsv only_trace (epcs_read_buffer b o' n f h)"
  "keepsv only_trace (epcs_write_buffer b o' bs f h)"
  unfolding epcs_sector_erase_def epcs_read_buffer_def epcs_write_buffer_def Let_def
  by (intro spi_rules keeps_epcs_commands keeps_await_wip)+

lemma keeps_write_pages: "keeps only_trace (write_pages f a off len data h)"
proof -
  have "(\<lambda>f a off len data h w w'. only_trace w w') f a off len data h w w'"
    if "write_pages f a off len data h w = Some w'" for w w' :: "'a bus_scheme"
    by (rule write_pages.raw_induct [OF _ that])
      (auto simp: Let_def tr.R_refl split: if_splits bind_splits dest!: keepsvD [OF keeps_epcs_buffers(3)] intro: tr.R_trans)
  then show ?thesis by (simp add: keeps_def)
qed

lemma keepsv_flash_ops:
  "keepsv only_trace (alt_epcs_flash_erase_block f a h)" "keepsv only_trace (alt_epcs_flash_write_block f b a bs n h)"
  "keepsv only_trace (alt_epcs_flash_read f a n h)"
  unfolding alt_epcs_flash_erase_block_def alt_epcs_flash_write_block_def alt_epcs_flash_read_def
  by (intro spi_rules keeps_epcs_buffers keeps_write_pages keepsv_case_pair keepsv_case_prod)+

lemma keepsv_flash_query: "keepsv only_trace (alt_epcs_flash_query f h)"
  by (auto simp: keepsv_def alt_epcs_flash_query_def Let_def split: bind_splits option.splits
      dest!: keepsvD [OF keeps_epcs_commands(5)] keepsvD [OF keeps_epcs_commands(6)] intro: tr.R_trans)

lemma spi_loop_length: "spi_loop b n c wr z i g h w = Some (y, w') \<Longrightarrow> length y = n"
proof -
  have "(\<lambda>b n c wr z i g h w r. length (fst r) = n) b n c wr z i g h w (y, w')"
    if "spi_loop b n c wr z i g h w = Some (y, w')"
    by (rule spi_loop.raw_induct [OF _ that]) (auto split: bind_splits if_splits)
  then show "spi_loop b n c wr z i g h w = Some (y, w') \<Longrightarrow> length y = n" by simp
qed

lemma flash_read_length:
  assumes "alt_epcs_flash_read f a n h w = Some ((r, Some bs), w')"
  shows "length bs = nat n"
  using assms by (auto simp: alt_epcs_flash_read_def epcs_read_buffer_def alt_avalon_spi_command_def Let_def
      split: bind_splits if_splits dest!: spi_loop_length)

end
