(* ===== verification/Hal.thy ===== *)
theory Hal
  imports Bus
begin

unbundle bit_operations_syntax

text \<open>
  The state of the run-time layer of the board support package (\<open>HAL/src\<close>): the interrupt
  controller of the processor and the table of handlers (\<open>alt_irq.h\<close>, \<open>alt_legacy_irq.h\<close>,
  \<open>alt_iic.c\<close>, \<open>alt_iic_isr_register.c\<close>), the alarms of the system clock (\<open>alt_alarm_start.c\<close>,
  \<open>alt_tick.c\<close>), the buffers of the console driver and the file descriptors. Functions that a
  structure points to are named by a datatype of the functions the program stores there. The
  operations of this theory touch no device and are functions on \<open>hal\<close>.
\<close>

subsection \<open>State\<close>

datatype isr = Timer_isr_interrupt | Alt_avalon_timer_sc_irq | Altera_avalon_jtag_uart_irq

datatype alarm_callback = Altera_avalon_jtag_uart_timeout

record alt_alarm =
  al_time :: uint
  al_rollover :: byte
  al_callback :: alarm_callback

record altera_avalon_jtag_uart_state =
  ju_base :: dev
  ju_timeout :: uint
  ju_irq_enable :: uint
  ju_host_inactive :: uint
  rx_in :: uint
  rx_out :: uint
  tx_in :: uint
  tx_out :: uint
  rx_buf :: "byte list"
  tx_buf :: "byte list"

datatype alt_dev = Alt_dev_null | Jtag_uart_dev

record alt_fd =
  fd_dev :: "alt_dev option"
  fd_priv :: uint
  fd_flags :: uint

record hal =
  nios2_status :: uint                 \<comment> \<open>control register 0\<close>
  nios2_ienable :: uint                \<comment> \<open>control register 3\<close>
  alt_irq_active :: uint
  alt_irq :: "isr option list"
  alt_tick_rate :: uint
  alt_nticks :: uint
  alarms :: "alt_alarm list"           \<comment> \<open>the alarm structures of the program, by address\<close>
  alt_alarm_list :: "nat list"         \<comment> \<open>the registered ones, from the head of the list\<close>
  jtag_uart :: altera_avalon_jtag_uart_state
  alt_dev_list :: "alt_dev list"
  alt_fd_list :: "alt_fd list"
  alt_max_fd :: int
  alt_errno :: int

definition ALT_NIRQ :: int where "ALT_NIRQ = 32"
definition ALT_MAX_FD :: nat where "ALT_MAX_FD = 32"
definition ALTERA_AVALON_JTAG_UART_BUF_LEN :: nat where "ALTERA_AVALON_JTAG_UART_BUF_LEN = 2048"
definition ALTERA_AVALON_JTAG_UART_DEFAULT_TIMEOUT :: uint where "ALTERA_AVALON_JTAG_UART_DEFAULT_TIMEOUT = 10"

definition jtag_uart_init_state :: altera_avalon_jtag_uart_state where
  \<comment> \<open>\<open>ALTERA_AVALON_JTAG_UART_DEV_INSTANCE\<close>\<close>
  "jtag_uart_init_state = \<lparr>ju_base = JTAG_UART_BASE, ju_timeout = ALTERA_AVALON_JTAG_UART_DEFAULT_TIMEOUT,
     ju_irq_enable = 0, ju_host_inactive = 0, rx_in = 0, rx_out = 0, tx_in = 0, tx_out = 0,
     rx_buf = replicate ALTERA_AVALON_JTAG_UART_BUF_LEN 0, tx_buf = replicate ALTERA_AVALON_JTAG_UART_BUF_LEN 0\<rparr>"

definition hal_init :: hal where
  "hal_init = \<lparr>nios2_status = 0, nios2_ienable = 0, alt_irq_active = 0, alt_irq = replicate (nat ALT_NIRQ) None,
     alt_tick_rate = 0, alt_nticks = 0,
     alarms = [\<lparr>al_time = 0, al_rollover = 0, al_callback = Altera_avalon_jtag_uart_timeout\<rparr>], alt_alarm_list = [],
     jtag_uart = jtag_uart_init_state, alt_dev_list = [Alt_dev_null],
     alt_fd_list = replicate 3 \<lparr>fd_dev = Some Alt_dev_null, fd_priv = 0, fd_flags = 0\<rparr> @
       replicate (ALT_MAX_FD - 3) \<lparr>fd_dev = None, fd_priv = 0, fd_flags = 0\<rparr>,
     alt_max_fd = -1, alt_errno = 0\<rparr>"

text \<open>Codes of the C library and of \<open>sys/alt_errno.h\<close>.\<close>

definition EAGAIN :: int where "EAGAIN = 11"
definition EACCES :: int where "EACCES = 13"
definition EINVAL :: int where "EINVAL = 22"
definition EMFILE :: int where "EMFILE = 24"
definition ENOTTY :: int where "ENOTTY = 25"
definition EBADFD :: int where "EBADFD = 81"
definition ENOTSUP :: int where "ENOTSUP = 134"

definition EWOULDBLOCK :: int where "EWOULDBLOCK = EAGAIN"
definition INT_MAX :: int where "INT_MAX = 2147483647"

subsection \<open>Device lists\<close>

definition alt_dev_llist_insert :: "'d \<Rightarrow> 'd list \<Rightarrow> int \<times> 'd list" where
  \<comment> \<open>at the head; neither the device nor its name is a null pointer in this program\<close>
  "alt_dev_llist_insert dev list = (0, dev # list)"

definition alt_find_dev :: "('d \<Rightarrow> string) \<Rightarrow> string \<Rightarrow> 'd list \<Rightarrow> 'd option" where
  \<comment> \<open>the first device whose name agrees on \<open>strlen (name) + 1\<close> characters\<close>
  "alt_find_dev dev_name name llist =
     find (\<lambda>d. take (length name + 1) (dev_name d @ [CHR 0x00]) = name @ [CHR 0x00]) llist"

lemma name_agrees: "CHR 0x00 \<notin> set d \<Longrightarrow> take (length n + 1) (d @ [CHR 0x00]) = n @ [CHR 0x00] \<longleftrightarrow> d = n"
proof (induction n arbitrary: d)
  case Nil
  then show ?case by (cases d) auto
next
  case (Cons c n)
  then show ?case by (cases d) auto
qed

subsection \<open>Interrupt controller\<close>

definition NIOS2_STATUS_PIE_MSK :: uint where "NIOS2_STATUS_PIE_MSK = 0x1"

definition alt_irq_enabled :: "hal \<Rightarrow> uint" where
  "alt_irq_enabled s = nios2_status s AND NIOS2_STATUS_PIE_MSK"

definition alt_irq_disable_all :: "hal \<Rightarrow> uint \<times> hal" where
  "alt_irq_disable_all s = (nios2_status s, s\<lparr>nios2_status := nios2_status s AND NOT NIOS2_STATUS_PIE_MSK\<rparr>)"

definition alt_irq_enable_all :: "uint \<Rightarrow> hal \<Rightarrow> hal" where
  "alt_irq_enable_all context s = s\<lparr>nios2_status := context\<rparr>"

definition alt_irq_cpu_enable_interrupts :: "hal \<Rightarrow> hal" where
  "alt_irq_cpu_enable_interrupts s = s\<lparr>nios2_status := NIOS2_STATUS_PIE_MSK\<rparr>"

definition altera_nios2_gen2_irq_init :: "hal \<Rightarrow> hal" where
  "altera_nios2_gen2_irq_init s = s\<lparr>nios2_ienable := 0\<rparr>"

definition alt_irq_init :: "hal \<Rightarrow> hal" where
  "alt_irq_init s = alt_irq_cpu_enable_interrupts (altera_nios2_gen2_irq_init s)"

definition irq_bit :: "uint \<Rightarrow> uint option" where
  \<comment> \<open>\<open>1 << id\<close>; a shift by 32 or more is undefined\<close>
  "irq_bit n = (if n < 32 then Some (push_bit (unat n) 1) else None)"

definition alt_irq_enable :: "uint \<Rightarrow> hal \<Rightarrow> (int \<times> hal) option" where
  "alt_irq_enable n s = do {
     let (status, s) = alt_irq_disable_all s;
     b \<leftarrow> irq_bit n;
     let s = s\<lparr>alt_irq_active := alt_irq_active s OR b\<rparr>;
     let s = s\<lparr>nios2_ienable := alt_irq_active s\<rparr>;
     Some (0, alt_irq_enable_all status s)
   }"

definition alt_irq_disable :: "uint \<Rightarrow> hal \<Rightarrow> (int \<times> hal) option" where
  "alt_irq_disable n s = do {
     let (status, s) = alt_irq_disable_all s;
     b \<leftarrow> irq_bit n;
     let s = s\<lparr>alt_irq_active := alt_irq_active s AND NOT b\<rparr>;
     let s = s\<lparr>nios2_ienable := alt_irq_active s\<rparr>;
     Some (0, alt_irq_enable_all status s)
   }"

definition alt_ic_irq_enable :: "uint \<Rightarrow> uint \<Rightarrow> hal \<Rightarrow> (int \<times> hal) option" where
  "alt_ic_irq_enable ic_id irq s = alt_irq_enable irq s"

definition alt_ic_irq_disable :: "uint \<Rightarrow> uint \<Rightarrow> hal \<Rightarrow> (int \<times> hal) option" where
  "alt_ic_irq_disable ic_id irq s = alt_irq_disable irq s"

definition alt_ic_irq_enabled :: "uint \<Rightarrow> uint \<Rightarrow> hal \<Rightarrow> uint option" where
  "alt_ic_irq_enabled ic_id irq s = do {
     b \<leftarrow> irq_bit irq;
     Some (if nios2_ienable s AND b \<noteq> 0 then 1 else 0)
   }"

definition alt_iic_isr_register :: "uint \<Rightarrow> uint \<Rightarrow> isr option \<Rightarrow> hal \<Rightarrow> (int \<times> hal) option" where
  \<comment> \<open>the number is compared as a signed one, so that a negative one indexes in front of the table;
    the context of a handler is always its own device and is not stored\<close>
  "alt_iic_isr_register ic_id irq isr s = (let n = sint irq in
     if n < ALT_NIRQ
     then do {
       let (status, s) = alt_irq_disable_all s;
       table \<leftarrow> (if n < 0 then None else arr_set (alt_irq s) (nat n) isr);
       let s = s\<lparr>alt_irq := table\<rparr>;
       (rc, s) \<leftarrow> (if isr \<noteq> None then alt_ic_irq_enable ic_id (word_of_int n) s else alt_ic_irq_disable ic_id (word_of_int n) s);
       Some (rc, alt_irq_enable_all status s) }
     else Some (- EINVAL, s))"

definition alt_ic_isr_register :: "uint \<Rightarrow> uint \<Rightarrow> isr option \<Rightarrow> hal \<Rightarrow> (int \<times> hal) option" where
  "alt_ic_isr_register ic_id irq isr s = alt_iic_isr_register ic_id irq isr s"

lemma sint_small:
  fixes x :: uint
  assumes "unat x < 2 ^ 31"
  shows "sint x = int (unat x)"
proof -
  have "int (unat x) < int (2 ^ 31)" using assms by (simp only: of_nat_less_iff)
  then have "uint x < 2 ^ 31" by simp
  moreover have "- (2 ^ 31) \<le> uint x" by (rule order_trans [OF _ uint_ge_0]) simp
  ultimately show ?thesis using signed_take_bit_int_eq_self [of 31 "uint x"] by (simp add: sint_uint)
qed

lemma isr_register_result:
  assumes "irq < 32" and "length (alt_irq s) = 32"
  shows "alt_ic_isr_register ic irq (Some f) s = Some (0, s\<lparr>alt_irq := (alt_irq s)[unat irq := Some f],
    alt_irq_active := alt_irq_active s OR push_bit (unat irq) 1,
    nios2_ienable := alt_irq_active s OR push_bit (unat irq) 1\<rparr>)"
proof -
  have n: "unat irq < 32" using assms(1) by (simp add: word_less_nat_alt)
  then have k: "sint irq = int (unat irq)" by (intro sint_small) simp
  have "int (unat irq) < ALT_NIRQ" "\<not> int (unat irq) < 0" using n by (simp_all only: ALT_NIRQ_def)
  moreover have "word_of_int (int (unat irq)) = irq" by simp
  ultimately show ?thesis
    using n assms unfolding alt_ic_isr_register_def alt_iic_isr_register_def k Let_def
    by (simp only: if_True if_False nat_int)
      (simp add: arr_set_def alt_irq_disable_all_def alt_irq_enable_all_def alt_ic_irq_enable_def
        alt_irq_enable_def irq_bit_def)
qed

subsection \<open>System clock\<close>

definition alt_ticks_per_second :: "hal \<Rightarrow> uint" where "alt_ticks_per_second s = alt_tick_rate s"

definition alt_sysclk_init :: "uint \<Rightarrow> hal \<Rightarrow> int \<times> hal" where
  "alt_sysclk_init nticks s = (if alt_tick_rate s = 0 then (0, s\<lparr>alt_tick_rate := nticks\<rparr>) else (-1, s))"

definition alt_alarm_start :: "nat \<Rightarrow> uint \<Rightarrow> alarm_callback \<Rightarrow> hal \<Rightarrow> (int \<times> hal) option" where
  \<comment> \<open>the structure is given by its place in \<open>alarms\<close>, so that it is no null pointer; one that is
    registered already would break the links of the list\<close>
  "alt_alarm_start alarm nticks callback s =
     (if alt_ticks_per_second s \<noteq> 0
      then do {
        let (irq_context, s) = alt_irq_disable_all s;
        let current_nticks = alt_nticks s;
        let time = nticks + current_nticks + 1;
        as \<leftarrow> arr_set (alarms s) alarm
          \<lparr>al_time = time, al_rollover = (if time < current_nticks then 1 else 0), al_callback = callback\<rparr>;
        l \<leftarrow> (if alarm \<in> set (alt_alarm_list s) then None else Some (alarm # alt_alarm_list s));
        Some (0, alt_irq_enable_all irq_context (s\<lparr>alarms := as, alt_alarm_list := l\<rparr>)) }
      else Some (- ENOTSUP, s))"

definition alt_alarm_stop :: "nat \<Rightarrow> hal \<Rightarrow> hal" where
  "alt_alarm_stop alarm s = (let (irq_context, s) = alt_irq_disable_all s in
     alt_irq_enable_all irq_context (s\<lparr>alt_alarm_list := remove1 alarm (alt_alarm_list s)\<rparr>))"

lemma alarm_stop_result: "alt_alarm_stop a s = s\<lparr>alt_alarm_list := remove1 a (alt_alarm_list s)\<rparr>"
  by (simp add: alt_alarm_stop_def alt_irq_disable_all_def alt_irq_enable_all_def)

lemma alarm_start_result:
  assumes "alt_tick_rate s \<noteq> 0" and "a < length (alarms s)" and "a \<notin> set (alt_alarm_list s)"
  shows "alt_alarm_start a n c s = Some (0, s\<lparr>alarms := (alarms s)[a := \<lparr>al_time = n + alt_nticks s + 1,
      al_rollover = (if n + alt_nticks s + 1 < alt_nticks s then 1 else 0), al_callback = c\<rparr>],
    alt_alarm_list := a # alt_alarm_list s\<rparr>)"
  using assms by (simp add: alt_alarm_start_def alt_ticks_per_second_def Let_def arr_set_def
      alt_irq_disable_all_def alt_irq_enable_all_def)

end
