(* ===== verification/World.thy ===== *)
theory World
  imports SysPara Sockets RingQueue EpcsFlash Hal
begin

text \<open>
  The global variables of the firmware. \<open>world\<close> extends the state of the network driver by the
  variables of the upper layers, one field each, so that an operation of a lower layer runs on it
  unchanged. The initial values are those of the initialisers in the source; the linker clears
  the rest.
\<close>

definition TARGET_NUMBER :: nat where "TARGET_NUMBER = 811"
definition ZENITH_NUMBER :: nat where "ZENITH_NUMBER = 103"

record pc2nios_t =
  p_head :: uint
  p_command :: uint
  p_data_len :: uint
  p_checksum :: uint

record nios2pc_t =
  n_head :: uint
  n_command :: uint
  n_data_len :: uint
  n_value :: uint
  n_checksum :: uint

record UpDataFrame =
  pos_finish :: bool
  distance_len :: uint
  gray_len :: uint
  distance_data :: "byte list"
  gray_data :: "byte list"

record region_t =
  last_io_value0 :: byte
  last_io_value1 :: byte
  change_region_flag :: byte
  change_region_value :: byte
  wr_which :: byte
  rd_which :: byte
  zenith_save :: "byte list"
  region_buffer :: "half list"
  select :: uint

record update_t =
  image_addr :: uint
  image_data :: "byte list"

record config_msg =
  cfg_mac :: "byte list"
  cfg_lip :: "byte list"
  cfg_sub :: "byte list"
  cfg_gw :: "byte list"
  cfg_dns :: "byte list"
  cfg_dhcp :: byte
  cfg_debug :: byte
  cfg_fw_len :: half
  cfg_state :: byte
  cfg_sw_ver :: "byte list"

record Fpga_data_packet =
  f_frame_head :: half
  f_command :: half
  f_data_len :: uint
  f_checksum :: uint

record Sys_warn =
  motor_low_speed_alarm :: uint
  ld_not_work_alarm :: uint
  window_dust_alarm :: uint
  temp_out_alarm :: uint
  region_alarm :: uint
  warn_len :: uint
  motor_cycle_cnt :: "uint list"
  warn_zero_value :: "uint list"
  dust_cnt :: "uint list"
  temp_value :: "uint list"

record led_time_flag_t =
  power_led_value :: byte
  status_led_value :: byte
  cnt_2s_p :: byte
  power_led_2s_flag :: byte
  power_led_1s_flag :: byte
  cnt_1s_p :: byte
  cnt_1s :: byte
  status_led_1s_flag :: byte
  power_led_300ms_flag :: byte
  cnt_300ms_p :: byte
  status_led_300ms_flag :: byte
  cnt_300ms :: byte
  cnt_30ms :: byte

record world = net +
  SysPara :: Sys_Para
  reset_nios :: uint               \<comment> \<open>\<open>SysStatus\<close>\<close>
  isTcpEstablished :: byte
  isPowerUp :: byte
  rx_buffer :: "byte list"         \<comment> \<open>\<open>buffer\<close>\<close>
  send_buffer :: "byte list"
  pc2nios :: pc2nios_t
  nios2pc :: nios2pc_t
  Nios2FPGA_pck :: uint            \<comment> \<open>its only member, the command\<close>
  CycleData :: UpDataFrame
  alarm_region :: region_t
  image :: update_t
  ConfigMsg :: config_msg
  sMI_3E_flag :: byte
  fpga2nios_data :: Fpga_data_packet
  sys_warn :: Sys_warn
  LaserDataQueue :: Queue
  led_time_flag :: led_time_flag_t
  alt_flash_dev_list :: "alt_flash_epcs_dev list"  \<comment> \<open>the registered flash devices, from the head of the list\<close>
  hal :: hal                       \<comment> \<open>the run-time layer\<close>

subsection \<open>Initial values\<close>

definition region_init :: region_t where
  "region_init = \<lparr>last_io_value0 = 0, last_io_value1 = 0, change_region_flag = 0,
     change_region_value = 0, wr_which = 0, rd_which = 0, zenith_save = replicate 150 0,
     region_buffer = replicate TARGET_NUMBER 0, select = 0x07\<rparr>"

definition warn_init :: Sys_warn where
  "warn_init = \<lparr>motor_low_speed_alarm = 0, ld_not_work_alarm = 0, window_dust_alarm = 0,
     temp_out_alarm = 0, region_alarm = 0, warn_len = 0, motor_cycle_cnt = replicate 5 0,
     warn_zero_value = replicate 5 0, dust_cnt = replicate 5 0, temp_value = replicate 5 0\<rparr>"

definition led_init :: led_time_flag_t where
  "led_init = \<lparr>power_led_value = 0, status_led_value = 0, cnt_2s_p = 0, power_led_2s_flag = 0,
     power_led_1s_flag = 0, cnt_1s_p = 0, cnt_1s = 0, status_led_1s_flag = 0,
     power_led_300ms_flag = 0, cnt_300ms_p = 0, status_led_300ms_flag = 0, cnt_300ms = 0,
     cnt_30ms = 0\<rparr>"

definition cycle_init :: UpDataFrame where
  "cycle_init = \<lparr>pos_finish = False, distance_len = 0, gray_len = 0,
     distance_data = replicate (TARGET_NUMBER * 5) 0, gray_data = replicate (TARGET_NUMBER * 5) 0\<rparr>"

definition world_init :: world where
  "world_init = \<lparr>trace = [], SSIZE = replicate 8 0, RSIZE = replicate 8 0, local_port = 0,
     SysPara = SysPara_init, reset_nios = 0, isTcpEstablished = 0, isPowerUp = 0,
     rx_buffer = replicate 2048 0, send_buffer = replicate 8448 0,
     pc2nios = \<lparr>p_head = 0x1234, p_command = 0, p_data_len = 0, p_checksum = 0\<rparr>,
     nios2pc = \<lparr>n_head = 0x1234, n_command = 0, n_data_len = 0, n_value = 0, n_checksum = 0\<rparr>,
     Nios2FPGA_pck = 0, CycleData = cycle_init, alarm_region = region_init,
     image = \<lparr>image_addr = 0, image_data = replicate 256 0\<rparr>,
     ConfigMsg = \<lparr>cfg_mac = replicate 6 0, cfg_lip = replicate 4 0, cfg_sub = replicate 4 0,
       cfg_gw = replicate 4 0, cfg_dns = replicate 4 0, cfg_dhcp = 0, cfg_debug = 0, cfg_fw_len = 0,
       cfg_state = 0, cfg_sw_ver = [0, 0]\<rparr>,
     sMI_3E_flag = 0,
     fpga2nios_data = \<lparr>f_frame_head = 0, f_command = 0, f_data_len = 0, f_checksum = 0\<rparr>,
     sys_warn = warn_init,
     LaserDataQueue = \<lparr>q_front = 0, q_rear = 0, q_depth = 0, frame_over_flag = 0, q_data = []\<rparr>,
     led_time_flag = led_init, alt_flash_dev_list = [], hal = hal_init\<rparr>"

subsection \<open>Strings and memory\<close>

definition over_read :: "string \<Rightarrow> env \<Rightarrow> nat \<Rightarrow> 'a bus_scheme \<Rightarrow> byte" where
  \<comment> \<open>the byte \<open>i\<close> places past the end of a named object\<close>
  "over_read name h i w = ucast (indet h (name @ replicate i CHR ''+'') (trace w))"

definition world_wf :: "world \<Rightarrow> bool" where
  \<comment> \<open>every array of the program has its declared length\<close>
  "world_wf w \<longleftrightarrow> sys_para_wf (SysPara w) \<and> length (rx_buffer w) = 2048 \<and>
     length (send_buffer w) = 8448 \<and> length (distance_data (CycleData w)) = TARGET_NUMBER * 5 \<and>
     length (gray_data (CycleData w)) = TARGET_NUMBER * 5 \<and>
     length (zenith_save (alarm_region w)) = 150 \<and>
     length (region_buffer (alarm_region w)) = TARGET_NUMBER \<and>
     length (image_data (image w)) = 256 \<and> length (SSIZE w) = 8 \<and> length (RSIZE w) = 8 \<and>
     length (motor_cycle_cnt (sys_warn w)) = 5 \<and> length (warn_zero_value (sys_warn w)) = 5 \<and>
     length (dust_cnt (sys_warn w)) = 5 \<and> length (temp_value (sys_warn w)) = 5"

lemma world_init_wf: "world_wf world_init"
  by (simp add: world_wf_def world_init_def SysPara_init_wf cycle_init_def region_init_def warn_init_def)

subsection \<open>Updates of different layers commute\<close>

lemma layers:
  "(SysPara_update g1 w)\<lparr>trace := t\<rparr> = SysPara_update g1 (w\<lparr>trace := t\<rparr>)"
  "(reset_nios_update g2 w)\<lparr>trace := t\<rparr> = reset_nios_update g2 (w\<lparr>trace := t\<rparr>)"
  "(isTcpEstablished_update g3 w)\<lparr>trace := t\<rparr> = isTcpEstablished_update g3 (w\<lparr>trace := t\<rparr>)"
  "(isPowerUp_update g4 w)\<lparr>trace := t\<rparr> = isPowerUp_update g4 (w\<lparr>trace := t\<rparr>)"
  "(rx_buffer_update g5 w)\<lparr>trace := t\<rparr> = rx_buffer_update g5 (w\<lparr>trace := t\<rparr>)"
  "(send_buffer_update g6 w)\<lparr>trace := t\<rparr> = send_buffer_update g6 (w\<lparr>trace := t\<rparr>)"
  "(pc2nios_update g7 w)\<lparr>trace := t\<rparr> = pc2nios_update g7 (w\<lparr>trace := t\<rparr>)"
  "(nios2pc_update g8 w)\<lparr>trace := t\<rparr> = nios2pc_update g8 (w\<lparr>trace := t\<rparr>)"
  "(Nios2FPGA_pck_update g9 w)\<lparr>trace := t\<rparr> = Nios2FPGA_pck_update g9 (w\<lparr>trace := t\<rparr>)"
  "(CycleData_update g10 w)\<lparr>trace := t\<rparr> = CycleData_update g10 (w\<lparr>trace := t\<rparr>)"
  "(alarm_region_update g11 w)\<lparr>trace := t\<rparr> = alarm_region_update g11 (w\<lparr>trace := t\<rparr>)"
  "(image_update g12 w)\<lparr>trace := t\<rparr> = image_update g12 (w\<lparr>trace := t\<rparr>)"
  "(ConfigMsg_update g13 w)\<lparr>trace := t\<rparr> = ConfigMsg_update g13 (w\<lparr>trace := t\<rparr>)"
  "(sMI_3E_flag_update g14 w)\<lparr>trace := t\<rparr> = sMI_3E_flag_update g14 (w\<lparr>trace := t\<rparr>)"
  "(fpga2nios_data_update g15 w)\<lparr>trace := t\<rparr> = fpga2nios_data_update g15 (w\<lparr>trace := t\<rparr>)"
  "(sys_warn_update g16 w)\<lparr>trace := t\<rparr> = sys_warn_update g16 (w\<lparr>trace := t\<rparr>)"
  "(LaserDataQueue_update g17 w)\<lparr>trace := t\<rparr> = LaserDataQueue_update g17 (w\<lparr>trace := t\<rparr>)"
  "(led_time_flag_update g18 w)\<lparr>trace := t\<rparr> = led_time_flag_update g18 (w\<lparr>trace := t\<rparr>)"
  "(alt_flash_dev_list_update g19 w)\<lparr>trace := t\<rparr> = alt_flash_dev_list_update g19 (w\<lparr>trace := t\<rparr>)"
  "(hal_update g20 w)\<lparr>trace := t\<rparr> = hal_update g20 (w\<lparr>trace := t\<rparr>)"
  for w :: world
  by simp_all

text \<open>A fixed order for updates of the variables the protocol code changes.\<close>

lemma field_order:
  "send_buffer_update g19 (Nios2FPGA_pck_update f19 w) = Nios2FPGA_pck_update f19 (send_buffer_update g19 w)"
  "send_buffer_update g20 (SysPara_update f20 w) = SysPara_update f20 (send_buffer_update g20 w)"
  "send_buffer_update g21 (sMI_3E_flag_update f21 w) = sMI_3E_flag_update f21 (send_buffer_update g21 w)"
  "Nios2FPGA_pck_update g22 (SysPara_update f22 w) = SysPara_update f22 (Nios2FPGA_pck_update g22 w)"
  "Nios2FPGA_pck_update g23 (sMI_3E_flag_update f23 w) = sMI_3E_flag_update f23 (Nios2FPGA_pck_update g23 w)"
  "SysPara_update g24 (sMI_3E_flag_update f24 w) = sMI_3E_flag_update f24 (SysPara_update g24 w)"
  for w :: world
  by simp_all

end
