(* ===== verification/Nios2Fpga.thy ===== *)
theory Nios2Fpga
  imports World
begin

unbundle bit_operations_syntax

text \<open>
  \<open>nios2fpga_protocol.c\<close>: parameters and commands sent to the FPGA. A frame is a header word
  with the command, a length, the data words and an exclusive-or checksum; every word is written
  to the protocol FIFO with its halves swapped.
\<close>

definition ENABLE :: uint where "ENABLE = 0x11111111"
definition DISABLE :: uint where "DISABLE = 0x22222222"

definition UPLOAD_EN :: uint where "UPLOAD_EN = 0xb000"
definition LASER_ENABLE :: uint where "LASER_ENABLE = 0xa100"
definition LASER_FREQ :: uint where "LASER_FREQ = 0xa101"
definition LASER_PULSE_WIDTH :: uint where "LASER_PULSE_WIDTH = 0xa102"
definition LASER_RECV_DELAY :: uint where "LASER_RECV_DELAY = 0xa103"
definition LASER_PRESDO :: uint where "LASER_PRESDO = 0xa104"
definition MOTOR_ENABLE :: uint where "MOTOR_ENABLE = 0xa200"
definition MOTOR_SPEED :: uint where "MOTOR_SPEED = 0xa201"
definition ZERO_DISTANCE_REVISE :: uint where "ZERO_DISTANCE_REVISE = 0xa301"
definition ZERO_ANGLE_REVISE :: uint where "ZERO_ANGLE_REVISE = 0xa302"
definition GRAY_DISTANCE_REVISE1 :: uint where "GRAY_DISTANCE_REVISE1 = 0xa401"
definition GRAY_DISTANCE_REVISE2 :: uint where "GRAY_DISTANCE_REVISE2 = 0xa402"
definition GRAY_DISTANCE_REVISE3 :: uint where "GRAY_DISTANCE_REVISE3 = 0xa403"
definition GRAY_DISTANCE_REVISE4 :: uint where "GRAY_DISTANCE_REVISE4 = 0xa404"
definition GRAY_DISTANCE_REVISE5 :: uint where "GRAY_DISTANCE_REVISE5 = 0xa405"
definition NOISE_DIFF_SETTING1 :: uint where "NOISE_DIFF_SETTING1 = 0xa501"
definition NOISE_DIFF_SETTING2 :: uint where "NOISE_DIFF_SETTING2 = 0xa502"
definition GRAY_INFLECTION1 :: uint where "GRAY_INFLECTION1 = 0xa601"
definition GRAY_INFLECTION2 :: uint where "GRAY_INFLECTION2 = 0xa602"
definition GRAY_INFLECTION3 :: uint where "GRAY_INFLECTION3 = 0xa603"
definition GRAY_INFLECTION4 :: uint where "GRAY_INFLECTION4 = 0xa604"
definition SIGNAL_THRESHOLD :: uint where "SIGNAL_THRESHOLD = 0xa701"
definition APD_VOL_SETTING :: uint where "APD_VOL_SETTING = 0xa702"
definition TEMP_VOL_COF1 :: uint where "TEMP_VOL_COF1 = 0xa703"
definition TEMP_VOL_COF2 :: uint where "TEMP_VOL_COF2 = 0xa704"
definition TEMP_VOL_INFLECTION :: uint where "TEMP_VOL_INFLECTION = 0xa705"
definition TEMP_DISTANCE_COF1 :: uint where "TEMP_DISTANCE_COF1 = 0xa706"
definition TEMP_DISTANCE_COF2 :: uint where "TEMP_DISTANCE_COF2 = 0xa707"
definition TEMP_DISTANCE_INFLECTION :: uint where "TEMP_DISTANCE_INFLECTION = 0xa708"
definition VALID_NUM_THRESHOLD :: uint where "VALID_NUM_THRESHOLD = 0xa709"
definition MIN_DISTANCE_VALUE :: uint where "MIN_DISTANCE_VALUE = 0xaa01"
definition FIRST_NOISE_FILTER :: uint where "FIRST_NOISE_FILTER = 0xaa03"
definition DUST_ALARM_THRESHOLD :: uint where "DUST_ALARM_THRESHOLD = 0xab00"
definition DA_CYCLE_PARA1 :: uint where "DA_CYCLE_PARA1 = 0xac01"
definition DA_CYCLE_PARA2 :: uint where "DA_CYCLE_PARA2 = 0xac02"
definition DA_CYCLE_PARA3 :: uint where "DA_CYCLE_PARA3 = 0xac03"
definition DA_CYCLE_PARA4 :: uint where "DA_CYCLE_PARA4 = 0xac04"
definition DA_CYCLE_PARA5 :: uint where "DA_CYCLE_PARA5 = 0xac05"
definition DA_CYCLE_PARA6 :: uint where "DA_CYCLE_PARA6 = 0xac06"
definition DA_CYCLE_PARA7 :: uint where "DA_CYCLE_PARA7 = 0xac07"
definition DA_CYCLE_PARA8 :: uint where "DA_CYCLE_PARA8 = 0xac08"
definition DA_CYCLE_PARA9 :: uint where "DA_CYCLE_PARA9 = 0xac09"
definition MIN_TARGET_SIZE :: uint where "MIN_TARGET_SIZE = 0xad00"
definition ALARM_OUTPUT_THRESHOLD :: uint where "ALARM_OUTPUT_THRESHOLD = 0xad01"
definition WR_REGION0_DATA :: uint where "WR_REGION0_DATA = 0xb100"
definition WR_REGION1_DATA :: uint where "WR_REGION1_DATA = 0xb101"
definition WR_REGION2_DATA :: uint where "WR_REGION2_DATA = 0xb102"
definition PC_SET_HW_TYPE :: uint where "PC_SET_HW_TYPE = 0x4006"

definition check_sum :: "uint list \<Rightarrow> byte \<Rightarrow> uint option" where
  "check_sum data len = do {
     xs \<leftarrow> slice data 0 (unat len);
     Some (foldl (XOR) 0 xs)
   }"

definition put_word :: "uint \<Rightarrow> env \<Rightarrow> 'a bus_scheme \<Rightarrow> 'a bus_scheme option" where
  \<comment> \<open>one word into the protocol FIFO; the return code is not looked at\<close>
  "put_word d h w = do {
     (_, w) \<leftarrow> altera_avalon_fifo_write_fifo PROTOCOL_FIFO_IN_BASE PROTOCOL_FIFO_IN_CSR_BASE
        (swap_halves d) h w;
     Some w
   }"

definition nios2fpga_data_write :: "uint list \<Rightarrow> uint \<Rightarrow> env \<Rightarrow> 'a bus_scheme \<Rightarrow> (bool \<times> 'a bus_scheme) option" where
  "nios2fpga_data_write data len h w = do {
     w \<leftarrow> for_each [0..<unat len] (\<lambda>i w. do { d \<leftarrow> arr_get data i; put_word d h w }) w;
     Some (True, w)
   }"

definition nios2fpga_data_packet :: "half \<Rightarrow> byte \<Rightarrow> uint list \<Rightarrow> env \<Rightarrow> 'a bus_scheme \<Rightarrow> 'a bus_scheme option" where
  \<comment> \<open>\<open>buf\<close> has thirty words, none of which is read before it is written\<close>
  "nios2fpga_data_packet command len src h w = do {
     let buf = replicate 30 0;
     buf \<leftarrow> arr_set buf 0 (push_bit 16 0x1234 + ucast command);
     buf \<leftarrow> arr_set buf 1 (ucast len);
     buf \<leftarrow> for_each [0..<unat len] (\<lambda>i buf. do { d \<leftarrow> arr_get src i; arr_set buf (i + 2) d }) buf;
     c \<leftarrow> check_sum buf (len + 2);
     buf \<leftarrow> arr_set buf (unat len + 2) c;
     (_, w) \<leftarrow> nios2fpga_data_write buf (ucast len + 3) h w;
     Some w
   }"

definition set_laser_paramter :: "uint \<Rightarrow> uint \<Rightarrow> env \<Rightarrow> world \<Rightarrow> world option" where
  \<comment> \<open>the command is a 16-bit parameter; \<open>pck\<close> is always \<open>Nios2FPGA_pck\<close>\<close>
  "set_laser_paramter command data h w = do {
     let w = w\<lparr>Nios2FPGA_pck := ucast (ucast command :: half)\<rparr>;
     nios2fpga_data_packet (ucast (Nios2FPGA_pck w)) 1 [data] h w
   }"

definition write_laser_presdo :: "byte list \<Rightarrow> env \<Rightarrow> 'a bus_scheme \<Rightarrow> 'a bus_scheme option" where
  \<comment> \<open>\<open>arr\<close>: the memory from the pointer on; 32 bytes are read\<close>
  "write_laser_presdo arr h w = do {
     w \<leftarrow> put_word 0x1234a104 h w;
     w \<leftarrow> put_word 30 h w;
     w \<leftarrow> for_each [0, 4, 8, 12, 16, 20, 24, 28] (\<lambda>i w. do {
            bs \<leftarrow> slice arr i 4;
            put_word (be32 (bs ! 0) (bs ! 1) (bs ! 2) (bs ! 3)) h w }) w;
     put_word 0xccccdddd h w
   }"

definition init_table :: "(uint \<times> (Sys_Para \<Rightarrow> uint)) list" where
  "init_table = [(UPLOAD_EN, \<lambda>_. ENABLE), (LASER_ENABLE, laser_enable), (LASER_FREQ, laser_freq),
     (LASER_PULSE_WIDTH, laser_pulse_width), (LASER_RECV_DELAY, laser_recv_delay),
     (MOTOR_ENABLE, motor_enable), (MOTOR_SPEED, motor_expect_speed),
     (ZERO_DISTANCE_REVISE, zero_distance_revise), (ZERO_ANGLE_REVISE, zero_angle_revise),
     (GRAY_DISTANCE_REVISE1, gray_distance_revise1), (GRAY_DISTANCE_REVISE2, gray_distance_revise2),
     (GRAY_DISTANCE_REVISE3, gray_distance_revise3), (GRAY_DISTANCE_REVISE4, gray_distance_revise4),
     (GRAY_DISTANCE_REVISE5, gray_distance_revise5), (GRAY_INFLECTION1, gray_inflection1),
     (GRAY_INFLECTION2, gray_inflection2), (GRAY_INFLECTION3, gray_inflection3),
     (GRAY_INFLECTION4, gray_inflection4), (NOISE_DIFF_SETTING1, noise_diff_setting1),
     (NOISE_DIFF_SETTING2, noise_diff_setting2), (APD_VOL_SETTING, signal_thresold),
     (APD_VOL_SETTING, apd_vol_base), (TEMP_VOL_COF1, temp_volt_cof1), (TEMP_VOL_COF2, temp_volt_cof2),
     (TEMP_VOL_INFLECTION, temp_volt_inflection), (TEMP_DISTANCE_COF1, temp_distance_cof1),
     (TEMP_DISTANCE_COF2, temp_distance_cof2), (TEMP_DISTANCE_INFLECTION, temp_distance_inflection),
     (MIN_DISTANCE_VALUE, min_display_distance), (FIRST_NOISE_FILTER, first_noise_filter),
     (DA_CYCLE_PARA1, da_cycle_para1), (DA_CYCLE_PARA2, da_cycle_para2), (DA_CYCLE_PARA3, da_cycle_para3),
     (DA_CYCLE_PARA4, da_cycle_para4), (DA_CYCLE_PARA5, da_cycle_para5), (DA_CYCLE_PARA6, da_cycle_para6),
     (DA_CYCLE_PARA7, da_cycle_para7), (DA_CYCLE_PARA8, da_cycle_para8), (DA_CYCLE_PARA9, da_cycle_para9),
     (MIN_TARGET_SIZE, min_target_size), (ALARM_OUTPUT_THRESHOLD, alarm_output_threshold),
     (PC_SET_HW_TYPE, board_type)]"

definition init_fpga_sys :: "env \<Rightarrow> world \<Rightarrow> world option" where
  \<comment> \<open>the bytes read past \<open>laser_presdo\<close> are the two members that follow it\<close>
  "init_fpga_sys h w = do {
     w \<leftarrow> for_each init_table (\<lambda>(c, field) w. set_laser_paramter c (field (SysPara w)) h w) w;
     write_laser_presdo (laser_presdo (SysPara w) @ [xxx1 (SysPara w), xxx2 (SysPara w)]) h w
   }"

definition close_peripheral_dev :: "world \<Rightarrow> world option" where
  \<comment> \<open>its body is compiled only for \<open>RELEASE_VERSION\<close>, which \<open>scan_config.h\<close> leaves undefined\<close>
  "close_peripheral_dev w = Some w"

subsection \<open>What reaches the FPGA\<close>

fun fpga_step :: "uint list \<Rightarrow> event \<Rightarrow> uint list" where
  \<comment> \<open>the FPGA undoes the exchange of the halves\<close>
  "fpga_step m (Iowr d r v) = (if d = PROTOCOL_FIFO_IN_BASE \<and> r = 0 then m @ [swap_halves v] else m)"
| "fpga_step m _ = m"

interpretation fpga: observer fpga_step "\<lambda>pre. pre"
  by unfold_locales simp

definition fpga_words :: "event list \<Rightarrow> uint list" where
  "fpga_words evs = foldl fpga_step [] evs"

lemma sees_fpga: "fpga.sees evs xs \<Longrightarrow> fpga_words evs = xs"
  by (simp add: fpga.sees_def fpga_words_def)

lemma does_put_word:
  "never_full h PROTOCOL_FIFO_IN_CSR_BASE \<Longrightarrow> fpga.does (put_word d h) [d]"
  by (rule fpga.doesI [where evs = "\<lambda>_. [Iord PROTOCOL_FIFO_IN_CSR_BASE 1, Iowr PROTOCOL_FIFO_IN_BASE 0 (swap_halves d)]"])
    (simp_all add: put_word_def fifo_write_logged fpga.sees_def)

lemma put_word_total: "\<exists>evs. put_word d h w = Some (logged w evs)"
  by (auto simp: put_word_def fifo_write_result logged_def)

lemma keeps_put_word: "keeps only_trace (put_word d h)"
  unfolding put_word_def by (intro bus_rules)

lemma for_each_total:
  assumes "\<And>x w. x \<in> set xs \<Longrightarrow> \<exists>evs. f x w = Some (logged w evs)"
  shows "\<exists>evs. for_each xs f w = Some (logged w evs)"
  using assms
proof (induction xs arbitrary: w)
  case Nil
  show ?case by (metis for_each.simps(1) logged_simps(3))
next
  case (Cons x xs)
  then obtain e where e: "f x w = Some (logged w e)" by (meson list.set_intros(1))
  obtain e' where "for_each xs f (logged w e) = Some (logged (logged w e) e')"
    using Cons.IH Cons.prems by (meson list.set_intros(2))
  then show ?case using e by auto
qed

lemma data_write_total:
  assumes "unat len \<le> length data"
  shows "\<exists>evs. nios2fpga_data_write data len h w = Some (True, logged w evs)"
proof -
  have "\<exists>evs. for_each [0..<unat len] (\<lambda>i w. do { d \<leftarrow> arr_get data i; put_word d h w }) w = Some (logged w evs)"
    using assms put_word_total by (intro for_each_total) auto
  then show ?thesis by (auto simp: nios2fpga_data_write_def)
qed

lemma answers_data_write:
  assumes "never_full h PROTOCOL_FIFO_IN_CSR_BASE" and "unat len \<le> length data"
  shows "fpga.answers (nios2fpga_data_write data len h) True (take (unat len) data)"
proof -
  have "fpga.does (for_each [0..<unat len] (\<lambda>i w. do { d \<leftarrow> arr_get data i; put_word d h w }))
      (concat (map (\<lambda>i. [data ! i]) [0..<unat len]))"
    using assms(2) by (intro fpga.does_for) (auto simp: does_put_word [OF assms(1)])
  moreover have "concat (map (\<lambda>i. [data ! i]) [0..<unat len]) = take (unat len) data"
    using assms(2) by (intro nth_equalityI) simp_all
  ultimately show ?thesis
    using fpga.answers_seq [OF _ fpga.answers_done] by (fastforce simp: nios2fpga_data_write_def [abs_def])
qed

definition fpga_frame :: "half \<Rightarrow> uint list \<Rightarrow> uint list" where
  "fpga_frame c ds = (let body = [push_bit 16 0x1234 + ucast c, word_of_nat (length ds)] @ ds
     in body @ [xor_all 0 body])"

lemma packet_buf:
  assumes "n \<le> 27" and "n \<le> length src"
  shows "for_each [0..<n] (\<lambda>i buf. do { d \<leftarrow> arr_get src i; arr_set buf (i + 2) d }) (a # b # replicate 28 0) =
    Some (a # b # take n src @ replicate (28 - n) 0)"
  using assms
proof (induction n)
  case 0
  show ?case by simp
next
  case (Suc n)
  have "28 - n = Suc (27 - n)" using Suc.prems by simp
  then have "(take n src @ replicate (28 - n) 0)[n := src ! n] = take n src @ src ! n # replicate (27 - n) 0"
    using Suc.prems by (simp add: list_update_append)
  then show ?case
    using Suc by (simp add: for_each_append take_Suc_conv_app_nth)
qed

lemma packet_unfold:
  assumes "unat len \<le> 27" and "unat len \<le> length src"
  shows "\<exists>rest. nios2fpga_data_packet command len src h w = do {
      (_, w) \<leftarrow> nios2fpga_data_write (fpga_frame command (take (unat len) src) @ rest) (ucast len + 3) h w; Some w }"
proof -
  let ?n = "unat len"
  let ?hd = "push_bit 16 0x1234 + ucast command :: uint"
  have len2: "unat (len + 2) = ?n + 2"
    using assms(1) by (simp add: unat_word_ariths)
  have rep: "replicate 30 (0 :: uint) = 0 # 0 # replicate 28 0"
    by (simp add: numeral_eq_Suc)
  let ?body = "?hd # ucast len # take ?n src"
  have buf: "for_each [0..<?n] (\<lambda>i buf. do { d \<leftarrow> arr_get src i; arr_set buf (i + 2) d })
      (?hd # ucast len # replicate 28 0) = Some (?body @ replicate (28 - ?n) 0)"
    using packet_buf [OF assms, of ?hd "ucast len"] by simp
  have sum: "check_sum (?body @ replicate (28 - ?n) 0) (len + 2) = Some (xor_all 0 ?body)"
    using assms by (simp add: check_sum_def len2 slice_def xor_all_def)
  have "28 - ?n = Suc (27 - ?n)" using assms(1) by simp
  then have set: "arr_set (?body @ replicate (28 - ?n) 0) (?n + 2) c = Some (?body @ c # replicate (27 - ?n) 0)" for c
    using assms by (simp add: arr_set_def list_update_append)
  have "(ucast len :: uint) = word_of_nat (length (take ?n src))"
    using assms(2) by simp
  then have "fpga_frame command (take ?n src) = ?body @ [xor_all 0 ?body]"
    unfolding fpga_frame_def Let_def by simp
  then have "nios2fpga_data_packet command len src h w = do {
      (_, w) \<leftarrow> nios2fpga_data_write (fpga_frame command (take ?n src) @ replicate (27 - ?n) 0) (ucast len + 3) h w; Some w }"
    unfolding nios2fpga_data_packet_def Let_def rep using buf sum set by simp
  then show ?thesis by blast
qed

lemma fpga_frame_length [simp]: "length (fpga_frame c ds) = length ds + 3"
  by (simp add: fpga_frame_def Let_def)

lemma len3: "unat (len :: byte) \<le> 27 \<Longrightarrow> unat (ucast len + 3 :: uint) = unat len + 3"
  by (simp add: unat_word_ariths unsigned_ucast_eq take_bit_eq_mod)

lemma does_data_packet:
  assumes "never_full h PROTOCOL_FIFO_IN_CSR_BASE" and "unat len \<le> 27" and "unat len \<le> length src"
  shows "fpga.does (nios2fpga_data_packet command len src h) (fpga_frame command (take (unat len) src))"
  unfolding fpga.does_def
proof
  fix w :: "'a bus_scheme"
  obtain rest where eq: "nios2fpga_data_packet command len src h w = do {
      (_, w) \<leftarrow> nios2fpga_data_write (fpga_frame command (take (unat len) src) @ rest) (ucast len + 3) h w; Some w }"
    using packet_unfold [OF assms(2,3)] by blast
  show "\<exists>evs. nios2fpga_data_packet command len src h w = Some (logged w evs) \<and>
      fpga.sees evs (fpga_frame command (take (unat len) src))"
    using fpga.answersD [OF answers_data_write [OF assms(1), of "ucast len + 3"
        "fpga_frame command (take (unat len) src) @ rest"], of w] assms(3)
    by (auto simp: eq len3 [OF assms(2)])
qed

lemma data_packet_total:
  assumes "unat len \<le> 27" and "unat len \<le> length src"
  shows "\<exists>evs. nios2fpga_data_packet command len src h w = Some (logged w evs)"
proof -
  obtain rest where eq: "nios2fpga_data_packet command len src h w = do {
      (_, w) \<leftarrow> nios2fpga_data_write (fpga_frame command (take (unat len) src) @ rest) (ucast len + 3) h w; Some w }"
    using packet_unfold [OF assms] by blast
  then show ?thesis
    using data_write_total [of "ucast len + 3" "fpga_frame command (take (unat len) src) @ rest" h w] assms
    by (auto simp: len3)
qed

definition para_frame :: "uint \<Rightarrow> uint \<Rightarrow> uint list" where
  "para_frame c d = fpga_frame (ucast c) [d]"

lemma half_uint_id: "(ucast (ucast (ucast c :: half) :: uint) :: half) = ucast (c :: uint)"
  by (rule bit_word_eqI) (auto simp: bit_simps)

lemma set_laser_total:
  "\<exists>evs. set_laser_paramter c d h w = Some (w\<lparr>trace := trace w @ evs, Nios2FPGA_pck := ucast (ucast c :: half)\<rparr>)"
proof -
  obtain evs where "nios2fpga_data_packet (ucast c) 1 [d] h (w\<lparr>Nios2FPGA_pck := ucast (ucast c :: half)\<rparr>) =
      Some (logged (w\<lparr>Nios2FPGA_pck := ucast (ucast c :: half)\<rparr>) evs)"
    using data_packet_total [of 1 "[d]" "ucast c" h "w\<lparr>Nios2FPGA_pck := ucast (ucast c :: half)\<rparr>"] by auto
  then show ?thesis
    by (intro exI [of _ evs]) (simp add: set_laser_paramter_def Let_def half_uint_id logged_def)
qed

text \<open>Setting a parameter sends the FPGA one well-formed frame of four words: header and command,
  the length one, the value, and a checksum that makes the exclusive-or of the frame zero; besides
  the bus only the record of the last command changes.\<close>

theorem set_laser_paramter_frame:
  assumes "never_full h PROTOCOL_FIFO_IN_CSR_BASE"
  shows "\<exists>evs c16. set_laser_paramter c d h w =
      Some (w\<lparr>trace := trace w @ evs, Nios2FPGA_pck := c16\<rparr>) \<and> c16 = ucast (ucast c :: half) \<and>
    fpga_words evs = [push_bit 16 0x1234 + c16, 1, d, (push_bit 16 0x1234 + c16) XOR 1 XOR d] \<and>
    foldl (XOR) 0 (fpga_words evs) = 0"
proof -
  let ?w = "w\<lparr>Nios2FPGA_pck := ucast (ucast c :: half)\<rparr>"
  obtain evs where evs: "nios2fpga_data_packet (ucast c) 1 [d] h ?w = Some (logged ?w evs)"
      "fpga.sees evs (fpga_frame (ucast c) [d])"
    using fpga.doesD [OF does_data_packet [OF assms, of 1 "[d]" "ucast c"], of ?w] by auto
  have "set_laser_paramter c d h w = Some (logged ?w evs)"
    using evs(1) by (simp add: set_laser_paramter_def Let_def half_uint_id)
  moreover have "fpga_words evs = fpga_frame (ucast c) [d]"
    using evs(2) by (rule sees_fpga)
  moreover have "fpga_frame (ucast c) [d] = [push_bit 16 0x1234 + ucast (ucast c :: half), 1, d,
      (push_bit 16 0x1234 + ucast (ucast c :: half)) XOR 1 XOR d]"
    by (simp add: fpga_frame_def Let_def xor.assoc)
  ultimately show ?thesis
    by (intro exI [of _ evs] exI [of _ "ucast (ucast c :: half)"]) (simp add: logged_def xor.assoc)
qed

lemma quiet_env_protocol: "never_full quiet_env PROTOCOL_FIFO_IN_CSR_BASE"
  by (simp add: never_full_def quiet_env_def)

theorem set_laser_paramter_frame_witness:
  "\<exists>evs c16. set_laser_paramter MOTOR_SPEED 15 quiet_env world_init =
      Some (world_init\<lparr>trace := trace world_init @ evs, Nios2FPGA_pck := c16\<rparr>) \<and>
    c16 = ucast (ucast MOTOR_SPEED :: half) \<and>
    fpga_words evs = [push_bit 16 0x1234 + c16, 1, 15, (push_bit 16 0x1234 + c16) XOR 1 XOR 15] \<and>
    foldl (XOR) 0 (fpga_words evs) = 0"
  by (rule set_laser_paramter_frame) (rule quiet_env_protocol)

lemma set_laser_sees:
  assumes "never_full h PROTOCOL_FIFO_IN_CSR_BASE"
  shows "\<exists>evs. set_laser_paramter c d h w = Some (logged (w\<lparr>Nios2FPGA_pck := ucast (ucast c :: half)\<rparr>) evs) \<and>
    fpga.sees evs (para_frame c d)"
proof -
  let ?w = "w\<lparr>Nios2FPGA_pck := ucast (ucast c :: half)\<rparr>"
  have "fpga.does (nios2fpga_data_packet (ucast c) 1 [d] h :: world \<Rightarrow> _) (para_frame c d)"
    using does_data_packet [OF assms, of 1 "[d]" "ucast c"] by (simp add: para_frame_def)
  then obtain evs where "nios2fpga_data_packet (ucast c) 1 [d] h ?w = Some (logged ?w evs)"
      "fpga.sees evs (para_frame c d)"
    using fpga.doesD by blast
  moreover have "set_laser_paramter c d h w = nios2fpga_data_packet (ucast c) 1 [d] h ?w"
    by (simp add: set_laser_paramter_def Let_def half_uint_id)
  ultimately show ?thesis by metis
qed

lemma pck_logged: "logged (w\<lparr>Nios2FPGA_pck := c\<rparr>) e = (logged w e)\<lparr>Nios2FPGA_pck := c\<rparr>"
  by (simp add: logged_def)

lemma set_laser_all_sees:
  assumes "never_full h PROTOCOL_FIFO_IN_CSR_BASE"
  shows "\<exists>evs c. for_each tab (\<lambda>(c, field) w. set_laser_paramter c (field (SysPara w)) h w) w =
      Some (logged (w\<lparr>Nios2FPGA_pck := c\<rparr>) evs) \<and>
    fpga.sees evs (concat (map (\<lambda>(c, field). para_frame c (field (SysPara w))) tab))"
proof (induction tab arbitrary: w)
  case Nil
  show ?case by (intro exI [of _ "[]"] exI [of _ "Nios2FPGA_pck w"]) (simp add: fpga.sees_Nil)
next
  case (Cons x tab)
  obtain c field where x: "x = (c, field)" by (cases x)
  obtain e where e: "set_laser_paramter c (field (SysPara w)) h w =
      Some (logged (w\<lparr>Nios2FPGA_pck := ucast (ucast c :: half)\<rparr>) e)"
      "fpga.sees e (para_frame c (field (SysPara w)))"
    using set_laser_sees [OF assms] by blast
  let ?w = "logged (w\<lparr>Nios2FPGA_pck := ucast (ucast c :: half)\<rparr>) e"
  obtain e' c' where e': "for_each tab (\<lambda>(c, field) w. set_laser_paramter c (field (SysPara w)) h w) ?w =
      Some (logged (?w\<lparr>Nios2FPGA_pck := c'\<rparr>) e')"
      "fpga.sees e' (concat (map (\<lambda>(c, field). para_frame c (field (SysPara ?w))) tab))"
    using Cons.IH [of ?w] by blast
  have w: "SysPara ?w = SysPara w" "logged (?w\<lparr>Nios2FPGA_pck := c'\<rparr>) e' = logged (w\<lparr>Nios2FPGA_pck := c'\<rparr>) (e @ e')"
    by (simp_all add: logged_def)
  have "for_each (x # tab) (\<lambda>(c, field) w. set_laser_paramter c (field (SysPara w)) h w) w =
      Some (logged (w\<lparr>Nios2FPGA_pck := c'\<rparr>) (e @ e'))"
    using e(1) e'(1) w by (simp add: x)
  moreover have "fpga.sees (e @ e') (concat (map (\<lambda>(c, field). para_frame c (field (SysPara w))) (x # tab)))"
    using fpga.sees_append [OF e(2) e'(2)] w by (simp add: x)
  ultimately show ?case by blast
qed

definition presdo_words :: "byte list \<Rightarrow> uint list" where
  "presdo_words bs = map (\<lambda>i. be32 (bs ! i) (bs ! (i + 1)) (bs ! (i + 2)) (bs ! (i + 3)))
     [0, 4, 8, 12, 16, 20, 24, 28]"

lemma does_presdo:
  assumes h: "never_full h PROTOCOL_FIFO_IN_CSR_BASE" and len: "32 \<le> length arr"
  shows "fpga.does (write_laser_presdo arr h) ([0x1234a104, 30] @ presdo_words arr @ [0xccccdddd])"
proof -
  have "fpga.does (for_each [0, 4, 8, 12, 16, 20, 24, 28] (\<lambda>i w. do { bs \<leftarrow> slice arr i 4;
      put_word (be32 (bs ! 0) (bs ! 1) (bs ! 2) (bs ! 3)) h w }))
    (concat (map (\<lambda>i. [be32 (arr ! i) (arr ! (i + 1)) (arr ! (i + 2)) (arr ! (i + 3))]) [0, 4, 8, 12, 16, 20, 24, 28]))"
  proof (rule fpga.does_for)
    fix i :: nat assume "i \<in> set [0, 4, 8, 12, 16, 20, 24, 28]"
    then have i: "i + 4 \<le> length arr" using len by auto
    have "fpga.does (put_word (be32 (arr ! i) (arr ! (i + 1)) (arr ! (i + 2)) (arr ! (i + 3))) h)
        [be32 (arr ! i) (arr ! (i + 1)) (arr ! (i + 2)) (arr ! (i + 3))]"
      by (rule does_put_word [OF h])
    then show "fpga.does (\<lambda>w. do { bs \<leftarrow> slice arr i 4; put_word (be32 (bs ! 0) (bs ! 1) (bs ! 2) (bs ! 3)) h w })
        [be32 (arr ! i) (arr ! (i + 1)) (arr ! (i + 2)) (arr ! (i + 3))]"
      using i by (simp add: slice_def)
  qed
  moreover have "concat (map (\<lambda>i. [g i]) xs) = map g xs" for g :: "nat \<Rightarrow> uint" and xs
    by (induction xs) auto
  ultimately have loop: "fpga.does (for_each [0, 4, 8, 12, 16, 20, 24, 28] (\<lambda>i w. do { bs \<leftarrow> slice arr i 4;
      put_word (be32 (bs ! 0) (bs ! 1) (bs ! 2) (bs ! 3)) h w })) (presdo_words arr)"
    unfolding presdo_words_def by (simp only:)
  have "fpga.does (write_laser_presdo arr h) ([0x1234a104] @ [30] @ presdo_words arr @ [0xccccdddd])"
    unfolding write_laser_presdo_def [abs_def]
    by (rule fpga.does_seq [OF does_put_word [OF h]], rule fpga.does_seq [OF does_put_word [OF h]],
        rule fpga.does_seq [OF loop], rule does_put_word [OF h])
  then show ?thesis by simp
qed

lemma init_fpga_sys_result:
  assumes "never_full h PROTOCOL_FIFO_IN_CSR_BASE" and "sys_para_wf (SysPara w)"
  shows "\<exists>evs c. init_fpga_sys h w = Some (w\<lparr>trace := trace w @ evs, Nios2FPGA_pck := c\<rparr>) \<and>
    fpga_words evs = concat (map (\<lambda>(c, field). para_frame c (field (SysPara w))) init_table) @
      [0x1234a104, 30] @ presdo_words (laser_presdo (SysPara w) @ [xxx1 (SysPara w), xxx2 (SysPara w)]) @
      [0xccccdddd]"
proof -
  let ?arr = "laser_presdo (SysPara w) @ [xxx1 (SysPara w), xxx2 (SysPara w)]"
  obtain e c where e: "for_each init_table (\<lambda>(c, field) w. set_laser_paramter c (field (SysPara w)) h w) w =
      Some (logged (w\<lparr>Nios2FPGA_pck := c\<rparr>) e)"
      "fpga.sees e (concat (map (\<lambda>(c, field). para_frame c (field (SysPara w))) init_table))"
    using set_laser_all_sees [OF assms(1)] by blast
  let ?w = "logged (w\<lparr>Nios2FPGA_pck := c\<rparr>) e"
  have "32 \<le> length ?arr" using assms(2) by (simp add: sys_para_wf_def)
  then obtain e' where e': "write_laser_presdo ?arr h ?w = Some (logged ?w e')"
      "fpga.sees e' ([0x1234a104, 30] @ presdo_words ?arr @ [0xccccdddd])"
    using fpga.doesD [OF does_presdo [OF assms(1)], of ?arr ?w] by blast
  have "init_fpga_sys h w = Some (logged ?w e')"
    using e(1) e'(1) by (simp add: init_fpga_sys_def logged_def)
  moreover have "logged ?w e' = w\<lparr>trace := trace w @ (e @ e'), Nios2FPGA_pck := c\<rparr>"
    by (simp add: logged_def)
  moreover have "fpga_words (e @ e') = concat (map (\<lambda>(c, field). para_frame c (field (SysPara w))) init_table) @
      [0x1234a104, 30] @ presdo_words ?arr @ [0xccccdddd]"
    using fpga.sees_append [OF e(2) e'(2)] by (rule sees_fpga)
  ultimately show ?thesis by (intro exI [of _ "e @ e'"] exI [of _ c] conjI) simp_all
qed


lemma world_init_simps [simp]: "SysPara world_init = SysPara_init" "trace world_init = []"
  by (simp_all add: world_init_def)


end
