(* ===== verification/Region.thy ===== *)
theory Region
  imports Nios2Fpga IicProtocol
begin

unbundle bit_operations_syntax

text \<open>
  \<open>region.c\<close>: the alarm regions and the system parameters in the EEPROM. Sixteen groups of three
  regions each lie in spaces of 0x800 bytes from address 0x1000; a region is 811 boundary values of
  16 bits and 103 bytes that describe its corner points. The program copies its arrays byte by
  byte, so the model uses their little-endian images.
\<close>

definition CUR_ALARM_GROUP :: uint where "CUR_ALARM_GROUP = 0x0000"
definition SYS_PARA_ADDR :: uint where "SYS_PARA_ADDR = 0x0400"
definition GROUP_OFFSET_ADDR :: uint where "GROUP_OFFSET_ADDR = 0x1000"
definition REGION_SPACE_SIZE :: uint where "REGION_SPACE_SIZE = 0x0800"

definition region_addr :: "nat \<Rightarrow> uint" where
  "region_addr num = GROUP_OFFSET_ADDR + word_of_nat num * REGION_SPACE_SIZE"

definition half_bytes :: "half list \<Rightarrow> byte list" where
  "half_bytes xs = concat (map le16_bytes xs)"

definition halves_of_bytes :: "byte list \<Rightarrow> half list" where
  "halves_of_bytes bs = map (\<lambda>i. le16 (take 2 (drop (2 * i) bs))) [0..<length bs div 2]"

definition region_save2eeprom :: "region_t \<Rightarrow> env \<Rightarrow> 'a bus_scheme \<Rightarrow> (bool \<times> 'a bus_scheme) option" where
  "region_save2eeprom region h w = do {
     w \<leftarrow> eeprom_write_byte 3 (ucast (select region)) h w;
     w \<leftarrow> delay_us 10000 w;
     let offset_addr = region_addr (unat (wr_which region));
     w \<leftarrow> eeprom_write_page offset_addr (half_bytes (region_buffer region)) (word_of_nat (TARGET_NUMBER * 2)) h w;
     let offset_addr = offset_addr + word_of_nat (TARGET_NUMBER * 2);
     w \<leftarrow> eeprom_write_page offset_addr (zenith_save region) (word_of_nat ZENITH_NUMBER) h w;
     Some (True, w)
   }"

definition region_save2fpga :: "region_t \<Rightarrow> nat \<Rightarrow> env \<Rightarrow> 'a bus_scheme \<Rightarrow> (bool \<times> 'a bus_scheme) option" where
  \<comment> \<open>for another layer number the header word is the uninitialised \<open>data\<close>\<close>
  "region_save2fpga region num h w = do {
     let data = (if num = 0 then 0x12340000 + WR_REGION0_DATA
                 else if num = 1 then 0x12340000 + WR_REGION1_DATA
                 else if num = 2 then 0x12340000 + WR_REGION2_DATA
                 else indet h ''data'' (trace w));
     w \<leftarrow> put_word data h w;
     w \<leftarrow> put_word 811 h w;
     w \<leftarrow> for_each [0..<811] (\<lambda>i w. do { v \<leftarrow> arr_get (region_buffer region) i; put_word (ucast v) h w }) w;
     w \<leftarrow> put_word 0xccccdddd h w;
     Some (True, w)
   }"

definition store_region :: "byte list \<Rightarrow> half list \<Rightarrow> half list option" where
  \<comment> \<open>bytes stored through \<open>(alt_u8 *)buffer\<close>\<close>
  "store_region bs xs = map_option halves_of_bytes (blit (half_bytes xs) 0 bs)"

definition region_read_from_rom :: "nat \<Rightarrow> env \<Rightarrow> world \<Rightarrow> (bool \<times> world) option" where
  \<comment> \<open>every caller passes \<open>alarm_region\<close>\<close>
  "region_read_from_rom num h w = do {
     let offset_addr = region_addr num;
     (bs, w) \<leftarrow> eeprom_sequential_read offset_addr (word_of_nat (TARGET_NUMBER * 2)) h w;
     buf \<leftarrow> store_region bs (region_buffer (alarm_region w));
     let w = w\<lparr>alarm_region := (alarm_region w)\<lparr>region_buffer := buf\<rparr>\<rparr>;
     (_, w) \<leftarrow> region_save2fpga (alarm_region w) (num mod 3) h w;
     Some (True, w)
   }"

definition save_sys_para :: "Sys_Para \<Rightarrow> env \<Rightarrow> 'a bus_scheme \<Rightarrow> 'a bus_scheme option" where
  "save_sys_para data h w = do {
     let buf = replicate 384 0;
     buf \<leftarrow> blit buf 0 (sys_para_bytes data);
     eeprom_write_page SYS_PARA_ADDR buf (word_of_nat SYS_PARA_SIZE) h w
   }"

definition DEV_PN_NUM :: "byte list" where
  \<comment> \<open>the literal with its terminator: thirteen bytes\<close>
  "DEV_PN_NUM = cstr ''01 0113 1525'' @ [0]"

definition FPGA_VERSION :: "byte list" where
  "FPGA_VERSION = cstr ''4.12''"

definition restore_para :: "byte list \<Rightarrow> env \<Rightarrow> 'a bus_scheme \<Rightarrow> Sys_Para" where
  \<comment> \<open>\<open>memcpy\<close> copies twenty bytes from the thirteen of the part number\<close>
  "restore_para buf h w = (sys_para_of_bytes buf)\<lparr>
     update_pos_flag := True, motor_enable := ENABLE, laser_enable := ENABLE, max_pwm_duty := 10,
     dust_threshold := 400, nios_ver := FPGA_VERSION, fpga_ver := FPGA_VERSION,
     dev_pn := DEV_PN_NUM @ map (\<lambda>i. over_read ''DEV_PN_NUM'' h i w) [0..<7]\<rparr>"

definition para_plausible :: "byte list \<Rightarrow> bool" where
  \<comment> \<open>the stored \<open>laser_enable\<close> is one of its two legal values\<close>
  "para_plausible buf \<longleftrightarrow>
     buf ! 4 = 0x11 \<and> buf ! 5 = 0x11 \<and> buf ! 6 = 0x11 \<and> buf ! 7 = 0x11 \<or>
     buf ! 4 = 0x22 \<and> buf ! 5 = 0x22 \<and> buf ! 6 = 0x22 \<and> buf ! 7 = 0x22"

primrec read_sys_para_loop :: "nat \<Rightarrow> env \<Rightarrow> world \<Rightarrow> world option" where
  "read_sys_para_loop 0 h w = Some w"
| "read_sys_para_loop (Suc num) h w = do {
     (buf, w) \<leftarrow> eeprom_sequential_read SYS_PARA_ADDR (word_of_nat SYS_PARA_SIZE) h w;
     let w = w\<lparr>SysPara := (SysPara w)\<lparr>dust_threshold := 400\<rparr>\<rparr>;
     if para_plausible buf then Some (w\<lparr>SysPara := restore_para buf h w\<rparr>)
     else read_sys_para_loop num h w
   }"

definition read_sys_para :: "env \<Rightarrow> world \<Rightarrow> world option" where
  "read_sys_para h w = read_sys_para_loop 5 h w"

definition rd_switch_io_value :: "env \<Rightarrow> 'a bus_scheme \<Rightarrow> (byte \<times> 'a bus_scheme) option" where
  "rd_switch_io_value h w = do {
     (v, w) \<leftarrow> IORD_PIO_DATA ALARM_SELECT_BASE h w;
     let data = (ucast v :: byte);
     Some (NOT data AND 0x0f, w)
   }"

subsection \<open>Byte images of the region buffer\<close>

lemma half_bytes_length [simp]: "length (half_bytes xs) = 2 * length xs"
  using le16_codec.enc_all_length [of xs] by (simp add: half_bytes_def list_all_iff)

lemma halves_of_half_bytes [simp]: "halves_of_bytes (half_bytes xs) = xs"
  using le16_codec.dec_all [of xs] by (simp add: halves_of_bytes_def half_bytes_length list_all_iff)
    (simp add: half_bytes_def)

lemma halves_of_bytes_length [simp]: "length (halves_of_bytes bs) = length bs div 2"
  by (simp add: halves_of_bytes_def)

lemma store_region_all:
  "length bs = 2 * length xs \<Longrightarrow> store_region bs xs = Some (halves_of_bytes bs)"
  by (simp add: store_region_def blit_def)

lemma store_region_none: "store_region [] xs = Some xs"
  by (simp add: store_region_def blit_def)

lemma store_region_length: "store_region bs xs = Some ys \<Longrightarrow> length ys = length xs"
  by (auto simp: store_region_def dest!: blit_length)

subsection \<open>Saving a region\<close>

definition in_page :: "uint \<Rightarrow> nat \<times> nat \<Rightarrow> bool" where
  \<comment> \<open>a run of a transfer to \<open>a\<close> that the page counter of the chip does not wrap\<close>
  "in_page a pg = (case pg of (off, n) \<Rightarrow> (unat a + off) mod 256 + n \<le> 256)"

lemma page_split_1622: "page_split 1622 = [(0, 256), (256, 256), (512, 256), (768, 256), (1024, 256), (1280, 256), (1536, 86)]"
  by (simp add: page_split_def upt_rec)

lemma page_split_103: "page_split 103 = [(0, 103)]"
  by (simp add: page_split_def)

lemma unat_region_addr: "num \<le> 255 \<Longrightarrow> unat (region_addr num) = 0x1000 + num * 0x800"
  by (simp add: region_addr_def GROUP_OFFSET_ADDR_def REGION_SPACE_SIZE_def unat_word_ariths
      unat_of_nat)

lemma does_save2eeprom:
  fixes region :: region_t
  assumes acks: "always_acks h" and len: "length (region_buffer region) = TARGET_NUMBER"
    and zen: "ZENITH_NUMBER \<le> length (zenith_save region)"
  defines "a \<equiv> region_addr (unat (wr_which region))"
  shows "wire.answers (region_save2eeprom region h) True
    ((Start # map Byte (address_bytes 3 3 @ [ucast (select region)]) @ [Stop]) @ [] @
     concat (map (page_syms a (half_bytes (region_buffer region))) (page_split 1622)) @
     concat (map (page_syms (a + 1622) (zenith_save region)) (page_split 103)) @ [])"
proof -
  have n1: "word_of_nat (TARGET_NUMBER * 2) = (1622 :: half)" "word_of_nat ZENITH_NUMBER = (103 :: half)"
      "word_of_nat (TARGET_NUMBER * 2) = (1622 :: uint)"
    by (simp_all add: TARGET_NUMBER_def ZENITH_NUMBER_def)
  have pages: "wire.does (eeprom_write_page a (half_bytes (region_buffer region)) 1622 h)
      (concat (map (page_syms a (half_bytes (region_buffer region))) (page_split 1622)))"
    using eeprom_write_page_transfers [OF acks, of 1622 "half_bytes (region_buffer region)" a] len
    by (simp add: TARGET_NUMBER_def)
  have zenith: "wire.does (eeprom_write_page (a + 1622) (zenith_save region) 103 h)
      (concat (map (page_syms (a + 1622) (zenith_save region)) (page_split 103)))"
    using eeprom_write_page_transfers [OF acks, of 103 "zenith_save region" "a + 1622"] zen
    by (simp add: ZENITH_NUMBER_def)
  have wait: "wire.does (delay_us 10000) []"
    by (rule wire.doesI [where evs = "\<lambda>_. [Spin 20000]"]) (simp_all add: wire.sees_spin)
  show ?thesis
    unfolding region_save2eeprom_def [abs_def] Let_def n1 a_def [symmetric]
    by (rule wire.answers_seq [OF eeprom_write_byte_transfers [OF acks]], rule wire.answers_seq [OF wait],
        rule wire.answers_seq [OF pages], rule wire.answers_seq [OF zenith], rule wire.answers_done)
qed

text \<open>C24: saving a region: an acknowledging EEPROM receives the selected group at address 3, then the
  811 boundary values and the 103 corner bytes, in consecutive page transfers at the region's
  address; no transfer crosses a page of the chip, so none is wrapped around.\<close>

theorem region_save2eeprom_protocol:
  assumes "always_acks h" and "length (region_buffer region) = TARGET_NUMBER"
    and "ZENITH_NUMBER \<le> length (zenith_save region)" and "a = region_addr (unat (wr_which region))"
  shows "\<exists>evs. region_save2eeprom region h w = Some (True, w\<lparr>trace := trace w @ evs\<rparr>) \<and>
    mon_run evs (Mon True True [] []) = Mon True True []
      (Start # map Byte (address_bytes 3 3 @ [ucast (select region)]) @ [Stop] @
       concat (map (page_syms a (half_bytes (region_buffer region))) (page_split 1622)) @
       concat (map (page_syms (a + 1622) (zenith_save region)) (page_split 103))) \<and>
    list_all (in_page a) (page_split 1622) \<and> list_all (in_page (a + 1622)) (page_split 103)"
proof -
  obtain evs where evs: "region_save2eeprom region h w = Some (True, logged w evs)"
      "wire.sees evs ((Start # map Byte (address_bytes 3 3 @ [ucast (select region)]) @ [Stop]) @ [] @
       concat (map (page_syms a (half_bytes (region_buffer region))) (page_split 1622)) @
       concat (map (page_syms (a + 1622) (zenith_save region)) (page_split 103)) @ [])"
    using wire.answersD [OF does_save2eeprom [OF assms(1-3)]] assms(4) by metis
  have "unat (wr_which region) \<le> 255"
    using unsigned_less [of "wr_which region", where 'a = nat] by simp
  moreover have "(0x1000 + n * 0x800) mod 256 = 0" for n :: nat
  proof -
    have "0x1000 + n * 0x800 = (16 + n * 8) * 256" by simp
    then show ?thesis by (simp only: mod_mult_self2_is_0)
  qed
  ultimately have a: "unat a = 0x1000 + unat (wr_which region) * 0x800" "unat a mod 256 = 0"
    using unat_region_addr assms(4) by (metis, metis)
  have "unat (a + 1622) = unat a + 1622"
    using a(1) \<open>unat (wr_which region) \<le> 255\<close> by (simp add: unat_word_ariths)
  moreover have "(unat a + x) mod 256 = x mod 256" for x
    using a(2) by (metis add_0 mod_add_left_eq)
  ultimately have "list_all (in_page a) (page_split 1622)" "list_all (in_page (a + 1622)) (page_split 103)"
    by (simp_all add: page_split_1622 page_split_103 in_page_def add.assoc)
  then show ?thesis
    using evs(1) sees_mon [OF evs(2), of "[]"] by (intro exI [of _ evs]) (simp add: logged_def)
qed

theorem region_save2eeprom_protocol_witness:
  "\<exists>evs. region_save2eeprom (region_init\<lparr>wr_which := 47\<rparr>) quiet_env world_init =
      Some (True, world_init\<lparr>trace := trace world_init @ evs\<rparr>) \<and>
    mon_run evs (Mon True True [] []) = Mon True True []
      (Start # map Byte (address_bytes 3 3 @ [ucast (select (region_init\<lparr>wr_which := 47\<rparr>))]) @ [Stop] @
       concat (map (page_syms 0x18800 (half_bytes (region_buffer (region_init\<lparr>wr_which := 47\<rparr>)))) (page_split 1622)) @
       concat (map (page_syms (0x18800 + 1622) (zenith_save (region_init\<lparr>wr_which := 47\<rparr>))) (page_split 103))) \<and>
    list_all (in_page 0x18800) (page_split 1622) \<and> list_all (in_page (0x18800 + 1622)) (page_split 103)"
  by (rule region_save2eeprom_protocol)
    (simp_all add: quiet_env_acks region_init_def ZENITH_NUMBER_def region_addr_def
      GROUP_OFFSET_ADDR_def REGION_SPACE_SIZE_def)

subsection \<open>The memory map\<close>

text \<open>C30: the memory map of the EEPROM: the forty-eight regions of the sixteen groups occupy pairwise
  disjoint ranges, all above the alarm group byte and the parameter block, within the addresses that
  can be read back and within the 17 bits the bus can address.\<close>

theorem region_windows_disjoint:
  assumes "i < 48" and "j < 48"
  shows "(i = j \<or> unat (region_addr i) + (2 * TARGET_NUMBER + ZENITH_NUMBER) \<le> unat (region_addr j) \<or>
      unat (region_addr j) + (2 * TARGET_NUMBER + ZENITH_NUMBER) \<le> unat (region_addr i)) \<and>
    unat CUR_ALARM_GROUP + 4 \<le> unat SYS_PARA_ADDR \<and>
    unat SYS_PARA_ADDR + SYS_PARA_SIZE \<le> unat (region_addr i) \<and>
    unat (region_addr i) + (2 * TARGET_NUMBER + ZENITH_NUMBER) \<le> unat AT24C1024_MAX_ADDR \<and>
    unat AT24C1024_MAX_ADDR < 2 ^ 17"
  using assms
  by (auto simp: unat_region_addr TARGET_NUMBER_def ZENITH_NUMBER_def SYS_PARA_ADDR_def SYS_PARA_SIZE_def
      CUR_ALARM_GROUP_def AT24C1024_MAX_ADDR_def)

theorem region_windows_disjoint_witness:
  "(3 = (4 :: nat) \<or> unat (region_addr 3) + (2 * TARGET_NUMBER + ZENITH_NUMBER) \<le> unat (region_addr 4) \<or>
      unat (region_addr 4) + (2 * TARGET_NUMBER + ZENITH_NUMBER) \<le> unat (region_addr 3)) \<and>
    unat CUR_ALARM_GROUP + 4 \<le> unat SYS_PARA_ADDR \<and>
    unat SYS_PARA_ADDR + SYS_PARA_SIZE \<le> unat (region_addr 3) \<and>
    unat (region_addr 3) + (2 * TARGET_NUMBER + ZENITH_NUMBER) \<le> unat AT24C1024_MAX_ADDR \<and>
    unat AT24C1024_MAX_ADDR < 2 ^ 17"
  by (rule region_windows_disjoint) simp_all

text \<open>A region number outside the sixteen groups is not refused: number 62 is written with exactly the
  bus addresses of offset 0, so its third page lands on the parameter block at 0x400.\<close>

theorem region_62_overwrites_parameters:
  "map (\<lambda>(off, n). address_bytes (region_addr 62) (region_addr 62 + word_of_nat off)) (page_split 1622) =
     map (\<lambda>(off, n). address_bytes 0 (word_of_nat off)) (page_split 1622) \<and>
   address_bytes (region_addr 62) (region_addr 62 + 0x400) = address_bytes SYS_PARA_ADDR SYS_PARA_ADDR"
  by (simp add: page_split_1622 address_bytes_def eeprom_cmd_def byte_of_def region_addr_def
      GROUP_OFFSET_ADDR_def REGION_SPACE_SIZE_def SYS_PARA_ADDR_def)

subsection \<open>Loading a region into the FPGA\<close>

lemma answers_save2fpga:
  fixes region :: region_t
  assumes h: "never_full h PROTOCOL_FIFO_IN_CSR_BASE" and len: "length (region_buffer region) = 811" and "k < 3"
  shows "fpga.answers (region_save2fpga region k h) True
    ([0x1234b100 + word_of_nat k] @ [811] @ map ucast (region_buffer region) @ [0xccccdddd] @ [])"
proof -
  have loop: "fpga.does (for_each [0..<811] (\<lambda>i w. do { v \<leftarrow> arr_get (region_buffer region) i; put_word (ucast v) h w }))
      (concat (map (\<lambda>i. [ucast (region_buffer region ! i)]) [0..<811]))"
    using len by (intro fpga.does_for) (auto simp: does_put_word [OF h])
  have "concat (map (\<lambda>i. [ucast (region_buffer region ! i)]) [0..<811]) = map (ucast :: half \<Rightarrow> uint) (region_buffer region)"
  proof -
    have "concat (map (\<lambda>i. [g i]) xs) = map g xs" for g :: "nat \<Rightarrow> uint" and xs
      by (induction xs) auto
    then show ?thesis using len by (intro nth_equalityI) (simp_all del: upt_rec_numeral)
  qed
  then have loop': "fpga.does (for_each [0..<811] (\<lambda>i w. do { v \<leftarrow> arr_get (region_buffer region) i; put_word (ucast v) h w }))
      (map ucast (region_buffer region))"
    using loop by (simp only:)
  have "k = 0 \<or> k = 1 \<or> k = 2" using \<open>k < 3\<close> by auto
  then have "(if k = 0 then 0x12340000 + WR_REGION0_DATA else if k = 1 then 0x12340000 + WR_REGION1_DATA
      else if k = 2 then 0x12340000 + WR_REGION2_DATA else indet h ''data'' (trace w)) = 0x1234b100 + word_of_nat k" for w :: "'a bus_scheme"
    by (auto simp: WR_REGION0_DATA_def WR_REGION1_DATA_def WR_REGION2_DATA_def)
  then show ?thesis
    unfolding region_save2fpga_def [abs_def] Let_def
    by (simp only:) (rule fpga.answers_seq [OF does_put_word [OF h]], rule fpga.answers_seq [OF does_put_word [OF h]],
        rule fpga.answers_seq [OF loop'], rule fpga.answers_seq [OF does_put_word [OF h]], rule fpga.answers_done)
qed

lemma region_load_result:
  assumes "eeprom_sequential_read (region_addr num) 1622 h w = Some (bs, w\<lparr>trace := trace w @ pre\<rparr>)"
    and "length bs = 1622" and "length (region_buffer (alarm_region w)) = 811"
    and "never_full h PROTOCOL_FIFO_IN_CSR_BASE"
  shows "\<exists>evs. region_read_from_rom num h w = Some (True, w\<lparr>trace := trace w @ pre @ evs,
      alarm_region := (alarm_region w)\<lparr>region_buffer := halves_of_bytes bs\<rparr>\<rparr>) \<and>
    fpga_words evs = [0x1234b100 + word_of_nat (num mod 3), 811] @ map ucast (halves_of_bytes bs) @ [0xccccdddd]"
proof -
  let ?r = "(alarm_region w)\<lparr>region_buffer := halves_of_bytes bs\<rparr>"
  let ?w = "(w\<lparr>trace := trace w @ pre\<rparr>)\<lparr>alarm_region := ?r\<rparr>"
  have store: "store_region bs (region_buffer (alarm_region w)) = Some (halves_of_bytes bs)"
    using assms(2,3) by (intro store_region_all) simp
  have n: "word_of_nat (TARGET_NUMBER * 2) = (1622 :: half)"
    by (simp add: TARGET_NUMBER_def)
  obtain evs where evs: "region_save2fpga ?r (num mod 3) h ?w = Some (True, logged ?w evs)"
      "fpga.sees evs ([0x1234b100 + word_of_nat (num mod 3)] @ [811] @ map ucast (region_buffer ?r) @ [0xccccdddd] @ [])"
    using fpga.answersD [OF answers_save2fpga [OF assms(4), of ?r "num mod 3"], of ?w] assms(2) by auto
  have "region_read_from_rom num h w = Some (True, logged ?w evs)"
    unfolding region_read_from_rom_def Let_def n assms(1) using store evs(1) by simp
  moreover have "logged ?w evs = w\<lparr>trace := trace w @ pre @ evs, alarm_region := ?r\<rparr>"
    by (simp add: logged_def)
  ultimately show ?thesis
    using sees_fpga [OF evs(2)] by (intro exI [of _ evs]) simp
qed

text \<open>C21: loading a region: when the EEPROM delivers the 1622 stored bytes, they become the region buffer
  (little-endian pairs) and the FPGA receives one frame with the command of the layer, the count and
  those 811 values in order; nothing else in memory changes.\<close>

theorem region_load_to_fpga:
  assumes "eeprom_sequential_read (region_addr num) 1622 h w = Some (bs, w\<lparr>trace := trace w @ pre\<rparr>)"
    and "length bs = 1622" and "length (region_buffer (alarm_region w)) = 811"
    and "never_full h PROTOCOL_FIFO_IN_CSR_BASE"
  shows "\<exists>evs. region_read_from_rom num h w = Some (True, w\<lparr>trace := trace w @ pre @ evs,
      alarm_region := (alarm_region w)\<lparr>region_buffer := halves_of_bytes bs\<rparr>\<rparr>) \<and>
    fpga_words evs = [0x1234b100 + word_of_nat (num mod 3), 811] @ map ucast (halves_of_bytes bs) @ [0xccccdddd]"
  using region_load_result [OF assms] .

theorem region_load_to_fpga_witness:
  "\<exists>pre evs. region_read_from_rom 4 (eeprom_env (replicate 1622 7)) world_init =
      Some (True, world_init\<lparr>trace := trace world_init @ pre @ evs,
        alarm_region := (alarm_region world_init)\<lparr>region_buffer := halves_of_bytes (replicate 1622 7)\<rparr>\<rparr>) \<and>
    fpga_words evs = [0x1234b100 + word_of_nat (4 mod 3), 811] @ map ucast (halves_of_bytes (replicate 1622 7)) @ [0xccccdddd]"
proof -
  obtain pre where "eeprom_sequential_read (region_addr 4) 1622 (eeprom_env (replicate 1622 7)) world_init =
      Some (take (unat (1622 :: half)) (replicate 1622 7), logged world_init pre)"
    using eeprom_env_read [of 1622 "replicate 1622 7" "region_addr 4" world_init]
    by (auto simp: region_addr_def GROUP_OFFSET_ADDR_def REGION_SPACE_SIZE_def AT24C1024_MAX_ADDR_def)
  then have pre: "eeprom_sequential_read (region_addr 4) 1622 (eeprom_env (replicate 1622 7)) world_init =
      Some (replicate 1622 7, world_init\<lparr>trace := trace world_init @ pre\<rparr>)"
    by (simp add: logged_def)
  have "length (region_buffer (alarm_region world_init)) = 811"
    by (simp add: world_init_def region_init_def TARGET_NUMBER_def)
  moreover have "never_full (eeprom_env bs) PROTOCOL_FIFO_IN_CSR_BASE" for bs
    by (simp add: never_full_def eeprom_env_def)
  ultimately show ?thesis
    using region_load_to_fpga [OF pre] by (metis length_replicate)
qed

subsection \<open>The parameter block in the EEPROM\<close>

fun payload_step :: "nat \<times> byte list \<Rightarrow> sym \<Rightarrow> nat \<times> byte list" where
  "payload_step (n, bs) Start = (0, bs)"
| "payload_step (n, bs) Stop = (n, bs)"
| "payload_step (n, bs) (Byte b) = (Suc n, if n < 3 then bs else bs @ [b])"

definition payload :: "sym list \<Rightarrow> byte list" where
  \<comment> \<open>the data bytes of a run of write transactions: what follows the three address bytes\<close>
  "payload syms = snd (foldl payload_step (0, []) syms)"

lemma payload_bytes:
  "3 \<le> n \<Longrightarrow> foldl payload_step (n, ds) (map Byte xs) = (n + length xs, ds @ xs)"
  by (induction xs arbitrary: n ds) simp_all

lemma payload_page:
  "foldl payload_step (m, ds) (page_syms a dat (off, n)) = (3 + min (length dat - off) n, ds @ take n (drop off dat))"
  by (simp add: page_syms_def address_bytes_def payload_bytes)

lemma payload_pages:
  "payload (concat (map (page_syms a dat) pgs)) = concat (map (\<lambda>(off, n). take n (drop off dat)) pgs)"
proof -
  have "snd (foldl payload_step (m, ds) (concat (map (page_syms a dat) pgs))) =
      ds @ concat (map (\<lambda>(off, n). take n (drop off dat)) pgs)" for m ds
    by (induction pgs arbitrary: m ds) (auto simp: payload_page)
  then show ?thesis by (simp add: payload_def)
qed

text \<open>Storing the parameters: an acknowledging EEPROM receives the 308-byte image of the parameter
  block at address 0x400, in page transfers that stay inside its pages, and decoding the data bytes
  it got gives the block back.\<close>

theorem save_sys_para_stores_image:
  assumes "always_acks h" and "sys_para_wf p"
  shows "\<exists>evs syms. save_sys_para p h w = Some (w\<lparr>trace := trace w @ evs\<rparr>) \<and>
    mon_run evs (Mon True True [] []) = Mon True True [] syms \<and>
    syms = concat (map (page_syms 0x400 (sys_para_bytes p @ replicate 76 0)) [(0, 256), (256, 52)]) \<and>
    list_all (in_page 0x400) [(0, 256), (256, 52)] \<and>
    payload syms = sys_para_bytes p \<and> sys_para_of_bytes (payload syms) = p"
proof -
  let ?buf = "sys_para_bytes p @ replicate 76 0"
  have len: "length (sys_para_bytes p) = 308"
    using sys_para_bytes_length [OF assms(2)] by (simp add: SYS_PARA_SIZE_def)
  have buf: "blit (replicate 384 0) 0 (sys_para_bytes p) = Some ?buf"
    using len by (simp add: blit_def)
  have split: "page_split 308 = [(0, 256), (256, 52)]"
    by (simp add: page_split_def)
  obtain evs where evs: "eeprom_write_page 0x400 ?buf 308 h w = Some (logged w evs)"
      "wire.sees evs (concat (map (page_syms 0x400 ?buf) [(0, 256), (256, 52)]))"
    using wire.doesD [OF eeprom_write_page_transfers [OF assms(1), where addr = "0x400" and dat = ?buf and len = 308]] len split by auto
  let ?syms = "concat (map (page_syms 0x400 ?buf) [(0, 256), (256, 52)])"
  have "save_sys_para p h w = Some (w\<lparr>trace := trace w @ evs\<rparr>)"
    using evs(1) buf by (simp add: save_sys_para_def SYS_PARA_ADDR_def SYS_PARA_SIZE_def Let_def logged_def)
  moreover have "payload ?syms = concat (map (\<lambda>(off, n). take n (drop off ?buf)) [(0, 256), (256, 52)])"
    by (rule payload_pages)
  then have "payload ?syms = sys_para_bytes p"
    using page_split_covers [of ?buf 308] len split by (simp only: take_append) simp
  ultimately show ?thesis
    using sees_mon [OF evs(2), of "[]"] assms(2)
    by (intro exI [of _ evs] exI [of _ ?syms]) (simp add: in_page_def sys_para_decode)
qed

theorem save_sys_para_stores_image_witness:
  "\<exists>evs syms. save_sys_para SysPara_init quiet_env world_init = Some (world_init\<lparr>trace := trace world_init @ evs\<rparr>) \<and>
    mon_run evs (Mon True True [] []) = Mon True True [] syms \<and>
    syms = concat (map (page_syms 0x400 (sys_para_bytes SysPara_init @ replicate 76 0)) [(0, 256), (256, 52)]) \<and>
    list_all (in_page 0x400) [(0, 256), (256, 52)] \<and>
    payload syms = sys_para_bytes SysPara_init \<and> sys_para_of_bytes (payload syms) = SysPara_init"
  by (rule save_sys_para_stores_image) (rule quiet_env_acks, rule SysPara_init_wf)

lemma le32_at4:
  "length pad = 3 \<Longrightarrow> ([b] @ pad @ le32_bytes v @ rest) ! 4 = byte_of 0 v \<and>
     ([b] @ pad @ le32_bytes v @ rest) ! 5 = byte_of 8 v \<and>
     ([b] @ pad @ le32_bytes v @ rest) ! 6 = byte_of 16 v \<and>
     ([b] @ pad @ le32_bytes v @ rest) ! 7 = byte_of 24 v"
  by (simp add: nth_append le32_bytes_def nth_Cons')

lemma para_plausible_bytes:
  assumes "sys_para_wf p" and "laser_enable p = ENABLE \<or> laser_enable p = DISABLE"
  shows "para_plausible (sys_para_bytes p)"
proof -
  obtain rest where "sys_para_bytes p = [of_bool (update_pos_flag p)] @ sp_pad p @ le32_bytes (laser_enable p) @ rest"
    unfolding sys_para_bytes_def by (simp only: append_assoc)
  then show ?thesis
    using assms le32_at4 [of "sp_pad p" "of_bool (update_pos_flag p)" "laser_enable p" rest]
    by (auto simp: para_plausible_def sys_para_wf_def ENABLE_def DISABLE_def byte_of_def)
qed

lemma eeprom_env_para:
  assumes "length bs = 308" and "trace w = []"
  shows "\<exists>pre. eeprom_sequential_read SYS_PARA_ADDR 308 (eeprom_env bs) w =
      Some (bs, w\<lparr>trace := trace w @ pre\<rparr>)"
  using eeprom_env_read [of 308 bs SYS_PARA_ADDR w] assms
  by (simp add: SYS_PARA_ADDR_def AT24C1024_MAX_ADDR_def logged_def sda_reads_def)

text \<open>C22: power-up: when the EEPROM delivers the image of a well-formed parameter block whose laser switch
  has one of its two legal values, that block becomes the parameters, with the laser and the motor
  switched on, position updates on, the maximum PWM duty and the dust threshold set to their fixed
  values, and the versions and the part number those of the firmware; nothing else in memory changes.\<close>

theorem read_sys_para_restores:
  assumes "eeprom_sequential_read SYS_PARA_ADDR 308 h w = Some (sys_para_bytes p, w\<lparr>trace := trace w @ pre\<rparr>)"
    and "sys_para_wf p" and "laser_enable p = ENABLE \<or> laser_enable p = DISABLE"
  shows "\<exists>pn. read_sys_para h w = Some (w\<lparr>trace := trace w @ pre, SysPara := p\<lparr>
      update_pos_flag := True, motor_enable := ENABLE, laser_enable := ENABLE, max_pwm_duty := 10,
      dust_threshold := 400, nios_ver := FPGA_VERSION, fpga_ver := FPGA_VERSION, dev_pn := pn\<rparr>\<rparr>) \<and>
    take 13 pn = cstr ''01 0113 1525'' @ [0] \<and> length pn = 20"
proof -
  have n: "word_of_nat SYS_PARA_SIZE = (308 :: half)" by (simp add: SYS_PARA_SIZE_def)
  have five: "(5 :: nat) = Suc 4" by simp
  let ?w = "w\<lparr>trace := trace w @ pre, SysPara := (SysPara w)\<lparr>dust_threshold := 400\<rparr>\<rparr>"
  let ?pn = "DEV_PN_NUM @ map (\<lambda>i. over_read ''DEV_PN_NUM'' h i ?w) [0..<7]"
  have "read_sys_para_loop (Suc k) h w = Some (?w\<lparr>SysPara := restore_para (sys_para_bytes p) h ?w\<rparr>)" for k
    by (simp add: n assms(1) para_plausible_bytes [OF assms(2,3)] Let_def)
  then have "read_sys_para h w = Some (?w\<lparr>SysPara := restore_para (sys_para_bytes p) h ?w\<rparr>)"
    by (simp only: read_sys_para_def five)
  then show ?thesis
    unfolding restore_para_def sys_para_decode [OF assms(2)]
    by (intro exI [of _ ?pn]) (simp add: DEV_PN_NUM_def del: upt_rec_numeral upt_Suc)
qed

theorem read_sys_para_restores_witness:
  "\<exists>pre pn. read_sys_para (eeprom_env (sys_para_bytes SysPara_init)) world_init =
      Some (world_init\<lparr>trace := trace world_init @ pre, SysPara := SysPara_init\<lparr>
      update_pos_flag := True, motor_enable := ENABLE, laser_enable := ENABLE, max_pwm_duty := 10,
      dust_threshold := 400, nios_ver := FPGA_VERSION, fpga_ver := FPGA_VERSION, dev_pn := pn\<rparr>\<rparr>) \<and>
    take 13 pn = cstr ''01 0113 1525'' @ [0] \<and> length pn = 20"
proof -
  have "length (sys_para_bytes SysPara_init) = 308"
    using sys_para_bytes_length [OF SysPara_init_wf] by (simp add: SYS_PARA_SIZE_def)
  then obtain pre where "eeprom_sequential_read SYS_PARA_ADDR 308 (eeprom_env (sys_para_bytes SysPara_init)) world_init =
      Some (sys_para_bytes SysPara_init, world_init\<lparr>trace := trace world_init @ pre\<rparr>)"
    using eeprom_env_para [of "sys_para_bytes SysPara_init" world_init] by (auto simp: world_init_def)
  from read_sys_para_restores [OF this SysPara_init_wf] show ?thesis
    by (auto simp: SysPara_init_def ENABLE_def)
qed

lemma eeprom_blank_read:
  assumes "\<And>tr. rd h tr SDA_BASE 0 = 1"
  shows "\<exists>pre. eeprom_sequential_read SYS_PARA_ADDR 308 h w = Some (replicate 308 0xff, logged w pre)"
proof -
  have "clocked h (\<lambda>_. True)" using assms by (simp add: clocked_def)
  moreover have "map (\<lambda>i. True) [0..<8] = [True, True, True, True, True, True, True, True]"
    by code_simp
  then have "byte_at (\<lambda>_. True) j = 0xff" for j
    using byte_of_bits_msb [of "0xff"] by (simp add: byte_at_def)
  ultimately show ?thesis
    using eeprom_sequential_clocked [of h "\<lambda>_. True" SYS_PARA_ADDR 308 w]
    by (simp add: SYS_PARA_ADDR_def AT24C1024_MAX_ADDR_def map_replicate_const)
qed

text \<open>Whatever the EEPROM holds or acknowledges, the restore makes its attempts and returns.\<close>

lemma read_sys_para_loop_total: "\<exists>w'. read_sys_para_loop n h w = Some w'"
proof (induction n arbitrary: w)
  case 0
  show ?case by simp
next
  case (Suc n)
  obtain bs evs where "eeprom_sequential_read SYS_PARA_ADDR (word_of_nat SYS_PARA_SIZE) h w = Some (bs, logged w evs)"
    using eeprom_sequential_total [of SYS_PARA_ADDR "word_of_nat SYS_PARA_SIZE" h w]
    by (auto simp: SYS_PARA_ADDR_def AT24C1024_MAX_ADDR_def)
  then show ?case using Suc.IH by (simp add: Let_def)
qed

lemma read_sys_para_loop_blank:
  assumes "\<And>tr. rd h tr SDA_BASE 0 = 1"
  shows "\<exists>evs. read_sys_para_loop (Suc n) h w =
    Some (w\<lparr>trace := trace w @ evs, SysPara := (SysPara w)\<lparr>dust_threshold := 400\<rparr>\<rparr>)"
proof (induction n arbitrary: w)
  case 0
  obtain e1 where "eeprom_sequential_read SYS_PARA_ADDR 308 h w = Some (replicate 308 0xff, logged w e1)"
    using eeprom_blank_read [OF assms] by blast
  then show ?case
    by (intro exI [of _ e1]) (simp add: SYS_PARA_SIZE_def para_plausible_def logged_def Let_def)
next
  case (Suc n)
  obtain e1 where e1: "eeprom_sequential_read SYS_PARA_ADDR 308 h w = Some (replicate 308 0xff, logged w e1)"
    using eeprom_blank_read [OF assms] by blast
  let ?w = "(logged w e1)\<lparr>SysPara := (SysPara w)\<lparr>dust_threshold := 400\<rparr>\<rparr>"
  obtain e2 where e2: "read_sys_para_loop (Suc n) h ?w =
      Some (?w\<lparr>trace := trace ?w @ e2, SysPara := (SysPara ?w)\<lparr>dust_threshold := 400\<rparr>\<rparr>)"
    using Suc.IH by blast
  have "\<not> para_plausible (replicate 308 0xff)"
    by (simp add: para_plausible_def)
  then have "read_sys_para_loop (Suc (Suc n)) h w = read_sys_para_loop (Suc n) h ?w"
    using e1 by (subst read_sys_para_loop.simps) (simp add: SYS_PARA_SIZE_def Let_def logged_def del: read_sys_para_loop.simps)
  then show ?case
    using e2 by (intro exI [of _ "e1 @ e2"]) (simp add: logged_def del: read_sys_para_loop.simps)
qed

text \<open>Power-up with a data line that stays high, as on a board without EEPROM: after its attempts the
  restore gives up, returns, and leaves every parameter at its compiled-in value except the dust
  threshold.\<close>

theorem read_sys_para_blank:
  assumes "\<forall>tr. rd h tr SDA_BASE 0 = 1"
  shows "\<exists>evs. read_sys_para h w =
    Some (w\<lparr>trace := trace w @ evs, SysPara := (SysPara w)\<lparr>dust_threshold := 400\<rparr>\<rparr>)"
proof -
  have five: "(5 :: nat) = Suc 4" by simp
  show ?thesis
    unfolding read_sys_para_def five by (rule read_sys_para_loop_blank) (use assms in blast)
qed

theorem read_sys_para_blank_witness:
  "\<exists>evs. read_sys_para (quiet_env\<lparr>rd := \<lambda>_ _ _. 1\<rparr>) world_init =
    Some (world_init\<lparr>trace := trace world_init @ evs,
      SysPara := (SysPara world_init)\<lparr>dust_threshold := 400\<rparr>\<rparr>)"
  by (rule read_sys_para_blank) simp

subsection \<open>The transfers end\<close>

text \<open>With arrays of their declared lengths the transfers return, whatever the EEPROM and the FPGA do.\<close>

lemma eeprom_write_page_total:
  assumes "unat len \<le> length dat"
  shows "\<exists>evs. eeprom_write_page addr dat len h w = Some (logged w evs)"
proof -
  let ?k = "unat len div 256" and ?r = "unat len mod 256"
  have run: "\<exists>evs. eeprom_write_run (eeprom_cmd addr) a dat off n h v = Some (logged v evs)"
    if "off + n \<le> length dat" for off n a and v :: "'a bus_scheme"
    using eeprom_write_run_result [OF that, of addr a h v] by blast
  have all: "?k * 256 + ?r \<le> length dat" using assms by simp
  have inside: "i * 256 + 256 \<le> length dat" if "i \<in> set [0..<?k]" for i
  proof -
    have "Suc i * 256 \<le> ?k * 256" using that by (intro mult_le_mono) auto
    then show ?thesis using all by simp
  qed
  obtain e where "for_each [0..<?k] (\<lambda>i. eeprom_write_run (eeprom_cmd addr) (addr + of_nat (i * 256)) dat (i * 256) 256 h) w =
      Some (logged w e)"
    using for_each_total [of "[0..<?k]" "\<lambda>i. eeprom_write_run (eeprom_cmd addr) (addr + of_nat (i * 256)) dat (i * 256) 256 h" w]
      run [OF inside] by blast
  moreover obtain e' where "eeprom_write_run (eeprom_cmd addr) (addr + of_nat (?k * 256)) dat (?k * 256) ?r h (logged w e) =
      Some (logged (logged w e) e')"
    using run [OF all] by blast
  ultimately show ?thesis
    unfolding eeprom_write_page_def Let_def page_counts EEPROM_PAGE_SIZE_def by (cases "?r = 0") auto
qed

lemma region_save2fpga_total:
  assumes "length (region_buffer region) = 811"
  shows "\<exists>evs. region_save2fpga region k h w = Some (True, logged w evs)"
proof -
  have loop: "\<exists>evs. for_each [0..<811] (\<lambda>i w. do { v \<leftarrow> arr_get (region_buffer region) i; put_word (ucast v) h w }) v = Some (logged v evs)"
    for v :: "'a bus_scheme"
    using assms put_word_total by (intro for_each_total) auto
  obtain d where d: "(if k = 0 then 0x12340000 + WR_REGION0_DATA else if k = 1 then 0x12340000 + WR_REGION1_DATA
      else if k = 2 then 0x12340000 + WR_REGION2_DATA else indet h ''data'' (trace w)) = d" by blast
  obtain e1 where 1: "put_word d h w = Some (logged w e1)" using put_word_total by blast
  obtain e2 where 2: "put_word 811 h (logged w e1) = Some (logged (logged w e1) e2)" using put_word_total by blast
  obtain e3 where 3: "for_each [0..<811] (\<lambda>i w. do { v \<leftarrow> arr_get (region_buffer region) i; put_word (ucast v) h w })
      (logged w (e1 @ e2)) = Some (logged (logged w (e1 @ e2)) e3)" using loop by blast
  obtain e4 where "put_word 0xccccdddd h (logged w (e1 @ e2 @ e3)) = Some (logged (logged w (e1 @ e2 @ e3)) e4)"
    using put_word_total by blast
  with 1 2 3 show ?thesis unfolding region_save2fpga_def Let_def d by (simp del: upt_rec_numeral) (rule exI, rule refl)
qed

lemma region_read_returns:
  assumes "length (region_buffer (alarm_region w)) = 811"
  shows "\<exists>w'. region_read_from_rom num h w = Some (True, w')"
proof -
  obtain bs e where bs: "eeprom_sequential_read (region_addr num) (word_of_nat (TARGET_NUMBER * 2)) h w = Some (bs, logged w e)"
    "bs = [] \<or> length bs = 1622"
  proof (cases "region_addr num \<le> AT24C1024_MAX_ADDR")
    case True
    then show ?thesis
      using eeprom_sequential_total [OF True, of "word_of_nat (TARGET_NUMBER * 2)" h w] that by (auto simp: TARGET_NUMBER_def)
  next
    case False
    then have "eeprom_sequential_read (region_addr num) (word_of_nat (TARGET_NUMBER * 2)) h w = Some ([], logged w [])"
      by (simp add: eeprom_sequential_read_def not_le)
    then show ?thesis using that by blast
  qed
  have "length (region_buffer (alarm_region (logged w e))) = 811" using assms by (simp add: logged_def)
  then obtain buf where "store_region bs (region_buffer (alarm_region (logged w e))) = Some buf" "length buf = 811"
    using bs(2) store_region_all [of bs "region_buffer (alarm_region (logged w e))"] store_region_none by auto
  define v where "v = (logged w e)\<lparr>alarm_region := (alarm_region (logged w e))\<lparr>region_buffer := buf\<rparr>\<rparr>"
  obtain e' where "region_save2fpga (alarm_region v) (num mod 3) h v = Some (True, logged v e')"
    using region_save2fpga_total [of "alarm_region v" "num mod 3" h v] \<open>length buf = 811\<close> by (auto simp: v_def)
  with bs(1) \<open>store_region _ _ = _\<close> show ?thesis
    unfolding region_read_from_rom_def Let_def v_def by simp
qed

lemma region_save2eeprom_total:
  assumes "length (region_buffer region) = 811" and "103 \<le> length (zenith_save region)"
  shows "\<exists>evs. region_save2eeprom region h w = Some (True, logged w evs)"
proof -
  obtain e1 where 1: "eeprom_write_byte 3 (ucast (select region)) h w = Some (logged w e1)"
    using eeprom_write_byte_result by blast
  let ?v = "logged (logged w e1) [Spin 20000]" and ?a = "region_addr (unat (wr_which region))"
  obtain e2 where 2: "eeprom_write_page ?a (half_bytes (region_buffer region)) (word_of_nat (TARGET_NUMBER * 2)) h ?v = Some (logged ?v e2)"
    using eeprom_write_page_total [of "word_of_nat (TARGET_NUMBER * 2)" "half_bytes (region_buffer region)" ?a h ?v] assms(1)
    by (auto simp: TARGET_NUMBER_def)
  obtain e3 where "eeprom_write_page (?a + word_of_nat (TARGET_NUMBER * 2)) (zenith_save region) (word_of_nat ZENITH_NUMBER) h (logged ?v e2) =
      Some (logged (logged ?v e2) e3)"
    using eeprom_write_page_total [of "word_of_nat ZENITH_NUMBER" "zenith_save region" "?a + word_of_nat (TARGET_NUMBER * 2)" h "logged ?v e2"] assms(2)
    by (auto simp: ZENITH_NUMBER_def)
  with 1 2 show ?thesis by (simp add: region_save2eeprom_def Let_def) (rule exI, rule refl)
qed

lemma save_sys_para_total:
  assumes "sys_para_wf p"
  shows "\<exists>evs. save_sys_para p h w = Some (logged w evs)"
proof -
  have "length (sys_para_bytes p) = 308" using sys_para_bytes_length [OF assms] by (simp add: SYS_PARA_SIZE_def)
  then obtain buf where buf: "blit (replicate 384 0) 0 (sys_para_bytes p) = Some buf" "length buf = 384"
    by (simp add: blit_def)
  then show ?thesis
    using eeprom_write_page_total [of "word_of_nat SYS_PARA_SIZE" buf SYS_PARA_ADDR h w]
    by (simp add: save_sys_para_def SYS_PARA_SIZE_def)
qed

end
