(* ===== verification/Device.thy ===== *)
theory Device
  imports World SocketSpec
begin

unbundle bit_operations_syntax

text \<open>
  \<open>device.c\<close>: reset of the network chip, the default network configuration, and its transfer to the
  chip. \<open>reboot\<close> jumps to an address stored in memory and is not modelled.
\<close>

definition txsize :: "byte list" where "txsize = [4, 4, 0, 0, 2, 2, 2, 2]"
definition rxsize :: "byte list" where "rxsize = [4, 4, 0, 0, 2, 2, 2, 2]"
definition FW_VER_HIGH :: byte where "FW_VER_HIGH = 1"
definition FW_VER_LOW :: byte where "FW_VER_LOW = 0"
definition NORMAL_STATE :: byte where "NORMAL_STATE = 0"

definition Reset_W5500 :: "'a bus_scheme \<Rightarrow> 'a bus_scheme option" where
  "Reset_W5500 w = do {
     w \<leftarrow> IOWR_PIO_DATA W5500_RST_BASE 0x00 w;
     w \<leftarrow> delay_ms 5 w;
     w \<leftarrow> IOWR_PIO_DATA W5500_RST_BASE 0x01 w;
     delay_ms 5 w
   }"

definition set_network :: "env \<Rightarrow> world \<Rightarrow> world option" where
  \<comment> \<open>the three addresses read back are not looked at\<close>
  "set_network h w = do {
     w \<leftarrow> setSHAR (cfg_mac (ConfigMsg w)) h w;
     w \<leftarrow> setSUBR (cfg_sub (ConfigMsg w)) h w;
     w \<leftarrow> setGAR (cfg_gw (ConfigMsg w)) h w;
     w \<leftarrow> setSIPR (cfg_lip (ConfigMsg w)) h w;
     w \<leftarrow> sysinit txsize rxsize h w;
     w \<leftarrow> setRTR 5000 h w;
     w \<leftarrow> setRCR 3 h w;
     (ip, w) \<leftarrow> getSIPR h w;
     (ip, w) \<leftarrow> getSUBR h w;
     (ip, w) \<leftarrow> getGAR h w;
     Some w
   }"

definition set_default :: "world \<Rightarrow> world" where
  "set_default w =
     (let c = ConfigMsg w;
          c = c\<lparr>cfg_lip := [192, 168, 0, 1]\<rparr>;
          c = c\<lparr>cfg_sub := [255, 255, 255, 0]\<rparr>;
          c = c\<lparr>cfg_gw := [192, 168, 0, 1]\<rparr>;
          c = c\<lparr>cfg_mac := [0x00, 0x06, 0x77, 0x25, 0x3D, 0x28]\<rparr>;
          c = c\<lparr>cfg_dns := [8, 8, 8, 8]\<rparr>;
          c = c\<lparr>cfg_dhcp := 0\<rparr>;
          c = c\<lparr>cfg_debug := 1\<rparr>;
          c = c\<lparr>cfg_fw_len := 0\<rparr>;
          c = c\<lparr>cfg_state := NORMAL_STATE\<rparr>;
          c = c\<lparr>cfg_sw_ver := [FW_VER_HIGH, FW_VER_LOW]\<rparr>
      in w\<lparr>ConfigMsg := c\<rparr>)"

subsection \<open>Programming the chip\<close>

text \<open>
  The read-backs take words out of the receive FIFO of the SPI bridge. All that is assumed of that
  FIFO is what its core documents, with \<open>due\<close> the number of words it holds or still receives for
  accesses already made: a level other than 0 means the empty bit is clear, reading the control
  registers brings no words, and reading the data register of a FIFO that is not empty takes one out.
  What the chip answers, how much of it and how late is left open.
\<close>

definition spi_bridge :: "env \<Rightarrow> (event list \<Rightarrow> nat) \<Rightarrow> bool" where
  "spi_bridge h due \<longleftrightarrow> (\<forall>tr.
     (rd h tr SPIRD_FIFO_IN_CSR_BASE 0 \<noteq> 0 \<longrightarrow>
        rd h (tr @ [Iord SPIRD_FIFO_IN_CSR_BASE 0]) SPIRD_FIFO_IN_CSR_BASE 1 AND 2 = 0) \<and>
     (\<forall>r. due (tr @ [Iord SPIRD_FIFO_IN_CSR_BASE r]) \<le> due tr) \<and>
     (rd h tr SPIRD_FIFO_IN_CSR_BASE 1 AND 2 = 0 \<longrightarrow>
        due (tr @ [Iord SPIRD_FIFO_IN_CSR_BASE 1, Iord SPIRD_FIFO_OUT_BASE 0]) < due tr))"

definition reads_only :: "event list \<Rightarrow> bool" where
  \<comment> \<open>accesses the chip does not see\<close>
  "reads_only evs \<longleftrightarrow> (\<forall>e \<in> set evs. \<exists>d r. e = Iord d r)"

lemma reads_only_simps [simp]:
  "reads_only []" "reads_only (Iord d r # evs) = reads_only evs"
  "reads_only (xs @ ys) = (reads_only xs \<and> reads_only ys)"
  by (auto simp: reads_only_def)

lemma reads_only_chip: "reads_only evs \<Longrightarrow> foldl chip_step m evs = m"
  by (induction evs) (auto simp: reads_only_def)

lemma spi_receive_reads: "\<exists>b evs. SPI_I2S_ReceiveData h w = Some (b, logged w evs) \<and> reads_only evs"
  by (auto simp: SPI_I2S_ReceiveData_def altera_avalon_fifo_read_level_def
      altera_avalon_fifo_read_fifo_def altera_avalon_fifo_read_status_def)

lemma spi_collect_reads:
  "\<exists>bs evs. spi_collect n h w = Some (bs, logged w evs) \<and> reads_only evs \<and> length bs = n"
proof (induction n arbitrary: w)
  case 0
  show ?case by (intro exI [of _ "[]"]) simp
next
  case (Suc n)
  obtain b e1 where "SPI_I2S_ReceiveData h w = Some (b, logged w e1)" "reads_only e1"
    using spi_receive_reads by blast
  moreover obtain bs e2 where "spi_collect n h (logged w e1) = Some (bs, logged (logged w e1) e2)" "reads_only e2" "length bs = n"
    using Suc.IH by blast
  ultimately show ?case by (intro exI [of _ "b # bs"] exI [of _ "e1 @ e2"]) simp
qed

text \<open>One round takes a word out when the level it reads is not 0, so \<open>due\<close> bounds the rounds.\<close>

lemma drain_round:
  "\<exists>lvl es. (do { (lvl, w) \<leftarrow> altera_avalon_fifo_read_level SPIRD_FIFO_IN_CSR_BASE h w;
      (_, w) \<leftarrow> altera_avalon_fifo_read_fifo SPIRD_FIFO_OUT_BASE SPIRD_FIFO_IN_CSR_BASE h w; Some (lvl, w) }) =
        Some (lvl, logged w es) \<and> reads_only es \<and>
    (spi_bridge h due \<longrightarrow> lvl \<noteq> 0 \<longrightarrow> due (trace w @ es) < due (trace w))"
proof -
  let ?lvl = "rd h (trace w) SPIRD_FIFO_IN_CSR_BASE 0" and ?tr = "trace w @ [Iord SPIRD_FIFO_IN_CSR_BASE 0]"
  have "due (?tr @ [Iord SPIRD_FIFO_IN_CSR_BASE 1, Iord SPIRD_FIFO_OUT_BASE 0]) < due (trace w)"
    if br: "spi_bridge h due" and "?lvl \<noteq> 0"
  proof -
    have "rd h ?tr SPIRD_FIFO_IN_CSR_BASE 1 AND 2 = 0" using that unfolding spi_bridge_def by blast
    then have "due (?tr @ [Iord SPIRD_FIFO_IN_CSR_BASE 1, Iord SPIRD_FIFO_OUT_BASE 0]) < due ?tr"
      using br unfolding spi_bridge_def by blast
    also have "\<dots> \<le> due (trace w)" using br unfolding spi_bridge_def by blast
    finally show ?thesis .
  qed
  moreover have "rd h ?tr SPIRD_FIFO_IN_CSR_BASE 1 AND 2 = 0" if "spi_bridge h due" and "?lvl \<noteq> 0"
    using that unfolding spi_bridge_def by blast
  ultimately show ?thesis
    by (auto simp: altera_avalon_fifo_read_level_def altera_avalon_fifo_read_fifo_def altera_avalon_fifo_read_status_def
        simp del: One_nat_def)
qed

lemma spi_drain_ends:
  assumes "spi_bridge h due"
  shows "\<exists>evs. spi_drain num h w = Some (logged w evs) \<and> reads_only evs"
proof (induction "due (trace w)" arbitrary: num w rule: less_induct)
  case less
  obtain lvl es where round: "(do { (lvl, w) \<leftarrow> altera_avalon_fifo_read_level SPIRD_FIFO_IN_CSR_BASE h w;
      (_, w) \<leftarrow> altera_avalon_fifo_read_fifo SPIRD_FIFO_OUT_BASE SPIRD_FIFO_IN_CSR_BASE h w; Some (lvl, w) }) =
        Some (lvl, logged w es)" and es: "reads_only es" and dec: "lvl \<noteq> 0 \<longrightarrow> due (trace w @ es) < due (trace w)"
    using drain_round [where h = h and w = w and due = due] assms by blast
  have unfold: "spi_drain num h w = (if num > 0 then spi_drain (ucast lvl) h (logged w es) else Some w)"
    using round by (subst spi_drain.simps) (auto split: bind_splits)
  show ?case
  proof (cases "num > 0 \<and> (ucast lvl :: half) > 0")
    case True
    then have "lvl \<noteq> 0" by auto
    then obtain evs where "spi_drain (ucast lvl) h (logged w es) = Some (logged (logged w es) evs)" "reads_only evs"
      using less.hyps [of "logged w es"] dec by auto
    then show ?thesis using True unfold es by (intro exI [of _ "es @ evs"]) simp
  next
    case False
    have "spi_drain 0 h v = Some v" for v :: "'a bus_scheme" by (subst spi_drain.simps) simp
    then show ?thesis
      using False unfold es by (cases "num > 0") (auto simp: word_gt_0 intro: exI [of _ "[]"] exI [of _ es])
  qed
qed

lemma reads_back:
  assumes "never_full h SPIWR_FIFO_IN_CSR_BASE" and "spi_bridge h due"
  shows "\<exists>bs evs. wiz_read_buf a len h w = Some (bs, logged w evs) \<and> length bs = unat len \<and> chip.sees evs []"
proof -
  let ?l = "[Iord SPIRD_FIFO_IN_CSR_BASE 0]"
  obtain d1 where d1: "spi_drain (ucast (rd h (trace w) SPIRD_FIFO_IN_CSR_BASE 0)) h (logged w ?l) = Some (logged (logged w ?l) d1)"
      "reads_only d1"
    using spi_drain_ends [OF assms(2)] by blast
  define ask where "ask = Iowr W5500_CS_BASE 0 0 # concat (map spi_word_evs [addr_hi a, addr_lo a, addr_ctl a, len])"
  let ?v = "logged w (?l @ d1 @ ask)"
  obtain bs c where c: "spi_collect (unat len) h ?v = Some (bs, logged ?v c)" "reads_only c" "length bs = unat len"
    using spi_collect_reads by blast
  obtain d2 where d2: "spi_drain (ucast (rd h (trace (logged ?v c)) SPIRD_FIFO_IN_CSR_BASE 0)) h (logged ?v (c @ ?l)) =
      Some (logged (logged ?v (c @ ?l)) d2)" "reads_only d2"
    using spi_drain_ends [OF assms(2)] by blast
  have "\<not> is_write [addr_hi a, addr_lo a, addr_ctl a, len]"
    using not_write_read [of a] by (simp add: is_write_def read_words_def)
  then have "chip.sees (?l @ d1 @ ask @ c @ ?l @ d2 @ [Iowr W5500_CS_BASE 0 1]) []"
    using d1(2) c(2) d2(2) by (simp add: chip.sees_def ask_def chip_word reads_only_chip)
  moreover have "wiz_read_buf a len h w = Some (bs, logged w (?l @ d1 @ ask @ c @ ?l @ d2 @ [Iowr W5500_CS_BASE 0 1]))"
    using d1(1) c(1) d2(1) by (simp add: wiz_read_buf_def altera_avalon_fifo_read_level_def IINCHIP_CSoff_def
        IINCHIP_CSon_def SpiSendData_logged [OF assms(1)] ask_def)
  ultimately show ?thesis using c(3) by blast
qed

definition size_frames :: "half list list" where
  \<comment> \<open>the memory size registers of the eight sockets\<close>
  "size_frames = concat (map (\<lambda>i. [spi_frame (Sn_TXMEM_SIZE (of_nat i)) [txsize ! i],
     spi_frame (Sn_RXMEM_SIZE (of_nat i)) [rxsize ! i]]) [0..<8])"

definition network_frames :: "config_msg \<Rightarrow> half list list" where
  "network_frames c = [spi_frame SHAR0 (cfg_mac c), spi_frame SUBR0 (cfg_sub c), spi_frame GAR0 (cfg_gw c),
     spi_frame SIPR0 (cfg_lip c)] @ size_frames @
     [spi_frame RTR0 [0x13], spi_frame RTR1 [0x88], spi_frame WIZ_RCR [3]]"

lemma does_access_list:
  "chip.sees (concat (map (\<lambda>(a, v). access_evs (spi_frame a [v])) xs)) (map (\<lambda>(a, v). spi_frame a [v]) xs)"
proof (induction xs)
  case Nil
  show ?case by (simp add: chip.sees_Nil)
next
  case (Cons x xs)
  then show ?case
    using chip.sees_append [OF sees_access [of "spi_frame (fst x) [snd x]"] Cons.IH]
    by (simp add: frame_is_write case_prod_beta)
qed

definition SSIZE_set :: "half list" where "SSIZE_set = [4096, 4096, 0, 0, 2048, 2048, 2048, 2048]"
definition RSIZE_set :: "half list" where "RSIZE_set = [4096, 4096, 2048, 2048, 2048, 2048, 2048, 0]"

lemma upt8: "[0..<8] = [0, 1, 2, 3, 4, 5, 6, 7]"
  by code_simp

lemma sysinit_device:
  assumes h: "never_full h SPIWR_FIFO_IN_CSR_BASE" and len: "length (SSIZE w) = 8" "length (RSIZE w) = 8"
  shows "\<exists>evs. sysinit txsize rxsize h w = Some ((logged w evs)\<lparr>SSIZE := SSIZE_set, RSIZE := RSIZE_set\<rparr>) \<and>
    chip.sees evs size_frames"
proof -
  let ?ws = "concat (map (\<lambda>i. [(Sn_TXMEM_SIZE (of_nat i), txsize ! i), (Sn_RXMEM_SIZE (of_nat i), rxsize ! i)]) [0..<8])"
  obtain s0 s1 s2 s3 s4 s5 s6 s7 where s: "SSIZE w = [s0, s1, s2, s3, s4, s5, s6, s7]"
    using len(1) by (auto simp: length_Suc_conv numeral_eq_Suc)
  obtain r0 r1 r2 r3 r4 r5 r6 r7 where r: "RSIZE w = [r0, r1, r2, r3, r4, r5, r6, r7]"
    using len(2) by (auto simp: length_Suc_conv numeral_eq_Suc)
  have "sysinit txsize rxsize h w = Some ((logged w (concat (map (\<lambda>(a, v). access_evs (spi_frame a [v])) ?ws)))
      \<lparr>SSIZE := SSIZE_set, RSIZE := RSIZE_set\<rparr>)"
    by (simp add: upt8 sysinit_def MAX_SOCK_NUM_def txsize_def rxsize_def IINCHIP_WRITE_logged [OF h] arr_get_def arr_set_def
        logged_def s r tx_switch_def rx_switch_def SSIZE_set_def RSIZE_set_def Let_def)
  moreover have "chip.sees (concat (map (\<lambda>(a, v). access_evs (spi_frame a [v])) ?ws)) size_frames"
    using does_access_list [of ?ws] by (simp add: size_frames_def map_concat comp_def del: upt_rec_numeral)
  ultimately show ?thesis by blast
qed

lemma only_trace_ConfigMsg: "only_trace w w' \<Longrightarrow> ConfigMsg w' = ConfigMsg w"
  by (auto simp: only_trace_def)

lemma answers_snd: "chip.answers f v xs \<Longrightarrow> chip.does (\<lambda>w. map_option snd (f w)) xs"
  unfolding chip.answers_def chip.does_def by (metis option.simps(9) snd_conv)

lemma does_addresses:
  assumes h: "never_full h SPIWR_FIFO_IN_CSR_BASE"
  shows "length a = 6 \<Longrightarrow> chip.does (setSHAR a h) [spi_frame SHAR0 a]"
    and "length a = 4 \<Longrightarrow> chip.does (setSUBR a h) [spi_frame SUBR0 a]"
    and "length a = 4 \<Longrightarrow> chip.does (setGAR a h) [spi_frame GAR0 a]"
    and "length a = 4 \<Longrightarrow> chip.does (setSIPR a h) [spi_frame SIPR0 a]"
  unfolding setSHAR_def [abs_def] setSUBR_def [abs_def] setGAR_def [abs_def] setSIPR_def [abs_def]
  using answers_snd [OF answers_write_buf [OF h, of 6 a SHAR0]] answers_snd [OF answers_write_buf [OF h, of 4 a]]
  by simp_all

lemma does_timeouts:
  assumes h: "never_full h SPIWR_FIFO_IN_CSR_BASE"
  shows "chip.does (\<lambda>w. do { w \<leftarrow> setRTR 5000 h w; setRCR 3 h w })
    [spi_frame RTR0 [0x13], spi_frame RTR1 [0x88], spi_frame WIZ_RCR [3]]"
proof -
  have "chip.does (\<lambda>w. do { w \<leftarrow> setRTR 5000 h w; setRCR 3 h w })
    (([spi_frame RTR0 [byte_hi 5000]] @ [spi_frame RTR1 [byte_lo 5000]]) @ [spi_frame WIZ_RCR [3]])"
    unfolding setRTR_def [abs_def] setRCR_def [abs_def]
    by (rule chip.does_seq [OF chip.does_seq [OF does_write [OF h] does_write [OF h]] does_write [OF h]])
  moreover have "byte_hi 5000 = 0x13" "byte_lo 5000 = 0x88"
    by (simp_all add: byte_hi_def byte_lo_def)
  ultimately show ?thesis by simp
qed

lemma does_read_back:
  assumes "never_full h SPIWR_FIFO_IN_CSR_BASE" and "spi_bridge h due"
  shows "chip.does (\<lambda>w. do { (ip, w) \<leftarrow> getSIPR h w; (ip, w) \<leftarrow> getSUBR h w; (ip, w) \<leftarrow> getGAR h w; Some w }) []"
  unfolding chip.does_def
proof
  fix w :: "'a bus_scheme"
  note rd = reads_back [OF assms]
  obtain x e1 where 1: "getSIPR h w = Some (x, logged w e1)" "chip.sees e1 []"
    using rd unfolding getSIPR_def by metis
  obtain y e2 where 2: "getSUBR h (logged w e1) = Some (y, logged (logged w e1) e2)" "chip.sees e2 []"
    using rd unfolding getSUBR_def by metis
  obtain z e3 where 3: "getGAR h (logged w (e1 @ e2)) = Some (z, logged (logged w (e1 @ e2)) e3)" "chip.sees e3 []"
    using rd unfolding getGAR_def by metis
  show "\<exists>evs. (do { (ip, w) \<leftarrow> getSIPR h w; (ip, w) \<leftarrow> getSUBR h w; (ip, w) \<leftarrow> getGAR h w; Some w }) = Some (logged w evs) \<and>
      chip.sees evs []"
    using 1 2 3 chip.sees_append [OF 1(2) chip.sees_append [OF 2(2) 3(2)]]
    by (intro exI [of _ "e1 @ e2 @ e3"]) simp
qed

lemma does_identity:
  assumes h: "never_full h SPIWR_FIFO_IN_CSR_BASE"
    and len: "length (cfg_mac c) = 6" "length (cfg_sub c) = 4" "length (cfg_gw c) = 4" "length (cfg_lip c) = 4"
  shows "chip.does (\<lambda>w. do { w \<leftarrow> setSHAR (cfg_mac c) h w; w \<leftarrow> setSUBR (cfg_sub c) h w;
      w \<leftarrow> setGAR (cfg_gw c) h w; setSIPR (cfg_lip c) h w })
    [spi_frame SHAR0 (cfg_mac c), spi_frame SUBR0 (cfg_sub c), spi_frame GAR0 (cfg_gw c), spi_frame SIPR0 (cfg_lip c)]"
  using chip.does_seq [OF does_addresses(1) [OF h len(1)] chip.does_seq [OF does_addresses(2) [OF h len(2)]
      chip.does_seq [OF does_addresses(3) [OF h len(3)] does_addresses(4) [OF h len(4)]]]] by simp

lemma set_network_result:
  assumes h: "never_full h SPIWR_FIFO_IN_CSR_BASE" and br: "spi_bridge h due"
    and len: "length (cfg_mac (ConfigMsg w)) = 6" "length (cfg_sub (ConfigMsg w)) = 4"
      "length (cfg_gw (ConfigMsg w)) = 4" "length (cfg_lip (ConfigMsg w)) = 4"
    and sizes: "length (SSIZE w) = 8" "length (RSIZE w) = 8"
  shows "\<exists>evs. set_network h w = Some (w\<lparr>trace := trace w @ evs,
      SSIZE := [4096, 4096, 0, 0, 2048, 2048, 2048, 2048],
      RSIZE := [4096, 4096, 2048, 2048, 2048, 2048, 2048, 0]\<rparr>) \<and>
    chip_log evs = network_frames (ConfigMsg w)"
proof -
  let ?c = "ConfigMsg w"
  obtain e1 where e1: "(do { w \<leftarrow> setSHAR (cfg_mac ?c) h w; w \<leftarrow> setSUBR (cfg_sub ?c) h w;
      w \<leftarrow> setGAR (cfg_gw ?c) h w; setSIPR (cfg_lip ?c) h w }) = Some (logged w e1)"
    and s1: "chip.sees e1 [spi_frame SHAR0 (cfg_mac ?c), spi_frame SUBR0 (cfg_sub ?c), spi_frame GAR0 (cfg_gw ?c), spi_frame SIPR0 (cfg_lip ?c)]"
    using chip.doesD [OF does_identity [OF h len], of w] by blast
  have len1: "length (SSIZE (logged w e1)) = 8" "length (RSIZE (logged w e1)) = 8"
    using sizes by (simp_all add: logged_def)
  obtain e2 where e2: "sysinit txsize rxsize h (logged w e1) = Some ((logged (logged w e1) e2)\<lparr>SSIZE := SSIZE_set, RSIZE := RSIZE_set\<rparr>)"
    and s2: "chip.sees e2 size_frames"
    using sysinit_device [OF h len1] by blast
  let ?w2 = "(logged (logged w e1) e2)\<lparr>SSIZE := SSIZE_set, RSIZE := RSIZE_set\<rparr>"
  obtain e3 where e3: "(do { w \<leftarrow> setRTR 5000 h ?w2; setRCR 3 h w }) = Some (logged ?w2 e3)"
    and s3: "chip.sees e3 [spi_frame RTR0 [0x13], spi_frame RTR1 [0x88], spi_frame WIZ_RCR [3]]"
    using chip.doesD [OF does_timeouts [OF h], of ?w2] by blast
  obtain e4 where e4: "(do { (ip, w) \<leftarrow> getSIPR h (logged ?w2 e3); (ip, w) \<leftarrow> getSUBR h w; (ip, w) \<leftarrow> getGAR h w; Some w })
      = Some (logged (logged ?w2 e3) e4)" and s4: "chip.sees e4 []"
    using chip.doesD [OF does_read_back [OF h br], of "logged ?w2 e3"] by blast
  obtain wa wb wc where id: "setSHAR (cfg_mac ?c) h w = Some wa" "setSUBR (cfg_sub ?c) h wa = Some wb"
      "setGAR (cfg_gw ?c) h wb = Some wc" "setSIPR (cfg_lip ?c) h wc = Some (logged w e1)"
    using e1 by (auto simp: bind_eq_Some_conv)
  have "ConfigMsg wa = ?c \<and> ConfigMsg wb = ?c \<and> ConfigMsg wc = ?c"
    using id(1-3) keeps_addresses only_trace_ConfigMsg keepsD by metis
  moreover obtain wr where "setRTR 5000 h ?w2 = Some wr" "setRCR 3 h wr = Some (logged ?w2 e3)"
    using e3 by (auto simp: bind_eq_Some_conv)
  ultimately have "set_network h w = Some (logged (logged ?w2 e3) e4)"
    using id e2 e4 by (simp add: set_network_def )
  moreover have "chip_log (e1 @ e2 @ e3 @ e4) = network_frames ?c"
    by (rule sees_log) (use chip.sees_append [OF s1 chip.sees_append [OF s2 chip.sees_append [OF s3 s4]]] in \<open>simp add: network_frames_def\<close>)
  ultimately show ?thesis
    by (intro exI [of _ "e1 @ e2 @ e3 @ e4"]) (simp add: logged_def SSIZE_set_def RSIZE_set_def)
qed

subsection \<open>A chip that answers\<close>

fun bridge_step :: "(uint \<Rightarrow> byte) \<Rightarrow> half list \<times> byte list \<Rightarrow> event \<Rightarrow> half list \<times> byte list" where
  \<comment> \<open>the words since chip select went low, and the receive FIFO: a read access is answered with the
    bytes of as many registers as its fourth word asks for, the address counting in bits 8 to 23\<close>
  "bridge_step mem (cur, q) (Iowr d r v) =
     (if d = W5500_CS_BASE \<and> r = 0 then ([], q)
      else if d = SPIWR_FIFO_IN_BASE \<and> r = 0
      then (let f = cur @ [ucast (swap_halves v)] in
        (f, if length f = 4 \<and> \<not> is_write f
            then q @ map (\<lambda>i. mem (push_bit 16 (ucast (f ! 0)) + push_bit 8 (ucast (f ! 1) + of_nat i) + ucast (f ! 2))) [0..<unat (f ! 3)]
            else q))
      else (cur, q))"
| "bridge_step mem (cur, q) (Iord d r) = (cur, if d = SPIRD_FIFO_OUT_BASE \<and> r = 0 then tl q else q)"
| "bridge_step mem m (Spin n) = m"

definition bridge_queue :: "(uint \<Rightarrow> byte) \<Rightarrow> event list \<Rightarrow> byte list" where
  "bridge_queue mem tr = snd (foldl (bridge_step mem) ([], []) tr)"

definition bridge_env :: "(uint \<Rightarrow> byte) \<Rightarrow> env" where
  \<comment> \<open>level, empty bit and data of the receive FIFO of a chip with registers \<open>mem\<close>\<close>
  "bridge_env mem = quiet_env\<lparr>rd := \<lambda>tr d r. let q = bridge_queue mem tr in
     if d = SPIRD_FIFO_IN_CSR_BASE \<and> r = 0 then of_nat (length q)
     else if d = SPIRD_FIFO_IN_CSR_BASE \<and> r = 1 then (if q = [] then 2 else 0)
     else if d = SPIRD_FIFO_OUT_BASE \<and> r = 0 \<and> q \<noteq> [] then swap_halves (ucast (hd q))
     else 0\<rparr>"

lemma bridge_queue_reads:
  "bridge_queue mem (tr @ [Iord d r]) = (if d = SPIRD_FIFO_OUT_BASE \<and> r = 0 then tl (bridge_queue mem tr) else bridge_queue mem tr)"
  "bridge_queue mem (tr @ [Iord SPIRD_FIFO_IN_CSR_BASE k, Iord d r]) =
     (if d = SPIRD_FIFO_OUT_BASE \<and> r = 0 then tl (bridge_queue mem tr) else bridge_queue mem tr)"
  by (cases "foldl (bridge_step mem) ([], []) tr"; simp add: bridge_queue_def)+

lemma bridge_env_bridge:
  "never_full (bridge_env mem) SPIWR_FIFO_IN_CSR_BASE" "spi_bridge (bridge_env mem) (\<lambda>tr. length (bridge_queue mem tr))"
  by (auto simp: never_full_def spi_bridge_def bridge_env_def quiet_env_def bridge_queue_reads Let_def
      simp del: One_nat_def split: if_splits)

text \<open>C28: configuring the network: the chip receives, as its only register writes, the four addresses of
  the configuration, the buffer sizes of the eight sockets and the timeout settings, in this order; in
  memory only the two size tables change. With the tables of the device, sockets 2 and 3 are left
  with a transmit size of 0 but a receive size of 2048 the table does not give them, and socket 7 is
  left without the 2048 the table gives it. The chip answers the three read-backs as it likes: of the
  receive FIFO of the SPI bridge only the documented behaviour is assumed (\<open>spi_bridge\<close>), and the
  read-backs end and write nothing.\<close>

theorem set_network_programs_chip:
  assumes h: "never_full h SPIWR_FIFO_IN_CSR_BASE" and br: "spi_bridge h due"
    and len: "length (cfg_mac (ConfigMsg w)) = 6" "length (cfg_sub (ConfigMsg w)) = 4"
      "length (cfg_gw (ConfigMsg w)) = 4" "length (cfg_lip (ConfigMsg w)) = 4"
    and sizes: "length (SSIZE w) = 8" "length (RSIZE w) = 8"
  shows "\<exists>evs. set_network h w = Some (w\<lparr>trace := trace w @ evs,
      SSIZE := [4096, 4096, 0, 0, 2048, 2048, 2048, 2048],
      RSIZE := [4096, 4096, 2048, 2048, 2048, 2048, 2048, 0]\<rparr>) \<and>
    chip_log evs = network_frames (ConfigMsg w)"
  using set_network_result [OF assms] .

definition demo_mem :: "uint \<Rightarrow> byte" where
  \<comment> \<open>a chip that answers the read-backs with three addresses\<close>
  "demo_mem a = (if a = SIPR0 then 192 else if a = SUBR0 then 255 else if a = GAR0 then 10 else 7)"

lemma bridge_answers:
  "\<exists>w. getSIPR (bridge_env demo_mem) reset_net = Some ([192, 7, 7, 7], w)"
proof -
  have stop: "spi_drain 0 h v = Some v" for h and v :: net by (subst spi_drain.simps) simp
  have four: "spi_collect 4 h v = do { (a, v) \<leftarrow> SPI_I2S_ReceiveData h v; (b, v) \<leftarrow> SPI_I2S_ReceiveData h v;
      (c, v) \<leftarrow> SPI_I2S_ReceiveData h v; (d, v) \<leftarrow> SPI_I2S_ReceiveData h v; Some ([a, b, c, d], v) }" for h and v :: net
    by (simp add: numeral_eq_Suc case_prod_unfold)
  have up4: "[0..<4] = [0, 1, 2, 3 :: nat]" by (simp add: upt_rec)
  show ?thesis
    by (simp add: getSIPR_def wiz_read_buf_def reset_net_def altera_avalon_fifo_read_level_def bridge_env_def quiet_env_def
      bridge_queue_def stop IINCHIP_CSoff_def IINCHIP_CSon_def IINCHIP_SpiSendData_def fifo_write_result logged_def
      SIPR0_def SUBR0_def GAR0_def demo_mem_def is_write_def addr_hi_def addr_lo_def addr_ctl_def swap_halves_def Let_def
      four up4 SPI_I2S_ReceiveData_def altera_avalon_fifo_read_fifo_def altera_avalon_fifo_read_status_def)
qed

theorem set_network_programs_chip_witness:
  "\<exists>evs. set_network (bridge_env demo_mem) (set_default world_init) = Some ((set_default world_init)\<lparr>trace := trace (set_default world_init) @ evs,
      SSIZE := [4096, 4096, 0, 0, 2048, 2048, 2048, 2048],
      RSIZE := [4096, 4096, 2048, 2048, 2048, 2048, 2048, 0]\<rparr>) \<and>
    chip_log evs = network_frames (ConfigMsg (set_default world_init))"
  by (rule set_network_programs_chip [OF bridge_env_bridge]) (simp_all add: set_default_def world_init_def)

end
