(* ===== verification/EpcsSpec.thy ===== *)
theory EpcsSpec
  imports EpcsFlash
begin

unbundle bit_operations_syntax

text \<open>
  The flash driver as the chip sees it: which transactions every operation puts on the SPI bus,
  status readings apart, and what it returns, given what the chip answers. The hypotheses are
  \<open>flash_chip\<close> (the SPI core works and the chip's write-in-progress bit comes down) and, for a read, what
  the chip holds.
\<close>

definition essential :: "byte list list \<Rightarrow> byte list list" where
  \<comment> \<open>the transactions that are not status readings\<close>
  "essential = filter (\<lambda>t. take 1 t \<noteq> [epcs_rdsr])"

lemma essential_simps [simp]:
  "essential [] = []" "essential (xs @ ys) = essential xs @ essential ys"
  "essential (t # ts) = (if take 1 t = [epcs_rdsr] then essential ts else t # essential ts)"
  by (simp_all add: essential_def)

definition flash_chip :: "env \<Rightarrow> (byte list list \<Rightarrow> byte list \<Rightarrow> byte) \<Rightarrow> bool" where
  \<comment> \<open>whatever it was sent, after some status readings the chip is no longer busy\<close>
  "flash_chip h miso \<longleftrightarrow> spi_core h miso \<and>
     (\<forall>past. \<exists>k. miso (past @ replicate k [epcs_rdsr, 0]) [epcs_rdsr, 0] AND 1 = 0)"

definition spi_idle :: "'a bus_scheme \<Rightarrow> bool" where
  "spi_idle w \<longleftrightarrow> snd (spi_seen (trace w)) = (None, False)"

definition spi_past :: "'a bus_scheme \<Rightarrow> byte list list" where
  "spi_past w = fst (spi_seen (trace w))"

definition spi_extends :: "'a bus_scheme \<Rightarrow> 'a bus_scheme \<Rightarrow> byte list list \<Rightarrow> bool" where
  \<comment> \<open>only register accesses have happened, and they were these transactions and status readings\<close>
  "spi_extends w w' xs \<longleftrightarrow> spi_idle w \<and> spi_idle w' \<and> (\<exists>evs. w' = logged w evs) \<and>
     (\<exists>new. spi_past w' = spi_past w @ new \<and> essential new = xs)"

lemma spi_extends_refl: "spi_idle w \<Longrightarrow> spi_extends w w []"
  unfolding spi_extends_def by (metis append_Nil2 essential_simps(1) logged_simps(3))

lemma spi_extends_trans:
  assumes "spi_extends a b xs" and "spi_extends b c ys"
  shows "spi_extends a c (xs @ ys)"
proof -
  obtain e f new more' where "b = logged a e" "c = logged b f" "spi_past b = spi_past a @ new" "essential new = xs"
    "spi_past c = spi_past b @ more'" "essential more' = ys"
    using assms unfolding spi_extends_def by blast
  then have "c = logged a (e @ f)" "spi_past c = spi_past a @ (new @ more')" "essential (new @ more') = xs @ ys" by simp_all
  then show ?thesis using assms unfolding spi_extends_def by blast
qed

lemma spi_extends_idle: "spi_extends a b xs \<Longrightarrow> spi_idle b"
  by (simp add: spi_extends_def)

lemma spi_seen_idle: "spi_idle w \<Longrightarrow> spi_seen (trace w) = (spi_past w, None, False)"
  by (simp add: spi_idle_def spi_past_def prod_eq_iff)

lemma flash_chip_core: "flash_chip h miso \<Longrightarrow> spi_core h miso"
  by (simp add: flash_chip_def)

lemma command_transfers:
  assumes "flash_chip h miso" and "spi_idle w" and "wr \<noteq> []"
  shows "\<exists>w'. alt_avalon_spi_command EPCS_FLASH_REGS 0 wr n 0 h w =
      Some (map (\<lambda>i. miso (spi_past w) (wr @ replicate (Suc i) 0)) [0..<n], w') \<and>
    spi_extends w w' (essential [wr @ replicate n 0]) \<and> spi_past w' = spi_past w @ [wr @ replicate n 0]"
proof -
  obtain evs where "alt_avalon_spi_command EPCS_FLASH_REGS 0 wr n 0 h w =
      Some (map (\<lambda>i. miso (spi_past w) (wr @ replicate (Suc i) 0)) [0..<n], logged w evs)"
    and seen: "spi_seen (trace w @ evs) = (spi_past w @ [wr @ replicate n 0], None, False)"
    using spi_command_transfers [OF flash_chip_core [OF assms(1)] spi_seen_idle [OF assms(2)], of wr n 0 0] assms(3) by auto
  moreover have "spi_extends w (logged w evs) (essential [wr @ replicate n 0])"
    using assms(2) seen unfolding spi_extends_def by (auto simp: spi_idle_def spi_past_def)
  ultimately show ?thesis using seen by (auto simp: spi_past_def)
qed

definition transacts :: "('a bus_scheme \<Rightarrow> 'a bus_scheme option) \<Rightarrow> byte list list \<Rightarrow> bool" where
  "transacts f xs \<longleftrightarrow> (\<forall>w. spi_idle w \<longrightarrow> (\<exists>w'. f w = Some w' \<and> spi_extends w w' xs))"

lemma transactsD: "transacts f xs \<Longrightarrow> spi_idle w \<Longrightarrow> \<exists>w'. f w = Some w' \<and> spi_extends w w' xs"
  by (simp add: transacts_def)

lemma transacts_done: "transacts Some []"
  by (simp add: transacts_def spi_extends_refl)

lemma transacts_seq:
  assumes "transacts f xs" and "transacts g ys"
  shows "transacts (\<lambda>w. do { w \<leftarrow> f w; g w }) (xs @ ys)"
  unfolding transacts_def
proof (intro allI impI)
  fix w :: "'a bus_scheme" assume "spi_idle w"
  then obtain a where a: "f w = Some a" "spi_extends w a xs" using transactsD [OF assms(1)] by blast
  then obtain b where "g a = Some b" "spi_extends a b ys"
    using transactsD [OF assms(2) spi_extends_idle] by blast
  then show "\<exists>w'. (do { w \<leftarrow> f w; g w }) = Some w' \<and> spi_extends w w' (xs @ ys)"
    using a spi_extends_trans by auto
qed

lemma transacts_write:
  assumes "flash_chip h miso" and "wr \<noteq> []" and "take 1 wr \<noteq> [epcs_rdsr]"
  shows "transacts (spi_write EPCS_FLASH_REGS wr 0 h) [wr]"
  using command_transfers [OF assms(1) _ assms(2), of _ 0] assms(3) by (fastforce simp: spi_write_def transacts_def)

lemma transacts_enable:
  assumes "flash_chip h miso"
  shows "transacts (epcs_write_enable EPCS_FLASH_REGS h) [[epcs_wren]]"
  unfolding epcs_write_enable_def [abs_def] by (rule transacts_write [OF assms]) (simp_all add: epcs_codes)

definition mode_in :: "uint \<Rightarrow> byte list list" where
  "mode_in four = (if four \<noteq> 0 then [[epcs_wren], [epcs_en4b]] else [])"

definition mode_out :: "uint \<Rightarrow> byte list list" where
  "mode_out four = (if four \<noteq> 0 then [[epcs_wren], [epcs_dis4b]] else [])"

lemma transacts_mode:
  assumes "flash_chip h miso"
  shows "transacts (\<lambda>w :: 'a bus_scheme. if four \<noteq> 0 then epcs_enter_4_bytes_mode EPCS_FLASH_REGS h w else Some w) (mode_in four)"
    and "transacts (\<lambda>w :: 'a bus_scheme. if four \<noteq> 0 then epcs_exit_4_bytes_mode EPCS_FLASH_REGS h w else Some w) (mode_out four)"
proof -
  have "transacts (epcs_enter_4_bytes_mode EPCS_FLASH_REGS h :: 'a bus_scheme \<Rightarrow> _) ([[epcs_wren]] @ [[epcs_en4b]])"
    "transacts (epcs_exit_4_bytes_mode EPCS_FLASH_REGS h :: 'a bus_scheme \<Rightarrow> _) ([[epcs_wren]] @ [[epcs_dis4b]])"
    unfolding epcs_enter_4_bytes_mode_def [abs_def] epcs_exit_4_bytes_mode_def [abs_def]
    by (intro transacts_seq transacts_enable [OF assms] transacts_write [OF assms]; simp add: epcs_codes)+
  then show "transacts (\<lambda>w :: 'a bus_scheme. if four \<noteq> 0 then epcs_enter_4_bytes_mode EPCS_FLASH_REGS h w else Some w) (mode_in four)"
    "transacts (\<lambda>w :: 'a bus_scheme. if four \<noteq> 0 then epcs_exit_4_bytes_mode EPCS_FLASH_REGS h w else Some w) (mode_out four)"
    by (simp_all add: mode_in_def mode_out_def transacts_done)
qed

lemma wip_read:
  assumes "flash_chip h miso" and "spi_idle w"
  shows "\<exists>w'. epcs_test_wip EPCS_FLASH_REGS h w = Some (miso (spi_past w) [epcs_rdsr, 0] AND 1 \<noteq> 0, w') \<and>
    spi_extends w w' [] \<and> spi_past w' = spi_past w @ [[epcs_rdsr, 0]]"
  using command_transfers [OF assms, of "[epcs_rdsr]" 1]
  by (auto simp: epcs_test_wip_def epcs_read_status_register_def)

lemma transacts_await:
  assumes "flash_chip h miso"
  shows "transacts (epcs_await_wip_released EPCS_FLASH_REGS h) []"
proof -
  have "\<exists>w'. epcs_await_wip_released EPCS_FLASH_REGS h w = Some w' \<and> spi_extends w w' []"
    if "miso (spi_past w @ replicate k [epcs_rdsr, 0]) [epcs_rdsr, 0] AND 1 = 0" and "spi_idle w" for k and w :: "'a bus_scheme"
    using that
  proof (induction k arbitrary: w)
    case 0
    then show ?case
      using wip_read [OF assms 0(2)] by (subst epcs_await_wip_released.simps) auto
  next
    case (Suc k)
    obtain u where u: "epcs_test_wip EPCS_FLASH_REGS h w = Some (miso (spi_past w) [epcs_rdsr, 0] AND 1 \<noteq> 0, u)"
      "spi_extends w u []" "spi_past u = spi_past w @ [[epcs_rdsr, 0]]"
      using wip_read [OF assms Suc.prems(2)] by blast
    then obtain v where "epcs_await_wip_released EPCS_FLASH_REGS h u = Some v" "spi_extends u v []"
      using Suc.IH [of u] Suc.prems(1) spi_extends_idle by auto
    then show ?case
      using u spi_extends_trans [OF u(2)] by (subst epcs_await_wip_released.simps) auto
  qed
  then show ?thesis
    using assms unfolding transacts_def flash_chip_def by blast
qed

subsection \<open>Erasing, programming and reading\<close>

lemma epcs_address_length [simp]: "length (epcs_address four a) = (if four \<noteq> 0 then 4 else 3)"
  by (simp add: epcs_address_def)

definition erase_txns :: "uint \<Rightarrow> int \<Rightarrow> byte list list" where
  "erase_txns four a = mode_in four @ [[epcs_wren], epcs_se # epcs_address four a] @ mode_out four"

definition program_txns :: "uint \<Rightarrow> int \<times> byte list \<Rightarrow> byte list list" where
  "program_txns four = (\<lambda>(a, bs). mode_in four @ [[epcs_wren], epcs_pp # epcs_address four a @ bs] @ mode_out four)"

lemma transacts_erase:
  assumes "flash_chip h miso"
  shows "transacts (epcs_sector_erase EPCS_FLASH_REGS a four h) (erase_txns four (uint a))"
proof -
  have "transacts (epcs_sector_erase EPCS_FLASH_REGS a four h)
      (mode_in four @ [[epcs_wren]] @ [epcs_se # epcs_address four (uint a)] @ [] @ mode_out four)"
    unfolding epcs_sector_erase_def [abs_def] Let_def
    by (intro transacts_seq transacts_mode [OF assms] transacts_enable [OF assms] transacts_write [OF assms]
        transacts_await [OF assms]) (simp_all add: epcs_codes)
  then show ?thesis by (simp add: erase_txns_def)
qed

lemma transacts_merge:
  assumes "flash_chip h miso" and "cmd \<noteq> []" and "take 1 cmd \<noteq> [epcs_rdsr]" and "bs \<noteq> []"
  shows "transacts (\<lambda>w. do { w \<leftarrow> spi_write EPCS_FLASH_REGS cmd ALT_AVALON_SPI_COMMAND_MERGE h w; spi_write EPCS_FLASH_REGS bs 0 h w }) [cmd @ bs]"
  unfolding transacts_def
proof (intro allI impI)
  fix w :: "'a bus_scheme" assume idle: "spi_idle w"
  note core = flash_chip_core [OF assms(1)]
  obtain e where e: "alt_avalon_spi_command EPCS_FLASH_REGS 0 cmd 0 ALT_AVALON_SPI_COMMAND_MERGE h w = Some ([], logged w e)"
    "spi_seen (trace (logged w e)) = (spi_past w, Some cmd, False)"
    using spi_command_transfers [OF core spi_seen_idle [OF idle], of cmd 0 ALT_AVALON_SPI_COMMAND_MERGE 0] assms(2)
    by (auto simp: spi_masks)
  obtain f where "alt_avalon_spi_command EPCS_FLASH_REGS 0 bs 0 0 h (logged w e) = Some ([], logged (logged w e) f)"
    and seen: "spi_seen (trace (logged w e) @ f) = (spi_past w @ [cmd @ bs], None, False)"
    using spi_command_transfers [OF core e(2), of bs 0 0 0] assms(4) by auto
  with e(1) have "(do { w \<leftarrow> spi_write EPCS_FLASH_REGS cmd ALT_AVALON_SPI_COMMAND_MERGE h w; spi_write EPCS_FLASH_REGS bs 0 h w }) =
      Some (logged w (e @ f))" by (simp add: spi_write_def)
  moreover have "spi_extends w (logged w (e @ f)) [cmd @ bs]"
    using idle seen assms(2,3) unfolding spi_extends_def by (cases cmd) (auto simp: spi_idle_def spi_past_def)
  ultimately show "\<exists>w'. (do { w \<leftarrow> spi_write EPCS_FLASH_REGS cmd ALT_AVALON_SPI_COMMAND_MERGE h w;
      spi_write EPCS_FLASH_REGS bs 0 h w }) = Some w' \<and> spi_extends w w' [cmd @ bs]" by blast
qed

lemma transacts_program:
  assumes "flash_chip h miso" and "bs \<noteq> []" and "spi_idle w"
  shows "\<exists>w'. epcs_write_buffer EPCS_FLASH_REGS a bs four h w = Some (int (length bs), w') \<and> spi_extends w w' (program_txns four (a, bs))"
proof -
  define f where "f = (\<lambda>w :: 'a bus_scheme. do {
     w \<leftarrow> (if four \<noteq> 0 then epcs_enter_4_bytes_mode EPCS_FLASH_REGS h w else Some w);
     w \<leftarrow> epcs_write_enable EPCS_FLASH_REGS h w;
     w \<leftarrow> (do { w \<leftarrow> spi_write EPCS_FLASH_REGS (epcs_pp # epcs_address four a) ALT_AVALON_SPI_COMMAND_MERGE h w;
       spi_write EPCS_FLASH_REGS bs 0 h w });
     w \<leftarrow> epcs_await_wip_released EPCS_FLASH_REGS h w;
     if four \<noteq> 0 then epcs_exit_4_bytes_mode EPCS_FLASH_REGS h w else Some w })"
  have "transacts f (mode_in four @ [[epcs_wren]] @ [(epcs_pp # epcs_address four a) @ bs] @ [] @ mode_out four)"
    unfolding f_def
    by (intro transacts_seq transacts_mode [OF assms(1)] transacts_enable [OF assms(1)] transacts_merge [OF assms(1) _ _ assms(2)]
        transacts_await [OF assms(1)]) (simp_all add: epcs_codes)
  then obtain w' where "f w = Some w'" "spi_extends w w' (program_txns four (a, bs))"
    using transactsD [OF _ assms(3)] by (fastforce simp: program_txns_def)
  moreover have "epcs_write_buffer EPCS_FLASH_REGS a bs four h w = (do { w \<leftarrow> f w; Some (int (length bs), w) })"
    by (simp add: epcs_write_buffer_def f_def Let_def)
  ultimately show ?thesis by simp
qed

definition read_txns :: "uint \<Rightarrow> int \<Rightarrow> nat \<Rightarrow> byte list list" where
  "read_txns four a n = mode_in four @ [epcs_read # epcs_address four a @ replicate n 0] @ mode_out four"

definition holds :: "(byte list list \<Rightarrow> byte list \<Rightarrow> byte) \<Rightarrow> byte list list \<Rightarrow> uint \<Rightarrow> int \<Rightarrow> byte list \<Rightarrow> bool" where
  \<comment> \<open>to a read command at address \<open>a\<close>, in the address mode \<open>four\<close> and whatever status readings come in between,
    the chip with this past answers \<open>bs\<close>\<close>
  "holds miso past four a bs \<longleftrightarrow> (\<forall>new. essential new = mode_in four \<longrightarrow>
     map (\<lambda>i. miso (past @ new) (epcs_read # epcs_address four a @ replicate (Suc i) 0)) [0..<length bs] = bs)"

lemma transacts_read:
  assumes "flash_chip h miso" and "spi_idle w" and "holds miso (spi_past w) four a bs"
  shows "\<exists>w'. epcs_read_buffer EPCS_FLASH_REGS a (length bs) four h w = Some ((int (length bs), bs), w') \<and>
    spi_extends w w' (read_txns four a (length bs))"
proof -
  let ?cmd = "epcs_read # epcs_address four a"
  define f where "f = (\<lambda>w :: 'a bus_scheme. do {
     w \<leftarrow> (if four \<noteq> 0 then epcs_enter_4_bytes_mode EPCS_FLASH_REGS h w else Some w);
     epcs_await_wip_released EPCS_FLASH_REGS h w })"
  have "transacts f (mode_in four @ [])"
    unfolding f_def by (intro transacts_seq transacts_mode [OF assms(1)] transacts_await [OF assms(1)])
  then obtain u where u: "f w = Some u" "spi_extends w u (mode_in four)"
    using transactsD [OF _ assms(2)] by fastforce
  then obtain new where new: "spi_past u = spi_past w @ new" "essential new = mode_in four"
    unfolding spi_extends_def by blast
  have bs: "map (\<lambda>i. miso (spi_past u) (?cmd @ replicate (Suc i) 0)) [0..<length bs] = bs"
    using assms(3) new(2) unfolding holds_def new(1) by simp
  obtain v where v: "alt_avalon_spi_command EPCS_FLASH_REGS 0 ?cmd (length bs) 0 h u = Some (bs, v)"
    "spi_extends u v [?cmd @ replicate (length bs) 0]"
    using command_transfers [OF assms(1) spi_extends_idle [OF u(2)], of ?cmd "length bs"] unfolding bs by (auto simp: epcs_codes)
  obtain w' where w': "(if four \<noteq> 0 then epcs_exit_4_bytes_mode EPCS_FLASH_REGS h v else Some v) = Some w'"
    "spi_extends v w' (mode_out four)"
    using transactsD [OF transacts_mode(2) [OF assms(1)] spi_extends_idle [OF v(2)]] by blast
  have "epcs_read_buffer EPCS_FLASH_REGS a (length bs) four h w = (do {
      w \<leftarrow> f w;
      (bs', w) \<leftarrow> alt_avalon_spi_command EPCS_FLASH_REGS 0 ?cmd (length bs) 0 h w;
      w \<leftarrow> (if four \<noteq> 0 then epcs_exit_4_bytes_mode EPCS_FLASH_REGS h w else Some w);
      Some ((int (length bs), bs'), w) })"
    by (simp add: epcs_read_buffer_def f_def Let_def)
  also have "\<dots> = Some ((int (length bs), bs), w')"
    using u(1) v(1) w'(1) by simp
  finally have "epcs_read_buffer EPCS_FLASH_REGS a (length bs) four h w = Some ((int (length bs), bs), w')" .
  moreover have "spi_extends w w' (read_txns four a (length bs))"
    using spi_extends_trans [OF u(2) spi_extends_trans [OF v(2) w'(2)]] by (simp add: read_txns_def)
  ultimately show ?thesis by blast
qed

subsection \<open>A known device\<close>

definition dev_bytes :: "alt_flash_epcs_dev \<Rightarrow> int" where
  "dev_bytes f = region_size (region_info f ! 0)"

definition flash_dev_ok :: "alt_flash_epcs_dev \<Rightarrow> bool" where
  \<comment> \<open>what the query of a known chip leaves\<close>
  "flash_dev_ok f \<longleftrightarrow> register_base f = EPCS_FLASH_REGS \<and> number_of_regions f = 1 \<and>
     length (region_info f) = ALT_MAX_NUMBER_OF_FLASH_REGIONS \<and> r_offset (region_info f ! 0) = 0 \<and>
     0 < dev_bytes f \<and> dev_bytes f \<le> 2 ^ 27 \<and> page_size f = 256"

lemma uint_of_small: "0 \<le> a \<Longrightarrow> a < 2 ^ 32 \<Longrightarrow> Word.uint (word_of_int a :: uint) = a"
  by (simp add: uint_word_of_int_eq take_bit_int_eq_self)

lemma uint_of_negative: "a < 0 \<Longrightarrow> - (2 ^ 31) \<le> a \<Longrightarrow> 2 ^ 31 \<le> Word.uint (word_of_int a :: uint)"
proof -
  assume a: "a < 0" "- (2 ^ 31) \<le> a"
  have "a mod 2 ^ 32 = (a + 2 ^ 32) mod 2 ^ 32" by simp
  also have "\<dots> = a + 2 ^ 32" using a by (intro mod_pos_pos_trivial) simp_all
  finally show ?thesis using a by (simp add: uint_word_of_int take_bit_eq_mod)
qed

text \<open>The address test looks at the first byte only, and refuses negative offsets too, because it
  compares unsigned.\<close>

lemma test_address:
  assumes "flash_dev_ok f" and "- (2 ^ 31) \<le> a" and "a < 2 ^ 31"
  shows "alt_epcs_test_address f a = Some (if 0 \<le> a \<and> a < dev_bytes f then 0 else - EIO)"
proof -
  have f: "number_of_regions f = 1" "length (region_info f) = 8" "r_offset (region_info f ! 0) = 0"
    "0 < dev_bytes f" "dev_bytes f \<le> 2 ^ 27"
    using assms(1) by (simp_all add: flash_dev_ok_def ALT_MAX_NUMBER_OF_FLASH_REGIONS_def)
  have last: "Word.uint (word_of_int (dev_bytes f - 1) :: uint) = dev_bytes f - 1"
    using f by (intro uint_of_small) simp_all
  have "(word_of_int a > (word_of_int (dev_bytes f - 1) :: uint)) = (\<not> (0 \<le> a \<and> a < dev_bytes f))"
  proof (cases "0 \<le> a")
    case True
    then have "Word.uint (word_of_int a :: uint) = a" using assms(3) by (intro uint_of_small) simp_all
    then show ?thesis using last True by (auto simp: word_less_def)
  next
    case False
    then have "2 ^ 31 \<le> Word.uint (word_of_int a :: uint)" using uint_of_negative assms(2) by simp
    then show ?thesis using last False f by (simp add: word_less_def)
  qed
  then show ?thesis
    using f by (simp add: alt_epcs_test_address_def dev_bytes_def)
qed

lemma and_not_255: "(x :: uint) AND NOT 255 = push_bit 8 (drop_bit 8 x)"
proof -
  have "x AND NOT (mask 8) = push_bit 8 (drop_bit 8 x)"
    by (rule bit_word_eqI) (auto simp: bit_simps)
  then show ?thesis by (simp add: mask_eq_decr_exp)
qed

lemma next_page:
  assumes "flash_dev_ok f" and "0 \<le> a" and "a < 2 ^ 27"
  shows "next_page_start f a = a + (256 - a mod 256)"
proof -
  have ps: "page_size f = 256" using assms(1) by (simp add: flash_dev_ok_def)
  have "Word.uint (word_of_int a + 256 :: uint) = a + 256"
    using uint_of_small [of "a + 256"] assms by simp
  then have "Word.uint ((word_of_int a + 256 :: uint) AND NOT 255) = (a + 256) div 256 * 256"
    unfolding and_not_255 unsigned_push_bit_eq unsigned_drop_bit_eq using assms
    by (simp add: push_bit_eq_mult drop_bit_eq_div take_bit_int_eq_self)
  moreover have "(a + 256) div 256 * 256 = a + (256 - a mod 256)"
  proof -
    have "(a + 256) div 256 = a div 256 + 1" by simp
    then show ?thesis by (simp add: minus_div_mult_eq_mod [symmetric] algebra_simps)
  qed
  moreover have "0 \<le> a mod 256" "a mod 256 < 256" by simp_all
  ultimately show ?thesis
    using assms unfolding next_page_start_def ps by (simp add: sint_uint signed_take_bit_int_eq_self)
qed

fun page_cuts :: "int \<Rightarrow> byte list \<Rightarrow> (int \<times> byte list) list" where
  \<comment> \<open>data from address \<open>a\<close> on, cut where a page of the chip ends\<close>
  "page_cuts a bs = (if bs = [] then []
     else (a, take (nat (256 - a mod 256)) bs) # page_cuts (a + (256 - a mod 256)) (drop (nat (256 - a mod 256)) bs))"

declare page_cuts.simps [simp del]

lemma page_cuts_cover:
  "concat (map snd (page_cuts a bs)) = bs"
  "list_all (\<lambda>(c, p). p \<noteq> [] \<and> c mod 256 + int (length p) \<le> 256) (page_cuts a bs)"
proof (induction a bs rule: page_cuts.induct)
  case (1 a bs)
  have n: "nat (256 - a mod 256) \<noteq> 0" "int (nat (256 - a mod 256)) = 256 - a mod 256" by simp_all
  { case 1
    show ?case using "1.IH"(1) by (subst page_cuts.simps) simp }
  { case 2
    show ?case using "1.IH"(2) n by (subst page_cuts.simps) (auto simp: min_def) }
qed

lemma page_cuts_one: "a mod 256 = 0 \<Longrightarrow> length bs = 256 \<Longrightarrow> page_cuts a bs = [(a, bs)]"
  by (subst page_cuts.simps, auto, subst page_cuts.simps, simp)

lemma slice_split:
  assumes "slice xs off (length bs) = Some bs"
  shows "slice xs off (min (length bs) n) = Some (take n bs)"
    and "slice xs (off + min (length bs) n) (length (drop n bs)) = Some (drop n bs)"
proof -
  obtain rest where "drop off xs = bs @ rest" and len: "off + length bs \<le> length xs"
    using assms by (metis append_take_drop_id slice_eq_Some)
  moreover from this(1) have "drop (off + k) xs = drop k (bs @ rest)" for k
    by (metis add.commute drop_drop)
  ultimately show "slice xs off (min (length bs) n) = Some (take n bs)"
    "slice xs (off + min (length bs) n) (length (drop n bs)) = Some (drop n bs)"
    by (auto simp: slice_eq_Some min_def)
qed

lemma write_pages_transacts:
  assumes "flash_chip h miso" and "flash_dev_ok f" and "spi_idle w" and "0 \<le> a" and "a + int (length bs) \<le> 2 ^ 27"
    and "slice data off (length bs) = Some bs"
  shows "\<exists>w'. write_pages f a off (int (length bs)) data h w = Some w' \<and>
    spi_extends w w' (concat (map (program_txns (four_bytes_mode f)) (page_cuts a bs)))"
  using assms(3-6)
proof (induction a bs arbitrary: off w rule: page_cuts.induct)
  case (1 a bs)
  show ?case
  proof (cases "bs = []")
    case True
    then show ?thesis using spi_extends_refl [OF "1.prems"(1)] by (subst write_pages.simps, subst page_cuts.simps) simp
  next
    case False
    define n where "n = nat (256 - a mod 256)"
    have n: "0 < n" "int n = 256 - a mod 256" by (simp_all add: n_def)
    have "a < 2 ^ 27" using "1.prems"(2,3) False by (cases bs) auto
    then have np: "next_page_start f a = a + int n" using next_page [OF assms(2) "1.prems"(2)] n by simp
    define k where "k = min (length bs) n"
    have now: "slice data off k = Some (take n bs)" and later: "slice data (off + k) (length (drop n bs)) = Some (drop n bs)"
      using slice_split [OF "1.prems"(4)] by (simp_all add: k_def)
    obtain u where u: "epcs_write_buffer EPCS_FLASH_REGS a (take n bs) (four_bytes_mode f) h w = Some (int (length (take n bs)), u)"
      "spi_extends w u (program_txns (four_bytes_mode f) (a, take n bs))"
      using transacts_program [OF assms(1) _ "1.prems"(1), of "take n bs" a "four_bytes_mode f"] False n by auto
    have "\<exists>v. write_pages f (a + int n) (off + k) (int (length (drop n bs))) data h u = Some v \<and>
        spi_extends u v (concat (map (program_txns (four_bytes_mode f)) (page_cuts (a + int n) (drop n bs))))"
    proof (cases "n < length bs")
      case True
      then show ?thesis
        using "1.IH" [OF False spi_extends_idle [OF u(2)], of "off + k"] "1.prems"(2,3) n later
        by (simp add: n_def [symmetric] of_nat_diff)
    next
      case False
      then show ?thesis
        using spi_extends_refl [OF spi_extends_idle [OF u(2)]] by (subst write_pages.simps, subst page_cuts.simps) simp
    qed
    then obtain v where v: "write_pages f (a + int n) (off + k) (int (length (drop n bs))) data h u = Some v"
      "spi_extends u v (concat (map (program_txns (four_bytes_mode f)) (page_cuts (a + int n) (drop n bs))))" by blast
    have reg: "register_base f = EPCS_FLASH_REGS" using assms(2) by (simp add: flash_dev_ok_def)
    have cnt: "min (int (length bs)) (int n) = int k" "int (length bs) - int k = int (length (drop n bs))"
      by (auto simp: k_def)
    have "write_pages f a off (int (length bs)) data h w = Some v"
      using False now u(1) v(1) by (subst write_pages.simps) (simp add: np reg Let_def cnt del: length_drop)
    moreover have "page_cuts a bs = (a, take n bs) # page_cuts (a + int n) (drop n bs)"
      using False n by (subst page_cuts.simps) (simp add: n_def)
    ultimately show ?thesis using spi_extends_trans [OF u(2) v(2)] by simp
  qed
qed

text \<open>
  The three operations on a known device: a write is cut where the chip's 256-byte pages end and each
  piece is programmed after a write enable; an erase and a read are one command each; in the four-byte mode every
  command is wrapped in the switch to it and back.
\<close>

lemma erase_block_transacts:
  assumes "flash_chip h miso" and "flash_dev_ok f" and "spi_idle w" and "0 \<le> a" and "a < dev_bytes f"
  shows "\<exists>w'. alt_epcs_flash_erase_block f a h w = Some (0, w') \<and> spi_extends w w' (erase_txns (four_bytes_mode f) a)"
proof -
  have "dev_bytes f \<le> 2 ^ 27" "register_base f = EPCS_FLASH_REGS" using assms(2) by (simp_all add: flash_dev_ok_def)
  moreover from this(1) have "Word.uint (word_of_int a :: uint) = a" "alt_epcs_test_address f a = Some 0"
    using assms(4,5) uint_of_small [of a] test_address [OF assms(2), of a] by simp_all
  ultimately show ?thesis
    using transactsD [OF transacts_erase [OF assms(1)] assms(3), of "word_of_int a" "four_bytes_mode f"]
    by (auto simp: alt_epcs_flash_erase_block_def)
qed

lemma write_block_transacts:
  assumes "flash_chip h miso" and "flash_dev_ok f" and "spi_idle w" and "0 \<le> a" and "a + int (length bs) \<le> dev_bytes f"
    and "bs \<noteq> []" and "take (length bs) data = bs"
  shows "\<exists>w'. alt_epcs_flash_write_block f b a data (int (length bs)) h w = Some (0, w') \<and>
    spi_extends w w' (concat (map (program_txns (four_bytes_mode f)) (page_cuts a bs)))"
proof -
  have size: "dev_bytes f \<le> 2 ^ 27" using assms(2) by (simp add: flash_dev_ok_def)
  have "0 < int (length bs)" using assms(6) by simp
  then have "a < dev_bytes f" using assms(5) by linarith
  then have "alt_epcs_test_address f a = Some 0"
    using assms(4) size test_address [OF assms(2), of a] by simp
  moreover have "length bs \<le> length data"
    using assms(7) by (metis length_take min.cobounded1)
  then have "slice data 0 (length bs) = Some bs" using assms(7) by (simp add: slice_eq_Some)
  from write_pages_transacts [OF assms(1-4) _ this] assms(5) size
  have "\<exists>w'. write_pages f a 0 (int (length bs)) data h w = Some w' \<and>
      spi_extends w w' (concat (map (program_txns (four_bytes_mode f)) (page_cuts a bs)))" by simp
  ultimately show ?thesis by (auto simp: alt_epcs_flash_write_block_def)
qed

lemma flash_read_transacts:
  assumes "flash_chip h miso" and "flash_dev_ok f" and "spi_idle w" and "0 \<le> a" and "a < dev_bytes f"
    and "holds miso (spi_past w) (four_bytes_mode f) a bs"
  shows "\<exists>w'. alt_epcs_flash_read f a (int (length bs)) h w = Some ((0, Some bs), w') \<and>
    spi_extends w w' (read_txns (four_bytes_mode f) a (length bs))"
proof -
  have "dev_bytes f \<le> 2 ^ 27" "register_base f = EPCS_FLASH_REGS" using assms(2) by (simp_all add: flash_dev_ok_def)
  moreover from this(1) have "alt_epcs_test_address f a = Some 0"
    using assms(4,5) test_address [OF assms(2), of a] by simp
  ultimately show ?thesis
    using transacts_read [OF assms(1,3,6)] by (auto simp: alt_epcs_flash_read_def)
qed

lemma flash_refuses:
  assumes "flash_dev_ok f" and "- (2 ^ 31) \<le> a" and "a < 2 ^ 31" and "a < 0 \<or> dev_bytes f \<le> a"
  shows "alt_epcs_flash_erase_block f a h w = Some (- EIO, w)" "alt_epcs_flash_write_block f b a data n h w = Some (- EIO, w)"
    "alt_epcs_flash_read f a n h w = Some ((- EIO, None), w)"
  using test_address [OF assms(1-3)] assms(4)
  by (auto simp: alt_epcs_flash_erase_block_def alt_epcs_flash_write_block_def alt_epcs_flash_read_def EIO_def)

subsection \<open>A chip to try it on\<close>

definition spi_env :: "(byte list list \<Rightarrow> byte list \<Rightarrow> byte) \<Rightarrow> env \<Rightarrow> env" where
  \<comment> \<open>the same hardware with an SPI core that is always ready and a chip that answers \<open>miso\<close>\<close>
  "spi_env miso h = h\<lparr>rd := \<lambda>tr d r.
     if d \<noteq> EPCS_FLASH_REGS then rd h tr d r
     else case spi_seen tr of (past, cur, full) \<Rightarrow>
       if r = ALTERA_AVALON_SPI_STATUS_REG then (if full then 0xA0 else 0x60)
       else if r = ALTERA_AVALON_SPI_RXDATA_REG then ucast (miso past (case cur of None \<Rightarrow> [] | Some c \<Rightarrow> c)) else 0\<rparr>"

lemma spi_env_core: "spi_core (spi_env miso h) miso"
proof -
  have st: "spi_status (spi_env miso h) tr k = (if full then 0xA0 else 0x60)" if "spi_seen tr = (past, cur, full)" for tr k past cur full
    using that by (simp add: spi_status_def spi_env_def spi_seen_append)
  show ?thesis
    unfolding spi_core_def
  proof (intro allI impI conjI)
    fix tr past cur full assume seen: "spi_seen tr = (past, Some cur, full)"
    show "\<exists>k. (if full then spi_status (spi_env miso h) tr k AND ALTERA_AVALON_SPI_STATUS_RRDY_MSK \<noteq> 0
           else spi_status (spi_env miso h) tr k AND ALTERA_AVALON_SPI_STATUS_TRDY_MSK \<noteq> 0 \<and>
             spi_status (spi_env miso h) tr k AND ALTERA_AVALON_SPI_STATUS_RRDY_MSK = 0) \<and>
       (\<forall>j<k. spi_status (spi_env miso h) tr j AND ALTERA_AVALON_SPI_STATUS_RRDY_MSK = 0 \<and>
         (full \<or> spi_status (spi_env miso h) tr j AND ALTERA_AVALON_SPI_STATUS_TRDY_MSK = 0))"
      by (intro exI [of _ 0]) (simp add: st [OF seen] spi_masks)
    show "\<exists>k. spi_status (spi_env miso h) tr k AND ALTERA_AVALON_SPI_STATUS_TMT_MSK \<noteq> 0"
      by (intro exI [of _ 0]) (simp add: st [OF seen] spi_masks)
    show "ucast (rd (spi_env miso h) tr EPCS_FLASH_REGS ALTERA_AVALON_SPI_RXDATA_REG) = miso past cur"
      using seen by (simp add: spi_env_def byte_uint_byte)
  qed
qed

definition demo_chip :: "byte list list \<Rightarrow> byte list \<Rightarrow> byte" where
  \<comment> \<open>never busy, the device id C22016, and to a read the bytes of the last page program at that address\<close>
  "demo_chip past cur =
     (if take 1 cur = [epcs_rdid] then [0xC2, 0x20, 0x16] ! (length cur - 2)
      else if take 1 cur = [epcs_read]
      then (case find (\<lambda>t. take 4 t = epcs_pp # take 3 (tl cur)) (rev past) of
          None \<Rightarrow> 0xFF | Some t \<Rightarrow> t ! (length cur - 1))
      else 0)"

lemma demo_flash_chip: "flash_chip (spi_env demo_chip h) demo_chip"
  unfolding flash_chip_def using spi_env_core
  by (simp add: demo_chip_def epcs_codes) 

lemma find_app: "find P (xs @ ys) = (case find P xs of None \<Rightarrow> find P ys | Some x \<Rightarrow> Some x)"
  by (induction xs) auto

lemma demo_chip_holds:
  assumes "essential new = program_txns 0 (a, bs)"
  shows "holds demo_chip (past @ new) 0 a bs"
  unfolding holds_def
proof (intro allI impI)
  fix polls' assume quiet: "essential polls' = mode_in 0"
  let ?P = "\<lambda>t. take 4 t = epcs_pp # epcs_address 0 a"
  have skip: "find ?P (rev xs @ ys) = find ?P (rev (essential xs) @ ys)" for xs ys
  proof (induction xs arbitrary: ys)
    case (Cons t ts)
    have "\<not> ?P t" if "take 1 t = [epcs_rdsr]" using that by (cases t) (auto simp: epcs_codes)
    then show ?case
      using Cons [of "t # ys"] by (cases "take 1 t = [epcs_rdsr]") (simp_all add: find_app [of _ _ "t # ys"] find_app [of _ _ ys] cong: option.case_cong)
  qed simp
  have "find ?P (rev (past @ new @ polls')) = Some (epcs_pp # epcs_address 0 a @ bs)"
    using skip [of "new @ polls'" "rev past"] assms quiet
    by (simp add: mode_in_def mode_out_def program_txns_def epcs_codes)
  then show "map (\<lambda>i. demo_chip ((past @ new) @ polls') (epcs_read # epcs_address 0 a @ replicate (Suc i) 0)) [0..<length bs] = bs"
    by (intro nth_equalityI) (simp_all add: demo_chip_def epcs_codes epcs_address_def)
qed

end
