(* ===== verification/RemoteUpdate.thy ===== *)
theory RemoteUpdate
  imports World EpcsSpec "HOL-Library.Signed_Division"
begin

text \<open>
  \<open>remote_update.c\<close>: the firmware image in the serial flash, and under it the device layer of
  the board support package: the list of registered flash devices (\<open>alt_flash_dev.c\<close>,
  \<open>alt_find_dev.c\<close>, \<open>alt_dev_llist_insert.c\<close>) and the calls of \<open>alt_flash.h\<close>, which reach the EPCS
  driver through the function pointers its instance macro sets.
\<close>

subsection \<open>Registered devices\<close>

definition EPCS_FLASH_NAME :: string where "EPCS_FLASH_NAME = ''/dev/epcs_flash''"

definition epcs_flash :: alt_flash_epcs_dev where
  \<comment> \<open>\<open>ALTERA_AVALON_EPCS_FLASH_CONTROLLER_INSTANCE\<close>: the rest of the static structure is zero\<close>
  "epcs_flash = \<lparr>fd_name = EPCS_FLASH_NAME, number_of_regions = 0,
     region_info = replicate ALT_MAX_NUMBER_OF_FLASH_REGIONS
       \<lparr>r_offset = 0, region_size = 0, number_of_blocks = 0, block_size = 0\<rparr>,
     register_base = EPCS_FLASH_REGS, size_in_bytes = 0, silicon_id = 0, page_size = 0, four_bytes_mode = 0\<rparr>"

definition alt_flash_device_register :: "alt_flash_epcs_dev \<Rightarrow> world \<Rightarrow> int \<times> world" where
  "alt_flash_device_register fd w = (let (r, l) = alt_dev_llist_insert fd (alt_flash_dev_list w)
     in (r, w\<lparr>alt_flash_dev_list := l\<rparr>))"

definition alt_epcs_flash_init :: "alt_flash_epcs_dev \<Rightarrow> env \<Rightarrow> world \<Rightarrow> (int \<times> world) option" where
  "alt_epcs_flash_init flash h w = do {
     ((ret_code, flash), w) \<leftarrow> alt_epcs_flash_query flash h w;
     Some (if ret_code = 0 then alt_flash_device_register flash w else (ret_code, w))
   }"

definition alt_flash_open_dev :: "string \<Rightarrow> world \<Rightarrow> alt_flash_epcs_dev option" where
  \<comment> \<open>the EPCS driver sets no \<open>open\<close>, and no \<open>close\<close> either: \<open>alt_flash_close_dev\<close> does nothing\<close>
  "alt_flash_open_dev name w = alt_find_dev fd_name name (alt_flash_dev_list w)"

definition alt_write_flash_block ::
    "alt_flash_epcs_dev \<Rightarrow> int \<Rightarrow> int \<Rightarrow> byte list \<Rightarrow> int \<Rightarrow> env \<Rightarrow> 'a bus_scheme \<Rightarrow> (int \<times> 'a bus_scheme) option" where
  "alt_write_flash_block fd block_offset data_offset data len h w =
     alt_epcs_flash_write_block fd block_offset data_offset data len h w"

definition alt_read_flash ::
    "alt_flash_epcs_dev \<Rightarrow> int \<Rightarrow> int \<Rightarrow> env \<Rightarrow> 'a bus_scheme \<Rightarrow> ((int \<times> byte list option) \<times> 'a bus_scheme) option" where
  "alt_read_flash fd offset len h w = alt_epcs_flash_read fd offset len h w"

definition alt_erase_flash_block :: "alt_flash_epcs_dev \<Rightarrow> int \<Rightarrow> int \<Rightarrow> env \<Rightarrow> 'a bus_scheme \<Rightarrow> (int \<times> 'a bus_scheme) option" where
  \<comment> \<open>the length is not used\<close>
  "alt_erase_flash_block fd offset len h w = alt_epcs_flash_erase_block fd offset h w"

subsection \<open>The image\<close>

definition EPCS_BLOCK_SIZE :: int where "EPCS_BLOCK_SIZE = 65536"

definition int_ok :: "int \<Rightarrow> bool" where
  \<comment> \<open>the range of a C \<open>int\<close>\<close>
  "int_ok i \<longleftrightarrow> - (2 ^ 31) \<le> i \<and> i < 2 ^ 31"

definition image_write :: "int \<Rightarrow> byte list \<Rightarrow> env \<Rightarrow> world \<Rightarrow> (int \<times> world) option" where
  "image_write addr data h w = do {
     let block_addr = (addr sdiv EPCS_BLOCK_SIZE) * EPCS_BLOCK_SIZE;
     let offset = addr smod EPCS_BLOCK_SIZE;
     case alt_flash_open_dev EPCS_FLASH_NAME w of
       None \<Rightarrow> Some (0, w)
     | Some fd \<Rightarrow> alt_write_flash_block fd block_addr (block_addr + offset) data 256 h w
   }"

definition image_read :: "int \<Rightarrow> env \<Rightarrow> world \<Rightarrow> ((int \<times> byte list option) \<times> world) option" where
  \<comment> \<open>with the return code, what has been stored through \<open>data\<close>: 256 bytes, or nothing when the
    device was not found or refused the address\<close>
  "image_read addr h w =
     (case alt_flash_open_dev EPCS_FLASH_NAME w of
        None \<Rightarrow> Some ((0, None), w)
      | Some fd \<Rightarrow> alt_read_flash fd addr 256 h w)"

definition image_erase :: "int \<Rightarrow> env \<Rightarrow> world \<Rightarrow> (int \<times> world) option" where
  \<comment> \<open>a product outside \<open>int\<close> has no defined value\<close>
  "image_erase block_offset h w =
     (case alt_flash_open_dev EPCS_FLASH_NAME w of
        None \<Rightarrow> Some (0, w)
      | Some fd \<Rightarrow>
          if int_ok (block_offset * EPCS_BLOCK_SIZE)
          then alt_erase_flash_block fd (block_offset * EPCS_BLOCK_SIZE) EPCS_BLOCK_SIZE h w
          else None)"

lemma keeps_flash:
  "keepsv only_trace (image_write a d h)" "keepsv only_trace (image_read a h)" "keepsv only_trace (image_erase b h)"
  by (auto simp: keepsv_def image_write_def image_read_def image_erase_def alt_write_flash_block_def alt_read_flash_def
      alt_erase_flash_block_def Let_def tr.R_refl split: option.splits if_splits dest: keepsvD [OF keepsv_flash_ops(1)]
      keepsvD [OF keepsv_flash_ops(2)] keepsvD [OF keepsv_flash_ops(3)])

lemma image_read_length: "image_read a h w = Some ((r, Some bs), w') \<Longrightarrow> length bs = 256"
  using flash_read_length by (fastforce simp: image_read_def alt_read_flash_def split: option.splits)

subsection \<open>Which chip is found\<close>

definition answers_id :: "(byte list list \<Rightarrow> byte list \<Rightarrow> byte) \<Rightarrow> byte list list \<Rightarrow> byte list \<Rightarrow> nat \<Rightarrow> byte list" where
  \<comment> \<open>the first \<open>n\<close> bytes the chip answers behind a command\<close>
  "answers_id miso past cmd n = map (\<lambda>i. miso past (cmd @ replicate (Suc i) 0)) [0..<n]"

definition chip_found :: "(byte list list \<Rightarrow> byte list \<Rightarrow> byte) \<Rightarrow> byte list list \<Rightarrow> ((int \<times> int \<times> int) \<times> uint) option" where
  "chip_found miso past =
     (let res = answers_id miso past [epcs_res, 0, 0, 0] 1; ids = answers_id miso (past @ [[epcs_res, 0, 0, 0, 0]]) [epcs_rdid] 3 in
      case signature_geometry (ucast (res ! 0)) of
        Some g \<Rightarrow> Some (g, 0)
      | None \<Rightarrow> device_geometry (push_bit 16 (ucast (ids ! 0)) OR push_bit 8 (ucast (ids ! 1)) OR ucast (ids ! 2)))"

lemma known_geometry:
  "signature_geometry k = Some (bytes, blocks, block) \<Longrightarrow> 0 < bytes \<and> bytes \<le> 2 ^ 27 \<and> blocks * block = bytes"
  "device_geometry k = Some ((bytes, blocks, block), four) \<Longrightarrow>
    0 < bytes \<and> bytes \<le> 2 ^ 27 \<and> blocks * block = bytes \<and> (2 ^ 24 < bytes \<longleftrightarrow> four \<noteq> 0)"
  by (auto simp: signature_geometry_def device_geometry_def split: if_splits)

lemma signature_small: "signature_geometry k = Some (bytes, blocks, block) \<Longrightarrow> bytes \<le> 2 ^ 24"
  by (auto simp: signature_geometry_def split: if_splits)

lemma signature_read:
  assumes "flash_chip h miso" and "spi_idle w"
  shows "\<exists>w'. epcs_read_electronic_signature EPCS_FLASH_REGS h w = Some (answers_id miso (spi_past w) [epcs_res, 0, 0, 0] 1 ! 0, w') \<and>
    spi_extends w w' [[epcs_res, 0, 0, 0, 0]] \<and> spi_past w' = spi_past w @ [[epcs_res, 0, 0, 0, 0]]"
  using command_transfers [OF assms, of "[epcs_res, 0, 0, 0]" 1]
  by (auto simp: epcs_read_electronic_signature_def answers_id_def epcs_codes)

lemma device_id_read:
  assumes "flash_chip h miso" and "spi_idle w"
  shows "\<exists>w'. epcs_read_device_id EPCS_FLASH_REGS h w = Some (let ids = answers_id miso (spi_past w) [epcs_rdid] 3 in
      push_bit 16 (ucast (ids ! 0)) OR push_bit 8 (ucast (ids ! 1)) OR ucast (ids ! 2), w') \<and>
    spi_extends w w' [[epcs_rdid, 0, 0, 0]]"
  using command_transfers [OF assms, of "[epcs_rdid]" 3]
  by (auto simp: epcs_read_device_id_def answers_id_def epcs_codes Let_def numeral_3_eq_3)

lemma flash_query_result:
  assumes "flash_chip h miso" and "spi_idle w"
  shows "\<exists>f w'. alt_epcs_flash_query epcs_flash h w = Some ((if chip_found miso (spi_past w) = None then - ENODEV else 0, f), w') \<and>
    (\<exists>xs. spi_extends w w' xs) \<and> fd_name f = EPCS_FLASH_NAME \<and>
    (\<forall>bytes blocks block four. chip_found miso (spi_past w) = Some ((bytes, blocks, block), four) \<longrightarrow>
       flash_dev_ok f \<and> dev_bytes f = bytes \<and> four_bytes_mode f = four)"
proof -
  obtain u where u: "epcs_read_electronic_signature EPCS_FLASH_REGS h w = Some (answers_id miso (spi_past w) [epcs_res, 0, 0, 0] 1 ! 0, u)"
    "spi_extends w u [[epcs_res, 0, 0, 0, 0]]" "spi_past u = spi_past w @ [[epcs_res, 0, 0, 0, 0]]"
    using signature_read [OF assms] by blast
  let ?sig = "ucast (answers_id miso (spi_past w) [epcs_res, 0, 0, 0] 1 ! 0) :: uint"
  note defs = alt_epcs_flash_query_def chip_found_def epcs_flash_def set_geometry_def on_region0_def flash_dev_ok_def dev_bytes_def
    ALT_MAX_NUMBER_OF_FLASH_REGIONS_def Let_def
  show ?thesis
  proof (cases "signature_geometry ?sig")
    case (Some g)
    obtain bytes blocks block where "g = (bytes, blocks, block)" by (cases g) auto
    then show ?thesis using known_geometry(1) Some u by (fastforce simp: defs)
  next
    case None
    obtain v where v: "epcs_read_device_id EPCS_FLASH_REGS h u = Some (let ids = answers_id miso (spi_past u) [epcs_rdid] 3 in
      push_bit 16 (ucast (ids ! 0)) OR push_bit 8 (ucast (ids ! 1)) OR ucast (ids ! 2), v)" "spi_extends u v [[epcs_rdid, 0, 0, 0]]"
      using device_id_read [OF assms(1) spi_extends_idle [OF u(2)]] by blast
    let ?id = "let ids = answers_id miso (spi_past u) [epcs_rdid] 3 in push_bit 16 (ucast (ids ! 0)) OR push_bit 8 (ucast (ids ! 1)) OR ucast (ids ! 2)"
    have ext: "\<exists>xs. spi_extends w v xs" using spi_extends_trans [OF u(2) v(2)] by blast
    show ?thesis
    proof (cases "device_geometry ?id")
      case (Some g)
      obtain bytes blocks block four where "g = ((bytes, blocks, block), four)" by (cases g) auto
      then show ?thesis using known_geometry(2) Some None u v ext by (fastforce simp: defs)
    next
      case no: None
      then show ?thesis using None u v ext by (fastforce simp: defs)
    qed
  qed
qed

lemma extends_more: "spi_extends w w' xs \<Longrightarrow> bus.more w' = bus.more w" for w :: "'a bus_scheme"
  by (auto simp: spi_extends_def logged_def)

lemma extends_devices: "spi_extends w w' xs \<Longrightarrow> alt_flash_dev_list w' = alt_flash_dev_list w" for w :: world
  by (auto simp: spi_extends_def logged_def)

text \<open>C18: at start-up the flash is identified by its signature or its device id; a chip of the tables is registered
  under its name with its size, which is the product of its block count and block size, and is addressed with
  four bytes exactly when it has more than 16 MB; any other chip is refused and not registered.\<close>

theorem flash_device_registered:
  assumes "flash_chip h miso" and "spi_idle w"
  shows "\<exists>w'. alt_epcs_flash_init epcs_flash h w = Some (if chip_found miso (spi_past w) = None then - ENODEV else 0, w') \<and>
    (case chip_found miso (spi_past w) of
       None \<Rightarrow> alt_flash_dev_list w' = alt_flash_dev_list w
     | Some ((bytes, blocks, block), four) \<Rightarrow>
         \<exists>f. alt_flash_open_dev EPCS_FLASH_NAME w' = Some f \<and> flash_dev_ok f \<and> dev_bytes f = bytes \<and>
           blocks * block = bytes \<and> four_bytes_mode f = four \<and> (2 ^ 24 < bytes \<longleftrightarrow> four \<noteq> 0))"
proof -
  obtain f w' xs where q: "alt_epcs_flash_query epcs_flash h w = Some ((if chip_found miso (spi_past w) = None then - ENODEV else 0, f), w')"
    "spi_extends w w' xs" "fd_name f = EPCS_FLASH_NAME" and
    known: "\<forall>bytes blocks block four. chip_found miso (spi_past w) = Some ((bytes, blocks, block), four) \<longrightarrow>
       flash_dev_ok f \<and> dev_bytes f = bytes \<and> four_bytes_mode f = four"
    using flash_query_result [OF assms] by blast
  show ?thesis
  proof (cases "chip_found miso (spi_past w)")
    case None
    then show ?thesis using q(1) extends_devices [OF q(2)] by (simp add: alt_epcs_flash_init_def ENODEV_def)
  next
    case (Some g)
    obtain bytes blocks block four where g: "g = ((bytes, blocks, block), four)" by (cases g) auto
    have "blocks * block = bytes \<and> (2 ^ 24 < bytes \<longleftrightarrow> four \<noteq> 0)"
      using Some known_geometry signature_small unfolding g chip_found_def
      by (fastforce simp: Let_def split: option.splits)
    then show ?thesis
      using q(1,3) known Some g
      by (simp add: alt_epcs_flash_init_def alt_flash_device_register_def alt_dev_llist_insert_def
          alt_flash_open_dev_def alt_find_dev_def)
  qed
qed

lemma demo_chip_found: "chip_found demo_chip past = Some ((32 * 1024 * 1024 div 8, 64, 65536), 0)"
  by (simp add: chip_found_def answers_id_def demo_chip_def epcs_codes signature_geometry_def device_geometry_def
      Let_def upt_conv_Cons)

theorem flash_device_registered_witness:
  "\<exists>w' f. alt_epcs_flash_init epcs_flash (spi_env demo_chip quiet_env) world_init = Some (0, w') \<and>
    alt_flash_open_dev EPCS_FLASH_NAME w' = Some f \<and> flash_dev_ok f \<and> dev_bytes f = 4194304 \<and> four_bytes_mode f = 0"
proof -
  have "spi_idle world_init" by (simp add: spi_idle_def spi_seen_def world_init_def)
  from flash_device_registered [OF demo_flash_chip this, of quiet_env] show ?thesis
    unfolding demo_chip_found by auto
qed

subsection \<open>Pages of the image\<close>

lemma block_of:
  assumes "0 \<le> a"
  shows "(a sdiv EPCS_BLOCK_SIZE) * EPCS_BLOCK_SIZE + a smod EPCS_BLOCK_SIZE = a"
  using assms unfolding EPCS_BLOCK_SIZE_def
  by (cases "a = 0"; simp add: signed_modulo_int_def signed_divide_int_def)

lemma image_write_transacts:
  assumes "flash_chip h miso" and "spi_idle w" and "alt_flash_open_dev EPCS_FLASH_NAME w = Some f" and "flash_dev_ok f"
    and "0 \<le> a" and "a mod 256 = 0" and "a + 256 \<le> dev_bytes f" and "256 \<le> length dat"
  shows "\<exists>w'. image_write a dat h w = Some (0, w') \<and> spi_extends w w' (program_txns (four_bytes_mode f) (a, take 256 dat))"
proof -
  have "length (take 256 dat) = 256" using assms(8) by simp
  moreover from this have "take 256 dat \<noteq> []" "page_cuts a (take 256 dat) = [(a, take 256 dat)]"
    using page_cuts_one [OF assms(6)] by auto
  ultimately show ?thesis
    using write_block_transacts [OF assms(1,4,2,5), of "take 256 dat" dat "a sdiv EPCS_BLOCK_SIZE * EPCS_BLOCK_SIZE"]
      assms(3,7) block_of [OF assms(5)]
    by (simp add: image_write_def alt_write_flash_block_def Let_def)
qed

lemma image_read_transacts:
  assumes "flash_chip h miso" and "spi_idle w" and "alt_flash_open_dev EPCS_FLASH_NAME w = Some f" and "flash_dev_ok f"
    and "0 \<le> a" and "a < dev_bytes f" and "length bs = 256" and "holds miso (spi_past w) (four_bytes_mode f) a bs"
  shows "\<exists>w'. image_read a h w = Some ((0, Some bs), w') \<and> spi_extends w w' (read_txns (four_bytes_mode f) a 256)"
  using flash_read_transacts [OF assms(1,4,2,5,6,8)] assms(3,7) by (simp add: image_read_def alt_read_flash_def)

lemma image_erase_transacts:
  assumes "flash_chip h miso" and "spi_idle w" and "alt_flash_open_dev EPCS_FLASH_NAME w = Some f" and "flash_dev_ok f"
    and "0 \<le> n" and "n * EPCS_BLOCK_SIZE < dev_bytes f"
  shows "\<exists>w'. image_erase n h w = Some (0, w') \<and> spi_extends w w' (erase_txns (four_bytes_mode f) (n * EPCS_BLOCK_SIZE))"
proof -
  have "0 \<le> n * EPCS_BLOCK_SIZE" using assms(5) by (simp add: EPCS_BLOCK_SIZE_def)
  moreover have "dev_bytes f \<le> 2 ^ 27" using assms(4) by (simp add: flash_dev_ok_def)
  moreover from this have "int_ok (n * EPCS_BLOCK_SIZE)"
    using assms(6) \<open>0 \<le> n * EPCS_BLOCK_SIZE\<close> by (simp add: int_ok_def)
  ultimately show ?thesis
    using erase_block_transacts [OF assms(1,4,2)] assms(3,6) by (simp add: image_erase_def alt_erase_flash_block_def)
qed

text \<open>C19: a page of the image, written at a page boundary inside the device and read back: the chip sees one write
  enable and one page program with the address and the 256 bytes, then one read of them, both in
  the address mode of the device; both calls report success, and if the chip keeps what it was
  programmed, the bytes that come back are the bytes written.\<close>

theorem image_page_roundtrip:
  assumes "flash_chip h miso" and "spi_idle w" and "alt_flash_open_dev EPCS_FLASH_NAME w = Some f" and "flash_dev_ok f"
    and "0 \<le> a" and "a mod 256 = 0" and "a + 256 \<le> dev_bytes f" and "256 \<le> length dat"
    and "\<And>new. essential new = program_txns (four_bytes_mode f) (a, take 256 dat) \<Longrightarrow>
      holds miso (spi_past w @ new) (four_bytes_mode f) a (take 256 dat)"
  shows "\<exists>w'. do { (r, w) \<leftarrow> image_write a dat h w; ((q, bs), w) \<leftarrow> image_read a h w; Some ((r, q, bs), w) } =
      Some ((0, 0, Some (take 256 dat)), w') \<and>
    spi_extends w w' (program_txns (four_bytes_mode f) (a, take 256 dat) @ read_txns (four_bytes_mode f) a 256)"
proof -
  obtain u where u: "image_write a dat h w = Some (0, u)" "spi_extends w u (program_txns (four_bytes_mode f) (a, take 256 dat))"
    using image_write_transacts [OF assms(1-8)] by blast
  have "alt_flash_open_dev EPCS_FLASH_NAME u = Some f"
    using assms(3) extends_devices [OF u(2)] by (simp add: alt_flash_open_dev_def)
  moreover have "holds miso (spi_past u) (four_bytes_mode f) a (take 256 dat)"
    using u(2) assms(9) by (auto simp: spi_extends_def)
  moreover have "a < dev_bytes f" "length (take 256 dat) = 256" using assms(7,8) by simp_all
  ultimately obtain v where "image_read a h u = Some ((0, Some (take 256 dat)), v)"
    "spi_extends u v (read_txns (four_bytes_mode f) a 256)"
    using image_read_transacts [OF assms(1) spi_extends_idle [OF u(2)] _ assms(4,5)] by blast
  with u spi_extends_trans show ?thesis by fastforce
qed

definition demo_dev :: alt_flash_epcs_dev where
  "demo_dev = (set_geometry (4194304, 64, 65536) epcs_flash)\<lparr>number_of_regions := 1, page_size := 256\<rparr>"

lemma demo_dev_ok: "flash_dev_ok demo_dev" "four_bytes_mode demo_dev = 0" "dev_bytes demo_dev = 4194304"
  "alt_flash_open_dev EPCS_FLASH_NAME (world_init\<lparr>alt_flash_dev_list := [demo_dev]\<rparr>) = Some demo_dev"
  by (simp_all add: demo_dev_def epcs_flash_def flash_dev_ok_def dev_bytes_def set_geometry_def on_region0_def
      ALT_MAX_NUMBER_OF_FLASH_REGIONS_def alt_flash_open_dev_def alt_find_dev_def)

theorem image_page_roundtrip_witness:
  "\<exists>w'. do { (r, w) \<leftarrow> image_write 0x10300 (replicate 256 7) (spi_env demo_chip quiet_env) (world_init\<lparr>alt_flash_dev_list := [demo_dev]\<rparr>);
      ((q, bs), w) \<leftarrow> image_read 0x10300 (spi_env demo_chip quiet_env) w; Some ((r, q, bs), w) } =
    Some ((0, 0, Some (replicate 256 7)), w')"
proof -
  let ?w = "world_init\<lparr>alt_flash_dev_list := [demo_dev]\<rparr>"
  have "spi_idle ?w" by (simp add: spi_idle_def spi_seen_def world_init_def)
  then show ?thesis
    using image_page_roundtrip [where a = "0x10300" and dat = "replicate 256 7", OF demo_flash_chip [of quiet_env] _ demo_dev_ok(4,1)] demo_chip_holds [of _ "0x10300" "replicate 256 7" "spi_past ?w"]
    by (auto simp: demo_dev_ok(2,3))
qed

text \<open>Without a registered device the three operations do nothing and report 0, the code of success.\<close>

theorem image_no_device:
  assumes "alt_flash_open_dev EPCS_FLASH_NAME w = None"
  shows "image_write a dat h w = Some (0, w) \<and> image_read a h w = Some ((0, None), w) \<and> image_erase n h w = Some (0, w)"
  using assms by (simp add: image_write_def image_read_def image_erase_def)

theorem image_no_device_witness:
  "image_write 0 [] quiet_env world_init = Some (0, world_init) \<and> image_read 0 quiet_env world_init = Some ((0, None), world_init) \<and>
    image_erase 3 quiet_env world_init = Some (0, world_init)"
  by (rule image_no_device) (simp add: alt_flash_open_dev_def alt_find_dev_def world_init_def)

text \<open>Addresses outside the device are refused by all three operations with \<open>-EIO\<close>: no transaction
  reaches the chip and nothing is stored.\<close>

theorem image_outside_refused:
  assumes "alt_flash_open_dev EPCS_FLASH_NAME w = Some f" and "flash_dev_ok f" and "int_ok a" and "dev_bytes f \<le> a"
    and "int_ok (n * EPCS_BLOCK_SIZE)" and "dev_bytes f \<le> n * EPCS_BLOCK_SIZE \<or> n < 0"
  shows "image_write a dat h w = Some (- EIO, w) \<and> image_read a h w = Some ((- EIO, None), w) \<and> image_erase n h w = Some (- EIO, w)"
proof -
  have "0 < dev_bytes f" using assms(2) by (simp add: flash_dev_ok_def)
  then have "0 \<le> a" "n < 0 \<Longrightarrow> n * EPCS_BLOCK_SIZE < 0" using assms(4) by (simp_all add: EPCS_BLOCK_SIZE_def)
  then have out: "a < 0 \<or> dev_bytes f \<le> a" "n * EPCS_BLOCK_SIZE < 0 \<or> dev_bytes f \<le> n * EPCS_BLOCK_SIZE"
    using assms(4,6) by auto
  have range: "- (2 ^ 31) \<le> a" "a < 2 ^ 31" "- (2 ^ 31) \<le> n * EPCS_BLOCK_SIZE" "n * EPCS_BLOCK_SIZE < 2 ^ 31"
    using assms(3,5) by (simp_all add: int_ok_def)
  show ?thesis
    using assms(1,5)
    by (simp add: image_write_def image_read_def image_erase_def alt_write_flash_block_def alt_read_flash_def
        alt_erase_flash_block_def Let_def block_of [OF \<open>0 \<le> a\<close>] flash_refuses(2,3) [OF assms(2) range(1,2) out(1)]
        flash_refuses(1) [OF assms(2) range(3,4) out(2)])
qed

theorem image_outside_refused_witness:
  "image_write 4194304 [] quiet_env (world_init\<lparr>alt_flash_dev_list := [demo_dev]\<rparr>) = Some (- EIO, world_init\<lparr>alt_flash_dev_list := [demo_dev]\<rparr>) \<and>
    image_read 4194304 quiet_env (world_init\<lparr>alt_flash_dev_list := [demo_dev]\<rparr>) = Some ((- EIO, None), world_init\<lparr>alt_flash_dev_list := [demo_dev]\<rparr>) \<and>
    image_erase 64 quiet_env (world_init\<lparr>alt_flash_dev_list := [demo_dev]\<rparr>) = Some (- EIO, world_init\<lparr>alt_flash_dev_list := [demo_dev]\<rparr>)"
  by (rule image_outside_refused [OF demo_dev_ok(4,1)]) (simp_all add: demo_dev_ok(3) int_ok_def EPCS_BLOCK_SIZE_def)

end
