(* ===== verification/Transmit.thy ===== *)
theory Transmit
  imports World SocketSpec
begin

unbundle bit_operations_syntax

text \<open>
  What a connected client receives. The observer \<open>tx_step\<close> keeps the data written to the transmit
  memory of the sockets, whatever the chip's pointers are; register accesses are silent for it. The
  protocol components state their replies as the list of messages it sees, under \<open>client_ready\<close>:
  the chip takes its commands, makes room and sends what it was given.
\<close>

definition tx_of :: "half list \<Rightarrow> (nat \<times> byte list) list" where
  \<comment> \<open>socket and data of a write access to transmit memory\<close>
  "tx_of f = (if is_write f \<and> unat (drop_bit 3 (f ! 2)) mod 4 = 2
     then [(unat (drop_bit 3 (f ! 2)) div 4, map ucast (drop 3 f))] else [])"

fun tx_step :: "half list \<times> (nat \<times> byte list) list \<Rightarrow> event \<Rightarrow> half list \<times> (nat \<times> byte list) list" where
  "tx_step (cur, log) (Iowr d r v) =
     (if d = W5500_CS_BASE \<and> r = 0 then (if v = 0 then ([], log) else ([], log @ tx_of cur))
      else if d = SPIWR_FIFO_IN_BASE \<and> r = 0 then (cur @ [ucast (swap_halves v)], log)
      else (cur, log))"
| "tx_step m _ = m"

interpretation tx: observer tx_step "\<lambda>pre. ([], pre)"
  by unfold_locales simp

definition tx_log :: "event list \<Rightarrow> (nat \<times> byte list) list" where
  "tx_log evs = snd (foldl tx_step ([], []) evs)"

lemma sees_tx: "tx.sees evs xs \<Longrightarrow> tx_log evs = xs"
  by (simp add: tx.sees_def tx_log_def)

lemma tx_word: "foldl tx_step (cur, log) (spi_word_evs d) = (cur @ [d], log)"
  by (simp add: spi_word_evs_def)

lemma tx_words: "foldl tx_step (cur, log) (concat (map spi_word_evs ds)) = (cur @ ds, log)"
  by (induction ds arbitrary: cur) (simp_all add: tx_word)

lemma tx_access: "tx.sees (access_evs ds) (tx_of ds)"
  by (simp add: tx.sees_def access_evs_def tx_words)

lemma addr_ctl_write: "drop_bit 3 (addr_ctl a + 4) = drop_bit 3 (addr_ctl a)"
proof -
  have "addr_ctl a + 4 = addr_ctl a OR 4"
  proof (rule add_or_disjoint)
    fix n assume "bit (addr_ctl a) n" "bit (4 :: half) n"
    then show False
      using bit_exp_iff [of 2 n, where 'a = half] by (auto simp: addr_ctl_def bit_simps bit_248_int)
  qed
  moreover have "\<not> bit (4 :: half) n" if "3 \<le> n" for n
    using that bit_exp_iff [of 2 n, where 'a = half] by auto
  ultimately show ?thesis
    by (intro bit_word_eqI) (simp add: bit_simps)
qed

lemma tx_of_frame: "tx_of (spi_frame a bs) = (if spi_block a mod 4 = 2 then [(spi_block a div 4, bs)] else [])"
proof -
  have "ucast (ucast b :: half) = b" for b :: byte
    by (rule bit_word_eqI) (auto simp: bit_simps)
  then have "map ucast (map ucast bs :: half list) = bs"
    by (simp add: comp_def)
  moreover have "unat (drop_bit 3 (spi_frame a bs ! 2)) = spi_block a"
    by (simp add: spi_frame_def spi_block_def addr_ctl_write)
  ultimately show ?thesis
    using frame_is_write [of a bs] by (simp add: tx_of_def) (simp add: spi_frame_def)
qed

subsection \<open>Silent operations\<close>

definition silent :: "'a bus_scheme \<Rightarrow> 'a bus_scheme \<Rightarrow> bool" where
  "silent w w' \<longleftrightarrow> (\<exists>evs. w' = logged w evs \<and> tx.sees evs [])"

interpretation si: frame_rel silent
proof
  fix w :: "'a bus_scheme"
  show "silent w w" unfolding silent_def using tx.sees_Nil by (metis logged_simps(3))
next
  fix a b c :: "'a bus_scheme"
  assume "silent a b" "silent b c"
  then show "silent a c"
    unfolding silent_def using tx.sees_append by (metis append_Nil logged_simps(1))
qed

lemma silent_write:
  assumes "never_full h SPIWR_FIFO_IN_CSR_BASE" and "spi_block a mod 4 \<noteq> 2"
  shows "keeps silent (IINCHIP_WRITE a v h)"
  using tx_access [of "spi_frame a [v]"] assms(2)
  by (auto simp: keeps_def silent_def IINCHIP_WRITE_logged [OF assms(1)] tx_of_frame)

lemma spi_receive_quiet:
  "\<exists>b evs. SPI_I2S_ReceiveData h w = Some (b, logged w evs) \<and> (\<forall>m. foldl tx_step m evs = m)"
  by (auto simp: SPI_I2S_ReceiveData_def altera_avalon_fifo_read_level_def
      altera_avalon_fifo_read_fifo_def altera_avalon_fifo_read_status_def)

lemma silent_read:
  assumes "never_full h SPIWR_FIFO_IN_CSR_BASE"
  shows "keepsv silent (IINCHIP_READ a h)"
  unfolding keepsv_def
proof (intro allI impI)
  fix w :: "'a bus_scheme" and x w'
  assume rd: "IINCHIP_READ a h w = Some (x, w')"
  define pre where "pre = Iowr W5500_CS_BASE 0 0 # concat (map spi_word_evs (read_words a))"
  obtain b evs where recv: "SPI_I2S_ReceiveData h (logged w pre) = Some (b, logged (logged w pre) evs)"
    and quiet: "\<forall>m. foldl tx_step m evs = m"
    using spi_receive_quiet by blast
  have "IINCHIP_READ a h w = Some (b, logged w (pre @ evs @ [Iowr W5500_CS_BASE 0 1]))"
    using recv by (simp add: IINCHIP_READ_def IINCHIP_CSoff_def IINCHIP_CSon_def
        SpiSendData_logged [OF assms] pre_def read_words_def)
  moreover have "tx.sees (pre @ evs @ [Iowr W5500_CS_BASE 0 1]) []"
    by (simp add: tx.sees_def pre_def tx_words quiet tx_of_def not_write_read)
  ultimately show "silent w w'"
    using rd by (auto simp: silent_def)
qed

lemma silent_read_total:
  assumes "never_full h SPIWR_FIFO_IN_CSR_BASE"
  shows "\<exists>v w'. IINCHIP_READ a h w = Some (v, w') \<and> silent w w'"
  using IINCHIP_READ_logged [OF assms] keepsvD [OF silent_read [OF assms]] by metis

lemma socket_reg_block:
  assumes "s < 8" and "a \<in> set (socket_regs s)"
  shows "spi_block a mod 4 \<noteq> 2"
proof -
  have "spi_block a = 4 * unat s + 1"
    using socket_reg_blocks [OF assms(1)] assms(2) by auto
  then show ?thesis by simp
qed

lemma adm_keeps2_if: "option.admissible (\<lambda>f. \<forall>x y. P x y \<longrightarrow> keeps R (curry (curry (f)) x y))"
proof -
  have eq: "(\<lambda>f. \<forall>x y. P x y \<longrightarrow> keeps R (curry (curry (f)) x y)) = (\<lambda>f. \<forall>x y w w'. f ((x, y), w) = Some w' \<longrightarrow> P x y \<longrightarrow> R w w')"
    by (intro ext) (auto simp: keeps_def)
  show ?thesis
    unfolding eq using option_admissible [of "\<lambda>((x, y), w) w'. P x y \<longrightarrow> R w w'"] by simp
qed

lemma adm_keepsv2_if: "option.admissible (\<lambda>f. \<forall>x y. P x y \<longrightarrow> keepsv R (curry (curry (f)) x y))"
proof -
  have eq: "(\<lambda>f. \<forall>x y. P x y \<longrightarrow> keepsv R (curry (curry (f)) x y)) = (\<lambda>f. \<forall>x y w v w'. f ((x, y), w) = Some (v, w') \<longrightarrow> P x y \<longrightarrow> R w w')"
    by (intro ext) (auto simp: keepsv_def)
  show ?thesis
    unfolding eq using option_admissible [of "\<lambda>((x, y), w) (v, w'). P x y \<longrightarrow> R w w'"] by simp
qed

lemma adm_keepsv3_if: "option.admissible (\<lambda>f. \<forall>x y z. P x y z \<longrightarrow> keepsv R (curry (curry (curry (f))) x y z))"
proof -
  have eq: "(\<lambda>f. \<forall>x y z. P x y z \<longrightarrow> keepsv R (curry (curry (curry (f))) x y z)) = (\<lambda>f. \<forall>x y z w v w'. f (((x, y), z), w) = Some (v, w') \<longrightarrow> P x y z \<longrightarrow> R w w')"
    by (intro ext) (auto simp: keepsv_def)
  show ?thesis
    unfolding eq using option_admissible [of "\<lambda>(((x, y), z), w) (v, w'). P x y z \<longrightarrow> R w w'"] by simp
qed

lemma adm_keepsv4_if: "option.admissible (\<lambda>f. \<forall>x y z u. P x y z u \<longrightarrow> keepsv R (curry (curry (curry (curry (f)))) x y z u))"
proof -
  have eq: "(\<lambda>f. \<forall>x y z u. P x y z u \<longrightarrow> keepsv R (curry (curry (curry (curry (f)))) x y z u)) = (\<lambda>f. \<forall>x y z u w v w'. f ((((x, y), z), u), w) = Some (v, w') \<longrightarrow> P x y z u \<longrightarrow> R w w')"
    by (intro ext) (auto simp: keepsv_def)
  show ?thesis
    unfolding eq using option_admissible [of "\<lambda>((((x, y), z), u), w) (v, w'). P x y z u \<longrightarrow> R w w'"] by simp
qed

definition clocked_out :: "env \<Rightarrow> bool" where
  \<comment> \<open>the SPI bridge takes every word\<close>
  "clocked_out h \<longleftrightarrow> never_full h SPIWR_FIFO_IN_CSR_BASE"

lemma silent_regs:
  assumes "s < 8" and "clocked_out h"
  shows "keeps silent (IINCHIP_WRITE (Sn_CR s) v h)" "keeps silent (IINCHIP_WRITE (Sn_IR s) v h)"
    "keeps silent (IINCHIP_WRITE (Sn_TX_WR0 s) v h)" "keeps silent (IINCHIP_WRITE (Sn_TX_WR1 s) v h)"
  by (rule silent_write [OF assms(2) [unfolded clocked_out_def] socket_reg_block [OF assms(1)]],
      simp add: socket_regs_def)+

lemma silent_reads:
  assumes "clocked_out h"
  shows "keepsv silent (IINCHIP_READ a h)" "keepsv silent (read_pair a b h)"
proof -
  show r: "keepsv silent (IINCHIP_READ a h)" for a
    using silent_read assms by (simp add: clocked_out_def)
  show "keepsv silent (read_pair a b h)"
    unfolding read_pair_def by (intro si.keeps_intros r)
qed

lemma silent_stable_pair:
  assumes "clocked_out h"
  shows "keepsv silent (stable_pair a b v h :: 'a bus_scheme \<Rightarrow> _)"
proof -
  have "\<forall>a b v h. clocked_out h \<longrightarrow> keepsv silent (stable_pair a b v h :: 'a bus_scheme \<Rightarrow> _)"
    by (rule stable_pair.fixp_induct, rule adm_keepsv4_if, simp add: si.keepsv_None,
        intro allI impI si.keeps_intros silent_reads, blast+)
  then show ?thesis using assms by blast
qed

lemma silent_wait_cr:
  assumes "clocked_out h"
  shows "keeps silent (wait_cr s h :: 'a bus_scheme \<Rightarrow> _)"
proof -
  have "\<forall>s h. clocked_out h \<longrightarrow> keeps silent (wait_cr s h :: 'a bus_scheme \<Rightarrow> _)"
    by (rule wait_cr.fixp_induct, rule adm_keeps2_if, simp add: si.keeps_None,
        intro allI impI si.keeps_intros silent_reads, blast+)
  then show ?thesis using assms by blast
qed

lemma silent_command:
  assumes "s < 8" and "clocked_out h"
  shows "keeps silent (chip_command s c h)" "keeps silent (close_socket s h)"
  unfolding close_socket_def chip_command_def
  by (intro si.keeps_intros silent_regs silent_wait_cr assms)+

lemma silent_wait_room:
  assumes "clocked_out h"
  shows "keepsv silent (wait_room s n h :: 'a bus_scheme \<Rightarrow> _)"
proof -
  have "\<forall>s n h. clocked_out h \<longrightarrow> keepsv silent (wait_room s n h :: 'a bus_scheme \<Rightarrow> _)"
    by (rule wait_room.fixp_induct, rule adm_keepsv3_if, simp add: si.keepsv_None,
        unfold getSn_TX_FSR_def, intro allI impI si.keeps_intros silent_reads silent_stable_pair, blast+)
  then show ?thesis using assms by blast
qed

lemma silent_wait_sent:
  assumes "s < 8" and "clocked_out h"
  shows "keepsv silent (wait_sent s h :: 'a bus_scheme \<Rightarrow> _)"
proof -
  have "\<forall>s h. s < 8 \<and> clocked_out h \<longrightarrow> keepsv silent (wait_sent s h :: 'a bus_scheme \<Rightarrow> _)"
    by (rule wait_sent.fixp_induct, rule adm_keepsv2_if, simp add: si.keepsv_None,
        intro allI impI si.keeps_intros silent_reads silent_command, blast+)
  then show ?thesis using assms by blast
qed

subsection \<open>Sending to a client that keeps up\<close>

definition client_ready :: "env \<Rightarrow> byte \<Rightarrow> half \<Rightarrow> bool" where
  \<comment> \<open>the socket stays connected; the chip finishes every command, makes room for up to \<open>room\<close>
    bytes and completes every transmission\<close>
  "client_ready h s room \<longleftrightarrow> s < 8 \<and> clocked_out h \<and>
     (\<forall>c (w :: world). chip_command s c h w \<noteq> None) \<and>
     (\<forall>n (w :: world). n \<le> room \<longrightarrow> (\<exists>w'. wait_room s n h w = Some (n, w'))) \<and>
     (\<forall>w :: world. \<exists>w'. wait_sent s h w = Some (True, w'))"

lemma silentD: "silent w w' \<Longrightarrow> \<exists>evs. w' = logged w evs \<and> tx.sees evs []"
  by (simp add: silent_def)

lemma send_data_seen:
  assumes "s < 8" and "clocked_out h" and "n \<noteq> 0" and "unat n \<le> length buf"
  shows "\<exists>evs. send_data_processing s buf n h w = Some (logged w evs) \<and>
    tx.sees evs [(unat s, take (unat n) buf)]"
proof -
  have full: "never_full h SPIWR_FIFO_IN_CSR_BASE"
    using assms(2) by (simp add: clocked_out_def)
  obtain ptr w1 where w1: "read_pair (Sn_TX_WR0 s) (Sn_TX_WR1 s) h w = Some (ptr, w1)"
    using read_pair_logged [OF full] by blast
  obtain e1 where e1: "w1 = logged w e1" and s1: "tx.sees e1 []"
    using keepsvD [OF silent_reads(2) [OF assms(2)] w1] silentD by blast
  let ?d = "access_evs (spi_frame (buf_addr ptr s 0x10) (take (unat n) buf))"
  let ?p = "access_evs (spi_frame (Sn_TX_WR0 s) [byte_hi (ptr + n)]) @ access_evs (spi_frame (Sn_TX_WR1 s) [byte_lo (ptr + n)])"
  have reg: "spi_block (Sn_TX_WR0 s) mod 4 \<noteq> 2" "spi_block (Sn_TX_WR1 s) mod 4 \<noteq> 2"
    by (rule socket_reg_block [OF assms(1)], simp add: socket_regs_def)+
  have "(4 * unat s + 2) mod 4 = 2" "(4 * unat s + 2) div 4 = unat s"
    by presburger+
  then have sd: "tx.sees ?d [(unat s, take (unat n) buf)]"
    using tx_access [of "spi_frame (buf_addr ptr s 0x10) (take (unat n) buf)"]
    by (simp only: tx_of_frame socket_buf_blocks(1) [OF assms(1)] if_True simp_thms)
  have sp: "tx.sees ?p []"
    using tx.sees_append [OF tx_access [of "spi_frame (Sn_TX_WR0 s) [byte_hi (ptr + n)]"]
        tx_access [of "spi_frame (Sn_TX_WR1 s) [byte_lo (ptr + n)]"]] by (simp add: tx_of_frame reg)
  have "tx.sees (e1 @ ?d @ ?p) [(unat s, take (unat n) buf)]"
    using tx.sees_append [OF s1 tx.sees_append [OF sd sp]] by simp
  moreover have "send_data_processing s buf n h w = Some (logged w (e1 @ ?d @ ?p))"
    using assms(3) w1 e1 by (simp add: send_data_processing_def Let_def wiz_write_buf_logged [OF full assms(4)]
        IINCHIP_WRITE_logged [OF full])
  ultimately show ?thesis by blast
qed

lemma send_delivers:
  fixes w :: world
  assumes "client_ready h s room" and "getIINCHIP_TxMAX s w = Some mx" and "len \<le> mx" and "len \<le> room"
    and "len \<noteq> 0" and "unat len \<le> length buf"
  shows "\<exists>evs. send s buf len h w = Some (len, logged w evs) \<and> tx.sees evs [(unat s, take (unat len) buf)]"
proof -
  have s: "s < 8" "clocked_out h" using assms(1) by (auto simp: client_ready_def)
  obtain w1 where w1: "wait_room s len h w = Some (len, w1)"
    using assms(1,4) unfolding client_ready_def by blast
  obtain e1 where e1: "w1 = logged w e1" "tx.sees e1 []"
    using keepsvD [OF silent_wait_room [OF s(2)] w1] silentD by blast
  obtain e2 where e2: "send_data_processing s buf len h w1 = Some (logged w1 e2)" "tx.sees e2 [(unat s, take (unat len) buf)]"
    using send_data_seen [OF s assms(5,6)] by blast
  obtain w3 where w3: "chip_command s Sn_CR_SEND h (logged w1 e2) = Some w3"
    using assms(1) unfolding client_ready_def by (metis not_None_eq)
  obtain e3 where e3: "w3 = logged (logged w1 e2) e3" "tx.sees e3 []"
    using keepsD [OF silent_command(1) [OF s] w3] silentD by blast
  obtain w4 where w4: "wait_sent s h w3 = Some (True, w4)"
    using assms(1) unfolding client_ready_def by blast
  obtain e4 where e4: "w4 = logged w3 e4" "tx.sees e4 []"
    using keepsvD [OF silent_wait_sent [OF s] w4] silentD by blast
  have full: "never_full h SPIWR_FIFO_IN_CSR_BASE"
    using s(2) by (simp add: clocked_out_def)
  let ?e5 = "access_evs (spi_frame (Sn_IR s) [Sn_IR_SEND_OK])"
  have "spi_block (Sn_IR s) mod 4 \<noteq> 2"
    by (rule socket_reg_block [OF s(1)]) (simp add: socket_regs_def)
  then have e5: "tx.sees ?e5 []"
    using tx_access [of "spi_frame (Sn_IR s) [Sn_IR_SEND_OK]"] by (simp add: tx_of_frame)
  have "\<not> len > mx" using assms(3) by auto
  then have "send s buf len h w = Some (len, logged w (e1 @ e2 @ e3 @ e4 @ ?e5 @ ?e5))"
    using w1 e1(1) e2(1) w3 e3(1) w4 e4(1) assms(2)
    by (simp add: send_def clip_len_def IINCHIP_WRITE_logged [OF full])
  moreover have "tx.sees (e1 @ e2 @ e3 @ e4 @ ?e5 @ ?e5) [(unat s, take (unat len) buf)]"
    using tx.sees_append [OF e1(2) tx.sees_append [OF e2(2) tx.sees_append [OF e3(2) tx.sees_append [OF e4(2)
      tx.sees_append [OF e5 e5]]]]] by simp
  ultimately show ?thesis by blast
qed

subsection \<open>A client that keeps up\<close>

lemma answersE: "chip.answers f v xs \<Longrightarrow> \<exists>w'. f w = Some (v, w')"
  unfolding chip.answers_def by blast

lemma chip_env_ready:
  assumes "s < 8" and "regs (read_words (Sn_CR s)) = 0" and "regs (read_words (Sn_SR s)) = 0x17"
    and "regs (read_words (Sn_IR s)) = 0x10" and "regs (read_words (Sn_TX_FSR0 s)) = 8" and "regs (read_words (Sn_TX_FSR1 s)) = 0"
  shows "client_ready (chip_env regs) s 0x800"
proof -
  let ?h = "chip_env regs"
  have full: "never_full ?h SPIWR_FIFO_IN_CSR_BASE" by (rule chip_env_never_full)
  have cr: "chip.answers (IINCHIP_READ (Sn_CR s) ?h :: world \<Rightarrow> _) 0 []"
    and sr: "chip.answers (IINCHIP_READ (Sn_SR s) ?h :: world \<Rightarrow> _) 0x17 []"
    and ir: "chip.answers (IINCHIP_READ (Sn_IR s) ?h :: world \<Rightarrow> _) 0x10 []"
    using assms by (simp_all add: chip_env_reads)
  have free: "(0x800 :: half) = reg_pair 8 0"
    by (simp add: reg_pair_def)
  have fsr: "chip.answers (getSn_TX_FSR s ?h :: world \<Rightarrow> _) 0x800 []"
    unfolding getSn_TX_FSR_def [abs_def] free
    by (rule answers_stable_pair, rule answers_read_pair; rule chip_env_reads, simp add: assms)
  have con: "connected 0x17" "(0x10 :: byte) AND Sn_IR_SEND_OK = Sn_IR_SEND_OK"
    by (simp_all add: connected_def w5500_vals)
  have "chip_command s c ?h w \<noteq> None" for c and w :: world
    using chip.doesD [OF does_command [OF full cr, of c], of w] by auto
  moreover have "\<exists>w'. wait_room s n ?h w = Some (n, w')" if "n \<le> 0x800" for n and w :: world
    by (rule answersE [OF answers_wait_room_open [OF fsr sr con(1) that]])
  moreover have "\<exists>w'. wait_sent s ?h w = Some (True, w')" for w :: world
    by (rule answersE [OF answers_wait_sent_ok [OF ir con(2)]])
  ultimately show ?thesis
    using full assms(1) unfolding client_ready_def clocked_out_def by blast
qed

lemma demo_client_ready: "client_ready (chip_env demo_regs) 4 0x800"
  by (rule chip_env_ready) (simp_all add: demo_regs_def reg_words)

end
