(* ===== verification/Tim561.thy ===== *)
theory Tim561
  imports Prelude
begin

text \<open>
  \<open>tim561.c\<close>: the tables of the emulated scanner protocol. \<open>tim561_index\<close> holds the 572 requests
  the device knows, \<open>tim561_respons\<close> the reply to each at the same position: an ASCII reply, or
  the bytes of a framed reply written as hexadecimal digits. The tables are cut into pieces of
  consecutive lines.
\<close>

definition tim561_index_0 :: "string list" where
  "tim561_index_0 = [
    ''sRI 0'', ''sRI 1'', ''sRI 3'', ''sRI 4'', ''sRI 6'', ''sRI 2'', ''sRI 7'', ''sMI 5 1 0'', ''sEI 2 1'',
    ''sRI 148'', ''sRI 1B7'', ''sRI 30'', ''sRI 188'', ''sRI 29'', ''sRI 16D'', ''sRI 3A'', ''sRI 3F'',
    ''sRI 173'', ''sRI 82'', ''sRI D9'', ''sRI 160'', ''sRI C8'', ''sRI 104'', ''sRI 217'', ''sRI 1C3'',
    ''sRI 1BF'', ''sRI 1AD'', ''sRI 44'', ''sRI 5D'', ''sRI 154'', ''sRI 133'', ''sRI 14E'', ''sRI 2D'',
    ''sRI 3D'', ''sRI 15D'', ''sRI 166'', ''sRI CF'', ''sRI 46'', ''sRI 143'', ''sRI 1B4'', ''sRI E8'',
    ''sRI 1A6'', ''sRI 1D2'', ''sRI 7F'', ''sRI FD'', ''sRI 125'', ''sRI 1E'', ''sRI 5B'', ''sRI 1B0'',
    ''sRI 60'', ''sRI 2B'', ''sRI 24'', ''sRI C5'', ''sRI 1C2'', ''sRI CA'', ''sRI 1C9'', ''sRI 1A5'',
    ''sRI 1A7'', ''sRI 1C1'', ''sRI 20C'', ''sRI 8E'', ''sRI F1'', ''sRI 1A1'', ''sRI 74'', ''sRI 1A'',
    ''sRI 184'', ''sRI 207'', ''sRI 208'', ''sRI 27'', ''sRI 72'', ''sRI 1EB'', ''sRI 19A'', ''sRI 126'',
    ''sRI 165'', ''sRI 141'', ''sRI 21A'', ''sRI 11C'', ''sRI 162'', ''sRI 1F3'', ''sRI 10B'', ''sRI 170'',
    ''sRI EF'', ''sRI 123'', ''sRI 2C'', ''sRI F3'', ''sRI 1CB'', ''sRI CC'', ''sRI 131'', ''sRI 40'',
    ''sRI 1E8'', ''sRI 6B'', ''sRI 182'', ''sRI 195'', ''sRI 21'', ''sRI F6'', ''sRI 8'', ''sRI 6C'',
    ''sRI 1D8'', ''sRI C7'', ''sRI 19B'', ''sRI 87'', ''sRI 84'', ''sRI 8D'', ''sRI 10'', ''sRI FE'',
    ''sRI 5F'', ''sRI 7A'', ''sRI DA'', ''sRI 7B'', ''sRI D8'', ''sRI 37'', ''sRI 93'', ''sRI 1BD'',
    ''sRI 205'', ''sRI 1C5'', ''sRI 1FE'', ''sRI 1C'', ''sRI 75'', ''sRI 1EE'', ''sRI DE'', ''sRI 153'',
    ''sRI 15E'', ''sRI 14C'', ''sRI 19D'', ''sRI 1CE'', ''sRI 112'', ''sRI 54'', ''sRI 69'', ''sRI 220'',
    ''sRI 52'', ''sRI 115'', ''sRI 11A'', ''sRI 2A'', ''sRI 1D7'', ''sRI 45'', ''sRI 140'', ''sRI 211'',
    ''sRI 138'', ''sRI 210'', ''sRI 20F'', ''sRI 132'', ''sRI 19F'', ''sRI 20E'', ''sRI 56'', ''sRI 10E'',
    ''sRI 16'', ''sRI 59'', ''sRI E4'']"

definition tim561_index_1 :: "string list" where
  "tim561_index_1 = [
    ''sRI 168'', ''sRI 113'', ''sRI 204'', ''sRI 117'', ''sRI 1EF'', ''sRI 149'', ''sRI E0'', ''sRI 179'',
    ''sRI 6E'', ''sRI 1E5'', ''sRI 18C'', ''sRI 1D6'', ''sRI 1FF'', ''sRI 100'', ''sRI 42'', ''sRI 189'',
    ''sRI 128'', ''sRI F5'', ''sRI F8'', ''sRI B'', ''sRI 55'', ''sRI 68'', ''sRI 1AF'', ''sRI 5A'',
    ''sRI 1FB'', ''sRI 47'', ''sRI 201'', ''sRI 1C6'', ''sRI 157'', ''sRI 163'', ''sRI 1FA'', ''sRI 190'',
    ''sRI 1E4'', ''sRI 5'', ''sRI 1F9'', ''sRI C6'', ''sRI 35'', ''sRI 1E6'', ''sRI 167'', ''sRI 13B'',
    ''sRI 194'', ''sRI 1EC'', ''sRI 58'', ''sRI 11'', ''sRI 63'', ''sRI 19C'', ''sRI 202'', ''sRI 9'',
    ''sRI 1F7'', ''sRI 61'', ''sRI 4A'', ''sRI 48'', ''sRI 156'', ''sRI 108'', ''sRI 21C'', ''sRI 1B2'',
    ''sRI 12B'', ''sRI 127'', ''sRI EC'', ''sRI D4'', ''sRI 11E'', ''sRI 147'', ''sRI D'', ''sRI 14A'',
    ''sRI 151'', ''sRI 43'', ''sRI 139'', ''sRI 77'', ''sRI 1BA'', ''sRI FC'', ''sRI 15F'', ''sRI 17C'',
    ''sRI 8A'', ''sRI F9'', ''sRI 185'', ''sRI D5'', ''sRI 1C4'', ''sRI 78'', ''sRI 171'', ''sRI 101'',
    ''sRI 11B'', ''sRI 1B5'', ''sRI FF'', ''sRI 21F'', ''sRI 142'', ''sRI 1DE'', ''sRI 219'', ''sRI 155'',
    ''sRI 11F'', ''sRI 114'', ''sRI 36'', ''sRI 10C'', ''sRI 1E0'']"

definition tim561_index_2 :: "string list" where
  "tim561_index_2 = [
    ''sRI 1A3'', ''sRI 4F'', ''sRI 13C'', ''sRI D6'', ''sRI 1D9'', ''sRI 15C'', ''sRI 183'', ''sRI 20A'',
    ''sRI 33'', ''sRI 1ED'', ''sRI 1C0'', ''sRI 1DF'', ''sRI 86'', ''sRI 169'', ''sRI 14D'', ''sRI 17B'',
    ''sRI 21E'', ''sRI 1C8'', ''sRI 102'', ''sRI E5'', ''sRI 21D'', ''sRI 50'', ''sRI 1BC'', ''sRI 150'',
    ''sRI 13D'', ''sRI 53'', ''sRI 18E'', ''sRI 5C'', ''sRI 13F'', ''sRI 1AB'', ''sRI 10D'', ''sRI EA'',
    ''sRI 18A'', ''sRI 22'', ''sRI D7'', ''sRI 1DB'', ''sRI 4C'', ''sRI 18B'', ''sRI 21B'', ''sRI 28'',
    ''sRI 62'', ''sRI 13E'', ''sRI 15'', ''sRI 1F1'', ''sRI 175'', ''sRI 1E7'', ''sRI 83'', ''sRI FB'',
    ''sRI 181'', ''sRI 129'', ''sRI 209'', ''sRI 88'', ''sRI 14F'', ''sRI 39'', ''sRI E2'', ''sRI 1B8'',
    ''sRI 4E'', ''sRI 119'', ''sRI 16E'', ''sRI 1AE'', ''sRI 1E3'', ''sRI EB'', ''sRI 172'', ''sRI DC'',
    ''sRI 5E'', ''sRI 85'', ''sRI 9E'', ''sRI 9D'', ''sRI 216'', ''sRI 91'', ''sRI 9C'', ''sRI 9B'',
    ''sRI 9A'', ''sRI 99'', ''sRI 98'', ''sRI 180'', ''sRI 97'', ''sRI 96'', ''sRI 95'', ''sRI F2'',
    ''sRI E9'', ''sRI 158'', ''sRI 12D'', ''sRI 152'', ''sRI 65'', ''sRI 176'', ''sRI 64'', ''sRI 1D'',
    ''sRI 8C'', ''sRI 31'', ''sRI 26'', ''sRI 13A'', ''sRI 134'', ''sRI 196'', ''sRI 177'', ''sRI 1B'',
    ''sRI 17E'', ''sRI 38'', ''sRI 192'', ''sRI 1B9'', ''sRI 12F'', ''sRI 1A9'', ''sRI 135'', ''sRI CE'',
    ''sRI 174'', ''sRI 80'', ''sRI 19E'', ''sRI 1F5'', ''sRI 7D'', ''sRI 10F'', ''sRI A'', ''sRI 66'',
    ''sRI 81'', ''sRI E7'', ''sRI 120'', ''sRI C'', ''sRI 14B'', ''sRI 19'', ''sRI 12E'', ''sRI 191'',
    ''sRI C9'', ''sRI 51'', ''sRI 32'', ''sRI 89'', ''sRI 1AC'', ''sRI 186'', ''sRI 1D5'', ''sRI 1EA'',
    ''sRI 144'', ''sRI 193'', ''sRI 76'', ''sRI 1FC'', ''sRI 1AA'', ''sRI 11D'', ''sRI 1A2'', ''sRI 218'',
    ''sRI 12A'', ''sRI F'', ''sRI DF'', ''sRI 7E'', ''sRI 12'', ''sRI FA'', ''sRI 136'', ''sRI 2F'',
    ''sRI 1F8'', ''sRI 107'', ''sRI 6A'', ''sRI 1CA'', ''sRI 197'', ''sRI 121'']"

definition tim561_index_3 :: "string list" where
  "tim561_index_3 = [
    ''sRI 122'', ''sRI 17F'', ''sRI E3'', ''sRI 1B6'', ''sRI 1BB'', ''sRI 106'', ''sRI 70'', ''sRI 2E'',
    ''sRI 116'', ''sRI 6F'', ''sRI CB'', ''sRI 10A'', ''sRI E1'', ''sRI D1'', ''sRI 18'', ''sRI D3'',
    ''sRI 18D'', ''sRI 1CF'', ''sRI 25'', ''sRI DB'', ''sRI 41'', ''sRI 1D1'', ''sRI 1F0'', ''sRI 57'',
    ''sRI 203'', ''sRI 161'', ''sRI 14'', ''sRI 164'', ''sRI D0'', ''sRI 73'', ''sRI EE'', ''sRI 1E9'',
    ''sRI 3E'', ''sRI 18F'', ''sRI 145'', ''sRI 130'', ''sRI 1B3'', ''sRI 146'', ''sRI 103'', ''sRI 16F'',
    ''sRI 1A4'', ''sRI 1D4'', ''sRI 94'', ''sRI 1C7'', ''sRI F4'', ''sRI E'', ''sRI 8B'', ''sRI 17D'',
    ''sRI 109'', ''sRI 17A'', ''sRI 4B'', ''sRI A8'', ''sRI 49'', ''sRI A7'', ''sRI 1A0'', ''sRI A6'',
    ''sRI 20D'', ''sRI A5'', ''sRI CD'', ''sRI A4'', ''sRI A3'', ''sRI A2'', ''sRI A1'', ''sRI A0'',
    ''sRI 9F'', ''sRI 1FD'', ''sRI 16C'', ''sRI 1F'', ''sRI 20'', ''sRI 67'', ''sRI 12C'', ''sRI B2'',
    ''sRI 178'', ''sRI 20B'', ''sRI B1'', ''sRI ED'', ''sRI B0'', ''sRI AF'', ''sRI 199'', ''sRI AE'',
    ''sRI 1DA'', ''sRI AD'', ''sRI AC'', ''sRI 110'', ''sRI AB'', ''sRI 1D3'', ''sRI AA'', ''sRI A9'',
    ''sRI 6D'', ''sRI 1BE'', ''sRI 137'', ''sRI 16B'', ''sRI 206'', ''sRI 3B'', ''sRI 71'', ''sRI 1CD'',
    ''sRI 1F6'', ''sRI 3C'', ''sRI 4D'', ''sRI BC'', ''sRI BB'', ''sRI BA'', ''sRI B9'', ''sRI B8'',
    ''sRI B7'', ''sRI B6'', ''sRI B5'', ''sRI B4'', ''sRI B3'', ''sRI 111'', ''sRI 79'', ''sRI D2'',
    ''sRI F7'', ''sRI 90'', ''sRI 16A'', ''sRI 118'', ''sRI 200'', ''sRI 1E1'', ''sRI 1A8'', ''sRI 7C'',
    ''sRI C4'', ''sRI C3'', ''sRI C2'', ''sRI 1F2'', ''sRI 215'', ''sRI C1'', ''sRI C0'', ''sRI 213'',
    ''sRI BF'', ''sRI DD'']"

definition tim561_index_4 :: "string list" where
  "tim561_index_4 = [
    ''sRI 1CC'', ''sRI 214'', ''sRI BE'', ''sRI BD'', ''sRI 198'', ''sRI 8F'', ''sRI 1E2'', ''sRI 1B1'',
    ''sRI 1D0'', ''sRI 105'', ''sRI 34'', ''sRI 212'', ''sRI 1F4'', ''sMI D 0 0'', ''sMI B 0'',
    ''sMI A 8 Manifest 1 r'', ''sRI 13'', ''sRI 23'', ''sRI 92'', ''sRI 17'', ''sRI 187'', ''sRI 1DD'',
    ''sRI 18'']"

definition tim561_index_5 :: "string list" where
  "tim561_index_5 = [
    ''sRI E6'', ''sRI 1DC'']"

definition tim561_index_6 :: "string list" where
  "tim561_index_6 = [
    ''sRI 15B'', ''sRI 124'', ''sMI 5 3 F4724744'', ''sEI 55 1'', ''sEI 57 1'', ''sEI 62 1'', ''sEI 1 1'',
    ''sRI A'', ''sEI 85 1'', ''sRI 18A'', ''sEI 55 0'', ''sEI 57 0'', ''sEI 62 0'', ''sEI 1 0'',
    ''sEI 85 0'', ''sEI 1C 1'', ''sEI 17 1'', ''sEI 1C 0'', ''sEI 17 0'', ''sRI 18A'', ''sEI 5A 1'',
    ''sEI 5A 0'', ''sMI 3F'', ''sMI 3E'', ''sMI 0 3 F4724744'', ''sMI 2'']"

definition tim561_index :: "string list" where
  "tim561_index = tim561_index_0 @ tim561_index_1 @ tim561_index_2 @ tim561_index_3 @ tim561_index_4 @ tim561_index_5 @ tim561_index_6"

definition tim561_respons_0 :: "string list" where
  "tim561_respons_0 = [
    ''sRA 0 6 TiM561 E V2.54-22.06.16'', ''sRA 1 3 2 F'', ''sRA 3 8 17020852'', ''sRA 4 5 V2.54'',
    ''sRA 6 48 5C 8 0'', ''sRA 2 B not defined'', ''sRA 7 0'', ''sAI 5 1'', ''sEA 2 1'', ''sRA 148 1'',
    ''sRA 1B7 1B 47105A00 44AB1555 41C94989 4C41005E'', ''sRA 30 1'', ''sRA 188 32'', ''sRA 29 1'',
    ''sRA 16D 1071419'', ''sRA 3A A'', ''sRA 3F A'', ''sRA 173 1'', ''sRA 82 C0 A8 0 1'',
    ''sRA D9 1 D05 FFF92230 225510'', ''sRA 160 C8'', ''sRA C8 0'', ''sRA 104 0'', ''sRA 217 0'',
    ''sRA 1C3 43FA0000 45ABE000 32 34 0 0 0 0 0 0 0 0 0 1B 0 0 0 0 0 0 0 0 0 0 0 0 0 0 0 0 0 0 0 0 0 0 0 0 0 0 0 0 0 0 0 0 0 0 0 0 0 0 0 0 0 0'',
    ''sRA 1BF 937 47E1DF80 4244184F 409A7814 4AAEB1D2'', ''sRA 1AD 2333 2C 35 3A58 F 39'', ''sRA 44 0'',
    ''sRA 5D 1E'', ''sRA 154 A'', ''sRA 133 1'', ''sRA 14E A'', ''sRA 2D 0'', ''sRA 3D 1'', ''sRA 15D 0'',
    ''sRA 166 0 1F4'', ''sRA CF 0'', ''sRA 46 0'', ''sRA 143 1'', ''sRA 1B4 51F 45 1D 568 0 24'',
    ''sRA E8 0 0 0 0 0'', ''sRA 1A6 384'', ''sRA 1D2 12'', ''sRA 7F 0'', ''sRA FD 0'', ''sRA 125 309'',
    ''sRA 1E 5 HH:MM'', ''sRA 5B 0'', ''sRA 1B0 12 185 17 39 F 39'', ''sRA 60 C0 A8 0 1'', ''sRA 2B 64'',
    ''sRA 24 2'', ''sRA C5 0'', ''sRA 1C2 926 4B5074CA 45B649B5 44E3F85C 51A2EFE7'', ''sRA CA 0'',
    ''sRA 1C9 00000000 463B8000 EA60 34 0 0 0 0 0 0 0 0 0 0 0 0 0 0 0 0 0 0 0 0 0 1 19 6D 334 46B 112 0 0 0 0 0 0 0 0 0 0 0 0 0 0 0 0 0 0 0 0 0 0 0 0 0'',
    ''sRA 1A5 E10'', ''sRA 1A7 3840'', ''sRA 1C1 934 4B6EDCE0 45CFA2E1 430B944B 51C1D274'', ''sRA 20C 0'',
    ''sRA 8E 9 anonymous'', ''sRA F1 4'', ''sRA 1A1 1E'', ''sRA 74 0'', ''sRA 1A A DD.MM.YYYY'',
    ''sRA 184 0'', ''sRA 207 0'', ''sRA 208 0'', ''sRA 27 0'', ''sRA 72 1'', ''sRA 1EB 64'',
    ''sRA 19A 0 0 0'', ''sRA 126 B7A'', ''sRA 165 00000000'', ''sRA 141 0'', ''sRA 21A 7D0'',
    ''sRA 11C 1D2CD 1B6C3 106B FFFFB077'', ''sRA 162 0'', ''sRA 1F3 0'', ''sRA 10B FFA5'', ''sRA 170 0'',
    ''sRA EF 7'', ''sRA 123 1F4'', ''sRA 2C 64'', ''sRA F3 4'',
    ''sRA 1CB 43FA0000 44BB8000 EA60 34 0 0 0 0 0 0 0 0 0 0 0 0 0 0 0 0 0 0 0 0 0 0 0 0 0 0 0 0 0 0 0 0 0 0 0 0 0 0 85F D8 0 0 0 0 0 0 0 0 0 0 0 0'',
    ''sRA CC 0 0 0 0 0 0 0 0 0 0 0 0 0 0 0 0 0 0 0 0 0 0 0 0 0 0 0 0 0 0 0 0 0 0 0 0 0 0 0 0 0 0 0 0 0 0 0 0'',
    ''sRA 131 1'', ''sRA 40 A'', ''sRA 1E8 69'', ''sRA 6B 0'', ''sRA 182 0'', ''sRA 195 1770'', ''sRA 21 0'',
    ''sRA F6 0 0 1 1 1 1 1 0 0'', ''sRA 8 0'', ''sRA 6C 840'', ''sRA 1D8 1 FF9C F448 0 3E8 3E8 0'',
    ''sRA C7 1 0 0 0 7A120 7A120 0 0 0 0 0 0 7D0 0 C8 0 0 0 0 0'', ''sRA 19B 0 0 0'', ''sRA 87 0'',
    ''sRA 84 FF FF FF 0'', ''sRA 8D 0'', ''sRA 10 8 Standard'', ''sRA FE 0'', ''sRA 5F 0'', ''sRA 7A 0'',
    ''sRA DA 2710'', ''sRA 7B 0'', ''sRA D8 1 D05 FFF9 2230 225510'', ''sRA 37 0'', ''sRA 93 0'',
    ''sRA 1BD 937 498A88D8 43F08AA3 4087988D 4E022DE6'', ''sRA 205 0'',
    ''sRA 1C5 C1A00000 42C80000 EA60 1A 0 0 0 0 0 0 0 0 0 0 0 3 D 2CE C0 519 80 0 0 0 0 0 0 0 0 0'',
    ''sRA 1FE 5DB'', ''sRA 1C B not defined'', ''sRA 75 0'', ''sRA 1EE A'', ''sRA DE 0 0'', ''sRA 153 A'',
    ''sRA 15E 0'', ''sRA 14C 0'', ''sRA 19D 0 0 0 0'',
    ''sRA 1CE 00000000 461C4000 EA60 CA 0 0 0 0 0 0 0 0 0 0 0 0 0 0 0 0 0 0 0 0 0 0 0 0 0 0 0 0 0 0 0 0 0 0 0 0 0 0 0 0 0 0 0 0 0 0 0 0 0 0 0 0 0 0 0 0 0 0 0 0 0 0 0 0 0 0 0 0 0 0 0 0 0 0 0 0 0 0 0 0 0 0 0 0 1 0 0 0 1 0 0 0 0 3 3 1 1 3 3 2 3 2 6 4 7 C 10 15 2E 4E 69 83 C2 F6 F9 E7 E0 DC AE 71 5E 37 20 16 D 6 2 2 0 0 1 0 0 0 0 0 0 0 0 0 0 0 0 0 0 0 0 0 0 0 0 0 0 0 0 0 0 0 0 0 0 0 0 0 0 0 0 0 0 0 0 0 0 0 0 0 0 0 0 0 0 0 0 0 0 0 0 0 0 0 0 0 0 0 0 0 0 0 0 0 0 F'',
    ''sRA 112 1AE8'', ''sRA 54 1E'', ''sRA 69 0'', ''sRA 220 0'', ''sRA 52 0'', ''sRA 115 2710'',
    ''sRA 11A 28'', ''sRA 2A 1'', ''sRA 1D7 5'', ''sRA 45 3 2,3'', ''sRA 140 0 0'', ''sRA 211 0 0 0'',
    ''sRA 138 0 0'', ''sRA 210 0 0 0'', ''sRA 20F 0 0 0'', ''sRA 132 1'', ''sRA 19F 0'', ''sRA 20E 0 0 0'',
    ''sRA 56 0'', ''sRA 10E 28'',
    ''027352412031362030203020302030203020302030203020302030203020302030203020302030203020302030203020302030203020302030203020302030203020302030203020302030203020302030203020302030203020302030203020302030203020302030203020302030203020302030203020302030203020302030203020302030203020302030203020302030203020302030203020302030203020302030203020302030203020302030203020302030203020302030203020302030203020302030203020302030203020302030203020302030203020302030203003'',
    ''sRA 59 0'', ''sRA E4 0 1 1 0 0 0 0'']"

definition tim561_respons_1 :: "string list" where
  "tim561_respons_1 = [
    ''sRA 168 3C'', ''sRA 113 32'', ''sRA 204 0'', ''sRA 117 7D0'', ''sRA 1EF 3E8'', ''sRA 149 0'',
    ''sRA E0 7F'', ''sRA 179 17020285'', ''sRA 6E 0'', ''sRA 1E5 FFEC'', ''sRA 18C 0'', ''sRA 1D6 8 73'',
    ''sRA 1FF 1E7'', ''sRA 100 0'', ''sRA 42 1'', ''sRA 189 0'',
    ''027352412031323820392036343420302036343420393620463235203139302031304543203235382031304543203332302038304220393630203536312046413020324237203237313020324237203943343003'',
    ''sRA F5 0'', ''sRA F8 00000000'', ''sRA B 0 0 0'', ''sRA 55 1'', ''sRA 68 9 anonymous'',
    ''sRA 1AF 64 D 38 23B 12 2A'', ''sRA 5A 0'', ''sRA 1FB 30'', ''sRA 47 3 2,3'', ''sRA 201 0 0'',
    ''02735241203143362043314130303030302034324338303030302045413630203141203020302030203020302030203020302030203020302030203020313530203342452033464620324220302030203020302030203020302030203003'',
    ''sRA 157 14F'', ''sRA 163 0'', ''sRA 1FA 33'', ''sRA 190 0'', ''sRA 1E4 55F0'', ''sRA 5 6'',
    ''sRA 1F9 38AA'',
    ''02735241204336203320312031203020302037413132302037413132302031203020302030203020302037443020302043382030203120302030203020312032203020302037413132302037413132302032203020302030203020302037443020302043382030203220302030203020312033203020302037413132302037413132302033203020302030203020302037443020302043382030203320302030203003'',
    ''sRA 35 64'', ''sRA 1E6 FFF1'', ''sRA 167 0 3'', ''sRA 13B 1'', ''sRA 194 FF'', ''sRA 1EC 5F'',
    ''sRA 58 8'', ''sRA 11 0'', ''sRA 63 0'', ''sRA 19C 0 64 A'', ''sRA 202 0'',
    ''sRA 9 DF 8D 1E 82 4 8 B2 EB BD 15 CD 59 F9 9E 73 F9'', ''sRA 1F7 3EC7'', ''sRA 61 0 0 0 0'',
    ''sRA 4A 0'', ''sRA 48 0'', ''sRA 156 0'', ''sRA 108 0'', ''sRA 21C 1'', ''sRA 1B2 1D 185 17 38 0 2D'',
    ''sRA 12B 546'', ''sRA 127 1 19F1 15CC 36'', ''sRA EC 0 0 0 0 00000000'',
    ''sRA D4 0 0 1 1 0 0 0 0 0 0 0 1'', ''sRA 11E 1388'', ''sRA 147 14F'', ''sRA D 0'', ''sRA 14A 0'',
    ''sRA 151 1'', ''sRA 43 0'', ''sRA 139 0'', ''sRA 77 0'',
    ''02735241203142412039333720344133343542323420343439433934323520343033453746433720344635434130323303'',
    ''0273524120464320343242343030303020303030303030303020303030303030303020302030203003'', ''sRA 15F 14F'',
    ''sRA 17C 1'', ''sRA 8A 0'', ''sRA F9 0'', ''02735241203138352000000000000000000000000003'',
    ''sRA D5 0 DBBA0 1 64 A'',
    ''02735241203143342043314130303030302034324338303030302045413630203141203020302030203020302030203020302030203220332031312031303420323341203146312033413620344420302030203020302030203020302030203003'',
    ''sRA 78 7D1'', ''sRA 171 1'', ''sRA 101 0'', ''sRA 11B FE4C'', ''sRA 1B5 19A9 12 2A 25A1 3 36'',
    ''sRA FF 14'', ''sRA 21F 0'', ''sRA 142 0 0'', ''sRA 1DE D05 FFF24460 2932E0'', ''sRA 219 3E8'',
    ''sRA 155 0'', ''sRA 11F 41100000'', ''sRA 114 16AB'', ''sRA 36 64'', ''sRA 10C 19D6'', ''sRA 1E0 0'']"

definition tim561_respons_2 :: "string list" where
  "tim561_respons_2 = [
    ''sRA 1A3 EC'', ''sRA 4F 8'', ''sRA 13C 64'', ''sRA D6 0 1 64 A'', ''sRA 1D9 0'',
    ''sRA 15C 0 0 0 0 0 0 0 0 0 0 0 0 0 0 0 0 0 0 0 0 0 0 0 0 0 0 0 0 0 0 0 0 0 0 0 0 0 0 0 0 0 0 0 0 0 0 0 0'',
    ''sRA 183 0'', ''sRA 20A 0'', ''sRA 33 1'', ''sRA 1ED 1F4'',
    ''sRA 1C0 938 47E18900 4243B7F9 404AE927 4AAD26B0'', ''sRA 1DF 1'', ''sRA 86 1'', ''sRA 169 3F44690A'',
    ''sRA 14D A'', ''sRA 17B 0'', ''sRA 21E 6'',
    ''sRA 1C8 00000000 447A0000 EA60 16 0 0 0 0 0 0 0 0 0 0 933 4 0 0 0 0 0 0 0 0 0 0'',
    ''sRA 102 B plugins:///'', ''sRA E5 0'', ''sRA 21D 0'', ''sRA 50 0'',
    ''sRA 1BC 937 4A57E89C 44BB71B7 408C5179 4F9E172A'', ''sRA 150 0'', ''sRA 13D 64'', ''sRA 53 0'',
    ''sRA 18E FFFFFF9C'', ''sRA 5C 0'', ''sRA 13F 2'', ''sRA 1AB 3DF6 185 17 3F7C 3 34'', ''sRA 10D 0'',
    ''sRA EA 0 0 0 0 00000000'', ''sRA 18A 0'', ''02735241203232200000000000000003'',
    ''sRA D7 5DC 1 D05 FFF92230 225510'', ''sRA 1DB 3'', ''sRA 4C 50'', ''sRA 18B 1'', ''sRA 21B 2'',
    ''sRA 28 0 0'', ''sRA 62 FF FF FF 0'', ''sRA 13E 0'',
    ''02735241203135203430303032303820383030303030303220412033394220314620432033383620412033203020302034303030323241203830303030303032204220333839204420432033383620412032203020302034303030323234203830303030303032204120333846203133203242203145334520412038203020302034303030323043203830303030303032204220333839204420324220314541392037352035452030203020343030303230392038303030303030322031322034463120442032422031454139203735204620302030203430303032304120383030303030303220313120344632204520324220314541392037352045203020302034303030323233203830303030303032203142203446452031412032432031453345204120432030203020343030303130332038303030303030322032452033324233203744392032462033443245204120322030203020343030303330312038303030303030322034203338432031302033432034454520412041203020302030203020302030203020302030203020302030203003'',
    ''sRA 1F1 1E'', ''sRA 175 2'', ''sRA 1E7 6E'', ''sRA 83 0 0 0 0'', ''sRA FB C0 A8 0 1'', ''sRA 181 0'',
    ''sRA 129 6 0 3 7C3 3 3E10 E6 8000 E6 9501 FE 10000 FE'', ''sRA 209 0'', ''sRA 88 1'', ''sRA 14F 0'',
    ''sRA 39 0'', ''sRA E2 1 4 1 0 64 A'', ''sRA 1B8 938 4B507FFA 45B4EF7E 4330AAE9 51938025'', ''sRA 4E 1'',
    ''sRA 119 42642393'', ''sRA 16E 1'', ''sRA 1AE 5A2 12 2A 600 7 31'', ''sRA 1E3 1D4C'',
    ''sRA EB 0 0 0 0 00000000'', ''sRA 172 0'', ''sRA DC 1'', ''sRA 5E 1'', ''sRA 85 0'',
    ''sRA 9E 3F800000 00000000 D05 FFF92230 2 A 1 4 87 FFFF 5DC 13C FFFF BCF 1EE FFFF BCF 2A3 FFFF 5DC 0 0 0 1 8 Field010 0'',
    ''sRA 9D 3F800000 00000000 D05 FFF92230 2 9 1 4 87 FFFF 3E8 130 FFFF 70A 1FA FFFF 70A 2A3 FFFF 3E8 0 0 0 1 8 Field009 0'',
    ''sRA 216 13B322D 0 9 Heartbeat'', ''sRA 91 C ram:/FTProot'',
    ''sRA 9C 3F800000 00000000 D05 FFF92230 2 8 1 4 87 FFFF 4E2 130 FFFF 8CD 1FA FFFF 8CD 2A3 FFFF 4E2 0 0 0 1 8 Field008 0'',
    ''sRA 9B 3F800000 00000000 D05 FFF92230 2 7 1 4 87 FFFF 5DC 130 FFFF A90 1FA FFFF A90 2A3 FFFF 5DC 0 0 0 1 8 Field007 0'',
    ''sRA 9A 3F800000 00000000 D05 FFF92230 2 6 1 4 87 FFFF 3E8 121 FFFF 640 209 FFFF 640 2A3 FFFF 3E8 0 0 0 1 8 Field006 0'',
    ''sRA 99 3F800000 00000000 D05 FFF92230 2 5 1 4 87 FFFF 4E2 121 FFFF 7D0 209 FFFF 7D0 2A3 FFFF 4E2 0 0 0 1 8 Field005 0'',
    ''sRA 98 3F800000 00000000 D05 FFF92230 2 4 1 4 87 FFFF 5DC 121 FFFF 961 209 FFFF 961 2A3 FFFF 5DC 0 0 0 1 8 Field004 0'',
    ''sRA 180 1'',
    ''sRA 97 3F800000 00000000 D05 FFF92230 2 3 1 4 87 FFFF 3E8 10E FFFF 586 21C FFFF 586 2A3 FFFF 3E8 0 0 0 1 8 Field003 0'',
    ''sRA 96 3F800000 00000000 D05 FFF92230 2 2 1 4 87 FFFF 4E2 10E FFFF 6E7 21C FFFF 6E7 2A3 FFFF 4E2 0 0 0 1 8 Field002 0'',
    ''sRA 95 3F800000 00000000 D05 FFF92230 2 1 1 4 87 FFFF 5DC 10E FFFF 849 21C FFFF 849 2A3 FFFF 5DC 0 0 0 1 8 Field001 0'',
    ''sRA F2 0 0 0 10 2 0 2 0 2 0 2 0 0'', ''sRA E9 0 0 0 0 0'', ''sRA 158 C8'', ''sRA 12D 3E8 BB80'',
    ''sRA 152 0'', ''sRA 65 1'', ''sRA 176 1'', ''sRA 64 4'', ''sRA 1D A DD.MM.YYYY'', ''sRA 8C '',
    ''sRA 31 0'', ''sRA 26 1'', ''sRA 13A 0 0'', ''sRA 134 0x5001'', ''sRA 196 0'', ''sRA 177 1'',
    ''sRA 1B 5 HH:MM'', ''sRA 17E 1'', ''sRA 38 1'', ''sRA 192 2710'',
    ''sRA 1B9 820 4BFEDECC 467AF300 42718F5A 52F9D868'', ''sRA 12F 1'', ''sRA 1A9 0 0 0'',
    ''sRA 135 0x19A2'', ''sRA CE 0'', ''sRA 174 0'', ''sRA 80 4'',
    ''sRA 19E 0 0 0 0 0 0 0 0 0 00000000 00000000 00000000'', ''sRA 1F5 1'', ''sRA 7D 0'', ''sRA 10F 36B0'',
    ''sRA A 0'', ''sRA 66 0'', ''sRA 81 4'', ''sRA E7 0 0 0 0 0 0 0 0 0 0 0 0 0 0 0 0 0 0 0 0 0 0 0 0'',
    ''sRA 120 420'', ''sRA C 7'', ''sRA 14B 1'', ''sRA 19 B not defined'', ''sRA 12E 1'', ''sRA 191 7D0'',
    ''sRA C9 0'', ''sRA 51 0'', ''sRA 32 0 0'', ''sRA 89 8A5'', ''sRA 1AC 4E0 10 39 4F5 185 1C'',
    ''sRA 186 4D Linux TIM3xx 2.6.31.12-rt21-tim13 #1 PREEMPT RT Tue Jul 31 11:20:57 CEST 2012'',
    ''sRA 1D5 C FF'', ''sRA 1EA FFF1'', ''sRA 144 64'', ''sRA 193 0'', ''sRA 76 0'', ''sRA 1FC 3 4.7'',
    ''sRA 1AA 11AC 185 18 187C 169 2A'', ''sRA 11D 411D47AE'', ''sRA 1A2 D8'', ''sRA 218 0'',
    ''sRA 12A 44C'', ''sRA F 0'', ''sRA DF 0'', ''sRA 7E 0'',
    ''027352412031322030203020302030203020302030203020302030203020302030203020302030203020302030203020302030203020302030203020302030203020302030203020302030203020302030203020302030203020302030203020302030203020302030203020302030203020302030203020302030203020302030203020302030203020302030203020302030203020302030203020302030203020302030203020302030203020302030203020302030203020302030203020302030203020302030203020302030203020302030203020302030203020302030203020302030203020302030203020302030203020302030203020302030203020302030203020302030203020302030203020302030203020302030203020302030203020302030203020302030203020302030203020302030203020302030203020302030203020302030203020302030203020302030203020302030203020302030203020302030203020302030203020302030203020302030203020302030203020302030203020302030203020302030203020302030203020302030203020302030203020302030203020302030203020302030203020302030203020302030203020302030203020302030203020302030203020302030203020302030203020302030203020302030203020302030203020302030203020302030203020302030203020302030203020302030203020302030203020302030203020302030203020302030203003'',
    ''sRA FA 0'', ''sRA 136 0'', ''sRA 2F 0 0'', ''sRA 1F8 4E7'', ''sRA 107 0'', ''sRA 6A 0'',
    ''027352412031434120343539433430303020343636413630303020454136302033342030203020302030203020302030203020302030203020302030203020302030203020302030203020302030203020302030203020302030203020302030203020302030203020302030203020302030203020302030203020302030203020302030203020302039333703'',
    ''sRA 197 1E'', ''sRA 121 14C'']"

definition tim561_respons_3 :: "string list" where
  "tim561_respons_3 = [
    ''sRA 122 14C'', ''sRA 17F 1'', ''sRA E3 1 0 30D40 1 0'', ''sRA 1B6 12A5 7B 36 805C 14 2D'',
    ''sRA 1BB 820 4BE4BE04 46613920 437C6E03 52C94DD7'', ''sRA 106 849'', ''sRA 70 1E'', ''sRA 2E 4'',
    ''sRA 116 1F4'', ''sRA 6F 0'', ''sRA CB 0'', ''sRA 10A 0 6 77 25 3D 28'', ''sRA E1 0'', ''sRA D1 0'',
    ''sRA 18 '', ''sRA D3 0'', ''sRA 18D 64'', ''sRA 1CF 0'', ''sRA 25 0 0'', ''sRA DB 1'', ''sRA 41 0'',
    ''sRA 1D1 1E'', ''sRA 1F0 3E8'', ''sRA 57 1'', ''sRA 203 0'', ''sRA 161 0'',
    ''sRA 14 3000F03 2 36 2342B 1077 36 2343A 1086 2 0 32 ETH_HOST Channel \"ethernet:*:TCP:2112:192.168.0.19 3000F04 2 36 22FCE C19 36 244AA 20F5 3 0 0 0 0 0 0 0 0 0 0 0 0 0 0 0 0 0 0 0 0 0 0 0 0 0 0 0 0 0 0 0 0 0 0 0 0 0 0 0 0 0 0 0 0 0 0 0 0 0 0 0 0 0 0 0 0 0 0 0 0 0 0 0 0 0 0 0 0 0 0 0 0 0 0 0 0 0 0 0 0 0 0 0 0 0 0 0 0 0 0 0 0 0 0 0 0 0 0 0 0 0 0 0 0 0 0 0 0 0 0 0 0 0 0 0 0 0 0 0 0 0 0 0 0 0 0 0 0 0 0 0 0 0 0 0 0 0 0 0 0 0 0 0 0 0 0 0 0 0 0 0 0 0 0 0 0 0 0 0 0 0 0 0 0 0 0 0 0 0 0 0 0 0 0 0 0 0 0 0 0 0 0 0 0 0 0 0 0 0 0 0 0 0 0 0 0 0 0 0 0 0 0 0 0 0 0 0 0 0 0 0 0 0 0 0 0 0 0 0 0 0 0 0 0 0 0 0 0 0 0 0 0 0 0 0 0 0 0 0 0 0 0 0 0 0 0 0 0 0 0 0 0 0 0 0'',
    ''sRA 164 41200000'', ''sRA D0 1 0 0 1 0 0 1 0 0 1 0 0'', ''sRA 73 83F'',
    ''sRA EE 0 0 0 0 0 0 0 0 0 0 0 0 0 0 0 0 0 0 0 0 0 0 0 0 0 0 0 0 0 0 0 0 0 0 0 0 0 0 0 0 0 0 0'',
    ''sRA 1E9 FFEC'', ''sRA 3E 0'', ''sRA 18F 1770'', ''sRA 145 64'', ''sRA 130 1'',
    ''sRA 1B3 1 0 26 4DF 2 00000000'', ''sRA 146 0'', ''sRA 103 1'', ''sRA 16F 0'', ''sRA 1A4 0'',
    ''sRA 1D4 C FF'', ''sRA 94 3F800000 00000000 2710 FFF92230 2 0 0 0 0 0 1 0 0'',
    ''sRA 1C7 447A0000 44FA0000 EA60 2A 0 0 0 0 0 0 0 0 0 0 0 0 0 0 0 0 0 0 0 0 3C3 45D 0 0 0 0 0 0 0 0 0 0 0 0 0 0 0 0 0 0 0 0'',
    ''sRA F4 0 0'', ''sRA E 1'', ''sRA 8B '', ''sRA 17D 1'', ''sRA 109 0'', ''sRA 17A 0'', ''sRA 4B 3 2,3'',
    ''sRA A8 3F800000 00000000 D05 FFF92230 0 14 0 0 1 2D E1 0 753 0 1 8 Field020 0'', ''sRA 49 3 2,3'',
    ''sRA A7 3F800000 00000000 D05 FFF92230 0 13 0 0 1 2D E1 0 8CA 0 1 8 Field019 0'', ''sRA 1A0 28'',
    ''sRA A6 3F800000 00000000 D05 FFF92230 0 12 0 0 1 2D E1 0 3E8 0 1 8 Field018 0'', ''sRA 20D 64'',
    ''sRA A5 3F800000 00000000 D05 FFF92230 0 11 0 0 1 2D E1 0 4E2 0 1 8 Field017 0'',
    ''sRA CD 11 11 11 11 11 11 11 11 11 11 11 11 11 11 11 11 11 11 11 11 11 11 11 11 11 11 11 11 11 11 11 11 11 11 11 11 11 11 11 11 11 11 11 11 11 11 11 11'',
    ''sRA A4 3F800000 00000000 D05 FFF92230 0 10 0 0 1 2D E1 0 5DC 0 1 8 Field016 0'',
    ''sRA A3 3F800000 00000000 D05 FFF92230 0 F 0 0 1 2D E1 0 2EE 0 1 8 Field015 0'',
    ''sRA A2 3F800000 00000000 D05 FFF92230 0 E 0 0 1 2D E1 0 3A9 0 1 8 Field014 0'',
    ''sRA A1 3F800000 00000000 D05 FFF92230 0 D 0 0 1 2D E1 0 465 0 1 8 Field013 0'',
    ''sRA A0 3F800000 00000000 D05 FFF92230 2 C 1 4 87 FFFF 3E8 13C FFFF 7DF 1EE FFFF 7DF 2A3 FFFF 3E8 0 0 0 1 8 Field012 0'',
    ''sRA 9F 3F800000 00000000 D05 FFF92230 2 B 1 4 87 FFFF 4E2 13C FFFF 9D7 1EE FFFF 9D7 2A3 FFFF 4E2 0 0 0 1 8 Field011 0'',
    ''sRA 1FD 0 0 0'', ''sRA 16C 7 SICK AG'', ''sRA 1F A DD.MM.YYYY'', ''sRA 20 DD.MM.YYYY'',
    ''sRA 67 9 anonymous'', ''sRA 12C 1'',
    ''sRA B2 3F800000 00000000 D05 FFF92230 1 1E 0 1 1B7740 5DC 0 BB8 2EE 0 0 1 8 Field030 0'',
    ''sRA 178 2084973'', ''sRA 20B 0'',
    ''sRA B1 3F800000 00000000 D05 FFF92230 1 1D 0 1 1B7740 753 0 EA6 3A9 0 0 1 8 Field029 0'',
    ''sRA ED 0 0 0 0 00000000'',
    ''sRA B0 3F800000 00000000 D05 FFF92230 1 1C 0 1 1B7740 8CA 0 1194 465 0 0 1 8 Field028 0'',
    ''sRA AF 3F800000 00000000 D05 FFF92230 1 1B 0 1 1B7740 3E8 0 7D0 7D0 0 0 1 8 Field027 0'',
    ''sRA 199 0'',
    ''sRA AE 3F800000 00000000 D05 FFF92230 1 1A 0 1 1B7740 4E2 0 9C4 9C4 0 0 1 8 Field026 0'',
    ''sRA 1DA 2'',
    ''sRA AD 3F800000 00000000 D05 FFF92230 1 19 0 1 1B7740 5DC 0 BB8 BB8 0 0 1 8 Field025 0'',
    ''sRA AC 3F800000 00000000 D05 FFF92230 0 18 0 0 1 2D E1 0 7D0 0 1 8 Field024 0'', ''sRA 110 4A38'',
    ''sRA AB 3F800000 00000000 D05 FFF92230 0 17 0 0 1 2D E1 0 9C4 0 1 8 Field023 0'', ''sRA 1D3 8 73'',
    ''sRA AA 3F800000 00000000 D05 FFF92230 0 16 0 0 1 2D E1 0 BB8 0 1 8 Field022 0'',
    ''sRA A9 3F800000 00000000 D05 FFF92230 0 15 0 0 1 2D E1 0 5DC 0 1 8 Field021 0'', ''sRA 6D C0 A8 0 B'',
    ''sRA 1BE 820 47BD4B00 423A617A 40B78D83 4A8BE6F8'', ''sRA 137 4'', ''sRA 16B E TIM561-2050101'',
    ''sRA 206 0'', ''sRA 3B A'', ''sRA 71 1'',
    ''sRA 1CD 44FA0000 45FA0000 EA60 7A 0 0 0 0 0 0 0 0 0 0 0 0 0 0 0 0 0 0 0 0 0 0 0 0 0 0 0 0 0 0 0 0 0 0 0 0 0 0 0 0 0 0 0 0 0 0 0 0 0 0 0 0 0 0 0 0 0 0 0 0 0 0 0 0 0 0 0 0 0 0 0 0 0 0 0 0 0 0 0 0 0 0 0 0 0 0 0 0 0 0 0 0 2 7D9 33 0 0 0 0 0 0 0 0 0 0 0 0 0 0 0 0 0 0 0 0 0 0 0 0 0 1 D'',
    ''sRA 1F6 0'', ''sRA 3C 0'', ''sRA 4D 1'',
    ''sRA BC 3F800000 00000000 D05 FFF92230 1 28 0 1 1B7740 8CA 0 1194 A41 0 0 1 8 Field040 0'',
    ''sRA BB 3F800000 00000000 D05 FFF92230 1 27 0 1 1B7740 5DC 0 BB8 5DC 0 0 1 8 Field039 0'',
    ''sRA BA 3F800000 00000000 D05 FFF92230 1 26 0 1 1B7740 753 0 EA6 753 0 0 1 8 Field038 0'',
    ''sRA B9 3F800000 00000000 D05 FFF92230 1 25 0 1 1B7740 8CA 0 1194 8CA 0 0 1 8 Field037 0'',
    ''sRA B8 3F800000 00000000 D05 FFF92230 1 24 0 1 1B7740 5DC 0 BB8 4E2 0 0 1 8 Field036 0'',
    ''sRA B7 3F800000 00000000 D05 FFF92230 1 23 0 1 1B7740 753 0 EA6 61A 0 0 1 8 Field035 0'',
    ''sRA B6 3F800000 00000000 D05 FFF92230 1 22 0 1 1B7740 8CA 0 1194 753 0 0 1 8 Field034 0'',
    ''sRA B5 3F800000 00000000 D05 FFF92230 1 21 0 1 1B7740 5DC 0 BB8 3E8 0 0 1 8 Field033 0'',
    ''sRA B4 3F800000 00000000 D05 FFF92230 1 20 0 1 1B7740 753 0 EA6 4E2 0 0 1 8 Field032 0'',
    ''sRA B3 3F800000 00000000 D05 FFF92230 1 1F 0 1 1B7740 8CA 0 1194 5DC 0 0 1 8 Field031 0'',
    ''sRA 111 F4E'', ''sRA 79 C0 A8 0 14'', ''sRA D2 19'', ''sRA F7 0'', ''sRA 90 15'', ''sRA 16A 1BE'',
    ''sRA 118 4B0'', ''sRA 200 520'', ''sRA 1E1 BB8'', ''sRA 1A8 0 0 0'', ''sRA 7C 0'',
    ''sRA C4 3F800000 00000000 D05 FFF92230 1 30 0 1 1B7740 6D6 0 DAC 7D0 0 0 1 8 Field048 0'',
    ''sRA C3 3F800000 00000000 D05 FFF92230 1 2F 0 1 1B7740 88B 0 1117 9C4 0 0 1 8 Field047 0'',
    ''sRA C2 3F800000 00000000 D05 FFF92230 1 2E 0 1 1B7740 A41 0 1482 BB8 0 0 1 8 Field046 0'',
    ''sRA 1F2 3DCCCCCD'', ''sRA 215 0 0 0'',
    ''sRA C1 3F800000 00000000 D05 FFF92230 1 2D 0 1 1B7740 6D6 0 DAC 6D6 0 0 1 8 Field045 0'',
    ''sRA C0 3F800000 00000000 D05 FFF92230 1 2C 0 1 1B7740 88B 0 1117 88B 0 0 1 8 Field044 0'',
    ''sRA 213 0 0 0'',
    ''sRA BF 3F800000 00000000 D05 FFF92230 1 2B 0 1 1B7740 A41 0 1482 A41 0 0 1 8 Field043 0'', ''sRA DD 1'']"

definition tim561_respons_4 :: "string list" where
  "tim561_respons_4 = [
    ''sRA 1CC 459C4000 46C35000 EA60 CA 0 0 0 0 0 0 0 0 0 0 0 0 0 0 0 0 0 0 0 0 0 0 0 0 0 0 0 0 0 0 0 0 0 0 0 0 0 0 0 0 0 0 0 0 0 0 0 0 0 0 0 0 0 0 0 0 0 0 0 0 0 0 0 0 0 0 0 0 0 0 0 0 0 0 0 0 0 0 0 0 0 0 0 0 0 0 1 1 1 2 A 149 13F 96 33 104 107 1B5 CF 23 E 0 0 0 0 0 0 0 0 0 0 0 0 0 0 0 0 0 0 0 0 0 0 0 0 0 0 0 0 0 0 0 0 0 0 0 0 0 0 0 0 0 0 0 0 0 0 0 0 0 0 0 0 0 0 0 0 0 0 0 0 0 0 0 0 0 0 0 0 0 0 0 0 0 0 0 0 0 0 0 0 0 0 0 0 0 0 0 0 0 0 0 0 0 0 0 0 0 0 0 0 0'',
    ''sRA 214 0 0 0'',
    ''sRA BE 3F800000 00000000 D05 FFF92230 1 2A 0 1 1B7740 5DC 0 BB8 6D6 0 0 1 8 Field042 0'',
    ''sRA BD 3F800000 00000000 D05 FFF92230 1 29 0 1 1B7740 753 0 EA6 88B 0 0 1 8 Field041 0'',
    ''sRA 198 200'', ''sRA 8F 9 anonymous'', ''sRA 1E2 0'', ''sRA 1B1 17 185 17 3A 10 3A'',
    ''sRA 1D0 256250'', ''sRA 105 400'', ''sRA 34 1'', ''sRA 212 77EA13 0 1'', ''sRA 1F4 1'', ''sAI D 0 0'',
    ''sAI B 0'', ''sAI A 0 0'',
    ''027352412031332030203020302030203020302030203020302030203020302030203020302030203020302030203020302030203020302030203020302030203020302030203020302030203020302030203020302030203020302030203020302030203020302030203020302030203020302030203020302030203020302030203020302030203020302030203020302030203020302030203020302030203020302030203020302030203020302030203020302030203020302030203020302030203020302030203020302030203020302030203020302030203020302030203020302030203020302030203020302030203020302030203020302030203020302030203020302030203020302030203020302030203020302030203020302030203020302030203020302030203020302030203020302030203020302030203020302030203020302030203020302030203020302030203020302030203020302030203020302030203020302030203020302030203020302030203020302030203020302030203020302030203020302030203020302030203020302030203020302030203020302030203020302030203020302030203020302030203020302030203020302030203020302030203020302030203020302030203020302030203020302030203020302030203020302030203020302030203020302030203020302030203020302030203020302030203020302030203020302030203020302030203020302030203003'',
    ''027352412032332000000000000000000000000003'',
    ''0273524120393220000000000000000000000000000000000000000000000000000000000000000020000000000000000000000000000000000000000000000000000000000000000020000000000000000000000000000000000000000000000000000000000000000020000000000000000000000000000000000000000000000000000000000000000020000000000000000000000000000000000000000000000000000000000000000020000000000000000000000000000000000000000000000000000000000000000020000000000000000000000000000000000000000000000000000000000000000020000000000000000000000000000000000000000000000000000000000000000020000000000000000000000000000000000000000000000000000000000000000020000000000000000000000000000000000000000000000000000000000000000020000000000000000000000000000000000000000000000000000000000000000020000000000000000000000000000000000000000000000000000000000000000003'',
    ''02735241203137200000000000000003'',
    ''027352412031383720334220524653207461726765743a2070726f640a4275696c6420646174653a2046722031322e204170722031373a31373a3330204345535420323031330a03'',
    ''0273524120314444203230302035203520352035203520352035203520352035203520352035203520352035203520352035203520352035203520352035203520352035203520352035203520352035203520352035203520352035203520352035203520352035203520352035203520352035203520352035203520352035203520352035203520352035203520352035203520352035203520352035203620362036203620362037203720372037203720382038203820382038203920392039203920392039203920392039203920412041204120412041204120412041204120412041204120412041204220422042204220422042204220422042204220422042204220422042204320432043204320432043204320432043204320432043204320432044204420442044204420442044204420442044204420442044204420442044204420442044204420442044204420442044204420442044204420442044204420442044204420442044204420442044204420442044204420442044204420442044204420442044204420442044204420442044204420442044204420442044204420442044204420442044204420442044204420442044204420442044204420442044204420442044204420442044204420442044204420442044204420442044204420442044204420442044204420442044204420442044204420442044204420442044204420442044204420442044204420442044204420442044204420442044204420442044204420442044204420442044204420442044204420442044204420442044204420442044204420442044204420442044204420442044204420442044204420442044204420442044204420442044204420442044204420442044204420442044204420442044204420442044204420442044204420442044204420442044204420442044204420442044204420442044204420442044204420442044204420442044204420442044204420442044204420442044204420442044204420442044204420442044204420442044204420442044204420442044204420442044204420442044204420442044204420442044204420442044204420442044204420442044204420442044204420442044204420442044204420442044204420442044204420442044204420442044204420442044204420442044204420442044204420442044204420442044204420442044204420442044204420442044204420442044204420442044204420442044204420442044204420442044204420442044204420442044204420442044204420442044204420442044204420442044204420442044204420442044204420442044203020302030203020302030203020302030203020302030203020302030203020302030203020302030203003'',
    ''027352412031382000000000000000000000000003'']"

definition tim561_respons_5 :: "string list" where
  "tim561_respons_5 = [
    ''0273524120453620312031203130334237423420302030204133323720413332392041364334383837412041364334413234432030203020312030203020354443204132203020322044495354312033463830303030302030303030303030302046464639323233302044303520333242203144322031444320314443203145362031454120314539203145442031463220314632203146382031463620314636203146342031463520314634203146352032414220333945204230442042303020414632204145342041443620414337204142462041423020414136204139372041384520413832204137362041363920413630204135352041343820413343204133352041324120413146204131372041303920413031203946392039454420394537203944452039443320394342203943372039424320394234203941442039413420393942203939352039384420393837203938302039373920393734203936392039363320393544203935332039353320393442203934382039343120393341203933342039333120393239203243432032443620324644203335412033364520333734203335392033334520333331203332352033344220333634203336392033363520333544203335442033343920333130203330442033433120334634203430422034304420343034203430432034313920343236203432312034323620343245203433382034334220343437203434462034354520343445203434362034364120343832203439422034443920353146203446392033313620323636203839372038393620383945203839342038394120323333203231392032303620323035203146462032303420323032203230332032303320323043203231462032303120463138203838392038384320383839203838382038384320383838203838412038383520383832203838362032203244362032383820323843203239422032394220323939203239452032394620324131203239452032413020324134203241322032413420324137203241432032414320324233203242352032423520324242203243312032424620324336203243382032434420324431203244342032444220324446203245332032444520324231203238352032374320384444203844452038444420384537203846322038463020384632203846452039303120393034203930352039303920393039203931442039323620393145203932412039324620393335203933362039343020393435203933452039344620393446203935362039354520393641203936342039364520393736203937432039383120393836203938462039393520393943203941362039414420394237203942442039433220394345203944352039444620394538203946322039463820413031204130422041313520413138204132352041333020413343204134332041344620413542204136322041364220413738204138362041393120413946204141422041423520414331204143412041443820414533204146322041464420423043204231412042324120423333204234362042353520423631204237322042373720423641204235412042343620423336204232352042313920423145204232462042334520423530204236302042373220423841204239362042414220424238204243452042453520424635204330412043314620433335204335382044303120443632204437362044393220444139204443372044453320444643204531362045333620453531204536432045383620454131204542442045444220322032203439422034393820343936203439322034393220343934203439312034394120343938203439462034413820344144203442442031313444203131373020313139452031314341203131464220313232442031323634203132393220313243392031333034203133343320313339322031334436203134313320313437412031344146203135313920313533'',
    ''0273524120314443203230302034452034452034452034452034452034452034452034452034452034452034452034452034452034452034452034452034452034452034452034452034452034452034452034452034452034452034452034452034452034452034452034452034452034452034452034452034452034452034452034452034452034452034452034452034452034452034452034452034452034452034452034452034452034452034452034452034452034452034452034452034452034452034452034452034452034452034452034452034452034452034442034442034432034432034432034422034422034422034412034412034392034392034392034382034382034382034372034372034362034362034362034362034362034362034352034352034352034352034352034352034352034342034342034342034342034342034342034342034332034332034332034332034332034332034332034322034322034322034322034322034322034322034312034312034312034312034312034312034312034302034302034302034302034302034302034302033462033462033462033462033462033462033462033462033452033452033452033452033452033452033452033452033452033452033452033452033452033452033452033452033452033452033452033452033452033452033452033452033452033452033452033452033452033452033452033452033452033452033452033452033452033452033452033452033452033452033452033452033452033452033452033452033452033452033452033452033452033452033452033452033452033452033452033452033452033452033452033452033452033452033452033452033452033452033452033452033452033452033452033452033452033452033452033452033452033452033452033452033452033452033452033452033452033452033452033452033452033452033452033452033452033452033452033452033452033452033452033452033452033452033452033452033452033452033452033452033452033452033452033452033452033452033452033452033452033452033452033452033452033452033452033452033452033452033452033452033452033452033452033452033452033452033452033452033452033452033452033452033452033452033452033452033452033452033452033452033452033452033452033452033452033452033452033452033452033452033452033452033452033452033452033452033452033452033452033452033452033452033452033452033452033452033452033452033452033452033452033452033452033452033452033452033452033452033452033452033452033452033452033452033452033452033452033452033452033452033452033452033452033452033452033452033452033452033452033452033452033452033452033452033452033452033452033452033452033452033452033452033452033452033452033452033452033452033452033452033452033452033452033452033452033452033452033452033452033452033452033452033452033452033452033452033452033452033452033452033452033452033452033452033452033452033452033452033452033452033452033452033452033452033452033452033452033452033452033452033452033452033452033452033452033452033452033452033452033452033452033452033452033452033452033452033452033452033452033452033452033452033452033452033452033452033452033452033452033452033452033452033452033452033452033452033452033452033452033452033452033452033452033452033452033452033452033452033452033452033452033452033452033452033452033452033452033452033452033452033452033452033452033452033452033452033'']"

definition tim561_respons_6 :: "string list" where
  "tim561_respons_6 = [
    ''0273524120313542203220312044303520383720354443203130452038343920323143203834392032413320354443203220322044303520383720344532203130452036453720323143203645372032413320344532203220332044303520383720334538203130452035383620323143203538362032413320334538203220342044303520383720354443203132302039363120323041203936312032413320354443203220352044303520383720344532203132302037443020323041203744302032413320344532203220362044303520383720334538203132302036343020323041203634302032413320334538203220372044303520383720354443203132462041393020314642204139302032413320354443203220382044303520383720344532203132462038434420314642203843442032413320344532203220392044303520383720334538203132462037304120314642203730412032413320334538203220412044303520383720354443203133422042434620314546204243462032413320354443203220422044303520383720344532203133422039443720314546203944372032413320344532203220432044303520383720334538203133422037444620314546203744462032413320334538203220442044303520383720354443203130452038343920323143203834392032413320354443203220452044303520383720344532203130452036453720323143203645372032413320344532203220462044303520383720334538203130452035383620323143203538362032413320334538203220313020443035203837203544432031323020393631203230412039363120324133203544432032203131204430352038372034453220313230203744302032304120374430203241332034453220322031322044303520383720334538203132302036343020323041203634302032413320334538203220313320443035203837203544432031324620413930203146422041393020324133203544432032203134204430352038372034453220313246203843442031464220384344203241332034453220322031352044303520383720334538203132462037304120314642203730412032413320334538203220313620443035203837203544432031334220424346203145462042434620324133203544432032203137204430352038372034453220313342203944372031454620394437203241332034453220322031382044303520383720334538203133422037444620314546203744462032413320334538203220313920443035203837203544432031304520383439203231432038343920324133203544432032203141204430352038372034453220313045203645372032314320364537203241332034453220322031422044303520383720334538203130452035383620323143203538362032413320334538203220314320443035203837203544432031323020393631203230412039363120324133203544432032203144204430352038372034453220313230203744302032304120374430203241332034453220322031452044303520383720334538203132302036343020323041203634302032413320334538203220314620443035203837203544432031324620413930203146422041393020324133203544432032203230204430352038372034453220313246203843442031464220384344203241332034453220322032312044303520383720334538203132462037304120314642203730412032413320334538203220323220443035203837203544432031334220424346203145462042434620324133203544432032203233204430352038372034453220313342203944372031454620394437203241332034453220322032342044303520383720334538203133422037444620314546203744462032413320334538203220323520443035203837203544432031304520383439203231'',
    ''027352412031323420313120302046464636203130364120464646432032364330203520324430332042203337394520353620334531302037302035433842204230203830303020373520383141442041332038333932204231203835393420414520383835342039372038443033203439203844373720343420393433312046464439203935303120464644422041464338204646304303'',
    ''sAI 5 1'', ''sEA 55 1'', ''sEA 57 1'', ''sEA 62 1'', ''sEA 1 1'', ''sRA A 1'', ''sEA 85 1'',
    ''sRA 18A 0'', ''sEA 55 0'', ''sEA 57 0'', ''sEA 62 0'', ''sEA 1 0'', ''sEA 85 0'', ''sEA 1C 1'',
    ''sEA 17 1'', ''sEA 1C 0'', ''sEA 17 0'', ''sRA 18A 0'', ''sEA 5A 1'', ''sEA 5A 0'', ''sAI 3F 0'',
    ''sAI 3E 0'', ''sSI 2 1'', ''sAI 2 1'']"

definition tim561_respons :: "string list" where
  "tim561_respons = tim561_respons_0 @ tim561_respons_1 @ tim561_respons_2 @ tim561_respons_3 @ tim561_respons_4 @ tim561_respons_5 @ tim561_respons_6"

definition sMI_2 :: "string list" where
  "sMI_2 = [
    ''sSI 62 5'', ''sSI 62 4'', ''sSI 85 0'', ''sSI 62 C'', ''sSI 62 6'', ''sSI 62 10'', ''sSI 62 6'',
    ''sSI 62 10'', ''sSI 62 7'', ''sSI 1 1'']"

definition sMI_0_3_F4724744_stop :: "string list" where
  "sMI_0_3_F4724744_stop = [
    ''sSI 1 0'', ''sSI 62 6'', ''sSI 2 1'', ''sAI 0 1'']"

definition sMI_0_3_F4724744_start :: "string list" where
  "sMI_0_3_F4724744_start = [
    ''sSI 2 1'', ''sAI 0 1'']"

definition sRI_E6_reply_0 :: string where
  "sRI_E6_reply_0 =
    ''3320313534352031353837203135444120313631462031363639203136433020313731382031373642203137434320313832342032303138203141354620314135392031413637203141383120314141312031423042203142384320314246452031433833203144313220314532362031463744203146433020314644362032303135203230344620323034362032303430203230413120323042382032304233203230413620323039332032303930203230383120323037412032303646203230354520323035322032303530203230343320323033452032303338203230333120323032422032303233203230313620323031332032303133203230303620323030372032303033203146464420314646332031464634203146454320314645382031464535203146453420314645302031464438203146443420314644372045433620454332204543342045424420454538204545442045443120454133204542452045424420453737203230354520323035382032303446203230344620323034452032303445203230343420323034352032303436203230344120323034372032303442203230343820323034382032303139203146463520314646462032303041203230313220323031372032303145203230323520323032462032303336203230334320323034332032303339203020302030203020302030203020302030203020302030203020302030203231303720323046322032313036203231314520323132332032313431203231343820323135442032313641203231374520323139302032314132203231414520323143302032314430203231453120323146322032323044203232314120323233302032323431203232354120323236432032323744203232393820323241382032324332203232443920323246302032333034203233314420323333332032333444203233363820323337392032333941203233423220323343462032334546203234304320323432412032343430203234333520323344392032333642203233303720323242452032323545203232303620323142382032313637203231304220323043392032303646203230324320314645382031463944203146353920314631352031454346203145393720314535332031453132203144443520314439382031443543203144314220314345382031434138203143373020314333452031433042203142443120314241312031423641203142333720314230422031414443203141414620314138352031413533203141324220314130302031394434203139413720313938302031393534203139324620313930422031384445203138424220313839332031383730203138344420313833332031383131203137434620313744352031374638203138323320302030203020302030203020302032314432203020302032314530203231444620323139442030203231393620302030203020302030203146453920314641362031463839203146364120314634462031463141203146304320314545322031454343203145424120314541302031453741203145354220314534302031453334203145313120314445432031444444203144433420314441422031443943203144383020314436342031443536203144333420314432322031334239203133354320313335412031333533203133343520313333452031333244203133323120313331342031333038203132464420313245462031324533203132444320313244302031324334203132423920313241462031324134203132393720313239312031323835203132374120313236462031323638203132354520313235372031323444203132343720313233442031323336203132323920313232332031323139203132313620313231302031323037203132303120313146392031314635203131453720313144462031314445203131443520313143442031314337203131433220313142452031314238''"

definition sRI_E6_reply_1 :: string where
  "sRI_E6_reply_1 =
    ''2031314230203131423020313141412031314137203131413220313139412031313837203131383920313146352031413136203141313820314131322031413137203141303920314130382031413035203139464420313946422031394639203139463520313946332035434320354345203542442035423820354334203538352035364120353644203536462035374320353737203538372035383920353932203541412035433220353946203535392035343020353434203534342035344120353441203537372035424420354243203545332036313520354638203546412036313520363130203539442035383820353839203539312035393120353936203542362031413434203141344420314136352031413543203141364220314137452031413842203141374420314139382031414143203141414620314143422031414346203141463320314145462031414538203141463320314146362031414345203141433520313242302031323136203132304520313231342031323239203132333620313233422031323437203132344520313235372031323635203132364320313237382031323745203132383820313238452031323943203132413620313242342031324244203132433320313244302031324442203132453720313246322031333030203133303820313331452031333238203133333020313333462031333444203133354220313336372031333736203133384520313339332031334138203133423220313343362031334437203133453520313346382031343038203134314120313432432031343346203134344620313436312031343735203134383420313439422031344146203134424620313444322031344537203134463120313446392031353143203135333720313535312031353638203135374120313539302031354231203135433420313545332031354641203136313220313632372031363339203136354520313638332031364133203136423620313644392031364635203137313320313733332031373532203137364220313739302031374244203137443620313746382052535349312033463830303030302030303030303030302046464639323233302044303520333242203138364620313741462031354342203134434420313138382031303836203131413120313532322031383032203139393420314330352031434539203144373020314533462031444133203145434520383735382038453341203233344120323730372032393234203238423520323735452032373737203238364320323836422032383734203238333220323936392032393634203238444320323935392032423938203241313520323937372032413430203241313920323933412032413646203241423920323933302032394438203241354620324134312032413536203239394120323935442032383835203239313920323837462032384337203239374420323939362032423041203243414320324244422032423931203242384620324245422032423833203242444420324235362032434435203242433920324331392032424446203243374320324331392032434633203243373720324430332032413745203242453720323730382032304445203142433520314332412031423337203137374420313746392031374239203137353720314131462031463241203146454620323032302032304541203230303020314634372031424533203141424420314237342031444430203230393020314646302031454131203144433720314532412032343246203235333220323941312032454533203246363220324430462032434443203244314620324542352032444132203239383820323630312032333934203146393120323043462032304533203234364120314342352032393746203244373820324545452033303731203245383020324545342032463136203241423920323245322032343843203233''"

definition sRI_E6_reply_2 :: string where
  "sRI_E6_reply_2 =
    ''3645203233424320323433432032353137203235434220323530432032344136203230434520323134372032463032203330333620324641452032464243203246453320324535422032373943203242343320324333352032334134203020323036392032433943203243443420324546342032443743203243423220324343302032423135203243353420324239352032413933203241433320323941382032393135203239363020324132412032383638203237463520323733452032363931203237334520323932442032373744203237363220323639442032373330203237433120323836302032374534203237313320323546362032383030203242364320324333412032453946203245414620324534452032443942203245443320324644452032453743203244453220324637412032454438203245393820324534312032453042203244303120324631452032463843203244434420324539422032453446203245434120324536322032454131203245353120324432332032453730203244444420324530392032444336203245393820324335312032443743203244323220324439372032433844203243363020324343372032434233203243323120324438452032424543203244353720324432372032424336203243363320324330322032433643203242393020324233312032434145203242454220324231392032433641203242373420324242352032423835203243454120324234432032433735203242303320324239372032414636203239413620324232392032423739203242393220324235422032413834203241424320324130452032414432203239444520324230312032414441203239453420323944332032424133203239364520324139382032413345203238424220324131342032414141203239353320323839422032383942203239383720323841382032394532203238303520323834422032374641203238303320323736432032383441203238454220323745462032373446203237343520323835382032374631203237434620323743352032363841203237413720323635342032344639203234384520323545462032334634203234314120323435342032343046203235323320323336382032334435203233454420323342332032303737203143413720313746452031313330203020302031303638203131414320313343462031363044203137333420313835462031423332203144353320314444442031453131203141434220314144442031454133203144383520314638412031464438203146324420314545362031453744203145463120314531452031444542203143353520313931332031363633203136374420313538352031353934203134424520314141392032313346203144313320313946342031414335203141363520313944412031413241203139433520313838372031384237203136454320374644203132443020453335203134463320314345352031413730203137343920313635352031354245203133443820313334382043383520423146204638322031384438203139344320314243422031443043203141453020313946442031433131203143303320314237322031413443203142443120314234362031423846203142324620314243432031423233203142394620314146462031424146203143373220314239442031433841203142453120314245432031424234203142364120314237352031433533203142414520314242312031433733203142464420314242442031414534203143453420314243372031433945203141463720314333432031423634203145304520314142312031383939203230434220314532432031343738203142334620313836452031363933203136354620314246332031334338203135454320313645302031363131203137333220313633392031373044203137323420313734432031364235203135443920313736452031''"

definition sRI_E6_reply_3 :: string where
  "sRI_E6_reply_3 =
    ''3732372031353442203134444320313630382031413445203142423820314241302031433036203141363620314143332031414138203142304420314145412031383737204638442030203020302030203020302030203020302030203020302030203020302043394120423438204541432031314236203134323320313942392031423531203141393420314239452031433242203141344420314233322031423244203141423720314142332031423033203142363120314135362031423435203139434420314234442031424345203141453820314241452031393432203141364620314233312031423233203141434220314232412031423344203141393920314134332031413032203139433520314141422031413039203138434220313943442031383645203139343620313945362031373634203135344620313434342031343846203136363020313631462031363737203137363220313633312031363335203136413820313638342031373843203136374320313643442031374133203137434320313837302031383832203138463520313935332031393233203138443520313839382031384130203139323220314143362031393230203141394120313843372031393335203139383820314137312031423138203139363020314335432031423435203141383620314146432031423335203142413620314232312031423441203142393520314234302031424442203143303620314331412031424442203143303720314336322031424646203144383720313839462031333242203132414220464634203743432030203020302030203020302030203531462030203020364245203537302035413520302036323720302030203020302030204430382046374320444434204646302031304337204637332031314542203130444320463834203130333820313139312031304244203130433620313043462046373420464332203131323320313231342031303230203131383320313046422031313641203131334320313135412031313043203131334420463143203136343920313931312031463937203231444520323233422032324233203231463320323233462032343336203232443020323333342032324334203233303120323330452032333043203234303620323234432032323539203233434420323241362032323937203232333020323341352032333333203233423820323433382032334332203234453620323336462032343445203234334220323435462032343033203234383020323341462032333033203234313120323433322032343546203235373020323430362032333830203233453420323246442032333133203233394420323338392032353341203233413020323430362032343041203232433820323244302031443545203139333620313731382044434320313431302031333833203134334220313433342031344531203135354120313436372031334341203133354520313441312031343536203133444620323443442032384345203238443920323941372032364636203235354520323735432032354636203231363620314433432032313732203236363120323842302032413545203238453020323837422032383333203238443920323943342032434635203243323320324342302032433531203237333120323535352032334244203230464620323045372032313535203233334120323442382032323439203230413620323530452032333044203233383220323137442032303435203142414320464545204645412044444220463331204446442045414220453446204542332043333520434645204342422041363020413543204144312039364520393841204136372042304120463333203131363920413142203134323820313646302031373237203146434620323231312032323834203231373220323232342032304645203232343720323033322032313343203230''"

definition sRI_E6_reply_4 :: string where
  "sRI_E6_reply_4 =
    ''353220323042422032314432203230413320314645352032313736203231324620323045362032313033203231423620323038352032304237203232313520323045322032313738203230433920323034422032304341203230304320323130412032303737203230453520323039332032303041203231334320323038442032303334203230424320323043302032313330203230343220314644362032304137203146383920314642432031454430203230324320314638362032304339203230384220314646302031464135203231354520314235342031353731203135394120313342392031334438203135304120313338412031343236203133433720313339432031324641203133464120313338342031323045203132433420313236412031333133203132353720313145452031323330203132374120313243302031303735203131363220313143302031304138203132334120313139362046363520302030203020302030203003''"

definition sRI_E6_reply :: "string list" where
  "sRI_E6_reply = [sRI_E6_reply_0, sRI_E6_reply_1, sRI_E6_reply_2, sRI_E6_reply_3, sRI_E6_reply_4]"

definition sRI_15B_reply :: string where
  "sRI_15B_reply =
    ''43203834392032413320354443203220323620443035203837203445322031304520364537203231432036453720324133203445322032203237204430352038372033453820313045203538362032314320353836203241332033453820322032382044303520383720354443203132302039363120323041203936312032413320354443203220323920443035203837203445322031323020374430203230412037443020324133203445322032203241204430352038372033453820313230203634302032304120363430203241332033453820322032422044303520383720354443203132462041393020314642204139302032413320354443203220324320443035203837203445322031324620384344203146422038434420324133203445322032203244204430352038372033453820313246203730412031464220373041203241332033453820322032452044303520383720354443203133422042434620314546204243462032413320354443203220324620443035203837203445322031334220394437203145462039443720324133203445322032203330204430352038372033453820313342203744462031454620374446203241332033453803''"

definition sRI_1DC_reply :: string where
  "sRI_1DC_reply =
    ''4520334520334520334520334520334520334520334520353520353520353520353520353520353520353520353520353520353520353520353520353520353520353520353520353520353520353520353520353520353503''"

definition sMI_reply :: "string list" where
  "sMI_reply = [
    ''sAI 2 1'', ''sSI 62 5'', ''sSI 62 4'', ''sSI 85 0'', ''sSI 62 C'', ''sSI 62 6'', ''sSI 62 10'',
    ''sSI 62 6'', ''sSI 62 10'', ''sSI 62 7'', ''sSI 1 1'']"

definition udp_reponse :: "byte list" where
  \<comment> \<open>the bytes of the initialiser; from the seventeenth on they are text\<close>
  "udp_reponse = [0x90, 0x00, 0x04, 0xad, 0x00, 0x06, 0x77, 0x25, 0x3d, 0x28, 0x6d, 0xf8, 0xdd, 0xbc, 0x00, 0x00] @ cstr
    ''<?xml version=\"1.0\" encoding=\"UTF-8\"?><NetScanResult MACAddr=\"00:06:77:25:3D:28\"><Item key=\"IPAddress\" value=\"192.168.0.1\" readonly=\"FALSE\"></Item><Item key=\"IPMask\" value=\"255.255.255.0\" readonly=\"FALSE\"></Item><Item key=\"IPGateway\" value=\"0.0.0.0\" readonly=\"FALSE\"></Item><Item key=\"HostPortNo\" value=\"2112\" readonly=\"TRUE\"></Item><Item key=\"HostModeClnEna\" value=\"0\" readonly=\"TRUE\"></Item><Item key=\"AuxPortNo\" value=\"2111\" readonly=\"TRUE\"></Item><Item key=\"DeviceType\" value=\"TiM561 V2.54-22.06.16\" readonly=\"TRUE\"></Item><Item key=\"FirmwareVersion\" value=\"V2.54\" readonly=\"TRUE\"></Item><Item key=\"SerialNumber\" value=\"17020852\" readonly=\"TRUE\"></Item><Item key=\"OrderNumber\" value=\"1071419\" readonly=\"TRUE\"></Item><Item key=\"IPConfigDuration\" value=\"5000\" readonly=\"TRUE\"></Item><Item key=\"ModeToHandleIP\" value=\"NoExtraCmd\" readonly=\"TRUE\"></Item><Item key=\"LocationName\" value=\"not defined\" readonly=\"TRUE\"></Item><Item key=\"HasDHCPClient\" value=\"TRUE\" readonly=\"TRUE\"></Item><Item key=\"DHCPClientEnabled\" value=\"FALSE\" readonly=\"FALSE\"></Item><Item key=\"IsBeepSupported\" value=\"FALSE\" readonly=\"TRUE\"></Item><Item key=\"AddressingMode\" value=\"index\" readonly=\"TRUE\"></Item></NetScanResult>''"

primrec find_old_from :: "int \<Rightarrow> string \<Rightarrow> string list \<Rightarrow> int" where
  "find_old_from i str [] = -1"
| "find_old_from i str (a # as) = (if str = a then i else find_old_from (i + 1) str as)"

definition find_index_old :: "string \<Rightarrow> string list \<Rightarrow> int" where
  "find_index_old str array = find_old_from 0 str array"

subsection \<open>The tables agree\<close>


lemma tim561_lengths:
  "length tim561_index = 572" "length tim561_respons = 572"
  by (simp_all add: tim561_index_def tim561_respons_def
    tim561_index_0_def tim561_index_1_def tim561_index_2_def tim561_index_3_def tim561_index_4_def tim561_index_5_def tim561_index_6_def
    tim561_respons_0_def tim561_respons_1_def tim561_respons_2_def tim561_respons_3_def tim561_respons_4_def tim561_respons_5_def tim561_respons_6_def)

lemma udp_reponse_length: "length udp_reponse = 1213"
  by (simp add: udp_reponse_def)

definition first_word :: "string \<Rightarrow> string" where
  "first_word s = takeWhile (\<lambda>c. c \<noteq> CHR '' '') s"

definition second_word :: "string \<Rightarrow> string" where
  "second_word s = first_word (drop (Suc (length (first_word s))) s)"

definition hex_digit :: "nat \<Rightarrow> char" where
  "hex_digit n = ''0123456789abcdef'' ! n"

definition hex_text :: "string \<Rightarrow> string" where
  \<comment> \<open>a text as hexadecimal digits\<close>
  "hex_text s = concat (map (\<lambda>c. [hex_digit (of_char c div 16), hex_digit (of_char c mod 16)]) s)"

definition reply_verb :: "string \<Rightarrow> string" where
  "reply_verb v = (if v = ''sRI'' then ''sRA'' else if v = ''sMI'' then ''sAI'' else if v = ''sEI'' then ''sEA'' else ''?'')"

definition reply_head :: "string \<Rightarrow> string" where
  \<comment> \<open>what a reply to the request has to begin with\<close>
  "reply_head q = reply_verb (first_word q) @ '' '' @ second_word q @ '' ''"

definition echoes :: "string \<Rightarrow> string \<Rightarrow> bool" where
  "echoes q r \<longleftrightarrow> take (length (reply_head q)) (r @ '' '') = reply_head q \<or>
     take (2 + 2 * length (reply_head q)) r = ''02'' @ hex_text (reply_head q) \<or>
     q = ''sMI 0 3 F4724744''"

definition reply_ok :: "string \<Rightarrow> bool" where
  \<comment> \<open>the sizes fit the buffers they are sent from\<close>
  "reply_ok r \<longleftrightarrow> 2 \<le> length r \<and> (take 1 r = ''0'' \<and> length r \<le> 4096 \<or> take 1 r = ''s'' \<and> length r \<le> 2000)"

lemmas echo_defs = echoes_def reply_head_def reply_verb_def first_word_def second_word_def hex_text_def hex_digit_def


lemma echo_parts:
  "list_all2 echoes tim561_index_0 tim561_respons_0"
  "list_all2 echoes tim561_index_1 tim561_respons_1"
  "list_all2 echoes tim561_index_2 tim561_respons_2"
  "list_all2 echoes tim561_index_3 tim561_respons_3"
  "list_all2 echoes tim561_index_4 tim561_respons_4"
  "list_all2 echoes tim561_index_5 tim561_respons_5"
  "list_all2 echoes tim561_index_6 tim561_respons_6"
        apply (simp add: echo_defs tim561_index_0_def tim561_respons_0_def)
       apply (simp add: echo_defs tim561_index_1_def tim561_respons_1_def)
      apply (simp add: echo_defs tim561_index_2_def tim561_respons_2_def)
     apply (simp add: echo_defs tim561_index_3_def tim561_respons_3_def)
    apply (simp add: echo_defs tim561_index_4_def tim561_respons_4_def)
   apply (simp add: echo_defs tim561_index_5_def tim561_respons_5_def)
  apply (simp add: echo_defs tim561_index_6_def tim561_respons_6_def)
  done

lemma reply_ok_all: "list_all reply_ok tim561_respons"
proof -
  have "list_all reply_ok tim561_respons_0"
    unfolding reply_ok_def tim561_respons_0_def by simp
  moreover have "list_all reply_ok tim561_respons_1"
    unfolding reply_ok_def tim561_respons_1_def by simp
  moreover have "list_all reply_ok tim561_respons_2"
    unfolding reply_ok_def tim561_respons_2_def by simp
  moreover have "list_all reply_ok tim561_respons_3"
    unfolding reply_ok_def tim561_respons_3_def by simp
  moreover have "list_all reply_ok tim561_respons_4"
    unfolding reply_ok_def tim561_respons_4_def by simp
  moreover have "list_all reply_ok tim561_respons_5"
    unfolding reply_ok_def tim561_respons_5_def by simp
  moreover have "list_all reply_ok tim561_respons_6"
    unfolding reply_ok_def tim561_respons_6_def by simp
  ultimately show ?thesis by (simp add: tim561_respons_def)
qed

lemma tim561_index_text: "list_all c_text tim561_index"
  unfolding c_text_def tim561_index_def
  by (simp add: tim561_index_0_def tim561_index_1_def tim561_index_2_def tim561_index_3_def tim561_index_4_def tim561_index_5_def tim561_index_6_def)

lemma sequence_tables:
  "length sMI_0_3_F4724744_start = 2" "length sMI_0_3_F4724744_stop = 4" "length sMI_reply = 11"
  "\<forall>r \<in> set sMI_0_3_F4724744_start \<union> set sMI_0_3_F4724744_stop \<union> set sMI_reply. length r \<le> 2000"
  by (simp_all add: sMI_0_3_F4724744_start_def sMI_0_3_F4724744_stop_def sMI_reply_def)

lemma sRI_E6_table: "length sRI_E6_reply = 5" "\<forall>r \<in> set sRI_E6_reply. length r \<le> 4096 \<and> 2 \<le> length r"
  by (simp_all add: sRI_E6_reply_def sRI_E6_reply_0_def sRI_E6_reply_1_def sRI_E6_reply_2_def
      sRI_E6_reply_3_def sRI_E6_reply_4_def)

lemma sRI_replies: "length sRI_15B_reply \<le> 4096" "2 \<le> length sRI_15B_reply"
  "length sRI_1DC_reply \<le> 4096" "2 \<le> length sRI_1DC_reply"
  by (simp_all add: sRI_15B_reply_def sRI_1DC_reply_def)

text \<open>The reply table belongs to the request table: both have 572 entries, and every reply, in ASCII
  or as hexadecimal digits, answers the request at its position: it starts with the answering verb and
  the same identifier. The only exception is the request with the access code, which is answered by
  a sequence of its own.\<close>

theorem replies_echo_requests:
  "length tim561_index = 572 \<and> length tim561_respons = 572 \<and> list_all2 echoes tim561_index tim561_respons"
proof -
  have "list_all2 echoes tim561_index tim561_respons"
    unfolding tim561_index_def tim561_respons_def by (intro list_all2_appendI echo_parts)
  then show ?thesis using tim561_lengths by simp
qed

end
