(* ===== verification/Sick.thy ===== *)
theory Sick
  imports Nios2Fpga Tim561 Transmit "HOL-Library.Sublist"
begin

unbundle bit_operations_syntax

text \<open>
  \<open>sick_protocol.c\<close>: the emulated scanner protocol. A telegram is a request between a start and an
  end byte; the request is looked up in the table and answered with the reply at the same position,
  with three requests answered by a sequence of telegrams and two that start and stop the stream of
  measurements. The position telegram of one turn of the scanner is put together here as well.
\<close>

definition frame_start :: string where
  "frame_start = ''sSI 5A 1 1 103B7B4 0 0 9D9 9DD B3E30A9 B3E44BC 0 0 1 0 0 5DC A2 0 2 DIST1 '' @
     ''3F800000 00000000 FFF92230 D05 32B''"

definition RSSI_Field_start :: string where
  "RSSI_Field_start = '' RSSI1 3F800000 00000000 FFF92230 D05 32B''"

definition RSSI_Field_end :: string where
  "RSSI_Field_end = '' 0 0 0 0 0 0''"

definition lit_at :: "string \<Rightarrow> nat \<Rightarrow> env \<Rightarrow> 'a bus_scheme \<Rightarrow> byte" where
  \<comment> \<open>the byte at index \<open>i\<close> of a literal: its characters, its terminator, then what follows it in memory\<close>
  "lit_at src i h w =
     (if i < length src then of_char (src ! i) else if i = length src then 0
      else over_read src h (i - length src) w)"

definition hex_pair :: "byte \<Rightarrow> byte \<Rightarrow> byte" where
  \<comment> \<open>the low eight bits of \<open>((c0 - 0x30) << 4) + (c1 - 0x30)\<close>\<close>
  "hex_pair c0 c1 = push_bit 4 (c0 - 0x30) + (c1 - 0x30)"

definition string2hex :: "string \<Rightarrow> nat \<Rightarrow> byte list \<Rightarrow> env \<Rightarrow> 'a bus_scheme \<Rightarrow> byte list option" where
  \<comment> \<open>\<open>len\<close> rounds, each of which takes two characters\<close>
  "string2hex src len dest h w = for_each [0..<len] (\<lambda>i dest.
     arr_set dest i (hex_pair (lit_at src (2 * i) h w) (lit_at src (2 * i + 1) h w))) dest"

fun strncmp_eq :: "byte list \<Rightarrow> byte list \<Rightarrow> nat \<Rightarrow> bool option" where
  \<comment> \<open>\<open>strncmp(a, b, n) == 0\<close>; both lists are the memory from the pointer on\<close>
  "strncmp_eq a b 0 = Some True"
| "strncmp_eq (x # a) (y # b) (Suc n) =
     (if x \<noteq> y then Some False else if x = 0 then Some True else strncmp_eq a b n)"
| "strncmp_eq a b (Suc n) = None"

primrec find_index_from :: "int \<Rightarrow> byte list \<Rightarrow> int \<Rightarrow> string list \<Rightarrow> int option" where
  "find_index_from i str str_len [] = Some (-1)"
| "find_index_from i str str_len (a # as) = do {
     eq \<leftarrow> strncmp_eq str (cstr a @ [0]) (unat (word_of_int str_len :: uint));
     if eq \<and> int (length a) = str_len then Some i else find_index_from (i + 1) str str_len as
   }"

definition find_index :: "byte list \<Rightarrow> int \<Rightarrow> string list \<Rightarrow> int option" where
  "find_index str str_len array = find_index_from 0 str str_len array"

definition begins :: "byte list \<Rightarrow> string \<Rightarrow> bool option" where
  \<comment> \<open>\<open>strncmp(recv_command, lit, strlen(lit)) == 0\<close>\<close>
  "begins recv_command lit = strncmp_eq recv_command (cstr lit @ [0]) (length lit)"

definition send_ascii :: "byte \<Rightarrow> string \<Rightarrow> env \<Rightarrow> world \<Rightarrow> world option" where
  "send_ascii s r h w = do {
     let send_len = length r;
     sb \<leftarrow> blit (send_buffer w) 1 (cstr r);
     sb \<leftarrow> arr_set sb 0 0x02;
     sb \<leftarrow> arr_set sb (send_len + 1) 0x03;
     (_, w) \<leftarrow> send s sb (word_of_nat (send_len + 2)) h (w\<lparr>send_buffer := sb\<rparr>);
     Some w
   }"

definition send_hex :: "byte \<Rightarrow> string \<Rightarrow> env \<Rightarrow> world \<Rightarrow> world option" where
  "send_hex s r h w = do {
     let send_len = length r;
     sb \<leftarrow> string2hex r send_len (send_buffer w) h w;
     (_, w) \<leftarrow> send s sb (word_of_nat (send_len div 2)) h (w\<lparr>send_buffer := sb\<rparr>);
     Some w
   }"

definition table_reply :: "byte \<Rightarrow> string \<Rightarrow> env \<Rightarrow> world \<Rightarrow> world option" where
  \<comment> \<open>a reply that starts with neither of the two characters is not sent\<close>
  "table_reply s r h w =
     (if lit_at r 0 h w = 0x30 then send_hex s r h w
      else if lit_at r 0 h w = 0x73 then send_ascii s r h w else Some w)"

definition answer_request :: "byte \<Rightarrow> byte list \<Rightarrow> nat \<Rightarrow> env \<Rightarrow> world \<Rightarrow> (byte \<times> world) option" where
  \<comment> \<open>the reply; 1 when the stream is to be started, 2 when it is to be stopped\<close>
  "answer_request s recv_command pos h w = do {
     b \<leftarrow> begins recv_command ''sMI 0 3 F4724744'';
     if b then
       if \<not> update_pos_flag (SysPara w)
       then do {
         w \<leftarrow> for_each [0..<2] (\<lambda>i. send_ascii s (sMI_0_3_F4724744_start ! i) h) w;
         Some (0, w) }
       else do {
         w \<leftarrow> for_each [0..<4] (\<lambda>i. send_ascii s (sMI_0_3_F4724744_stop ! i) h) w;
         Some (0, w) }
     else do {
       b \<leftarrow> begins recv_command ''sMI 2'';
       if b then
         if sMI_3E_flag w = 1
         then do {
           w \<leftarrow> for_each [0..<11] (\<lambda>i. send_ascii s (sMI_reply ! i) h) w;
           Some (1, w) }
         else do {
           w \<leftarrow> send_ascii s (sMI_reply ! 0) h w;
           Some (2, w) }
       else do {
         w \<leftarrow> table_reply s (tim561_respons ! pos) h w;
         Some (0, w) }
     }
   }"

definition note_measure :: "byte list \<Rightarrow> world \<Rightarrow> world option" where
  "note_measure recv_command w = do {
     b \<leftarrow> begins recv_command ''sMI 3E'';
     if b then Some (w\<lparr>sMI_3E_flag := 1\<rparr>)
     else do {
       b \<leftarrow> begins recv_command ''sMI 3F'';
       if b then Some (w\<lparr>sMI_3E_flag := 0\<rparr>) else Some w
     }
   }"

definition extra_reply :: "byte \<Rightarrow> byte list \<Rightarrow> env \<Rightarrow> world \<Rightarrow> world option" where
  "extra_reply s recv_command h w = do {
     b \<leftarrow> begins recv_command ''sRI E6'';
     if b then for_each [0..<5] (\<lambda>i. send_hex s (sRI_E6_reply ! i) h) w
     else do {
       b \<leftarrow> begins recv_command ''sRI 15B'';
       if b then send_hex s sRI_15B_reply h w
       else do {
         b \<leftarrow> begins recv_command ''sRI 1DC'';
         if b then send_hex s sRI_1DC_reply h w else Some w
       }
     }
   }"

definition apply_enable :: "byte \<Rightarrow> env \<Rightarrow> world \<Rightarrow> world option" where
  "apply_enable enable_flag h w =
     (if enable_flag = 1
      then do {
        w \<leftarrow> set_laser_paramter UPLOAD_EN ENABLE h w;
        Some (w\<lparr>SysPara := (SysPara w)\<lparr>update_pos_flag := True\<rparr>\<rparr>) }
      else if enable_flag = 2
      then do {
        w \<leftarrow> set_laser_paramter UPLOAD_EN DISABLE h w;
        Some (w\<lparr>SysPara := (SysPara w)\<lparr>update_pos_flag := False\<rparr>\<rparr>) }
      else Some w)"

definition sick_protocol_process :: "byte \<Rightarrow> byte list \<Rightarrow> int \<Rightarrow> env \<Rightarrow> world \<Rightarrow> world option" where
  \<comment> \<open>\<open>buf\<close>: the memory from the pointer on\<close>
  "sick_protocol_process s buf len h w = do {
     let recv_command = drop 1 buf;
     pos \<leftarrow> find_index recv_command (len - 2) tim561_index;
     if pos \<noteq> -1
     then do {
       (enable_flag, w) \<leftarrow> answer_request s recv_command (nat pos) h w;
       w \<leftarrow> note_measure recv_command w;
       w \<leftarrow> extra_reply s recv_command h w;
       apply_enable enable_flag h w
     }
     else Some w
   }"

definition sick_pos_packet :: "world \<Rightarrow> world option" where
  "sick_pos_packet w = do {
     let sb = replicate 8448 0;
     sb \<leftarrow> arr_set sb 0 0x02;
     let len = length frame_start;
     sb \<leftarrow> blit sb 1 (cstr frame_start);
     let offset = len + 1;
     d \<leftarrow> slice (distance_data (CycleData w)) 0 (unat (distance_len (CycleData w)));
     sb \<leftarrow> blit sb offset d;
     let offset = offset + unat (distance_len (CycleData w));
     let len = length RSSI_Field_start;
     sb \<leftarrow> blit sb offset (cstr RSSI_Field_start);
     let offset = offset + len;
     g \<leftarrow> slice (gray_data (CycleData w)) 0 (unat (gray_len (CycleData w)));
     sb \<leftarrow> blit sb offset g;
     let offset = offset + unat (gray_len (CycleData w));
     let len = length RSSI_Field_end;
     sb \<leftarrow> blit sb offset (cstr RSSI_Field_end);
     let offset = offset + len;
     sb \<leftarrow> arr_set sb offset 0x03;
     Some (w\<lparr>send_buffer := sb\<rparr>)
   }"

subsection \<open>Comparing and looking up requests\<close>

lemma strncmp_defined:
  "n \<le> length x \<or> length y < length x \<Longrightarrow> \<exists>b. strncmp_eq x (y @ [0]) n = Some b"
proof (induction n arbitrary: x y)
  case (Suc n)
  then obtain a x' where x: "x = a # x'" by (cases x) auto
  show ?case
  proof (cases y)
    case Nil
    then show ?thesis by (auto simp: x)
  next
    case (Cons b y')
    then have "n \<le> length x' \<or> length y' < length x'" using Suc.prems x by auto
    then show ?thesis using Suc.IH [of x' y'] by (auto simp: x Cons)
  qed
qed auto

lemma strncmp_same:
  assumes "0 \<notin> set y" and "length y \<le> length x"
  shows "strncmp_eq x (y @ [0]) (length y) = Some (take (length y) x = y)"
  using assms
proof (induction y arbitrary: x)
  case (Cons b y)
  then obtain a x' where x: "x = a # x'" by (cases x) auto
  show ?case using Cons by (auto simp: x)
qed simp

lemma find_index_from_exact:
  assumes "n \<le> length str" and "n < 2 ^ 32" and "take n str = cstr r" and "list_all c_text arr"
  shows "find_index_from i str (int n) arr = Some (find_old_from i r arr)"
  using assms(4)
proof (induction arr arbitrary: i)
  case (Cons a as)
  have n: "unat (word_of_int (int n) :: uint) = n"
    using assms(2) by (simp add: unat_of_nat)
  obtain b where b: "strncmp_eq str (cstr a @ [0]) n = Some b"
    using strncmp_defined [of n str "cstr a"] assms(1) by auto
  have "(b \<and> length a = n) = (r = a)"
  proof (cases "length a = n")
    case True
    then have "b = (take n str = cstr a)"
      using strncmp_same [of "cstr a" str] c_text_bytes [of a] Cons.prems b assms(1) by simp
    then show ?thesis using True assms(3) by simp
  next
    case False
    have "length r = n"
      using arg_cong [OF assms(3), of length] assms(1) by simp
    then show ?thesis using False by auto
  qed
  then show ?case
    using Cons b n by (auto simp: if_split)
qed simp

lemma find_old_from_bounds:
  "find_old_from i r arr = -1 \<or> i \<le> find_old_from i r arr \<and> find_old_from i r arr < i + int (length arr) \<and>
     arr ! nat (find_old_from i r arr - i) = r" if "0 \<le> i"
  using that
proof (induction arr arbitrary: i)
  case (Cons a as)
  show ?case
  proof (cases "r = a")
    case False
    then have f: "find_old_from i r (a # as) = find_old_from (i + 1) r as" by simp
    let ?k = "find_old_from (i + 1) r as"
    from Cons.IH [of "i + 1"] Cons.prems
    consider "?k = -1" | "i + 1 \<le> ?k" "?k < i + 1 + int (length as)" "as ! nat (?k - (i + 1)) = r" by auto
    then show ?thesis
    proof cases
      case 2
      then have "nat (?k - i) = Suc (nat (?k - (i + 1)))" by auto
      then show ?thesis using 2 f by auto
    qed (simp add: f)
  qed (use Cons.prems in simp)
qed simp

lemma find_old_from_absent: "0 \<le> i \<Longrightarrow> find_old_from i r arr = -1 \<longleftrightarrow> r \<notin> set arr"
  by (induction arr arbitrary: i) auto

text \<open>C27: the table lookup compares exactly: for a request of \<open>n\<close> received bytes it finds the first
  entry that is equal to them, not one that merely begins like them, and -1 when there is none; it
  agrees with the earlier version \<open>find_index_old\<close> on terminated strings.\<close>

theorem find_index_exact:
  assumes "n \<le> length str" and "n < 2 ^ 32" and "take n str = cstr r" and "list_all c_text arr"
  shows "find_index str (int n) arr = Some (find_index_old r arr) \<and>
    (find_index_old r arr = -1) = (r \<notin> set arr) \<and>
    (find_index_old r arr = -1 \<or>
      0 \<le> find_index_old r arr \<and> find_index_old r arr < int (length arr) \<and> arr ! nat (find_index_old r arr) = r)"
  using find_index_from_exact [OF assms, of 0] find_old_from_bounds [of 0 r arr] find_old_from_absent [of 0 r arr]
  by (simp add: find_index_def find_index_old_def)

theorem find_index_exact_witness:
  "find_index (cstr ''sRI 1'' @ [3]) (int 5) [''sRI 15B'', ''sRI 1'', ''sRI''] =
      Some (find_index_old ''sRI 1'' [''sRI 15B'', ''sRI 1'', ''sRI'']) \<and>
    (find_index_old ''sRI 1'' [''sRI 15B'', ''sRI 1'', ''sRI''] = -1) = (''sRI 1'' \<notin> set [''sRI 15B'', ''sRI 1'', ''sRI'']) \<and>
    (find_index_old ''sRI 1'' [''sRI 15B'', ''sRI 1'', ''sRI''] = -1 \<or>
      0 \<le> find_index_old ''sRI 1'' [''sRI 15B'', ''sRI 1'', ''sRI''] \<and>
      find_index_old ''sRI 1'' [''sRI 15B'', ''sRI 1'', ''sRI''] < int (length [''sRI 15B'', ''sRI 1'', ''sRI'']) \<and>
      [''sRI 15B'', ''sRI 1'', ''sRI''] ! nat (find_index_old ''sRI 1'' [''sRI 15B'', ''sRI 1'', ''sRI'']) = ''sRI 1'')"
  by (rule find_index_exact) (simp_all add: cstr_def c_text_def)

subsection \<open>Hexadecimal replies\<close>

text \<open>What a string of hexadecimal digits stands for, as the comment of \<open>string2hex\<close> has it, and what the
  arithmetic of \<open>string2hex\<close> makes of it.\<close>

definition hex_value :: "char \<Rightarrow> byte" where
  "hex_value c = (if c \<in> set ''0123456789'' then of_char c - of_char CHR ''0''
     else if c \<in> set ''ABCDEF'' then of_char c - of_char CHR ''A'' + 10 else of_char c - of_char CHR ''a'' + 10)"

definition hex_bytes :: "string \<Rightarrow> byte list" where
  "hex_bytes r = map (\<lambda>i. 16 * hex_value (r ! (2 * i)) + hex_value (r ! (2 * i + 1))) [0..<length r div 2]"

lemma hex_bytes_comment: "hex_bytes ''123456abcd'' = [0x12, 0x34, 0x56, 0xab, 0xcd]"
  by (simp add: hex_bytes_def hex_value_def upt_rec)

definition hexed :: "string \<Rightarrow> byte list" where
  "hexed r = map (\<lambda>i. hex_pair (of_char (r ! (2 * i))) (of_char (r ! (2 * i + 1)))) [0..<length r div 2]"

lemma hexed_length [simp]: "length (hexed r) = length r div 2"
  by (simp add: hexed_def)

lemma set_all:
  "n \<le> length xs \<Longrightarrow> for_each [0..<n] (\<lambda>i xs. arr_set xs i (f i)) xs = Some (map f [0..<n] @ drop n xs)"
proof (induction n)
  case (Suc n)
  then have "drop n xs = xs ! n # drop (Suc n) xs"
    by (simp add: Cons_nth_drop_Suc)
  then show ?case
    using Suc by (simp add: for_each_append arr_set_def list_update_append)
qed simp

lemma string2hex_result:
  assumes "length src \<le> length dest"
  shows "\<exists>out. string2hex src (length src) dest h w = Some out \<and> length out = length dest \<and>
    take (length src div 2) out = hexed src \<and> drop (length src) out = drop (length src) dest"
proof -
  let ?f = "\<lambda>i. hex_pair (lit_at src (2 * i) h w) (lit_at src (2 * i + 1) h w)"
  have "string2hex src (length src) dest h w = Some (map ?f [0..<length src] @ drop (length src) dest)"
    using set_all [of "length src" dest ?f] assms by (simp add: string2hex_def)
  moreover have "take (length src div 2) (map ?f [0..<length src]) = hexed src"
  proof (intro nth_equalityI)
    fix i assume "i < length (take (length src div 2) (map ?f [0..<length src]))"
    then have "i < length src div 2" by simp
    then have "2 * i + 1 < length src" "i < length src" by linarith+
    then show "take (length src div 2) (map ?f [0..<length src]) ! i = hexed src ! i"
      using \<open>i < length src div 2\<close> by (simp add: hexed_def lit_at_def)
  qed simp
  ultimately show ?thesis
    using assms by (intro exI [of _ "map ?f [0..<length src] @ drop (length src) dest"]) simp
qed

definition digit :: "char \<Rightarrow> bool" where
  "digit c \<longleftrightarrow> c \<in> set ''0123456789''"

definition decimal :: "string \<Rightarrow> bool" where
  "decimal r \<longleftrightarrow> list_all digit r"

lemma digits: "digit CHR ''0''" "digit CHR ''1''" "digit CHR ''2''" "digit CHR ''3''" "digit CHR ''4''"
  "digit CHR ''5''" "digit CHR ''6''" "digit CHR ''7''" "digit CHR ''8''" "digit CHR ''9''"
  by (simp_all add: digit_def)

lemma hex_pair_decimal:
  assumes "digit c" and "digit d"
  shows "hex_pair (of_char c) (of_char d) = 16 * hex_value c + hex_value d"
  using assms by (auto simp: digit_def hex_pair_def hex_value_def)

lemma hexed_decimal:
  assumes "decimal r"
  shows "hexed r = hex_bytes r"
  unfolding hexed_def hex_bytes_def
proof (rule map_cong [OF refl])
  fix i assume "i \<in> set [0..<length r div 2]"
  then have "2 * i < length r" "2 * i + 1 < length r" by auto
  then show "hex_pair (of_char (r ! (2 * i))) (of_char (r ! (2 * i + 1))) =
      16 * hex_value (r ! (2 * i)) + hex_value (r ! (2 * i + 1))"
    using assms by (intro hex_pair_decimal) (simp_all add: decimal_def list_all_length)
qed

text \<open>A hexadecimal reply made of decimal digits is decoded correctly: every pair of digits gives the
  byte it stands for. The loop runs as many rounds as there are digits, so it reads past the literal
  and overwrites as many bytes again behind the result, but nothing beyond the length of the literal.\<close>

theorem string2hex_decimal:
  assumes "decimal src" and "length src \<le> length dest"
  shows "\<exists>out. string2hex src (length src) dest h w = Some out \<and> length out = length dest \<and>
    take (length src div 2) out = hex_bytes src \<and> drop (length src) out = drop (length src) dest"
  using string2hex_result [OF assms(2)] hexed_decimal [OF assms(1)] by simp

theorem string2hex_decimal_witness:
  "\<exists>out. string2hex ''0273'' (length ''0273'') (replicate 6 9) quiet_env world_init = Some out \<and> length out = length (replicate 6 (9 :: byte)) \<and>
    take (length ''0273'' div 2) out = hex_bytes ''0273'' \<and>
    drop (length ''0273'') out = drop (length ''0273'') (replicate 6 9)"
  by (rule string2hex_decimal) (simp_all add: decimal_def digits)

text \<open>Letters among the digits are not decoded: on the example of the function's own comment,
  ``123456abcd'', the last two bytes come out as 0x42 and 0x64 instead of 0xab and 0xcd.\<close>

theorem string2hex_letters_wrong:
  "\<exists>out. string2hex ''123456abcd'' 10 (replicate 10 0) h w = Some out \<and>
    take 5 out = [0x12, 0x34, 0x56, 0x42, 0x64]"
proof -
  have "hexed ''123456abcd'' = [0x12, 0x34, 0x56, 0x42, 0x64]"
    by (simp add: hexed_def hex_pair_def upt_rec)
  moreover have "length ''123456abcd'' = 10" "(10 :: nat) div 2 = 5"
    by simp_all
  ultimately show ?thesis
    using string2hex_result [of "''123456abcd''" "replicate 10 0" h w] by (metis length_replicate order_refl)
qed

subsection \<open>Replies as the client sees them\<close>

definition framed :: "string \<Rightarrow> byte list" where
  "framed r = [0x02] @ cstr r @ [0x03]"

definition able :: "env \<Rightarrow> byte \<Rightarrow> world \<Rightarrow> bool" where
  \<comment> \<open>the client keeps up and the socket has a transmit buffer of at least 2048 bytes\<close>
  "able h s w \<longleftrightarrow> client_ready h s 2048 \<and> length (send_buffer w) = 8448 \<and>
     (\<exists>mx. getIINCHIP_TxMAX s w = Some mx \<and> 2048 \<le> mx)"

definition replied :: "byte \<Rightarrow> world \<Rightarrow> world \<Rightarrow> byte list list \<Rightarrow> bool" where
  \<comment> \<open>the client has got these messages, and only the scratch buffer has changed besides\<close>
  "replied s w w' ms \<longleftrightarrow> (\<exists>evs sb. w' = (logged w evs)\<lparr>send_buffer := sb\<rparr> \<and> length sb = 8448 \<and>
     tx.sees evs (map (Pair (unat s)) ms))"

lemma replied_able: "able h s w \<Longrightarrow> replied s w w' ms \<Longrightarrow> able h s w'"
  by (auto simp: able_def replied_def getIINCHIP_TxMAX_def logged_def)

lemma replied_none: "able h s w \<Longrightarrow> replied s w w []"
  unfolding replied_def
  by (intro exI [of _ "[]"] exI [of _ "send_buffer w"]) (simp add: able_def tx.sees_Nil)

lemma replied_append:
  assumes "replied s a b xs" and "replied s b c ys"
  shows "replied s a c (xs @ ys)"
proof -
  obtain e1 s1 where 1: "b = (logged a e1)\<lparr>send_buffer := s1\<rparr>" "tx.sees e1 (map (Pair (unat s)) xs)"
    using assms(1) by (auto simp: replied_def)
  obtain e2 s2 where 2: "c = (logged b e2)\<lparr>send_buffer := s2\<rparr>" "length s2 = 8448" "tx.sees e2 (map (Pair (unat s)) ys)"
    using assms(2) by (auto simp: replied_def)
  have "c = (logged a (e1 @ e2))\<lparr>send_buffer := s2\<rparr>"
    by (simp add: 1 2 logged_def)
  then show ?thesis
    using 2(2) tx.sees_append [OF 1(2) 2(3)] unfolding replied_def by (metis map_append)
qed

lemma replied_for:
  assumes "\<And>i w. i \<in> set is \<Longrightarrow> able h s w \<Longrightarrow> \<exists>w'. f i w = Some w' \<and> replied s w w' (m i)"
    and "able h s w"
  shows "\<exists>w'. for_each is f w = Some w' \<and> replied s w w' (concat (map m is))"
  using assms
proof (induction "is" arbitrary: w)
  case Nil
  then show ?case using replied_none by simp
next
  case (Cons i "is")
  obtain w1 where w1: "f i w = Some w1" "replied s w w1 (m i)"
    using Cons.prems by (meson list.set_intros(1))
  obtain w2 where "for_each is f w1 = Some w2" "replied s w1 w2 (concat (map m is))"
    using Cons.IH [of w1] Cons.prems replied_able [OF Cons.prems(2) w1(2)] by auto
  then show ?case using w1 replied_append by auto
qed

lemma send_replied:
  assumes "able h s w" and "length sb = 8448" and "0 < n" and "n \<le> 2048"
  shows "\<exists>w'. send s sb (word_of_nat n) h (w\<lparr>send_buffer := sb\<rparr>) = Some (word_of_nat n, w') \<and>
    replied s w w' [take n sb]"
proof -
  let ?w = "w\<lparr>send_buffer := sb\<rparr>"
  obtain mx where mx: "getIINCHIP_TxMAX s ?w = Some mx" "2048 \<le> mx"
    using assms(1) by (auto simp: able_def getIINCHIP_TxMAX_def)
  have n: "unat (word_of_nat n :: half) = n" "word_of_nat n \<le> (2048 :: half)" "(word_of_nat n :: half) \<noteq> 0"
    using assms(3,4) by (simp_all add: unat_of_nat word_le_nat_alt word_unat_eq_iff)
  obtain evs where "send s sb (word_of_nat n) h ?w = Some (word_of_nat n, logged ?w evs)"
      "tx.sees evs [(unat s, take n sb)]"
    using send_delivers [of h s 2048 ?w mx "word_of_nat n" sb] assms n mx order_trans [OF n(2) mx(2)]
    by (auto simp: able_def)
  then show ?thesis
    unfolding replied_def
    by (intro exI [of _ "logged ?w evs"] conjI exI [of _ evs] exI [of _ sb]) (simp_all add: assms(2) logged_def)
qed

lemma send_ascii_replied:
  assumes "able h s w" and "length r \<le> 2000"
  shows "\<exists>w'. send_ascii s r h w = Some w' \<and> replied s w w' [framed r]"
proof -
  let ?n = "length r"
  have len: "length (send_buffer w) = 8448" using assms(1) by (simp add: able_def)
  define sb where "sb = ((take 1 (send_buffer w) @ cstr r @ drop (1 + ?n) (send_buffer w))[0 := 2])[?n + 1 := 3]"
  obtain b0 bs where "send_buffer w = b0 # bs" using len by (cases "send_buffer w") auto
  moreover obtain b1 rest where "bs = b1 # rest" using len calculation by (cases bs) auto
  ultimately have buf: "send_buffer w = b0 # b1 # rest" by simp
  have "drop ?n (b1 # rest) \<noteq> []" using len assms(2) buf by simp
  then obtain c rest' where drop: "drop ?n (b1 # rest) = c # rest'" by (meson list.exhaust)
  have sb: "sb = [2] @ cstr r @ [3] @ rest'"
    by (simp add: sb_def buf drop list_update_append)
  have "length sb = 8448" using len assms(2) by (simp add: sb_def)
  moreover have "take (?n + 2) sb = framed r"
    by (simp add: sb framed_def)
  ultimately obtain w' where w': "send s sb (word_of_nat (?n + 2)) h (w\<lparr>send_buffer := sb\<rparr>) = Some (word_of_nat (?n + 2), w')"
      "replied s w w' [framed r]"
    using send_replied [OF assms(1), of sb "?n + 2"] assms(2) by auto
  have "send_ascii s r h w = Some w'"
    using w'(1) len assms(2) by (simp add: send_ascii_def blit_def arr_set_def Let_def sb_def)
  then show ?thesis using w'(2) by blast
qed

lemma send_hex_replied:
  assumes "able h s w" and "length r \<le> 4096" and "2 \<le> length r"
  shows "\<exists>w'. send_hex s r h w = Some w' \<and> replied s w w' [hexed r]"
proof -
  have "length r \<le> length (send_buffer w)" "length (send_buffer w) = 8448"
    using assms by (simp_all add: able_def)
  then obtain sb where sb: "string2hex r (length r) (send_buffer w) h w = Some sb" "length sb = 8448"
      "take (length r div 2) sb = hexed r"
    using string2hex_result [of r "send_buffer w" h w] by auto
  then obtain w' where "send s sb (word_of_nat (length r div 2)) h (w\<lparr>send_buffer := sb\<rparr>) = Some (word_of_nat (length r div 2), w')"
      "replied s w w' [hexed r]"
    using send_replied [OF assms(1) sb(2), of "length r div 2"] div_le_mono [OF assms(2), of 2]
      div_le_mono [OF assms(3), of 2] by auto
  then show ?thesis using sb(1) by (auto simp: send_hex_def)
qed

lemma sends_replied:
  assumes "\<forall>i \<in> set is. length (tab ! i) \<le> 2000" and "able h s w"
  shows "\<exists>w'. for_each is (\<lambda>i. send_ascii s (tab ! i) h) w = Some w' \<and>
    replied s w w' (map (\<lambda>i. framed (tab ! i)) is)"
proof -
  have "\<exists>w'. for_each is (\<lambda>i. send_ascii s (tab ! i) h) w = Some w' \<and>
      replied s w w' (concat (map (\<lambda>i. [framed (tab ! i)]) is))"
    by (rule replied_for [OF _ assms(2)]) (use assms(1) send_ascii_replied in blast)
  moreover have "concat (map (\<lambda>i. [framed (tab ! i)]) is) = map (\<lambda>i. framed (tab ! i)) is"
    by (induction "is") auto
  ultimately show ?thesis by simp
qed

lemma sends_hex_replied:
  assumes "\<forall>i \<in> set is. length (tab ! i) \<le> 4096 \<and> 2 \<le> length (tab ! i)" and "able h s w"
  shows "\<exists>w'. for_each is (\<lambda>i. send_hex s (tab ! i) h) w = Some w' \<and>
    replied s w w' (map (\<lambda>i. hexed (tab ! i)) is)"
proof -
  have "\<exists>w'. for_each is (\<lambda>i. send_hex s (tab ! i) h) w = Some w' \<and>
      replied s w w' (concat (map (\<lambda>i. [hexed (tab ! i)]) is))"
    by (rule replied_for [OF _ assms(2)]) (use assms(1) send_hex_replied in blast)
  moreover have "concat (map (\<lambda>i. [hexed (tab ! i)]) is) = map (\<lambda>i. hexed (tab ! i)) is"
    by (induction "is") auto
  ultimately show ?thesis by simp
qed

lemma begins_telegram:
  assumes "c_text lit" and "of_char CHR 0x03 \<notin> set (cstr lit)"
  shows "begins (cstr r @ 3 # rest) lit = Some (prefix lit r)"
proof -
  have *: "strncmp_eq (xs @ 3 # rest) (ys @ [0]) (length ys) = Some (prefix ys xs)"
    if "0 \<notin> set ys" "3 \<notin> set ys" for xs ys :: "byte list"
    using that
  proof (induction ys arbitrary: xs)
    case (Cons y ys)
    then show ?case by (cases xs) auto
  qed simp
  have "(of_char CHR 0x03 :: byte) = 3" by simp
  then have "begins (cstr r @ 3 # rest) lit = Some (prefix (cstr lit) (cstr r))"
    unfolding begins_def using * [of "cstr lit" "cstr r"] c_text_bytes [OF assms(1)] assms(2) by simp
  moreover have "prefix (cstr lit) (cstr r) = prefix lit r"
    by (auto simp: prefix_def cstr_def of_char_byte append_eq_map_conv map_eq_append_conv dest: map_injective
        simp flip: map_append) (metis append_eq_map_conv cstr_def cstr_inj)
  ultimately show ?thesis by simp
qed

definition reply_with :: "(string \<Rightarrow> byte list) \<Rightarrow> bool \<Rightarrow> byte \<Rightarrow> string \<Rightarrow> string \<Rightarrow> byte list list" where
  \<comment> \<open>the messages for the request \<open>q\<close> with table reply \<open>r\<close>, by a decoding of hexadecimal strings: an ASCII
    reply goes out between start and end byte, a hexadecimal one as its bytes, with nothing added\<close>
  "reply_with dec upd flag q r =
     (if prefix ''sMI 0 3 F4724744'' q
      then map framed (if upd then sMI_0_3_F4724744_stop else sMI_0_3_F4724744_start)
      else if prefix ''sMI 2'' q
      then (if flag = 1 then map framed sMI_reply else [framed (sMI_reply ! 0)])
      else if take 1 r = ''0'' then [dec r] else [framed r]) @
     (if prefix ''sRI E6'' q then map dec sRI_E6_reply
      else if prefix ''sRI 15B'' q then [dec sRI_15B_reply]
      else if prefix ''sRI 1DC'' q then [dec sRI_1DC_reply] else [])"

definition reply_messages :: "bool \<Rightarrow> byte \<Rightarrow> string \<Rightarrow> string \<Rightarrow> byte list list" where
  \<comment> \<open>what the client has to get: hexadecimal replies are what their digits stand for\<close>
  "reply_messages = reply_with hex_bytes"

text \<open>All hexadecimal replies but one consist of decimal digits.\<close>

lemma hex_rows:
  "list_all2 (\<lambda>q r. take 1 r = ''0'' \<longrightarrow> decimal r \<or> q = ''sRI 187'') tim561_index_0 tim561_respons_0"
  "list_all2 (\<lambda>q r. take 1 r = ''0'' \<longrightarrow> decimal r \<or> q = ''sRI 187'') tim561_index_1 tim561_respons_1"
  "list_all2 (\<lambda>q r. take 1 r = ''0'' \<longrightarrow> decimal r \<or> q = ''sRI 187'') tim561_index_2 tim561_respons_2"
  "list_all2 (\<lambda>q r. take 1 r = ''0'' \<longrightarrow> decimal r \<or> q = ''sRI 187'') tim561_index_3 tim561_respons_3"
  "list_all2 (\<lambda>q r. take 1 r = ''0'' \<longrightarrow> decimal r \<or> q = ''sRI 187'') tim561_index_4 tim561_respons_4"
  "list_all2 (\<lambda>q r. take 1 r = ''0'' \<longrightarrow> decimal r \<or> q = ''sRI 187'') tim561_index_5 tim561_respons_5"
  "list_all2 (\<lambda>q r. take 1 r = ''0'' \<longrightarrow> decimal r \<or> q = ''sRI 187'') tim561_index_6 tim561_respons_6"
        apply (simp add: decimal_def digits tim561_index_0_def tim561_respons_0_def)
       apply (simp add: decimal_def digits tim561_index_1_def tim561_respons_1_def)
      apply (simp add: decimal_def digits tim561_index_2_def tim561_respons_2_def)
     apply (simp add: decimal_def digits tim561_index_3_def tim561_respons_3_def)
    apply (simp add: decimal_def digits tim561_index_4_def tim561_respons_4_def)
   apply (simp add: decimal_def digits tim561_index_5_def tim561_respons_5_def)
  apply (simp add: decimal_def digits tim561_index_6_def tim561_respons_6_def)
  done

lemma piece_decimal: "decimal sRI_E6_reply_0" "decimal sRI_E6_reply_1" "decimal sRI_E6_reply_2"
  "decimal sRI_E6_reply_3" "decimal sRI_E6_reply_4" "decimal sRI_15B_reply" "decimal sRI_1DC_reply"
        apply (simp only: decimal_def list.pred_inject digits simp_thms sRI_E6_reply_0_def)
       apply (simp only: decimal_def list.pred_inject digits simp_thms sRI_E6_reply_1_def)
      apply (simp only: decimal_def list.pred_inject digits simp_thms sRI_E6_reply_2_def)
     apply (simp only: decimal_def list.pred_inject digits simp_thms sRI_E6_reply_3_def)
    apply (simp only: decimal_def list.pred_inject digits simp_thms sRI_E6_reply_4_def)
   apply (simp only: decimal_def list.pred_inject digits simp_thms sRI_15B_reply_def)
  apply (simp only: decimal_def list.pred_inject digits simp_thms sRI_1DC_reply_def)
  done

lemma long_replies_decimal: "\<forall>r \<in> set sRI_E6_reply. decimal r" "decimal sRI_15B_reply" "decimal sRI_1DC_reply"
  by (simp_all add: piece_decimal sRI_E6_reply_def)

lemma reply_decoded:
  assumes "pos < 572" and "tim561_index ! pos = q" and "q \<noteq> ''sRI 187''"
  shows "reply_with hexed upd flag q (tim561_respons ! pos) = reply_messages upd flag q (tim561_respons ! pos)"
proof -
  have "list_all2 (\<lambda>q r. take 1 r = ''0'' \<longrightarrow> decimal r \<or> q = ''sRI 187'') tim561_index tim561_respons"
    unfolding tim561_index_def tim561_respons_def by (intro list_all2_appendI hex_rows)
  then have "take 1 (tim561_respons ! pos) = ''0'' \<longrightarrow> decimal (tim561_respons ! pos)"
    using assms tim561_lengths by (auto simp: list_all2_conv_all_nth)
  then have "take 1 (tim561_respons ! pos) = ''0'' \<Longrightarrow> hexed (tim561_respons ! pos) = hex_bytes (tim561_respons ! pos)"
    by (simp add: hexed_decimal)
  moreover have "map hexed sRI_E6_reply = map hex_bytes sRI_E6_reply"
    using long_replies_decimal(1) by (simp add: hexed_decimal)
  ultimately show ?thesis
    by (simp add: reply_messages_def reply_with_def hexed_decimal long_replies_decimal(2,3))
qed

text \<open>The exception: the reply to ``sRI 187'' has a line feed, written 0a, and the client gets 0x31 there.\<close>

theorem reply_187_wrong:
  "\<exists>pos k. pos < 572 \<and> tim561_index ! pos = ''sRI 187'' \<and> k < length (hex_bytes (tim561_respons ! pos)) \<and>
    hex_bytes (tim561_respons ! pos) ! k = 0x0a \<and> hexed (tim561_respons ! pos) ! k = 0x31"
proof -
  have len: "length tim561_index_0 = 148" "length tim561_index_1 = 93" "length tim561_index_2 = 150" "length tim561_index_3 = 130"
    "length tim561_respons_0 = 148" "length tim561_respons_1 = 93" "length tim561_respons_2 = 150" "length tim561_respons_3 = 130"
    by (simp_all add: tim561_index_0_def tim561_index_1_def tim561_index_2_def tim561_index_3_def
        tim561_respons_0_def tim561_respons_1_def tim561_respons_2_def tim561_respons_3_def)
  have at: "tim561_index ! 541 = ''sRI 187''" "tim561_respons ! 541 = tim561_respons_4 ! 20"
    by (simp_all add: tim561_index_def tim561_respons_def nth_append len) (simp_all add: tim561_index_4_def tim561_respons_4_def)
  have "70 < length (tim561_respons_4 ! 20) div 2" "tim561_respons_4 ! 20 ! 140 = CHR ''0''" "tim561_respons_4 ! 20 ! 141 = CHR ''a''"
    by (simp_all add: tim561_respons_4_def)
  then show ?thesis
    by (intro exI [of _ 541] exI [of _ 70]) (simp add: at hex_bytes_def hexed_def hex_value_def hex_pair_def)
qed

definition after_request :: "string \<Rightarrow> bool \<times> byte \<Rightarrow> bool \<times> byte" where
  \<comment> \<open>the stream switch and the measurement flag after a request\<close>
  "after_request q st = (case st of (upd, flag) \<Rightarrow>
     (if prefix ''sMI 2'' q then flag = 1 else upd,
      if prefix ''sMI 3E'' q then 1 else if prefix ''sMI 3F'' q then 0 else flag))"

lemma silent_put_word: "keeps silent (put_word d h)"
  unfolding keeps_def silent_def
  by (auto simp: put_word_def fifo_write_result logged_def tx.sees_def intro!: exI)

lemma silent_data_packet: "keeps silent (nios2fpga_data_packet c l src h)"
  unfolding nios2fpga_data_packet_def nios2fpga_data_write_def Let_def
  by (intro si.keeps_intros si.keeps_pure si.keepsv_pure silent_put_word)

lemma set_laser_silent:
  "\<exists>evs. set_laser_paramter c d h w = Some (logged (w\<lparr>Nios2FPGA_pck := ucast (ucast c :: half)\<rparr>) evs) \<and> tx.sees evs []"
proof -
  let ?w = "w\<lparr>Nios2FPGA_pck := ucast (ucast c :: half)\<rparr>"
  obtain w' where w': "set_laser_paramter c d h w = Some w'"
    using set_laser_total by blast
  then have "nios2fpga_data_packet (ucast (Nios2FPGA_pck ?w)) 1 [d] h ?w = Some w'"
    by (simp add: set_laser_paramter_def Let_def)
  then obtain evs where "w' = logged ?w evs" "tx.sees evs []"
    using keepsD [OF silent_data_packet] silentD by blast
  then show ?thesis using w' by blast
qed

subsection \<open>One request\<close>

lemma lit_facts:
  "c_text ''sMI 0 3 F4724744''" "c_text ''sMI 2''" "c_text ''sMI 3E''" "c_text ''sMI 3F''"
  "c_text ''sRI E6''" "c_text ''sRI 15B''" "c_text ''sRI 1DC''"
  by (simp_all add: c_text_def)

lemma begins_lits:
  "begins (cstr q @ 3 # rest) ''sMI 0 3 F4724744'' = Some (prefix ''sMI 0 3 F4724744'' q)"
  "begins (cstr q @ 3 # rest) ''sMI 2'' = Some (prefix ''sMI 2'' q)"
  "begins (cstr q @ 3 # rest) ''sMI 3E'' = Some (prefix ''sMI 3E'' q)"
  "begins (cstr q @ 3 # rest) ''sMI 3F'' = Some (prefix ''sMI 3F'' q)"
  "begins (cstr q @ 3 # rest) ''sRI E6'' = Some (prefix ''sRI E6'' q)"
  "begins (cstr q @ 3 # rest) ''sRI 15B'' = Some (prefix ''sRI 15B'' q)"
  "begins (cstr q @ 3 # rest) ''sRI 1DC'' = Some (prefix ''sRI 1DC'' q)"
  by (rule begins_telegram, simp add: c_text_def, simp add: cstr_def)+

lemma upto_small: "[0..<2] = [0, 1]" "[0..<4] = [0, 1, 2, 3]" "[0..<5] = [0, 1, 2, 3, 4]"
  "[0..<11] = [0, 1, 2, 3, 4, 5, 6, 7, 8, 9, 10]"
  by code_simp+

lemma map_nth_upto: "length tab = n \<Longrightarrow> map (\<lambda>i. f (tab ! i)) [0..<n] = map f tab"
  by (rule nth_equalityI) simp_all

lemma table_replied:
  assumes "able h s w" and "pos < 572"
  shows "\<exists>w'. table_reply s (tim561_respons ! pos) h w = Some w' \<and>
    replied s w w' (if take 1 (tim561_respons ! pos) = ''0'' then [hexed (tim561_respons ! pos)] else [framed (tim561_respons ! pos)])"
proof -
  let ?r = "tim561_respons ! pos"
  have ok: "reply_ok ?r"
    using reply_ok_all assms(2) tim561_lengths by (simp add: list_all_length)
  then have long: "2 \<le> length ?r" by (simp add: reply_ok_def)
  then obtain c cs where r: "?r = c # cs" by (cases ?r) auto
  have l0: "lit_at ?r 0 h w = of_char c" by (simp add: lit_at_def r)
  have z: "(of_char CHR ''0'' :: byte) = 0x30" "(of_char CHR ''s'' :: byte) = 0x73" by simp_all
  show ?thesis
  proof (cases "c = CHR ''0''")
    case True
    then have "take 1 ?r = ''0''" "length ?r \<le> 4096" using ok r by (auto simp: reply_ok_def)
    then show ?thesis
      using send_hex_replied [OF assms(1) _ long] l0 True z by (simp add: table_reply_def)
  next
    case False
    then have "c = CHR ''s''" "take 1 ?r \<noteq> ''0''" "length ?r \<le> 2000" using ok r by (auto simp: reply_ok_def)
    then show ?thesis
      using send_ascii_replied [OF assms(1), of ?r] l0 z of_char_byte [of "CHR ''s''" "CHR ''0''"]
      by (simp add: table_reply_def)
  qed
qed

lemma answer_result:
  assumes ok: "able h s w" and pos: "pos < 572"
  shows "\<exists>en w'. answer_request s (cstr q @ 3 # rest) pos h w = Some (en, w') \<and>
    replied s w w'
      (if prefix ''sMI 0 3 F4724744'' q
       then map framed (if update_pos_flag (SysPara w) then sMI_0_3_F4724744_stop else sMI_0_3_F4724744_start)
       else if prefix ''sMI 2'' q
       then (if sMI_3E_flag w = 1 then map framed sMI_reply else [framed (sMI_reply ! 0)])
       else if take 1 (tim561_respons ! pos) = ''0'' then [hexed (tim561_respons ! pos)]
       else [framed (tim561_respons ! pos)]) \<and>
    en = (if prefix ''sMI 2'' q then if sMI_3E_flag w = 1 then 1 else 2 else 0)"
proof -
  have excl: "\<not> prefix ''sMI 2'' q" if "prefix ''sMI 0 3 F4724744'' q"
    using that by (auto simp: prefix_def)
  have tab: "\<exists>w'. for_each [0..<length tab] (\<lambda>i. send_ascii s (tab ! i) h) w = Some w' \<and> replied s w w' (map framed tab)"
    if "tab \<in> {sMI_0_3_F4724744_start, sMI_0_3_F4724744_stop, sMI_reply}" for tab
  proof -
    have "\<forall>i \<in> set [0..<length tab]. length (tab ! i) \<le> 2000"
      using that sequence_tables(4) nth_mem [of _ tab] by auto
    from sends_replied [OF this ok] show ?thesis by (simp add: map_nth_upto)
  qed
  have first: "\<exists>w'. send_ascii s (sMI_reply ! 0) h w = Some w' \<and> replied s w w' [framed (sMI_reply ! 0)]"
    using send_ascii_replied [OF ok] sequence_tables(3,4) nth_mem [of 0 sMI_reply] by auto
  have row: "\<exists>w'. table_reply s (tim561_respons ! pos) h w = Some w' \<and> replied s w w'
      (if take 1 (tim561_respons ! pos) = ''0'' then [hexed (tim561_respons ! pos)] else [framed (tim561_respons ! pos)])"
    by (rule table_replied [OF ok pos])
  show ?thesis
    unfolding answer_request_def begins_lits
    using tab [of sMI_0_3_F4724744_start] tab [of sMI_0_3_F4724744_stop] tab [of sMI_reply] first row excl
    by (auto simp: sequence_tables(1-3))
qed

lemma extra_result:
  assumes ok: "able h s w"
  shows "\<exists>w'. extra_reply s (cstr q @ 3 # rest) h w = Some w' \<and>
    replied s w w' (if prefix ''sRI E6'' q then map hexed sRI_E6_reply
      else if prefix ''sRI 15B'' q then [hexed sRI_15B_reply]
      else if prefix ''sRI 1DC'' q then [hexed sRI_1DC_reply] else [])"
proof -
  have "\<forall>i \<in> set [0..<5]. length (sRI_E6_reply ! i) \<le> 4096 \<and> 2 \<le> length (sRI_E6_reply ! i)"
    using sRI_E6_table nth_mem [of _ sRI_E6_reply] by auto
  from sends_hex_replied [OF this ok]
  have "\<exists>w'. for_each [0..<5] (\<lambda>i. send_hex s (sRI_E6_reply ! i) h) w = Some w' \<and> replied s w w' (map hexed sRI_E6_reply)"
    using map_nth_upto [OF sRI_E6_table(1), of hexed] by simp
  then show ?thesis
    unfolding extra_reply_def begins_lits
    using send_hex_replied [OF ok sRI_replies(1,2)] send_hex_replied [OF ok sRI_replies(3,4)] replied_none [OF ok]
    by (cases "prefix ''sRI E6'' q"; cases "prefix ''sRI 15B'' q"; cases "prefix ''sRI 1DC'' q") simp_all
qed

lemma note_result:
  "note_measure (cstr q @ 3 # rest) w = Some (w\<lparr>sMI_3E_flag :=
     if prefix ''sMI 3E'' q then 1 else if prefix ''sMI 3F'' q then 0 else sMI_3E_flag w\<rparr>)"
  by (simp add: note_measure_def begins_lits)

lemma enable_result:
  "\<exists>evs c. apply_enable en h w = Some (w\<lparr>trace := trace w @ evs, Nios2FPGA_pck := c,
      SysPara := (SysPara w)\<lparr>update_pos_flag := if en = 1 then True else if en = 2 then False else update_pos_flag (SysPara w)\<rparr>\<rparr>) \<and>
    tx.sees evs []"
proof -
  obtain e1 where "set_laser_paramter UPLOAD_EN ENABLE h w = Some (logged (w\<lparr>Nios2FPGA_pck := ucast (ucast UPLOAD_EN :: half)\<rparr>) e1)" "tx.sees e1 []"
    using set_laser_silent by blast
  moreover obtain e2 where "set_laser_paramter UPLOAD_EN DISABLE h w = Some (logged (w\<lparr>Nios2FPGA_pck := ucast (ucast UPLOAD_EN :: half)\<rparr>) e2)" "tx.sees e2 []"
    using set_laser_silent by blast
  ultimately consider (on) "en = 1" | (off) "en = 2" | (keep) "en \<noteq> 1" "en \<noteq> 2" by blast
  then show ?thesis
  proof cases
    case on
    then show ?thesis
      using \<open>set_laser_paramter UPLOAD_EN ENABLE h w = _\<close> \<open>tx.sees e1 []\<close>
      by (intro exI [of _ e1] exI [of _ "ucast (ucast UPLOAD_EN :: half)"]) (simp add: apply_enable_def logged_def)
  next
    case off
    then show ?thesis
      using \<open>set_laser_paramter UPLOAD_EN DISABLE h w = _\<close> \<open>tx.sees e2 []\<close>
      by (intro exI [of _ e2] exI [of _ "ucast (ucast UPLOAD_EN :: half)"]) (simp add: apply_enable_def logged_def)
  next
    case keep
    then show ?thesis
      by (intro exI [of _ "[]"] exI [of _ "Nios2FPGA_pck w"]) (simp add: apply_enable_def tx.sees_Nil)
  qed
qed

lemma request_found:
  assumes "q \<in> set tim561_index" and "length q < 2 ^ 32"
  shows "\<exists>pos. find_index (cstr q @ 3 # rest) (int (length q)) tim561_index = Some (int pos) \<and> pos < 572 \<and>
    tim561_index ! pos = q \<and> find_index_old q tim561_index = int pos"
proof -
  have "find_index (cstr q @ 3 # rest) (int (length q)) tim561_index = Some (find_index_old q tim561_index)"
    using find_index_from_exact [of "length q" "cstr q @ 3 # rest" q tim561_index 0] tim561_index_text assms(2)
    by (simp add: find_index_def find_index_old_def)
  moreover have "find_index_old q tim561_index \<noteq> -1"
    using find_old_from_absent [of 0 q tim561_index] assms(1) by (simp add: find_index_old_def)
  then have "0 \<le> find_index_old q tim561_index" "find_index_old q tim561_index < 572"
      "tim561_index ! nat (find_index_old q tim561_index) = q"
    using find_old_from_bounds [of 0 q tim561_index] tim561_lengths by (auto simp: find_index_old_def)
  ultimately show ?thesis
    by (intro exI [of _ "nat (find_index_old q tim561_index)"]) auto
qed

lemma request_answers:
  \<comment> \<open>the three parts of the handler before the stream is switched: the reply of the table, the flag, the extra replies\<close>
  assumes "able h s w" and "pos < 572"
  shows "\<exists>w1 w2 evs sb. answer_request s (cstr q @ 3 # rest) pos h w =
      Some (if prefix ''sMI 2'' q then if sMI_3E_flag w = 1 then 1 else 2 else 0, w1) \<and>
    note_measure (cstr q @ 3 # rest) w1 = Some w2 \<and>
    extra_reply s (cstr q @ 3 # rest) h w2 = Some (w\<lparr>trace := trace w @ evs, send_buffer := sb,
      sMI_3E_flag := snd (after_request q (update_pos_flag (SysPara w), sMI_3E_flag w))\<rparr>) \<and>
    tx.sees evs (map (Pair (unat s)) (reply_with hexed (update_pos_flag (SysPara w)) (sMI_3E_flag w) q (tim561_respons ! pos)))"
proof -
  define flag where "flag = snd (after_request q (update_pos_flag (SysPara w), sMI_3E_flag w))"
  define ms1 where "ms1 = (if prefix ''sMI 0 3 F4724744'' q
       then map framed (if update_pos_flag (SysPara w) then sMI_0_3_F4724744_stop else sMI_0_3_F4724744_start)
       else if prefix ''sMI 2'' q
       then (if sMI_3E_flag w = 1 then map framed sMI_reply else [framed (sMI_reply ! 0)])
       else if take 1 (tim561_respons ! pos) = ''0'' then [hexed (tim561_respons ! pos)]
       else [framed (tim561_respons ! pos)])"
  define ms2 where "ms2 = (if prefix ''sRI E6'' q then map hexed sRI_E6_reply
      else if prefix ''sRI 15B'' q then [hexed sRI_15B_reply]
      else if prefix ''sRI 1DC'' q then [hexed sRI_1DC_reply] else [])"
  obtain w1 where w1: "answer_request s (cstr q @ 3 # rest) pos h w =
      Some (if prefix ''sMI 2'' q then if sMI_3E_flag w = 1 then 1 else 2 else 0, w1)" "replied s w w1 ms1"
    using answer_result [OF assms, of q rest] unfolding ms1_def by blast
  obtain e1 s1 where e1: "w1 = (logged w e1)\<lparr>send_buffer := s1\<rparr>" "tx.sees e1 (map (Pair (unat s)) ms1)"
    using w1(2) by (auto simp: replied_def)
  let ?w2 = "w1\<lparr>sMI_3E_flag := flag\<rparr>"
  have nm: "note_measure (cstr q @ 3 # rest) w1 = Some ?w2"
    by (auto simp: note_result flag_def e1(1) logged_def after_request_def)
  have "able h s ?w2"
    using replied_able [OF assms(1) w1(2)] by (simp add: able_def getIINCHIP_TxMAX_def)
  then obtain w3 where w3: "extra_reply s (cstr q @ 3 # rest) h ?w2 = Some w3" "replied s ?w2 w3 ms2"
    using extra_result [of h s ?w2 q rest] unfolding ms2_def by blast
  obtain e2 s2 where e2: "w3 = (logged ?w2 e2)\<lparr>send_buffer := s2\<rparr>" "tx.sees e2 (map (Pair (unat s)) ms2)"
    using w3(2) by (auto simp: replied_def)
  have "tx.sees (e1 @ e2) (map (Pair (unat s)) (reply_with hexed (update_pos_flag (SysPara w)) (sMI_3E_flag w) q (tim561_respons ! pos)))"
    using tx.sees_append [OF e1(2) e2(2)] by (simp add: reply_with_def ms1_def ms2_def)
  moreover have "w3 = w\<lparr>trace := trace w @ e1 @ e2, send_buffer := s2, sMI_3E_flag := flag\<rparr>"
    by (simp add: e1(1) e2(1) logged_def layers field_order)
  ultimately show ?thesis using w1(1) nm w3(1) unfolding flag_def by blast
qed

text \<open>C4: a telegram with a known request: a client that keeps up receives exactly the messages the
  tables prescribe, in order: the table reply at the position of the request, or the sequence of one
  of the special requests, and the long replies in pieces. An ASCII reply is framed by start and end
  byte; a hexadecimal reply is sent as the bytes its digits stand for, with nothing added. The request
  ``sRI 187'' is left out: the digits of its reply contain a letter, which the driver decodes wrongly.
  The stream of measurements is switched on by ``sMI 2'' exactly while the measurement flag is set, which
  ``sMI 3E'' sets and ``sMI 3F'' clears. Besides the bus, the scratch buffer and the record of the last
  FPGA command nothing else changes.\<close>

theorem sick_request_answered:
  assumes "able h s w" and "q \<in> set tim561_index" and "length q < 2 ^ 32" and "q \<noteq> ''sRI 187''"
  shows "\<exists>pos evs sb c. pos < 572 \<and> tim561_index ! pos = q \<and> find_index_old q tim561_index = int pos \<and>
    sick_protocol_process s (2 # cstr q @ 3 # rest) (int (length q) + 2) h w =
      Some (w\<lparr>trace := trace w @ evs, send_buffer := sb, Nios2FPGA_pck := c,
        SysPara := (SysPara w)\<lparr>update_pos_flag := fst (after_request q (update_pos_flag (SysPara w), sMI_3E_flag w))\<rparr>,
        sMI_3E_flag := snd (after_request q (update_pos_flag (SysPara w), sMI_3E_flag w))\<rparr>) \<and>
    tx_log evs = map (Pair (unat s)) (reply_messages (update_pos_flag (SysPara w)) (sMI_3E_flag w) q (tim561_respons ! pos))"
proof -
  obtain pos where pos: "find_index (cstr q @ 3 # rest) (int (length q)) tim561_index = Some (int pos)"
      "pos < 572" "tim561_index ! pos = q" "find_index_old q tim561_index = int pos"
    using request_found [OF assms(2,3)] by blast
  define upd flag where "upd = fst (after_request q (update_pos_flag (SysPara w), sMI_3E_flag w))"
    and "flag = snd (after_request q (update_pos_flag (SysPara w), sMI_3E_flag w))"
  define en :: byte where "en = (if prefix ''sMI 2'' q then if sMI_3E_flag w = 1 then 1 else 2 else 0)"
  obtain w1 w2 e1 sb where w1: "answer_request s (cstr q @ 3 # rest) pos h w = Some (en, w1)"
      "note_measure (cstr q @ 3 # rest) w1 = Some w2"
      "extra_reply s (cstr q @ 3 # rest) h w2 = Some (w\<lparr>trace := trace w @ e1, send_buffer := sb, sMI_3E_flag := flag\<rparr>)"
      "tx.sees e1 (map (Pair (unat s)) (reply_with hexed (update_pos_flag (SysPara w)) (sMI_3E_flag w) q (tim561_respons ! pos)))"
    using request_answers [OF assms(1) pos(2), of q rest] unfolding en_def flag_def by blast
  let ?w3 = "w\<lparr>trace := trace w @ e1, send_buffer := sb, sMI_3E_flag := flag\<rparr>"
  obtain e2 c where e2: "apply_enable en h ?w3 = Some (?w3\<lparr>trace := trace ?w3 @ e2, Nios2FPGA_pck := c,
      SysPara := (SysPara ?w3)\<lparr>update_pos_flag := if en = 1 then True else if en = 2 then False else update_pos_flag (SysPara ?w3)\<rparr>\<rparr>)"
      "tx.sees e2 []"
    using enable_result by blast
  have "upd = (if en = 1 then True else if en = 2 then False else update_pos_flag (SysPara w))"
    by (auto simp: after_request_def en_def upd_def)
  then have "sick_protocol_process s (2 # cstr q @ 3 # rest) (int (length q) + 2) h w =
      Some (w\<lparr>trace := trace w @ (e1 @ e2), send_buffer := sb, Nios2FPGA_pck := c,
        SysPara := (SysPara w)\<lparr>update_pos_flag := upd\<rparr>, sMI_3E_flag := flag\<rparr>)"
    using pos(1) w1(1-3) e2(1) by (simp add: sick_protocol_process_def layers field_order)
  moreover have "tx_log (e1 @ e2) = map (Pair (unat s))
      (reply_messages (update_pos_flag (SysPara w)) (sMI_3E_flag w) q (tim561_respons ! pos))"
    by (rule sees_tx) (use tx.sees_append [OF w1(4) e2(2)] reply_decoded [OF pos(2,3) assms(4)] in simp)
  ultimately show ?thesis using pos(2-4) unfolding upd_def flag_def by blast
qed

theorem sick_request_answered_witness:
  "\<exists>pos evs sb c. pos < 572 \<and> tim561_index ! pos = ''sMI 3E'' \<and> find_index_old ''sMI 3E'' tim561_index = int pos \<and>
    sick_protocol_process 4 (2 # cstr ''sMI 3E'' @ 3 # []) (int (length ''sMI 3E'') + 2) (chip_env demo_regs)
        (world_init\<lparr>SSIZE := replicate 8 2048\<rparr>) =
      Some ((world_init\<lparr>SSIZE := replicate 8 2048\<rparr>)\<lparr>trace := trace (world_init\<lparr>SSIZE := replicate 8 2048\<rparr>) @ evs,
        send_buffer := sb, Nios2FPGA_pck := c,
        SysPara := (SysPara (world_init\<lparr>SSIZE := replicate 8 2048\<rparr>))\<lparr>update_pos_flag :=
          fst (after_request ''sMI 3E'' (update_pos_flag (SysPara (world_init\<lparr>SSIZE := replicate 8 2048\<rparr>)),
            sMI_3E_flag (world_init\<lparr>SSIZE := replicate 8 2048\<rparr>)))\<rparr>,
        sMI_3E_flag := snd (after_request ''sMI 3E'' (update_pos_flag (SysPara (world_init\<lparr>SSIZE := replicate 8 2048\<rparr>)),
            sMI_3E_flag (world_init\<lparr>SSIZE := replicate 8 2048\<rparr>)))\<rparr>) \<and>
    tx_log evs = map (Pair (unat (4 :: byte))) (reply_messages (update_pos_flag (SysPara (world_init\<lparr>SSIZE := replicate 8 2048\<rparr>)))
      (sMI_3E_flag (world_init\<lparr>SSIZE := replicate 8 2048\<rparr>)) ''sMI 3E'' (tim561_respons ! pos))"
proof (rule sick_request_answered)
  show "able (chip_env demo_regs) 4 (world_init\<lparr>SSIZE := replicate 8 2048\<rparr>)"
    using demo_client_ready by (simp add: able_def getIINCHIP_TxMAX_def world_init_def)
  show "''sMI 3E'' \<in> set tim561_index"
    by (simp add: tim561_index_def tim561_index_6_def)
qed simp_all

lemma find_index_from_unknown:
  assumes "n \<le> length str" and "n < 2 ^ 32" and "\<forall>r \<in> set arr. take n str \<noteq> cstr r" and "list_all c_text arr"
  shows "find_index_from i str (int n) arr = Some (-1)"
  using assms(3,4)
proof (induction arr arbitrary: i)
  case (Cons a as)
  have n: "unat (word_of_int (int n) :: uint) = n"
    using assms(2) by (simp add: unat_of_nat)
  obtain b where b: "strncmp_eq str (cstr a @ [0]) n = Some b"
    using strncmp_defined [of n str "cstr a"] assms(1) by auto
  have "\<not> (b \<and> length a = n)"
    using strncmp_same [of "cstr a" str] c_text_bytes [of a] Cons.prems b assms(1) by auto
  then show ?case using Cons b n by auto
qed simp

lemma find_index_from_negative:
  assumes "k < 0" and "\<forall>r \<in> set arr. length r < length str"
  shows "find_index_from i str k arr = Some (-1)"
  using assms(2)
proof (induction arr arbitrary: i)
  case (Cons a as)
  obtain b where "strncmp_eq str (cstr a @ [0]) (unat (word_of_int k :: uint)) = Some b"
    using strncmp_defined [of "unat (word_of_int k :: uint)" str "cstr a"] Cons.prems by auto
  then show ?case using Cons assms(1) by auto
qed simp

lemma index_entries_short: "list_all (\<lambda>r. length r < 1000) tim561_index"
  unfolding tim561_index_def
  by (simp add: tim561_index_0_def tim561_index_1_def tim561_index_2_def tim561_index_3_def tim561_index_4_def tim561_index_5_def tim561_index_6_def)

text \<open>C37: a telegram the tables do not know, or one too short to be a telegram, is ignored: nothing is
  sent and nothing changes. (A length below two turns into a huge unsigned bound for the comparison,
  which the lengths of the table entries still stop.)\<close>

theorem sick_unknown_ignored:
  assumes "len < 2 \<and> length buf > 2000 \<or>
    2 \<le> len \<and> len < 2 ^ 31 \<and> len \<le> int (length buf) + 1 \<and> take (nat len - 2) (drop 1 buf) \<notin> cstr ` set tim561_index"
  shows "sick_protocol_process s buf len h w = Some w"
proof -
  have "find_index (drop 1 buf) (len - 2) tim561_index = Some (-1)"
  proof (cases "len < 2")
    case True
    then show ?thesis
      unfolding find_index_def using assms index_entries_short [unfolded list_all_iff] True by (intro find_index_from_negative) fastforce+
  next
    case False
    then have n: "len - 2 = int (nat len - 2)" "nat len - 2 \<le> length (drop 1 buf)" "nat len - 2 < 2 ^ 32"
      using assms by auto
    have "find_index_from 0 (drop 1 buf) (int (nat len - 2)) tim561_index = Some (-1)"
      using assms False tim561_index_text by (intro find_index_from_unknown n(2,3)) auto
    then show ?thesis by (simp add: find_index_def n(1))
  qed
  then show ?thesis by (simp add: sick_protocol_process_def Let_def)
qed

theorem sick_unknown_ignored_witness:
  "sick_protocol_process 4 (2 # cstr ''hello'' @ [3]) 7 quiet_env world_init = Some world_init"
proof (rule sick_unknown_ignored)
  have "''hello'' \<notin> set tim561_index"
    unfolding tim561_index_def
    by (simp add: tim561_index_0_def tim561_index_1_def tim561_index_2_def tim561_index_3_def tim561_index_4_def tim561_index_5_def tim561_index_6_def)
  moreover have "take (nat 7 - 2) (drop 1 (2 # cstr ''hello'' @ [3])) = cstr ''hello''"
    by (simp add: cstr_def)
  ultimately have "take (nat 7 - 2) (drop 1 (2 # cstr ''hello'' @ [3])) \<notin> cstr ` set tim561_index"
    by (metis cstr_inj imageE)
  then show "7 < (2 :: int) \<and> length (2 # cstr ''hello'' @ [3]) > 2000 \<or>
    2 \<le> (7 :: int) \<and> 7 < (2 :: int) ^ 31 \<and> 7 \<le> int (length (2 # cstr ''hello'' @ [3])) + 1 \<and>
    take (nat 7 - 2) (drop 1 (2 # cstr ''hello'' @ [3])) \<notin> cstr ` set tim561_index"
    by simp
qed

subsection \<open>The position telegram\<close>

lemma packet_steps:
  \<comment> \<open>the copies of the telegram into the cleared buffer, one behind the other\<close>
  assumes "length F = 108" and "length R = 41" and "length E = 12" and "length d \<le> 4055" and "length g \<le> 4055"
    and pad: "163 + length d + length g + pad = 8448"
  shows "arr_set (replicate 8448 0) 0 2 = Some ([2] @ replicate 8447 (0 :: byte))"
    "blit ([2] @ replicate 8447 (0 :: byte)) 1 F = Some (([2] @ F) @ replicate 8339 0)"
    "blit (([2] @ F) @ replicate 8339 (0 :: byte)) (108 + 1) d = Some (([2] @ F @ d) @ replicate (8339 - length d) 0)"
    "blit (([2] @ F @ d) @ replicate (8339 - length d) (0 :: byte)) (108 + 1 + length d) R =
      Some (([2] @ F @ d @ R) @ replicate (8298 - length d) 0)"
    "blit (([2] @ F @ d @ R) @ replicate (8298 - length d) (0 :: byte)) (108 + 1 + length d + 41) g =
      Some (([2] @ F @ d @ R @ g) @ replicate (8298 - length d - length g) 0)"
    "blit (([2] @ F @ d @ R @ g) @ replicate (8298 - length d - length g) (0 :: byte)) (108 + 1 + length d + 41 + length g) E =
      Some (([2] @ F @ d @ R @ g @ E) @ replicate (Suc pad) 0)"
    "arr_set (([2] @ F @ d @ R @ g @ E) @ replicate (Suc pad) (0 :: byte)) (108 + 1 + length d + 41 + length g + 12) 3 =
      Some ([2] @ F @ d @ R @ g @ E @ [3] @ replicate pad 0)"
proof -
  have append: "blit (xs @ replicate n (0 :: byte)) m ys = Some ((xs @ ys) @ replicate k 0)"
    if "length ys \<le> n" "m = length xs" "k = n - length ys" for xs ys and n m k
    using that by (simp add: blit_def)
  have "replicate 8448 (0 :: byte) = 0 # replicate 8447 0"
    by (simp add: numeral_eq_Suc flip: replicate_Suc)
  then show "arr_set (replicate 8448 0) 0 2 = Some ([2] @ replicate 8447 (0 :: byte))" by (simp add: arr_set_def)
  show "blit ([2] @ replicate 8447 (0 :: byte)) 1 F = Some (([2] @ F) @ replicate 8339 0)"
    "blit (([2] @ F) @ replicate 8339 (0 :: byte)) (108 + 1) d = Some (([2] @ F @ d) @ replicate (8339 - length d) 0)"
    "blit (([2] @ F @ d) @ replicate (8339 - length d) (0 :: byte)) (108 + 1 + length d) R =
      Some (([2] @ F @ d @ R) @ replicate (8298 - length d) 0)"
    "blit (([2] @ F @ d @ R) @ replicate (8298 - length d) (0 :: byte)) (108 + 1 + length d + 41) g =
      Some (([2] @ F @ d @ R @ g) @ replicate (8298 - length d - length g) 0)"
    using assms by (subst append; simp)+
  show "blit (([2] @ F @ d @ R @ g) @ replicate (8298 - length d - length g) (0 :: byte)) (108 + 1 + length d + 41 + length g) E =
      Some (([2] @ F @ d @ R @ g @ E) @ replicate (Suc pad) 0)"
    using assms by (subst append [where k = "Suc pad"]; simp)
  show "arr_set (([2] @ F @ d @ R @ g @ E) @ replicate (Suc pad) (0 :: byte)) (108 + 1 + length d + 41 + length g + 12) 3 =
      Some ([2] @ F @ d @ R @ g @ E @ [3] @ replicate pad 0)"
    using assms by (simp add: arr_set_def list_update_append)
qed

lemma pos_packet_result:
  assumes "length (distance_data (CycleData w)) = TARGET_NUMBER * 5" and "length (gray_data (CycleData w)) = TARGET_NUMBER * 5"
    and "unat (distance_len (CycleData w)) \<le> TARGET_NUMBER * 5" and "unat (gray_len (CycleData w)) \<le> TARGET_NUMBER * 5"
  shows "\<exists>pad. sick_pos_packet w = Some (w\<lparr>send_buffer :=
      [0x02] @ cstr frame_start @ take (unat (distance_len (CycleData w))) (distance_data (CycleData w)) @
      cstr RSSI_Field_start @ take (unat (gray_len (CycleData w))) (gray_data (CycleData w)) @
      cstr RSSI_Field_end @ [0x03] @ replicate pad 0\<rparr>) \<and>
    163 + unat (distance_len (CycleData w)) + unat (gray_len (CycleData w)) + pad = 8448"
proof -
  have len: "length frame_start = 108" "length RSSI_Field_start = 41" "length RSSI_Field_end = 12"
    by (simp_all add: frame_start_def RSSI_Field_start_def RSSI_Field_end_def)
  define d g F R E where "d = take (unat (distance_len (CycleData w))) (distance_data (CycleData w))"
    and "g = take (unat (gray_len (CycleData w))) (gray_data (CycleData w))"
    and "F = cstr frame_start" and "R = cstr RSSI_Field_start" and "E = cstr RSSI_Field_end"
  note parts = d_def g_def F_def R_def E_def
  have dl: "unat (distance_len (CycleData w)) = length d" "unat (gray_len (CycleData w)) = length g"
    using assms by (auto simp: parts)
  have ll: "length F = 108" "length R = 41" "length E = 12"
    by (simp_all add: parts len)
  have sl: "slice (distance_data (CycleData w)) 0 (length d) = Some d"
    "slice (gray_data (CycleData w)) 0 (length g) = Some g"
    using assms by (auto simp: parts slice_def)
  have fits: "length d \<le> 4055" "length g \<le> 4055"
    using assms dl by (simp_all add: TARGET_NUMBER_def)
  then have pad: "163 + length d + length g + (8285 - length d - length g) = 8448" by linarith
  note steps = packet_steps [OF ll fits pad]
  have "sick_pos_packet w = Some (w\<lparr>send_buffer := [2] @ F @ d @ R @ g @ E @ [3] @ replicate (8285 - length d - length g) 0\<rparr>)"
    unfolding sick_pos_packet_def Let_def dl sl len bind.bind_lunit
    by (simp only: flip: F_def R_def E_def) (simp only: steps bind.bind_lunit)
  moreover have "take (length d) (distance_data (CycleData w)) = d" "take (length g) (gray_data (CycleData w)) = g"
    unfolding dl [symmetric] by (simp_all only: parts)
  ultimately show ?thesis unfolding parts [symmetric] dl using pad by (intro exI [of _ "8285 - length d - length g"]) simp
qed

text \<open>C26: the telegram of one turn: start byte, the fixed head, the distances, the head of the second
  channel, the intensities, the tail and the end byte, in this order, and zeros up to the end of the
  buffer; with 811 values in each channel it fits.\<close>

theorem sick_pos_packet_layout:
  assumes "length (distance_data (CycleData w)) = TARGET_NUMBER * 5" and "length (gray_data (CycleData w)) = TARGET_NUMBER * 5"
    and "unat (distance_len (CycleData w)) \<le> TARGET_NUMBER * 5" and "unat (gray_len (CycleData w)) \<le> TARGET_NUMBER * 5"
  shows "\<exists>pad. sick_pos_packet w = Some (w\<lparr>send_buffer :=
      [0x02] @ cstr frame_start @ take (unat (distance_len (CycleData w))) (distance_data (CycleData w)) @
      cstr RSSI_Field_start @ take (unat (gray_len (CycleData w))) (gray_data (CycleData w)) @
      cstr RSSI_Field_end @ [0x03] @ replicate pad 0\<rparr>) \<and>
    163 + unat (distance_len (CycleData w)) + unat (gray_len (CycleData w)) + pad = 8448"
  using pos_packet_result [OF assms] .

theorem sick_pos_packet_layout_witness:
  "\<exists>pad. sick_pos_packet world_init = Some (world_init\<lparr>send_buffer :=
      [0x02] @ cstr frame_start @ cstr RSSI_Field_start @ cstr RSSI_Field_end @ [0x03] @ replicate pad 0\<rparr>) \<and>
    163 + pad = 8448"
  using sick_pos_packet_layout [of world_init]
  by (simp add: world_init_def cycle_init_def TARGET_NUMBER_def)

end
