(* ===== verification/Pc2dev.thy ===== *)
theory Pc2dev
  imports Sick Region RemoteUpdate
begin

unbundle bit_operations_syntax

text \<open>
  \<open>pc2dev.c\<close>: the commands of the host. A packet is a big-endian header (magic number, command, length
  of the data), the data, and four bytes that are not looked at. Most commands set one parameter:
  they are the rows of \<open>para_table\<close> (command, guard, member of \<open>SysPara\<close>); the others have a handler
  each. Received bytes are read through a pointer into the receive buffer, modelled as the memory
  from the pointer on; a read outside it has no value.
\<close>

definition PC_SET_ALARM_REGION :: uint where "PC_SET_ALARM_REGION = 0x4001"
definition PC_READ_ALARM_REGION :: uint where "PC_READ_ALARM_REGION = 0x4002"
definition PC_LOAD_REGION_DATA :: uint where "PC_LOAD_REGION_DATA = 0x4003"
definition PC_REQ_REGION_DATA :: uint where "PC_REQ_REGION_DATA = 0x4004"
definition PC_REQ_RADAR_PARA :: uint where "PC_REQ_RADAR_PARA = 0x4005"
definition PC_SAVA_SYS_PARA :: uint where "PC_SAVA_SYS_PARA = 0x4007"
definition PC_RESET_NIOS :: uint where "PC_RESET_NIOS = 0x4008"
definition PC_SET_SN :: uint where "PC_SET_SN = 0x4009"
definition PC_SET_DEV_TYPE :: uint where "PC_SET_DEV_TYPE = 0x4010"
definition PC_SET_DUST_THRESHOLD :: uint where "PC_SET_DUST_THRESHOLD = 0x4011"
definition NIOS_UP_RESPONSE_PC :: uint where "NIOS_UP_RESPONSE_PC = 0x5000"
definition NIOS_UP_ALARM_REGION :: uint where "NIOS_UP_ALARM_REGION = 0x5001"
definition NIOS_UP_REGION_DATA :: uint where "NIOS_UP_REGION_DATA = 0x5002"
definition NIOS_UP_RADAR_PARA :: uint where "NIOS_UP_RADAR_PARA = 0x5005"
definition PC_REMOTE_UPDATE_WRITE :: uint where "PC_REMOTE_UPDATE_WRITE = 0x4100"
definition PC_REMOTE_UPDATE_READ :: uint where "PC_REMOTE_UPDATE_READ = 0x4101"
definition PC_REMOTE_UPDATE_ERASE :: uint where "PC_REMOTE_UPDATE_ERASE = 0x4102"
definition NIOS_REMOTE_WRITE_REPONSE :: uint where "NIOS_REMOTE_WRITE_REPONSE = 0x5100"
definition NIOS_UP_REMOTE_UPDATE_IMAGE :: uint where "NIOS_UP_REMOTE_UPDATE_IMAGE = 0x5101"

lemmas fpga_commands =
  ENABLE_def DISABLE_def UPLOAD_EN_def LASER_ENABLE_def LASER_FREQ_def LASER_PULSE_WIDTH_def
  LASER_RECV_DELAY_def LASER_PRESDO_def MOTOR_ENABLE_def MOTOR_SPEED_def ZERO_DISTANCE_REVISE_def
  ZERO_ANGLE_REVISE_def GRAY_DISTANCE_REVISE1_def GRAY_DISTANCE_REVISE2_def
  GRAY_DISTANCE_REVISE3_def GRAY_DISTANCE_REVISE4_def GRAY_DISTANCE_REVISE5_def
  NOISE_DIFF_SETTING1_def NOISE_DIFF_SETTING2_def GRAY_INFLECTION1_def GRAY_INFLECTION2_def
  GRAY_INFLECTION3_def GRAY_INFLECTION4_def SIGNAL_THRESHOLD_def APD_VOL_SETTING_def
  TEMP_VOL_COF1_def TEMP_VOL_COF2_def TEMP_VOL_INFLECTION_def TEMP_DISTANCE_COF1_def
  TEMP_DISTANCE_COF2_def TEMP_DISTANCE_INFLECTION_def VALID_NUM_THRESHOLD_def
  MIN_DISTANCE_VALUE_def FIRST_NOISE_FILTER_def DUST_ALARM_THRESHOLD_def DA_CYCLE_PARA1_def
  DA_CYCLE_PARA2_def DA_CYCLE_PARA3_def DA_CYCLE_PARA4_def DA_CYCLE_PARA5_def DA_CYCLE_PARA6_def
  DA_CYCLE_PARA7_def DA_CYCLE_PARA8_def DA_CYCLE_PARA9_def MIN_TARGET_SIZE_def
  ALARM_OUTPUT_THRESHOLD_def WR_REGION0_DATA_def WR_REGION1_DATA_def WR_REGION2_DATA_def
  PC_SET_HW_TYPE_def

lemmas host_commands =
  PC_SET_ALARM_REGION_def PC_READ_ALARM_REGION_def PC_LOAD_REGION_DATA_def PC_REQ_REGION_DATA_def
  PC_REQ_RADAR_PARA_def PC_SAVA_SYS_PARA_def PC_RESET_NIOS_def PC_SET_SN_def PC_SET_DEV_TYPE_def
  PC_SET_DUST_THRESHOLD_def NIOS_UP_RESPONSE_PC_def NIOS_UP_ALARM_REGION_def
  NIOS_UP_REGION_DATA_def NIOS_UP_RADAR_PARA_def PC_REMOTE_UPDATE_WRITE_def
  PC_REMOTE_UPDATE_READ_def PC_REMOTE_UPDATE_ERASE_def NIOS_REMOTE_WRITE_REPONSE_def
  NIOS_UP_REMOTE_UPDATE_IMAGE_def

subsection \<open>Answers to the host\<close>

definition reply_header :: "nios2pc_t \<Rightarrow> byte list \<Rightarrow> byte list option" where
  "reply_header p buf = blit buf 0
     ([byte_of 8 (n_head p), byte_of 0 (n_head p), byte_of 8 (n_command p), byte_of 0 (n_command p)] @
      be32_bytes (n_data_len p))"

definition xor_first :: "byte \<Rightarrow> byte list \<Rightarrow> nat \<Rightarrow> byte option" where
  \<comment> \<open>\<open>for (i = 0; i < n; i++) checksum ^= buf[i]\<close>\<close>
  "xor_first checksum buf n = map_option (foldl (XOR) checksum) (slice buf 0 n)"

definition swap_pairs :: "nat \<Rightarrow> nat \<Rightarrow> byte list \<Rightarrow> byte list option" where
  \<comment> \<open>the bytes of \<open>n\<close> 16-bit values from index \<open>off\<close>, exchanged in place\<close>
  "swap_pairs off n buf = for_each (map (\<lambda>k. off + 2 * k) [0..<n]) (\<lambda>i buf. do {
     temp \<leftarrow> arr_get buf (i + 1);
     b \<leftarrow> arr_get buf i;
     buf \<leftarrow> arr_set buf (i + 1) b;
     arr_set buf i temp }) buf"

definition pack_alarm_region :: "byte list \<Rightarrow> env \<Rightarrow> world \<Rightarrow> ((nat \<times> byte list) \<times> world) option" where
  "pack_alarm_region buf h w = do {
     let n = unat (n_data_len (nios2pc w));
     (buf, w) \<leftarrow> for_each [0..<n] (\<lambda>i (buf, w). do {
        (b, w) \<leftarrow> eeprom_read_byte (CUR_ALARM_GROUP + word_of_nat i) h w;
        buf \<leftarrow> arr_set buf (i + 8) b;
        Some (buf, w) }) (buf, w);
     buf \<leftarrow> blit buf 8 [0, 0, 0, change_region_value (alarm_region w)];
     checksum \<leftarrow> xor_first 0 buf (8 + n);
     buf \<leftarrow> blit buf (8 + n) [0, 0, 0, checksum];
     Some ((8 + n + 4, buf), w)
   }"

definition pack_region_data :: "byte list \<Rightarrow> env \<Rightarrow> world \<Rightarrow> ((nat \<times> byte list) \<times> world) option" where
  "pack_region_data buf h w = do {
     let offset_addr = region_addr (unat (rd_which (alarm_region w)));
     buf \<leftarrow> arr_set buf 8 (rd_which (alarm_region w));
     let buf_len = 9;
     (bs, w) \<leftarrow> eeprom_sequential_read offset_addr (word_of_nat (TARGET_NUMBER * 2 + 1 + 102)) h w;
     buf \<leftarrow> blit buf 9 bs;
     buf \<leftarrow> swap_pairs 9 TARGET_NUMBER buf;
     let buf_len = buf_len + TARGET_NUMBER * 2 + 1 + 102;
     checksum \<leftarrow> xor_first 0 buf buf_len;
     buf \<leftarrow> blit buf (buf_len + 1) [0, 0, 0, checksum];
     Some ((buf_len + 4, buf), w)
   }"

definition pack_value :: "uint \<Rightarrow> byte list \<Rightarrow> env \<Rightarrow> world \<Rightarrow> ((nat \<times> byte list) \<times> world) option" where
  \<comment> \<open>a reply of one value; \<open>checksum\<close> has not been initialised\<close>
  "pack_value v buf h w = do {
     buf \<leftarrow> blit buf 8 (be32_bytes v);
     checksum \<leftarrow> xor_first (ucast (indet h ''checksum'' (trace w))) buf 12;
     buf \<leftarrow> blit buf 12 [0, 0, 0, checksum];
     Some ((16, buf), w)
   }"

definition pack_radar_para :: "byte list \<Rightarrow> env \<Rightarrow> world \<Rightarrow> ((nat \<times> byte list) \<times> world) option" where
  "pack_radar_para buf h w = do {
     buf \<leftarrow> blit buf 8 (sys_para_bytes (SysPara w));
     checksum \<leftarrow> xor_first (ucast (indet h ''checksum'' (trace w))) buf (8 + SYS_PARA_SIZE);
     buf \<leftarrow> blit buf (8 + SYS_PARA_SIZE) [0xaa, 0xbb, 0xcc, checksum];
     Some ((8 + SYS_PARA_SIZE + 4, buf), w)
   }"

definition pack_image :: "byte list \<Rightarrow> env \<Rightarrow> world \<Rightarrow> ((nat \<times> byte list) \<times> world) option" where
  "pack_image buf h w = do {
     buf \<leftarrow> blit buf 8 (be32_bytes (image_addr (image w)));
     bs \<leftarrow> slice (image_data (image w)) 0 256;
     buf \<leftarrow> blit buf 12 bs;
     checksum \<leftarrow> xor_first (ucast (indet h ''checksum'' (trace w))) buf (8 + 4 + 256);
     buf \<leftarrow> blit buf 272 [0, 0, 0, checksum];
     Some ((8 + 4 + 256 + 4, buf), w)
   }"

definition pc2dev_packet :: "env \<Rightarrow> world \<Rightarrow> (nat \<times> world) option" where
  \<comment> \<open>every caller passes \<open>nios2pc\<close> and \<open>send_buffer\<close>; the result is \<open>buf_len\<close>\<close>
  "pc2dev_packet h w = do {
     buf \<leftarrow> reply_header (nios2pc w) (send_buffer w);
     let c = n_command (nios2pc w);
     ((buf_len, buf), w) \<leftarrow>
       (if c = NIOS_UP_ALARM_REGION then pack_alarm_region buf h w
        else if c = NIOS_UP_REGION_DATA then pack_region_data buf h w
        else if c = NIOS_UP_RESPONSE_PC then pack_value (pc_command_value (SysPara w)) buf h w
        else if c = NIOS_UP_RADAR_PARA then pack_radar_para buf h w
        else if c = NIOS_REMOTE_WRITE_REPONSE \<or> c = NIOS_UP_REMOTE_UPDATE_IMAGE then pack_image buf h w
        else pack_value (n_value (nios2pc w)) buf h w);
     Some (buf_len, w\<lparr>send_buffer := buf\<rparr>)
   }"

definition pc_reply :: "byte \<Rightarrow> uint \<Rightarrow> uint \<Rightarrow> env \<Rightarrow> world \<Rightarrow> world option" where
  \<comment> \<open>the four lines every answering case has: command, length, pack, send\<close>
  "pc_reply s command data_len h w = do {
     let w = w\<lparr>nios2pc := (nios2pc w)\<lparr>n_command := command, n_data_len := data_len\<rparr>\<rparr>;
     (send_len, w) \<leftarrow> pc2dev_packet h w;
     (_, w) \<leftarrow> send s (send_buffer w) (word_of_nat send_len) h w;
     Some w
   }"

subsection \<open>Commands\<close>

definition para_table_laser :: "(uint \<times> (uint \<Rightarrow> bool) \<times> (uint \<Rightarrow> Sys_Para \<Rightarrow> Sys_Para)) list" where
  "para_table_laser = [
     (LASER_ENABLE, \<lambda>p. p = ENABLE \<or> p = DISABLE, \<lambda>p s. s\<lparr>laser_enable := p\<rparr>),
     (LASER_FREQ, \<lambda>_. True, \<lambda>p s. s\<lparr>laser_freq := p\<rparr>),
     (LASER_PULSE_WIDTH, \<lambda>p. p \<ge> 3 \<and> p \<le> 10, \<lambda>p s. s\<lparr>laser_pulse_width := p\<rparr>),
     (LASER_RECV_DELAY, \<lambda>p. p \<le> 16, \<lambda>p s. s\<lparr>laser_recv_delay := p\<rparr>),
     (MOTOR_ENABLE, \<lambda>p. p = ENABLE \<or> p = DISABLE, \<lambda>p s. s\<lparr>motor_enable := p\<rparr>),
     (MOTOR_SPEED, \<lambda>p. p \<ge> 8 \<and> p \<le> 15, \<lambda>p s. s\<lparr>motor_expect_speed := p\<rparr>),
     (ZERO_DISTANCE_REVISE, \<lambda>p. p \<le> 1024, \<lambda>p s. s\<lparr>zero_distance_revise := p\<rparr>),
     (ZERO_ANGLE_REVISE, \<lambda>p. p \<ge> 2 \<and> p \<le> 240, \<lambda>p s. s\<lparr>zero_angle_revise := p\<rparr>),
     (GRAY_DISTANCE_REVISE1, \<lambda>_. True, \<lambda>p s. s\<lparr>gray_distance_revise1 := p\<rparr>),
     (GRAY_DISTANCE_REVISE2, \<lambda>_. True, \<lambda>p s. s\<lparr>gray_distance_revise2 := p\<rparr>),
     (GRAY_DISTANCE_REVISE3, \<lambda>_. True, \<lambda>p s. s\<lparr>gray_distance_revise3 := p\<rparr>),
     (GRAY_DISTANCE_REVISE4, \<lambda>_. True, \<lambda>p s. s\<lparr>gray_distance_revise4 := p\<rparr>),
     (GRAY_DISTANCE_REVISE5, \<lambda>_. True, \<lambda>p s. s\<lparr>gray_distance_revise5 := p\<rparr>),
     (GRAY_INFLECTION1, \<lambda>_. True, \<lambda>p s. s\<lparr>gray_inflection1 := p\<rparr>),
     (GRAY_INFLECTION2, \<lambda>_. True, \<lambda>p s. s\<lparr>gray_inflection2 := p\<rparr>),
     (GRAY_INFLECTION3, \<lambda>_. True, \<lambda>p s. s\<lparr>gray_inflection3 := p\<rparr>),
     (GRAY_INFLECTION4, \<lambda>_. True, \<lambda>p s. s\<lparr>gray_inflection4 := p\<rparr>),
     (NOISE_DIFF_SETTING1, \<lambda>_. True, \<lambda>p s. s\<lparr>noise_diff_setting1 := p\<rparr>),
     (NOISE_DIFF_SETTING2, \<lambda>_. True, \<lambda>p s. s\<lparr>noise_diff_setting2 := p\<rparr>)]"

definition para_table_temp :: "(uint \<times> (uint \<Rightarrow> bool) \<times> (uint \<Rightarrow> Sys_Para \<Rightarrow> Sys_Para)) list" where
  "para_table_temp = [
     (SIGNAL_THRESHOLD, \<lambda>p. p \<le> 1024, \<lambda>p s. s\<lparr>signal_thresold := p\<rparr>),
     (TEMP_VOL_COF1, \<lambda>p. p \<ge> 20 \<and> p \<le> 45, \<lambda>p s. s\<lparr>temp_volt_cof1 := p\<rparr>),
     (TEMP_VOL_COF2, \<lambda>p. p \<ge> 20 \<and> p \<le> 45, \<lambda>p s. s\<lparr>temp_volt_cof2 := p\<rparr>),
     (TEMP_VOL_INFLECTION, \<lambda>p. p \<le> 50, \<lambda>p s. s\<lparr>temp_volt_inflection := p\<rparr>),
     (TEMP_DISTANCE_COF1, \<lambda>p. p \<le> 128, \<lambda>p s. s\<lparr>temp_distance_cof1 := p\<rparr>),
     (TEMP_DISTANCE_COF2, \<lambda>p. p \<le> 128, \<lambda>p s. s\<lparr>temp_distance_cof2 := p\<rparr>),
     (TEMP_DISTANCE_INFLECTION, \<lambda>p. p \<le> 60, \<lambda>p s. s\<lparr>temp_distance_inflection := p\<rparr>),
     (VALID_NUM_THRESHOLD, \<lambda>p. p > 1 \<and> p < 40, \<lambda>p s. s\<lparr>valid_num_threshold := p\<rparr>),
     (MIN_DISTANCE_VALUE, \<lambda>p. p \<le> 500, \<lambda>p s. s\<lparr>min_display_distance := p\<rparr>),
     (FIRST_NOISE_FILTER, \<lambda>p. p \<ge> 2 \<and> p \<le> 12, \<lambda>p s. s\<lparr>first_noise_filter := p\<rparr>),
     (DUST_ALARM_THRESHOLD, \<lambda>p. p \<le> 100, \<lambda>p s. s\<lparr>dust_alarm_threshold := p\<rparr>)]"

definition para_table_cycle :: "(uint \<times> (uint \<Rightarrow> bool) \<times> (uint \<Rightarrow> Sys_Para \<Rightarrow> Sys_Para)) list" where
  "para_table_cycle = [
     (DA_CYCLE_PARA1, \<lambda>p. p \<le> 1023, \<lambda>p s. s\<lparr>da_cycle_para1 := p\<rparr>),
     (DA_CYCLE_PARA2, \<lambda>p. p \<le> 1023, \<lambda>p s. s\<lparr>da_cycle_para2 := p\<rparr>),
     (DA_CYCLE_PARA3, \<lambda>p. p \<le> 1023, \<lambda>p s. s\<lparr>da_cycle_para3 := p\<rparr>),
     (DA_CYCLE_PARA4, \<lambda>p. p \<le> 1023, \<lambda>p s. s\<lparr>da_cycle_para4 := p\<rparr>),
     (DA_CYCLE_PARA5, \<lambda>p. p \<le> 1023, \<lambda>p s. s\<lparr>da_cycle_para5 := p\<rparr>),
     (DA_CYCLE_PARA6, \<lambda>p. p \<le> 1023, \<lambda>p s. s\<lparr>da_cycle_para6 := p\<rparr>),
     (DA_CYCLE_PARA7, \<lambda>p. p \<le> 1023, \<lambda>p s. s\<lparr>da_cycle_para7 := p\<rparr>),
     (DA_CYCLE_PARA8, \<lambda>p. p \<le> 1023, \<lambda>p s. s\<lparr>da_cycle_para8 := p\<rparr>),
     (DA_CYCLE_PARA9, \<lambda>p. p \<le> 1023, \<lambda>p s. s\<lparr>da_cycle_para9 := p\<rparr>),
     (MIN_TARGET_SIZE, \<lambda>p. p \<ge> 0 \<and> p \<le> 8000, \<lambda>p s. s\<lparr>min_target_size := p\<rparr>),
     (ALARM_OUTPUT_THRESHOLD, \<lambda>p. p \<ge> 1 \<and> p \<le> 500, \<lambda>p s. s\<lparr>alarm_output_threshold := p\<rparr>)]"

definition para_table :: "(uint \<times> (uint \<Rightarrow> bool) \<times> (uint \<Rightarrow> Sys_Para \<Rightarrow> Sys_Para)) list" where
  "para_table = (PC_SET_HW_TYPE, \<lambda>_. True, \<lambda>p s. s\<lparr>board_type := p\<rparr>) #
     para_table_laser @ para_table_temp @ para_table_cycle"

definition set_parameter ::
    "(uint \<Rightarrow> bool) \<Rightarrow> (uint \<Rightarrow> Sys_Para \<Rightarrow> Sys_Para) \<Rightarrow> uint \<Rightarrow> env \<Rightarrow> world \<Rightarrow> world option" where
  \<comment> \<open>the shape of the table's cases: guard, member of \<open>SysPara\<close>, frame to the FPGA\<close>
  "set_parameter ok store para h w =
     (if ok para
      then set_laser_paramter (p_command (pc2nios w)) para h (w\<lparr>SysPara := store para (SysPara w)\<rparr>)
      else Some w)"

definition set_apd_voltage :: "uint \<Rightarrow> env \<Rightarrow> world \<Rightarrow> world option" where
  "set_apd_voltage para h w = set_parameter (\<lambda>para. para AND 0x3f \<le> 1024)
     (\<lambda>para s. if drop_bit 15 para AND 0x01 = 0x01 then s\<lparr>signal_thresold := para\<rparr>
        else s\<lparr>apd_vol_base := para\<rparr>) para h w"

definition set_alarm_region :: "byte list \<Rightarrow> uint \<Rightarrow> env \<Rightarrow> world \<Rightarrow> (bool \<times> world) option" where
  \<comment> \<open>False: the function returns, whatever else the buffer holds\<close>
  "set_alarm_region buf para h w = do {
     let w = w\<lparr>alarm_region := (alarm_region w)\<lparr>select := para\<rparr>\<rparr>;
     if select (alarm_region w) \<le> 15
     then do {
       w \<leftarrow> eeprom_write_byte (CUR_ALARM_GROUP + 2) (buf ! 10) h w;
       w \<leftarrow> eeprom_write_byte (CUR_ALARM_GROUP + 3) (buf ! 11) h w;
       (_, w) \<leftarrow> region_read_from_rom (unat (select (alarm_region w) * 3 + 0)) h w;
       (_, w) \<leftarrow> region_read_from_rom (unat (select (alarm_region w) * 3 + 1)) h w;
       (_, w) \<leftarrow> region_read_from_rom (unat (select (alarm_region w) * 3 + 2)) h w;
       Some (True, w)
     }
     else Some (False, w)
   }"

definition store_boundary :: "byte list \<Rightarrow> region_t \<Rightarrow> region_t option" where
  \<comment> \<open>the received region: number, 811 values, 103 bytes of corner points\<close>
  "store_boundary buf region = do {
     b \<leftarrow> arr_get buf 8;
     let region = region\<lparr>wr_which := b\<rparr>;
     region \<leftarrow> for_each (map (\<lambda>k. 2 * k) [0..<TARGET_NUMBER]) (\<lambda>i region. do {
        hi \<leftarrow> arr_get buf (i + 9);
        lo \<leftarrow> arr_get buf (i + 1 + 9);
        let recv_pos = (ucast (be16 hi lo) :: half);
        xs \<leftarrow> arr_set (region_buffer region) (i div 2) recv_pos;
        Some (region\<lparr>region_buffer := xs\<rparr>) }) region;
     for_each [0..<ZENITH_NUMBER] (\<lambda>i region. do {
        b \<leftarrow> arr_get buf (1631 + i);
        xs \<leftarrow> arr_set (zenith_save region) i b;
        Some (region\<lparr>zenith_save := xs\<rparr>) }) region
   }"

definition load_region_data :: "byte list \<Rightarrow> env \<Rightarrow> world \<Rightarrow> world option" where
  "load_region_data buf h w = do {
     region \<leftarrow> store_boundary buf (alarm_region w);
     let w = w\<lparr>alarm_region := region\<rparr>;
     w \<leftarrow> (if update_pos_flag (SysPara w)
       then do {
         w \<leftarrow> set_laser_paramter UPLOAD_EN DISABLE h w;
         (_, w) \<leftarrow> region_save2eeprom (alarm_region w) h w;
         set_laser_paramter UPLOAD_EN ENABLE h w }
       else do {
         (_, w) \<leftarrow> region_save2eeprom (alarm_region w) h w;
         Some w });
     let r = alarm_region w;
     Some (if change_region_value r = wr_which r div 3
       then w\<lparr>alarm_region := r\<lparr>change_region_flag := 0x01\<rparr>\<rparr> else w)
   }"

definition update_write :: "byte \<Rightarrow> byte list \<Rightarrow> uint \<Rightarrow> env \<Rightarrow> world \<Rightarrow> world option" where
  "update_write s buf para h w = do {
     bs \<leftarrow> slice buf 12 256;
     let w = w\<lparr>image := \<lparr>image_addr = para, image_data = bs\<rparr>\<rparr>;
     (_, w) \<leftarrow> image_write (sint (image_addr (image w))) (image_data (image w)) h w;
     ((_, bs), w) \<leftarrow> image_read (sint (image_addr (image w))) h w;
     let w = (case bs of None \<Rightarrow> w | Some bs \<Rightarrow> w\<lparr>image := (image w)\<lparr>image_data := bs\<rparr>\<rparr>);
     pc_reply s NIOS_REMOTE_WRITE_REPONSE (4 + 256) h w
   }"

definition update_read :: "byte \<Rightarrow> uint \<Rightarrow> env \<Rightarrow> world \<Rightarrow> world option" where
  "update_read s para h w = do {
     let w = w\<lparr>image := (image w)\<lparr>image_addr := para\<rparr>\<rparr>;
     ((_, bs), w) \<leftarrow> image_read (sint (image_addr (image w))) h w;
     let w = (case bs of None \<Rightarrow> w | Some bs \<Rightarrow> w\<lparr>image := (image w)\<lparr>image_data := bs\<rparr>\<rparr>);
     pc_reply s NIOS_UP_REMOTE_UPDATE_IMAGE (4 + 256) h w
   }"

definition parse_header :: "byte list \<Rightarrow> world \<Rightarrow> (uint \<times> world) option" where
  \<comment> \<open>the value of the command, and the header in \<open>pc2nios\<close>; the command is counted. \<open>buf[8] << 24\<close> shifts
    an \<open>int\<close>: for a byte from 0x80 on, the standard leaves it undefined, GCC, which the project is built
    with, documents the 32-bit shift, and that is what \<open>be32\<close> is\<close>
  "parse_header buf w = do {
     b \<leftarrow> slice buf 0 12;
     let para = be32 (b ! 8) (b ! 9) (b ! 10) (b ! 11);
     let w = w\<lparr>pc2nios := (pc2nios w)\<lparr>p_head := be16 (b ! 0) (b ! 1), p_command := be16 (b ! 2) (b ! 3),
       p_data_len := be32 (b ! 4) (b ! 5) (b ! 6) (b ! 7)\<rparr>\<rparr>;
     Some (para, w\<lparr>SysPara := (SysPara w)\<lparr>pc_command_value := pc_command_value (SysPara w) + 1\<rparr>\<rparr>)
   }"

definition table_command :: "uint \<Rightarrow> env \<Rightarrow> world \<Rightarrow> world option" where
  \<comment> \<open>a command no case names is skipped\<close>
  "table_command para h w = (case map_of para_table (p_command (pc2nios w)) of
       Some (ok, store) \<Rightarrow> set_parameter ok store para h w
     | None \<Rightarrow> Some w)"

definition other_command :: "byte \<Rightarrow> byte list \<Rightarrow> uint \<Rightarrow> env \<Rightarrow> world \<Rightarrow> world option" where
  "other_command s buf para h w = (let c = p_command (pc2nios w) in
     if c = PC_READ_ALARM_REGION
     then (if para \<le> 15 then pc_reply s NIOS_UP_ALARM_REGION 4 h w else Some w)
     else if c = PC_LOAD_REGION_DATA then load_region_data buf h w
     else if c = PC_REQ_REGION_DATA
     then pc_reply s NIOS_UP_REGION_DATA (word_of_nat (1 + TARGET_NUMBER * 2 + ZENITH_NUMBER)) h
            (w\<lparr>alarm_region := (alarm_region w)\<lparr>rd_which := ucast para\<rparr>\<rparr>)
     else if c = PC_REQ_RADAR_PARA
     then do {
       w \<leftarrow> pc_reply s NIOS_UP_RADAR_PARA (word_of_nat SYS_PARA_SIZE) h w;
       set_laser_paramter 0xc000 0xaaaa h w }
     else if c = PC_SAVA_SYS_PARA then save_sys_para (SysPara w) h w
     else if c = PC_RESET_NIOS then Some (w\<lparr>reset_nios := para\<rparr>)
     else if c = PC_SET_SN
     then do { bs \<leftarrow> slice buf 8 16; Some (w\<lparr>SysPara := (SysPara w)\<lparr>dev_sn := bs\<rparr>\<rparr>) }
     else if c = PC_SET_DEV_TYPE
     then do { bs \<leftarrow> slice buf 8 20; Some (w\<lparr>SysPara := (SysPara w)\<lparr>dev_type := bs\<rparr>\<rparr>) }
     else if c = PC_SET_DUST_THRESHOLD then Some (w\<lparr>SysPara := (SysPara w)\<lparr>dust_threshold := para\<rparr>\<rparr>)
     else if c = LASER_PRESDO
     then do { bs \<leftarrow> slice buf 8 30; Some (w\<lparr>SysPara := (SysPara w)\<lparr>laser_presdo := bs\<rparr>\<rparr>) }
     else if c = APD_VOL_SETTING then set_apd_voltage para h w
     else if c = PC_REMOTE_UPDATE_WRITE then update_write s buf para h w
     else if c = PC_REMOTE_UPDATE_READ then update_read s para h w
     else if c = PC_REMOTE_UPDATE_ERASE
     then for_each [0..<unat para] (\<lambda>i w. do {
       (_, w) \<leftarrow> image_erase (int i) h w;
       if int_ok (int i + 1) then Some w else None }) w
     else table_command para h w)"

definition pc2dev_command :: "byte \<Rightarrow> byte list \<Rightarrow> env \<Rightarrow> world \<Rightarrow> (bool \<times> world) option" where
  \<comment> \<open>one packet; False when the function returns from the case\<close>
  "pc2dev_command s buf h w = do {
     (para, w) \<leftarrow> parse_header buf w;
     if p_command (pc2nios w) = PC_SET_ALARM_REGION then set_alarm_region buf para h w
     else do {
       w \<leftarrow> other_command s buf para h w;
       Some (True, w)
     }
   }"

definition memory_from :: "byte list \<Rightarrow> int \<Rightarrow> byte list option" where
  "memory_from mem pos = (if 0 \<le> pos \<and> pos \<le> int (length mem) then Some (drop (nat pos) mem) else None)"

partial_function (option) pc2dev_loop ::
    "byte \<Rightarrow> byte list \<Rightarrow> int \<Rightarrow> int \<Rightarrow> env \<Rightarrow> world \<Rightarrow> world option" where
  \<comment> \<open>\<open>while(len != 0)\<close>, with \<open>buf\<close> at index \<open>pos\<close> of the memory; \<open>len\<close> is a signed counter\<close>
  "pc2dev_loop s mem pos len h w =
     (if len = 0 then Some w
      else do {
        buf \<leftarrow> memory_from mem pos;
        b \<leftarrow> arr_get buf 0;
        if b = 0x02 then sick_protocol_process s buf len h w
        else do {
          (go, w) \<leftarrow> pc2dev_command s buf h w;
          if go
          then (let packet_len = sint (p_data_len (pc2nios w) + 12) in
            if int_ok (len - packet_len)
            then pc2dev_loop s mem (pos + packet_len) (len - packet_len) h w else None)
          else Some w
        }
      })"

definition pc2dev_parse :: "byte \<Rightarrow> byte list \<Rightarrow> int \<Rightarrow> env \<Rightarrow> world \<Rightarrow> world option" where
  "pc2dev_parse s buf len h w = pc2dev_loop s buf 0 len h w"

subsection \<open>Forwarding raw words\<close>

definition pc_data_to_fpga :: "uint list \<Rightarrow> uint \<Rightarrow> env \<Rightarrow> 'a bus_scheme \<Rightarrow> (uint list \<times> 'a bus_scheme) option" where
  \<comment> \<open>the array is reversed word by word in place; a shift by 32 has no defined value\<close>
  "pc_data_to_fpga data len h w = for_each [0..<unat len] (\<lambda>i (data, w). do {
     d \<leftarrow> arr_get data i;
     let top = indet h ''shift'' (trace w);
     let v = (drop_bit 24 (d AND 0xff000000) OR drop_bit 8 (d AND 0x00ff0000)
        OR push_bit 8 (d AND 0x0000ff00)) OR top;
     data \<leftarrow> arr_set data i v;
     w \<leftarrow> put_word v h w;
     Some (data, w) }) (data, w)"

subsection \<open>The switch\<close>

text \<open>The cases of the switch are distinct, so their order in the model does not matter.\<close>

lemma table_keys_distinct: "distinct (map fst para_table)"
  unfolding para_table_def para_table_laser_def para_table_temp_def para_table_cycle_def
  by (simp add: fpga_commands)

lemma special_commands:
  "list_all (\<lambda>c. c \<notin> set (map fst para_table)) [0, PC_SET_ALARM_REGION, PC_READ_ALARM_REGION, PC_LOAD_REGION_DATA,
     PC_REQ_REGION_DATA, PC_REQ_RADAR_PARA, PC_SAVA_SYS_PARA, PC_RESET_NIOS, PC_SET_SN, PC_SET_DEV_TYPE,
     PC_SET_DUST_THRESHOLD, LASER_PRESDO, APD_VOL_SETTING, PC_REMOTE_UPDATE_WRITE, PC_REMOTE_UPDATE_READ,
     PC_REMOTE_UPDATE_ERASE]"
  unfolding para_table_def para_table_laser_def para_table_temp_def para_table_cycle_def
  by (simp add: fpga_commands host_commands)

lemma table_case:
  assumes "c \<in> set (map fst para_table)" and "p_command (pc2nios w) = c"
  shows "c \<noteq> PC_SET_ALARM_REGION" "other_command s buf p h w = table_command p h w"
proof -
  have ne: "c \<noteq> d" if "d \<in> set [0, PC_SET_ALARM_REGION, PC_READ_ALARM_REGION, PC_LOAD_REGION_DATA,
     PC_REQ_REGION_DATA, PC_REQ_RADAR_PARA, PC_SAVA_SYS_PARA, PC_RESET_NIOS, PC_SET_SN, PC_SET_DEV_TYPE,
     PC_SET_DUST_THRESHOLD, LASER_PRESDO, APD_VOL_SETTING, PC_REMOTE_UPDATE_WRITE, PC_REMOTE_UPDATE_READ,
     PC_REMOTE_UPDATE_ERASE]" for d
    using assms(1) that special_commands unfolding list_all_iff by blast
  show "c \<noteq> PC_SET_ALARM_REGION" by (rule ne) simp
  show "other_command s buf p h w = table_command p h w"
    unfolding other_command_def Let_def assms(2) by (simp add: ne)
qed

end
