(* ===== verification/HostFrame.thy ===== *)
theory HostFrame
  imports Pc2dev
begin

unbundle bit_operations_syntax

text \<open>
  What the commands of a host may change. The locale \<open>serve_frame\<close> collects the elementary updates
  the two protocols make; whatever relation between the memory before and after allows these holds
  across every command. Its interpretations give the declared lengths of all arrays (\<open>world_wf\<close>), the
  checks of the parameters (\<open>params_guarded\<close>), and the separation from the measuring side.
\<close>

subsection \<open>Lengths\<close>

lemma string2hex_length: "string2hex src n dest h w = Some res \<Longrightarrow> length res = length dest"
  unfolding string2hex_def
  by (erule for_each_inv [where P = "\<lambda>d. length d = length dest"]) (auto simp: arr_set_eq_Some split: bind_splits)

lemma swap_pairs_length: "swap_pairs off n buf = Some res \<Longrightarrow> length res = length buf"
  unfolding swap_pairs_def
  by (erule for_each_inv [where P = "\<lambda>d. length d = length buf"]) (auto simp: arr_set_eq_Some split: bind_splits)

lemma reply_header_length: "reply_header p buf = Some res \<Longrightarrow> length res = length buf"
  unfolding reply_header_def by (rule blit_length)

definition packed :: "byte list \<Rightarrow> world \<Rightarrow> ((nat \<times> byte list) \<times> world) option \<Rightarrow> bool" where
  \<comment> \<open>the buffer keeps its length, and of the memory only the trace has changed\<close>
  "packed buf w r \<longleftrightarrow> (\<forall>n buf' w'. r = Some ((n, buf'), w') \<longrightarrow> length buf' = length buf \<and> only_trace w w')"

lemma packed_alarm_region: "packed buf w (pack_alarm_region buf h w)"
proof -
  have "length buf' = length buf \<and> only_trace w w'"
    if "for_each [0..<n] (\<lambda>i (buf, w). do {
        (b, w) \<leftarrow> eeprom_read_byte (CUR_ALARM_GROUP + word_of_nat i) h w;
        buf \<leftarrow> arr_set buf (i + 8) b;
        Some (buf, w) }) (buf, w) = Some (buf', w')" for n buf' w'
  proof -
    have "(\<lambda>(b, v). length b = length buf \<and> only_trace w v) (buf', w')"
      using that
      by (rule for_each_inv) (auto simp: arr_set_eq_Some tr.R_refl split: bind_splits
          dest!: keepsvD [OF keepsv_eeprom_read_byte], blast intro: tr.R_trans)
    then show ?thesis by simp
  qed
  then show ?thesis
    unfolding packed_def pack_alarm_region_def Let_def
    by (fastforce split: bind_splits dest!: blit_length)
qed

lemma packed_region_data: "packed buf w (pack_region_data buf h w)"
  unfolding packed_def pack_region_data_def Let_def
  by (fastforce simp: arr_set_eq_Some split: bind_splits dest!: blit_length swap_pairs_length
      keepsvD [OF keepsv_eeprom_sequential_read])

lemma packed_others:
  "packed buf w (pack_value v buf h w)" "packed buf w (pack_radar_para buf h w)" "packed buf w (pack_image buf h w)"
  unfolding packed_def pack_value_def pack_radar_para_def pack_image_def
  by (fastforce split: bind_splits dest!: blit_length simp: tr.R_refl)+

lemma pc2dev_packet_frame:
  assumes "pc2dev_packet h w = Some (n, w')"
  shows "\<exists>v sb. only_trace w v \<and> length sb = length (send_buffer v) \<and> w' = v\<lparr>send_buffer := sb\<rparr>"
proof -
  obtain buf buf' v where "reply_header (nios2pc w) (send_buffer w) = Some buf"
    and w': "w' = v\<lparr>send_buffer := buf'\<rparr>"
    and pk: "length buf' = length buf \<and> only_trace w v"
    using assms packed_alarm_region packed_region_data packed_others
    unfolding pc2dev_packet_def Let_def packed_def by (auto split: bind_splits if_splits)
  moreover have "send_buffer v = send_buffer w"
    using pk by (auto simp: only_trace_def)
  ultimately show ?thesis
    using reply_header_length by (metis (no_types, lifting))
qed

definition region_kept :: "region_t \<Rightarrow> region_t \<Rightarrow> bool" where
  \<comment> \<open>the arrays keep their lengths, and the switch position is not touched\<close>
  "region_kept r r' \<longleftrightarrow> length (region_buffer r') = length (region_buffer r) \<and>
     length (zenith_save r') = length (zenith_save r) \<and> last_io_value0 r' = last_io_value0 r \<and>
     last_io_value1 r' = last_io_value1 r \<and> change_region_value r' = change_region_value r"

lemma store_boundary_kept:
  assumes "store_boundary buf r = Some r'"
  shows "region_kept r r'"
proof -
  let ?P = "\<lambda>x. region_kept r x"
  obtain b m where first: "for_each (map (\<lambda>k. 2 * k) [0..<TARGET_NUMBER]) (\<lambda>i region. do {
        hi \<leftarrow> arr_get buf (i + 9);
        lo \<leftarrow> arr_get buf (i + 1 + 9);
        let recv_pos = (ucast (be16 hi lo) :: half);
        xs \<leftarrow> arr_set (region_buffer region) (i div 2) recv_pos;
        Some (region\<lparr>region_buffer := xs\<rparr>) }) (r\<lparr>wr_which := b\<rparr>) = Some m"
    and second: "for_each [0..<ZENITH_NUMBER] (\<lambda>i region. do {
        b \<leftarrow> arr_get buf (1631 + i);
        xs \<leftarrow> arr_set (zenith_save region) i b;
        Some (region\<lparr>zenith_save := xs\<rparr>) }) m = Some r'"
    using assms by (auto simp: store_boundary_def split: bind_splits)
  have "?P m"
    by (rule for_each_inv [OF first]) (auto simp: region_kept_def arr_set_eq_Some split: bind_splits)
  then show "?P r'"
    by (rule for_each_inv [OF second]) (auto simp: region_kept_def arr_set_eq_Some split: bind_splits)
qed

subsection \<open>The contract of a command\<close>

lemma keeps_at: "(\<And>x. keeps R (f x)) \<Longrightarrow> keeps R (\<lambda>w. f (c w) w)"
  by (auto simp: keeps_def)

lemma keepsv_at: "(\<And>x. keepsv R (f x)) \<Longrightarrow> keepsv R (\<lambda>w. f (c w) w)"
  by (fastforce simp: keepsv_def)

text \<open>
  The checks, command by command in the order of \<open>para_table\<close>: the parameter and the values its command
  accepts. One parameter has a second way in: \<open>APD_VOL_SETTING\<close> with bit 15 set stores its value,
  unchecked, as the signal threshold, so that threshold is at most 1024 or has bit 15 set.
\<close>

definition guards :: "((Sys_Para \<Rightarrow> uint) \<times> (uint \<Rightarrow> bool)) list" where
  "guards = [
     (board_type, \<lambda>_. True),
     (laser_enable, \<lambda>p. p = ENABLE \<or> p = DISABLE),
     (laser_freq, \<lambda>_. True),
     (laser_pulse_width, \<lambda>p. p \<ge> 3 \<and> p \<le> 10),
     (laser_recv_delay, \<lambda>p. p \<le> 16),
     (motor_enable, \<lambda>p. p = ENABLE \<or> p = DISABLE),
     (motor_expect_speed, \<lambda>p. p \<ge> 8 \<and> p \<le> 15),
     (zero_distance_revise, \<lambda>p. p \<le> 1024),
     (zero_angle_revise, \<lambda>p. p \<ge> 2 \<and> p \<le> 240),
     (gray_distance_revise1, \<lambda>_. True),
     (gray_distance_revise2, \<lambda>_. True),
     (gray_distance_revise3, \<lambda>_. True),
     (gray_distance_revise4, \<lambda>_. True),
     (gray_distance_revise5, \<lambda>_. True),
     (gray_inflection1, \<lambda>_. True),
     (gray_inflection2, \<lambda>_. True),
     (gray_inflection3, \<lambda>_. True),
     (gray_inflection4, \<lambda>_. True),
     (noise_diff_setting1, \<lambda>_. True),
     (noise_diff_setting2, \<lambda>_. True),
     (signal_thresold, \<lambda>p. p \<le> 1024 \<or> drop_bit 15 p AND 1 = 1),
     (temp_volt_cof1, \<lambda>p. p \<ge> 20 \<and> p \<le> 45),
     (temp_volt_cof2, \<lambda>p. p \<ge> 20 \<and> p \<le> 45),
     (temp_volt_inflection, \<lambda>p. p \<le> 50),
     (temp_distance_cof1, \<lambda>p. p \<le> 128),
     (temp_distance_cof2, \<lambda>p. p \<le> 128),
     (temp_distance_inflection, \<lambda>p. p \<le> 60),
     (valid_num_threshold, \<lambda>p. p > 1 \<and> p < 40),
     (min_display_distance, \<lambda>p. p \<le> 500),
     (first_noise_filter, \<lambda>p. p \<ge> 2 \<and> p \<le> 12),
     (dust_alarm_threshold, \<lambda>p. p \<le> 100),
     (da_cycle_para1, \<lambda>p. p \<le> 1023),
     (da_cycle_para2, \<lambda>p. p \<le> 1023),
     (da_cycle_para3, \<lambda>p. p \<le> 1023),
     (da_cycle_para4, \<lambda>p. p \<le> 1023),
     (da_cycle_para5, \<lambda>p. p \<le> 1023),
     (da_cycle_para6, \<lambda>p. p \<le> 1023),
     (da_cycle_para7, \<lambda>p. p \<le> 1023),
     (da_cycle_para8, \<lambda>p. p \<le> 1023),
     (da_cycle_para9, \<lambda>p. p \<le> 1023),
     (min_target_size, \<lambda>p. p \<ge> 0 \<and> p \<le> 8000),
     (alarm_output_threshold, \<lambda>p. p \<ge> 1 \<and> p \<le> 500)]"

definition params_guarded :: "Sys_Para \<Rightarrow> Sys_Para \<Rightarrow> bool" where
  \<comment> \<open>every parameter is as it was, or has a value its command accepts\<close>
  "params_guarded s s' \<longleftrightarrow> list_all (\<lambda>(f, ok). f s' = f s \<or> ok (f s')) guards"

lemmas guarded_defs = params_guarded_def guards_def list.pred_inject case_prod_conv

lemma params_guarded_refl: "params_guarded s s"
  by (simp add: params_guarded_def list_all_iff case_prod_beta)

lemma params_guarded_trans:
  assumes "params_guarded a b" and "params_guarded b c"
  shows "params_guarded a c"
  using assms unfolding params_guarded_def list_all_iff by fastforce

text \<open>The list is complete: it has the parameter and the guard of every command of the table.\<close>

lemma guards_cover:
  "list_all2 (\<lambda>(f, ok') (c, ok, store). (\<forall>p s. f (store p s) = p) \<and>
     (if c = SIGNAL_THRESHOLD then \<forall>p. ok p \<longrightarrow> ok' p else \<forall>p. ok p = ok' p)) guards para_table"
  unfolding guards_def para_table_def para_table_laser_def para_table_temp_def para_table_cycle_def append_Cons append_Nil
  by (simp add: fpga_commands)

definition params_ok :: "Sys_Para \<Rightarrow> bool" where
  \<comment> \<open>every parameter has its compiled-in value or one its command accepts\<close>
  "params_ok s \<longleftrightarrow> params_guarded SysPara_init s"

lemma params_guarded_ok: "params_guarded s s' \<Longrightarrow> params_ok s \<Longrightarrow> params_ok s'"
  unfolding params_ok_def by (rule params_guarded_trans)

definition legal_change :: "Sys_Para \<Rightarrow> Sys_Para \<Rightarrow> bool" where
  "legal_change s s' \<longleftrightarrow> params_guarded s s' \<and> (sys_para_wf s \<longrightarrow> sys_para_wf s')"

definition table_legal :: "(uint \<times> (uint \<Rightarrow> bool) \<times> (uint \<Rightarrow> Sys_Para \<Rightarrow> Sys_Para)) list \<Rightarrow> bool" where
  "table_legal t \<longleftrightarrow> list_all (\<lambda>(_, ok, store). \<forall>p s. ok p \<longrightarrow> legal_change s (store p s)) t"

lemma tables_legal: "table_legal para_table_laser" "table_legal para_table_temp" "table_legal para_table_cycle"
  unfolding table_legal_def para_table_laser_def para_table_temp_def para_table_cycle_def list.pred_inject case_prod_conv
  by (intro conjI allI impI TrueI; simp add: legal_change_def guarded_defs sys_para_wf_def; fail)+

lemma table_store_legal:
  assumes "map_of para_table c = Some (ok, store)" and "ok p"
  shows "legal_change s (store p s)"
proof -
  have "(c, ok, store) \<in> set para_table" using assms(1) by (rule map_of_SomeD)
  moreover have "legal_change s (s\<lparr>board_type := p\<rparr>)" for p s
    by (simp add: legal_change_def guarded_defs sys_para_wf_def)
  ultimately show ?thesis
    using assms(2) tables_legal unfolding para_table_def table_legal_def list_all_iff by auto
qed

locale serve_frame = frame_rel R for R :: "world \<Rightarrow> world \<Rightarrow> bool" +
  assumes net: "only_net w w' \<Longrightarrow> R w w'"
    and send_buf: "length sb = length (send_buffer w) \<Longrightarrow> R w (w\<lparr>send_buffer := sb\<rparr>)"
    and to_pc: "R w (w\<lparr>nios2pc := n\<rparr>)"
    and pck: "R w (w\<lparr>Nios2FPGA_pck := c\<rparr>)"
    and measure_flag: "R w (w\<lparr>sMI_3E_flag := b\<rparr>)"
    and region: "region_kept (alarm_region w) r \<Longrightarrow> R w (w\<lparr>alarm_region := r\<rparr>)"
    and picture: "length (image_data i) = 256 \<or> image_data i = image_data (image w) \<Longrightarrow> R w (w\<lparr>image := i\<rparr>)"
    and reset: "R w (w\<lparr>reset_nios := u\<rparr>)"
    and para: "legal_change (SysPara w) s \<Longrightarrow> R w (w\<lparr>SysPara := s\<rparr>)"
begin

lemma only_trace_R: "only_trace w w' \<Longrightarrow> R w w'"
  by (rule net) (rule only_trace_net)

lemma send_R: "send s buf n h w = Some (m, w') \<Longrightarrow> R w w'"
  by (rule only_trace_R) (rule keepsvD [OF keepsv_send])

lemma set_laser_R:
  assumes "set_laser_paramter c d h w = Some w'"
  shows "R w w'"
proof -
  have "keeps only_trace (nios2fpga_data_packet x l src h :: world \<Rightarrow> _)" for x l src
    unfolding nios2fpga_data_packet_def nios2fpga_data_write_def Let_def
    by (intro tr.keeps_intros tr.keeps_pure tr.keepsv_pure keeps_put_word)
  then have "only_trace (w\<lparr>Nios2FPGA_pck := ucast (ucast c :: half)\<rparr>) w'"
    using assms by (auto simp: set_laser_paramter_def Let_def keeps_def)
  then show ?thesis using pck only_trace_R R_trans by blast
qed

lemma send_ascii_R: "send_ascii s r h w = Some w' \<Longrightarrow> R w w'"
  unfolding send_ascii_def Let_def
  by (clarsimp simp: arr_set_eq_Some split: bind_splits, drule send_R, drule blit_length)
    (rule R_trans [OF send_buf]; simp)

lemma send_hex_R: "send_hex s r h w = Some w' \<Longrightarrow> R w w'"
  unfolding send_hex_def Let_def
  by (clarsimp split: bind_splits, drule send_R, drule string2hex_length)
    (rule R_trans [OF send_buf]; simp)

lemma table_reply_R: "table_reply s r h w = Some w' \<Longrightarrow> R w w'"
  by (auto simp: table_reply_def R_refl split: if_splits intro: send_ascii_R send_hex_R)

lemma keeps_sends:
  "keeps R (send_ascii s r h)" "keeps R (send_hex s r h)" "keeps R (table_reply s r h)"
  "keeps R (set_laser_paramter c d h)"
  by (auto simp: keeps_def intro: send_ascii_R send_hex_R table_reply_R set_laser_R)

lemma keepsv_answer_request: "keepsv R (answer_request s rc pos h)"
  unfolding answer_request_def by (intro keeps_intros keeps_pure keepsv_pure keeps_sends)

lemma keeps_note_measure: "keeps R (note_measure rc)"
  unfolding keeps_def note_measure_def
  by (auto simp: R_refl split: bind_splits if_splits intro: measure_flag)

lemma keeps_extra_reply: "keeps R (extra_reply s rc h)"
  unfolding extra_reply_def by (intro keeps_intros keeps_pure keepsv_pure keeps_sends)

lemma keeps_apply_enable: "keeps R (apply_enable e h)"
proof -
  have "legal_change p (p\<lparr>update_pos_flag := b\<rparr>)" for p b
    by (simp add: legal_change_def guarded_defs sys_para_wf_def)
  then have "keeps R (\<lambda>w. Some (w\<lparr>SysPara := (SysPara w)\<lparr>update_pos_flag := b\<rparr>\<rparr>))" for b
    by (simp add: keeps_def para)
  then show ?thesis
    unfolding apply_enable_def by (intro keeps_intros keeps_sends)
qed

lemma keeps_sick: "keeps R (sick_protocol_process s buf len h)"
  unfolding sick_protocol_process_def Let_def
  by (intro keeps_intros keeps_pure keepsv_answer_request keeps_note_measure keeps_extra_reply keeps_apply_enable)

lemma pc_reply_R:
  assumes "pc_reply s c n h w = Some w'"
  shows "R w w'"
proof -
  let ?w = "w\<lparr>nios2pc := (nios2pc w)\<lparr>n_command := c, n_data_len := n\<rparr>\<rparr>"
  obtain k v m where "pc2dev_packet h ?w = Some (k, v)" and "send s (send_buffer v) (word_of_nat k) h v = Some (m, w')"
    using assms by (auto simp: pc_reply_def Let_def split: bind_splits)
  moreover from this(1) obtain u sb where "only_trace ?w u" "length sb = length (send_buffer u)" "v = u\<lparr>send_buffer := sb\<rparr>"
    using pc2dev_packet_frame by blast
  ultimately have "R w ?w" "R ?w u" "R u v" "R v w'"
    by (simp_all only: to_pc only_trace_R send_buf send_R)
  then show ?thesis by (blast intro: R_trans)
qed

lemma keeps_bus:
  "keeps R (eeprom_write_byte a b h)" "keepsv R (region_save2eeprom r h)" "keeps R (save_sys_para p h)"
  "keepsv R (image_write ad d h)" "keepsv R (image_read ad h)" "keepsv R (image_erase n h)"
  "keepsv R (eeprom_sequential_read a l h)" "keepsv R (region_save2fpga r k h)" "keeps R (pc_reply s c m h)"
proof -
  have fpga: "keepsv only_trace (region_save2fpga r k h :: world \<Rightarrow> _)"
    unfolding region_save2fpga_def Let_def
    by (intro tr.keeps_intros tr.keeps_pure tr.keepsv_pure keeps_put_word keeps_at [where f = "\<lambda>d. put_word d h"])
  have save: "keepsv only_trace (region_save2eeprom r h :: world \<Rightarrow> _)"
    unfolding region_save2eeprom_def Let_def by (intro eeprom_rules)
  have para: "keeps only_trace (save_sys_para p h :: world \<Rightarrow> _)"
    unfolding save_sys_para_def Let_def by (intro tr.keeps_pure eeprom_rules)
  show "keeps R (eeprom_write_byte a b h)" "keepsv R (region_save2eeprom r h)" "keeps R (save_sys_para p h)"
    "keepsv R (image_write ad d h)" "keepsv R (image_read ad h)" "keepsv R (image_erase n h)"
    "keepsv R (eeprom_sequential_read a l h)" "keepsv R (region_save2fpga r k h)"
    by (rule keeps_mono [OF keeps_eeprom_write_byte only_trace_R] keepsv_mono [OF save only_trace_R]
        keeps_mono [OF para only_trace_R] keepsv_mono [OF keeps_flash(1) only_trace_R]
        keepsv_mono [OF keeps_flash(2) only_trace_R] keepsv_mono [OF keeps_flash(3) only_trace_R]
        keepsv_mono [OF keepsv_eeprom_sequential_read only_trace_R] keepsv_mono [OF fpga only_trace_R], assumption?)+
  show "keeps R (pc_reply s c m h)"
    by (auto simp: keeps_def intro: pc_reply_R)
qed

lemma keepsv_region_read: "keepsv R (region_read_from_rom num h)"
  unfolding keepsv_def
proof (intro allI impI)
  fix w x w'
  assume "region_read_from_rom num h w = Some (x, w')"
  then obtain bs v buf y where rd: "eeprom_sequential_read (region_addr num) (word_of_nat (TARGET_NUMBER * 2)) h w = Some (bs, v)"
    and st: "store_region bs (region_buffer (alarm_region v)) = Some buf"
    and fp: "region_save2fpga (alarm_region (v\<lparr>alarm_region := (alarm_region v)\<lparr>region_buffer := buf\<rparr>\<rparr>)) (num mod 3) h
      (v\<lparr>alarm_region := (alarm_region v)\<lparr>region_buffer := buf\<rparr>\<rparr>) = Some (y, w')"
    by (auto simp: region_read_from_rom_def Let_def split: bind_splits)
  have "R v (v\<lparr>alarm_region := (alarm_region v)\<lparr>region_buffer := buf\<rparr>\<rparr>)"
    by (rule region) (simp add: region_kept_def store_region_length [OF st])
  then show "R w w'"
    using keepsvD [OF keeps_bus(7) rd] keepsvD [OF keeps_bus(8) fp] by (blast intro: R_trans)
qed

lemma keepsv_set_alarm_region: "keepsv R (set_alarm_region buf p h)"
proof -
  have "R w (w\<lparr>alarm_region := (alarm_region w)\<lparr>select := p\<rparr>\<rparr>)" for w
    by (rule region) (simp add: region_kept_def)
  then show ?thesis
    unfolding set_alarm_region_def Let_def
    by (intro keepsv_upd [where u = "\<lambda>w. w\<lparr>alarm_region := (alarm_region w)\<lparr>select := p\<rparr>\<rparr>"]
        keeps_intros keeps_bus keepsv_at [where f = "\<lambda>n. region_read_from_rom n h", OF keepsv_region_read])
qed

lemma load_region_R:
  assumes "load_region_data buf h w = Some w'"
  shows "R w w'"
proof -
  obtain r where "store_boundary buf (alarm_region w) = Some r"
    using assms by (auto simp: load_region_data_def split: bind_splits)
  then have r: "R w (w\<lparr>alarm_region := r\<rparr>)"
    by (intro region) (rule store_boundary_kept)
  define step where "step = (\<lambda>v. if update_pos_flag (SysPara v)
       then do {
         w \<leftarrow> set_laser_paramter UPLOAD_EN DISABLE h v;
         (_, w) \<leftarrow> region_save2eeprom (alarm_region w) h w;
         set_laser_paramter UPLOAD_EN ENABLE h w }
       else do {
         (_, w) \<leftarrow> region_save2eeprom (alarm_region v) h v;
         Some w })"
  have step: "keeps R step"
    unfolding step_def
    by (intro keeps_intros keeps_sends keepsv_at [where f = "\<lambda>r. region_save2eeprom r h", OF keeps_bus(2)])
  have flag: "R v (if c then v\<lparr>alarm_region := (alarm_region v)\<lparr>change_region_flag := 1\<rparr>\<rparr> else v)" for v c
    by (simp add: R_refl region region_kept_def)
  obtain v where "step (w\<lparr>alarm_region := r\<rparr>) = Some v"
    and "w' = (if change_region_value (alarm_region v) = wr_which (alarm_region v) div 3
      then v\<lparr>alarm_region := (alarm_region v)\<lparr>change_region_flag := 1\<rparr>\<rparr> else v)"
    using assms \<open>store_boundary buf (alarm_region w) = Some r\<close> unfolding load_region_data_def Let_def step_def
    by (auto split: bind_splits)
  then show ?thesis
    using r keepsD [OF step] flag by (blast intro: R_trans)
qed

lemma keeps_update:
  "keeps R (update_write s buf p h)" "keeps R (update_read s p h)"
proof -
  have pic: "R v (case bs of None \<Rightarrow> v | Some d \<Rightarrow> v\<lparr>image := (image v)\<lparr>image_data := d\<rparr>\<rparr>)"
    if "image_read a h u = Some ((x, bs), v)" for a u x bs v
    using that by (auto simp: R_refl split: option.splits intro!: picture dest: image_read_length)
  show "keeps R (update_read s p h)"
    unfolding keeps_def
  proof (intro allI impI)
    fix w w'
    assume "update_read s p h w = Some w'"
    then obtain x bs v where rd: "image_read (sint p) h (w\<lparr>image := (image w)\<lparr>image_addr := p\<rparr>\<rparr>) = Some ((x, bs), v)"
      and rp: "pc_reply s NIOS_UP_REMOTE_UPDATE_IMAGE 260 h
        (case bs of None \<Rightarrow> v | Some d \<Rightarrow> v\<lparr>image := (image v)\<lparr>image_data := d\<rparr>\<rparr>) = Some w'"
      by (auto simp: update_read_def Let_def split: bind_splits)
    have "R w (w\<lparr>image := (image w)\<lparr>image_addr := p\<rparr>\<rparr>)"
      by (rule picture) simp
    then show "R w w'"
      using keepsvD [OF keeps_bus(5) rd] pic [OF rd] pc_reply_R [OF rp] by (blast intro: R_trans)
  qed
  show "keeps R (update_write s buf p h)"
    unfolding keeps_def
  proof (intro allI impI)
    fix w w'
    assume "update_write s buf p h w = Some w'"
    then obtain d y u x bs v where d: "slice buf 12 256 = Some d"
      and wr: "image_write (sint p) d h (w\<lparr>image := \<lparr>image_addr = p, image_data = d\<rparr>\<rparr>) = Some (y, u)"
      and rd: "image_read (sint (image_addr (image u))) h u = Some ((x, bs), v)"
      and rp: "pc_reply s NIOS_REMOTE_WRITE_REPONSE 260 h
        (case bs of None \<Rightarrow> v | Some d \<Rightarrow> v\<lparr>image := (image v)\<lparr>image_data := d\<rparr>\<rparr>) = Some w'"
      by (auto simp: update_write_def Let_def split: bind_splits)
    have "R w (w\<lparr>image := \<lparr>image_addr = p, image_data = d\<rparr>\<rparr>)"
      using slice_length [OF d] by (intro picture) simp
    then show "R w w'"
      using keepsvD [OF keeps_bus(4) wr] keepsvD [OF keeps_bus(5) rd] pic [OF rd] pc_reply_R [OF rp]
      by (blast intro: R_trans)
  qed
qed

lemma set_parameter_R:
  assumes "\<And>s. ok p \<Longrightarrow> legal_change s (store p s)" and "set_parameter ok store p h w = Some w'"
  shows "R w w'"
  using assms by (auto simp: set_parameter_def R_refl split: if_splits intro: R_trans [OF para set_laser_R])

lemma keeps_other_command: "keeps R (other_command s buf p h)"
proof -
  have legal: "legal_change s (s\<lparr>dust_threshold := p\<rparr>)"
    "length bs = 16 \<Longrightarrow> legal_change s (s\<lparr>dev_sn := bs\<rparr>)" "length bs = 20 \<Longrightarrow> legal_change s (s\<lparr>dev_type := bs\<rparr>)"
    "length bs = 30 \<Longrightarrow> legal_change s (s\<lparr>laser_presdo := bs\<rparr>)"
    "drop_bit 15 p AND 1 = 1 \<Longrightarrow> legal_change s (s\<lparr>signal_thresold := p\<rparr>)" "legal_change s (s\<lparr>apd_vol_base := p\<rparr>)" for s bs
    by (simp_all add: legal_change_def guarded_defs sys_para_wf_def)
  have upd: "keeps R (\<lambda>w. Some (w\<lparr>SysPara := (SysPara w)\<lparr>dust_threshold := p\<rparr>\<rparr>))"
    "keeps R (\<lambda>w. do { bs \<leftarrow> slice buf 8 16; Some (w\<lparr>SysPara := (SysPara w)\<lparr>dev_sn := bs\<rparr>\<rparr>) })"
    "keeps R (\<lambda>w. do { bs \<leftarrow> slice buf 8 20; Some (w\<lparr>SysPara := (SysPara w)\<lparr>dev_type := bs\<rparr>\<rparr>) })"
    "keeps R (\<lambda>w. do { bs \<leftarrow> slice buf 8 30; Some (w\<lparr>SysPara := (SysPara w)\<lparr>laser_presdo := bs\<rparr>\<rparr>) })"
    "keeps R (\<lambda>w. Some (w\<lparr>reset_nios := p\<rparr>))"
    by (auto simp: keeps_def reset split: bind_splits intro!: para legal dest: slice_length)
  have load: "keeps R (load_region_data buf h)"
    by (auto simp: keeps_def intro: load_region_R)
  have apd: "keeps R (set_apd_voltage p h)"
    unfolding keeps_def set_apd_voltage_def using legal(5,6)
    by (auto elim!: set_parameter_R [rotated])
  have tab: "keeps R (table_command p h)"
    unfolding keeps_def table_command_def
    by (auto simp: R_refl split: option.splits elim!: set_parameter_R [rotated] intro: table_store_legal)
  have rd: "keeps R (\<lambda>w. pc_reply s NIOS_UP_REGION_DATA n h (w\<lparr>alarm_region := (alarm_region w)\<lparr>rd_which := b\<rparr>\<rparr>))" for n b
    by (rule keeps_upd [where u = "\<lambda>w. w\<lparr>alarm_region := (alarm_region w)\<lparr>rd_which := b\<rparr>\<rparr>"])
      (simp add: region region_kept_def, rule keeps_bus)
  have erase: "keeps R (\<lambda>w. do { (_, w) \<leftarrow> image_erase (int i) h w; if int_ok (int i + 1) then Some w else None })" for i
    by (intro keeps_intros keeps_bus keeps_if)
  show ?thesis
    unfolding other_command_def Let_def
    by (intro keeps_if keeps_done upd load apd tab rd keeps_for erase keeps_seq keeps_bus keeps_sends keeps_update
        keeps_at [where f = "\<lambda>q. save_sys_para q h", OF keeps_bus(3)])
qed

end

locale host_frame = serve_frame +
  assumes from_pc: "R w (w\<lparr>pc2nios := c\<rparr>)"
begin

lemma parse_header_R:
  assumes "parse_header buf w = Some (p, w')"
  shows "R w w'"
proof -
  have "legal_change s (s\<lparr>pc_command_value := v\<rparr>)" for s v
    by (simp add: legal_change_def guarded_defs sys_para_wf_def)
  then show ?thesis
    using assms by (auto simp: parse_header_def Let_def split: bind_splits intro!: R_trans [OF from_pc para])
qed

lemma command_R:
  assumes "pc2dev_command s buf h w = Some (go, w')"
  shows "R w w'"
  using assms unfolding pc2dev_command_def
  by (auto split: bind_splits if_splits dest!: parse_header_R keepsvD [OF keepsv_set_alarm_region]
      keepsD [OF keeps_other_command] intro: R_trans)

lemma loop_R: "pc2dev_loop s mem pos len h w = Some w' \<Longrightarrow> R w w'"
proof -
  have "(\<lambda>s mem pos len h w w'. R w w') s mem pos len h w w'" if "pc2dev_loop s mem pos len h w = Some w'"
    by (rule pc2dev_loop.raw_induct [OF _ that])
      (auto simp: R_refl Let_def split: bind_splits if_splits dest!: command_R keepsD [OF keeps_sick], blast intro: R_trans)
  then show "pc2dev_loop s mem pos len h w = Some w' \<Longrightarrow> R w w'" by simp
qed

lemma parse_R: "pc2dev_parse s buf len h w = Some w' \<Longrightarrow> R w w'"
  unfolding pc2dev_parse_def by (rule loop_R)

end

subsection \<open>What holds across every command\<close>

definition measuring :: "world \<Rightarrow> UpDataFrame \<times> Queue \<times> Sys_warn \<times> led_time_flag_t \<times> Fpga_data_packet \<times> config_msg \<times> byte list" where
  "measuring w = (CycleData w, LaserDataQueue w, sys_warn w, led_time_flag w, fpga2nios_data w, ConfigMsg w, rx_buffer w)"

lemma only_net_simps:
  "only_net (w :: world) w' \<Longrightarrow> world_wf w' = world_wf w \<and> SysPara w' = SysPara w \<and> measuring w' = measuring w \<and>
     pc2nios w' = pc2nios w"
  by (auto simp: only_net_def world_wf_def measuring_def)

interpretation wf: host_frame "\<lambda>w w'. world_wf w \<longrightarrow> world_wf w'"
  by unfold_locales
    (auto simp: only_net_simps legal_change_def region_kept_def, auto simp: world_wf_def)

interpretation ok: host_frame "\<lambda>w w'. params_guarded (SysPara w) (SysPara w')"
  by unfold_locales (auto simp: only_net_simps legal_change_def params_guarded_refl intro: params_guarded_trans)

interpretation apart: host_frame "\<lambda>w w'. measuring w' = measuring w"
  by unfold_locales (auto simp: only_net_simps, auto simp: measuring_def)

interpretation header: serve_frame "\<lambda>w w'. pc2nios w' = pc2nios w"
  by unfold_locales (auto simp: only_net_simps)

end
