(* ===== verification/HostSpec.thy ===== *)
theory HostSpec
  imports HostFrame
begin

unbundle bit_operations_syntax

text \<open>
  What the host can rely on: the packets of a read are processed one after the other, a parameter
  command changes its parameter and informs the FPGA or does nothing, stored regions come back byte
  for byte; and where the host commands fail.
\<close>

subsection \<open>Across every command\<close>

definition demo_packet :: "byte list" where
  \<comment> \<open>\<open>PC_RESET_NIOS\<close> with value 5\<close>
  "demo_packet = [0x12, 0x34, 0x40, 0x08, 0, 0, 0, 4, 0, 0, 0, 5, 0, 0, 0, 0]"

lemma demo_header:
  "parse_header demo_packet w = Some (5, w\<lparr>pc2nios := (pc2nios w)\<lparr>p_head := 0x1234, p_command := PC_RESET_NIOS,
     p_data_len := 4\<rparr>, SysPara := (SysPara w)\<lparr>pc_command_value := pc_command_value (SysPara w) + 1\<rparr>\<rparr>)"
  by (simp add: parse_header_def demo_packet_def slice_def be32_def be16_def PC_RESET_NIOS_def Let_def)

lemma demo_parse:
  "pc2dev_parse 4 demo_packet 16 quiet_env world_init = Some (world_init\<lparr>reset_nios := 5,
     pc2nios := \<lparr>p_head = 0x1234, p_command = PC_RESET_NIOS, p_data_len = 4, p_checksum = 0\<rparr>,
     SysPara := SysPara_init\<lparr>pc_command_value := 1\<rparr>\<rparr>)"
proof -
  have "pc2dev_command 4 demo_packet quiet_env world_init = Some (True, world_init\<lparr>reset_nios := 5,
     pc2nios := \<lparr>p_head = 0x1234, p_command = PC_RESET_NIOS, p_data_len = 4, p_checksum = 0\<rparr>,
     SysPara := SysPara_init\<lparr>pc_command_value := 1\<rparr>\<rparr>)"
    by (simp add: pc2dev_command_def demo_header other_command_def PC_RESET_NIOS_def PC_SET_ALARM_REGION_def
        PC_READ_ALARM_REGION_def PC_LOAD_REGION_DATA_def PC_REQ_REGION_DATA_def PC_REQ_RADAR_PARA_def
        PC_SAVA_SYS_PARA_def world_init_def SysPara_init_def)
  moreover have "memory_from demo_packet 0 = Some demo_packet" "arr_get demo_packet 0 = Some 0x12"
    by (simp_all add: memory_from_def demo_packet_def)
  ultimately show ?thesis
    unfolding pc2dev_parse_def
    by (subst pc2dev_loop.simps, subst pc2dev_loop.simps) (simp add: int_ok_def Let_def)
qed

text \<open>C12: the checks of the commands are an invariant: whatever bytes a host sends, packets or telegrams in
  any order, a call that returns leaves every parameter of a checked command as it was or with a value
  that command accepts (\<open>guards\<close>, one entry per command, lists them all), and does not touch what the
  measuring side owns: the frame under construction, its queue, the warnings, the lamps, the network
  configuration and the receive buffer. The guard of the signal threshold is not the command's alone:
  \<open>APD_VOL_SETTING\<close> stores values with bit 15 set there unchecked, so the threshold ends at most
  1024, with bit 15 set, or as it was.\<close>

theorem host_keeps_params:
  assumes "pc2dev_parse s buf len h w = Some w'"
  shows "params_guarded (SysPara w) (SysPara w') \<and> measuring w' = measuring w"
  using ok.parse_R [OF assms] apart.parse_R [OF assms] by blast

theorem host_keeps_params_witness:
  "params_guarded (SysPara world_init) (SysPara (world_init\<lparr>reset_nios := 5,
     pc2nios := \<lparr>p_head = 0x1234, p_command = PC_RESET_NIOS, p_data_len = 4, p_checksum = 0\<rparr>,
     SysPara := SysPara_init\<lparr>pc_command_value := 1\<rparr>\<rparr>)) \<and>
   measuring (world_init\<lparr>reset_nios := 5,
     pc2nios := \<lparr>p_head = 0x1234, p_command = PC_RESET_NIOS, p_data_len = 4, p_checksum = 0\<rparr>,
     SysPara := SysPara_init\<lparr>pc_command_value := 1\<rparr>\<rparr>) = measuring world_init"
  by (rule host_keeps_params [OF demo_parse])

subsection \<open>The packets of one read\<close>

definition pc_packet :: "byte \<times> byte \<times> byte \<times> byte \<times> byte list \<times> byte list \<Rightarrow> byte list" where
  "pc_packet = (\<lambda>(m1, m0, c1, c0, payl, tl). [m1, m0, c1, c0] @ be32_bytes (word_of_nat (length payl)) @ payl @ tl)"

definition packet_needs :: "uint \<Rightarrow> nat" where
  \<comment> \<open>how many bytes of a packet the case of its command looks at\<close>
  "packet_needs c = (if c = PC_LOAD_REGION_DATA then 1631 + ZENITH_NUMBER
     else if c = PC_SET_SN then 24 else if c = PC_SET_DEV_TYPE then 28 else if c = LASER_PRESDO then 38
     else if c = PC_REMOTE_UPDATE_WRITE then 268 else 12)"

definition good_packet :: "byte \<times> byte \<times> byte \<times> byte \<times> byte list \<times> byte list \<Rightarrow> bool" where
  \<comment> \<open>not mistaken for a telegram, complete, four trailing bytes\<close>
  "good_packet = (\<lambda>(m1, m0, c1, c0, payl, tl). m1 \<noteq> 0x02 \<and> length tl = 4 \<and>
     packet_needs (be16 c1 c0) \<le> length payl + 12)"

definition refused :: "byte \<times> byte \<times> byte \<times> byte \<times> byte list \<times> byte list \<Rightarrow> bool" where
  \<comment> \<open>a selection of a region group that does not exist\<close>
  "refused p \<longleftrightarrow> be16 (pc_packet p ! 2) (pc_packet p ! 3) = PC_SET_ALARM_REGION \<and>
     15 < be32 (pc_packet p ! 8) (pc_packet p ! 9) (pc_packet p ! 10) (pc_packet p ! 11)"

primrec upto_refused ::
    "(byte \<times> byte \<times> byte \<times> byte \<times> byte list \<times> byte list) list \<Rightarrow>
     (byte \<times> byte \<times> byte \<times> byte \<times> byte list \<times> byte list) list" where
  "upto_refused [] = []"
| "upto_refused (p # ps) = p # (if refused p then [] else upto_refused ps)"

primrec serve_all ::
    "byte \<Rightarrow> (byte \<times> byte \<times> byte \<times> byte \<times> byte list \<times> byte list) list \<Rightarrow> env \<Rightarrow> world \<Rightarrow> world option" where
  \<comment> \<open>the commands one after the other, each with the bytes of its own packet and no others\<close>
  "serve_all s [] h w = Some w"
| "serve_all s (p # ps) h w = do {
     (_, w) \<leftarrow> pc2dev_command s (pc_packet p) h w;
     serve_all s ps h w
   }"

definition local_packet :: "byte \<times> byte \<times> byte \<times> byte \<times> byte list \<times> byte list \<Rightarrow> bool" where
  \<comment> \<open>commands that neither answer over the network nor wait for the flash chip\<close>
  "local_packet p \<longleftrightarrow> be16 (pc_packet p ! 2) (pc_packet p ! 3) \<notin> {PC_READ_ALARM_REGION, PC_REQ_REGION_DATA,
     PC_REQ_RADAR_PARA, PC_REMOTE_UPDATE_WRITE, PC_REMOTE_UPDATE_READ, PC_REMOTE_UPDATE_ERASE}"

text \<open>A command looks at no byte behind its packet.\<close>

lemma for_each_same:
  "(\<And>x s. x \<in> set xs \<Longrightarrow> f x s = g x s) \<Longrightarrow> for_each xs f s = for_each xs g s"
proof (induction xs arbitrary: s)
  case (Cons x xs)
  then show ?case by (cases "g x s") simp_all
qed simp

lemma reads_inside:
  "i < length b \<Longrightarrow> arr_get (b @ r) i = arr_get b i"
  "off + n \<le> length b \<Longrightarrow> slice (b @ r) off n = slice b off n"
  by (simp_all add: arr_get_def nth_append slice_def)

lemma store_boundary_inside:
  assumes "1631 + ZENITH_NUMBER \<le> length b"
  shows "store_boundary (b @ r) reg = store_boundary b reg"
proof -
  have first: "arr_get (b @ r) (i + 9) = arr_get b (i + 9) \<and> arr_get (b @ r) (i + 1 + 9) = arr_get b (i + 1 + 9)"
    if "i \<in> set (map (\<lambda>k. 2 * k) [0..<TARGET_NUMBER])" for i
    using that assms by (auto simp: TARGET_NUMBER_def ZENITH_NUMBER_def intro!: reads_inside)
  have second: "arr_get (b @ r) (1631 + i) = arr_get b (1631 + i)" if "i \<in> set [0..<ZENITH_NUMBER]" for i
    using that assms by (intro reads_inside) simp
  have "arr_get (b @ r) 8 = arr_get b 8" using assms by (intro reads_inside) simp
  then show ?thesis
    unfolding store_boundary_def Let_def
    by (intro Option.bind_cong refl for_each_same) (use first second in blast)+
qed

lemma other_command_inside:
  assumes "packet_needs (p_command (pc2nios w)) \<le> length b"
  shows "other_command s (b @ r) v h w = other_command s b v h w"
proof -
  let ?c = "p_command (pc2nios w)"
  have "?c = PC_LOAD_REGION_DATA \<Longrightarrow> load_region_data (b @ r) h w = load_region_data b h w"
    using assms by (simp add: packet_needs_def load_region_data_def store_boundary_inside)
  moreover have "?c = PC_SET_SN \<Longrightarrow> slice (b @ r) 8 16 = slice b 8 16"
    "?c = PC_SET_DEV_TYPE \<Longrightarrow> slice (b @ r) 8 20 = slice b 8 20" "?c = LASER_PRESDO \<Longrightarrow> slice (b @ r) 8 30 = slice b 8 30"
    "?c = PC_REMOTE_UPDATE_WRITE \<Longrightarrow> update_write s (b @ r) v h w = update_write s b v h w"
    using assms by (auto simp: packet_needs_def update_write_def host_commands fpga_commands reads_inside)
  ultimately show ?thesis
    unfolding other_command_def Let_def by (simp cong: if_cong)
qed

lemma header_command:
  assumes "parse_header b w = Some (v, u)"
  shows "12 \<le> length b" "p_command (pc2nios u) = be16 (b ! 2) (b ! 3)" "v = be32 (b ! 8) (b ! 9) (b ! 10) (b ! 11)"
  using assms by (auto simp: parse_header_def slice_eq_Some Let_def split: bind_splits)

lemma command_inside:
  assumes "12 \<le> length b" and "packet_needs (be16 (b ! 2) (b ! 3)) \<le> length b"
  shows "pc2dev_command s (b @ r) h w = pc2dev_command s b h w"
proof -
  have same: "parse_header (b @ r) w = parse_header b w"
    using assms(1) by (simp add: parse_header_def reads_inside)
  obtain v u where u: "parse_header b w = Some (v, u)"
    using assms(1) by (auto simp: parse_header_def slice_def Let_def)
  have "set_alarm_region (b @ r) v h u = set_alarm_region b v h u"
    using nth_append_left [of 10 b r] nth_append_left [of 11 b r] assms(1) by (simp only: set_alarm_region_def)
  moreover have "other_command s (b @ r) v h u = other_command s b v h u"
    using assms(2) by (intro other_command_inside) (simp add: header_command(2) [OF u])
  ultimately show ?thesis by (simp add: pc2dev_command_def same u)
qed

lemma command_goes_on:
  assumes "pc2dev_command s (pc_packet p) h w = Some (go, w')"
  shows "go \<longleftrightarrow> \<not> refused p"
proof -
  obtain v u where u: "parse_header (pc_packet p) w = Some (v, u)"
    using assms by (auto simp: pc2dev_command_def split: bind_splits)
  have "set_alarm_region (pc_packet p) v h u = Some (go, w') \<Longrightarrow> go \<longleftrightarrow> v \<le> 15"
    unfolding set_alarm_region_def by (auto simp: Let_def split: bind_splits if_splits)
  then show ?thesis
    using assms u header_command [OF u] by (auto simp: pc2dev_command_def refused_def split: bind_splits if_splits)
qed

lemma command_header:
  assumes "pc2dev_command s buf h w = Some (go, w')"
  shows "p_data_len (pc2nios w') = be32 (buf ! 4) (buf ! 5) (buf ! 6) (buf ! 7)"
proof -
  obtain p v where ph: "parse_header buf w = Some (p, v)" and "pc2nios w' = pc2nios v"
    using assms unfolding pc2dev_command_def
    by (auto split: bind_splits if_splits dest!: keepsvD [OF header.keepsv_set_alarm_region]
        keepsD [OF header.keeps_other_command])
  then show ?thesis
    by (auto simp: parse_header_def slice_eq_Some Let_def split: bind_splits)
qed

lemma packet_complete:
  assumes "good_packet p"
  shows "12 \<le> length (pc_packet p)" "packet_needs (be16 (pc_packet p ! 2) (pc_packet p ! 3)) \<le> length (pc_packet p)"
  using assms by (cases p; simp add: good_packet_def pc_packet_def be32_bytes_def)+

lemma packet_fields:
  assumes "good_packet p" and "length (pc_packet p) < 2 ^ 31"
  shows "pc_packet p ! 0 \<noteq> 0x02" "pc_packet p \<noteq> []"
    "sint (be32 ((pc_packet p @ rest) ! 4) ((pc_packet p @ rest) ! 5) ((pc_packet p @ rest) ! 6)
       ((pc_packet p @ rest) ! 7) + 12) = int (length (pc_packet p))"
proof -
  obtain m1 m0 c1 c0 payl tl where p: "p = (m1, m0, c1, c0, payl, tl)" by (cases p)
  have len: "length (pc_packet p) = length payl + 12"
    using assms(1) by (simp add: p pc_packet_def good_packet_def be32_bytes_def)
  show "pc_packet p ! 0 \<noteq> 0x02" "pc_packet p \<noteq> []"
    using assms(1) by (simp_all add: p pc_packet_def good_packet_def)
  have "be32 ((pc_packet p @ rest) ! 4) ((pc_packet p @ rest) ! 5) ((pc_packet p @ rest) ! 6) ((pc_packet p @ rest) ! 7)
      = word_of_nat (length payl)"
    by (simp add: p pc_packet_def be32_bytes_def)
  moreover have "sint (word_of_nat (length payl) + 12 :: uint) = int (length payl + 12)"
  proof -
    have "signed_take_bit 31 (int (length payl + 12)) = int (length payl + 12)"
      using assms(2) len by (intro signed_take_bit_int_eq_self) simp_all
    then show ?thesis
      using signed_of_nat [of "length payl + 12", where 'a = int and 'b = 32] by simp
  qed
  ultimately show "sint (be32 ((pc_packet p @ rest) ! 4) ((pc_packet p @ rest) ! 5) ((pc_packet p @ rest) ! 6)
       ((pc_packet p @ rest) ! 7) + 12) = int (length (pc_packet p))"
    by (simp add: len)
qed

lemma loop_packets:
  assumes "list_all good_packet ps" and "length (concat (map pc_packet ps)) < 2 ^ 31"
  shows "pc2dev_loop s (pre @ concat (map pc_packet ps) @ rest) (int (length pre))
    (int (length (concat (map pc_packet ps)))) h w = serve_all s (upto_refused ps) h w"
  using assms
proof (induction ps arbitrary: pre w)
  case Nil
  then show ?case by (simp add: pc2dev_loop.simps)
next
  case (Cons p ps)
  let ?q = "pc_packet p" and ?r = "concat (map pc_packet ps)"
  have small: "length ?q < 2 ^ 31" and good: "good_packet p"
    using Cons.prems by auto
  note f = packet_fields [OF good small]
  have mem: "memory_from (pre @ (?q @ ?r) @ rest) (int (length pre)) = Some (?q @ ?r @ rest)"
    by (simp add: memory_from_def)
  have hd: "arr_get (?q @ ?r @ rest) 0 = Some (?q ! 0)"
    using f(2) by (simp add: arr_get_def nth_append)
  have len: "int (length (?q @ ?r)) \<noteq> 0" "int_ok (int (length ?r))"
    using f(2) Cons.prems(2) by (cases "pc_packet p"; simp add: int_ok_def)+
  have step: "int (length (?q @ ?r)) - int (length ?q) = int (length ?r)"
    "int (length pre) + int (length ?q) = int (length (pre @ ?q))"
    by simp_all
  have IH: "pc2dev_loop s (pre @ (?q @ ?r) @ rest) (int (length (pre @ ?q))) (int (length ?r)) h v = serve_all s (upto_refused ps) h v" for v
    using Cons.IH [of "pre @ ?q" v] Cons.prems by simp
  have own: "pc2dev_command s (?q @ ?r @ rest) h w = pc2dev_command s ?q h w"
    using packet_complete [OF good] by (rule command_inside)
  show ?case
  proof (cases "pc2dev_command s ?q h w")
    case None
    then show ?thesis
      using f(1) len(1) mem hd own by (subst pc2dev_loop.simps) simp
  next
    case (Some gw)
    then obtain go v where q: "pc2dev_command s ?q h w = Some (go, v)" by (cases gw) simp
    then have gw: "pc2dev_command s (?q @ ?r @ rest) h w = Some (go, v)" using own by simp
    note go = command_goes_on [OF q]
    have pl: "sint (p_data_len (pc2nios v) + 12) = int (length ?q)"
      using command_header [OF gw] f(3) [of "?r @ rest"] by simp
    show ?thesis
      unfolding list.map concat.simps
      by (subst pc2dev_loop.simps)
        (use f(1,2) len mem hd pl IH gw q go step in \<open>simp add: Let_def del: length_append append_assoc\<close>)
  qed
qed

text \<open>Commands that wait for no other chip return.\<close>

lemma set_parameter_returns: "\<exists>w'. set_parameter ok store v h w = Some w'"
  using set_laser_total [of "p_command (pc2nios w)" v h "w\<lparr>SysPara := store v (SysPara w)\<rparr>"] by (auto simp: set_parameter_def)

lemma set_alarm_region_returns:
  assumes "world_wf w"
  shows "\<exists>go w'. set_alarm_region b v h w = Some (go, w')"
proof -
  have rd: "\<exists>u'. region_read_from_rom n h u = Some (True, u') \<and> world_wf u'" if "world_wf u" for n u
    using that region_read_returns [of u n h] keepsvD [OF wf.keepsv_region_read] by (fastforce simp: world_wf_def TARGET_NUMBER_def)
  let ?w = "w\<lparr>alarm_region := (alarm_region w)\<lparr>select := v\<rparr>\<rparr>"
  obtain e where e: "(do { w \<leftarrow> eeprom_write_byte (CUR_ALARM_GROUP + 2) (b ! 10) h ?w; eeprom_write_byte (CUR_ALARM_GROUP + 3) (b ! 11) h w }) =
      Some (logged ?w e)"
    by (simp add: eeprom_write_byte_result)
  have "world_wf (logged ?w e)" using assms by (simp add: world_wf_def logged_def)
  then obtain w1 where 1: "region_read_from_rom (unat (select (alarm_region (logged ?w e)) * 3 + 0)) h (logged ?w e) = Some (True, w1)" "world_wf w1"
    using rd by blast
  obtain w2 where 2: "region_read_from_rom (unat (select (alarm_region w1) * 3 + 1)) h w1 = Some (True, w2)" "world_wf w2"
    using rd [OF 1(2)] by blast
  obtain w3 where 3: "region_read_from_rom (unat (select (alarm_region w2) * 3 + 2)) h w2 = Some (True, w3)"
    using rd [OF 2(2)] by blast
  show ?thesis
  proof (cases "v \<le> 15")
    case True
    then show ?thesis
      using e 1(1) 2(1) 3 by (auto simp: set_alarm_region_def Let_def split: bind_splits)
  next
    case False
    then show ?thesis by (auto simp: set_alarm_region_def Let_def)
  qed
qed

lemma store_boundary_returns:
  assumes "1631 + ZENITH_NUMBER \<le> length b" and "length (region_buffer r) = TARGET_NUMBER" and "length (zenith_save r) = 150"
  shows "\<exists>r'. store_boundary b r = Some r'"
proof -
  define P where "P = (\<lambda>r :: region_t. length (region_buffer r) = TARGET_NUMBER \<and> length (zenith_save r) = 150)"
  have total: "\<exists>s'. for_each xs f s = Some s' \<and> P s'" if "P s" and "\<And>x s. x \<in> set xs \<Longrightarrow> P s \<Longrightarrow> \<exists>s'. f x s = Some s' \<and> P s'"
    for xs :: "nat list" and f s
    using that
  proof (induction xs arbitrary: s)
    case (Cons x xs)
    then obtain s1 where "f x s = Some s1" "P s1" by force
    moreover from this(2) have "\<exists>s'. for_each xs f s1 = Some s' \<and> P s'" using Cons.prems(2) by (intro Cons.IH) auto
    ultimately show ?case by simp
  qed simp
  let ?F = "\<lambda>i region. do {
        hi \<leftarrow> arr_get b (i + 9);
        lo \<leftarrow> arr_get b (i + 1 + 9);
        let recv_pos = (ucast (be16 hi lo) :: half);
        xs \<leftarrow> arr_set (region_buffer region) (i div 2) recv_pos;
        Some (region\<lparr>region_buffer := xs\<rparr>) }"
  have "\<exists>m. for_each (map (\<lambda>k. 2 * k) [0..<TARGET_NUMBER]) ?F (r\<lparr>wr_which := b ! 8\<rparr>) = Some m \<and> P m"
    by (rule total) (use assms in \<open>auto simp: P_def TARGET_NUMBER_def ZENITH_NUMBER_def\<close>)
  then obtain m where m: "for_each (map (\<lambda>k. 2 * k) [0..<TARGET_NUMBER]) ?F (r\<lparr>wr_which := b ! 8\<rparr>) = Some m" "P m"
    by blast
  have "\<exists>r'. for_each [0..<ZENITH_NUMBER] (\<lambda>i region. do {
        b \<leftarrow> arr_get b (1631 + i);
        xs \<leftarrow> arr_set (zenith_save region) i b;
        Some (region\<lparr>zenith_save := xs\<rparr>) }) m = Some r' \<and> P r'"
    by (rule total [OF m(2)]) (use assms(1) in \<open>auto simp: P_def ZENITH_NUMBER_def\<close>)
  then show ?thesis using m(1) assms(1) by (auto simp: store_boundary_def)
qed

lemma load_region_returns:
  assumes "1631 + ZENITH_NUMBER \<le> length b" and "world_wf w"
  shows "\<exists>w'. load_region_data b h w = Some w'"
proof -
  obtain r where r: "store_boundary b (alarm_region w) = Some r"
    using store_boundary_returns [OF assms(1)] assms(2) by (auto simp: world_wf_def)
  have len: "length (region_buffer r) = 811" "103 \<le> length (zenith_save r)"
    using store_boundary_kept [OF r] assms(2) by (simp_all add: region_kept_def world_wf_def TARGET_NUMBER_def)
  let ?w = "w\<lparr>alarm_region := r\<rparr>"
  obtain a where a: "set_laser_paramter UPLOAD_EN DISABLE h ?w = Some a" using set_laser_total by blast
  have "alarm_region a = r"
    using set_laser_silent [of UPLOAD_EN DISABLE h ?w] a by (auto simp: logged_def)
  moreover obtain e where "region_save2eeprom r h a = Some (True, logged a e)"
    using region_save2eeprom_total [OF len] by blast
  moreover obtain c where "set_laser_paramter UPLOAD_EN ENABLE h (logged a e) = Some c" using set_laser_total by blast
  moreover obtain e' where "region_save2eeprom r h ?w = Some (True, logged ?w e')"
    using region_save2eeprom_total [OF len] by blast
  ultimately show ?thesis using r a by (simp add: load_region_data_def Let_def)
qed

lemma local_returns:
  assumes "good_packet p" and "local_packet p" and "world_wf w"
  shows "\<exists>go w'. pc2dev_command s (pc_packet p) h w = Some (go, w') \<and> world_wf w'"
proof -
  let ?b = "pc_packet p"
  obtain v u where u: "parse_header ?b w = Some (v, u)"
    using packet_complete(1) [OF assms(1)] by (auto simp: parse_header_def slice_def Let_def)
  have wf: "world_wf u" using wf.parse_header_R [OF u] assms(3) by blast
  note c = header_command(2) [OF u]
  have needs: "packet_needs (p_command (pc2nios u)) \<le> length ?b" using packet_complete(2) [OF assms(1)] c by simp
  have "\<exists>w'. other_command s ?b v h u = Some w'"
    using assms(2) c needs load_region_returns [OF _ wf] save_sys_para_total [of "SysPara u" h u] wf set_parameter_returns
    unfolding other_command_def Let_def local_packet_def set_apd_voltage_def table_command_def
    by (auto simp: packet_needs_def host_commands fpga_commands slice_Some world_wf_def split: option.splits)
  then obtain x where "other_command s ?b v h u = Some x" by blast
  then have "\<exists>go w'. pc2dev_command s ?b h w = Some (go, w')"
    using set_alarm_region_returns [OF wf, of ?b v h] u by (auto simp: pc2dev_command_def)
  then show ?thesis using wf.command_R assms(3) by blast
qed

lemma serve_all_returns:
  assumes "list_all good_packet ps" and "list_all local_packet ps" and "world_wf w"
  shows "\<exists>w'. serve_all s ps h w = Some w' \<and> world_wf w'"
  using assms
proof (induction ps arbitrary: w)
  case (Cons p ps)
  then obtain go u where "pc2dev_command s (pc_packet p) h w = Some (go, u)" "world_wf u"
    using local_returns [of p w s h] by auto
  with Cons show ?case by simp
qed simp

lemma upto_refused_good: "list_all good_packet ps \<Longrightarrow> list_all good_packet (upto_refused ps)"
  by (induction ps) auto

text \<open>C3: a read that holds whole packets, each with the four trailing bytes, complete for its command,
  with its true length and not opening with the start byte of a telegram, is processed packet by packet in
  order, each command seeing the bytes of its own packet only and nothing of what lies behind the
  received bytes, up to and including the first packet that selects a region group that does not exist: there
  the function returns and drops the packets behind it. When the packets up to there neither ask for an
  answer over the network nor concern the flash chip, the call returns, whatever the EEPROM and the
  FPGA do.\<close>

theorem host_packet_stream:
  assumes "list_all good_packet ps" and "length (concat (map pc_packet ps)) < 2 ^ 31"
  shows "pc2dev_parse s (concat (map pc_packet ps) @ rest) (int (length (concat (map pc_packet ps)))) h w =
      serve_all s (upto_refused ps) h w \<and>
    (world_wf w \<and> list_all local_packet (upto_refused ps) \<longrightarrow>
      (\<exists>w'. pc2dev_parse s (concat (map pc_packet ps) @ rest) (int (length (concat (map pc_packet ps)))) h w = Some w' \<and>
        world_wf w'))"
proof -
  have "pc2dev_parse s (concat (map pc_packet ps) @ rest) (int (length (concat (map pc_packet ps)))) h w =
      serve_all s (upto_refused ps) h w"
    using loop_packets [OF assms, of s "[]"] by (simp add: pc2dev_parse_def)
  then show ?thesis using serve_all_returns [OF upto_refused_good [OF assms(1)]] by auto
qed

text \<open>The witness: a reset command, a refused selection, and a threshold that is dropped.\<close>

definition demo_stream :: "(byte \<times> byte \<times> byte \<times> byte \<times> byte list \<times> byte list) list" where
  "demo_stream = [(0x12, 0x34, 0x40, 0x08, [0, 0, 0, 5], [0, 0, 0, 0]), (0x12, 0x34, 0x40, 0x01, [0, 0, 0, 16], [0, 0, 0, 0]),
     (0x12, 0x34, 0x40, 0x11, [0, 0, 1, 0], [0, 0, 0, 0])]"

theorem host_packet_stream_witness:
  "\<exists>w'. pc2dev_parse 4 (concat (map pc_packet demo_stream) @ [7]) 48 quiet_env world_init = Some w' \<and>
    reset_nios w' = 5 \<and> select (alarm_region w') = 16 \<and> dust_threshold (SysPara w') = dust_threshold SysPara_init \<and> world_wf w'"
proof -
  have len: "int (length (concat (map pc_packet demo_stream))) = 48"
    by (simp add: demo_stream_def pc_packet_def be32_bytes_def)
  have good: "list_all good_packet demo_stream" "list_all local_packet (upto_refused demo_stream)"
    by (simp_all add: demo_stream_def good_packet_def local_packet_def refused_def pc_packet_def be32_bytes_def packet_needs_def
        be16_def be32_def host_commands fpga_commands)
  have "length (concat (map pc_packet demo_stream)) < 2 ^ 31" using len by simp
  from host_packet_stream [OF good(1) this, of 4 "[7]" quiet_env world_init, unfolded len]
  have "pc2dev_parse 4 (concat (map pc_packet demo_stream) @ [7]) 48 quiet_env world_init =
      serve_all 4 (upto_refused demo_stream) quiet_env world_init"
    "\<exists>w'. pc2dev_parse 4 (concat (map pc_packet demo_stream) @ [7]) 48 quiet_env world_init = Some w' \<and> world_wf w'"
    using good(2) world_init_wf by blast+
  moreover have "\<exists>w'. serve_all 4 (upto_refused demo_stream) quiet_env world_init = Some w' \<and> reset_nios w' = 5 \<and>
      select (alarm_region w') = 16 \<and> dust_threshold (SysPara w') = dust_threshold SysPara_init"
    by (simp add: demo_stream_def refused_def pc_packet_def be32_bytes_def pc2dev_command_def parse_header_def slice_def
        be16_def be32_def other_command_def set_alarm_region_def host_commands fpga_commands Let_def)
  ultimately show ?thesis by auto
qed

text \<open>C1: the length field is trusted: a packet that declares 2^32 - 12 bytes of data has the total length 0,
  so every pass of the loop is defined, changes neither the pointer nor the remaining length, and the
  call never returns, whatever the command's argument and whatever follows.\<close>

definition stuck_header :: "byte list" where
  "stuck_header = [0x12, 0x34, 0, 0, 0xff, 0xff, 0xff, 0xf4]"

lemma stuck_command:
  assumes "4 \<le> length rest"
  shows "\<exists>w'. pc2dev_command s (stuck_header @ rest) h w = Some (True, w') \<and> sint (p_data_len (pc2nios w') + 12) = 0"
proof -
  obtain p u where ph: "parse_header (stuck_header @ rest) w = Some (p, u)"
    and c: "p_command (pc2nios u) = 0"
    using assms by (auto simp: parse_header_def slice_def stuck_header_def be16_def Let_def)
  have "map_of para_table 0 = None"
    using special_commands by (simp add: map_of_eq_None_iff)
  then have "pc2dev_command s (stuck_header @ rest) h w = Some (True, u)"
    using ph c by (simp add: pc2dev_command_def other_command_def table_command_def host_commands fpga_commands)
  moreover from command_header [OF this] have "p_data_len (pc2nios u) = 0xfffffff4"
    by (simp add: stuck_header_def be32_def)
  ultimately show ?thesis by simp
qed

theorem host_hang:
  assumes "4 \<le> length rest" and "len \<noteq> 0" and "int_ok len"
  shows "(\<forall>w. \<exists>w'. pc2dev_command s (stuck_header @ rest) h w = Some (True, w') \<and>
      sint (p_data_len (pc2nios w') + 12) = 0) \<and>
    pc2dev_parse s (stuck_header @ rest) len h w = None"
proof -
  note pass = stuck_command [OF assms(1)]
  have "\<not> (pos = 0 \<and> l = len \<and> mem = stuck_header @ rest \<and> hh = h \<and> s' = s)"
    if "pc2dev_loop s' mem pos l hh v = Some y" for s' mem pos l hh v y
    using that
  proof (rule pc2dev_loop.raw_induct [rotated, where P = "\<lambda>s' mem pos l hh v y.
      \<not> (pos = 0 \<and> l = len \<and> mem = stuck_header @ rest \<and> hh = h \<and> s' = s)"])
    fix loop :: "byte \<Rightarrow> byte list \<Rightarrow> int \<Rightarrow> int \<Rightarrow> env \<Rightarrow> world \<Rightarrow> world option" and s' mem pos l hh v y
    assume IH: "\<And>s' mem pos l hh v y. loop s' mem pos l hh v = Some y \<Longrightarrow>
        \<not> (pos = 0 \<and> l = len \<and> mem = stuck_header @ rest \<and> hh = h \<and> s' = s)"
      and step: "(if l = 0 then Some v
        else memory_from mem pos \<bind> (\<lambda>buf. arr_get buf 0 \<bind> (\<lambda>b.
          if b = 2 then sick_protocol_process s' buf l hh v
          else pc2dev_command s' buf hh v \<bind> (\<lambda>(go, w).
            if go then let packet_len = sint (p_data_len (pc2nios w) + 12) in
              if int_ok (l - packet_len) then loop s' mem (pos + packet_len) (l - packet_len) hh w else None
            else Some w)))) = Some y"
    show "\<not> (pos = 0 \<and> l = len \<and> mem = stuck_header @ rest \<and> hh = h \<and> s' = s)"
    proof
      assume eq: "pos = 0 \<and> l = len \<and> mem = stuck_header @ rest \<and> hh = h \<and> s' = s"
      obtain w' where "pc2dev_command s (stuck_header @ rest) h v = Some (True, w')"
        and "sint (p_data_len (pc2nios w') + 12) = 0"
        using pass by blast
      moreover have "memory_from (stuck_header @ rest) 0 = Some (stuck_header @ rest)"
        "arr_get (stuck_header @ rest) 0 = Some 0x12"
        by (simp_all add: memory_from_def stuck_header_def)
      ultimately have "loop s (stuck_header @ rest) 0 len h w' = Some y"
        using step eq assms(2,3) by (simp add: Let_def)
      from IH [OF this] eq show False by simp
    qed
  qed
  then have "pc2dev_parse s (stuck_header @ rest) len h w = None"
    unfolding pc2dev_parse_def by (metis not_None_eq)
  then show ?thesis using pass by blast
qed

theorem host_hang_witness:
  "(\<forall>w. \<exists>w'. pc2dev_command 4 (stuck_header @ [0, 0, 0, 0]) quiet_env w = Some (True, w') \<and>
      sint (p_data_len (pc2nios w') + 12) = 0) \<and>
    pc2dev_parse 4 (stuck_header @ [0, 0, 0, 0]) 12 quiet_env world_init = None"
  by (rule host_hang) (simp_all add: int_ok_def)

subsection \<open>Setting parameters\<close>

text \<open>C17: a parameter command: a value its guard accepts becomes the member of the parameters, and the FPGA
  receives one frame with the command and the value; a refused value changes nothing but the count of
  commands and the record of the packet's header.\<close>

theorem parameter_command:
  assumes "parse_header buf w = Some (v, u)" and "map_of para_table (p_command (pc2nios u)) = Some (ok, store)"
    and "never_full h PROTOCOL_FIFO_IN_CSR_BASE"
  shows "if ok v
    then \<exists>evs. pc2dev_command s buf h w = Some (True, logged (u\<lparr>SysPara := store v (SysPara u),
        Nios2FPGA_pck := ucast (ucast (p_command (pc2nios u)) :: half)\<rparr>) evs) \<and>
      fpga_words evs = para_frame (p_command (pc2nios u)) v
    else pc2dev_command s buf h w = Some (True, u)"
proof -
  let ?c = "p_command (pc2nios u)"
  have mem: "?c \<in> set (map fst para_table)"
    using map_of_SomeD [OF assms(2)] by force
  have cmd: "pc2dev_command s buf h w = do { w \<leftarrow> set_parameter ok store v h u; Some (True, w) }"
    unfolding pc2dev_command_def assms(1)
    by (simp add: table_case(1) [OF mem refl] table_case(2) [OF mem refl] table_command_def assms(2))
  obtain evs where "set_laser_paramter ?c v h (u\<lparr>SysPara := store v (SysPara u)\<rparr>) =
      Some (logged (u\<lparr>SysPara := store v (SysPara u), Nios2FPGA_pck := ucast (ucast ?c :: half)\<rparr>) evs)"
    and "fpga.sees evs (para_frame ?c v)"
    using set_laser_sees [OF assms(3), of ?c v "u\<lparr>SysPara := store v (SysPara u)\<rparr>"] by auto
  then show ?thesis
    by (auto simp: cmd set_parameter_def dest: sees_fpga)
qed

definition motor_packet :: "byte \<Rightarrow> byte list" where
  "motor_packet v = [0x12, 0x34, 0xa2, 0x01, 0, 0, 0, 4, 0, 0, 0, v, 0, 0, 0, 0]"

lemma motor_header:
  "parse_header (motor_packet v) w = Some (ucast v, w\<lparr>pc2nios := (pc2nios w)\<lparr>p_head := 0x1234,
     p_command := MOTOR_SPEED, p_data_len := 4\<rparr>,
     SysPara := (SysPara w)\<lparr>pc_command_value := pc_command_value (SysPara w) + 1\<rparr>\<rparr>)"
  by (simp add: parse_header_def motor_packet_def slice_def be32_def be16_def MOTOR_SPEED_def Let_def)

lemma motor_entry:
  "map_of para_table MOTOR_SPEED = Some (\<lambda>p. p \<ge> 8 \<and> p \<le> 15, \<lambda>p s. s\<lparr>motor_expect_speed := p\<rparr>)"
  by (rule map_of_is_SomeI [OF table_keys_distinct])
    (simp add: para_table_def para_table_laser_def)

theorem parameter_command_witness:
  "\<exists>u evs. pc2dev_command 4 (motor_packet 12) quiet_env world_init = Some (True, logged
       (u\<lparr>SysPara := (SysPara u)\<lparr>motor_expect_speed := 12\<rparr>, Nios2FPGA_pck := ucast (ucast MOTOR_SPEED :: half)\<rparr>) evs) \<and>
     fpga_words evs = para_frame MOTOR_SPEED 12"
proof -
  obtain u where "parse_header (motor_packet 12) world_init = Some (12, u)" and c: "p_command (pc2nios u) = MOTOR_SPEED"
    using motor_header [of 12 world_init] by auto
  from parameter_command [OF this(1) _ quiet_env_protocol, of _ _ 4] motor_entry show ?thesis
    unfolding c by fastforce
qed

text \<open>The high-voltage setting is not limited: its guard looks at six bits only and accepts every value,
  and with bit 15 set the value becomes the signal threshold, which the command of that name would have
  refused above 1024.\<close>

theorem apd_unguarded:
  assumes "parse_header buf w = Some (v, u)" and "p_command (pc2nios u) = APD_VOL_SETTING"
    and "never_full h PROTOCOL_FIFO_IN_CSR_BASE"
  shows "(\<exists>evs. pc2dev_command s buf h w = Some (True, logged (u\<lparr>SysPara :=
        if bit v 15 then (SysPara u)\<lparr>signal_thresold := v\<rparr> else (SysPara u)\<lparr>apd_vol_base := v\<rparr>,
        Nios2FPGA_pck := ucast (ucast APD_VOL_SETTING :: half)\<rparr>) evs) \<and>
      fpga_words evs = para_frame APD_VOL_SETTING v) \<and>
    (\<exists>ok store. map_of para_table SIGNAL_THRESHOLD = Some (ok, store) \<and> \<not> ok 0x8000)"
proof -
  have guard: "v AND 0x3f \<le> 1024"
  proof -
    have "v AND 0x3f \<le> 0x3f" by (rule word_and_le1)
    then show ?thesis by (rule order_trans) simp
  qed
  have bit15: "drop_bit 15 v AND 0x01 = 0x01 \<longleftrightarrow> bit v 15"
    by (simp add: and_one_eq odd_iff_mod_2_eq_one bit_iff_odd_drop_bit)
  obtain evs where "set_laser_paramter APD_VOL_SETTING v h
      (u\<lparr>SysPara := if bit v 15 then (SysPara u)\<lparr>signal_thresold := v\<rparr> else (SysPara u)\<lparr>apd_vol_base := v\<rparr>\<rparr>) =
      Some (logged (u\<lparr>SysPara := if bit v 15 then (SysPara u)\<lparr>signal_thresold := v\<rparr> else (SysPara u)\<lparr>apd_vol_base := v\<rparr>,
        Nios2FPGA_pck := ucast (ucast APD_VOL_SETTING :: half)\<rparr>) evs)"
    and sees: "fpga.sees evs (para_frame APD_VOL_SETTING v)"
    using set_laser_sees [OF assms(3), of APD_VOL_SETTING v "u\<lparr>SysPara := if bit v 15
      then (SysPara u)\<lparr>signal_thresold := v\<rparr> else (SysPara u)\<lparr>apd_vol_base := v\<rparr>\<rparr>"] by auto
  moreover have "pc2dev_command s buf h w = do { w \<leftarrow> set_apd_voltage v h u; Some (True, w) }"
    unfolding pc2dev_command_def assms(1)
    by (simp add: assms(2) other_command_def Let_def host_commands fpga_commands)
  ultimately have "pc2dev_command s buf h w = Some (True, logged (u\<lparr>SysPara :=
        if bit v 15 then (SysPara u)\<lparr>signal_thresold := v\<rparr> else (SysPara u)\<lparr>apd_vol_base := v\<rparr>,
        Nios2FPGA_pck := ucast (ucast APD_VOL_SETTING :: half)\<rparr>) evs)"
    by (simp add: set_apd_voltage_def set_parameter_def guard bit15 assms(2))
  moreover have "map_of para_table SIGNAL_THRESHOLD = Some (\<lambda>p. p \<le> 1024, \<lambda>p s. s\<lparr>signal_thresold := p\<rparr>)"
    by (rule map_of_is_SomeI [OF table_keys_distinct])
      (simp add: para_table_def para_table_temp_def)
  ultimately show ?thesis
    using sees_fpga [OF sees] by auto
qed

theorem apd_unguarded_witness:
  "\<exists>u evs. pc2dev_command 4 [0x12, 0x34, 0xa7, 0x02, 0, 0, 0, 4, 0, 0, 0x80, 0] quiet_env world_init =
      Some (True, logged (u\<lparr>SysPara := (SysPara u)\<lparr>signal_thresold := 0x8000\<rparr>,
        Nios2FPGA_pck := ucast (ucast APD_VOL_SETTING :: half)\<rparr>) evs) \<and>
      fpga_words evs = para_frame APD_VOL_SETTING 0x8000"
proof -
  obtain u where "parse_header [0x12, 0x34, 0xa7, 0x02, 0, 0, 0, 4, 0, 0, 0x80, 0] world_init = Some (0x8000, u)"
    and "p_command (pc2nios u) = APD_VOL_SETTING"
    by (simp add: parse_header_def slice_def be32_def be16_def APD_VOL_SETTING_def Let_def)
  from apd_unguarded [OF this quiet_env_protocol, of 4]
  have "\<exists>evs. pc2dev_command 4 [0x12, 0x34, 0xa7, 0x02, 0, 0, 0, 4, 0, 0, 0x80, 0] quiet_env world_init =
      Some (True, logged (u\<lparr>SysPara := (SysPara u)\<lparr>signal_thresold := 0x8000\<rparr>,
        Nios2FPGA_pck := ucast (ucast APD_VOL_SETTING :: half)\<rparr>) evs) \<and>
      fpga_words evs = para_frame APD_VOL_SETTING 0x8000"
    by (simp add: bit_iff_odd_drop_bit)
  then show ?thesis by blast
qed

subsection \<open>A region comes back\<close>

lemma swap_pairs_at:
  "swap_pairs (length xs) (length ps) (xs @ concat (map (\<lambda>(a, b). [a, b]) ps) @ ys) =
     Some (xs @ concat (map (\<lambda>(a, b). [b, a]) ps) @ ys)"
proof (induction ps arbitrary: xs)
  case Nil
  then show ?case by (simp add: swap_pairs_def)
next
  case (Cons p ps)
  obtain a b where p: "p = (a, b)" by (cases p)
  have idx: "map (\<lambda>k. off + 2 * k) [0..<Suc n] = off # map (\<lambda>k. (off + 2) + 2 * k) [0..<n]" for off n :: nat
    by (rule nth_equalityI) (auto simp: nth_Cons' simp del: upt_Suc)
  show ?case
    using Cons.IH [of "xs @ [b, a]"]
    by (simp add: p swap_pairs_def idx nth_append list_update_append del: upt_Suc)
qed

lemma take_pairs:
  "2 * n \<le> length B \<Longrightarrow> concat (map (\<lambda>i. [B ! (2 * i), B ! (2 * i + 1)]) [0..<n]) = take (2 * n) B"
proof (induction n)
  case (Suc n)
  have "take (2 * Suc n) B = take (2 * n) B @ [B ! (2 * n), B ! (2 * n + 1)]"
    using Suc.prems by (simp add: take_Suc_conv_app_nth)
  then show ?case using Suc by simp
qed simp

definition be_halves :: "half list \<Rightarrow> byte list" where
  \<comment> \<open>as the host writes them\<close>
  "be_halves vs = concat (map (\<lambda>v. [ucast (drop_bit 8 v), ucast v]) vs)"

lemma be_halves_length [simp]: "length (be_halves vs) = 2 * length vs"
  by (induction vs) (simp_all add: be_halves_def)

lemma swap_half_bytes:
  "swap_pairs (length xs) (length vs) (xs @ half_bytes vs @ ys) = Some (xs @ be_halves vs @ ys)"
  using swap_pairs_at [of xs "map (\<lambda>v. (ucast v, ucast (drop_bit 8 v))) vs" ys]
  by (simp add: half_bytes_def le16_bytes_def [abs_def] be_halves_def comp_def)

lemma half_of_be16: "ucast (drop_bit 8 (ucast (be16 a b) :: half)) = a" "ucast (ucast (be16 a b) :: half) = b"
proof -
  have "be16 a b = push_bit 8 (ucast a) OR ucast b"
    unfolding be16_def by (rule add_or_disjoint) (auto simp: bit_simps dest: bit_imp_le_length)
  moreover have "\<not> bit b (8 + n)" for n
    using bit_imp_le_length [of b "8 + n"] by auto
  ultimately show "ucast (drop_bit 8 (ucast (be16 a b) :: half)) = a" "ucast (ucast (be16 a b) :: half) = b"
    by (auto intro!: bit_word_eqI simp: bit_simps)
qed

lemma store_values:
  assumes "for_each (map (\<lambda>k. 2 * k) [0..<n]) (\<lambda>i region. do {
        hi \<leftarrow> arr_get buf (i + 9);
        lo \<leftarrow> arr_get buf (i + 1 + 9);
        let recv_pos = (ucast (be16 hi lo) :: half);
        xs \<leftarrow> arr_set (region_buffer region) (i div 2) recv_pos;
        Some (region\<lparr>region_buffer := xs\<rparr>) }) r = Some r'"
  shows "n \<le> length (region_buffer r) \<and> 9 + 2 * n \<le> max 9 (length buf) \<and> r' = r\<lparr>region_buffer :=
    map (\<lambda>i. ucast (be16 (buf ! (9 + 2 * i)) (buf ! (9 + (2 * i + 1))))) [0..<n] @ drop n (region_buffer r)\<rparr>"
  using assms
proof (induction n arbitrary: r')
  case 0
  then show ?case by simp
next
  case (Suc n)
  from Suc.prems obtain m where m: "for_each (map (\<lambda>k. 2 * k) [0..<n]) (\<lambda>i region. do {
        hi \<leftarrow> arr_get buf (i + 9);
        lo \<leftarrow> arr_get buf (i + 1 + 9);
        let recv_pos = (ucast (be16 hi lo) :: half);
        xs \<leftarrow> arr_set (region_buffer region) (i div 2) recv_pos;
        Some (region\<lparr>region_buffer := xs\<rparr>) }) r = Some m"
    and rest: "10 + 2 * n < length buf" "n < length (region_buffer m)"
      "r' = m\<lparr>region_buffer := (region_buffer m)[n := ucast (be16 (buf ! (2 * n + 9)) (buf ! (10 + 2 * n)))]\<rparr>"
    by (auto simp: for_each_append arr_get_eq_Some arr_set_eq_Some split: bind_splits)
  note IH = Suc.IH [OF m]
  have less: "n < length (region_buffer r)" using IH rest(2) by auto
  then have "drop n (region_buffer r) = region_buffer r ! n # drop (Suc n) (region_buffer r)"
    by (intro Cons_nth_drop_Suc [symmetric])
  then show ?case
    using IH rest less by (simp add: list_update_append add.commute)
qed

lemma store_zeniths:
  assumes "for_each [0..<n] (\<lambda>i region. do {
        b \<leftarrow> arr_get buf (1631 + i);
        xs \<leftarrow> arr_set (zenith_save region) i b;
        Some (region\<lparr>zenith_save := xs\<rparr>) }) r = Some r'"
  shows "n \<le> length (zenith_save r) \<and> 1631 + n \<le> max 1631 (length buf) \<and>
    r' = r\<lparr>zenith_save := take n (drop 1631 buf) @ drop n (zenith_save r)\<rparr>"
  using assms
proof (induction n arbitrary: r')
  case 0
  then show ?case by simp
next
  case (Suc n)
  from Suc.prems obtain m where m: "for_each [0..<n] (\<lambda>i region. do {
        b \<leftarrow> arr_get buf (1631 + i);
        xs \<leftarrow> arr_set (zenith_save region) i b;
        Some (region\<lparr>zenith_save := xs\<rparr>) }) r = Some m"
    and rest: "1631 + n < length buf" "n < length (zenith_save m)"
      "r' = m\<lparr>zenith_save := (zenith_save m)[n := buf ! (1631 + n)]\<rparr>"
    by (auto simp: for_each_append arr_get_eq_Some arr_set_eq_Some split: bind_splits)
  note IH = Suc.IH [OF m]
  have less: "n < length (zenith_save r)" using IH rest(1,2) by auto
  then have "drop n (zenith_save r) = zenith_save r ! n # drop (Suc n) (zenith_save r)"
    by (intro Cons_nth_drop_Suc [symmetric])
  moreover have "take (Suc n) (drop 1631 buf) = take n (drop 1631 buf) @ [buf ! (1631 + n)]"
    using rest(1) by (simp add: take_Suc_conv_app_nth)
  ultimately show ?case
    using IH rest less by (simp add: list_update_append)
qed

lemma stored_region_bytes:
  assumes "store_boundary buf r = Some r'" and "length (region_buffer r) = TARGET_NUMBER"
  shows "be_halves (region_buffer r') @ take ZENITH_NUMBER (zenith_save r') = take 1725 (drop 9 buf)"
    and "length (region_buffer r') = TARGET_NUMBER" and "1734 \<le> length buf" and "ZENITH_NUMBER \<le> length (zenith_save r')"
proof -
  obtain b m where m: "for_each (map (\<lambda>k. 2 * k) [0..<TARGET_NUMBER]) (\<lambda>i region. do {
        hi \<leftarrow> arr_get buf (i + 9);
        lo \<leftarrow> arr_get buf (i + 1 + 9);
        let recv_pos = (ucast (be16 hi lo) :: half);
        xs \<leftarrow> arr_set (region_buffer region) (i div 2) recv_pos;
        Some (region\<lparr>region_buffer := xs\<rparr>) }) (r\<lparr>wr_which := b\<rparr>) = Some m"
    and z: "for_each [0..<ZENITH_NUMBER] (\<lambda>i region. do {
        b \<leftarrow> arr_get buf (1631 + i);
        xs \<leftarrow> arr_set (zenith_save region) i b;
        Some (region\<lparr>zenith_save := xs\<rparr>) }) m = Some r'"
    using assms(1) by (auto simp: store_boundary_def split: bind_splits)
  note vs = store_values [OF m] and zs = store_zeniths [OF z]
  show len: "1734 \<le> length buf" using zs by (simp add: ZENITH_NUMBER_def max_def split: if_splits)
  let ?B = "drop 9 buf"
  have "region_buffer r' = map (\<lambda>i. ucast (be16 (?B ! (2 * i)) (?B ! (2 * i + 1)))) [0..<TARGET_NUMBER]"
    using vs zs assms(2) len by (simp add: TARGET_NUMBER_def del: upt_rec_numeral)
  then have "be_halves (region_buffer r') = concat (map (\<lambda>i. [?B ! (2 * i), ?B ! (2 * i + 1)]) [0..<TARGET_NUMBER])"
    by (simp only: be_halves_def map_map comp_def half_of_be16)
  also have "\<dots> = take 1622 ?B"
    using take_pairs [of TARGET_NUMBER ?B] len by (simp add: TARGET_NUMBER_def del: upt_rec_numeral)
  finally have "be_halves (region_buffer r') = take 1622 ?B" .
  moreover have "take ZENITH_NUMBER (zenith_save r') = take 103 (drop 1622 ?B)"
    using zs len by (simp add: ZENITH_NUMBER_def)
  moreover have "take 1725 ?B = take 1622 ?B @ take 103 (drop 1622 ?B)"
    using take_add [of 1622 103 ?B] by simp
  ultimately show "be_halves (region_buffer r') @ take ZENITH_NUMBER (zenith_save r') = take 1725 ?B"
    by simp
  show "length (region_buffer r') = TARGET_NUMBER"
    using vs zs assms(2) by simp
  show "ZENITH_NUMBER \<le> length (zenith_save r')"
    using zs len by (simp add: ZENITH_NUMBER_def)
qed

definition reply_head :: "nios2pc_t \<Rightarrow> byte list" where
  "reply_head p = [byte_of 8 (n_head p), byte_of 0 (n_head p), byte_of 8 (n_command p), byte_of 0 (n_command p)] @
     be32_bytes (n_data_len p)"

lemma reply_head_length [simp]: "length (reply_head p) = 8"
  by (simp add: reply_head_def be32_bytes_def)

lemma reply_header_at: "8 \<le> length buf \<Longrightarrow> reply_header p buf = Some (reply_head p @ drop 8 buf)"
  by (simp only: reply_header_def reply_head_def [symmetric]) (simp add: blit_def)

lemma blit_after: "length ys \<le> length zs \<Longrightarrow> n = length xs \<Longrightarrow> blit (xs @ zs) n ys = Some (xs @ ys @ drop (length ys) zs)"
  by (simp add: blit_def)

lemma xor_prefix: "n = length xs \<Longrightarrow> xor_first c (xs @ ys) n = Some (xor_all c xs)"
  by (simp add: xor_first_def slice_def xor_all_def)

lemma region_reply_bytes:
  \<comment> \<open>the five steps of the region reply on the send buffer\<close>
  assumes S: "length S = 8448" and H: "length H = 8" and vs: "length vs = TARGET_NUMBER" and z: "length z = 103"
    and P: "P = H @ [k] @ be_halves vs @ z"
  shows "arr_set (H @ drop 8 S) 8 k = Some ((H @ [k]) @ drop 9 S)"
    and "blit ((H @ [k]) @ drop 9 S) 9 (half_bytes vs @ z) = Some ((H @ [k]) @ half_bytes vs @ z @ drop 1734 S)"
    and "swap_pairs 9 TARGET_NUMBER ((H @ [k]) @ half_bytes vs @ z @ drop 1734 S) = Some (P @ drop 1734 S)"
    and "xor_first 0 (P @ drop 1734 S) 1734 = Some (xor_all 0 P)"
    and "blit (P @ drop 1734 S) 1735 [0, 0, 0, c] = Some (P @ [S ! 1734, 0, 0, 0, c] @ drop 1739 S)"
    and "length P = 1734"
proof -
  show len: "length P = 1734" by (simp add: P H vs z TARGET_NUMBER_def)
  have "drop 8 S = S ! 8 # drop 9 S" using Cons_nth_drop_Suc [of 8 S] S by simp
  then show "arr_set (H @ drop 8 S) 8 k = Some ((H @ [k]) @ drop 9 S)"
    using S H by (simp add: arr_set_def list_update_append)
  have hv: "length (half_bytes vs @ z) = 1725" by (simp add: vs z TARGET_NUMBER_def)
  have room: "length (half_bytes vs @ z) \<le> length (drop 9 S)" unfolding hv by (simp add: S)
  have nine: "9 = length (H @ [k])" and sum: "(1725 :: nat) + 9 = 1734" by (simp_all add: H)
  show "blit ((H @ [k]) @ drop 9 S) 9 (half_bytes vs @ z) = Some ((H @ [k]) @ half_bytes vs @ z @ drop 1734 S)"
    using blit_after [OF room nine] unfolding hv drop_drop sum append_assoc .
  show "swap_pairs 9 TARGET_NUMBER ((H @ [k]) @ half_bytes vs @ z @ drop 1734 S) = Some (P @ drop 1734 S)"
    using swap_half_bytes [of "H @ [k]" vs "z @ drop 1734 S"] H vs by (simp add: P TARGET_NUMBER_def)
  show "xor_first 0 (P @ drop 1734 S) 1734 = Some (xor_all 0 P)"
    using len by (simp add: xor_prefix)
  have "drop 1734 S = S ! 1734 # drop 1735 S" using Cons_nth_drop_Suc [of 1734 S] S by simp
  then show "blit (P @ drop 1734 S) 1735 [0, 0, 0, c] = Some (P @ [S ! 1734, 0, 0, 0, c] @ drop 1739 S)"
    using S len by (simp add: blit_def)
qed

text \<open>C16: a region survives the way to the EEPROM and back: when the EEPROM delivers the bytes that storing
  a received region wrote, the reply to a request for it carries exactly the 1725 bytes the host had
  sent, in the host's byte order. Behind them the reply is malformed: one byte of the send buffer left
  from earlier traffic and three zeros; the checksum is stored one place behind the last byte sent.\<close>

theorem region_reply_roundtrip:
  assumes "store_boundary buf r = Some r'" and "length (region_buffer r) = TARGET_NUMBER"
    and "n_command (nios2pc w) = NIOS_UP_REGION_DATA" and "length (send_buffer w) = 8448"
    and "eeprom_sequential_read (region_addr (unat (rd_which (alarm_region w)))) 1725 h w =
      Some (half_bytes (region_buffer r') @ take ZENITH_NUMBER (zenith_save r'), v)"
  shows "\<exists>sb. pc2dev_packet h w = Some (1738, v\<lparr>send_buffer := sb\<rparr>) \<and>
    take 1738 sb = reply_head (nios2pc w) @ [rd_which (alarm_region w)] @ take 1725 (drop 9 buf) @
      [send_buffer w ! 1734, 0, 0, 0] \<and>
    sb ! 1738 = xor_all 0 (take 1734 sb)"
proof -
  note st = stored_region_bytes [OF assms(1,2)]
  define S H k vs z where "S = send_buffer w" and "H = reply_head (nios2pc w)" and "k = rd_which (alarm_region w)"
    and "vs = region_buffer r'" and "z = take ZENITH_NUMBER (zenith_save r')"
  note parts = S_def [symmetric] H_def [symmetric] k_def [symmetric] vs_def [symmetric] z_def [symmetric]
  have lens: "length S = 8448" "length H = 8" "length vs = TARGET_NUMBER" "length z = 103"
    using assms(4) st(2,4) by (simp_all add: S_def H_def vs_def z_def ZENITH_NUMBER_def)
  have bytes: "be_halves vs @ z = take 1725 (drop 9 buf)"
    using st(1) by (simp only: vs_def z_def)
  define P c sb where "P = H @ [k] @ be_halves vs @ z" and "c = xor_all 0 P"
    and "sb = P @ [S ! 1734, 0, 0, 0, c] @ drop 1739 S"
  note steps = region_reply_bytes [OF lens P_def, folded c_def]
  have hd: "reply_header (nios2pc w) S = Some (H @ drop 8 S)"
    using lens(1) by (simp add: reply_header_at H_def)
  have n: "word_of_nat (TARGET_NUMBER * 2 + 1 + 102) = (1725 :: half)" "9 + TARGET_NUMBER * 2 + 1 + 102 = 1734"
    by (simp_all add: TARGET_NUMBER_def)
  have ne: "NIOS_UP_REGION_DATA \<noteq> NIOS_UP_ALARM_REGION" by (simp add: host_commands)
  have "pack_region_data (H @ drop 8 S) h w = Some ((1738, sb), v)"
    unfolding pack_region_data_def Let_def parts n sb_def using steps(1-4) steps(5) [of c] assms(5) [unfolded parts] by simp
  then have "pc2dev_packet h w = Some (1738, v\<lparr>send_buffer := sb\<rparr>)"
    unfolding pc2dev_packet_def Let_def parts by (simp add: hd assms(3) ne)
  moreover have "take 1738 sb = P @ [S ! 1734, 0, 0, 0]" "take 1734 sb = P" "sb ! 1738 = c"
    using steps(6) by (simp_all add: sb_def nth_append)
  ultimately show ?thesis
    unfolding parts bytes [symmetric] by (intro exI [of _ sb]) (simp add: P_def c_def)
qed

lemma for_each_defined:
  assumes "\<And>x s. x \<in> set xs \<Longrightarrow> P s \<Longrightarrow> \<exists>t. f x s = Some t \<and> P t" and "P s"
  shows "\<exists>t. for_each xs f s = Some t \<and> P t"
  using assms
proof (induction xs arbitrary: s)
  case Nil
  then show ?case by simp
next
  case (Cons x xs)
  obtain t where "f x s = Some t" "P t" using Cons.prems by (meson list.set_intros(1))
  moreover obtain u where "for_each xs f t = Some u" "P u"
    using Cons.IH [OF _ \<open>P t\<close>] Cons.prems(1) by (meson list.set_intros(2))
  ultimately show ?case by simp
qed

lemma store_boundary_defined:
  assumes "1734 \<le> length buf" and "length (region_buffer r) = TARGET_NUMBER" and "ZENITH_NUMBER \<le> length (zenith_save r)"
  shows "\<exists>r'. store_boundary buf r = Some r'"
proof -
  let ?P = "\<lambda>r. length (region_buffer r) = TARGET_NUMBER \<and> ZENITH_NUMBER \<le> length (zenith_save r)"
  let ?f = "\<lambda>i region. do {
        hi \<leftarrow> arr_get buf (i + 9);
        lo \<leftarrow> arr_get buf (i + 1 + 9);
        let recv_pos = (ucast (be16 hi lo) :: half);
        xs \<leftarrow> arr_set (region_buffer region) (i div 2) recv_pos;
        Some (region\<lparr>region_buffer := xs\<rparr>) }"
  let ?g = "\<lambda>i region. do {
        b \<leftarrow> arr_get buf (1631 + i);
        xs \<leftarrow> arr_set (zenith_save region) i b;
        Some (region\<lparr>zenith_save := xs\<rparr>) }"
  have "\<exists>t. ?f i s = Some t \<and> ?P t" if "i \<in> set (map (\<lambda>k. 2 * k) [0..<TARGET_NUMBER])" "?P s" for i and s :: region_t
    using that assms(1) by (auto simp: TARGET_NUMBER_def)
  then obtain m where m: "for_each (map (\<lambda>k. 2 * k) [0..<TARGET_NUMBER]) ?f (r\<lparr>wr_which := buf ! 8\<rparr>) = Some m" "?P m"
    using for_each_defined [of "map (\<lambda>k. 2 * k) [0..<TARGET_NUMBER]" ?P ?f "r\<lparr>wr_which := buf ! 8\<rparr>"] assms(2,3)
    by auto
  have "\<exists>t. ?g i s = Some t \<and> ?P t" if "i \<in> set [0..<ZENITH_NUMBER]" "?P s" for i and s :: region_t
    using that assms(1) by (auto simp: ZENITH_NUMBER_def)
  then obtain n where "for_each [0..<ZENITH_NUMBER] ?g m = Some n"
    using for_each_defined [of "[0..<ZENITH_NUMBER]" ?P ?g m] m(2) by auto
  then show ?thesis
    using m(1) assms(1) by (simp add: store_boundary_def)
qed

theorem region_reply_roundtrip_witness:
  "\<exists>r' v sb. store_boundary (replicate 1734 7) region_init = Some r' \<and>
    pc2dev_packet (eeprom_env (half_bytes (region_buffer r') @ take ZENITH_NUMBER (zenith_save r')))
      (world_init\<lparr>nios2pc := (nios2pc world_init)\<lparr>n_command := NIOS_UP_REGION_DATA\<rparr>\<rparr>) = Some (1738, v\<lparr>send_buffer := sb\<rparr>) \<and>
    drop 9 (take 1738 sb) = replicate 1725 7 @ [0, 0, 0, 0]"
proof -
  let ?w = "world_init\<lparr>nios2pc := (nios2pc world_init)\<lparr>n_command := NIOS_UP_REGION_DATA\<rparr>\<rparr>"
  have r: "length (region_buffer region_init) = TARGET_NUMBER" "ZENITH_NUMBER \<le> length (zenith_save region_init)"
    by (simp_all add: region_init_def ZENITH_NUMBER_def)
  then obtain r' where r': "store_boundary (replicate 1734 7) region_init = Some r'"
    using store_boundary_defined [of "replicate 1734 7" region_init] by auto
  define bs where "bs = half_bytes (region_buffer r') @ take ZENITH_NUMBER (zenith_save r')"
  note st = stored_region_bytes [OF r' r(1)]
  have len: "length bs = 1725"
    using st(2,4) by (simp add: bs_def TARGET_NUMBER_def ZENITH_NUMBER_def)
  have w: "length (send_buffer ?w) = 8448" "send_buffer ?w ! 1734 = 0" "trace ?w = []" "rd_which (alarm_region ?w) = 0"
    by (simp_all add: world_init_def region_init_def)
  have "region_addr (unat (0 :: byte)) \<le> AT24C1024_MAX_ADDR"
    by (simp add: region_addr_def GROUP_OFFSET_ADDR_def AT24C1024_MAX_ADDR_def)
  then obtain evs where "eeprom_sequential_read (region_addr (unat (rd_which (alarm_region ?w)))) 1725 (eeprom_env bs) ?w =
      Some (bs, logged ?w evs)"
    using eeprom_env_read [of 1725 bs "region_addr 0" ?w] len w by auto
  from region_reply_roundtrip [OF r' r(1) _ w(1) this [unfolded bs_def], folded bs_def] w(2)
  obtain sb where "pc2dev_packet (eeprom_env bs) ?w = Some (1738, (logged ?w evs)\<lparr>send_buffer := sb\<rparr>)"
    and "take 1738 sb = reply_head (nios2pc ?w) @ [rd_which (alarm_region ?w)] @ take 1725 (drop 9 (replicate 1734 7)) @ [0, 0, 0, 0]"
    by auto
  moreover from this(2) have "drop 9 (take 1738 sb) = replicate 1725 7 @ [0, 0, 0, 0]"
    by simp
  ultimately show ?thesis using r' unfolding bs_def by blast
qed

subsection \<open>The parameters as the host sees them\<close>

text \<open>The reply to a request for the parameters carries the whole structure, from which the host
  rebuilds it exactly; the byte meant as its checksum is the exclusive-or of the bytes before with
  the value an uninitialised variable happened to have.\<close>

theorem radar_reply_layout:
  assumes "n_command (nios2pc w) = NIOS_UP_RADAR_PARA" and "320 \<le> length (send_buffer w)" and "sys_para_wf (SysPara w)"
  shows "\<exists>sb. pc2dev_packet h w = Some (320, w\<lparr>send_buffer := sb\<rparr>) \<and>
    take 320 sb = reply_head (nios2pc w) @ sys_para_bytes (SysPara w) @
      [0xaa, 0xbb, 0xcc, ucast (indet h ''checksum'' (trace w)) XOR xor_all 0 (take 316 sb)] \<and>
    sys_para_of_bytes (take 308 (drop 8 sb)) = SysPara w"
proof -
  define S H X c where "S = send_buffer w" and "H = reply_head (nios2pc w)" and "X = sys_para_bytes (SysPara w)"
    and "c = (ucast (indet h ''checksum'' (trace w)) :: byte)"
  note parts = S_def [symmetric] H_def [symmetric] X_def [symmetric] c_def [symmetric]
  have S: "320 \<le> length S" and H: "length H = 8" and X: "length X = 308"
    using assms(2) sys_para_bytes_length [OF assms(3)] by (simp_all add: S_def H_def X_def SYS_PARA_SIZE_def)
  have hd: "reply_header (nios2pc w) S = Some (H @ drop 8 S)"
    using S by (simp add: reply_header_at H_def)
  have s1: "blit (H @ drop 8 S) 8 X = Some ((H @ X) @ drop 316 S)"
    using S H X by (simp add: blit_def)
  have s2: "xor_first c ((H @ X) @ drop 316 S) 316 = Some (xor_all c (H @ X))"
    using H X by (intro xor_prefix) simp
  have s3: "blit ((H @ X) @ drop 316 S) 316 [0xaa, 0xbb, 0xcc, d] = Some (((H @ X) @ [0xaa, 0xbb, 0xcc, d]) @ drop 320 S)" for d
    using S H X by (simp add: blit_def)
  have n: "8 + SYS_PARA_SIZE = 316" "(316 :: nat) + 4 = 320" by (simp_all add: SYS_PARA_SIZE_def)
  have ne: "NIOS_UP_RADAR_PARA \<noteq> NIOS_UP_ALARM_REGION" "NIOS_UP_RADAR_PARA \<noteq> NIOS_UP_REGION_DATA"
      "NIOS_UP_RADAR_PARA \<noteq> NIOS_UP_RESPONSE_PC"
    by (simp_all add: host_commands)
  define d where "d = xor_all c (H @ X)"
  have d: "d = c XOR xor_all 0 (H @ X)" unfolding d_def by (rule xor_all_start)
  let ?sb = "((H @ X) @ [0xaa, 0xbb, 0xcc, d]) @ drop 320 S"
  have "pack_radar_para (H @ drop 8 S) h w = Some ((320, ?sb), w)"
    unfolding pack_radar_para_def Let_def parts n s1 by (simp only: s2 s3 bind.bind_lunit d_def)
  then have pk: "pc2dev_packet h w = Some (320, w\<lparr>send_buffer := ?sb\<rparr>)"
    unfolding pc2dev_packet_def Let_def parts by (simp add: hd assms(1) ne)
  have t: "take 320 ?sb = H @ X @ [0xaa, 0xbb, 0xcc, d]" "take 316 ?sb = H @ X" "take 308 (drop 8 ?sb) = X"
    using H X by simp_all
  have para: "sys_para_of_bytes X = SysPara w"
    using sys_para_decode [OF assms(3)] by (simp add: X_def)
  show ?thesis
    unfolding parts
  proof (intro exI conjI)
    show "pc2dev_packet h w = Some (320, w\<lparr>send_buffer := ?sb\<rparr>)" by (rule pk)
    show "take 320 ?sb = H @ X @ [0xaa, 0xbb, 0xcc, c XOR xor_all 0 (take 316 ?sb)]"
      unfolding t d [symmetric] ..
    show "sys_para_of_bytes (take 308 (drop 8 ?sb)) = SysPara w"
      unfolding t by (rule para)
  qed
qed

theorem radar_reply_layout_witness:
  "\<exists>sb. pc2dev_packet quiet_env (world_init\<lparr>nios2pc := (nios2pc world_init)\<lparr>n_command := NIOS_UP_RADAR_PARA\<rparr>\<rparr>) =
      Some (320, world_init\<lparr>nios2pc := (nios2pc world_init)\<lparr>n_command := NIOS_UP_RADAR_PARA\<rparr>, send_buffer := sb\<rparr>) \<and>
    sys_para_of_bytes (take 308 (drop 8 sb)) = SysPara_init"
  using radar_reply_layout [of "world_init\<lparr>nios2pc := (nios2pc world_init)\<lparr>n_command := NIOS_UP_RADAR_PARA\<rparr>\<rparr>" quiet_env]
  by (auto simp: world_init_def SysPara_init_wf)

end
