(* ===== verification/Fpga2Nios.thy ===== *)
theory Fpga2Nios
  imports Nios2Fpga Transmit
begin

unbundle bit_operations_syntax

text \<open>
  \<open>fpga2nios_protocol.c\<close>: the words the FPGA sends. The main loop has put them into
  \<open>LaserDataQueue\<close>; the parser looks for a frame head, then reads either the distances of one turn,
  which it writes as text into \<open>CycleData\<close>, or the state of the FPGA, from which it derives alarms
  over five samples. A word read from an empty queue is a stale one, as in the ring buffer.
\<close>

definition FRAME_HEAD :: uint where "FRAME_HEAD = 0x1234"
definition DISTANCE_DATA :: half where "DISTANCE_DATA = 0xa003"
definition UP_FPGA_STATUS :: half where "UP_FPGA_STATUS = 0xc100"
definition TEMP_OUT_VALUE :: uint where "TEMP_OUT_VALUE = 76"
definition LD_NO_WORK_VALUE :: uint where "LD_NO_WORK_VALUE = 7"
definition MOTOR_LOW_SPEED_VALUE :: uint where "MOTOR_LOW_SPEED_VALUE = 100000000"

subsection \<open>Words and digits\<close>

definition ascii_digit :: "uint \<Rightarrow> uint" where
  \<comment> \<open>one of the four lines that turn a nibble into a character\<close>
  "ascii_digit t = (if t \<ge> 0 \<and> t \<le> 9 then t + 0x30 else t + 0x37)"

definition hex2ascii :: "uint \<Rightarrow> uint" where
  "hex2ascii data = (
     let tmp31_24 = ascii_digit (drop_bit 12 data AND 0x0f);
         tmp23_16 = ascii_digit (drop_bit 8 data AND 0x0f);
         tmp15_08 = ascii_digit (drop_bit 4 data AND 0x0f);
         tmp07_00 = ascii_digit (drop_bit 0 data AND 0x0f)
     in push_bit 24 tmp31_24 + push_bit 16 tmp23_16 + push_bit 8 tmp15_08 + push_bit 0 tmp07_00)"

definition big_swap_little :: "uint \<Rightarrow> uint" where
  "big_swap_little data = push_bit 24 (data AND 0xff) OR push_bit 8 (data AND 0xff00) OR
     drop_bit 8 (data AND 0xff0000) OR drop_bit 24 (data AND 0xff000000)"

definition fpga_is_has_data :: "env \<Rightarrow> 'a bus_scheme \<Rightarrow> (bool \<times> 'a bus_scheme) option" where
  "fpga_is_has_data h w = do {
     (num, w) \<leftarrow> altera_avalon_fifo_read_level LASER_FIFO_IN_CSR_BASE h w;
     Some (sint num > 0, w)
   }"

definition read_fpga_data :: "env \<Rightarrow> 'a bus_scheme \<Rightarrow> (uint \<times> 'a bus_scheme) option" where
  "read_fpga_data h w = do {
     (data, w) \<leftarrow> altera_avalon_fifo_read_fifo LASER_FIFO_OUT_BASE LASER_FIFO_IN_CSR_BASE h w;
     Some (drop_bit 16 data + push_bit 16 data, w)
   }"

subsection \<open>Alarms\<close>

definition all_five :: "(uint \<Rightarrow> bool) \<Rightarrow> uint list \<Rightarrow> bool option" where
  \<comment> \<open>the conjunction over the five places of an array\<close>
  "all_five ok xs = map_option (list_all ok) (slice xs 0 5)"

definition process_motor_waring :: "world \<Rightarrow> world option" where
  \<comment> \<open>\<open>data\<close> is \<open>sys_warn\<close> in all four functions\<close>
  "process_motor_waring w = (if motor_enable (SysPara w) = ENABLE
     then do {
       b \<leftarrow> all_five (\<lambda>v. v \<ge> MOTOR_LOW_SPEED_VALUE) (motor_cycle_cnt (sys_warn w));
       Some (w\<lparr>sys_warn := (sys_warn w)\<lparr>motor_low_speed_alarm := if b then 0x01 else 0x00\<rparr>\<rparr>) }
     else Some (w\<lparr>sys_warn := (sys_warn w)\<lparr>motor_low_speed_alarm := 0x00\<rparr>\<rparr>))"

definition process_ld_waring :: "world \<Rightarrow> world option" where
  "process_ld_waring w = do {
     b \<leftarrow> all_five (\<lambda>v. v < LD_NO_WORK_VALUE) (warn_zero_value (sys_warn w));
     Some (w\<lparr>sys_warn := (sys_warn w)\<lparr>ld_not_work_alarm := if b then 0x01 else 0x00\<rparr>\<rparr>)
   }"

definition process_window_dust_waring :: "world \<Rightarrow> world option" where
  "process_window_dust_waring w = do {
     b \<leftarrow> all_five (\<lambda>v. v > dust_threshold (SysPara w)) (dust_cnt (sys_warn w));
     Some (w\<lparr>sys_warn := (sys_warn w)\<lparr>window_dust_alarm := if b then 0x01 else 0x00\<rparr>\<rparr>)
   }"

definition temp_out :: "uint \<Rightarrow> bool" where
  \<comment> \<open>one sample: bit 13 is the sign, the low byte the magnitude\<close>
  "temp_out v = (if drop_bit 13 v AND 0x01 = 0 then v AND 0x00ff > TEMP_OUT_VALUE else v AND 0x00ff > 20)"

definition process_sys_temp_waring :: "world \<Rightarrow> world option" where
  "process_sys_temp_waring w = for_each [0..<5] (\<lambda>i w. do {
     v \<leftarrow> arr_get (temp_value (sys_warn w)) i;
     Some (w\<lparr>sys_warn := (sys_warn w)\<lparr>temp_out_alarm := if temp_out v then 0x01 else 0x00\<rparr>\<rparr>) }) w"

subsection \<open>One frame\<close>

definition pop_word :: "world \<Rightarrow> (uint \<times> world) option" where
  "pop_word w = do {
     (x, q) \<leftarrow> queue_pop (LaserDataQueue w);
     Some (x, w\<lparr>LaserDataQueue := q\<rparr>)
   }"

partial_function (option) find_frame :: "uint \<Rightarrow> world \<Rightarrow> (uint \<times> world) option" where
  \<comment> \<open>drops words until a frame head has been popped or the queue is empty\<close>
  "find_frame recv_data w =
     (if queue_is_empty (LaserDataQueue w) then Some (recv_data, w)
      else do {
        (recv_data, w) \<leftarrow> pop_word w;
        if drop_bit 16 recv_data = FRAME_HEAD
        then Some (recv_data, w\<lparr>fpga2nios_data := (fpga2nios_data w)\<lparr>
          f_frame_head := ucast (drop_bit 16 recv_data AND 0xffff)\<rparr>\<rparr>)
        else find_frame recv_data w
      })"

definition distance_text :: "uint \<Rightarrow> byte list" where
  \<comment> \<open>\<open>buf[0..4]\<close>\<close>
  "distance_text recv_data = (let distance = hex2ascii recv_data in
     [0x20, byte_of 24 distance, byte_of 16 distance, byte_of 8 distance, byte_of 0 distance])"

definition gray_text :: "uint \<Rightarrow> byte list" where
  "gray_text recv_data = (let gray = hex2ascii (drop_bit 16 recv_data AND 0xffff) in
     [0x20, byte_of 8 gray, byte_of 0 gray])"

definition store_target :: "world \<Rightarrow> world option" where
  \<comment> \<open>the body of the loop over the values of one turn\<close>
  "store_target w = do {
     (recv_data, w) \<leftarrow> pop_word w;
     let c = CycleData w;
     d \<leftarrow> blit (distance_data c) (unat (distance_len c)) (distance_text recv_data);
     let c = c\<lparr>distance_data := d, distance_len := distance_len c + 5\<rparr>;
     g \<leftarrow> blit (gray_data c) (unat (gray_len c)) (gray_text recv_data);
     let c = c\<lparr>gray_data := g, gray_len := gray_len c + 3\<rparr>;
     Some (w\<lparr>CycleData := c\<rparr>)
   }"

definition region_flags :: "uint \<Rightarrow> uint \<Rightarrow> uint" where
  \<comment> \<open>the top bits of the checksum word, inverted on an NPN board\<close>
  "region_flags board checksum = (if board = 1 then NOT (drop_bit 28 checksum) AND 0x07
     else drop_bit 28 checksum AND 0x07)"

definition finish_turn :: "world \<Rightarrow> world option" where
  \<comment> \<open>the trailer of a distance frame\<close>
  "finish_turn w = do {
     (recv_data, w) \<leftarrow> pop_word w;
     let w = w\<lparr>fpga2nios_data := (fpga2nios_data w)\<lparr>f_checksum := recv_data\<rparr>\<rparr>;
     let w = (if f_checksum (fpga2nios_data w) AND 0xfffffff = 0xeeeeeee
       then w\<lparr>sys_warn := (sys_warn w)\<lparr>region_alarm := region_flags (board_type (SysPara w)) (f_checksum (fpga2nios_data w))\<rparr>,
              CycleData := (CycleData w)\<lparr>pos_finish := True\<rparr>\<rparr>
       else w\<lparr>CycleData := (CycleData w)\<lparr>pos_finish := False,
              distance_data := replicate (length (distance_data (CycleData w))) 0,
              gray_data := replicate (length (gray_data (CycleData w))) 0\<rparr>\<rparr>);
     Some (w\<lparr>LaserDataQueue := queue_clear (LaserDataQueue w)\<rparr>)
   }"

definition parse_distance :: "world \<Rightarrow> world option" where
  "parse_distance w = do {
     let w = w\<lparr>CycleData := (CycleData w)\<lparr>distance_len := 0, gray_len := 0\<rparr>\<rparr>;
     w \<leftarrow> for_each [0..<unat (f_data_len (fpga2nios_data w))] (\<lambda>_. store_target) w;
     finish_turn w
   }"

text \<open>The five words of a state frame. An alarm that is on keeps its samples.\<close>

definition motor_sample :: "uint \<Rightarrow> world \<Rightarrow> world option" where
  "motor_sample recv_data w = do {
     w \<leftarrow> (if motor_low_speed_alarm (sys_warn w) = 0
       then do { xs \<leftarrow> arr_set (motor_cycle_cnt (sys_warn w)) (unat (warn_len (sys_warn w))) recv_data;
                 Some (w\<lparr>sys_warn := (sys_warn w)\<lparr>motor_cycle_cnt := xs\<rparr>\<rparr>) } else Some w);
     Some (w\<lparr>SysPara := (SysPara w)\<lparr>motor_real_speed := recv_data\<rparr>\<rparr>)
   }"

definition zero_sample :: "uint \<Rightarrow> world \<Rightarrow> world option" where
  "zero_sample recv_data w = Some (w\<lparr>SysPara := (SysPara w)\<lparr>zero_value := recv_data AND 0xffff\<rparr>\<rparr>)"

definition dust_sample :: "uint \<Rightarrow> world \<Rightarrow> world option" where
  "dust_sample recv_data w = do {
     w \<leftarrow> (if window_dust_alarm (sys_warn w) = 0
       then do { xs \<leftarrow> arr_set (dust_cnt (sys_warn w)) (unat (warn_len (sys_warn w))) recv_data;
                 Some (w\<lparr>sys_warn := (sys_warn w)\<lparr>dust_cnt := xs\<rparr>\<rparr>) } else Some w);
     Some (w\<lparr>SysPara := (SysPara w)\<lparr>placeholer1 := recv_data\<rparr>\<rparr>)
   }"

definition temp_sample :: "uint \<Rightarrow> world \<Rightarrow> world option" where
  "temp_sample recv_data w = do {
     w \<leftarrow> (if temp_out_alarm (sys_warn w) = 0
       then do { xs \<leftarrow> arr_set (temp_value (sys_warn w)) (unat (warn_len (sys_warn w))) (recv_data AND 0xffff);
                 Some (w\<lparr>sys_warn := (sys_warn w)\<lparr>temp_value := xs\<rparr>\<rparr>) } else Some w);
     Some (w\<lparr>SysPara := (SysPara w)\<lparr>sys_temp := recv_data AND 0xffff,
       update_pos_flag := (drop_bit 31 recv_data AND 0x01 \<noteq> 0)\<rparr>\<rparr>)
   }"

definition light_sample :: "uint \<Rightarrow> world \<Rightarrow> world option" where
  "light_sample recv_data w = do {
     let w = w\<lparr>SysPara := (SysPara w)\<lparr>zero_pulse_width := recv_data\<rparr>\<rparr>;
     if ld_not_work_alarm (sys_warn w) = 0
     then do { xs \<leftarrow> arr_set (warn_zero_value (sys_warn w)) (unat (warn_len (sys_warn w))) (zero_pulse_width (SysPara w));
               Some (w\<lparr>sys_warn := (sys_warn w)\<lparr>warn_zero_value := xs\<rparr>\<rparr>) } else Some w
   }"

definition status_samples :: "world \<Rightarrow> world option" where
  "status_samples w = do {
     (recv_data, w) \<leftarrow> pop_word w;
     w \<leftarrow> motor_sample recv_data w;
     (recv_data, w) \<leftarrow> pop_word w;
     w \<leftarrow> zero_sample recv_data w;
     (recv_data, w) \<leftarrow> pop_word w;
     w \<leftarrow> dust_sample recv_data w;
     (recv_data, w) \<leftarrow> pop_word w;
     w \<leftarrow> temp_sample recv_data w;
     (recv_data, w) \<leftarrow> pop_word w;
     light_sample recv_data w
   }"

definition any_alarm :: "Sys_warn \<Rightarrow> bool" where
  "any_alarm s \<longleftrightarrow> motor_low_speed_alarm s OR ld_not_work_alarm s OR window_dust_alarm s OR temp_out_alarm s \<noteq> 0"

definition alarm_report :: "Sys_warn \<Rightarrow> byte list" where
  \<comment> \<open>the 28 bytes: big-endian header, the first sixteen bytes of \<open>sys_warn\<close>, four marks\<close>
  "alarm_report s = [0x12, 0x34, ucast (drop_bit 8 UP_FPGA_STATUS), ucast UP_FPGA_STATUS, 0, 0, 0, 16] @
     le32_bytes (motor_low_speed_alarm s) @ le32_bytes (ld_not_work_alarm s) @
     le32_bytes (window_dust_alarm s) @ le32_bytes (temp_out_alarm s) @ [0xee, 0xee, 0xee, 0xee]"

definition report_alarms :: "env \<Rightarrow> world \<Rightarrow> world option" where
  "report_alarms h w = do {
     sb \<leftarrow> blit (send_buffer w) 0 (alarm_report (sys_warn w));
     let w = w\<lparr>send_buffer := sb\<rparr>;
     (_, w) \<leftarrow> send SOCKET0 (send_buffer w) 28 h w;
     (_, w) \<leftarrow> send SOCKET1 (send_buffer w) 28 h w;
     Some w
   }"

definition parse_status :: "env \<Rightarrow> world \<Rightarrow> world option" where
  "parse_status h w = do {
     let w = w\<lparr>sys_warn := (sys_warn w)\<lparr>warn_len := warn_len (sys_warn w) mod 5\<rparr>\<rparr>;
     w \<leftarrow> status_samples w;
     let w = w\<lparr>sys_warn := (sys_warn w)\<lparr>warn_len := warn_len (sys_warn w) + 1\<rparr>\<rparr>;
     (recv_data, w) \<leftarrow> pop_word w;
     let w = w\<lparr>fpga2nios_data := (fpga2nios_data w)\<lparr>f_checksum := recv_data\<rparr>\<rparr>;
     w \<leftarrow> (if f_checksum (fpga2nios_data w) = 0xeeeeeeee \<and> warn_len (sys_warn w) = 5
       then do {
         w \<leftarrow> process_motor_waring w;
         w \<leftarrow> process_ld_waring w;
         w \<leftarrow> process_window_dust_waring w;
         process_sys_temp_waring w }
       else Some w);
     let w = w\<lparr>LaserDataQueue := queue_clear (LaserDataQueue w)\<rparr>;
     if any_alarm (sys_warn w) then report_alarms h w else Some w
   }"

definition fpga2nios_parse :: "env \<Rightarrow> world \<Rightarrow> (int \<times> world) option" where
  \<comment> \<open>with an empty queue \<open>recv_data\<close> has not been assigned\<close>
  "fpga2nios_parse h w = do {
     (recv_data, w) \<leftarrow> find_frame (indet h ''recv_data'' (trace w)) w;
     let w = w\<lparr>fpga2nios_data := (fpga2nios_data w)\<lparr>f_command := ucast (recv_data AND 0xffff)\<rparr>\<rparr>;
     (n, w) \<leftarrow> pop_word w;
     let w = w\<lparr>fpga2nios_data := (fpga2nios_data w)\<lparr>f_data_len := n\<rparr>\<rparr>;
     let c = f_command (fpga2nios_data w);
     w \<leftarrow> (if c = DISTANCE_DATA then parse_distance w
       else if c = UP_FPGA_STATUS then parse_status h w
       else Some w);
     Some (-1, w)
   }"

subsection \<open>Popping\<close>

lemma pop_word_ok:
  assumes "queue_inv (LaserDataQueue w)" and "queue_list (LaserDataQueue w) = x # xs"
  shows "\<exists>q. pop_word w = Some (x, w\<lparr>LaserDataQueue := q\<rparr>) \<and> queue_inv q \<and> queue_list q = xs"
  using ring.pop_ok [OF assms] by (auto simp: pop_word_def)

lemma pop_word_defined:
  assumes "queue_inv (LaserDataQueue w)"
  shows "\<exists>x q. pop_word w = Some (x, w\<lparr>LaserDataQueue := q\<rparr>) \<and> queue_inv q"
  using queue_pop_result [OF assms] queue_pop_inv [OF assms]
  by (auto simp: pop_word_def)

definition is_head :: "uint \<Rightarrow> bool" where
  "is_head v \<longleftrightarrow> drop_bit 16 v = FRAME_HEAD"

lemma find_frame_step:
  assumes "queue_inv (LaserDataQueue w)" and "queue_list (LaserDataQueue w) = x # xs"
  shows "\<exists>q. queue_inv q \<and> queue_list q = xs \<and> find_frame r w = (if is_head x
    then Some (x, w\<lparr>LaserDataQueue := q, fpga2nios_data := (fpga2nios_data w)\<lparr>f_frame_head := 0x1234\<rparr>\<rparr>)
    else find_frame x (w\<lparr>LaserDataQueue := q\<rparr>))"
proof -
  obtain q where q: "pop_word w = Some (x, w\<lparr>LaserDataQueue := q\<rparr>)" "queue_inv q" "queue_list q = xs"
    using pop_word_ok [OF assms] by blast
  have ne: "\<not> queue_is_empty (LaserDataQueue w)"
    using assms by (simp add: queue_is_empty_iff)
  have head: "ucast (FRAME_HEAD AND 0xffff) = (0x1234 :: half)"
    by (simp add: FRAME_HEAD_def)
  have "find_frame r w = (if is_head x
    then Some (x, w\<lparr>LaserDataQueue := q, fpga2nios_data := (fpga2nios_data w)\<lparr>f_frame_head := 0x1234\<rparr>\<rparr>)
    else find_frame x (w\<lparr>LaserDataQueue := q\<rparr>))"
    unfolding find_frame.simps [of r w] if_not_P [OF ne] q(1) is_head_def by (auto simp: head)
  then show ?thesis using q(2,3) by blast
qed

lemma find_frame_empty:
  assumes "queue_inv (LaserDataQueue w)" and "queue_list (LaserDataQueue w) = []"
  shows "find_frame r w = Some (r, w)"
  using assms by (simp add: find_frame.simps [of r w] queue_is_empty_iff)

lemma find_frame_head:
  assumes "queue_inv (LaserDataQueue w)" and "queue_list (LaserDataQueue w) = junk @ x # xs"
    and "list_all (\<lambda>v. \<not> is_head v) junk" and "is_head x"
  shows "\<exists>q. find_frame r w = Some (x, w\<lparr>LaserDataQueue := q,
      fpga2nios_data := (fpga2nios_data w)\<lparr>f_frame_head := 0x1234\<rparr>\<rparr>) \<and> queue_inv q \<and> queue_list q = xs"
  using assms(1,2,3)
proof (induction junk arbitrary: w r)
  case Nil
  then show ?case using find_frame_step [of w x xs r] assms(4) by auto
next
  case (Cons a junk)
  obtain q where "queue_inv q" "queue_list q = junk @ x # xs" "find_frame r w = find_frame a (w\<lparr>LaserDataQueue := q\<rparr>)"
    using find_frame_step [of w a "junk @ x # xs" r] Cons.prems by auto
  then show ?case
    using Cons.IH [of "w\<lparr>LaserDataQueue := q\<rparr>" a] Cons.prems by simp
qed

lemma find_frame_none:
  assumes "queue_inv (LaserDataQueue w)" and "list_all (\<lambda>v. \<not> is_head v) (queue_list (LaserDataQueue w))"
  shows "\<exists>q. find_frame r w = Some (last (r # queue_list (LaserDataQueue w)), w\<lparr>LaserDataQueue := q\<rparr>) \<and>
    queue_inv q \<and> queue_list q = []"
  using assms
proof (induction "queue_list (LaserDataQueue w)" arbitrary: w r)
  case Nil
  have "w = w\<lparr>LaserDataQueue := LaserDataQueue w\<rparr>" by simp
  then show ?case
    using find_frame_empty [of w r] Nil by (intro exI [of _ "LaserDataQueue w"]) auto
next
  case (Cons a xs)
  obtain q where "queue_inv q" "queue_list q = xs" "find_frame r w = find_frame a (w\<lparr>LaserDataQueue := q\<rparr>)"
    using find_frame_step [of w a xs r] Cons.prems Cons(2) [symmetric] by auto
  then show ?case
    using Cons(1) [of "w\<lparr>LaserDataQueue := q\<rparr>" a] Cons.prems Cons(2) [symmetric] by auto
qed

text \<open>Looking for a frame ends: on a well-formed queue the search drops the words before the first
  frame head, takes it, and leaves what follows; without a head it empties the queue and hands the last
  word on, or the uninitialised value when there was none.\<close>

theorem find_frame_ends:
  assumes "queue_inv (LaserDataQueue w)"
  shows "\<exists>q. queue_inv q \<and> (case dropWhile (\<lambda>v. \<not> is_head v) (queue_list (LaserDataQueue w)) of
      [] \<Rightarrow> find_frame r w = Some (last (r # queue_list (LaserDataQueue w)), w\<lparr>LaserDataQueue := q\<rparr>) \<and> queue_list q = []
    | x # xs \<Rightarrow> find_frame r w = Some (x, w\<lparr>LaserDataQueue := q,
        fpga2nios_data := (fpga2nios_data w)\<lparr>f_frame_head := 0x1234\<rparr>\<rparr>) \<and> queue_list q = xs)"
proof (cases "dropWhile (\<lambda>v. \<not> is_head v) (queue_list (LaserDataQueue w))")
  case Nil
  show ?thesis
  proof -
    have "list_all (\<lambda>v. \<not> is_head v) (queue_list (LaserDataQueue w))"
      using Nil by (simp add: list_all_iff dropWhile_eq_Nil_conv)
    from find_frame_none [OF assms this, of r] show ?thesis
      unfolding Nil list.case by blast
  qed
next
  case (Cons x xs)
  let ?j = "takeWhile (\<lambda>v. \<not> is_head v) (queue_list (LaserDataQueue w))"
  have "queue_list (LaserDataQueue w) = ?j @ x # xs"
    using Cons takeWhile_dropWhile_id by metis
  moreover have "list_all (\<lambda>v. \<not> is_head v) ?j"
    by (auto simp: list_all_iff dest: set_takeWhileD)
  moreover have "is_head x"
    using Cons hd_dropWhile [of "\<lambda>v. \<not> is_head v" "queue_list (LaserDataQueue w)"] by auto
  ultimately show ?thesis
    using find_frame_head [OF assms, of ?j x xs r] unfolding Cons list.case by blast
qed

theorem find_frame_ends_witness:
  "\<exists>q. queue_inv q \<and> find_frame 0 (world_init\<lparr>LaserDataQueue := demo_queue\<rparr>) =
     Some (8, world_init\<lparr>LaserDataQueue := q\<rparr>) \<and> queue_list q = []"
  using find_frame_ends [of "world_init\<lparr>LaserDataQueue := demo_queue\<rparr>" 0]
  by (simp add: demo_queue_facts is_head_def FRAME_HEAD_def)

subsection \<open>One turn\<close>

lemma text_lengths [simp]: "length (distance_text v) = 5" "length (gray_text v) = 3"
  by (simp_all add: distance_text_def gray_text_def Let_def)

lemma texts_length: "length (concat (map distance_text vs)) = 5 * length vs" "length (concat (map gray_text vs)) = 3 * length vs"
  by (induction vs) simp_all

definition write_texts :: "uint list \<Rightarrow> UpDataFrame \<Rightarrow> UpDataFrame" where
  \<comment> \<open>what a run of the loop over the values makes of the two text buffers\<close>
  "write_texts vs c = c\<lparr>
     distance_data := take (unat (distance_len c)) (distance_data c) @ concat (map distance_text vs) @
       drop (unat (distance_len c) + 5 * length vs) (distance_data c),
     distance_len := distance_len c + word_of_nat (5 * length vs),
     gray_data := take (unat (gray_len c)) (gray_data c) @ concat (map gray_text vs) @
       drop (unat (gray_len c) + 3 * length vs) (gray_data c),
     gray_len := gray_len c + word_of_nat (3 * length vs)\<rparr>"

definition room_for :: "nat \<Rightarrow> UpDataFrame \<Rightarrow> bool" where
  "room_for n c \<longleftrightarrow> unat (distance_len c) + 5 * n \<le> length (distance_data c) \<and>
     unat (gray_len c) + 3 * n \<le> length (gray_data c) \<and>
     length (distance_data c) < 2 ^ 31 \<and> length (gray_data c) < 2 ^ 31"

lemma unat_add_small: "unat (a :: uint) + k < 2 ^ 32 \<Longrightarrow> unat (a + word_of_nat k) = unat a + k"
  by (simp add: unat_word_ariths unat_of_nat)

lemma write_texts_step:
  assumes "room_for (Suc n) c"
  shows "room_for n (write_texts [v] c)" and "length vs = n \<Longrightarrow> write_texts vs (write_texts [v] c) = write_texts (v # vs) c"
proof -
  have d: "unat (distance_len c + 5) = unat (distance_len c) + 5" and g: "unat (gray_len c + 3) = unat (gray_len c) + 3"
    using assms unat_add_small [of "distance_len c" 5] unat_add_small [of "gray_len c" 3] by (simp_all add: room_for_def)
  show "room_for n (write_texts [v] c)"
    using assms d g by (simp add: room_for_def write_texts_def)
  show "write_texts vs (write_texts [v] c) = write_texts (v # vs) c" if "length vs = n"
    using assms d g that by (simp add: room_for_def write_texts_def algebra_simps)
qed

lemma store_target_ok:
  assumes "queue_inv (LaserDataQueue w)" and "queue_list (LaserDataQueue w) = x # xs" and "room_for 1 (CycleData w)"
  shows "\<exists>q. store_target w = Some (w\<lparr>LaserDataQueue := q, CycleData := write_texts [x] (CycleData w)\<rparr>) \<and>
    queue_inv q \<and> queue_list q = xs"
proof -
  obtain q where q: "pop_word w = Some (x, w\<lparr>LaserDataQueue := q\<rparr>)" "queue_inv q" "queue_list q = xs"
    using pop_word_ok [OF assms(1,2)] by blast
  then show ?thesis
    using assms(3) by (auto simp: store_target_def Let_def blit_def room_for_def write_texts_def)
qed

lemma for_each_const:
  "length xs = length ys \<Longrightarrow> for_each xs (\<lambda>_. f) s = for_each ys (\<lambda>_. f) s"
  by (induction xs ys arbitrary: s rule: list_induct2) (auto split: bind_splits)

lemma store_targets_ok:
  assumes "queue_inv (LaserDataQueue w)" and "queue_list (LaserDataQueue w) = vs @ xs" and "room_for (length vs) (CycleData w)"
  shows "\<exists>q. for_each vs (\<lambda>_. store_target) w = Some (w\<lparr>LaserDataQueue := q, CycleData := write_texts vs (CycleData w)\<rparr>) \<and>
    queue_inv q \<and> queue_list q = xs"
  using assms
proof (induction vs arbitrary: w)
  case Nil
  have "write_texts [] (CycleData w) = CycleData w" by (simp add: write_texts_def)
  then show ?case using Nil by (intro exI [of _ "LaserDataQueue w"]) simp
next
  case (Cons v vs)
  have "room_for 1 (CycleData w)" using Cons.prems(3) by (auto simp: room_for_def)
  then obtain q where q: "store_target w = Some (w\<lparr>LaserDataQueue := q, CycleData := write_texts [v] (CycleData w)\<rparr>)"
      "queue_inv q" "queue_list q = vs @ xs"
    using store_target_ok [of w v "vs @ xs"] Cons.prems by auto
  have "room_for (length vs) (write_texts [v] (CycleData w))"
    using write_texts_step(1) Cons.prems(3) by simp
  then obtain q' where "for_each vs (\<lambda>_. store_target) (w\<lparr>LaserDataQueue := q, CycleData := write_texts [v] (CycleData w)\<rparr>) =
      Some (w\<lparr>LaserDataQueue := q', CycleData := write_texts vs (write_texts [v] (CycleData w))\<rparr>)"
      "queue_inv q'" "queue_list q' = xs"
    using Cons.IH [of "w\<lparr>LaserDataQueue := q, CycleData := write_texts [v] (CycleData w)\<rparr>"] q by auto
  then show ?case
    using q(1) write_texts_step(2) [of "length vs" "CycleData w" vs v] Cons.prems(3) by auto
qed

lemma parse_frame:
  assumes "queue_inv (LaserDataQueue w)" and "list_all (\<lambda>v. \<not> is_head v) junk" and "is_head x"
    and "queue_list (LaserDataQueue w) = junk @ [x, n] @ xs"
  shows "\<exists>q. queue_inv q \<and> queue_list q = xs \<and> fpga2nios_parse h w = do {
      w \<leftarrow> (let v = w\<lparr>LaserDataQueue := q, fpga2nios_data := (fpga2nios_data w)\<lparr>f_frame_head := 0x1234,
             f_command := ucast (x AND 0xffff), f_data_len := n\<rparr>\<rparr> in
        if ucast (x AND 0xffff) = DISTANCE_DATA then parse_distance v
        else if ucast (x AND 0xffff) = UP_FPGA_STATUS then parse_status h v
        else Some v);
      Some (-1, w) }"
proof -
  obtain q1 where q1: "find_frame (indet h ''recv_data'' (trace w)) w = Some (x, w\<lparr>LaserDataQueue := q1,
      fpga2nios_data := (fpga2nios_data w)\<lparr>f_frame_head := 0x1234\<rparr>\<rparr>)" "queue_inv q1" "queue_list q1 = n # xs"
    using find_frame_head [OF assms(1) _ assms(2,3), of "n # xs"] assms(4) by auto
  let ?w = "w\<lparr>LaserDataQueue := q1, fpga2nios_data := (fpga2nios_data w)\<lparr>f_frame_head := 0x1234, f_command := ucast (x AND 0xffff)\<rparr>\<rparr>"
  obtain q2 where q2: "pop_word ?w = Some (n, ?w\<lparr>LaserDataQueue := q2\<rparr>)" "queue_inv q2" "queue_list q2 = xs"
    using pop_word_ok [of ?w n xs] q1(2,3) by auto
  have "fpga2nios_parse h w = do {
      w \<leftarrow> (let v = w\<lparr>LaserDataQueue := q2, fpga2nios_data := (fpga2nios_data w)\<lparr>f_frame_head := 0x1234,
             f_command := ucast (x AND 0xffff), f_data_len := n\<rparr>\<rparr> in
        if ucast (x AND 0xffff) = DISTANCE_DATA then parse_distance v
        else if ucast (x AND 0xffff) = UP_FPGA_STATUS then parse_status h v
        else Some v);
      Some (-1, w) }"
    unfolding fpga2nios_parse_def q1(1) Let_def using q2(1) by simp
  then show ?thesis using q2(2,3) by blast
qed

lemma distance_head: "is_head 0x1234a003" "ucast (0x1234a003 AND 0xffff :: uint) = DISTANCE_DATA"
  by (simp_all add: is_head_def FRAME_HEAD_def DISTANCE_DATA_def)

definition frame_read :: "uint list \<Rightarrow> Queue \<Rightarrow> world \<Rightarrow> world" where
  \<comment> \<open>the memory after the head and the length of a distance frame have been read\<close>
  "frame_read vs q w = w\<lparr>LaserDataQueue := q, fpga2nios_data := (fpga2nios_data w)\<lparr>f_frame_head := 0x1234,
     f_command := DISTANCE_DATA, f_data_len := word_of_nat (length vs)\<rparr>\<rparr>"

lemma parse_distance_result:
  assumes "queue_inv q" and "queue_list q = vs @ trailer # rest" and "length vs \<le> TARGET_NUMBER"
    and "length (distance_data (CycleData w)) = TARGET_NUMBER * 5" and "length (gray_data (CycleData w)) = TARGET_NUMBER * 5"
  defines "c \<equiv> write_texts vs ((CycleData w)\<lparr>distance_len := 0, gray_len := 0\<rparr>)"
  shows "\<exists>q'. parse_distance (frame_read vs q w) = Some (
    let u = (frame_read vs q w)\<lparr>CycleData := c, LaserDataQueue := queue_clear q',
          fpga2nios_data := (fpga2nios_data (frame_read vs q w))\<lparr>f_checksum := trailer\<rparr>\<rparr>
    in if trailer AND 0xfffffff = 0xeeeeeee
       then u\<lparr>sys_warn := (sys_warn w)\<lparr>region_alarm := region_flags (board_type (SysPara w)) trailer\<rparr>,
              CycleData := c\<lparr>pos_finish := True\<rparr>\<rparr>
       else u\<lparr>CycleData := c\<lparr>pos_finish := False, distance_data := replicate (length (distance_data c)) 0,
              gray_data := replicate (length (gray_data c)) 0\<rparr>\<rparr>)"
proof -
  let ?n = "length vs"
  let ?v = "(frame_read vs q w)\<lparr>CycleData := (CycleData w)\<lparr>distance_len := 0, gray_len := 0\<rparr>\<rparr>"
  have T: "TARGET_NUMBER * 5 = 4055" "?n \<le> 811" using assms(3) by (simp_all add: TARGET_NUMBER_def)
  have "room_for ?n (CycleData ?v)"
    using T assms(4,5) by (simp add: room_for_def)
  then obtain q1 where q1: "for_each vs (\<lambda>_. store_target) ?v = Some (?v\<lparr>LaserDataQueue := q1, CycleData := c\<rparr>)"
      "queue_inv q1" "queue_list q1 = trailer # rest"
    using store_targets_ok [of ?v vs "trailer # rest"] assms(1,2) by (auto simp: c_def frame_read_def)
  obtain q2 where q2: "pop_word (?v\<lparr>LaserDataQueue := q1, CycleData := c\<rparr>) = Some (trailer, ?v\<lparr>CycleData := c, LaserDataQueue := q2\<rparr>)"
    using pop_word_ok [of "?v\<lparr>LaserDataQueue := q1, CycleData := c\<rparr>" trailer rest] q1(2,3) by auto
  have "unat (word_of_nat ?n :: uint) = ?n"
    using T(2) by (simp add: unat_of_nat)
  then have loop: "for_each [0..<unat (word_of_nat ?n :: uint)] (\<lambda>_. store_target) ?v = Some (?v\<lparr>LaserDataQueue := q1, CycleData := c\<rparr>)"
    using q1(1) for_each_const [of "[0..<?n]" vs store_target ?v] by simp
  have "finish_turn (?v\<lparr>LaserDataQueue := q1, CycleData := c\<rparr>) = Some (
    let u = ?v\<lparr>CycleData := c, LaserDataQueue := queue_clear q2,
          fpga2nios_data := (fpga2nios_data (frame_read vs q w))\<lparr>f_checksum := trailer\<rparr>\<rparr>
    in if trailer AND 0xfffffff = 0xeeeeeee
       then u\<lparr>sys_warn := (sys_warn w)\<lparr>region_alarm := region_flags (board_type (SysPara w)) trailer\<rparr>,
              CycleData := c\<lparr>pos_finish := True\<rparr>\<rparr>
       else u\<lparr>CycleData := c\<lparr>pos_finish := False, distance_data := replicate (length (distance_data c)) 0,
              gray_data := replicate (length (gray_data c)) 0\<rparr>\<rparr>)"
    unfolding finish_turn_def q2 by (simp add: Let_def frame_read_def)
  then show ?thesis
    using loop by (intro exI [of _ q2]) (simp add: parse_distance_def Let_def frame_read_def)
qed

lemma turn_result:
  assumes "queue_inv (LaserDataQueue w)" and "list_all (\<lambda>v. \<not> is_head v) junk" and "length vs \<le> TARGET_NUMBER"
    and "queue_list (LaserDataQueue w) = junk @ [0x1234a003, word_of_nat (length vs)] @ vs @ trailer # rest"
    and "length (distance_data (CycleData w)) = TARGET_NUMBER * 5" and "length (gray_data (CycleData w)) = TARGET_NUMBER * 5"
  shows "\<exists>w'. fpga2nios_parse h w = Some (-1, w') \<and> queue_list (LaserDataQueue w') = [] \<and> trace w' = trace w \<and> SSIZE w' = SSIZE w \<and>
    length (distance_data (CycleData w')) = TARGET_NUMBER * 5 \<and> length (gray_data (CycleData w')) = TARGET_NUMBER * 5 \<and>
    (if trailer AND 0xfffffff = 0xeeeeeee
     then pos_finish (CycleData w') \<and> region_alarm (sys_warn w') = region_flags (board_type (SysPara w)) trailer \<and>
       unat (distance_len (CycleData w')) = 5 * length vs \<and> unat (gray_len (CycleData w')) = 3 * length vs \<and>
       take (5 * length vs) (distance_data (CycleData w')) = concat (map distance_text vs) \<and>
       take (3 * length vs) (gray_data (CycleData w')) = concat (map gray_text vs)
     else \<not> pos_finish (CycleData w') \<and> sys_warn w' = sys_warn w \<and>
       distance_data (CycleData w') = replicate (TARGET_NUMBER * 5) 0 \<and> gray_data (CycleData w') = replicate (TARGET_NUMBER * 5) 0)"
proof -
  let ?n = "length vs"
  have T: "TARGET_NUMBER * 5 = 4055" "?n \<le> 811" using assms(3) by (simp_all add: TARGET_NUMBER_def)
  obtain q where q: "queue_inv q" "queue_list q = vs @ trailer # rest"
    and parse: "fpga2nios_parse h w = do { w \<leftarrow> parse_distance (frame_read vs q w); Some (-1, w) }"
    using parse_frame [OF assms(1,2) distance_head(1) assms(4), of h] unfolding distance_head(2) Let_def
    by (auto simp: frame_read_def)
  define c where "c = write_texts vs ((CycleData w)\<lparr>distance_len := 0, gray_len := 0\<rparr>)"
  have len: "length (distance_data c) = 4055" "length (gray_data c) = 4055"
    using T assms(5,6) by (simp_all add: c_def write_texts_def texts_length)
  have c: "unat (distance_len c) = 5 * ?n" "unat (gray_len c) = 3 * ?n"
    "take (5 * ?n) (distance_data c) = concat (map distance_text vs)" "take (3 * ?n) (gray_data c) = concat (map gray_text vs)"
    using T(2) texts_length [of vs] unat_add_small [of 0 "5 * ?n"] unat_add_small [of 0 "3 * ?n"]
    by (simp_all add: c_def write_texts_def)
  obtain w' where w': "parse_distance (frame_read vs q w) = Some w'"
    and post: "\<exists>q'. w' = (let u = (frame_read vs q w)\<lparr>CycleData := c, LaserDataQueue := queue_clear q',
          fpga2nios_data := (fpga2nios_data (frame_read vs q w))\<lparr>f_checksum := trailer\<rparr>\<rparr>
    in if trailer AND 0xfffffff = 0xeeeeeee
       then u\<lparr>sys_warn := (sys_warn w)\<lparr>region_alarm := region_flags (board_type (SysPara w)) trailer\<rparr>,
              CycleData := c\<lparr>pos_finish := True\<rparr>\<rparr>
       else u\<lparr>CycleData := c\<lparr>pos_finish := False, distance_data := replicate (length (distance_data c)) 0,
              gray_data := replicate (length (gray_data c)) 0\<rparr>\<rparr>)"
    using parse_distance_result [OF q assms(3,5,6)] unfolding c_def [symmetric] by blast
  have "fpga2nios_parse h w = Some (-1, w')" by (simp add: parse w')
  then show ?thesis
    using post c len by (intro exI [of _ w']) (auto simp: Let_def frame_read_def T)
qed

text \<open>C13: the frame of one turn: whatever precedes its head in the queue is dropped, every value becomes five
  characters of distance and three of intensity, in order; an intact trailer releases the telegram and
  sets the three region flags from its top bits, a damaged one withdraws it and clears both buffers.
  The queue is empty afterwards, and nothing has been written to the bus.\<close>

theorem turn_becomes_text:
  assumes "queue_inv (LaserDataQueue w)" and "list_all (\<lambda>v. \<not> is_head v) junk" and "length vs \<le> TARGET_NUMBER"
    and "queue_list (LaserDataQueue w) = junk @ [0x1234a003, word_of_nat (length vs)] @ vs @ trailer # rest"
    and "length (distance_data (CycleData w)) = TARGET_NUMBER * 5" and "length (gray_data (CycleData w)) = TARGET_NUMBER * 5"
  shows "\<exists>w'. fpga2nios_parse h w = Some (-1, w') \<and> queue_list (LaserDataQueue w') = [] \<and> trace w' = trace w \<and>
    (if trailer AND 0xfffffff = 0xeeeeeee
     then pos_finish (CycleData w') \<and> region_alarm (sys_warn w') = region_flags (board_type (SysPara w)) trailer \<and>
       unat (distance_len (CycleData w')) = 5 * length vs \<and> unat (gray_len (CycleData w')) = 3 * length vs \<and>
       take (5 * length vs) (distance_data (CycleData w')) = concat (map distance_text vs) \<and>
       take (3 * length vs) (gray_data (CycleData w')) = concat (map gray_text vs)
     else \<not> pos_finish (CycleData w') \<and> sys_warn w' = sys_warn w \<and>
       distance_data (CycleData w') = replicate (TARGET_NUMBER * 5) 0 \<and> gray_data (CycleData w') = replicate (TARGET_NUMBER * 5) 0)"
  using turn_result [OF assms] by blast

definition turn_queue :: Queue where
  \<comment> \<open>a stray word, then a frame of two values\<close>
  "turn_queue = \<lparr>q_front = 0, q_rear = 6, q_depth = 8, frame_over_flag = 0,
     q_data = [7, 0x1234a003, 2, 0x00ab0123, 0x00cd0456, 0x3eeeeeee, 0, 0]\<rparr>"

lemma turn_queue_facts:
  "queue_inv turn_queue" "queue_list turn_queue = [7, 0x1234a003, 2, 0x00ab0123, 0x00cd0456, 0x3eeeeeee]"
  by (simp_all add: turn_queue_def queue_inv_def queue_list_def ring_len_def upt_rec)

theorem turn_becomes_text_witness:
  "\<exists>w'. fpga2nios_parse quiet_env (world_init\<lparr>LaserDataQueue := turn_queue\<rparr>) = Some (-1, w') \<and>
    pos_finish (CycleData w') \<and> region_alarm (sys_warn w') = 4 \<and>
    take 10 (distance_data (CycleData w')) = cstr '' 0123 0456'' \<and> take 6 (gray_data (CycleData w')) = cstr '' AB CD''"
proof -
  let ?w = "world_init\<lparr>LaserDataQueue := turn_queue\<rparr>"
  have shown: "concat (map distance_text [0x00ab0123, 0x00cd0456]) = cstr '' 0123 0456''"
    "concat (map gray_text [0x00ab0123, 0x00cd0456]) = cstr '' AB CD''"
    by (simp_all add: distance_text_def gray_text_def hex2ascii_def ascii_digit_def byte_of_def cstr_def Let_def)
  have "\<exists>w'. fpga2nios_parse quiet_env ?w = Some (-1, w') \<and> queue_list (LaserDataQueue w') = [] \<and> trace w' = trace ?w \<and>
    (if (0x3eeeeeee :: uint) AND 0xfffffff = 0xeeeeeee
     then pos_finish (CycleData w') \<and> region_alarm (sys_warn w') = region_flags (board_type (SysPara ?w)) 0x3eeeeeee \<and>
       unat (distance_len (CycleData w')) = 5 * length [0x00ab0123 :: uint, 0x00cd0456] \<and>
       unat (gray_len (CycleData w')) = 3 * length [0x00ab0123 :: uint, 0x00cd0456] \<and>
       take (5 * length [0x00ab0123 :: uint, 0x00cd0456]) (distance_data (CycleData w')) = concat (map distance_text [0x00ab0123, 0x00cd0456]) \<and>
       take (3 * length [0x00ab0123 :: uint, 0x00cd0456]) (gray_data (CycleData w')) = concat (map gray_text [0x00ab0123, 0x00cd0456])
     else \<not> pos_finish (CycleData w') \<and> sys_warn w' = sys_warn ?w \<and>
       distance_data (CycleData w') = replicate (TARGET_NUMBER * 5) 0 \<and> gray_data (CycleData w') = replicate (TARGET_NUMBER * 5) 0)"
    by (rule turn_becomes_text [of _ "[7]" _ _ "[]"])
      (simp_all add: turn_queue_facts is_head_def FRAME_HEAD_def TARGET_NUMBER_def world_init_def cycle_init_def)
  then show ?thesis
    unfolding shown by (auto simp: region_flags_def world_init_def SysPara_init_def)
qed

lemma store_target_len:
  assumes "store_target w = Some v"
  shows "distance_len (CycleData v) = distance_len (CycleData w) + 5 \<and>
    length (distance_data (CycleData v)) = length (distance_data (CycleData w))"
  using assms by (auto simp: store_target_def pop_word_def Let_def blit_length split: bind_splits)

lemma store_targets_len:
  assumes "for_each [0..<k] (\<lambda>_. store_target) w = Some v" and "distance_len (CycleData w) = 0"
  shows "distance_len (CycleData v) = word_of_nat (5 * k) \<and>
    length (distance_data (CycleData v)) = length (distance_data (CycleData w))"
  using assms
proof (induction k arbitrary: v)
  case (Suc k)
  then obtain u where "for_each [0..<k] (\<lambda>_. store_target) w = Some u" "store_target u = Some v"
    by (auto simp: for_each_append split: bind_splits)
  then show ?case
    using Suc.IH Suc.prems(2) store_target_len by fastforce
qed simp

lemma store_targets_overflow:
  assumes "distance_len (CycleData w) = 0" and "length (distance_data (CycleData w)) = TARGET_NUMBER * 5"
    and "TARGET_NUMBER < n"
  shows "for_each [0..<n] (\<lambda>_. store_target) w = None"
proof -
  have "store_target v = None" if "for_each [0..<TARGET_NUMBER] (\<lambda>_. store_target) w = Some v" for v
  proof -
    have "distance_len (CycleData v) = 4055" "length (distance_data (CycleData v)) = 4055"
      using store_targets_len [OF that assms(1)] assms(2) by (simp_all add: TARGET_NUMBER_def del: upt_rec_numeral)
    then show ?thesis
      by (auto simp: store_target_def pop_word_def Let_def blit_def split: bind_splits option.splits)
  qed
  moreover have "[0..<n] = [0..<TARGET_NUMBER] @ TARGET_NUMBER # [Suc TARGET_NUMBER..<n]"
    using assms(3) by (metis less_imp_le_nat upt_add_eq_append upt_conv_Cons le0 le_add_diff_inverse)
  ultimately show ?thesis
    by (cases "for_each [0..<TARGET_NUMBER] (\<lambda>_. store_target) w") (simp_all add: for_each_append del: upt_rec_numeral)
qed

text \<open>C39: the number of values is not checked against the arrays: a frame that announces more than 811 of them
  makes the parser write behind the end of the distance buffer, whatever the frame holds.\<close>

theorem turn_overflow:
  assumes "queue_inv (LaserDataQueue w)" and "list_all (\<lambda>v. \<not> is_head v) junk" and "unat n > TARGET_NUMBER"
    and "queue_list (LaserDataQueue w) = junk @ [0x1234a003, n] @ rest"
    and "length (distance_data (CycleData w)) = TARGET_NUMBER * 5"
  shows "fpga2nios_parse h w = None"
proof -
  obtain q where "fpga2nios_parse h w = do {
      w \<leftarrow> parse_distance (w\<lparr>LaserDataQueue := q, fpga2nios_data := (fpga2nios_data w)\<lparr>f_frame_head := 0x1234,
             f_command := DISTANCE_DATA, f_data_len := n\<rparr>\<rparr>);
      Some (-1, w) }"
    using parse_frame [OF assms(1,2) distance_head(1) assms(4), of h] unfolding distance_head(2) Let_def by auto
  then show ?thesis
    using store_targets_overflow [of _ "unat n"] assms(3,5) by (simp add: parse_distance_def Let_def)
qed

theorem turn_overflow_witness:
  "fpga2nios_parse quiet_env (world_init\<lparr>LaserDataQueue := \<lparr>q_front = 0, q_rear = 2, q_depth = 4, frame_over_flag = 0,
     q_data = [0x1234a003, 812, 0, 0]\<rparr>\<rparr>) = None"
  by (rule turn_overflow [where junk = "[]" and n = 812 and rest = "[]"])
    (simp_all add: queue_inv_def queue_list_def ring_len_def upt_rec TARGET_NUMBER_def world_init_def cycle_init_def)

end
