(* ===== verification/FpgaSpec.thy ===== *)
theory FpgaSpec
  imports Fpga2Nios HostFrame
begin

unbundle bit_operations_syntax

text \<open>
  What the measuring side promises: the characters of a value, the rules of the alarms, and the
  invariant that no stream of words from the FPGA can break. \<open>steady\<close> is the relation every step of
  the parser keeps.
\<close>

subsection \<open>Characters\<close>

definition upper_hex :: "nat \<Rightarrow> byte" where
  "upper_hex n = of_char (''0123456789ABCDEF'' ! n)"

lemma ascii_digit_char:
  assumes "n < 16"
  shows "ascii_digit (word_of_nat n) = ucast (upper_hex n)"
proof -
  have "list_all (\<lambda>n. ascii_digit (word_of_nat n) = ucast (upper_hex n)) [0..<16]"
    by (simp add: upt_rec ascii_digit_def upper_hex_def)
  then show ?thesis using assms by (simp add: list_all_iff)
qed

lemma nibble: "(v :: uint) AND 0x0f = word_of_nat (unat v mod 16)"
proof -
  have "v AND 0x0f = take_bit 4 v"
    by (simp add: take_bit_eq_mask mask_eq_decr_exp)
  moreover have "unat (take_bit 4 v) = unat v mod 16"
    by (simp only: unsigned_take_bit_eq) (simp add: take_bit_eq_mod)
  ultimately show ?thesis by (metis of_nat_unat ucast_id)
qed

lemma hex2ascii_chars:
  "hex2ascii v = be32 (upper_hex (unat v div 16 ^ 3 mod 16)) (upper_hex (unat v div 16 ^ 2 mod 16))
     (upper_hex (unat v div 16 ^ 1 mod 16)) (upper_hex (unat v div 16 ^ 0 mod 16))"
proof -
  have "unat (drop_bit k v) = unat v div 2 ^ k" for k
    by (simp only: unat_drop_bit_eq) (simp only: drop_bit_eq_div)
  then have "ascii_digit (drop_bit k v AND 0x0f) = ucast (upper_hex (unat v div 2 ^ k mod 16))" for k
    by (simp add: nibble ascii_digit_char)
  from this [of 12] this [of 8] this [of 4] this [of 0] show ?thesis
    by (simp add: hex2ascii_def be32_def Let_def)
qed

lemma value_chars:
  "be32_bytes (hex2ascii v) =
     map (\<lambda>k. upper_hex (unat v div 16 ^ k mod 16)) [3, 2, 1, 0] \<and>
   distance_text v = 0x20 # map (\<lambda>k. upper_hex (unat v div 16 ^ k mod 16)) [3, 2, 1, 0] \<and>
   gray_text v = 0x20 # map (\<lambda>k. upper_hex (unat v div 2 ^ 16 div 16 ^ k mod 16)) [1, 0]"
proof -
  let ?g = "drop_bit 16 v AND 0xffff"
  have "?g = take_bit 16 (drop_bit 16 v)"
    by (simp add: take_bit_eq_mask mask_eq_decr_exp)
  also have "\<dots> = drop_bit 16 v"
    by (rule bit_word_eqI) (auto simp: bit_simps dest: bit_imp_le_length)
  finally have "unat ?g = unat v div 2 ^ 16"
    by (simp only: unat_drop_bit_eq) (simp only: drop_bit_eq_div)
  then show ?thesis
    by (simp add: hex2ascii_chars be32_bytes_def distance_text_def gray_text_def Let_def)
qed

text \<open>The text of a value is the four upper-case hexadecimal digits of its low sixteen bits, most
  significant first, after a space.\<close>

theorem hex2ascii_digits:
  "be32_bytes (hex2ascii v) =
     map (\<lambda>k. upper_hex (unat v div 16 ^ k mod 16)) [3, 2, 1, 0] \<and>
   distance_text v = 0x20 # map (\<lambda>k. upper_hex (unat v div 16 ^ k mod 16)) [3, 2, 1, 0] \<and>
   gray_text v = 0x20 # map (\<lambda>k. upper_hex (unat v div 2 ^ 16 div 16 ^ k mod 16)) [1, 0]"
  by (rule value_chars)

subsection \<open>The alarms\<close>

text \<open>C36: the rules of the alarms on five samples: low speed, missing light and dust need all five samples
  over their limit, and low speed an enabled motor; the temperature alarm looks at the last sample
  only.\<close>

theorem alarm_rules:
  assumes "length (motor_cycle_cnt (sys_warn w)) = 5" and "length (warn_zero_value (sys_warn w)) = 5"
    and "length (dust_cnt (sys_warn w)) = 5" and "length (temp_value (sys_warn w)) = 5"
  shows "do { w \<leftarrow> process_motor_waring w; w \<leftarrow> process_ld_waring w; w \<leftarrow> process_window_dust_waring w;
      process_sys_temp_waring w } = Some (w\<lparr>sys_warn := (sys_warn w)\<lparr>
    motor_low_speed_alarm := of_bool (motor_enable (SysPara w) = ENABLE \<and>
      list_all (\<lambda>v. v \<ge> MOTOR_LOW_SPEED_VALUE) (motor_cycle_cnt (sys_warn w))),
    ld_not_work_alarm := of_bool (list_all (\<lambda>v. v < LD_NO_WORK_VALUE) (warn_zero_value (sys_warn w))),
    window_dust_alarm := of_bool (list_all (\<lambda>v. v > dust_threshold (SysPara w)) (dust_cnt (sys_warn w))),
    temp_out_alarm := of_bool (temp_out (last (temp_value (sys_warn w))))\<rparr>\<rparr>)"
proof -
  have five: "all_five ok xs = Some (list_all ok xs)" if "length xs = 5" for ok xs
    using that by (simp add: all_five_def slice_def)
  have "temp_value (sys_warn w) \<noteq> []" using assms(4) by auto
  then have last: "last (temp_value (sys_warn w)) = temp_value (sys_warn w) ! 4"
    using assms(4) by (simp add: last_conv_nth)
  have temp: "process_sys_temp_waring v = Some (v\<lparr>sys_warn := (sys_warn v)\<lparr>temp_out_alarm := of_bool (temp_out (temp_value (sys_warn v) ! 4))\<rparr>\<rparr>)"
    if "length (temp_value (sys_warn v)) = 5" for v
  proof -
    have "[0..<5] = [0, 1, 2, 3, 4 :: nat]" by code_simp
    then show ?thesis using that by (simp add: process_sys_temp_waring_def)
  qed
  show ?thesis
    unfolding last
    by (simp add: process_motor_waring_def process_ld_waring_def process_window_dust_waring_def temp five assms)
qed

definition fpga_ok :: "world \<Rightarrow> bool" where
  "fpga_ok w \<longleftrightarrow> world_wf w \<and> queue_inv (LaserDataQueue w) \<and> region_alarm (sys_warn w) \<le> 7 \<and>
     motor_low_speed_alarm (sys_warn w) \<le> 1 \<and> ld_not_work_alarm (sys_warn w) \<le> 1 \<and>
     window_dust_alarm (sys_warn w) \<le> 1 \<and> temp_out_alarm (sys_warn w) \<le> 1 \<and> warn_len (sys_warn w) \<le> 5"

definition aside :: "world \<Rightarrow> world \<Rightarrow> bool" where
  \<comment> \<open>what the FPGA's words do not concern: run-time layer, lamps, switch, and the ranges of the parameters\<close>
  "aside w w' \<longleftrightarrow> hal w' = hal w \<and> led_time_flag w' = led_time_flag w \<and> alarm_region w' = alarm_region w \<and>
     (params_ok (SysPara w) \<longrightarrow> params_ok (SysPara w'))"

definition steady :: "world \<Rightarrow> world \<Rightarrow> bool" where
  \<comment> \<open>keeps the invariant and the sample number\<close>
  "steady w w' \<longleftrightarrow> (fpga_ok w \<longrightarrow> fpga_ok w') \<and> warn_len (sys_warn w') = warn_len (sys_warn w) \<and> aside w w'"

interpretation st: frame_rel steady
  by unfold_locales (auto simp: steady_def aside_def)

lemma params_ok_samples [simp]:
  "params_ok (s\<lparr>motor_real_speed := v\<rparr>) = params_ok s" "params_ok (s\<lparr>zero_value := v\<rparr>) = params_ok s"
  "params_ok (s\<lparr>placeholer1 := v\<rparr>) = params_ok s" "params_ok (s\<lparr>zero_pulse_width := v\<rparr>) = params_ok s"
  "params_ok (s\<lparr>sys_temp := v, update_pos_flag := b\<rparr>) = params_ok s"
  by (simp_all add: params_ok_def guarded_defs)

lemma keepsv_pop_word: "keepsv steady pop_word"
  by (auto simp: keepsv_def pop_word_def steady_def aside_def fpga_ok_def world_wf_def dest: queue_pop_inv split: bind_splits)

lemma keeps_samples:
  "keeps steady (motor_sample x)" "keeps steady (zero_sample x)" "keeps steady (dust_sample x)"
  "keeps steady (temp_sample x)" "keeps steady (light_sample x)"
  unfolding keeps_def motor_sample_def zero_sample_def dust_sample_def temp_sample_def light_sample_def Let_def
  by (auto simp: steady_def aside_def fpga_ok_def world_wf_def sys_para_wf_def arr_set_eq_Some split: bind_splits if_splits)

lemma keeps_status_samples: "keeps steady status_samples"
  unfolding status_samples_def
  by (intro st.keeps_intros keepsv_pop_word keeps_samples)

lemma keeps_alarms:
  "keeps steady process_motor_waring" "keeps steady process_ld_waring" "keeps steady process_window_dust_waring"
  "keeps steady process_sys_temp_waring"
proof -
  show "keeps steady process_motor_waring" "keeps steady process_ld_waring" "keeps steady process_window_dust_waring"
    unfolding keeps_def process_motor_waring_def process_ld_waring_def process_window_dust_waring_def
    by (auto simp: steady_def aside_def fpga_ok_def world_wf_def split: bind_splits if_splits)
  have "keeps steady (\<lambda>w. do {
     v \<leftarrow> arr_get (temp_value (sys_warn w)) i;
     Some (w\<lparr>sys_warn := (sys_warn w)\<lparr>temp_out_alarm := if temp_out v then 0x01 else 0x00\<rparr>\<rparr>) })" for i
    unfolding keeps_def by (auto simp: steady_def aside_def fpga_ok_def world_wf_def split: bind_splits)
  then show "keeps steady process_sys_temp_waring"
    unfolding process_sys_temp_waring_def by (intro st.keeps_for)
qed

lemma steady_trace: "only_trace w w' \<Longrightarrow> steady w w'"
  by (auto simp: steady_def aside_def fpga_ok_def world_wf_def only_trace_def)

lemma keeps_report_alarms: "keeps steady (report_alarms h)"
  unfolding keeps_def
proof (intro allI impI)
  fix w w'
  assume "report_alarms h w = Some w'"
  then obtain sb m v k where sb: "blit (send_buffer w) 0 (alarm_report (sys_warn w)) = Some sb"
    and "send SOCKET0 sb 28 h (w\<lparr>send_buffer := sb\<rparr>) = Some (m, v)" and "send SOCKET1 (send_buffer v) 28 h v = Some (k, w')"
    by (auto simp: report_alarms_def Let_def split: bind_splits)
  then have "steady (w\<lparr>send_buffer := sb\<rparr>) v" "steady v w'"
    using keepsvD [OF keepsv_send] steady_trace by blast+
  moreover have "steady w (w\<lparr>send_buffer := sb\<rparr>)"
    using blit_length [OF sb] by (auto simp: steady_def aside_def fpga_ok_def world_wf_def)
  ultimately show "steady w w'" by (blast intro: st.R_trans)
qed

lemma keeps_store_target: "keeps steady store_target"
  unfolding keeps_def
proof (intro allI impI)
  fix w w'
  assume "store_target w = Some w'"
  then obtain x v d g where pop: "pop_word w = Some (x, v)"
    and d: "blit (distance_data (CycleData v)) (unat (distance_len (CycleData v))) (distance_text x) = Some d"
    and g: "blit (gray_data (CycleData v)) (unat (gray_len (CycleData v))) (gray_text x) = Some g"
    and w': "w' = v\<lparr>CycleData := (CycleData v)\<lparr>distance_data := d, distance_len := distance_len (CycleData v) + 5,
      gray_data := g, gray_len := gray_len (CycleData v) + 3\<rparr>\<rparr>"
    by (auto simp: store_target_def Let_def split: bind_splits)
  have "steady v w'"
    using blit_length [OF d] blit_length [OF g] by (auto simp: w' steady_def aside_def fpga_ok_def world_wf_def)
  then show "steady w w'"
    using keepsvD [OF keepsv_pop_word pop] by (blast intro: st.R_trans)
qed

lemma region_flags_le: "region_flags b c \<le> 7"
  by (simp add: region_flags_def word_and_le1)

lemma finish_turn_ok:
  assumes "finish_turn w = Some w'"
  shows "steady w w'"
proof -
  obtain x v where pop: "pop_word w = Some (x, v)"
    using assms by (auto simp: finish_turn_def split: bind_splits)
  have "steady v w'"
    using assms pop region_flags_le
    by (auto simp: finish_turn_def Let_def steady_def aside_def fpga_ok_def world_wf_def intro: queue_clear_inv)
  then show ?thesis using keepsvD [OF keepsv_pop_word pop] by (blast intro: st.R_trans)
qed

lemma parse_distance_ok:
  assumes "parse_distance w = Some w'"
  shows "steady w w'"
proof -
  let ?v = "w\<lparr>CycleData := (CycleData w)\<lparr>distance_len := 0, gray_len := 0\<rparr>\<rparr>"
  obtain u where u: "for_each [0..<unat (f_data_len (fpga2nios_data w))] (\<lambda>_. store_target) ?v = Some u" "finish_turn u = Some w'"
    using assms by (auto simp: parse_distance_def Let_def split: bind_splits)
  have "steady ?v u" using keepsD [OF st.keeps_for [OF keeps_store_target] u(1)] .
  moreover have "steady w ?v" by (auto simp: steady_def aside_def fpga_ok_def world_wf_def)
  ultimately show ?thesis using finish_turn_ok [OF u(2)] by (blast intro: st.R_trans)
qed

lemma parse_status_ok:
  assumes "parse_status h w = Some w'" and "fpga_ok w"
  shows "fpga_ok w' \<and> aside w w'"
proof -
  let ?v = "w\<lparr>sys_warn := (sys_warn w)\<lparr>warn_len := warn_len (sys_warn w) mod 5\<rparr>\<rparr>"
  define run where "run = (\<lambda>w. if f_checksum (fpga2nios_data w) = 0xeeeeeeee \<and> warn_len (sys_warn w) = 5
       then do { w \<leftarrow> process_motor_waring w; w \<leftarrow> process_ld_waring w; w \<leftarrow> process_window_dust_waring w; process_sys_temp_waring w }
       else Some w)"
  define rep where "rep = (\<lambda>w. if any_alarm (sys_warn w) then report_alarms h w else Some w)"
  have run: "keeps steady run" unfolding run_def by (intro st.keeps_intros keeps_alarms)
  have rep: "keeps steady rep" unfolding rep_def by (intro st.keeps_intros keeps_report_alarms)
  obtain a x b c where a: "status_samples ?v = Some a"
    and b: "pop_word (a\<lparr>sys_warn := (sys_warn a)\<lparr>warn_len := warn_len (sys_warn a) + 1\<rparr>\<rparr>) = Some (x, b)"
    and c: "run (b\<lparr>fpga2nios_data := (fpga2nios_data b)\<lparr>f_checksum := x\<rparr>\<rparr>) = Some c"
    and d: "rep (c\<lparr>LaserDataQueue := queue_clear (LaserDataQueue c)\<rparr>) = Some w'"
    using assms(1) unfolding parse_status_def Let_def run_def rep_def by (auto split: bind_splits)
  have lt: "warn_len (sys_warn w) mod 5 < 5" by (rule word_mod_less_divisor) simp
  then have "fpga_ok ?v" using assms(2) by (auto simp: fpga_ok_def world_wf_def)
  then have a': "fpga_ok a" "warn_len (sys_warn a) < 5"
    using keepsD [OF keeps_status_samples a] lt by (auto simp: steady_def)
  have "warn_len (sys_warn a) + 1 \<le> 5" using a'(2) by (rule inc_le)
  then have "fpga_ok (a\<lparr>sys_warn := (sys_warn a)\<lparr>warn_len := warn_len (sys_warn a) + 1\<rparr>\<rparr>)"
    using a'(1) by (auto simp: fpga_ok_def world_wf_def)
  then have "fpga_ok (b\<lparr>fpga2nios_data := (fpga2nios_data b)\<lparr>f_checksum := x\<rparr>\<rparr>)"
    using keepsvD [OF keepsv_pop_word b] by (auto simp: steady_def aside_def fpga_ok_def world_wf_def)
  then have "fpga_ok c" using keepsD [OF run c] by (auto simp: steady_def)
  then have "fpga_ok (c\<lparr>LaserDataQueue := queue_clear (LaserDataQueue c)\<rparr>)"
    by (auto simp: fpga_ok_def world_wf_def intro: queue_clear_inv)
  moreover have "aside w a" using keepsD [OF keeps_status_samples a] by (simp add: steady_def aside_def)
  ultimately show ?thesis
    using keepsD [OF rep d] keepsD [OF run c] keepsvD [OF keepsv_pop_word b] by (auto simp: steady_def aside_def)
qed

lemma fpga_parse_ok:
  assumes "fpga2nios_parse h w = Some (r, w')" and "fpga_ok w"
  shows "fpga_ok w' \<and> aside w w' \<and> r = -1"
proof -
  obtain q where find: "queue_inv q" "\<exists>x fd. find_frame (indet h ''recv_data'' (trace w)) w = Some (x, w\<lparr>LaserDataQueue := q, fpga2nios_data := fd\<rparr>)"
  proof -
    have inv: "queue_inv (LaserDataQueue w)" using assms(2) by (simp add: fpga_ok_def)
    show ?thesis
    proof (cases "dropWhile (\<lambda>v. \<not> is_head v) (queue_list (LaserDataQueue w))")
      case Nil
      then have "list_all (\<lambda>v. \<not> is_head v) (queue_list (LaserDataQueue w))"
        by (simp add: list_all_iff dropWhile_eq_Nil_conv)
      then obtain q where q: "queue_inv q" "find_frame (indet h ''recv_data'' (trace w)) w =
          Some (last (indet h ''recv_data'' (trace w) # queue_list (LaserDataQueue w)), w\<lparr>LaserDataQueue := q\<rparr>)"
        using find_frame_none [OF inv] by metis
      moreover have "w\<lparr>LaserDataQueue := q\<rparr> = w\<lparr>LaserDataQueue := q, fpga2nios_data := fpga2nios_data w\<rparr>" by simp
      ultimately show ?thesis using that by metis
    next
      case (Cons x xs)
      let ?j = "takeWhile (\<lambda>v. \<not> is_head v) (queue_list (LaserDataQueue w))"
      have "queue_list (LaserDataQueue w) = ?j @ x # xs" using Cons takeWhile_dropWhile_id by metis
      moreover have "list_all (\<lambda>v. \<not> is_head v) ?j" by (auto simp: list_all_iff dest: set_takeWhileD)
      moreover have "is_head x" using Cons hd_dropWhile [of "\<lambda>v. \<not> is_head v" "queue_list (LaserDataQueue w)"] by auto
      ultimately show ?thesis using find_frame_head [OF inv] that by metis
    qed
  qed
  then obtain x fd where "find_frame (indet h ''recv_data'' (trace w)) w = Some (x, w\<lparr>LaserDataQueue := q, fpga2nios_data := fd\<rparr>)"
    by blast
  moreover define v where "v = w\<lparr>LaserDataQueue := q, fpga2nios_data := fd\<lparr>f_command := ucast (x AND 0xffff)\<rparr>\<rparr>"
  ultimately obtain n u where pop: "pop_word v = Some (n, u)"
    and rest: "do { w \<leftarrow> (let v = u\<lparr>fpga2nios_data := (fpga2nios_data u)\<lparr>f_data_len := n\<rparr>\<rparr>; c = f_command (fpga2nios_data v) in
        if c = DISTANCE_DATA then parse_distance v else if c = UP_FPGA_STATUS then parse_status h v else Some v);
      Some (-1, w) } = Some (r, w')"
    using assms(1) unfolding fpga2nios_parse_def Let_def by (auto split: bind_splits)
  have "fpga_ok v \<and> aside w v" using assms(2) find(1) by (auto simp: v_def aside_def fpga_ok_def world_wf_def)
  then have "fpga_ok u \<and> aside w u" using keepsvD [OF keepsv_pop_word pop] by (auto simp: steady_def aside_def)
  then have "fpga_ok (u\<lparr>fpga2nios_data := (fpga2nios_data u)\<lparr>f_data_len := n\<rparr>\<rparr>) \<and>
      aside w (u\<lparr>fpga2nios_data := (fpga2nios_data u)\<lparr>f_data_len := n\<rparr>\<rparr>)"
    by (auto simp: aside_def fpga_ok_def world_wf_def)
  then show ?thesis
    using rest parse_distance_ok parse_status_ok
    by (auto simp: Let_def steady_def aside_def split: bind_splits if_splits)
qed

text \<open>C11: the words of the FPGA cannot break the program's data: a call that returns, on whatever the queue
  holds, keeps the arrays at their lengths, the ring buffer inside its array, the alarms at zero or
  one, the region flags within three bits, and the sample number within the five samples.\<close>

theorem fpga_keeps_invariant:
  assumes "fpga2nios_parse h w = Some (r, w')" and "fpga_ok w"
  shows "fpga_ok w' \<and> r = -1"
  using fpga_parse_ok [OF assms] by simp

lemma idle_frame:
  "\<exists>w'. fpga2nios_parse quiet_env (world_init\<lparr>LaserDataQueue := \<lparr>q_front = 0, q_rear = 2, q_depth = 4,
     frame_over_flag = 0, q_data = [0x12340000, 0, 0, 0]\<rparr>\<rparr>) = Some (-1, w')"
  using parse_frame [where w = "world_init\<lparr>LaserDataQueue := \<lparr>q_front = 0, q_rear = 2, q_depth = 4,
     frame_over_flag = 0, q_data = [0x12340000, 0, 0, 0]\<rparr>\<rparr>" and junk = "[]" and x = "0x12340000" and n = 0 and xs = "[]" and h = quiet_env]
  by (auto simp: queue_inv_def queue_list_def ring_len_def upt_rec is_head_def FRAME_HEAD_def DISTANCE_DATA_def UP_FPGA_STATUS_def)

lemma world_init_fpga_ok: "queue_inv q \<Longrightarrow> fpga_ok (world_init\<lparr>LaserDataQueue := q\<rparr>)"
  using world_init_wf by (auto simp: fpga_ok_def world_wf_def, simp_all add: world_init_def warn_init_def)

theorem fpga_keeps_invariant_witness:
  "\<exists>w'. fpga2nios_parse quiet_env (world_init\<lparr>LaserDataQueue := \<lparr>q_front = 0, q_rear = 2, q_depth = 4,
     frame_over_flag = 0, q_data = [0x12340000, 0, 0, 0]\<rparr>\<rparr>) = Some (-1, w') \<and> fpga_ok w'"
proof -
  obtain w' where w': "fpga2nios_parse quiet_env (world_init\<lparr>LaserDataQueue := \<lparr>q_front = 0, q_rear = 2, q_depth = 4,
     frame_over_flag = 0, q_data = [0x12340000, 0, 0, 0]\<rparr>\<rparr>) = Some (-1, w')"
    using idle_frame by blast
  moreover have "queue_inv \<lparr>q_front = 0, q_rear = 2, q_depth = 4, frame_over_flag = 0, q_data = [0x12340000, 0, 0, 0]\<rparr>"
    by (simp add: queue_inv_def)
  ultimately show ?thesis
    using fpga_keeps_invariant [OF w' world_init_fpga_ok] by blast
qed

theorem alarm_rules_witness:
  "do { w \<leftarrow> process_motor_waring world_init; w \<leftarrow> process_ld_waring w; w \<leftarrow> process_window_dust_waring w;
      process_sys_temp_waring w } = Some (world_init\<lparr>sys_warn := (sys_warn world_init)\<lparr>
    motor_low_speed_alarm := 0, ld_not_work_alarm := 1, window_dust_alarm := 0, temp_out_alarm := 0\<rparr>\<rparr>)"
proof -
  have five: "replicate 5 (0 :: uint) = [0, 0, 0, 0, 0]" by (simp add: numeral_eq_Suc)
  have w: "sys_warn world_init = warn_init" "SysPara world_init = SysPara_init" by (simp_all add: world_init_def)
  show ?thesis
    using alarm_rules [of world_init] unfolding w
    by (simp add: warn_init_def five SysPara_init_def LD_NO_WORK_VALUE_def MOTOR_LOW_SPEED_VALUE_def temp_out_def TEMP_OUT_VALUE_def)
qed

end
