(* ===== verification/SysClock.thy ===== *)
theory SysClock
  imports World
begin

unbundle bit_operations_syntax

text \<open>
  The system clock of the board support package (\<open>alt_tick.c\<close>, \<open>altera_avalon_timer_sc.c\<close>): the
  interrupt of the timer counts the ticks and runs the alarms whose time has come. What an alarm calls
  is the parameter \<open>call\<close> of these definitions, one function for every name of \<open>alarm_callback\<close>.
\<close>

definition on_hal :: "(hal \<Rightarrow> hal) \<Rightarrow> world \<Rightarrow> world" where
  "on_hal f w = w\<lparr>hal := f (hal w)\<rparr>"

definition hal_do :: "(hal \<Rightarrow> ('v \<times> hal) option) \<Rightarrow> world \<Rightarrow> ('v \<times> world) option" where
  "hal_do f w = do { (v, s) \<leftarrow> f (hal w); Some (v, w\<lparr>hal := s\<rparr>) }"

lemma on_hal_simps [simp]: "hal (on_hal f w) = f (hal w)" "trace (on_hal f w) = trace w"
  by (simp_all add: on_hal_def)

type_synonym callbacks = "alarm_callback \<Rightarrow> env \<Rightarrow> world \<Rightarrow> (uint \<times> world) option"

definition rearm :: "uint \<Rightarrow> uint \<Rightarrow> alt_alarm \<Rightarrow> alt_alarm" where
  \<comment> \<open>after a callback that asks for \<open>next_callback\<close> ticks\<close>
  "rearm nticks next_callback a = (let a = a\<lparr>al_time := al_time a + next_callback\<rparr>
     in if al_time a < nticks then a\<lparr>al_rollover := 1\<rparr> else a)"

definition wound :: "uint \<Rightarrow> alt_alarm \<Rightarrow> alt_alarm" where
  \<comment> \<open>the flag is cleared when the tick count has rolled over\<close>
  "wound now a = (if al_rollover a \<noteq> 0 \<and> now = 0 then a\<lparr>al_rollover := 0\<rparr> else a)"

definition fire :: "callbacks \<Rightarrow> nat \<Rightarrow> alt_alarm \<Rightarrow> env \<Rightarrow> world \<Rightarrow> world option" where
  \<comment> \<open>calls an alarm that is due, and removes it or sets its next time\<close>
  "fire call alarm a h w = do {
     (next_callback, w) \<leftarrow> call (al_callback a) h w;
     if next_callback = 0 then Some (on_hal (alt_alarm_stop alarm) w)
     else do {
       a \<leftarrow> arr_get (alarms (hal w)) alarm;
       Some (on_hal (\<lambda>s. s\<lparr>alarms := (alarms s)[alarm := rearm (alt_nticks s) next_callback a]\<rparr>) w) }
   }"

fun run_alarms :: "callbacks \<Rightarrow> nat list \<Rightarrow> env \<Rightarrow> world \<Rightarrow> world option" where
  \<comment> \<open>the loop of \<open>alt_tick\<close>; the link to the next alarm is read before the callback runs, and an
    alarm that has been removed since then links to itself, so that the loop does not end\<close>
  "run_alarms call [] h w = Some w"
| "run_alarms call (alarm # next) h w =
     (if alarm \<notin> set (alt_alarm_list (hal w)) then None
      else do {
        let nticks = alt_nticks (hal w);
        a \<leftarrow> arr_get (alarms (hal w)) alarm;
        let a = wound nticks a;
        let w = on_hal (\<lambda>s. s\<lparr>alarms := (alarms s)[alarm := a]\<rparr>) w;
        w \<leftarrow> (if al_time a \<le> nticks \<and> al_rollover a = 0 then fire call alarm a h w else Some w);
        run_alarms call next h w
      })"

definition alt_tick :: "callbacks \<Rightarrow> env \<Rightarrow> world \<Rightarrow> world option" where
  "alt_tick call h w = (let w = on_hal (\<lambda>s. s\<lparr>alt_nticks := alt_nticks s + 1\<rparr>) w
     in run_alarms call (alt_alarm_list (hal w)) h w)"

definition alt_avalon_timer_sc_irq :: "callbacks \<Rightarrow> dev \<Rightarrow> env \<Rightarrow> world \<Rightarrow> world option" where
  "alt_avalon_timer_sc_irq call base h w = do {
     w \<leftarrow> iowr base 0 0 w;
     (_, w) \<leftarrow> iord base 1 h w;
     let (cpu_sr, s) = alt_irq_disable_all (hal w);
     w \<leftarrow> alt_tick call h (w\<lparr>hal := s\<rparr>);
     Some (on_hal (alt_irq_enable_all cpu_sr) w)
   }"

definition alt_avalon_timer_sc_init :: "dev \<Rightarrow> uint \<Rightarrow> uint \<Rightarrow> uint \<Rightarrow> world \<Rightarrow> world option" where
  "alt_avalon_timer_sc_init base irq_controller_id irq freq w = do {
     let w = on_hal (\<lambda>s. snd (alt_sysclk_init freq s)) w;
     w \<leftarrow> iowr base 1 (0x1 OR 0x2 OR 0x4) w;
     (_, w) \<leftarrow> hal_do (alt_ic_isr_register irq_controller_id irq (Some Alt_avalon_timer_sc_irq)) w;
     Some w
   }"

subsection \<open>When an alarm runs\<close>

definition due :: "nat \<Rightarrow> uint \<Rightarrow> alt_alarm \<Rightarrow> bool" where
  \<comment> \<open>the alarm is to run at the \<open>d\<close>-th tick from the tick count \<open>now\<close> on\<close>
  "due d now a \<longleftrightarrow> 0 < d \<and> d < 2 ^ 32 \<and> al_time a = now + word_of_nat d \<and>
     (al_rollover a \<noteq> 0 \<longleftrightarrow> 2 ^ 32 \<le> unat now + d)"

lemma unat32: "unat x < 4294967296" for x :: uint
proof -
  have "unat x < 2 ^ LENGTH(32)" by (rule unsigned_less)
  then show ?thesis by simp
qed

lemma unat_plus_nat:
  fixes now :: uint
  assumes "d < 2 ^ 32"
  shows "unat (now + word_of_nat d) = (if unat now + d < 2 ^ 32 then unat now + d else unat now + d - 2 ^ 32)"
proof -
  have "unat (now + word_of_nat d) = (unat now + d) mod 2 ^ 32"
    using assms by (simp add: unat_word_ariths unat_of_nat)
  moreover have "unat now < 2 ^ 32" using unat32 [of now] by simp
  ultimately show ?thesis using assms by (simp add: mod_if)
qed

lemma due_start:
  assumes "n < 2 ^ 32 - 1"
  shows "due (n + 1) now \<lparr>al_time = word_of_nat n + now + 1,
    al_rollover = (if word_of_nat n + now + 1 < now then 1 else 0), al_callback = c\<rparr>"
proof -
  have t: "word_of_nat n + now + 1 = now + word_of_nat (n + 1)" by (simp add: add.commute add.left_commute)
  have "unat (now + word_of_nat (n + 1)) < unat now \<longleftrightarrow> 2 ^ 32 \<le> unat now + (n + 1)"
    using assms unat32 [of now] by (subst unat_plus_nat) auto
  then show ?thesis using assms unfolding due_def t by (simp add: word_less_nat_alt)
qed

lemma due_rearm:
  assumes "al_time a = now" and "al_rollover a = 0" and "0 < p" and "p < 2 ^ 32"
  shows "due p now (rearm now (word_of_nat p) a)"
proof -
  have "unat (now + word_of_nat p) < unat now \<longleftrightarrow> 2 ^ 32 \<le> unat now + p"
    using assms unat32 [of now] by (subst unat_plus_nat) auto
  then show ?thesis using assms by (simp add: due_def rearm_def Let_def word_less_nat_alt)
qed

lemma due_tick:
  assumes "due d now a"
  shows "al_time (wound (now + 1) a) \<le> now + 1 \<and> al_rollover (wound (now + 1) a) = 0 \<longleftrightarrow> d = 1"
    and "d \<noteq> 1 \<Longrightarrow> due (d - 1) (now + 1) (wound (now + 1) a)"
    and "d = 1 \<Longrightarrow> al_time (wound (now + 1) a) = now + 1"
proof -
  have d: "0 < d" "d < 2 ^ 32" "al_time a = now + word_of_nat d" "al_rollover a \<noteq> 0 \<longleftrightarrow> 2 ^ 32 \<le> unat now + d"
    using assms by (simp_all add: due_def)
  have n1: "unat (now + 1) = (if unat now + 1 < 2 ^ 32 then unat now + 1 else 0)"
    using unat_plus_nat [of 1 now] unat32 [of now] by (auto split: if_splits)
  have zero: "now + 1 = 0 \<longleftrightarrow> unat now + 1 = 2 ^ 32"
  proof -
    have "now + 1 = 0 \<longleftrightarrow> unat (now + 1) = 0" by (simp only: unat_eq_zero)
    then show ?thesis using n1 unat32 [of now] by (auto split: if_splits)
  qed
  show "al_time (wound (now + 1) a) \<le> now + 1 \<and> al_rollover (wound (now + 1) a) = 0 \<longleftrightarrow> d = 1"
    using d n1 zero unat_plus_nat [OF d(2), of now] unat32 [of now] by (auto simp: wound_def word_le_nat_alt split: if_splits)
  show "due (d - 1) (now + 1) (wound (now + 1) a)" if "d \<noteq> 1"
    using d n1 zero that unat32 [of now] by (auto simp: wound_def due_def split: if_splits)
  show "al_time (wound (now + 1) a) = now + 1" if "d = 1"
    using d that by (simp add: wound_def)
qed

end
