(* ===== verification/JtagUart.thy ===== *)
theory JtagUart
  imports SysClock
begin

unbundle bit_operations_syntax

text \<open>
  The interrupt-driven driver of the console (\<open>altera_avalon_jtag_uart_init.c\<close>, \<open>_read.c\<close>, \<open>_write.c\<close>,
  \<open>_ioctl.c\<close>): two ring buffers between the callers and the interrupt handler. The handler runs
  where a caller waits for it: \<open>preempt\<close> is what happens between two looks at the variables the
  handler changes. The semaphores and event flags are empty without an operating system.
\<close>

definition RE_MSK :: uint where "RE_MSK = 0x00000001"
definition WE_MSK :: uint where "WE_MSK = 0x00000002"
definition RI_MSK :: uint where "RI_MSK = 0x00000100"
definition WI_MSK :: uint where "WI_MSK = 0x00000200"
definition AC_MSK :: uint where "AC_MSK = 0x00000400"
definition WSPACE_MSK :: uint where "WSPACE_MSK = 0xFFFF0000"
definition RVALID_MSK :: uint where "RVALID_MSK = 0x00008000"
definition RAVAIL_MSK :: uint where "RAVAIL_MSK = 0xFFFF0000"
definition DATA_MSK :: uint where "DATA_MSK = 0x000000FF"

definition O_NONBLOCK :: uint where "O_NONBLOCK = 0x4000"

definition TIOCSTIMEOUT :: uint where "TIOCSTIMEOUT = 0x6a01"
definition TIOCGCONNECTED :: uint where "TIOCGCONNECTED = 0x6a02"

definition JTAG_UART_ALARM :: nat where
  \<comment> \<open>the place of \<open>sp->alarm\<close>\<close>
  "JTAG_UART_ALARM = 0"

abbreviation uart :: "world \<Rightarrow> altera_avalon_jtag_uart_state" where "uart w \<equiv> jtag_uart (hal w)"

definition on_uart :: "(altera_avalon_jtag_uart_state \<Rightarrow> altera_avalon_jtag_uart_state) \<Rightarrow> world \<Rightarrow> world" where
  "on_uart f = on_hal (\<lambda>s. s\<lparr>jtag_uart := f (jtag_uart s)\<rparr>)"

lemma on_uart_simps [simp]: "uart (on_uart f w) = f (uart w)" "trace (on_uart f w) = trace w"
  "alt_nticks (hal (on_uart f w)) = alt_nticks (hal w)" "alt_tick_rate (hal (on_uart f w)) = alt_tick_rate (hal w)"
  "alarms (hal (on_uart f w)) = alarms (hal w)" "alt_alarm_list (hal (on_uart f w)) = alt_alarm_list (hal w)"
  by (simp_all add: on_uart_def)

definition buf_next :: "uint \<Rightarrow> uint" where
  "buf_next i = (i + 1) mod 2048"

subsection \<open>Start\<close>

definition altera_avalon_jtag_uart_init :: "uint \<Rightarrow> uint \<Rightarrow> world \<Rightarrow> world option" where
  "altera_avalon_jtag_uart_init irq_controller_id irq w = do {
     let w = on_uart (\<lambda>sp. sp\<lparr>ju_irq_enable := RE_MSK\<rparr>) w;
     w \<leftarrow> iowr (ju_base (uart w)) 1 (ju_irq_enable (uart w)) w;
     (_, w) \<leftarrow> hal_do (alt_ic_isr_register irq_controller_id irq (Some Altera_avalon_jtag_uart_irq)) w;
     let w = on_uart (\<lambda>sp. sp\<lparr>ju_host_inactive := 0\<rparr>) w;
     (rc, w) \<leftarrow> hal_do (\<lambda>s. alt_alarm_start JTAG_UART_ALARM (alt_ticks_per_second s) Altera_avalon_jtag_uart_timeout s) w;
     Some (if rc < 0 then on_uart (\<lambda>sp. sp\<lparr>ju_timeout := word_of_int INT_MAX\<rparr>) w else w)
   }"

subsection \<open>Interrupt\<close>

partial_function (option) uart_receive :: "uint \<Rightarrow> env \<Rightarrow> world \<Rightarrow> (uint \<times> world) option" where
  \<comment> \<open>takes characters until the buffer is full or none is left; \<open>data\<close> is the last reading\<close>
  "uart_receive data h w = (let next = buf_next (rx_in (uart w)) in
     if next = rx_out (uart w) then Some (data, w)
     else do {
       (data, w) \<leftarrow> iord (ju_base (uart w)) 0 h w;
       if data AND RVALID_MSK = 0 then Some (data, w)
       else do {
         b \<leftarrow> arr_set (rx_buf (uart w)) (unat (rx_in (uart w))) (ucast (data AND DATA_MSK));
         uart_receive data h (on_uart (\<lambda>sp. sp\<lparr>rx_buf := b, rx_in := buf_next (rx_in sp)\<rparr>) w)
       }
     })"

fun uart_transmit :: "nat \<Rightarrow> world \<Rightarrow> (nat \<times> world) option" where
  \<comment> \<open>sends while the device has space; what is left of the space\<close>
  "uart_transmit 0 w = Some (0, w)"
| "uart_transmit (Suc space) w =
     (if tx_out (uart w) \<noteq> tx_in (uart w)
      then do {
        b \<leftarrow> arr_get (tx_buf (uart w)) (unat (tx_out (uart w)));
        w \<leftarrow> iowr (ju_base (uart w)) 0 (ucast b) w;
        uart_transmit space (on_uart (\<lambda>sp. sp\<lparr>tx_out := buf_next (tx_out sp)\<rparr>) w) }
      else Some (Suc space, w))"

definition mask_irq :: "uint \<Rightarrow> env \<Rightarrow> world \<Rightarrow> world option" where
  \<comment> \<open>turns one source off, and reads the register back\<close>
  "mask_irq msk h w = do {
     let w = on_uart (\<lambda>sp. sp\<lparr>ju_irq_enable := ju_irq_enable sp AND NOT msk\<rparr>) w;
     w \<leftarrow> iowr (ju_base (uart w)) 1 (ju_irq_enable (uart w)) w;
     (_, w) \<leftarrow> iord (ju_base (uart w)) 1 h w;
     Some w
   }"

definition uart_read_irq :: "env \<Rightarrow> world \<Rightarrow> world option" where
  "uart_read_irq h w = do {
     (data, w) \<leftarrow> uart_receive (push_bit 16 1) h w;
     if data AND RAVAIL_MSK \<noteq> 0 then mask_irq RE_MSK h w else Some w
   }"

definition uart_write_irq :: "uint \<Rightarrow> env \<Rightarrow> world \<Rightarrow> world option" where
  "uart_write_irq control h w = do {
     (space, w) \<leftarrow> uart_transmit (unat (drop_bit 16 (control AND WSPACE_MSK))) w;
     if space > 0 then mask_irq WE_MSK h w else Some w
   }"

partial_function (option) altera_avalon_jtag_uart_irq :: "env \<Rightarrow> world \<Rightarrow> world option" where
  "altera_avalon_jtag_uart_irq h w = do {
     (control, w) \<leftarrow> iord (ju_base (uart w)) 1 h w;
     if control AND (RI_MSK OR WI_MSK) = 0 then Some w
     else do {
       w \<leftarrow> (if control AND RI_MSK \<noteq> 0 then uart_read_irq h w else Some w);
       w \<leftarrow> (if control AND WI_MSK \<noteq> 0 then uart_write_irq control h w else Some w);
       altera_avalon_jtag_uart_irq h w
     }
   }"

definition altera_avalon_jtag_uart_timeout :: "env \<Rightarrow> world \<Rightarrow> (uint \<times> world) option" where
  "altera_avalon_jtag_uart_timeout h w = do {
     (control, w) \<leftarrow> iord (ju_base (uart w)) 1 h w;
     w \<leftarrow> (if control AND AC_MSK \<noteq> 0
       then do {
         w \<leftarrow> iowr (ju_base (uart w)) 1 (ju_irq_enable (uart w) OR AC_MSK) w;
         Some (on_uart (\<lambda>sp. sp\<lparr>ju_host_inactive := 0\<rparr>) w) }
       else if ju_host_inactive (uart w) < word_of_int (INT_MAX - 2)
       then Some (on_uart (\<lambda>sp. sp\<lparr>ju_host_inactive := ju_host_inactive sp + 1\<rparr>) w)
       else Some w);
     Some (alt_ticks_per_second (hal w), w)
   }"

definition run_callback :: callbacks where
  "run_callback c h w = (case c of Altera_avalon_jtag_uart_timeout \<Rightarrow> altera_avalon_jtag_uart_timeout h w)"

subsection \<open>Callers\<close>

definition enable_irq :: "uint \<Rightarrow> world \<Rightarrow> world option" where
  \<comment> \<open>turns one source on, with interrupts disabled\<close>
  "enable_irq msk w = do {
     let (context, s) = alt_irq_disable_all (hal w);
     let w = on_uart (\<lambda>sp. sp\<lparr>ju_irq_enable := ju_irq_enable sp OR msk\<rparr>) (w\<lparr>hal := s\<rparr>);
     w \<leftarrow> iowr (ju_base (uart w)) 1 (ju_irq_enable (uart w)) w;
     Some (on_hal (alt_irq_enable_all context) w)
   }"

partial_function (option) uart_wait ::
    "(world \<Rightarrow> bool) \<Rightarrow> (env \<Rightarrow> world \<Rightarrow> world option) \<Rightarrow> env \<Rightarrow> world \<Rightarrow> world option" where
  \<comment> \<open>\<open>while (... && sp->host_inactive < sp->timeout) ;\<close>\<close>
  "uart_wait still preempt h w =
     (if still w \<and> ju_host_inactive (uart w) < ju_timeout (uart w)
      then do { w \<leftarrow> emit (Spin 1) w; w \<leftarrow> preempt h w; uart_wait still preempt h w }
      else Some w)"

definition uart_avail :: "altera_avalon_jtag_uart_state \<Rightarrow> nat" where
  \<comment> \<open>the bytes that can be read in one piece\<close>
  "uart_avail sp = (if rx_in sp \<ge> rx_out sp then unat (rx_in sp - rx_out sp) else unat (2048 - rx_out sp))"

definition uart_space :: "altera_avalon_jtag_uart_state \<Rightarrow> nat" where
  \<comment> \<open>the bytes that can be stored in one piece\<close>
  "uart_space sp = (if tx_in sp < tx_out sp then unat (tx_out sp - 1 - tx_in sp)
     else if tx_out sp > 0 then unat (2048 - tx_in sp) else unat (2048 - 1 - tx_in sp))"

function uart_copy_out :: "nat \<Rightarrow> world \<Rightarrow> (byte list \<times> world) option" where
  \<comment> \<open>the inner loop of the read routine\<close>
  "uart_copy_out space w =
     (let n = uart_avail (uart w) in
      if space = 0 \<or> n = 0 then Some ([], w)
      else do {
        let n = min n space;
        bs \<leftarrow> slice (rx_buf (uart w)) (unat (rx_out (uart w))) n;
        (more, w) \<leftarrow> uart_copy_out (space - n) (on_uart (\<lambda>sp. sp\<lparr>rx_out := (rx_out sp + word_of_nat n) mod 2048\<rparr>) w);
        Some (bs @ more, w)
      })"
  by pat_completeness auto
termination by (relation "measure fst") auto

function uart_copy_in :: "byte list \<Rightarrow> world \<Rightarrow> (byte list \<times> world) option" where
  \<comment> \<open>the inner loop of the write routine; what has found no place\<close>
  "uart_copy_in bs w =
     (let n = uart_space (uart w) in
      if bs = [] \<or> n = 0 then Some (bs, w)
      else do {
        let n = min n (length bs);
        b \<leftarrow> blit (tx_buf (uart w)) (unat (tx_in (uart w))) (take n bs);
        uart_copy_in (drop n bs) (on_uart (\<lambda>sp. sp\<lparr>tx_buf := b, tx_in := (tx_in sp + word_of_nat n) mod 2048\<rparr>) w)
      })"
  by pat_completeness auto
termination by (relation "measure (length \<circ> fst)") auto

declare uart_copy_out.simps [simp del] uart_copy_in.simps [simp del]

partial_function (option) uart_read_loop ::
    "(env \<Rightarrow> world \<Rightarrow> world option) \<Rightarrow> nat \<Rightarrow> uint \<Rightarrow> env \<Rightarrow> world \<Rightarrow> (byte list \<times> world) option" where
  "uart_read_loop preempt space flags h w =
     (if space = 0 then Some ([], w)
      else do {
        let inp = rx_in (uart w);
        (bs, w) \<leftarrow> uart_copy_out space w;
        if bs \<noteq> [] \<or> flags AND O_NONBLOCK \<noteq> 0 then Some (bs, w)
        else do {
          w \<leftarrow> uart_wait (\<lambda>w. inp = rx_in (uart w)) preempt h w;
          if inp = rx_in (uart w) then Some ([], w) else uart_read_loop preempt space flags h w
        }
      })"

definition altera_avalon_jtag_uart_read ::
    "(env \<Rightarrow> world \<Rightarrow> world option) \<Rightarrow> int \<Rightarrow> uint \<Rightarrow> env \<Rightarrow> world \<Rightarrow> ((int \<times> byte list) \<times> world) option" where
  \<comment> \<open>the return value and what has been stored at \<open>buffer\<close>\<close>
  "altera_avalon_jtag_uart_read preempt space flags h w = do {
     (bs, w) \<leftarrow> uart_read_loop preempt (nat space) flags h w;
     w \<leftarrow> (if bs \<noteq> [] then enable_irq RE_MSK w else Some w);
     Some ((if bs \<noteq> [] then int (length bs) else if flags AND O_NONBLOCK \<noteq> 0 then - EWOULDBLOCK else - EIO, bs), w)
   }"

partial_function (option) uart_write_loop ::
    "(env \<Rightarrow> world \<Rightarrow> world option) \<Rightarrow> byte list \<Rightarrow> uint \<Rightarrow> env \<Rightarrow> world \<Rightarrow> (byte list \<times> world) option" where
  \<comment> \<open>what has not been written\<close>
  "uart_write_loop preempt bs flags h w = do {
     (left, w) \<leftarrow> uart_copy_in bs w;
     w \<leftarrow> enable_irq WE_MSK w;
     if left = [] \<or> flags AND O_NONBLOCK \<noteq> 0 then Some (left, w)
     else do {
       let out' = tx_out (uart w);
       w \<leftarrow> uart_wait (\<lambda>w. out' = tx_out (uart w)) preempt h w;
       if ju_host_inactive (uart w) \<noteq> 0 then Some (left, w) else uart_write_loop preempt left flags h w
     }
   }"

definition altera_avalon_jtag_uart_write ::
    "(env \<Rightarrow> world \<Rightarrow> world option) \<Rightarrow> byte list \<Rightarrow> uint \<Rightarrow> env \<Rightarrow> world \<Rightarrow> (int \<times> world) option" where
  "altera_avalon_jtag_uart_write preempt bs flags h w = do {
     (left, w) \<leftarrow> uart_write_loop preempt bs flags h w;
     let written = length bs - length left;
     Some (if written \<noteq> 0 then int written else if flags AND O_NONBLOCK \<noteq> 0 then - EWOULDBLOCK else - EIO, w)
   }"

definition altera_avalon_jtag_uart_close ::
    "(env \<Rightarrow> world \<Rightarrow> world option) \<Rightarrow> uint \<Rightarrow> env \<Rightarrow> world \<Rightarrow> (int \<times> world) option" where
  "altera_avalon_jtag_uart_close preempt flags h w =
     (if flags AND O_NONBLOCK \<noteq> 0
      then Some (if tx_out (uart w) \<noteq> tx_in (uart w) \<and> ju_host_inactive (uart w) < ju_timeout (uart w)
        then - EWOULDBLOCK else 0, w)
      else do { w \<leftarrow> uart_wait (\<lambda>w. tx_out (uart w) \<noteq> tx_in (uart w)) preempt h w; Some (0, w) })"

definition altera_avalon_jtag_uart_ioctl :: "uint \<Rightarrow> int \<Rightarrow> world \<Rightarrow> (int \<times> int) \<times> world" where
  \<comment> \<open>the return value and \<open>*arg\<close> afterwards\<close>
  "altera_avalon_jtag_uart_ioctl req arg w =
     (if req = TIOCSTIMEOUT \<and> ju_timeout (uart w) \<noteq> word_of_int INT_MAX
      then ((0, arg), on_uart (\<lambda>sp. sp\<lparr>ju_timeout := word_of_int (if arg \<ge> 2 \<and> arg < INT_MAX then arg else INT_MAX - 1)\<rparr>) w)
      else if req = TIOCGCONNECTED \<and> ju_timeout (uart w) \<noteq> word_of_int INT_MAX
      then ((0, if ju_host_inactive (uart w) < ju_timeout (uart w) then 1 else 0), w)
      else ((- ENOTTY, arg), w))"

end
