(* ===== verification/FileDesc.thy ===== *)
theory FileDesc
  imports JtagUart
begin

unbundle bit_operations_syntax

text \<open>
  Devices and file descriptors (\<open>alt_dev.c\<close>, \<open>alt_get_fd.c\<close>, \<open>alt_release_fd.c\<close>, \<open>alt_find_file.c\<close>,
  \<open>alt_open.c\<close>, \<open>alt_close.c\<close>, \<open>alt_read.c\<close>, \<open>alt_write.c\<close>, \<open>alt_lseek.c\<close>, \<open>alt_fstat.c\<close>, \<open>alt_isatty.c\<close>,
  \<open>alt_fcntl.c\<close>, \<open>alt_ioctl.c\<close>, \<open>alt_fd_lock.c\<close>, \<open>alt_fd_unlock.c\<close>, \<open>alt_io_redirect.c\<close>). The program has
  two devices, the console and the null device; no file system is registered. A descriptor that
  has no device is a null pointer to whoever uses it.
\<close>

definition ALT_FD_EXCL :: uint where "ALT_FD_EXCL = 0x80000000"
definition ALT_FD_DEV :: uint where "ALT_FD_DEV = 0x40000000"
definition ALT_FD_FLAGS_MASK :: uint where "ALT_FD_FLAGS_MASK = ALT_FD_EXCL OR ALT_FD_DEV"

definition O_ACCMODE :: uint where "O_ACCMODE = 3"
definition O_RDONLY :: uint where "O_RDONLY = 0"
definition O_WRONLY :: uint where "O_WRONLY = 1"
definition O_APPEND :: uint where "O_APPEND = 8"
definition F_GETFL :: int where "F_GETFL = 3"
definition F_SETFL :: int where "F_SETFL = 4"
definition ALT_FCNTL_FLAGS_MASK :: uint where "ALT_FCNTL_FLAGS_MASK = O_APPEND OR O_NONBLOCK"

definition TIOCEXCL :: uint where "TIOCEXCL = 0x740d"
definition TIOCNXCL :: uint where "TIOCNXCL = 0x740e"

subsection \<open>Devices\<close>

fun alt_dev_name :: "alt_dev \<Rightarrow> string" where
  "alt_dev_name Alt_dev_null = ''/dev/null''"
| "alt_dev_name Jtag_uart_dev = ''/dev/jtag_uart''"

definition alt_dev_reg :: "alt_dev \<Rightarrow> hal \<Rightarrow> int \<times> hal" where
  "alt_dev_reg dev s = (let (r, l) = alt_dev_llist_insert dev (alt_dev_list s) in (r, s\<lparr>alt_dev_list := l\<rparr>))"

type_synonym preemption = "env \<Rightarrow> world \<Rightarrow> world option"

definition alt_dev_null_write :: "byte list \<Rightarrow> int" where "alt_dev_null_write bs = int (length bs)"

definition altera_avalon_jtag_uart_read_fd :: "preemption \<Rightarrow> alt_fd \<Rightarrow> int \<Rightarrow> env \<Rightarrow> world \<Rightarrow> ((int \<times> byte list) \<times> world) option" where
  "altera_avalon_jtag_uart_read_fd preempt fd space h w = altera_avalon_jtag_uart_read preempt space (fd_flags fd) h w"

definition altera_avalon_jtag_uart_write_fd :: "preemption \<Rightarrow> alt_fd \<Rightarrow> byte list \<Rightarrow> env \<Rightarrow> world \<Rightarrow> (int \<times> world) option" where
  "altera_avalon_jtag_uart_write_fd preempt fd bs h w = altera_avalon_jtag_uart_write preempt bs (fd_flags fd) h w"

definition altera_avalon_jtag_uart_close_fd :: "preemption \<Rightarrow> alt_fd \<Rightarrow> env \<Rightarrow> world \<Rightarrow> (int \<times> world) option" where
  "altera_avalon_jtag_uart_close_fd preempt fd h w = altera_avalon_jtag_uart_close preempt (fd_flags fd) h w"

definition altera_avalon_jtag_uart_ioctl_fd :: "alt_fd \<Rightarrow> uint \<Rightarrow> int \<Rightarrow> world \<Rightarrow> (int \<times> int) \<times> world" where
  "altera_avalon_jtag_uart_ioctl_fd fd req arg w = altera_avalon_jtag_uart_ioctl req arg w"

text \<open>The function pointers of the two device structures; \<open>None\<close> is a null pointer. Neither has an
  \<open>open\<close>, an \<open>lseek\<close> or an \<open>fstat\<close>.\<close>

fun dev_close :: "alt_dev \<Rightarrow> (preemption \<Rightarrow> alt_fd \<Rightarrow> env \<Rightarrow> world \<Rightarrow> (int \<times> world) option) option" where
  "dev_close Alt_dev_null = None"
| "dev_close Jtag_uart_dev = Some altera_avalon_jtag_uart_close_fd"

fun dev_read :: "alt_dev \<Rightarrow> (preemption \<Rightarrow> alt_fd \<Rightarrow> int \<Rightarrow> env \<Rightarrow> world \<Rightarrow> ((int \<times> byte list) \<times> world) option) option" where
  "dev_read Alt_dev_null = None"
| "dev_read Jtag_uart_dev = Some altera_avalon_jtag_uart_read_fd"

fun dev_write :: "alt_dev \<Rightarrow> (preemption \<Rightarrow> alt_fd \<Rightarrow> byte list \<Rightarrow> env \<Rightarrow> world \<Rightarrow> (int \<times> world) option) option" where
  "dev_write Alt_dev_null = Some (\<lambda>_ _ bs _ w. Some (alt_dev_null_write bs, w))"
| "dev_write Jtag_uart_dev = Some altera_avalon_jtag_uart_write_fd"

fun dev_ioctl :: "alt_dev \<Rightarrow> (alt_fd \<Rightarrow> uint \<Rightarrow> int \<Rightarrow> world \<Rightarrow> (int \<times> int) \<times> world) option" where
  "dev_ioctl Alt_dev_null = None"
| "dev_ioctl Jtag_uart_dev = Some altera_avalon_jtag_uart_ioctl_fd"

subsection \<open>The pool of descriptors\<close>

fun first_free :: "nat \<Rightarrow> alt_fd list \<Rightarrow> nat option" where
  "first_free i [] = None"
| "first_free i (fd # fds) = (if fd_dev fd = None then Some i else first_free (i + 1) fds)"

definition alt_get_fd :: "alt_dev \<Rightarrow> hal \<Rightarrow> int \<times> hal" where
  "alt_get_fd dev s = (case first_free 0 (alt_fd_list s) of
     None \<Rightarrow> (- EMFILE, s)
   | Some i \<Rightarrow> (int i, s\<lparr>alt_fd_list := (alt_fd_list s)[i := (alt_fd_list s ! i)\<lparr>fd_dev := Some dev\<rparr>],
       alt_max_fd := (if int i > alt_max_fd s then int i else alt_max_fd s)\<rparr>))"

definition set_fd :: "int \<Rightarrow> (alt_fd \<Rightarrow> alt_fd) \<Rightarrow> hal \<Rightarrow> hal option" where
  \<comment> \<open>a change of \<open>alt_fd_list[i]\<close>\<close>
  "set_fd i f s = (if 0 \<le> i \<and> i < int (length (alt_fd_list s))
     then Some (s\<lparr>alt_fd_list := (alt_fd_list s)[nat i := f (alt_fd_list s ! nat i)]\<rparr>) else None)"

definition get_fd :: "int \<Rightarrow> hal \<Rightarrow> alt_fd option" where
  "get_fd i s = (if 0 \<le> i then arr_get (alt_fd_list s) (nat i) else None)"

definition alt_release_fd :: "int \<Rightarrow> hal \<Rightarrow> hal option" where
  "alt_release_fd fd s = (if fd > 2 then set_fd fd (\<lambda>f. f\<lparr>fd_flags := 0, fd_dev := None\<rparr>) s else Some s)"

definition mounts :: "string \<Rightarrow> string \<Rightarrow> bool option" where
  \<comment> \<open>whether a file belongs below the name of a file system\<close>
  "mounts dev_name name = do {
     let len = length dev_name;
     last \<leftarrow> (if len = 0 then None else Some (dev_name ! (len - 1)));
     let len = (if last = CHR ''/'' then len - 1 else len);
     c \<leftarrow> arr_get (name @ [CHR 0x00]) len;
     Some ((c = CHR ''/'' \<or> c = CHR 0x00) \<and> take len dev_name = take len name)
   }"

fun alt_find_file :: "string \<Rightarrow> string list \<Rightarrow> string option option" where
  \<comment> \<open>over the names of the registered file systems\<close>
  "alt_find_file name [] = Some None"
| "alt_find_file name (fs # rest) = do {
     m \<leftarrow> mounts fs name;
     if m then Some (Some fs) else alt_find_file name rest
   }"

definition alt_fd_lock :: "int \<Rightarrow> hal \<Rightarrow> (int \<times> hal) option" where
  \<comment> \<open>the loop runs to \<open>i < alt_max_fd\<close>\<close>
  "alt_fd_lock i s = do {
     fd \<leftarrow> get_fd i s;
     fds \<leftarrow> slice (alt_fd_list s) 0 (nat (alt_max_fd s));
     if \<exists>j \<in> set [0..<nat (alt_max_fd s)]. int j \<noteq> i \<and> fd_dev (fds ! j) = fd_dev fd
     then Some (- EACCES, s)
     else do { s \<leftarrow> set_fd i (\<lambda>f. f\<lparr>fd_flags := fd_flags f OR ALT_FD_EXCL\<rparr>) s; Some (0, s) }
   }"

definition alt_fd_unlock :: "int \<Rightarrow> hal \<Rightarrow> (int \<times> hal) option" where
  "alt_fd_unlock i s = do { s \<leftarrow> set_fd i (\<lambda>f. f\<lparr>fd_flags := fd_flags f AND NOT ALT_FD_EXCL\<rparr>) s; Some (0, s) }"

definition alt_file_locked :: "int \<Rightarrow> hal \<Rightarrow> (int \<times> hal) option" where
  \<comment> \<open>the loop runs to \<open>i <= alt_max_fd\<close>, compared as unsigned numbers\<close>
  "alt_file_locked i s = do {
     s \<leftarrow> set_fd i (\<lambda>f. f\<lparr>fd_flags := fd_flags f OR ALT_FD_DEV\<rparr>) s;
     fd \<leftarrow> get_fd i s;
     let n = unat (word_of_int (alt_max_fd s) :: uint) + 1;
     fds \<leftarrow> slice (alt_fd_list s) 0 n;
     Some (if \<exists>j \<in> set [0..<n]. fd_dev (fds ! j) = fd_dev fd \<and> fd_flags (fds ! j) AND ALT_FD_EXCL \<noteq> 0 \<and> int j \<noteq> i
       then - EACCES else 0, s)
   }"

definition fail :: "int \<Rightarrow> hal \<Rightarrow> int \<times> hal" where
  "fail e s = (-1, s\<lparr>alt_errno := e\<rparr>)"

definition ALT_OPEN :: "string \<Rightarrow> uint \<Rightarrow> hal \<Rightarrow> (int \<times> hal) option" where
  \<comment> \<open>\<open>alt_fs_list\<close> is empty; the mode is only passed to a device's own \<open>open\<close>, which none has\<close>
  "ALT_OPEN file flags s =
     (case alt_find_dev alt_dev_name file (alt_dev_list s) of
        None \<Rightarrow> do { _ \<leftarrow> alt_find_file file []; Some (fail ENODEV s) }
      | Some dev \<Rightarrow>
          (let (index, s) = alt_get_fd dev s in
           if index < 0 then Some (fail (- index) s)
           else do {
             s \<leftarrow> set_fd index (\<lambda>f. f\<lparr>fd_flags := flags AND NOT ALT_FD_FLAGS_MASK\<rparr>) s;
             (status, s) \<leftarrow> alt_file_locked index s;
             if status < 0 then do { s \<leftarrow> alt_release_fd index s; Some (fail (- status) s) }
             else Some (index, s) }))"

subsection \<open>System calls\<close>

definition the_dev :: "alt_fd \<Rightarrow> alt_dev option" where
  \<comment> \<open>\<open>fd->dev\<close>, followed\<close>
  "the_dev fd = fd_dev fd"

definition fail_w :: "int \<Rightarrow> world \<Rightarrow> int \<times> world" where
  "fail_w e w = (-1, on_hal (\<lambda>s. s\<lparr>alt_errno := e\<rparr>) w)"

definition ALT_CLOSE :: "preemption \<Rightarrow> int \<Rightarrow> env \<Rightarrow> world \<Rightarrow> (int \<times> world) option" where
  "ALT_CLOSE preempt fildes h w =
     (if fildes < 0 then Some (fail_w EBADFD w)
      else do {
        fd \<leftarrow> get_fd fildes (hal w);
        dev \<leftarrow> the_dev fd;
        (rval, w) \<leftarrow> (case dev_close dev of None \<Rightarrow> Some (0, w) | Some f \<Rightarrow> f preempt fd h w);
        s \<leftarrow> alt_release_fd fildes (hal w);
        let w = w\<lparr>hal := s\<rparr>;
        Some (if rval < 0 then fail_w (- rval) w else (0, w)) })"

definition ALT_READ :: "preemption \<Rightarrow> int \<Rightarrow> int \<Rightarrow> env \<Rightarrow> world \<Rightarrow> ((int \<times> byte list) \<times> world) option" where
  "ALT_READ preempt file len h w =
     (if file < 0 then (let (r, w) = fail_w EBADFD w in Some ((r, []), w))
      else do {
        fd \<leftarrow> get_fd file (hal w);
        reader \<leftarrow> (if fd_flags fd AND O_ACCMODE = O_WRONLY then Some None else map_option dev_read (the_dev fd));
        case reader of
          None \<Rightarrow> (let (r, w) = fail_w EACCES w in Some ((r, []), w))
        | Some f \<Rightarrow> do {
            ((rval, bs), w) \<leftarrow> f preempt fd len h w;
            if rval < 0 then (let (r, w) = fail_w (- rval) w in Some ((r, bs), w)) else Some ((rval, bs), w) } })"

definition ALT_WRITE :: "preemption \<Rightarrow> int \<Rightarrow> byte list \<Rightarrow> env \<Rightarrow> world \<Rightarrow> (int \<times> world) option" where
  "ALT_WRITE preempt file bs h w =
     (if file < 0 then Some (fail_w EBADFD w)
      else do {
        fd \<leftarrow> get_fd file (hal w);
        writer \<leftarrow> (if fd_flags fd AND O_ACCMODE = O_RDONLY then Some None else map_option dev_write (the_dev fd));
        case writer of
          None \<Rightarrow> Some (fail_w EACCES w)
        | Some f \<Rightarrow> do {
            (rval, w) \<leftarrow> f preempt fd bs h w;
            Some (if rval < 0 then fail_w (- rval) w else (rval, w)) } })"

definition ALT_LSEEK :: "int \<Rightarrow> world \<Rightarrow> (int \<times> world) option" where
  \<comment> \<open>no device has an \<open>lseek\<close>\<close>
  "ALT_LSEEK file w =
     (if file < 0 then Some (fail_w EBADFD w)
      else do { fd \<leftarrow> get_fd file (hal w); _ \<leftarrow> the_dev fd; Some (fail_w ENOTSUP w) })"

definition IFCHR :: uint where "IFCHR = 0x2000"

definition ALT_FSTAT :: "int \<Rightarrow> uint \<Rightarrow> world \<Rightarrow> ((int \<times> uint) \<times> world) option" where
  \<comment> \<open>no device has an \<open>fstat\<close>; with the return value, \<open>st_mode\<close> afterwards\<close>
  "ALT_FSTAT file st_mode w =
     (if file < 0 then (let (r, w) = fail_w EBADFD w in Some ((r, st_mode), w))
      else do { fd \<leftarrow> get_fd file (hal w); _ \<leftarrow> the_dev fd; Some ((0, IFCHR), w) })"

definition ALT_ISATTY :: "int \<Rightarrow> world \<Rightarrow> (int \<times> world) option" where
  "ALT_ISATTY file w =
     (if file < 0 then (let (_, w) = fail_w EBADFD w in Some (0, w))
      else do { fd \<leftarrow> get_fd file (hal w); _ \<leftarrow> the_dev fd; Some (1, w) })"

definition ALT_FCNTL :: "int \<Rightarrow> int \<Rightarrow> uint \<Rightarrow> world \<Rightarrow> (int \<times> world) option" where
  "ALT_FCNTL file cmd flags w =
     (if file < 0 then Some (fail_w EBADFD w)
      else do {
        fd \<leftarrow> get_fd file (hal w);
        if cmd = F_GETFL then Some (sint (fd_flags fd AND NOT ALT_FD_FLAGS_MASK), w)
        else if cmd = F_SETFL
        then do {
          s \<leftarrow> set_fd file (\<lambda>f. f\<lparr>fd_flags := fd_flags f AND NOT ALT_FCNTL_FLAGS_MASK OR (flags AND ALT_FCNTL_FLAGS_MASK)\<rparr>) (hal w);
          Some (0, w\<lparr>hal := s\<rparr>) }
        else Some (fail_w EINVAL w) })"

definition ALT_IOCTL :: "int \<Rightarrow> uint \<Rightarrow> int \<Rightarrow> world \<Rightarrow> ((int \<times> int) \<times> world) option" where
  \<comment> \<open>the return value and \<open>*arg\<close> afterwards; a failure is returned with its own code\<close>
  "ALT_IOCTL file req arg w = do {
     ((rc, arg), w) \<leftarrow>
       (if file < 0 then Some ((- EBADFD, arg), w)
        else do {
          fd \<leftarrow> get_fd file (hal w);
          if fd_flags fd AND ALT_FD_DEV \<noteq> 0 \<and> req = TIOCEXCL
          then do { (rc, w) \<leftarrow> hal_do (alt_fd_lock file) w; Some ((rc, arg), w) }
          else if fd_flags fd AND ALT_FD_DEV \<noteq> 0 \<and> req = TIOCNXCL
          then do { (rc, w) \<leftarrow> hal_do (alt_fd_unlock file) w; Some ((rc, arg), w) }
          else do {
            dev \<leftarrow> the_dev fd;
            case dev_ioctl dev of None \<Rightarrow> Some ((- ENOTTY, arg), w) | Some f \<Rightarrow> Some (f fd req arg w) } });
     Some ((rc, arg), if rc < 0 then on_hal (\<lambda>s. s\<lparr>alt_errno := - rc\<rparr>) w else w)
   }"

definition alt_open_fd :: "int \<Rightarrow> string \<Rightarrow> uint \<Rightarrow> hal \<Rightarrow> hal option" where
  "alt_open_fd i name flags s = do {
     (old, s) \<leftarrow> ALT_OPEN name flags s;
     if old \<ge> 0
     then do {
       fd \<leftarrow> get_fd old s;
       s \<leftarrow> set_fd i (\<lambda>_. fd) s;
       alt_release_fd old s }
     else Some s
   }"

definition alt_io_redirect :: "string \<Rightarrow> string \<Rightarrow> string \<Rightarrow> hal \<Rightarrow> hal option" where
  "alt_io_redirect stdout_dev stdin_dev stderr_dev s = do {
     s \<leftarrow> alt_open_fd 1 stdout_dev O_WRONLY s;
     s \<leftarrow> alt_open_fd 0 stdin_dev O_RDONLY s;
     alt_open_fd 2 stderr_dev O_WRONLY s
   }"

end
