(* ===== verification/SysInit.thy ===== *)
theory SysInit
  imports FileDesc RemoteUpdate
begin

text \<open>
  Start-up of the board support package, before \<open>main\<close>: \<open>alt_irq_init\<close> and \<open>alt_sys_init\<close>
  (\<open>alt_sys_init.c\<close>), and the redirection of the standard streams (\<open>alt_main.c\<close>).
\<close>

definition LED_TIMER_IRQ :: uint where "LED_TIMER_IRQ = 2"
definition LED_TIMER_FREQ :: uint where "LED_TIMER_FREQ = 100000000"
definition LED_TIMER_PERIOD :: uint where "LED_TIMER_PERIOD = 1"
definition LED_TIMER_PERIOD_UNITS :: string where "LED_TIMER_PERIOD_UNITS = ''ms''"
definition JTAG_UART_IRQ :: uint where "JTAG_UART_IRQ = 0"
definition ALT_SYS_CLK_BASE :: dev where "ALT_SYS_CLK_BASE = LED_TIMER_BASE"

definition c_udiv :: "uint \<Rightarrow> uint \<Rightarrow> uint option" where
  \<comment> \<open>unsigned division; a division by zero traps\<close>
  "c_udiv a b = (if b = 0 then None else Some (a div b))"

definition ALTERA_AVALON_TIMER_FREQ :: "uint \<Rightarrow> uint \<Rightarrow> string \<Rightarrow> uint option" where
  "ALTERA_AVALON_TIMER_FREQ freq period units =
     (if units \<noteq> ''us''
      then if units \<noteq> ''ms''
        then if units \<noteq> ''s'' then c_udiv (freq + (period - 1)) period else Some 1
        else c_udiv (1000 + (period - 1)) period
      else c_udiv (1000000 + (period - 1)) period)"

definition ALTERA_AVALON_TIMER_INIT :: "dev \<Rightarrow> uint \<Rightarrow> uint \<Rightarrow> uint \<Rightarrow> string \<Rightarrow> world \<Rightarrow> world option" where
  \<comment> \<open>there is no timestamp clock, so that only the system clock is started\<close>
  "ALTERA_AVALON_TIMER_INIT base irq freq period units w =
     (if base = ALT_SYS_CLK_BASE
      then do { f \<leftarrow> ALTERA_AVALON_TIMER_FREQ freq period units; alt_avalon_timer_sc_init base 0 irq f w }
      else Some w)"

definition ALTERA_AVALON_JTAG_UART_DEV_INIT :: "world \<Rightarrow> world option" where
  "ALTERA_AVALON_JTAG_UART_DEV_INIT w = do {
     w \<leftarrow> altera_avalon_jtag_uart_init 0 JTAG_UART_IRQ w;
     Some (on_hal (\<lambda>s. snd (alt_dev_reg Jtag_uart_dev s)) w)
   }"

definition alt_sys_init :: "env \<Rightarrow> world \<Rightarrow> world option" where
  \<comment> \<open>the macros of the FIFOs and of the system id are empty\<close>
  "alt_sys_init h w = do {
     w \<leftarrow> ALTERA_AVALON_TIMER_INIT LED_TIMER_BASE LED_TIMER_IRQ LED_TIMER_FREQ LED_TIMER_PERIOD LED_TIMER_PERIOD_UNITS w;
     w \<leftarrow> ALTERA_AVALON_TIMER_INIT WATCHDOG_BASE 4 100000000 5 ''s'' w;
     (_, w) \<leftarrow> alt_epcs_flash_init epcs_flash h w;
     ALTERA_AVALON_JTAG_UART_DEV_INIT w
   }"

definition alt_main :: "env \<Rightarrow> world \<Rightarrow> world option" where
  \<comment> \<open>up to the call of \<open>main\<close>; \<open>_do_ctors\<close> has no constructors to run\<close>
  "alt_main h w = do {
     w \<leftarrow> alt_sys_init h (on_hal alt_irq_init w);
     s \<leftarrow> alt_io_redirect ''/dev/jtag_uart'' ''/dev/jtag_uart'' ''/dev/jtag_uart'' (hal w);
     Some (w\<lparr>hal := s\<rparr>)
   }"

end
