(* ===== verification/Interrupt.thy ===== *)
theory Interrupt
  imports Region SysInit
begin

unbundle bit_operations_syntax

text \<open>
  \<open>led.c\<close> and \<open>user_interrupt.c\<close>: the lamps, the periodic interrupt and the watchdog. Every interrupt
  advances six counters; a counter that has reached its limit restarts and raises its flag. The
  handler is registered for the line of the timer that the board support package uses as its
  system clock, in the place of the clock's own handler.
\<close>

definition LED_ON :: byte where "LED_ON = 0"
definition LED_OFF :: byte where "LED_OFF = 1"

definition led_power_light :: "byte \<Rightarrow> 'a bus_scheme \<Rightarrow> 'a bus_scheme option" where
  "led_power_light status w = IOWR_PIO_DATA POWER_LED_BASE (ucast status) w"

definition led_status_light :: "byte \<Rightarrow> 'a bus_scheme \<Rightarrow> 'a bus_scheme option" where
  "led_status_light status w = IOWR_PIO_DATA STATUS_LED_BASE (ucast status) w"

text \<open>\<open>status_led.c\<close> is a second lamp module, with its own functions for the same two lamps.\<close>

definition power_led_light :: "byte \<Rightarrow> 'a bus_scheme \<Rightarrow> 'a bus_scheme option" where
  "power_led_light status w = IOWR_PIO_DATA POWER_LED_BASE (ucast status) w"

definition status_led_light :: "byte \<Rightarrow> 'a bus_scheme \<Rightarrow> 'a bus_scheme option" where
  "status_led_light status w = IOWR_PIO_DATA STATUS_LED_BASE (ucast status) w"

lemma second_lamp_module: "power_led_light = led_power_light" "status_led_light = led_status_light"
  by (simp_all add: fun_eq_iff power_led_light_def led_power_light_def status_led_light_def led_status_light_def)

definition timer_initial :: "world \<Rightarrow> world option" where
  \<comment> \<open>period registers 3 and 2, then control register 1: start, continuous, interrupt\<close>
  "timer_initial w = do {
     w \<leftarrow> iowr LED_TIMER_BASE 3 0x000f w;
     w \<leftarrow> iowr LED_TIMER_BASE 2 0x4240 w;
     w \<leftarrow> iowr LED_TIMER_BASE 1 (0x4 OR 0x2 OR 0x1) w;
     (_, w) \<leftarrow> hal_do (alt_ic_isr_register 0 LED_TIMER_IRQ (Some Timer_isr_interrupt)) w;
     Some w
   }"

definition lap :: "byte \<Rightarrow> byte \<times> byte \<Rightarrow> byte \<times> byte" where
  \<comment> \<open>counter and flag: the pattern all five blink counters share\<close>
  "lap limit = (\<lambda>(cnt, flag). if cnt = limit then (0, 0x01) else (cnt + 1, flag))"

definition tick_counters :: "led_time_flag_t \<Rightarrow> led_time_flag_t" where
  "tick_counters l = (
     let (c1, f1) = lap 50 (cnt_1s l, status_led_1s_flag l);
         l = l\<lparr>cnt_1s := c1, status_led_1s_flag := f1\<rparr>;
         (c2, f2) = lap 15 (cnt_300ms l, status_led_300ms_flag l);
         l = l\<lparr>cnt_300ms := c2, status_led_300ms_flag := f2\<rparr>;
         (c3, f3) = lap 100 (cnt_2s_p l, power_led_2s_flag l);
         l = l\<lparr>cnt_2s_p := c3, power_led_2s_flag := f3\<rparr>;
         (c4, f4) = lap 50 (cnt_1s_p l, power_led_1s_flag l);
         l = l\<lparr>cnt_1s_p := c4, power_led_1s_flag := f4\<rparr>;
         (c5, f5) = lap 15 (cnt_300ms_p l, power_led_300ms_flag l)
     in l\<lparr>cnt_300ms_p := c5, power_led_300ms_flag := f5\<rparr>)"

definition note_switch :: "env \<Rightarrow> world \<Rightarrow> world option" where
  \<comment> \<open>reads the selector switch; a change asks for its region to be loaded\<close>
  "note_switch h w = do {
     (v, w) \<leftarrow> rd_switch_io_value h w;
     let r = (alarm_region w)\<lparr>last_io_value0 := v\<rparr>;
     let r = (if last_io_value0 r \<noteq> last_io_value1 r
       then r\<lparr>change_region_flag := 0x01, change_region_value := last_io_value0 r\<rparr> else r);
     Some (w\<lparr>alarm_region := r\<lparr>last_io_value1 := last_io_value0 r\<rparr>\<rparr>)
   }"

definition sample_switch :: "env \<Rightarrow> world \<Rightarrow> world option" where
  "sample_switch h w =
     (if cnt_30ms (led_time_flag w) = 3
      then do {
        w \<leftarrow> note_switch h w;
        Some (w\<lparr>led_time_flag := (led_time_flag w)\<lparr>cnt_30ms := 0\<rparr>\<rparr>) }
      else Some (w\<lparr>led_time_flag := (led_time_flag w)\<lparr>cnt_30ms := cnt_30ms (led_time_flag w) + 1\<rparr>\<rparr>))"

definition toggle_power :: "led_time_flag_t \<Rightarrow> led_time_flag_t" where
  "toggle_power l = l\<lparr>power_led_value := NOT (power_led_value l) AND 0x01\<rparr>"

definition blink_power :: "world \<Rightarrow> world option" where
  \<comment> \<open>one of three rates by the nearest alarmed region; without an alarm the lamp is on\<close>
  "blink_power w = (let a = region_alarm (sys_warn w); l = led_time_flag w in
     if a \<noteq> 0
     then if a AND 0x01 \<noteq> 0
       then if power_led_300ms_flag l \<noteq> 0
         then (let l = toggle_power (l\<lparr>power_led_300ms_flag := 0\<rparr>) in
           led_power_light (power_led_value l) (w\<lparr>led_time_flag := l\<rparr>))
         else Some w
       else if a AND 0x02 \<noteq> 0
       then if power_led_1s_flag l \<noteq> 0
         then (let l = toggle_power (l\<lparr>power_led_1s_flag := 0\<rparr>) in
           led_power_light (power_led_value l) (w\<lparr>led_time_flag := l\<rparr>))
         else Some w
       else if a AND 0x04 \<noteq> 0
       then if power_led_2s_flag l \<noteq> 0
         then (let l = toggle_power (l\<lparr>power_led_2s_flag := 0\<rparr>) in
           led_power_light (power_led_value l) (w\<lparr>led_time_flag := l\<rparr>))
         else Some w
       else Some w
     else if NOT a OR ucast (isPowerUp w) \<noteq> 0 then led_power_light LED_ON w
     else Some w)"

definition timer_isr_interrupt :: "env \<Rightarrow> world \<Rightarrow> world option" where
  "timer_isr_interrupt h w = do {
     w \<leftarrow> iowr LED_TIMER_BASE 0 (NOT 0x1) w;
     let w = w\<lparr>led_time_flag := tick_counters (led_time_flag w)\<rparr>;
     w \<leftarrow> sample_switch h w;
     blink_power w
   }"

definition watchdog_init :: "'a bus_scheme \<Rightarrow> 'a bus_scheme option" where
  "watchdog_init w = iowr WATCHDOG_BASE 1 0x4 w"

definition watchdog_feed :: "'a bus_scheme \<Rightarrow> 'a bus_scheme option" where
  "watchdog_feed w = iowr WATCHDOG_BASE 2 0x1234 w"

subsection \<open>Ranges\<close>

definition timer_ok :: "led_time_flag_t \<Rightarrow> bool" where
  \<comment> \<open>no counter runs past its limit; flags and lamps are zero or one\<close>
  "timer_ok l \<longleftrightarrow> cnt_1s l \<le> 50 \<and> cnt_300ms l \<le> 15 \<and> cnt_2s_p l \<le> 100 \<and> cnt_1s_p l \<le> 50 \<and>
     cnt_300ms_p l \<le> 15 \<and> cnt_30ms l \<le> 3 \<and> status_led_1s_flag l \<le> 1 \<and> status_led_300ms_flag l \<le> 1 \<and>
     power_led_2s_flag l \<le> 1 \<and> power_led_1s_flag l \<le> 1 \<and> power_led_300ms_flag l \<le> 1 \<and>
     power_led_value l \<le> 1 \<and> status_led_value l \<le> 1"

definition switch_ok :: "region_t \<Rightarrow> bool" where
  \<comment> \<open>the selector has sixteen positions\<close>
  "switch_ok r \<longleftrightarrow> last_io_value0 r \<le> 15 \<and> last_io_value1 r \<le> 15 \<and> change_region_value r \<le> 15"

lemma below_limit: "c \<le> L \<Longrightarrow> c \<noteq> L \<Longrightarrow> c + 1 \<le> (L :: byte)"
  by (rule inc_le) simp

lemma lap_le: "fst (lap L (c, f)) \<le> L" "snd (lap L (c, f)) \<le> 1" if "c \<le> L" "f \<le> 1"
  using that by (auto simp: lap_def below_limit)

lemma tick_counters_fields:
  "tick_counters l = l\<lparr>cnt_1s := fst (lap 50 (cnt_1s l, status_led_1s_flag l)),
     status_led_1s_flag := snd (lap 50 (cnt_1s l, status_led_1s_flag l)),
     cnt_300ms := fst (lap 15 (cnt_300ms l, status_led_300ms_flag l)),
     status_led_300ms_flag := snd (lap 15 (cnt_300ms l, status_led_300ms_flag l)),
     cnt_2s_p := fst (lap 100 (cnt_2s_p l, power_led_2s_flag l)),
     power_led_2s_flag := snd (lap 100 (cnt_2s_p l, power_led_2s_flag l)),
     cnt_1s_p := fst (lap 50 (cnt_1s_p l, power_led_1s_flag l)),
     power_led_1s_flag := snd (lap 50 (cnt_1s_p l, power_led_1s_flag l)),
     cnt_300ms_p := fst (lap 15 (cnt_300ms_p l, power_led_300ms_flag l)),
     power_led_300ms_flag := snd (lap 15 (cnt_300ms_p l, power_led_300ms_flag l))\<rparr>"
  unfolding tick_counters_def Let_def by (simp split: prod.split)

lemma tick_counters_ok: "timer_ok l \<Longrightarrow> timer_ok (tick_counters l)"
  unfolding timer_ok_def tick_counters_fields by (simp add: lap_le)

lemma switch_value_le: "NOT (d :: byte) AND 0x0f \<le> 15"
  by (rule word_and_le1 [THEN order_trans]) simp

lemma lamp_le [simp]: "NOT (v :: byte) AND 1 \<le> 1"
  by (rule word_and_le1)

subsection \<open>The selector switch\<close>

definition switch_value :: "env \<Rightarrow> 'a bus_scheme \<Rightarrow> byte" where
  "switch_value h w = NOT (ucast (rd h (trace w) ALARM_SELECT_BASE 0)) AND 0x0f"

definition selected :: "byte \<Rightarrow> region_t \<Rightarrow> region_t" where
  "selected v r = (let r = r\<lparr>last_io_value0 := v\<rparr>;
     r = (if v \<noteq> last_io_value1 r then r\<lparr>change_region_flag := 0x01, change_region_value := v\<rparr> else r)
   in r\<lparr>last_io_value1 := v\<rparr>)"

lemma note_switch_eq:
  "note_switch h w = Some ((logged w [Iord ALARM_SELECT_BASE 0])\<lparr>alarm_region := selected (switch_value h w) (alarm_region w)\<rparr>)"
  by (simp add: note_switch_def rd_switch_io_value_def selected_def switch_value_def Let_def logged_def)

lemma selected_ok: "switch_ok r \<Longrightarrow> v \<le> 15 \<Longrightarrow> switch_ok (selected v r)"
  by (simp add: switch_ok_def selected_def Let_def)

subsection \<open>Interrupts in a row\<close>

fun isr_run :: "nat \<Rightarrow> env \<Rightarrow> world \<Rightarrow> world option" where
  "isr_run 0 h w = Some w"
| "isr_run (Suc n) h w = do { w \<leftarrow> timer_isr_interrupt h w; isr_run n h w }"

lemma isr_run_add: "isr_run (m + n) h w = do { w \<leftarrow> isr_run m h w; isr_run n h w }"
  by (induction m arbitrary: w) (auto split: bind_splits)

definition power_phase :: "uint \<Rightarrow> led_time_flag_t \<Rightarrow> (byte \<times> byte \<times> byte) option" where
  \<comment> \<open>limit, counter and flag of the rate that an alarm in these regions selects\<close>
  "power_phase a l =
     (if a AND 0x01 \<noteq> 0 then Some (15, cnt_300ms_p l, power_led_300ms_flag l)
      else if a AND 0x02 \<noteq> 0 then Some (50, cnt_1s_p l, power_led_1s_flag l)
      else if a AND 0x04 \<noteq> 0 then Some (100, cnt_2s_p l, power_led_2s_flag l)
      else None)"

lemma sample_switch_frame:
  "\<exists>evs r c. sample_switch h w = Some ((logged w evs)\<lparr>alarm_region := r,
     led_time_flag := (led_time_flag w)\<lparr>cnt_30ms := c\<rparr>\<rparr>) \<and> words_to POWER_LED_BASE evs = []"
proof (cases "cnt_30ms (led_time_flag w) = 3")
  case True
  then show ?thesis
    by (intro exI [of _ "[Iord ALARM_SELECT_BASE 0]"] exI [of _ "selected (switch_value h w) (alarm_region w)"] exI [of _ 0])
      (simp add: sample_switch_def note_switch_eq logged_def)
next
  case False
  then show ?thesis
    by (intro exI [of _ "[]"] exI [of _ "alarm_region w"] exI [of _ "cnt_30ms (led_time_flag w) + 1"])
      (simp add: sample_switch_def)
qed

lemma isr_eq:
  "\<exists>evs r c. timer_isr_interrupt h w = blink_power ((logged w evs)\<lparr>alarm_region := r,
     led_time_flag := (tick_counters (led_time_flag w))\<lparr>cnt_30ms := c\<rparr>\<rparr>) \<and> words_to POWER_LED_BASE evs = []"
proof -
  define v where "v = (logged w [Iowr LED_TIMER_BASE 0 (NOT 1)])\<lparr>led_time_flag := tick_counters (led_time_flag w)\<rparr>"
  have "timer_isr_interrupt h w = do { w \<leftarrow> sample_switch h v; blink_power w }"
    by (simp add: timer_isr_interrupt_def v_def, simp add: logged_def)
  moreover obtain evs r c where "sample_switch h v = Some ((logged v evs)\<lparr>alarm_region := r,
     led_time_flag := (led_time_flag v)\<lparr>cnt_30ms := c\<rparr>\<rparr>)" "words_to POWER_LED_BASE evs = []"
    using sample_switch_frame by blast
  ultimately show ?thesis
    by (intro exI [of _ "Iowr LED_TIMER_BASE 0 (NOT 1) # evs"] exI [of _ r] exI [of _ c])
      (simp add: v_def logged_def)
qed

lemma power_step:
  assumes "power_phase (region_alarm (sys_warn w)) (led_time_flag w) = Some (L, c, 0)"
  shows "\<exists>w'. timer_isr_interrupt h w = Some w' \<and> sys_warn w' = sys_warn w \<and>
    power_phase (region_alarm (sys_warn w)) (led_time_flag w') = Some (L, if c = L then 0 else c + 1, 0) \<and>
    power_led_value (led_time_flag w') = (if c = L then NOT (power_led_value (led_time_flag w)) AND 1
      else power_led_value (led_time_flag w)) \<and>
    words_to POWER_LED_BASE (trace w') = words_to POWER_LED_BASE (trace w) @
      (if c = L then [ucast (NOT (power_led_value (led_time_flag w)) AND 1)] else [])"
proof -
  obtain evs r k where isr: "timer_isr_interrupt h w = blink_power ((logged w evs)\<lparr>alarm_region := r,
     led_time_flag := (tick_counters (led_time_flag w))\<lparr>cnt_30ms := k\<rparr>\<rparr>)" "words_to POWER_LED_BASE evs = []"
    using isr_eq by blast
  have "region_alarm (sys_warn w) \<noteq> 0" using assms by (auto simp: power_phase_def)
  then show ?thesis
    using assms isr(2) unfolding isr(1) blink_power_def Let_def
    by (auto simp: power_phase_def tick_counters_fields lap_def toggle_power_def led_power_light_def logged_def
        split: if_splits)
qed

definition blinks :: "byte \<Rightarrow> nat \<Rightarrow> uint list" where
  \<comment> \<open>the next \<open>k\<close> states of a lamp that is at \<open>v\<close>\<close>
  "blinks v k = map (\<lambda>i. ucast (if even i then NOT v AND 1 else v)) [0..<k]"

lemma zero_or_one:
  assumes "v \<le> (1 :: byte)"
  shows "v = 0 \<or> v = 1"
proof -
  have "unat v \<in> {0, 1}" using assms by (auto simp: word_le_nat_alt)
  then show ?thesis by (auto simp: word_unat_eq_iff)
qed

lemma blinks_Suc: "v \<le> 1 \<Longrightarrow> ucast (NOT v AND 1) # blinks (NOT v AND 1) k = blinks v (Suc k)"
proof -
  assume "v \<le> 1"
  then have "NOT (NOT v AND 1) AND 1 = v"
    using zero_or_one by fastforce
  then show ?thesis
    by (simp add: blinks_def map_upt_Suc del: upt_Suc)
qed

lemma lap_div:
  assumes "c \<le> (L :: nat)"
  shows "(c + Suc n) div (L + 1) = (if c = L then Suc (n div (L + 1)) else (c + 1 + n) div (L + 1))"
  using div_add_self1 [of "L + 1" n] by (simp add: add.commute add.left_commute)

text \<open>C14: the power lamp during an alarm. While the same regions stay alarmed, interrupts switch the lamp
  at a fixed rate: with the limit \<open>L\<close> of the nearest alarmed region and its counter at \<open>c\<close>, \<open>n\<close>
  interrupts in a row return and write the lamp exactly \<open>(c + n) div (L + 1)\<close> times, alternating from
  its present state; the nearest region (15) blinks fastest, then 50, then 100.\<close>

theorem power_lamp_blinks:
  assumes "power_phase (region_alarm (sys_warn w)) (led_time_flag w) = Some (L, c, 0)"
    and "c \<le> L" and "power_led_value (led_time_flag w) \<le> 1"
  shows "\<exists>w'. isr_run n h w = Some w' \<and>
    words_to POWER_LED_BASE (trace w') = words_to POWER_LED_BASE (trace w) @
      blinks (power_led_value (led_time_flag w)) ((unat c + n) div (unat L + 1))"
  using assms
proof (induction n arbitrary: w c)
  case 0
  have "unat c < unat L + 1" using 0(2) by (simp add: word_le_nat_alt)
  then show ?case by (simp add: blinks_def)
next
  case (Suc n)
  obtain v where v: "timer_isr_interrupt h w = Some v" "sys_warn v = sys_warn w"
    and ph: "power_phase (region_alarm (sys_warn w)) (led_time_flag v) = Some (L, if c = L then 0 else c + 1, 0)"
    and lamp: "power_led_value (led_time_flag v) = (if c = L then NOT (power_led_value (led_time_flag w)) AND 1
      else power_led_value (led_time_flag w))"
    and ws: "words_to POWER_LED_BASE (trace v) = words_to POWER_LED_BASE (trace w) @
      (if c = L then [ucast (NOT (power_led_value (led_time_flag w)) AND 1)] else [])"
    using power_step [OF Suc.prems(1)] by blast
  have le: "(if c = L then 0 else c + 1) \<le> L" using Suc.prems(2) by (simp add: below_limit)
  have "power_led_value (led_time_flag v) \<le> 1" using Suc.prems(3) by (simp add: lamp)
  then obtain w' where run: "isr_run n h v = Some w'" and log: "words_to POWER_LED_BASE (trace w') =
      words_to POWER_LED_BASE (trace v) @ blinks (power_led_value (led_time_flag v))
        ((unat (if c = L then 0 else c + 1) + n) div (unat L + 1))"
    using Suc.IH [OF _ le, of v] ph v(2) by auto
  have nat: "unat c \<le> unat L" "c = L \<longleftrightarrow> unat c = unat L"
    using Suc.prems(2) by (simp_all add: word_le_nat_alt word_unat_eq_iff)
  have up: "unat (c + 1) = unat c + 1" if "c \<noteq> L"
  proof -
    have "unat c < unat L" using nat that by linarith
    then have "unat c + unat (1 :: byte) < 2 ^ LENGTH(8)" using unsigned_less [of L, where 'a = nat] by simp
    then show ?thesis by (simp only: unat_add_lem) simp
  qed
  show ?case
    using run v(1) log lap_div [OF nat(1), of n] blinks_Suc [OF Suc.prems(3)]
    by (cases "c = L") (simp_all add: lamp ws up)
qed

theorem power_lamp_blinks_witness:
  "\<exists>w'. isr_run 40 quiet_env (world_init\<lparr>sys_warn := warn_init\<lparr>region_alarm := 5\<rparr>\<rparr>) = Some w' \<and>
    words_to POWER_LED_BASE (trace w') = [1, 0]"
proof -
  let ?w = "world_init\<lparr>sys_warn := warn_init\<lparr>region_alarm := 5\<rparr>\<rparr>"
  have "trace ?w = []" "led_time_flag ?w = led_init" by (simp_all add: world_init_def)
  moreover have "blinks 0 2 = [1, 0]" by (simp add: blinks_def upt_rec)
  ultimately show ?thesis
    using power_lamp_blinks [of ?w 15 0 40 quiet_env] by (simp add: power_phase_def led_init_def)
qed

lemma blink_power_frame:
  "\<exists>w'. blink_power w = Some w' \<and> alarm_region w' = alarm_region w \<and>
     cnt_30ms (led_time_flag w') = cnt_30ms (led_time_flag w)"
  by (simp add: blink_power_def Let_def toggle_power_def led_power_light_def logged_def)

lemma isr_switch:
  "\<exists>w' t. timer_isr_interrupt h w = Some w' \<and>
     (if cnt_30ms (led_time_flag w) = 3
      then cnt_30ms (led_time_flag w') = 0 \<and> alarm_region w' = selected (NOT (ucast (rd h t ALARM_SELECT_BASE 0)) AND 0x0f) (alarm_region w)
      else cnt_30ms (led_time_flag w') = cnt_30ms (led_time_flag w) + 1 \<and> alarm_region w' = alarm_region w)"
proof -
  define v where "v = (logged w [Iowr LED_TIMER_BASE 0 (NOT 1)])\<lparr>led_time_flag := tick_counters (led_time_flag w)\<rparr>"
  have isr: "timer_isr_interrupt h w = do { w \<leftarrow> sample_switch h v; blink_power w }"
    by (simp add: timer_isr_interrupt_def v_def, simp add: logged_def)
  have c: "cnt_30ms (led_time_flag v) = cnt_30ms (led_time_flag w)" "alarm_region v = alarm_region w"
    by (simp_all add: v_def tick_counters_fields logged_def)
  show ?thesis
  proof (cases "cnt_30ms (led_time_flag w) = 3")
    case True
    define u where "u = (logged v [Iord ALARM_SELECT_BASE 0])\<lparr>alarm_region := selected (switch_value h v) (alarm_region v),
      led_time_flag := (led_time_flag v)\<lparr>cnt_30ms := 0\<rparr>\<rparr>"
    have "sample_switch h v = Some u"
      using True c by (simp add: sample_switch_def note_switch_eq u_def logged_def)
    moreover obtain w' where "blink_power u = Some w'" "alarm_region w' = alarm_region u"
      "cnt_30ms (led_time_flag w') = cnt_30ms (led_time_flag u)"
      using blink_power_frame by blast
    ultimately show ?thesis
      using True c by (intro exI [of _ w'] exI [of _ "trace v"]) (simp add: isr u_def switch_value_def)
  next
    case False
    define u where "u = v\<lparr>led_time_flag := (led_time_flag v)\<lparr>cnt_30ms := cnt_30ms (led_time_flag v) + 1\<rparr>\<rparr>"
    have "sample_switch h v = Some u"
      using False c by (simp add: sample_switch_def u_def)
    moreover obtain w' where "blink_power u = Some w'" "alarm_region w' = alarm_region u"
      "cnt_30ms (led_time_flag w') = cnt_30ms (led_time_flag u)"
      using blink_power_frame by blast
    ultimately show ?thesis
      using False c by (intro exI [of _ w'] exI [of _ "trace v"]) (simp add: isr u_def)
  qed
qed

definition asks_for :: "byte \<Rightarrow> region_t \<Rightarrow> bool" where
  \<comment> \<open>the main loop is asked to load the regions of this switch position\<close>
  "asks_for v r \<longleftrightarrow> change_region_flag r = 1 \<and> change_region_value r = v \<and> last_io_value1 r = v"

lemma selected_asks:
  "asks_for v r \<Longrightarrow> asks_for v (selected v r)" "v \<noteq> last_io_value1 r \<Longrightarrow> asks_for v (selected v r)"
  by (simp_all add: asks_for_def selected_def Let_def)

lemma isr_run_asks:
  assumes "\<forall>t. NOT (ucast (rd h t ALARM_SELECT_BASE 0)) AND 0x0f = v" and "cnt_30ms (led_time_flag w) \<le> 3"
    and "asks_for v (alarm_region w) \<or> v \<noteq> last_io_value1 (alarm_region w) \<and> 4 \<le> unat (cnt_30ms (led_time_flag w)) + n"
  shows "\<exists>w'. isr_run n h w = Some w' \<and> asks_for v (alarm_region w')"
  using assms(2,3)
proof (induction n arbitrary: w)
  case 0
  then have "unat (cnt_30ms (led_time_flag w)) \<le> 3" by (simp add: word_le_nat_alt)
  then show ?case using 0(2) by simp
next
  case (Suc n)
  obtain u t where u: "timer_isr_interrupt h w = Some u" and
    st: "if cnt_30ms (led_time_flag w) = 3
      then cnt_30ms (led_time_flag u) = 0 \<and> alarm_region u = selected (NOT (ucast (rd h t ALARM_SELECT_BASE 0)) AND 0x0f) (alarm_region w)
      else cnt_30ms (led_time_flag u) = cnt_30ms (led_time_flag w) + 1 \<and> alarm_region u = alarm_region w"
    using isr_switch by blast
  show ?case
  proof (cases "cnt_30ms (led_time_flag w) = 3")
    case True
    then have "alarm_region u = selected v (alarm_region w)" and c: "cnt_30ms (led_time_flag u) = 0"
      using st assms(1) by simp_all
    then have "asks_for v (alarm_region u)" using Suc.prems(2) selected_asks by auto
    then show ?thesis using Suc.IH [of u] u c by simp
  next
    case False
    then have st: "cnt_30ms (led_time_flag u) = cnt_30ms (led_time_flag w) + 1" "alarm_region u = alarm_region w"
      using st by simp_all
    have "cnt_30ms (led_time_flag w) < 3" using False Suc.prems(1) by simp
    then have "unat (cnt_30ms (led_time_flag w)) < 3" by (simp add: word_less_nat_alt)
    then have "unat (cnt_30ms (led_time_flag w) + 1) = unat (cnt_30ms (led_time_flag w)) + 1"
      by (simp add: unat_word_ariths)
    then show ?thesis
      using Suc.IH [of u] Suc.prems u st below_limit [OF Suc.prems(1) False] by auto
  qed
qed

text \<open>C15: the selector switch is noticed by the interrupt alone. Once its inputs rest at a new position \<open>v\<close>,
  at most four interrupts later the main loop has been asked to load the regions of \<open>v\<close>, and further
  interrupts do not take the request back.\<close>

theorem switch_noticed:
  assumes "\<forall>t. NOT (ucast (rd h t ALARM_SELECT_BASE 0)) AND 0x0f = v"
    and "v \<noteq> last_io_value1 (alarm_region w)" and "cnt_30ms (led_time_flag w) \<le> 3"
  shows "\<exists>w'. isr_run (4 + n) h w = Some w' \<and> change_region_flag (alarm_region w') = 1 \<and>
    change_region_value (alarm_region w') = v"
  using isr_run_asks [of h v w "4 + n"] assms by (auto simp: asks_for_def)

theorem switch_noticed_witness:
  "\<exists>w'. isr_run (4 + 1) quiet_env world_init = Some w' \<and> change_region_flag (alarm_region w') = 1 \<and>
    change_region_value (alarm_region w') = 15"
  by (rule switch_noticed) (simp_all add: quiet_env_def world_init_def region_init_def led_init_def)

end
