(* ===== verification/Dispatch.thy ===== *)
theory Dispatch
  imports Interrupt
begin

unbundle bit_operations_syntax

text \<open>
  The dispatch of interrupts (\<open>alt_irq_handler.c\<close>): the handler of the lowest raised line runs, and
  again, until no line is raised. The processor enters it with interrupts disabled and restores its
  status register when it leaves (\<open>alt_exception_entry.S\<close>, \<open>alt_irq_entry.S\<close>).
\<close>

definition alt_irq_pending :: "env \<Rightarrow> world \<Rightarrow> uint" where
  \<comment> \<open>the register \<open>ipending\<close>: the raised lines that are enabled\<close>
  "alt_irq_pending h w = irq_lines h (trace w) AND nios2_ienable (hal w)"

definition call_isr :: "isr \<Rightarrow> env \<Rightarrow> world \<Rightarrow> world option" where
  "call_isr f h w = (case f of
     Timer_isr_interrupt \<Rightarrow> timer_isr_interrupt h w
   | Alt_avalon_timer_sc_irq \<Rightarrow> alt_avalon_timer_sc_irq run_callback LED_TIMER_BASE h w
   | Altera_avalon_jtag_uart_irq \<Rightarrow> altera_avalon_jtag_uart_irq h w)"

definition first_active :: "uint \<Rightarrow> nat option" where
  \<comment> \<open>the inner loop, which does not end when no bit is set\<close>
  "first_active active = find (\<lambda>i. active AND push_bit i 1 \<noteq> 0) [0..<32]"

partial_function (option) irq_loop :: "uint \<Rightarrow> env \<Rightarrow> world \<Rightarrow> world option" where
  "irq_loop active h w = do {
     i \<leftarrow> first_active active;
     handler \<leftarrow> arr_get (alt_irq (hal w)) i;
     f \<leftarrow> handler;
     w \<leftarrow> call_isr f h w;
     if alt_irq_pending h w \<noteq> 0 then irq_loop (alt_irq_pending h w) h w else Some w
   }"

definition alt_irq_handler :: "env \<Rightarrow> world \<Rightarrow> world option" where
  "alt_irq_handler h w = irq_loop (alt_irq_pending h w) h w"

definition interrupt :: "env \<Rightarrow> world \<Rightarrow> world option" where
  \<comment> \<open>what the processor does between two instructions\<close>
  "interrupt h w =
     (if alt_irq_enabled (hal w) \<noteq> 0 \<and> alt_irq_pending h w \<noteq> 0
      then do {
        let (estatus, s) = alt_irq_disable_all (hal w);
        w \<leftarrow> alt_irq_handler h (w\<lparr>hal := s\<rparr>);
        Some (on_hal (alt_irq_enable_all estatus) w) }
      else Some w)"

end
