(* ===== verification/HalFrame.thy ===== *)
theory HalFrame
  imports Dispatch
begin

unbundle bit_operations_syntax

text \<open>
  What the handlers of the run-time layer leave alone. \<open>serves\<close> holds for all of them: outside
  \<open>hal\<close> only the trace changes, and the interrupt controller keeps its handlers; \<open>tends\<close> is what holds
  of the console's handler alone, which leaves the clock and the alarms as they are.
\<close>

definition only_hal :: "world \<Rightarrow> world \<Rightarrow> bool" where
  "only_hal w w' \<longleftrightarrow> (\<exists>evs s. w' = w\<lparr>trace := trace w @ evs, hal := s\<rparr>)"

definition wiring :: "hal \<Rightarrow> isr option list \<times> uint \<times> uint \<times> uint" where
  "wiring s = (alt_irq s, nios2_ienable s, alt_irq_active s, alt_tick_rate s)"

definition clockwork :: "hal \<Rightarrow> uint \<times> alt_alarm list \<times> nat list \<times> uint \<times> uint" where
  "clockwork s = (alt_nticks s, alarms s, alt_alarm_list s, ju_host_inactive (jtag_uart s), ju_timeout (jtag_uart s))"

definition serves :: "world \<Rightarrow> world \<Rightarrow> bool" where
  "serves w w' \<longleftrightarrow> only_hal w w' \<and> wiring (hal w') = wiring (hal w)"

definition tends :: "world \<Rightarrow> world \<Rightarrow> bool" where
  "tends w w' \<longleftrightarrow> serves w w' \<and> clockwork (hal w') = clockwork (hal w)"

lemma only_hal_refl: "only_hal w w"
proof -
  have "w = w\<lparr>trace := trace w @ [], hal := hal w\<rparr>" by simp
  then show ?thesis unfolding only_hal_def by blast
qed

lemma only_hal_trans: "only_hal a b \<Longrightarrow> only_hal b c \<Longrightarrow> only_hal a c"
proof -
  assume "only_hal a b" "only_hal b c"
  then obtain e s f t where "b = a\<lparr>trace := trace a @ e, hal := s\<rparr>" "c = b\<lparr>trace := trace b @ f, hal := t\<rparr>"
    unfolding only_hal_def by blast
  then have "c = a\<lparr>trace := trace a @ (e @ f), hal := t\<rparr>" by simp
  then show ?thesis unfolding only_hal_def by blast
qed

interpretation sv: frame_rel serves
  by unfold_locales (auto simp: serves_def intro: only_hal_refl only_hal_trans)

interpretation po: frame_rel tends
  by unfold_locales (auto simp: tends_def intro: sv.R_refl sv.R_trans)

lemma only_hal_hal: "only_hal w (w\<lparr>hal := s\<rparr>)"
proof -
  have "w\<lparr>hal := s\<rparr> = w\<lparr>trace := trace w @ [], hal := s\<rparr>" by simp
  then show ?thesis unfolding only_hal_def by blast
qed

lemma tends_trace: "only_trace w w' \<Longrightarrow> tends w w'" for w :: world
proof -
  assume "only_trace w w'"
  then obtain evs where w': "w' = w\<lparr>trace := trace w @ evs\<rparr>" unfolding only_trace_def by blast
  have "w' = w\<lparr>trace := trace w @ evs, hal := hal w\<rparr>" unfolding w' by simp
  then have "only_hal w w'" unfolding only_hal_def by blast
  then show ?thesis by (simp add: tends_def serves_def w')
qed

lemma tends_on_hal: "wiring (f (hal w)) = wiring (hal w) \<Longrightarrow> clockwork (f (hal w)) = clockwork (hal w) \<Longrightarrow> tends w (on_hal f w)"
  by (simp add: tends_def serves_def on_hal_def only_hal_hal)

lemma serves_on_hal: "wiring (f (hal w)) = wiring (hal w) \<Longrightarrow> serves w (on_hal f w)"
  by (simp add: serves_def on_hal_def only_hal_hal)

lemma tends_on_uart:
  "(\<And>sp. ju_host_inactive (f sp) = ju_host_inactive sp) \<Longrightarrow> (\<And>sp. ju_timeout (f sp) = ju_timeout sp) \<Longrightarrow> tends w (on_uart f w)"
  unfolding on_uart_def by (rule tends_on_hal) (simp_all add: wiring_def clockwork_def)

lemma serves_on_uart: "serves w (on_uart f w)"
  unfolding on_uart_def by (rule serves_on_hal) (simp add: wiring_def)

lemma keeps_po: "keeps only_trace f \<Longrightarrow> keeps tends f" for f :: "world \<Rightarrow> world option"
  by (erule keeps_mono) (rule tends_trace)

lemma keepsv_po: "keepsv only_trace f \<Longrightarrow> keepsv tends f" for f :: "world \<Rightarrow> ('v \<times> world) option"
  by (erule keepsv_mono) (rule tends_trace)

subsection \<open>The handler of the console\<close>

lemma iowr_world: "keeps tends (\<lambda>w. iowr (d w) r (v w) w)"
  unfolding keeps_def using keepsD [OF keeps_iowr] tends_trace by blast

lemma iord_world: "keepsv tends (\<lambda>w. iord (d w) r h w)"
  unfolding keepsv_def using keepsvD [OF keepsv_iord] tends_trace by blast

lemma uart_transmit_tends: "keepsv tends (uart_transmit n)"
proof (induction n)
  case 0
  then show ?case by (simp add: po.keepsv_done)
next
  case (Suc n)
  have "tends v (on_uart (\<lambda>sp. sp\<lparr>tx_out := buf_next (tx_out sp)\<rparr>) v)" for v
    by (rule tends_on_uart) simp_all
  then have "keepsv tends (\<lambda>w. uart_transmit n (on_uart (\<lambda>sp. sp\<lparr>tx_out := buf_next (tx_out sp)\<rparr>) w))"
    using Suc.IH by (rule po.keepsv_upd)
  then show ?case
    unfolding uart_transmit.simps by (intro po.keepsv_if po.keepsv_done po.keepsv_pure po.keepsv_seq iowr_world)
qed

text \<open>What a relation has to allow for the handler of the console to keep it: the accesses to its two
  registers, the changes of the enabled sources and of the receive buffer, and transmission.\<close>

locale console_frame = frame_rel R for R :: "world \<Rightarrow> world \<Rightarrow> bool" +
  assumes read_reg: "R w (logged w [Iord (ju_base (uart w)) r])"
    and control_reg: "R w (logged w [Iowr (ju_base (uart w)) 1 v])"
    and sources: "R w (on_uart (\<lambda>sp. sp\<lparr>ju_irq_enable := e sp\<rparr>) w)"
    and received: "length b = length (rx_buf (uart w)) \<Longrightarrow>
      R w (on_uart (\<lambda>sp. sp\<lparr>rx_buf := b, rx_in := buf_next (rx_in sp)\<rparr>) w)"
    and transmitted: "keepsv R (uart_transmit n)"
begin

lemma reg_access: "keepsv R (\<lambda>w. iord (ju_base (uart w)) r h w)" "keeps R (\<lambda>w. iowr (ju_base (uart w)) 1 (v w) w)"
  by (simp_all add: keepsv_def keeps_def read_reg control_reg del: One_nat_def)

lemma keeps_mask_irq: "keeps R (mask_irq m h)"
  unfolding mask_irq_def Let_def
  by (rule keeps_upd [where u = "on_uart (\<lambda>sp. sp\<lparr>ju_irq_enable := ju_irq_enable sp AND NOT m\<rparr>)"])
    (intro sources keeps_seq reg_access keeps_bind keeps_done)+

lemma keeps_enable_irq:
  assumes "\<And>w x. R w (w\<lparr>hal := (hal w)\<lparr>nios2_status := x\<rparr>\<rparr>)"
  shows "keeps R (enable_irq m)"
  unfolding keeps_def
proof (intro allI impI)
  fix w w'
  assume run: "enable_irq m w = Some w'"
  define a where "a = w\<lparr>hal := (hal w)\<lparr>nios2_status := nios2_status (hal w) AND NOT NIOS2_STATUS_PIE_MSK\<rparr>\<rparr>"
  define b where "b = on_uart (\<lambda>sp. sp\<lparr>ju_irq_enable := ju_irq_enable sp OR m\<rparr>) a"
  define c where "c = logged b [Iowr (ju_base (uart b)) 1 (ju_irq_enable (uart b))]"
  have "w' = c\<lparr>hal := (hal c)\<lparr>nios2_status := nios2_status (hal w)\<rparr>\<rparr>"
    using run by (simp add: enable_irq_def alt_irq_disable_all_def alt_irq_enable_all_def on_hal_def a_def b_def c_def Let_def del: One_nat_def)
  then have "R c w'" using assms by simp
  moreover have "R w a" unfolding a_def by (rule assms)
  moreover have "R a b" unfolding b_def by (rule sources)
  moreover have "R b c" unfolding c_def by (rule control_reg)
  ultimately show "R w w'" by (blast intro: R_trans)
qed

lemma keeps_receive: "keepsv R (uart_receive d h)"
proof -
  have "(\<lambda>d h w r. R w (snd r)) d h w r" if "uart_receive d h w = Some r" for w r
  proof (rule uart_receive.raw_induct [OF _ that])
    fix again :: "uint \<Rightarrow> env \<Rightarrow> world \<Rightarrow> (uint \<times> world) option" and d h w r
    assume IH: "\<And>d h w r. again d h w = Some r \<Longrightarrow> R w (snd r)"
      and run: "(let next = buf_next (rx_in (uart w)) in
       if next = rx_out (uart w) then Some (d, w)
       else do {
         (data, w) \<leftarrow> iord (ju_base (uart w)) 0 h w;
         if data AND RVALID_MSK = 0 then Some (data, w)
         else do {
           b \<leftarrow> arr_set (rx_buf (uart w)) (unat (rx_in (uart w))) (ucast (data AND DATA_MSK));
           again data h (on_uart (\<lambda>sp. sp\<lparr>rx_buf := b, rx_in := buf_next (rx_in sp)\<rparr>) w) } }) = Some r"
    obtain a v where rd: "iord (ju_base (uart w)) 0 h w = Some (a, v)" by (simp add: iord_def)
    have wv: "R w v" by (rule keepsvD [OF reg_access(1)]) (rule rd)
    have "r = (d, w) \<or> r = (a, v) \<or> (\<exists>b. length b = length (rx_buf (uart v)) \<and>
      again a h (on_uart (\<lambda>sp. sp\<lparr>rx_buf := b, rx_in := buf_next (rx_in sp)\<rparr>) v) = Some r)"
      using run unfolding Let_def rd
      by (simp only: bind.bind_lunit case_prod_conv) (auto simp: arr_set_eq_Some split: if_splits bind_splits)
    then consider "r = (d, w)" | "r = (a, v)"
      | b where "length b = length (rx_buf (uart v))"
        "again a h (on_uart (\<lambda>sp. sp\<lparr>rx_buf := b, rx_in := buf_next (rx_in sp)\<rparr>) v) = Some r" by blast
    then show "R w (snd r)"
      using wv R_refl R_trans [OF wv R_trans [OF received IH]] by cases auto
  qed
  then show ?thesis by (fastforce simp: keepsv_def)
qed

lemma keeps_parts: "keeps R (uart_read_irq h)" "keeps R (uart_write_irq c h)"
  unfolding uart_read_irq_def uart_write_irq_def
  by (intro keeps_bind keeps_if keeps_done keeps_receive transmitted keeps_mask_irq)+

lemma keeps_uart_irq: "keeps R (altera_avalon_jtag_uart_irq h)"
proof -
  have "(\<lambda>h w w'. R w w') h w w'" if "altera_avalon_jtag_uart_irq h w = Some w'" for w w'
  proof (rule altera_avalon_jtag_uart_irq.raw_induct [OF _ that])
    fix again :: "env \<Rightarrow> world \<Rightarrow> world option" and h w w'
    assume "\<And>h w w'. again h w = Some w' \<Longrightarrow> R w w'"
    then have IH: "keeps R (again h)" by (simp add: keeps_def)
    have "keeps R (\<lambda>w. do {
       (control, w) \<leftarrow> iord (ju_base (uart w)) 1 h w;
       if control AND (RI_MSK OR WI_MSK) = 0 then Some w
       else do {
         w \<leftarrow> (if control AND RI_MSK \<noteq> 0 then uart_read_irq h w else Some w);
         w \<leftarrow> (if control AND WI_MSK \<noteq> 0 then uart_write_irq control h w else Some w);
         again h w } })"
      by (intro keeps_bind keeps_if keeps_seq keeps_done reg_access keeps_parts IH)
    moreover assume "do {
       (control, w) \<leftarrow> iord (ju_base (uart w)) 1 h w;
       if control AND (RI_MSK OR WI_MSK) = 0 then Some w
       else do {
         w \<leftarrow> (if control AND RI_MSK \<noteq> 0 then uart_read_irq h w else Some w);
         w \<leftarrow> (if control AND WI_MSK \<noteq> 0 then uart_write_irq control h w else Some w);
         again h w } } = Some w'"
    ultimately show "R w w'" by (rule keepsD)
  qed
  then show ?thesis by (simp add: keeps_def)
qed

end

interpretation tending: console_frame tends
  by unfold_locales (simp_all add: tends_trace tends_on_uart uart_transmit_tends)

lemmas uart_irq_tends = tending.keeps_uart_irq

subsection \<open>The handler of the clock\<close>

text \<open>What a relation has to allow for the handler of the clock to keep it.\<close>

locale clock_frame = frame_rel R for R :: "world \<Rightarrow> world \<Rightarrow> bool" +
  assumes traced: "only_trace w w' \<Longrightarrow> R w w'"
    and counted: "R w (on_hal (\<lambda>s. s\<lparr>alt_nticks := n s\<rparr>) w)"
    and rescheduled: "R w (on_hal (\<lambda>s. s\<lparr>alarms := f s\<rparr>) w)"
    and unlinked: "R w (on_hal (\<lambda>s. s\<lparr>alt_alarm_list := l s\<rparr>) w)"
    and enabled: "R w (on_hal (\<lambda>s. s\<lparr>nios2_status := x s\<rparr>) w)"
    and called: "keepsv R (run_callback c h)"
begin

lemma stopped: "R w (on_hal (alt_alarm_stop a) w)"
  using unlinked [of w "\<lambda>s. remove1 a (alt_alarm_list s)"] by (simp add: on_hal_def alarm_stop_result)

lemma keeps_fire: "keeps R (fire run_callback a c h)"
  unfolding fire_def using stopped rescheduled
  by (intro keeps_bind keeps_if keeps_pure called) (simp_all add: keeps_def)

lemma run_alarms_R: "run_alarms run_callback as h w = Some w' \<Longrightarrow> R w w'"
proof (induction as arbitrary: w)
  case Nil
  then show ?case by (simp add: R_refl)
next
  case (Cons a as)
  obtain a' v where v: "R (on_hal (\<lambda>s. s\<lparr>alarms := (alarms s)[a := a']\<rparr>) w) v"
    and rest: "run_alarms run_callback as h v = Some w'"
    using Cons.prems R_refl by (auto simp: Let_def split: if_splits bind_splits dest!: keepsD [OF keeps_fire])
  show ?case
    by (rule R_trans [OF rescheduled R_trans [OF v Cons.IH [OF rest]]])
qed

lemma keeps_tick: "keeps R (alt_tick run_callback h)"
  unfolding keeps_def alt_tick_def Let_def
  by (intro allI impI, rule R_trans [OF counted [where n = "\<lambda>s. alt_nticks s + 1"]], rule run_alarms_R)

lemma keeps_clock_irq: "keeps R (alt_avalon_timer_sc_irq run_callback b h)"
  unfolding keeps_def
proof (intro allI impI)
  fix w w'
  assume "alt_avalon_timer_sc_irq run_callback b h w = Some w'"
  then obtain x u v y where x: "iowr b 0 0 w = Some x" and u: "iord b 1 h x = Some (y, u)"
    and v: "alt_tick run_callback h (on_hal (\<lambda>s. s\<lparr>nios2_status := nios2_status s AND NOT NIOS2_STATUS_PIE_MSK\<rparr>) u) = Some v"
    and w': "w' = on_hal (\<lambda>s. s\<lparr>nios2_status := nios2_status (hal u)\<rparr>) v"
    by (auto simp: alt_avalon_timer_sc_irq_def alt_irq_disable_all_def alt_irq_enable_all_def on_hal_def
        simp del: iord_logged iowr_logged split: bind_splits)
  have "only_trace w u" using tr.R_trans keepsD [OF keeps_iowr x] keepsvD [OF keepsv_iord u] by blast
  then have "R w u" by (rule traced)
  moreover have "R u v" by (rule R_trans [OF enabled keepsD [OF keeps_tick v]])
  moreover have "R v w'" unfolding w' by (rule enabled)
  ultimately show "R w w'" by (blast intro: R_trans)
qed

end

lemma serves_trace: "only_trace w w' \<Longrightarrow> serves w w'" for w :: world
  using tends_trace by (simp add: tends_def)

lemma timeout_serves: "keepsv serves (altera_avalon_jtag_uart_timeout h)"
  by (auto simp: keepsv_def altera_avalon_jtag_uart_timeout_def simp del: iord_logged iowr_logged split: bind_splits if_splits
      dest!: keepsvD [OF keepsv_iord] keepsD [OF keeps_iowr] serves_trace intro: sv.R_trans sv.R_trans [OF _ serves_on_uart])

interpretation serving: clock_frame serves
proof
  show "keepsv serves (run_callback c h)" for c h
    unfolding run_callback_def by (cases c) (simp add: timeout_serves)
qed (simp_all add: serves_trace serves_on_hal wiring_def)

lemmas clock_irq_serves = serving.keeps_clock_irq

end
