(* ===== verification/BootSpec.thy ===== *)
theory BootSpec
  imports HalFrame
begin

unbundle bit_operations_syntax

text \<open>
  What the start-up of the board support package leaves behind: the clock and the console have their
  handlers, the three standard streams are the console, and every interrupt that can come is served.
  \<open>dispatched\<close> is what a property has to satisfy to hold after the dispatcher when every handler
  keeps it.
\<close>

subsection \<open>Standard streams\<close>

definition closed_fd :: alt_fd where
  "closed_fd = \<lparr>fd_dev = None, fd_priv = 0, fd_flags = 0\<rparr>"

definition console_fd :: "uint \<Rightarrow> alt_fd" where
  "console_fd flags = \<lparr>fd_dev = Some Jtag_uart_dev, fd_priv = 0, fd_flags = flags AND NOT ALT_FD_FLAGS_MASK OR ALT_FD_DEV\<rparr>"

lemma alt_find_console: "alt_find_dev alt_dev_name ''/dev/jtag_uart'' [Jtag_uart_dev, Alt_dev_null] = Some Jtag_uart_dev"
  by code_simp

lemma console_open:
  assumes "alt_dev_list s = [Jtag_uart_dev, Alt_dev_null]" and "alt_fd_list s = [a, b, c] @ closed_fd # fds"
    and "fd_dev a \<noteq> None" "fd_dev b \<noteq> None" "fd_dev c \<noteq> None"
    and "\<forall>f\<in>{a, b, c}. fd_flags f AND ALT_FD_EXCL = 0" and "alt_max_fd s \<le> 3"
  shows "ALT_OPEN ''/dev/jtag_uart'' flags s = Some (3, s\<lparr>alt_fd_list := [a, b, c, console_fd flags] @ fds, alt_max_fd := 3\<rparr>)"
proof -
  have get: "alt_get_fd Jtag_uart_dev s = (3, s\<lparr>alt_fd_list := [a, b, c, closed_fd\<lparr>fd_dev := Some Jtag_uart_dev\<rparr>] @ fds, alt_max_fd := 3\<rparr>)"
    using assms by (simp add: alt_get_fd_def closed_fd_def)
  have four: "{0..<4} = {0, 1, 2, 3 :: nat}" by auto
  show ?thesis
    using assms(6)
    unfolding ALT_OPEN_def assms(1) alt_find_console Let_def
    by (simp add: get set_fd_def alt_file_locked_def get_fd_def arr_get_def closed_fd_def console_fd_def slice_def Let_def four fail_def)
qed

lemma console_redirect:
  assumes "alt_dev_list s = [Jtag_uart_dev, Alt_dev_null]" and "alt_fd_list s = [a, b, c] @ closed_fd # fds"
    and "fd_dev a \<noteq> None" "fd_dev b \<noteq> None" "fd_dev c \<noteq> None"
    and "\<forall>f\<in>{a, b, c}. fd_flags f AND ALT_FD_EXCL = 0" and "alt_max_fd s \<le> 3" and "i < 3"
  shows "alt_open_fd (int i) ''/dev/jtag_uart'' flags s =
    Some (s\<lparr>alt_fd_list := ([a, b, c][i := console_fd flags]) @ closed_fd # fds, alt_max_fd := 3\<rparr>)"
proof -
  have "i = 0 \<or> i = 1 \<or> i = 2" using assms(8) by auto
  then show ?thesis
    unfolding alt_open_fd_def console_open [OF assms(1-7)]
    by (elim disjE) (simp_all add: get_fd_def arr_get_def set_fd_def alt_release_fd_def console_fd_def closed_fd_def)
qed

definition standard_fds :: "alt_fd list" where
  "standard_fds = [console_fd O_RDONLY, console_fd O_WRONLY, console_fd O_WRONLY] @ replicate 29 closed_fd"

lemma console_fd_simps: "fd_dev (console_fd fl) \<noteq> None" "fd_flags (console_fd O_RDONLY) AND ALT_FD_EXCL = 0"
  "fd_flags (console_fd O_WRONLY) AND ALT_FD_EXCL = 0"
  by (simp_all add: console_fd_def O_RDONLY_def O_WRONLY_def ALT_FD_EXCL_def ALT_FD_DEV_def ALT_FD_FLAGS_MASK_def)

lemma redirect_result:
  assumes "alt_dev_list s = [Jtag_uart_dev, Alt_dev_null]" and "alt_fd_list s = alt_fd_list hal_init" and "alt_max_fd s = -1"
  shows "alt_io_redirect ''/dev/jtag_uart'' ''/dev/jtag_uart'' ''/dev/jtag_uart'' s =
    Some (s\<lparr>alt_fd_list := standard_fds, alt_max_fd := 3\<rparr>)"
proof -
  define n where "n = \<lparr>fd_dev = Some Alt_dev_null, fd_priv = 0, fd_flags = 0\<rparr>"
  have fds: "alt_fd_list s = [n, n, n] @ closed_fd # replicate 28 closed_fd"
    by (simp add: assms(2) hal_init_def n_def closed_fd_def ALT_MAX_FD_def numeral_eq_Suc)
  have n: "fd_dev n \<noteq> None" "fd_flags n AND ALT_FD_EXCL = 0" by (simp_all add: n_def)
  note fd = console_fd_simps n assms(1,3) fds
  define e where "e = closed_fd # replicate 28 closed_fd"
  have 1: "alt_open_fd 1 ''/dev/jtag_uart'' O_WRONLY s = Some (s\<lparr>alt_fd_list := [n, console_fd O_WRONLY, n] @ e, alt_max_fd := 3\<rparr>)"
    using console_redirect [of s n n n "replicate 28 closed_fd" 1 O_WRONLY] by (simp add: fd e_def del: replicate.simps)
  define s1 where "s1 = s\<lparr>alt_fd_list := [n, console_fd O_WRONLY, n] @ e, alt_max_fd := 3\<rparr>"
  have 2: "alt_open_fd 0 ''/dev/jtag_uart'' O_RDONLY s1 = Some (s1\<lparr>alt_fd_list := [console_fd O_RDONLY, console_fd O_WRONLY, n] @ e\<rparr>)"
    using console_redirect [of s1 n "console_fd O_WRONLY" n "replicate 28 closed_fd" 0 O_RDONLY]
    by (simp add: fd e_def s1_def)
  define s2 where "s2 = s1\<lparr>alt_fd_list := [console_fd O_RDONLY, console_fd O_WRONLY, n] @ e\<rparr>"
  have 3: "alt_open_fd 2 ''/dev/jtag_uart'' O_WRONLY s2 = Some (s2\<lparr>alt_fd_list := [console_fd O_RDONLY, console_fd O_WRONLY, console_fd O_WRONLY] @ e\<rparr>)"
    using console_redirect [of s2 "console_fd O_RDONLY" "console_fd O_WRONLY" n "replicate 28 closed_fd" 2 O_WRONLY]
    by (simp add: fd e_def s1_def s2_def)
  have "e = replicate 29 closed_fd" by (simp add: e_def numeral_eq_Suc)
  then show ?thesis
    unfolding alt_io_redirect_def 1 standard_fds_def using 2 3 by (simp add: s1_def s2_def)
qed

subsection \<open>Devices\<close>

lemma clock_frequency: "ALTERA_AVALON_TIMER_FREQ LED_TIMER_FREQ LED_TIMER_PERIOD LED_TIMER_PERIOD_UNITS = Some 1000"
  by (simp add: ALTERA_AVALON_TIMER_FREQ_def LED_TIMER_PERIOD_def LED_TIMER_PERIOD_UNITS_def c_udiv_def)

lemma clock_started:
  assumes "alt_tick_rate (hal w) = 0" and "length (alt_irq (hal w)) = 32"
  shows "ALTERA_AVALON_TIMER_INIT LED_TIMER_BASE LED_TIMER_IRQ LED_TIMER_FREQ LED_TIMER_PERIOD LED_TIMER_PERIOD_UNITS w =
    Some ((logged w [Iowr LED_TIMER_BASE 1 7])\<lparr>hal := (hal w)\<lparr>alt_tick_rate := 1000,
      alt_irq := (alt_irq (hal w))[2 := Some Alt_avalon_timer_sc_irq],
      alt_irq_active := alt_irq_active (hal w) OR 4, nios2_ienable := alt_irq_active (hal w) OR 4\<rparr>\<rparr>)"
  using assms
  by (simp add: ALTERA_AVALON_TIMER_INIT_def ALT_SYS_CLK_BASE_def clock_frequency alt_avalon_timer_sc_init_def
      alt_sysclk_init_def hal_do_def on_hal_def LED_TIMER_IRQ_def isr_register_result logged_def del: One_nat_def)

lemma console_started:
  assumes "alt_tick_rate (hal w) \<noteq> 0" and "length (alt_irq (hal w)) = 32" and "alarms (hal w) = [a]" and "alt_alarm_list (hal w) = []"
  shows "ALTERA_AVALON_JTAG_UART_DEV_INIT w =
    Some ((logged w [Iowr (ju_base (uart w)) 1 1])\<lparr>hal := (hal w)\<lparr>jtag_uart := (uart w)\<lparr>ju_irq_enable := 1, ju_host_inactive := 0\<rparr>,
      alt_irq := (alt_irq (hal w))[0 := Some Altera_avalon_jtag_uart_irq],
      alt_irq_active := alt_irq_active (hal w) OR 1, nios2_ienable := alt_irq_active (hal w) OR 1,
      alarms := [\<lparr>al_time = alt_tick_rate (hal w) + alt_nticks (hal w) + 1,
        al_rollover = (if alt_tick_rate (hal w) + alt_nticks (hal w) + 1 < alt_nticks (hal w) then 1 else 0),
        al_callback = Altera_avalon_jtag_uart_timeout\<rparr>],
      alt_alarm_list := [0], alt_dev_list := Jtag_uart_dev # alt_dev_list (hal w)\<rparr>\<rparr>)"
  using assms
  by (simp add: ALTERA_AVALON_JTAG_UART_DEV_INIT_def altera_avalon_jtag_uart_init_def hal_do_def on_hal_def on_uart_def
      JTAG_UART_IRQ_def RE_MSK_def isr_register_result alarm_start_result JTAG_UART_ALARM_def alt_ticks_per_second_def
      alt_dev_reg_def alt_dev_llist_insert_def logged_def del: One_nat_def)

definition wired :: "isr \<Rightarrow> hal \<Rightarrow> bool" where
  \<comment> \<open>the two lines that are enabled, and their handlers\<close>
  "wired f s \<longleftrightarrow> alt_irq s = (replicate 32 None)[0 := Some Altera_avalon_jtag_uart_irq, 2 := Some f] \<and>
     nios2_ienable s = 5 \<and> alt_irq_active s = 5"

definition hal_booted :: hal where
  "hal_booted = hal_init\<lparr>nios2_status := 1, nios2_ienable := 5, alt_irq_active := 5,
     alt_irq := (replicate 32 None)[0 := Some Altera_avalon_jtag_uart_irq, 2 := Some Alt_avalon_timer_sc_irq],
     alt_tick_rate := 1000,
     alarms := [\<lparr>al_time = 1001, al_rollover = 0, al_callback = Altera_avalon_jtag_uart_timeout\<rparr>], alt_alarm_list := [0],
     jtag_uart := jtag_uart_init_state\<lparr>ju_irq_enable := 1\<rparr>, alt_dev_list := [Jtag_uart_dev, Alt_dev_null],
     alt_fd_list := standard_fds, alt_max_fd := 3\<rparr>"

lemma flash_init_frame:
  assumes "alt_epcs_flash_init f h w = Some (r, v)"
  shows "\<exists>u ds. only_net w u \<and> v = u\<lparr>alt_flash_dev_list := ds\<rparr>"
proof -
  obtain f' r' u where "alt_epcs_flash_query f h w = Some ((r', f'), u)" and v: "v = u \<or> v = u\<lparr>alt_flash_dev_list := f' # alt_flash_dev_list u\<rparr>"
    using assms by (auto simp: alt_epcs_flash_init_def alt_flash_device_register_def alt_dev_llist_insert_def
        split: bind_splits if_splits)
  then have "only_net w u" using keepsvD [OF keepsv_flash_query] only_trace_net by blast
  moreover have "u = u\<lparr>alt_flash_dev_list := alt_flash_dev_list u\<rparr>" by simp
  ultimately show ?thesis using v by metis
qed

lemma watchdog_no_clock: "ALTERA_AVALON_TIMER_INIT WATCHDOG_BASE i f p u w = Some w"
  by (simp add: ALTERA_AVALON_TIMER_INIT_def ALT_SYS_CLK_BASE_def)

definition clock_world :: "world \<Rightarrow> world" where
  \<comment> \<open>after the clock has been started\<close>
  "clock_world w = (logged w [Iowr LED_TIMER_BASE 1 7])\<lparr>hal := hal_init\<lparr>nios2_status := 1, alt_tick_rate := 1000,
     alt_irq := (replicate 32 None)[2 := Some Alt_avalon_timer_sc_irq], alt_irq_active := 4, nios2_ienable := 4\<rparr>\<rparr>"

lemma console_boot:
  assumes "hal v = hal (clock_world w)"
  shows "ALTERA_AVALON_JTAG_UART_DEV_INIT v = Some ((logged v [Iowr JTAG_UART_BASE 1 1])\<lparr>hal :=
    hal_booted\<lparr>alt_fd_list := alt_fd_list hal_init, alt_max_fd := -1\<rparr>\<rparr>)"
proof -
  have "hal v = hal_init\<lparr>nios2_status := 1, alt_tick_rate := 1000,
     alt_irq := (replicate 32 None)[2 := Some Alt_avalon_timer_sc_irq], alt_irq_active := 4, nios2_ienable := 4\<rparr>"
    using assms by (simp add: clock_world_def)
  moreover from this have "alarms (hal v) = [\<lparr>al_time = 0, al_rollover = 0, al_callback = Altera_avalon_jtag_uart_timeout\<rparr>]"
    by (simp add: hal_init_def)
  ultimately show ?thesis
    by (subst console_started)
      (simp_all add: hal_booted_def hal_init_def jtag_uart_init_state_def list_update_swap ALT_NIRQ_def del: One_nat_def)
qed

lemma boot_result:
  assumes "hal w = hal_init"
  shows "alt_main h w = do {
    (_, w) \<leftarrow> alt_epcs_flash_init epcs_flash h (clock_world w);
    Some ((logged w [Iowr JTAG_UART_BASE 1 1])\<lparr>hal := hal_booted\<rparr>) }"
proof -
  have "on_hal alt_irq_init w = w\<lparr>hal := hal_init\<lparr>nios2_status := 1\<rparr>\<rparr>"
    using assms by (simp add: on_hal_def alt_irq_init_def alt_irq_cpu_enable_interrupts_def altera_nios2_gen2_irq_init_def
        NIOS2_STATUS_PIE_MSK_def hal_init_def)
  then have clock: "ALTERA_AVALON_TIMER_INIT LED_TIMER_BASE LED_TIMER_IRQ LED_TIMER_FREQ LED_TIMER_PERIOD LED_TIMER_PERIOD_UNITS
     (on_hal alt_irq_init w) = Some (clock_world w)"
    by (subst clock_started) (simp_all add: hal_init_def clock_world_def logged_def ALT_NIRQ_def)
  show ?thesis
  proof (cases "alt_epcs_flash_init epcs_flash h (clock_world w)")
    case None
    then show ?thesis by (simp add: alt_main_def alt_sys_init_def clock watchdog_no_clock)
  next
    case (Some rv)
    obtain r v where rv: "rv = (r, v)" by (cases rv)
    have "hal v = hal (clock_world w)" using flash_init_frame [OF Some [unfolded rv]] by (auto simp: only_net_def)
    then show ?thesis
      using Some by (simp add: rv alt_main_def alt_sys_init_def clock watchdog_no_clock console_boot redirect_result
          hal_booted_def del: One_nat_def)
  qed
qed

subsection \<open>The dispatcher\<close>

lemma first_active_bit: "first_active a = Some i \<Longrightarrow> bit a i"
  using and_exp_eq_0_iff_not_bit [of a i] by (auto simp: first_active_def find_Some_iff)

lemma first_active_some: "a \<noteq> 0 \<Longrightarrow> \<exists>i. first_active a = Some i \<and> bit a i"
proof -
  assume "a \<noteq> 0"
  then have "\<exists>n < LENGTH(32). bit a n" using bit_word_eqI [of a 0] by auto
  then obtain n where n: "n < 32" "bit a n" by auto
  have bit: "a AND 2 ^ i = 0 \<longleftrightarrow> \<not> bit a i" for i
    by (rule and_exp_eq_0_iff_not_bit)
  show ?thesis
  proof (cases "first_active a")
    case None
    then show ?thesis using n by (simp add: first_active_def bit find_None_iff)
  next
    case (Some i)
    then show ?thesis by (auto simp: first_active_def bit find_Some_iff)
  qed
qed

lemma wired_lines: "wired f s \<Longrightarrow> bit (x AND nios2_ienable s) i \<Longrightarrow> i = 0 \<or> i = 2"
  by (auto simp: wired_def bit_and_iff bit_numeral_rec bit_1_iff split: nat.splits)

lemma wired_handlers: "wired f s \<Longrightarrow> Some g \<in> set (alt_irq s) \<Longrightarrow> g = f \<or> g = Altera_avalon_jtag_uart_irq"
  by (auto simp: wired_def numeral_eq_Suc)

lemma wired_dispatch:
  assumes "wired f (hal w)" and "alt_irq_pending h w \<noteq> 0"
  shows "\<exists>i g. first_active (alt_irq_pending h w) = Some i \<and> arr_get (alt_irq (hal w)) i = Some (Some g) \<and>
    g \<in> {f, Altera_avalon_jtag_uart_irq}"
proof -
  obtain i where i: "first_active (alt_irq_pending h w) = Some i" "bit (alt_irq_pending h w) i"
    using first_active_some [OF assms(2)] by blast
  then have "i = 0 \<or> i = 2" using wired_lines [OF assms(1)] by (simp add: alt_irq_pending_def)
  then show ?thesis using i(1) assms(1) by (auto simp: wired_def arr_get_def)
qed

locale dispatched =
  fixes inv :: "world \<Rightarrow> bool" and h :: env
  assumes served: "inv w \<Longrightarrow> arr_get (alt_irq (hal w)) i = Some (Some f) \<Longrightarrow> bit (alt_irq_pending h w) i \<Longrightarrow>
      call_isr f h w = Some w' \<Longrightarrow> inv w'"
    and status: "inv w \<Longrightarrow> inv (w\<lparr>hal := (hal w)\<lparr>nios2_status := s\<rparr>\<rparr>)"
begin

lemma irq_loop_keeps:
  assumes "irq_loop (alt_irq_pending h w) h w = Some w'" and "inv w"
  shows "inv w'"
proof -
  have "a = alt_irq_pending h w \<longrightarrow> h = h \<longrightarrow> inv w \<longrightarrow> inv w'" if "irq_loop a h w = Some w'" for a
  proof (rule irq_loop.raw_induct [where P = "\<lambda>a k w w'. a = alt_irq_pending k w \<longrightarrow> k = h \<longrightarrow> inv w \<longrightarrow> inv w'", OF _ that])
    fix again :: "uint \<Rightarrow> env \<Rightarrow> world \<Rightarrow> world option" and a k w w'
    assume IH: "\<And>a k w w'. again a k w = Some w' \<Longrightarrow> a = alt_irq_pending k w \<longrightarrow> k = h \<longrightarrow> inv w \<longrightarrow> inv w'"
      and "do { i \<leftarrow> first_active a; handler \<leftarrow> arr_get (alt_irq (hal w)) i; f \<leftarrow> handler; w \<leftarrow> call_isr f k w;
        if alt_irq_pending k w \<noteq> 0 then again (alt_irq_pending k w) k w else Some w } = Some w'"
    then obtain i f v where f: "first_active a = Some i" "arr_get (alt_irq (hal w)) i = Some (Some f)" and v: "call_isr f k w = Some v"
      and rest: "v = w' \<or> again (alt_irq_pending k v) k v = Some w'"
      by (auto split: bind_splits if_splits)
    show "a = alt_irq_pending k w \<longrightarrow> k = h \<longrightarrow> inv w \<longrightarrow> inv w'"
    proof (intro impI)
      assume a: "a = alt_irq_pending k w" and k: "k = h" and "inv w"
      then have "inv v" using served [OF _ f(2)] first_active_bit [OF f(1)] v by simp
      with rest IH k show "inv w'" by blast
    qed
  qed
  with assms show ?thesis by blast
qed

lemma interrupt_keeps:
  assumes "interrupt h w = Some w'" and "inv w"
  shows "inv w'"
proof (cases "alt_irq_enabled (hal w) \<noteq> 0 \<and> alt_irq_pending h w \<noteq> 0")
  case True
  define u where "u = w\<lparr>hal := (hal w)\<lparr>nios2_status := nios2_status (hal w) AND NOT NIOS2_STATUS_PIE_MSK\<rparr>\<rparr>"
  have "inv u" unfolding u_def by (rule status [OF assms(2)])
  moreover have "do { v \<leftarrow> alt_irq_handler h u; Some (on_hal (alt_irq_enable_all (nios2_status (hal w))) v) } = Some w'"
    using assms(1) True by (simp only: interrupt_def alt_irq_disable_all_def Let_def u_def simp_thms if_True case_prod_conv)
  then obtain v where "alt_irq_handler h u = Some v" and w': "w' = on_hal (alt_irq_enable_all (nios2_status (hal w))) v"
    by (auto split: bind_splits)
  ultimately have "inv v" unfolding alt_irq_handler_def by (blast intro: irq_loop_keeps)
  then show ?thesis using status by (simp add: w' on_hal_def alt_irq_enable_all_def)
next
  case False
  then show ?thesis using assms by (auto simp: interrupt_def)
qed

end

end
