(* ===== verification/UartSpec.thy ===== *)
theory UartSpec
  imports HalFrame
begin

unbundle bit_operations_syntax

text \<open>
  What the console driver promises. Its two ring buffers are queues of at most 2047 bytes: the callers
  put bytes at the end of the transmit queue and take them from the front of the receive queue, the
  interrupt handler does the converse. \<open>ring\<close> is the contents of a ring between two indices; the
  routines of the driver are shown to be operations on these lists, and what the handler writes to
  the device to be what the callers have put in, in order.
\<close>

subsection \<open>Rings\<close>

definition ring :: "'a list \<Rightarrow> nat \<Rightarrow> nat \<Rightarrow> 'a list" where
  "ring buf a b = (if a \<le> b then take (b - a) (drop a buf) else drop a buf @ take b buf)"

definition ring_len :: "nat \<Rightarrow> nat \<Rightarrow> nat \<Rightarrow> nat" where
  "ring_len N a b = (if a \<le> b then b - a else N - a + b)"

lemma ring_length: "a < length buf \<Longrightarrow> b < length buf \<Longrightarrow> length (ring buf a b) = ring_len (length buf) a b"
  by (simp add: ring_def ring_len_def)

lemma ring_len_bound: "a < N \<Longrightarrow> b < N \<Longrightarrow> ring_len N a b < N"
  by (auto simp: ring_len_def)

lemma ring_same [simp]: "ring buf a a = []"
  by (simp add: ring_def)

lemma ring_take:
  assumes "a < length buf" and "b < length buf" and "n \<le> (if a \<le> b then b - a else length buf - a)"
  shows "ring buf a b = take n (drop a buf) @ ring buf ((a + n) mod length buf) b"
proof (cases "a \<le> b")
  case True
  obtain k where b: "b = a + n + k" using True assms(3) that [of "b - a - n"] by auto
  then have "(a + n) mod length buf = a + n" using assms(2) by simp
  moreover have "take (n + k) (drop a buf) = take n (drop a buf) @ take k (drop (a + n) buf)"
    using take_add [of n k "drop a buf"] by (simp add: add.commute [of n a])
  ultimately show ?thesis by (simp add: ring_def b add.assoc)
next
  case False
  then have n: "n \<le> length buf - a" using assms(3) by simp
  have split: "drop a buf = take n (drop a buf) @ drop (a + n) buf"
    using append_take_drop_id [of n "drop a buf"] by (simp add: add.commute [of n a])
  show ?thesis
  proof (cases "a + n = length buf")
    case True
    then show ?thesis using False split by (simp add: ring_def)
  next
    case less: False
    then have "(a + n) mod length buf = a + n" using n assms(1) by simp
    then show ?thesis using False split by (simp add: ring_def)
  qed
qed

lemma ring_put:
  assumes "a < length buf" and "b < length buf"
    and "length xs \<le> (if b < a then a - 1 - b else if a > 0 then length buf - b else length buf - 1 - b)"
    and "blit buf b xs = Some buf'"
  shows "ring buf' a ((b + length xs) mod length buf) = ring buf a b @ xs"
proof -
  have buf': "buf' = take b buf @ xs @ drop (b + length xs) buf" and fit: "b + length xs \<le> length buf"
    using assms(4) by (simp_all add: blit_eq_Some)
  show ?thesis
  proof (cases "b < a")
    case True
    then have "b + length xs < a" "(b + length xs) mod length buf = b + length xs" using assms by auto
    then show ?thesis using True by (simp add: ring_def buf' assms)
  next
    case False
    then have ab: "a \<le> b" by simp
    show ?thesis
    proof (cases "b + length xs = length buf")
      case True
      then have "a > 0" using assms(2,3) False by (auto split: if_splits)
      then show ?thesis using True ab by (simp add: ring_def buf' drop_take)
    next
      case less: False
      then have "(b + length xs) mod length buf = b + length xs" using fit by simp
      then show ?thesis using ab fit assms(2) by (simp add: ring_def buf' drop_take)
    qed
  qed
qed

lemma ring_set:
  assumes "a < length buf" and "b < length buf" and "(b + 1) mod length buf \<noteq> a"
  shows "ring (buf[b := x]) a ((b + 1) mod length buf) = ring buf a b @ [x]"
proof -
  have "blit buf b [x] = Some (buf[b := x])" using assms(2) by (simp add: blit_def upd_conv_take_nth_drop)
  moreover have "1 \<le> (if b < a then a - 1 - b else if a > 0 then length buf - b else length buf - 1 - b)"
    using assms by (auto simp: mod_Suc split: if_splits)
  ultimately show ?thesis using ring_put [of a buf b "[x]"] assms by simp
qed

subsection \<open>The two queues\<close>

definition uart_ok :: "altera_avalon_jtag_uart_state \<Rightarrow> bool" where
  "uart_ok sp \<longleftrightarrow> length (rx_buf sp) = 2048 \<and> length (tx_buf sp) = 2048 \<and>
     rx_in sp < 2048 \<and> rx_out sp < 2048 \<and> tx_in sp < 2048 \<and> tx_out sp < 2048"

definition rx_queue :: "altera_avalon_jtag_uart_state \<Rightarrow> byte list" where
  "rx_queue sp = ring (rx_buf sp) (unat (rx_out sp)) (unat (rx_in sp))"

definition tx_queue :: "altera_avalon_jtag_uart_state \<Rightarrow> byte list" where
  "tx_queue sp = ring (tx_buf sp) (unat (tx_out sp)) (unat (tx_in sp))"

lemma uart_ok_unat: "uart_ok sp \<Longrightarrow> unat (rx_in sp) < 2048 \<and> unat (rx_out sp) < 2048 \<and>
    unat (tx_in sp) < 2048 \<and> unat (tx_out sp) < 2048"
  by (simp add: uart_ok_def word_less_nat_alt)

lemma queue_bound: "uart_ok sp \<Longrightarrow> length (rx_queue sp) < 2048 \<and> length (tx_queue sp) < 2048"
  using uart_ok_unat ring_len_bound by (fastforce simp: rx_queue_def tx_queue_def ring_length uart_ok_def)

lemma idx_step:
  fixes i :: uint
  assumes "i < 2048" and "n \<le> 2048"
  shows "unat ((i + word_of_nat n) mod 2048) = (unat i + n) mod 2048" and "(i + word_of_nat n) mod 2048 < 2048"
proof -
  have i: "unat i < 2048" using assms(1) by (simp add: word_less_nat_alt)
  then have "unat (i + word_of_nat n) = unat i + n" using unat_plus_nat [of n i] assms(2) by simp
  then show "unat ((i + word_of_nat n) mod 2048) = (unat i + n) mod 2048" by (simp add: unat_mod)
  show "(i + word_of_nat n) mod 2048 < 2048" by (rule word_mod_less_divisor) simp
qed

lemma buf_next_step:
  assumes "i < 2048"
  shows "unat (buf_next i) = (unat i + 1) mod 2048" and "buf_next i < 2048"
  using idx_step [OF assms, of 1] by (simp_all add: buf_next_def)

lemma uart_avail_eq: "uart_ok sp \<Longrightarrow>
    uart_avail sp = (if unat (rx_out sp) \<le> unat (rx_in sp) then unat (rx_in sp) - unat (rx_out sp) else 2048 - unat (rx_out sp))"
  by (auto simp: uart_avail_def uart_ok_def word_le_nat_alt unat_sub order_less_imp_le word_less_nat_alt)

lemma uart_space_eq:
  assumes "uart_ok sp"
  shows "uart_space sp = (if unat (tx_in sp) < unat (tx_out sp) then unat (tx_out sp) - 1 - unat (tx_in sp)
    else if unat (tx_out sp) > 0 then 2048 - unat (tx_in sp) else 2047 - unat (tx_in sp))"
proof -
  have i: "tx_in sp < 2048" "tx_in sp \<le> 2048" "tx_in sp \<le> 2047" "unat (tx_in sp) < 2048"
    using assms by (auto simp: uart_ok_def word_le_nat_alt word_less_nat_alt)
  have pos: "tx_out sp > 0 \<longleftrightarrow> unat (tx_out sp) > 0" by (simp add: word_less_nat_alt)
  have "unat (tx_out sp - 1 - tx_in sp) = unat (tx_out sp) - 1 - unat (tx_in sp)" if "tx_in sp < tx_out sp"
  proof -
    have o: "1 \<le> tx_out sp" using that by (simp add: word_le_nat_alt word_less_nat_alt)
    then have "tx_in sp \<le> tx_out sp - 1" using that by (simp add: word_le_nat_alt word_less_nat_alt unat_sub)
    then show ?thesis using o by (simp add: unat_sub)
  qed
  then show ?thesis using i pos by (auto simp: uart_space_def unat_sub word_less_nat_alt)
qed

subsection \<open>Callers\<close>

lemma copy_out_result:
  assumes "uart_ok (uart w)"
  shows "\<exists>i. uart_copy_out n w = Some (take n (rx_queue (uart w)), on_uart (\<lambda>sp. sp\<lparr>rx_out := i\<rparr>) w) \<and>
    uart_ok ((uart w)\<lparr>rx_out := i\<rparr>) \<and> rx_queue ((uart w)\<lparr>rx_out := i\<rparr>) = drop n (rx_queue (uart w))"
  using assms
proof (induction n arbitrary: w rule: less_induct)
  case (less n)
  let ?sp = "uart w"
  let ?n = "min (uart_avail ?sp) n"
  let ?i = "(rx_out ?sp + word_of_nat ?n) mod 2048"
  have same: "on_uart (\<lambda>sp. sp\<lparr>rx_out := rx_out ?sp\<rparr>) w = w" by (simp add: on_uart_def on_hal_def)
  have b: "unat (rx_out ?sp) < 2048" "unat (rx_in ?sp) < 2048" "length (rx_buf ?sp) = 2048"
    using less.prems uart_ok_unat by (auto simp: uart_ok_def)
  have empty: "rx_queue ?sp = [] \<longleftrightarrow> uart_avail ?sp = 0"
    using b uart_avail_eq [OF less.prems] by (auto simp: rx_queue_def ring_def)
  show ?case
  proof (cases "n = 0 \<or> uart_avail ?sp = 0")
    case True
    then have "uart_copy_out n w = Some (take n (rx_queue ?sp), on_uart (\<lambda>sp. sp\<lparr>rx_out := rx_out ?sp\<rparr>) w)"
      using empty by (subst uart_copy_out.simps) (auto simp: same)
    then show ?thesis using True empty less.prems by (intro exI [of _ "rx_out ?sp"]) auto
  next
    case False
    have n2: "?n \<le> 2048" "?n \<le> (if unat (rx_out ?sp) \<le> unat (rx_in ?sp) then unat (rx_in ?sp) - unat (rx_out ?sp) else 2048 - unat (rx_out ?sp))"
      using uart_avail_eq [OF less.prems] b by auto
    have fit: "unat (rx_out ?sp) + ?n \<le> 2048" using n2(2) b by (auto split: if_splits)
    have o: "rx_out ?sp < 2048" using less.prems by (simp add: uart_ok_def)
    define v where "v = on_uart (\<lambda>sp. sp\<lparr>rx_out := ?i\<rparr>) w"
    have ok: "uart_ok (uart v)" using less.prems idx_step(2) [OF o n2(1)] by (simp add: v_def uart_ok_def)
    have queue: "rx_queue ?sp = take ?n (drop (unat (rx_out ?sp)) (rx_buf ?sp)) @ rx_queue (uart v)"
      using ring_take [of "unat (rx_out ?sp)" "rx_buf ?sp" "unat (rx_in ?sp)" ?n] b n2(2) idx_step(1) [OF o n2(1)]
      by (simp add: rx_queue_def v_def cong: if_cong)
    obtain j where j: "uart_copy_out (n - ?n) v = Some (take (n - ?n) (rx_queue (uart v)), on_uart (\<lambda>sp. sp\<lparr>rx_out := j\<rparr>) v)"
      "uart_ok ((uart v)\<lparr>rx_out := j\<rparr>)" "rx_queue ((uart v)\<lparr>rx_out := j\<rparr>) = drop (n - ?n) (rx_queue (uart v))"
      using less.IH [OF _ ok, of "n - ?n"] False by auto
    have vv: "on_uart (\<lambda>sp. sp\<lparr>rx_out := (rx_out sp + word_of_nat ?n) mod 2048\<rparr>) w = v"
      by (simp add: v_def on_uart_def on_hal_def)
    have len: "length (take ?n (drop (unat (rx_out ?sp)) (rx_buf ?sp))) = ?n" using fit b by simp
    have "uart_copy_out n w = Some (take n (rx_queue ?sp), on_uart (\<lambda>sp. sp\<lparr>rx_out := j\<rparr>) v)"
      using False fit b j(1) len by (subst uart_copy_out.simps) (simp add: Let_def slice_Some vv queue)
    moreover have "on_uart (\<lambda>sp. sp\<lparr>rx_out := j\<rparr>) v = on_uart (\<lambda>sp. sp\<lparr>rx_out := j\<rparr>) w"
      by (simp add: v_def on_uart_def on_hal_def)
    moreover have "(uart v)\<lparr>rx_out := j\<rparr> = ?sp\<lparr>rx_out := j\<rparr>" by (simp add: v_def)
    moreover have "drop n (rx_queue ?sp) = drop (n - ?n) (rx_queue (uart v))" using queue len by simp
    ultimately show ?thesis using j(2,3) by auto
  qed
qed

definition room :: "altera_avalon_jtag_uart_state \<Rightarrow> nat" where
  "room sp = 2047 - length (tx_queue sp)"

lemma tx_length: "uart_ok sp \<Longrightarrow> length (tx_queue sp) = ring_len 2048 (unat (tx_out sp)) (unat (tx_in sp))"
  using uart_ok_unat by (simp add: tx_queue_def ring_length uart_ok_def)

lemma space_room:
  assumes "uart_ok sp"
  shows "uart_space sp \<le> room sp" and "uart_space sp = 0 \<longleftrightarrow> room sp = 0" and "unat (tx_in sp) + uart_space sp \<le> 2048"
  using uart_ok_unat [OF assms] by (auto simp: uart_space_eq [OF assms] room_def tx_length [OF assms] ring_len_def)

lemma copy_in_step:
  assumes "uart_ok sp" and "n \<le> uart_space sp" and "length xs = n"
  shows "\<exists>b. blit (tx_buf sp) (unat (tx_in sp)) xs = Some b \<and>
    uart_ok (sp\<lparr>tx_buf := b, tx_in := (tx_in sp + word_of_nat n) mod 2048\<rparr>) \<and>
    tx_queue (sp\<lparr>tx_buf := b, tx_in := (tx_in sp + word_of_nat n) mod 2048\<rparr>) = tx_queue sp @ xs"
proof -
  have u: "unat (tx_in sp) < 2048" "unat (tx_out sp) < 2048" "length (tx_buf sp) = 2048" "tx_in sp < 2048"
    using assms(1) uart_ok_unat by (auto simp: uart_ok_def)
  have n: "n \<le> 2048" "unat (tx_in sp) + n \<le> 2048" using assms(2) space_room(3) [OF assms(1)] by simp_all
  then obtain b where b: "blit (tx_buf sp) (unat (tx_in sp)) xs = Some b" using u assms(3) by (simp add: blit_Some)
  have fit: "n \<le> (if unat (tx_in sp) < unat (tx_out sp) then unat (tx_out sp) - 1 - unat (tx_in sp)
    else if unat (tx_out sp) > 0 then 2048 - unat (tx_in sp) else 2048 - 1 - unat (tx_in sp))"
    using assms(2) by (auto simp: uart_space_eq [OF assms(1)] split: if_splits)
  have "ring b (unat (tx_out sp)) ((unat (tx_in sp) + n) mod 2048) = ring (tx_buf sp) (unat (tx_out sp)) (unat (tx_in sp)) @ xs"
    using ring_put [OF _ _ _ b, of "unat (tx_out sp)"] fit u assms(3) by (simp cong: if_cong)
  then have "tx_queue (sp\<lparr>tx_buf := b, tx_in := (tx_in sp + word_of_nat n) mod 2048\<rparr>) = tx_queue sp @ xs"
    using idx_step(1) [OF u(4) n(1)] by (simp add: tx_queue_def)
  moreover have "uart_ok (sp\<lparr>tx_buf := b, tx_in := (tx_in sp + word_of_nat n) mod 2048\<rparr>)"
    using assms(1) idx_step(2) [OF u(4) n(1)] blit_length [OF b] by (simp add: uart_ok_def)
  ultimately show ?thesis using b by blast
qed

lemma copy_in_result:
  assumes "uart_ok (uart w)"
  shows "\<exists>b i. uart_copy_in bs w = Some (drop (room (uart w)) bs, on_uart (\<lambda>sp. sp\<lparr>tx_buf := b, tx_in := i\<rparr>) w) \<and>
    uart_ok ((uart w)\<lparr>tx_buf := b, tx_in := i\<rparr>) \<and>
    tx_queue ((uart w)\<lparr>tx_buf := b, tx_in := i\<rparr>) = tx_queue (uart w) @ take (room (uart w)) bs"
  using assms
proof (induction "length bs" arbitrary: bs w rule: less_induct)
  case less
  let ?sp = "uart w"
  let ?n = "min (uart_space ?sp) (length bs)"
  have same: "on_uart (\<lambda>sp. sp\<lparr>tx_buf := tx_buf ?sp, tx_in := tx_in ?sp\<rparr>) w = w" by (simp add: on_uart_def on_hal_def)
  show ?case
  proof (cases "bs = [] \<or> uart_space ?sp = 0")
    case True
    then have "uart_copy_in bs w = Some (bs, w)" by (subst uart_copy_in.simps) simp
    then show ?thesis using True space_room(2) [OF less.prems] less.prems
      by (intro exI [of _ "tx_buf ?sp"] exI [of _ "tx_in ?sp"]) (auto simp: same)
  next
    case False
    obtain b where b: "blit (tx_buf ?sp) (unat (tx_in ?sp)) (take ?n bs) = Some b"
      "uart_ok (?sp\<lparr>tx_buf := b, tx_in := (tx_in ?sp + word_of_nat ?n) mod 2048\<rparr>)"
      "tx_queue (?sp\<lparr>tx_buf := b, tx_in := (tx_in ?sp + word_of_nat ?n) mod 2048\<rparr>) = tx_queue ?sp @ take ?n bs"
      using copy_in_step [OF less.prems, of ?n "take ?n bs"] by auto
    define v where "v = on_uart (\<lambda>sp. sp\<lparr>tx_buf := b, tx_in := (tx_in sp + word_of_nat ?n) mod 2048\<rparr>) w"
    have ok: "uart_ok (uart v)" and queue: "tx_queue (uart v) = tx_queue ?sp @ take ?n bs" using b by (simp_all add: v_def)
    have r: "room ?sp = ?n + room (uart v)"
      using space_room(1) [OF less.prems] by (auto simp: room_def queue)
    obtain c i where c: "uart_copy_in (drop ?n bs) v = Some (drop (room (uart v)) (drop ?n bs), on_uart (\<lambda>sp. sp\<lparr>tx_buf := c, tx_in := i\<rparr>) v)"
      "uart_ok ((uart v)\<lparr>tx_buf := c, tx_in := i\<rparr>)"
      "tx_queue ((uart v)\<lparr>tx_buf := c, tx_in := i\<rparr>) = tx_queue (uart v) @ take (room (uart v)) (drop ?n bs)"
      using less.hyps [OF _ ok, of "drop ?n bs"] False by auto
    have "uart_copy_in bs w = Some (drop (room ?sp) bs, on_uart (\<lambda>sp. sp\<lparr>tx_buf := c, tx_in := i\<rparr>) v)"
      using False b(1) c(1) by (subst uart_copy_in.simps) (simp add: Let_def v_def [symmetric] r add.commute)
    moreover have "on_uart (\<lambda>sp. sp\<lparr>tx_buf := c, tx_in := i\<rparr>) v = on_uart (\<lambda>sp. sp\<lparr>tx_buf := c, tx_in := i\<rparr>) w"
      by (simp add: v_def on_uart_def on_hal_def)
    moreover have "(uart v)\<lparr>tx_buf := c, tx_in := i\<rparr> = ?sp\<lparr>tx_buf := c, tx_in := i\<rparr>" by (simp add: v_def)
    moreover have "take (room ?sp) bs = take ?n bs @ take (room (uart v)) (drop ?n bs)" by (simp add: r take_add)
    ultimately show ?thesis using c(2,3) queue by auto
  qed
qed

subsection \<open>Transmission\<close>

lemma on_uart_logged: "logged (on_uart f w) evs = on_uart f (logged w evs)" "hal (logged w evs) = hal w" for w :: world
  by (simp_all add: logged_def on_uart_def on_hal_def)

lemma on_uart_twice: "on_uart f (on_uart g w) = on_uart (f \<circ> g) w"
  by (simp add: on_uart_def on_hal_def)

lemma tx_next:
  assumes "uart_ok sp"
  shows "tx_out sp \<noteq> tx_in sp \<longleftrightarrow> tx_queue sp \<noteq> []"
    and "tx_out sp \<noteq> tx_in sp \<Longrightarrow> tx_queue sp = tx_buf sp ! unat (tx_out sp) # tx_queue (sp\<lparr>tx_out := buf_next (tx_out sp)\<rparr>)"
    and "uart_ok (sp\<lparr>tx_out := buf_next (tx_out sp)\<rparr>)"
proof -
  have u: "unat (tx_in sp) < 2048" "unat (tx_out sp) < 2048" "length (tx_buf sp) = 2048" "tx_out sp < 2048"
    using assms uart_ok_unat by (auto simp: uart_ok_def)
  have eq: "tx_out sp = tx_in sp \<longleftrightarrow> unat (tx_out sp) = unat (tx_in sp)" by (simp only: word_unat_eq_iff)
  have "tx_queue sp = [] \<longleftrightarrow> ring_len 2048 (unat (tx_out sp)) (unat (tx_in sp)) = 0"
    using tx_length [OF assms] by (metis length_0_conv)
  then show "tx_out sp \<noteq> tx_in sp \<longleftrightarrow> tx_queue sp \<noteq> []" using u eq by (auto simp: ring_len_def)
  show "uart_ok (sp\<lparr>tx_out := buf_next (tx_out sp)\<rparr>)" using assms buf_next_step(2) by (simp add: uart_ok_def)
  assume "tx_out sp \<noteq> tx_in sp"
  then have "1 \<le> (if unat (tx_out sp) \<le> unat (tx_in sp) then unat (tx_in sp) - unat (tx_out sp) else length (tx_buf sp) - unat (tx_out sp))"
    using u unfolding eq by auto
  then have "ring (tx_buf sp) (unat (tx_out sp)) (unat (tx_in sp)) =
      take 1 (drop (unat (tx_out sp)) (tx_buf sp)) @ ring (tx_buf sp) ((unat (tx_out sp) + 1) mod 2048) (unat (tx_in sp))"
    using ring_take [of "unat (tx_out sp)" "tx_buf sp" "unat (tx_in sp)" 1] u by (simp only:)
  moreover have "take 1 (drop (unat (tx_out sp)) (tx_buf sp)) = [tx_buf sp ! unat (tx_out sp)]"
    using u by (simp add: take_Suc_conv_app_nth)
  ultimately show "tx_queue sp = tx_buf sp ! unat (tx_out sp) # tx_queue (sp\<lparr>tx_out := buf_next (tx_out sp)\<rparr>)"
    using buf_next_step(1) [OF u(4)] by (simp add: tx_queue_def)
qed

lemma transmit_result:
  assumes "uart_ok (uart w)"
  shows "\<exists>i. uart_transmit n w = Some (n - length (tx_queue (uart w)), on_uart (\<lambda>sp. sp\<lparr>tx_out := i\<rparr>)
      (logged w (map (\<lambda>b. Iowr (ju_base (uart w)) 0 (ucast b)) (take n (tx_queue (uart w)))))) \<and>
    uart_ok ((uart w)\<lparr>tx_out := i\<rparr>) \<and> tx_queue ((uart w)\<lparr>tx_out := i\<rparr>) = drop n (tx_queue (uart w))"
  using assms
proof (induction n arbitrary: w)
  case 0
  have "on_uart (\<lambda>sp. sp\<lparr>tx_out := tx_out (uart w)\<rparr>) w = w" by (simp add: on_uart_def on_hal_def)
  then show ?case using 0 by (intro exI [of _ "tx_out (uart w)"]) simp
next
  case (Suc n)
  let ?sp = "uart w"
  show ?case
  proof (cases "tx_out ?sp = tx_in ?sp")
    case True
    then have "tx_queue ?sp = []" using tx_next(1) [OF Suc.prems] by simp
    moreover have "on_uart (\<lambda>sp. sp\<lparr>tx_out := tx_out ?sp\<rparr>) w = w" by (simp add: on_uart_def on_hal_def)
    moreover have "?sp\<lparr>tx_out := tx_out ?sp\<rparr> = ?sp" by simp
    ultimately show ?thesis using True Suc.prems by (intro exI [of _ "tx_out ?sp"]) (simp only:, simp)
  next
    case False
    define b where "b = tx_buf ?sp ! unat (tx_out ?sp)"
    define v where "v = on_uart (\<lambda>sp. sp\<lparr>tx_out := buf_next (tx_out sp)\<rparr>) (logged w [Iowr (ju_base ?sp) 0 (ucast b)])"
    have v: "uart v = ?sp\<lparr>tx_out := buf_next (tx_out ?sp)\<rparr>" by (simp add: v_def on_uart_logged)
    have q: "tx_queue ?sp = b # tx_queue (uart v)" "uart_ok (uart v)"
      using tx_next(2,3) [OF Suc.prems] False by (simp_all add: v b_def)
    obtain i where i: "uart_transmit n v = Some (n - length (tx_queue (uart v)), on_uart (\<lambda>sp. sp\<lparr>tx_out := i\<rparr>)
        (logged v (map (\<lambda>b. Iowr (ju_base (uart v)) 0 (ucast b)) (take n (tx_queue (uart v))))))"
      "uart_ok ((uart v)\<lparr>tx_out := i\<rparr>)" "tx_queue ((uart v)\<lparr>tx_out := i\<rparr>) = drop n (tx_queue (uart v))"
      using Suc.IH [OF q(2)] by blast
    have "unat (tx_out ?sp) < length (tx_buf ?sp)" using Suc.prems uart_ok_unat by (auto simp: uart_ok_def)
    then have "uart_transmit (Suc n) w = uart_transmit n v" using False by (simp add: v_def b_def on_uart_logged)
    moreover have "on_uart (\<lambda>sp. sp\<lparr>tx_out := i\<rparr>) (logged v evs) = on_uart (\<lambda>sp. sp\<lparr>tx_out := i\<rparr>) (logged w (Iowr (ju_base ?sp) 0 (ucast b) # evs))" for evs
      by (simp add: v_def on_uart_logged on_uart_twice comp_def)
    ultimately show ?thesis using i q(1) by (intro exI [of _ i]) (simp add: v)
  qed
qed

subsection \<open>The byte stream to the host\<close>

definition streams :: "byte list \<Rightarrow> world \<Rightarrow> world \<Rightarrow> bool" where
  \<comment> \<open>what reaches the device, and then what is left in the queue, is what was in the queue, and then \<open>xs\<close>\<close>
  "streams xs w w' \<longleftrightarrow> (uart_ok (uart w) \<longrightarrow> uart_ok (uart w') \<and> ju_base (uart w') = ju_base (uart w) \<and>
     (\<exists>evs. trace w' = trace w @ evs \<and>
       map ucast (words_to (ju_base (uart w)) evs) @ tx_queue (uart w') = tx_queue (uart w) @ xs))"

lemma streams_trans:
  assumes "streams xs a b" and "streams ys b c"
  shows "streams (xs @ ys) a c"
  unfolding streams_def
proof
  assume "uart_ok (uart a)"
  then obtain e where b: "uart_ok (uart b)" "ju_base (uart b) = ju_base (uart a)" "trace b = trace a @ e"
    and e: "map ucast (words_to (ju_base (uart a)) e) @ tx_queue (uart b) = tx_queue (uart a) @ xs"
    using assms(1) by (auto simp: streams_def)
  then obtain f where c: "uart_ok (uart c)" "ju_base (uart c) = ju_base (uart b)" "trace c = trace b @ f"
    and f: "map ucast (words_to (ju_base (uart a)) f) @ tx_queue (uart c) = tx_queue (uart b) @ ys"
    using assms(2) by (auto simp: streams_def)
  have "map ucast (words_to (ju_base (uart a)) (e @ f)) @ tx_queue (uart c) = tx_queue (uart a) @ xs @ ys"
  proof -
    have "map ucast (words_to (ju_base (uart a)) (e @ f)) @ tx_queue (uart c) =
      map ucast (words_to (ju_base (uart a)) e) @ tx_queue (uart b) @ ys" by (simp add: f)
    also have "\<dots> = (map ucast (words_to (ju_base (uart a)) e) @ tx_queue (uart b)) @ ys" by simp
    also have "\<dots> = tx_queue (uart a) @ xs @ ys" by (simp add: e)
    finally show ?thesis .
  qed
  then show "uart_ok (uart c) \<and> ju_base (uart c) = ju_base (uart a) \<and>
     (\<exists>evs. trace c = trace a @ evs \<and> map ucast (words_to (ju_base (uart a)) evs) @ tx_queue (uart c) = tx_queue (uart a) @ xs @ ys)"
    using b c by (metis append_assoc)
qed

lemma streams_refl: "streams [] w w"
  by (simp add: streams_def exI [of _ "[]"])

interpretation str: frame_rel "streams []"
  by unfold_locales (use streams_refl streams_trans in force)+

lemma streams_logged: "words_to (ju_base (uart w)) evs = [] \<Longrightarrow> streams [] w (logged w evs)"
  by (auto simp: streams_def on_uart_logged)

lemma streams_on_uart:
  assumes "uart_ok (uart w) \<Longrightarrow> uart_ok (f (uart w)) \<and> tx_queue (f (uart w)) = tx_queue (uart w)"
    and "ju_base (f (uart w)) = ju_base (uart w)"
  shows "streams [] w (on_uart f w)"
  using assms by (auto simp: streams_def)

lemma streams_transmit: "keepsv (streams []) (uart_transmit n)"
  unfolding keepsv_def
proof (intro allI impI)
  fix w x w'
  assume run: "uart_transmit n w = Some (x, w')"
  have narrow: "(ucast (ucast b :: uint) :: byte) = b" for b by (simp add: unsigned_ucast_eq take_bit_word_eq_self)
  show "streams [] w w'"
    unfolding streams_def
  proof
    assume "uart_ok (uart w)"
    then obtain i where i: "w' = on_uart (\<lambda>sp. sp\<lparr>tx_out := i\<rparr>)
        (logged w (map (\<lambda>b. Iowr (ju_base (uart w)) 0 (ucast b)) (take n (tx_queue (uart w)))))"
      "uart_ok ((uart w)\<lparr>tx_out := i\<rparr>)" "tx_queue ((uart w)\<lparr>tx_out := i\<rparr>) = drop n (tx_queue (uart w))"
      using transmit_result [of w n] run by auto
    have words: "words_to d (map (\<lambda>b. Iowr d 0 (ucast b)) bs) = map ucast bs" for d and bs :: "byte list"
      by (induction bs) simp_all
    then show "uart_ok (uart w') \<and> ju_base (uart w') = ju_base (uart w) \<and>
      (\<exists>evs. trace w' = trace w @ evs \<and> map ucast (words_to (ju_base (uart w)) evs) @ tx_queue (uart w') = tx_queue (uart w) @ [])"
      using i by (simp add: on_uart_logged words comp_def narrow)
  qed
qed

interpretation streaming: console_frame "streams []"
proof
  fix w :: world and r v e n and b :: "byte list"
  show "streams [] w (logged w [Iord (ju_base (uart w)) r])" "streams [] w (logged w [Iowr (ju_base (uart w)) 1 v])"
    by (rule streams_logged, simp)+
  show "streams [] w (on_uart (\<lambda>sp. sp\<lparr>ju_irq_enable := e sp\<rparr>) w)"
    by (rule streams_on_uart) (simp_all add: uart_ok_def tx_queue_def)
  show "keepsv (streams []) (uart_transmit n)" by (rule streams_transmit)
  assume "length b = length (rx_buf (uart w))"
  then show "streams [] w (on_uart (\<lambda>sp. sp\<lparr>rx_buf := b, rx_in := buf_next (rx_in sp)\<rparr>) w)"
    by (intro streams_on_uart) (simp_all add: uart_ok_def tx_queue_def buf_next_step(2))
qed

lemma streams_status: "streams [] w (w\<lparr>hal := (hal w)\<lparr>nios2_status := x\<rparr>\<rparr>)"
  by (simp add: streams_def exI [of _ "[]"])

lemmas streams_enable = streaming.keeps_enable_irq [OF streams_status]

lemma streams_copy_in:
  assumes "uart_copy_in bs w = Some (rest, w')" and "uart_ok (uart w)"
  shows "\<exists>xs. bs = xs @ rest \<and> streams xs w w'"
proof -
  obtain b i where r: "rest = drop (room (uart w)) bs" and w': "w' = on_uart (\<lambda>sp. sp\<lparr>tx_buf := b, tx_in := i\<rparr>) w"
    and ok: "uart_ok ((uart w)\<lparr>tx_buf := b, tx_in := i\<rparr>)"
    and q: "tx_queue ((uart w)\<lparr>tx_buf := b, tx_in := i\<rparr>) = tx_queue (uart w) @ take (room (uart w)) bs"
    using copy_in_result [OF assms(2), of bs] assms(1) by auto
  then have "streams (take (room (uart w)) bs) w w'" by (simp add: streams_def)
  then show ?thesis using r append_take_drop_id by metis
qed

lemma streams_copy_out: "keepsv (streams []) (uart_copy_out n)"
  unfolding keepsv_def
proof (intro allI impI)
  fix w x w'
  assume run: "uart_copy_out n w = Some (x, w')"
  show "streams [] w w'"
    unfolding streams_def
  proof
    assume ok: "uart_ok (uart w)"
    obtain i where "w' = on_uart (\<lambda>sp. sp\<lparr>rx_out := i\<rparr>) w" "uart_ok ((uart w)\<lparr>rx_out := i\<rparr>)"
      using copy_out_result [OF ok, of n] run by auto
    then show "uart_ok (uart w') \<and> ju_base (uart w') = ju_base (uart w) \<and>
      (\<exists>evs. trace w' = trace w @ evs \<and> map ucast (words_to (ju_base (uart w)) evs) @ tx_queue (uart w') = tx_queue (uart w) @ [])"
      by (simp add: tx_queue_def)
  qed
qed

lemma streams_wait:
  assumes "keeps (streams []) (preempt h)"
  shows "keeps (streams []) (uart_wait still preempt h)"
proof -
  have "(\<lambda>s p k w w'. keeps (streams []) (p k) \<longrightarrow> streams [] w w') still preempt h w w'"
    if "uart_wait still preempt h w = Some w'" for w w'
  proof (rule uart_wait.raw_induct [OF _ that])
    fix again :: "(world \<Rightarrow> bool) \<Rightarrow> (env \<Rightarrow> world \<Rightarrow> world option) \<Rightarrow> env \<Rightarrow> world \<Rightarrow> world option" and s p k w w'
    assume IH: "\<And>s p k w w'. again s p k w = Some w' \<Longrightarrow> keeps (streams []) (p k) \<longrightarrow> streams [] w w'"
      and run: "(if s w \<and> ju_host_inactive (uart w) < ju_timeout (uart w)
        then do { w \<leftarrow> emit (Spin 1) w; w \<leftarrow> p k w; again s p k w } else Some w) = Some w'"
    have spin: "streams [] w (logged w [Spin 1])" by (rule streams_logged) simp
    show "keeps (streams []) (p k) \<longrightarrow> streams [] w w'"
    proof
      assume p: "keeps (streams []) (p k)"
      from run consider "w' = w" | v where "p k (logged w [Spin 1]) = Some v" "again s p k v = Some w'"
        by (auto split: if_splits bind_splits)
      then show "streams [] w w'"
      proof cases
        case 1
        then show ?thesis by (simp add: streams_refl)
      next
        case 2
        then have "streams [] (logged w [Spin 1]) v" "streams [] v w'" using keepsD [OF p] IH p by blast+
        then show ?thesis using spin by (blast intro: str.R_trans)
      qed
    qed
  qed
  then show ?thesis using assms by (simp add: keeps_def)
qed

lemma streams_write_loop:
  assumes "uart_write_loop preempt bs flags h w = Some (rest, w')" and "keeps (streams []) (preempt h)" and "uart_ok (uart w)"
  shows "\<exists>xs. bs = xs @ rest \<and> streams xs w w'"
proof -
  have "(\<lambda>p bs fl k w r. keeps (streams []) (p k) \<longrightarrow> uart_ok (uart w) \<longrightarrow>
      (\<exists>xs. bs = xs @ fst r \<and> streams xs w (snd r))) preempt bs flags h w (rest, w')"
  proof (rule uart_write_loop.raw_induct [OF _ assms(1)])
    fix again :: "(env \<Rightarrow> world \<Rightarrow> world option) \<Rightarrow> byte list \<Rightarrow> uint \<Rightarrow> env \<Rightarrow> world \<Rightarrow> (byte list \<times> world) option"
      and p bs fl k w r
    assume IH: "\<And>p bs fl k w r. again p bs fl k w = Some r \<Longrightarrow> keeps (streams []) (p k) \<longrightarrow> uart_ok (uart w) \<longrightarrow>
        (\<exists>xs. bs = xs @ fst r \<and> streams xs w (snd r))"
      and run: "do {
         (left, w) \<leftarrow> uart_copy_in bs w;
         w \<leftarrow> enable_irq WE_MSK w;
         if left = [] \<or> fl AND O_NONBLOCK \<noteq> 0 then Some (left, w)
         else do {
           let out' = tx_out (uart w);
           w \<leftarrow> uart_wait (\<lambda>w. out' = tx_out (uart w)) p k w;
           if ju_host_inactive (uart w) \<noteq> 0 then Some (left, w) else again p left fl k w } } = Some r"
    show "keeps (streams []) (p k) \<longrightarrow> uart_ok (uart w) \<longrightarrow> (\<exists>xs. bs = xs @ fst r \<and> streams xs w (snd r))"
    proof (intro impI)
      assume p: "keeps (streams []) (p k)" and ok: "uart_ok (uart w)"
      obtain left u v where u: "uart_copy_in bs w = Some (left, u)" and v: "enable_irq WE_MSK u = Some v"
        and rest: "r = (left, v) \<or> (\<exists>x. uart_wait (\<lambda>w. tx_out (uart v) = tx_out (uart w)) p k v = Some x \<and>
          (r = (left, x) \<or> again p left fl k x = Some r))"
        using run by (auto simp: Let_def split: bind_splits if_splits)
      obtain as where n: "bs = as @ left" "streams as w u" using streams_copy_in [OF u ok] by blast
      then have "streams (as @ []) w v" using keepsD [OF streams_enable v] streams_trans by blast
      then have wv: "streams as w v" by simp
      show "\<exists>xs. bs = xs @ fst r \<and> streams xs w (snd r)"
        using rest
      proof
        assume "r = (left, v)"
        then show ?thesis using wv n(1) by auto
      next
        assume "\<exists>x. uart_wait (\<lambda>w. tx_out (uart v) = tx_out (uart w)) p k v = Some x \<and>
          (r = (left, x) \<or> again p left fl k x = Some r)"
        then obtain x where x: "uart_wait (\<lambda>w. tx_out (uart v) = tx_out (uart w)) p k v = Some x"
          and end': "r = (left, x) \<or> again p left fl k x = Some r" by blast
        then have "streams (as @ []) w x" using streams_trans [OF wv keepsD [OF streams_wait [where preempt = p, OF p] x]] by blast
        then have wx: "streams as w x" by simp
        then have "uart_ok (uart x)" using ok by (simp add: streams_def)
        with end' IH p obtain ys where "left = ys @ fst r" "streams ys x (snd r)"
          using streams_refl by fastforce
        then show ?thesis using streams_trans [OF wx] n(1) by (metis append_assoc)
      qed
    qed
  qed
  then show ?thesis using assms(2,3) by simp
qed

lemma streams_write:
  assumes "altera_avalon_jtag_uart_write preempt bs flags h w = Some (r, w')" and "keeps (streams []) (preempt h)" and "uart_ok (uart w)"
  shows "streams (take (nat r) bs) w w'"
proof -
  obtain rest where loop: "uart_write_loop preempt bs flags h w = Some (rest, w')"
    and r: "r = (let written = length bs - length rest in
      if written \<noteq> 0 then int written else if flags AND O_NONBLOCK \<noteq> 0 then - EWOULDBLOCK else - EIO)"
    using assms(1) by (auto simp: altera_avalon_jtag_uart_write_def Let_def split: bind_splits)
  obtain xs where xs: "bs = xs @ rest" "streams xs w w'" using streams_write_loop [OF loop assms(2,3)] by blast
  then have "nat r = length xs" by (simp add: r EWOULDBLOCK_def EAGAIN_def EIO_def)
  then show ?thesis using xs by simp
qed

lemma streams_read_loop:
  assumes "keeps (streams []) (preempt h)"
  shows "keepsv (streams []) (uart_read_loop preempt n flags h)"
proof -
  have "(\<lambda>p n fl k w r. keeps (streams []) (p k) \<longrightarrow> streams [] w (snd r)) preempt n flags h w r"
    if "uart_read_loop preempt n flags h w = Some r" for w r
  proof (rule uart_read_loop.raw_induct [OF _ that])
    fix again :: "(env \<Rightarrow> world \<Rightarrow> world option) \<Rightarrow> nat \<Rightarrow> uint \<Rightarrow> env \<Rightarrow> world \<Rightarrow> (byte list \<times> world) option"
      and p n fl k w r
    assume IH: "\<And>p n fl k w r. again p n fl k w = Some r \<Longrightarrow> keeps (streams []) (p k) \<longrightarrow> streams [] w (snd r)"
      and run: "(if n = 0 then Some ([], w)
        else do {
          let inp = rx_in (uart w);
          (bs, w) \<leftarrow> uart_copy_out n w;
          if bs \<noteq> [] \<or> fl AND O_NONBLOCK \<noteq> 0 then Some (bs, w)
          else do {
            w \<leftarrow> uart_wait (\<lambda>w. inp = rx_in (uart w)) p k w;
            if inp = rx_in (uart w) then Some ([], w) else again p n fl k w } }) = Some r"
    show "keeps (streams []) (p k) \<longrightarrow> streams [] w (snd r)"
    proof
      assume p: "keeps (streams []) (p k)"
      from run consider "snd r = w" | bs v where "uart_copy_out n w = Some (bs, v)" "snd r = v"
        | bs v x where "uart_copy_out n w = Some (bs, v)" "uart_wait (\<lambda>w'. rx_in (uart w) = rx_in (uart w')) p k v = Some x"
          "snd r = x \<or> again p n fl k x = Some r"
        by (auto simp: Let_def split: if_splits bind_splits)
      then show "streams [] w (snd r)"
      proof cases
        case 1
        then show ?thesis by (simp add: streams_refl)
      next
        case 2
        then show ?thesis using keepsvD [OF streams_copy_out 2(1)] by simp
      next
        case 3
        have "streams [] w x"
          using str.R_trans [OF keepsvD [OF streams_copy_out 3(1)] keepsD [OF streams_wait [where preempt = p, OF p] 3(2)]] .
        moreover have "streams [] x (snd r)" using 3(3)
        proof
          assume "again p n fl k x = Some r"
          from IH [OF this] p show ?thesis by blast
        qed (simp add: streams_refl)
        ultimately show ?thesis by (rule str.R_trans)
      qed
    qed
  qed
  then show ?thesis using assms by (fastforce simp: keepsv_def)
qed

lemma streams_read:
  assumes "altera_avalon_jtag_uart_read preempt n flags h w = Some (r, w')" and "keeps (streams []) (preempt h)"
  shows "streams [] w w'"
proof -
  obtain bs v where v: "uart_read_loop preempt (nat n) flags h w = Some (bs, v)" and "v = w' \<or> enable_irq RE_MSK v = Some w'"
    using assms(1) by (auto simp: altera_avalon_jtag_uart_read_def split: bind_splits if_splits)
  then have "streams [] v w'" using streams_refl keepsD [OF streams_enable] by blast
  then show ?thesis using keepsvD [OF streams_read_loop [where preempt = preempt, OF assms(2)] v] str.R_trans by blast
qed

definition interrupted :: "(env \<Rightarrow> world \<Rightarrow> world option) \<Rightarrow> bool" where
  \<comment> \<open>the handler of the console may run while a caller waits\<close>
  "interrupted preempt \<longleftrightarrow> (\<forall>h w w'. preempt h w = Some w' \<longrightarrow> w' = w \<or> altera_avalon_jtag_uart_irq h w = Some w')"

inductive console_run :: "world \<Rightarrow> byte list \<Rightarrow> world \<Rightarrow> bool" where
  \<comment> \<open>calls of the driver and interrupts in any order, and the bytes the calls reported as written\<close>
  Start: "console_run w [] w"
| Write: "console_run w xs u \<Longrightarrow> interrupted preempt \<Longrightarrow> altera_avalon_jtag_uart_write preempt bs flags h u = Some (r, v) \<Longrightarrow>
    console_run w (xs @ take (nat r) bs) v"
| Read: "console_run w xs u \<Longrightarrow> interrupted preempt \<Longrightarrow> altera_avalon_jtag_uart_read preempt n flags h u = Some (r, v) \<Longrightarrow>
    console_run w xs v"
| Serve: "console_run w xs u \<Longrightarrow> altera_avalon_jtag_uart_irq h u = Some v \<Longrightarrow> console_run w xs v"

lemma interrupted_streams: "interrupted preempt \<Longrightarrow> keeps (streams []) (preempt h)"
  unfolding interrupted_def keeps_def using keepsD [OF streaming.keeps_uart_irq] streams_refl by blast

text \<open>C8: what the callers of the console driver are told has been written reaches the device, all of it, once
  and in order, as far as the handler has got, and the rest waits in the buffer: for any sequence of
  blocking and non-blocking calls and of interrupts, also while a caller waits.\<close>

theorem console_output_in_order:
  assumes "console_run w xs w'" and "uart_ok (uart w)"
  shows "uart_ok (uart w') \<and> (\<exists>evs. trace w' = trace w @ evs \<and>
    map ucast (words_to (ju_base (uart w)) evs) @ tx_queue (uart w') = tx_queue (uart w) @ xs)"
proof -
  have "streams xs w w'"
    using assms
  proof (induction rule: console_run.induct)
    case (Start w)
    show ?case by (rule streams_refl)
  next
    case (Write w xs u preempt bs flags h r v)
    then have "uart_ok (uart u)" by (simp add: streams_def)
    then have "streams (take (nat r) bs) u v" using streams_write Write.hyps interrupted_streams by blast
    then show ?case using streams_trans Write.IH Write.prems by blast
  next
    case (Read w xs u preempt n flags h r v)
    then have "streams [] u v" using streams_read interrupted_streams by blast
    then show ?case using streams_trans [of xs w u "[]" v] Read by simp
  next
    case (Serve w xs u h v)
    then show ?case using streams_trans [of xs w u "[]" v] keepsD [OF streaming.keeps_uart_irq] by simp
  qed
  then show ?thesis using assms(2) by (simp add: streams_def)
qed

lemma uart_init_ok: "uart_ok (uart world_init)" "tx_queue (uart world_init) = []" "rx_queue (uart world_init) = []"
  "ju_base (uart world_init) = JTAG_UART_BASE" "trace world_init = []"
  by (simp_all add: world_init_def hal_init_def jtag_uart_init_state_def uart_ok_def ALTERA_AVALON_JTAG_UART_BUF_LEN_def
      tx_queue_def rx_queue_def)

subsection \<open>What a call returns\<close>

lemma enable_irq_result: "enable_irq m w = Some (on_uart (\<lambda>sp. sp\<lparr>ju_irq_enable := ju_irq_enable sp OR m\<rparr>)
    (logged w [Iowr (ju_base (uart w)) 1 (ju_irq_enable (uart w) OR m)]))"
  by (simp add: enable_irq_def alt_irq_disable_all_def alt_irq_enable_all_def on_uart_def on_hal_def logged_def del: One_nat_def)

lemma write_result:
  assumes "uart_ok (uart w)" and "flags AND O_NONBLOCK \<noteq> 0 \<or> length bs \<le> room (uart w)"
  shows "\<exists>w'. altera_avalon_jtag_uart_write preempt bs flags h w =
      Some (if min (room (uart w)) (length bs) \<noteq> 0 then int (min (room (uart w)) (length bs))
        else if flags AND O_NONBLOCK \<noteq> 0 then - EWOULDBLOCK else - EIO, w') \<and>
    ju_base (uart w') = ju_base (uart w) \<and>
    uart_ok (uart w') \<and> tx_queue (uart w') = tx_queue (uart w) @ take (room (uart w)) bs \<and>
    ju_irq_enable (uart w') = ju_irq_enable (uart w) OR WE_MSK \<and> nios2_status (hal w') = nios2_status (hal w) \<and>
    trace w' = trace w @ [Iowr (ju_base (uart w)) 1 (ju_irq_enable (uart w) OR WE_MSK)]"
proof -
  obtain b i where c: "uart_copy_in bs w = Some (drop (room (uart w)) bs, on_uart (\<lambda>sp. sp\<lparr>tx_buf := b, tx_in := i\<rparr>) w)"
    and ok: "uart_ok ((uart w)\<lparr>tx_buf := b, tx_in := i\<rparr>)"
    and q: "tx_queue ((uart w)\<lparr>tx_buf := b, tx_in := i\<rparr>) = tx_queue (uart w) @ take (room (uart w)) bs"
    using copy_in_result [OF assms(1)] by blast
  define u where "u = on_uart (\<lambda>sp. sp\<lparr>tx_buf := b, tx_in := i\<rparr>) w"
  define v where "v = on_uart (\<lambda>sp. sp\<lparr>ju_irq_enable := ju_irq_enable sp OR WE_MSK\<rparr>)
    (logged u [Iowr (ju_base (uart u)) 1 (ju_irq_enable (uart u) OR WE_MSK)])"
  have "enable_irq WE_MSK u = Some v" unfolding v_def by (rule enable_irq_result)
  moreover have "drop (room (uart w)) bs = [] \<or> flags AND O_NONBLOCK \<noteq> 0" using assms(2) by auto
  ultimately have "uart_write_loop preempt bs flags h w = Some (drop (room (uart w)) bs, v)"
    using c by (subst uart_write_loop.simps) (auto simp: u_def)
  moreover have "length bs - length (drop (room (uart w)) bs) = min (room (uart w)) (length bs)" by simp
  ultimately have "altera_avalon_jtag_uart_write preempt bs flags h w =
      Some (if min (room (uart w)) (length bs) \<noteq> 0 then int (min (room (uart w)) (length bs))
        else if flags AND O_NONBLOCK \<noteq> 0 then - EWOULDBLOCK else - EIO, v)"
    by (simp only: altera_avalon_jtag_uart_write_def Let_def bind.bind_lunit case_prod_conv)
  moreover have "uart_ok (uart v)" "tx_queue (uart v) = tx_queue (uart w) @ take (room (uart w)) bs"
    using ok q by (simp_all add: v_def u_def on_uart_logged uart_ok_def tx_queue_def)
  ultimately show ?thesis by (simp add: v_def u_def on_uart_logged on_uart_def on_hal_def del: One_nat_def)
qed

text \<open>A write that need not wait, since it is non-blocking or finds room for all its bytes, takes as many bytes
  as there is room for, returns their number or the error code when there are none, and enables
  the transmit interrupt, whatever the handler and the host do.\<close>

theorem console_write_accepts:
  assumes "uart_ok (uart w)" and "flags AND O_NONBLOCK \<noteq> 0 \<or> length bs \<le> room (uart w)"
  shows "\<exists>w'. altera_avalon_jtag_uart_write preempt bs flags h w =
      Some (if min (room (uart w)) (length bs) \<noteq> 0 then int (min (room (uart w)) (length bs))
        else if flags AND O_NONBLOCK \<noteq> 0 then - EWOULDBLOCK else - EIO, w') \<and>
    uart_ok (uart w') \<and> tx_queue (uart w') = tx_queue (uart w) @ take (room (uart w)) bs \<and>
    ju_irq_enable (uart w') = ju_irq_enable (uart w) OR WE_MSK \<and> nios2_status (hal w') = nios2_status (hal w) \<and>
    trace w' = trace w @ [Iowr (ju_base (uart w)) 1 (ju_irq_enable (uart w) OR WE_MSK)]"
  using write_result [OF assms] by blast

theorem console_write_accepts_witness:
  "\<exists>w'. altera_avalon_jtag_uart_write (\<lambda>_ _. None) [72, 105] 0 quiet_env world_init = Some (2, w') \<and> tx_queue (uart w') = [72, 105]"
proof -
  have "room (uart world_init) = 2047" by (simp add: room_def uart_init_ok)
  then show ?thesis
    using console_write_accepts [OF uart_init_ok(1), of 0 "[72, 105]" "\<lambda>_ _. None" quiet_env] by (auto simp: uart_init_ok min_def)
qed

subsection \<open>Reception\<close>

definition reading :: "env \<Rightarrow> world \<Rightarrow> nat \<Rightarrow> uint" where
  \<comment> \<open>what the data register returns after \<open>j\<close> more readings\<close>
  "reading h w j = rd h (trace w @ replicate j (Iord (ju_base (uart w)) 0)) (ju_base (uart w)) 0"

lemma rx_length: "uart_ok sp \<Longrightarrow> length (rx_queue sp) = ring_len 2048 (unat (rx_out sp)) (unat (rx_in sp))"
  using uart_ok_unat by (simp add: rx_queue_def ring_length uart_ok_def)

lemma rx_put:
  assumes "uart_ok sp"
  shows "buf_next (rx_in sp) = rx_out sp \<longleftrightarrow> length (rx_queue sp) = 2047"
    and "buf_next (rx_in sp) \<noteq> rx_out sp \<Longrightarrow>
      rx_queue (sp\<lparr>rx_buf := (rx_buf sp)[unat (rx_in sp) := x], rx_in := buf_next (rx_in sp)\<rparr>) = rx_queue sp @ [x]"
    and "uart_ok (sp\<lparr>rx_buf := (rx_buf sp)[unat (rx_in sp) := x], rx_in := buf_next (rx_in sp)\<rparr>)"
proof -
  have u: "unat (rx_in sp) < 2048" "unat (rx_out sp) < 2048" "length (rx_buf sp) = 2048" "rx_in sp < 2048"
    using assms uart_ok_unat by (auto simp: uart_ok_def)
  have eq: "buf_next (rx_in sp) = rx_out sp \<longleftrightarrow> (unat (rx_in sp) + 1) mod 2048 = unat (rx_out sp)"
    using buf_next_step(1) [OF u(4)] by (simp only: word_unat_eq_iff)
  show "buf_next (rx_in sp) = rx_out sp \<longleftrightarrow> length (rx_queue sp) = 2047"
    using u by (auto simp: eq rx_length [OF assms] ring_len_def mod_Suc split: if_splits)
  show "uart_ok (sp\<lparr>rx_buf := (rx_buf sp)[unat (rx_in sp) := x], rx_in := buf_next (rx_in sp)\<rparr>)"
    using assms buf_next_step(2) by (simp add: uart_ok_def)
  assume "buf_next (rx_in sp) \<noteq> rx_out sp"
  then have "(unat (rx_in sp) + 1) mod length (rx_buf sp) \<noteq> unat (rx_out sp)" by (simp only: eq u(3)) simp
  then show "rx_queue (sp\<lparr>rx_buf := (rx_buf sp)[unat (rx_in sp) := x], rx_in := buf_next (rx_in sp)\<rparr>) = rx_queue sp @ [x]"
    using ring_set [of "unat (rx_out sp)" "rx_buf sp" "unat (rx_in sp)" x] u buf_next_step(1) [OF u(4)]
    by (simp add: rx_queue_def)
qed

lemma receive_result:
  assumes "uart_ok (uart w)"
  shows "\<exists>d' m b i e. uart_receive d h w = Some (d', on_uart (\<lambda>sp. sp\<lparr>rx_buf := b, rx_in := i\<rparr>) (logged w e)) \<and>
    uart_ok ((uart w)\<lparr>rx_buf := b, rx_in := i\<rparr>) \<and>
    rx_queue ((uart w)\<lparr>rx_buf := b, rx_in := i\<rparr>) = rx_queue (uart w) @ map (\<lambda>j. ucast (reading h w j AND DATA_MSK)) [0..<m] \<and>
    (\<forall>j<m. reading h w j AND RVALID_MSK \<noteq> 0) \<and>
    (length (rx_queue (uart w)) + m = 2047 \<or> reading h w m AND RVALID_MSK = 0)"
  using assms
proof (induction "2047 - length (rx_queue (uart w))" arbitrary: d w)
  case 0
  then have "length (rx_queue (uart w)) = 2047" using queue_bound [OF 0(2)] by simp
  moreover from this have "uart_receive d h w = Some (d, w)"
    using rx_put(1) [OF 0(2)] by (subst uart_receive.simps) simp
  moreover have "on_uart (\<lambda>sp. sp\<lparr>rx_buf := rx_buf (uart w), rx_in := rx_in (uart w)\<rparr>) w = w"
    by (simp add: on_uart_def on_hal_def)
  ultimately show ?case using 0(2)
    by (intro exI [of _ d] exI [of _ 0] exI [of _ "rx_buf (uart w)"] exI [of _ "rx_in (uart w)"] exI [of _ "[]"]) simp
next
  case (Suc k)
  let ?sp = "uart w"
  let ?a = "reading h w 0"
  let ?r = "[Iord (ju_base ?sp) 0]"
  have free: "buf_next (rx_in ?sp) \<noteq> rx_out ?sp" using Suc(2) rx_put(1) [OF Suc.prems] by auto
  have in': "unat (rx_in ?sp) < length (rx_buf ?sp)" using Suc.prems uart_ok_unat by (auto simp: uart_ok_def)
  show ?case
  proof (cases "?a AND RVALID_MSK = 0")
    case True
    then have "uart_receive d h w = Some (?a, logged w ?r)"
      using free by (subst uart_receive.simps) (simp add: reading_def)
    moreover have "on_uart (\<lambda>sp. sp\<lparr>rx_buf := rx_buf ?sp, rx_in := rx_in ?sp\<rparr>) (logged w ?r) = logged w ?r"
      by (simp add: on_uart_def on_hal_def logged_def)
    ultimately show ?thesis using True Suc.prems
      by (intro exI [of _ ?a] exI [of _ 0] exI [of _ "rx_buf ?sp"] exI [of _ "rx_in ?sp"] exI [of _ ?r]) simp
  next
    case False
    define x :: byte where "x = ucast (?a AND DATA_MSK)"
    define b where "b = (rx_buf ?sp)[unat (rx_in ?sp) := x]"
    define v where "v = on_uart (\<lambda>sp. sp\<lparr>rx_buf := b, rx_in := buf_next (rx_in sp)\<rparr>) (logged w ?r)"
    have v: "uart v = ?sp\<lparr>rx_buf := b, rx_in := buf_next (rx_in ?sp)\<rparr>" by (simp add: v_def on_uart_logged)
    have q: "rx_queue (uart v) = rx_queue ?sp @ [x]" "uart_ok (uart v)"
      using rx_put(2,3) [OF Suc.prems] free by (simp_all add: v b_def)
    have next': "reading h v j = reading h w (Suc j)" for j by (simp add: reading_def v v_def on_uart_logged)
    have "uart_receive d h w = uart_receive ?a h v"
      using free False in' by (subst uart_receive.simps) (simp add: v_def b_def x_def reading_def on_uart_logged)
    moreover have less: "k = 2047 - length (rx_queue (uart v))" using Suc(2) by (simp add: q(1))
    moreover obtain d' m c i e where r: "uart_receive ?a h v = Some (d', on_uart (\<lambda>sp. sp\<lparr>rx_buf := c, rx_in := i\<rparr>) (logged v e))"
      "uart_ok ((uart v)\<lparr>rx_buf := c, rx_in := i\<rparr>)"
      "rx_queue ((uart v)\<lparr>rx_buf := c, rx_in := i\<rparr>) = rx_queue (uart v) @ map (\<lambda>j. ucast (reading h v j AND DATA_MSK)) [0..<m]"
      "\<forall>j<m. reading h v j AND RVALID_MSK \<noteq> 0" "length (rx_queue (uart v)) + m = 2047 \<or> reading h v m AND RVALID_MSK = 0"
      using Suc.hyps(1) [OF _ q(2)] less by blast
    moreover have "on_uart (\<lambda>sp. sp\<lparr>rx_buf := c, rx_in := i\<rparr>) (logged v e) = on_uart (\<lambda>sp. sp\<lparr>rx_buf := c, rx_in := i\<rparr>) (logged w (?r @ e))"
      by (simp add: v_def on_uart_logged on_uart_twice comp_def)
    ultimately have run: "uart_receive d h w = Some (d', on_uart (\<lambda>sp. sp\<lparr>rx_buf := c, rx_in := i\<rparr>) (logged w (?r @ e)))"
      by (simp only:)
    have same: "(uart v)\<lparr>rx_buf := c, rx_in := i\<rparr> = ?sp\<lparr>rx_buf := c, rx_in := i\<rparr>" by (simp add: v)
    have "[x] @ map (\<lambda>j. ucast (reading h w (Suc j) AND DATA_MSK)) [0..<m] = map (\<lambda>j. ucast (reading h w j AND DATA_MSK)) [0..<Suc m]"
      unfolding map_upt_Suc by (simp add: x_def)
    then have "rx_queue (?sp\<lparr>rx_buf := c, rx_in := i\<rparr>) = rx_queue ?sp @ map (\<lambda>j. ucast (reading h w j AND DATA_MSK)) [0..<Suc m]"
      using r(3) unfolding same q(1) next' by (simp del: upt_Suc)
    moreover have "\<forall>j<Suc m. reading h w j AND RVALID_MSK \<noteq> 0"
      using False r(4) by (auto simp: next' less_Suc_eq_0_disj)
    moreover have "length (rx_queue ?sp) + Suc m = 2047 \<or> reading h w (Suc m) AND RVALID_MSK = 0"
      using r(5) unfolding q(1) next' by simp
    ultimately show ?thesis using run r(2) unfolding same by blast
  qed
qed

lemma read_result:
  assumes "uart_ok (uart w)" and "flags AND O_NONBLOCK \<noteq> 0 \<or> take (nat n) (rx_queue (uart w)) \<noteq> []"
  shows "\<exists>w'. altera_avalon_jtag_uart_read preempt n flags h w =
      Some ((if take (nat n) (rx_queue (uart w)) \<noteq> [] then int (length (take (nat n) (rx_queue (uart w)))) else - EWOULDBLOCK,
        take (nat n) (rx_queue (uart w))), w') \<and>
    uart_ok (uart w') \<and> rx_queue (uart w') = drop (nat n) (rx_queue (uart w))"
proof -
  let ?bs = "take (nat n) (rx_queue (uart w))"
  obtain i where c: "uart_copy_out (nat n) w = Some (?bs, on_uart (\<lambda>sp. sp\<lparr>rx_out := i\<rparr>) w)"
    and ok: "uart_ok ((uart w)\<lparr>rx_out := i\<rparr>)" and q: "rx_queue ((uart w)\<lparr>rx_out := i\<rparr>) = drop (nat n) (rx_queue (uart w))"
    using copy_out_result [OF assms(1)] by blast
  define v where "v = (if nat n = 0 then w else on_uart (\<lambda>sp. sp\<lparr>rx_out := i\<rparr>) w)"
  have v: "uart_ok (uart v)" "rx_queue (uart v) = drop (nat n) (rx_queue (uart w))"
    using ok q assms(1) by (auto simp: v_def)
  have "uart_read_loop preempt (nat n) flags h w = Some (?bs, v)"
    using c assms(2) by (subst uart_read_loop.simps) (auto simp: v_def Let_def)
  moreover define u where "u = (if ?bs \<noteq> [] then on_uart (\<lambda>sp. sp\<lparr>ju_irq_enable := ju_irq_enable sp OR RE_MSK\<rparr>)
    (logged v [Iowr (ju_base (uart v)) 1 (ju_irq_enable (uart v) OR RE_MSK)]) else v)"
  ultimately have "altera_avalon_jtag_uart_read preempt n flags h w =
      Some ((if ?bs \<noteq> [] then int (length ?bs) else if flags AND O_NONBLOCK \<noteq> 0 then - EWOULDBLOCK else - EIO, ?bs), u)"
    by (simp only: altera_avalon_jtag_uart_read_def bind.bind_lunit case_prod_conv enable_irq_result) simp
  moreover have "uart_ok (uart u)" "rx_queue (uart u) = rx_queue (uart v)"
    using v(1) by (simp_all add: u_def on_uart_logged uart_ok_def rx_queue_def)
  ultimately show ?thesis
    using v(2) assms(2) by (intro exI [of _ u]) auto
qed

text \<open>C31: what the device delivers is what the callers read: the handler takes bytes as long as the device has one
  and the buffer has room, and a non-blocking read returns the bytes that were waiting before and
  then those, in order, up to the number asked for; the rest stays for the next call.\<close>

theorem console_input_in_order:
  assumes "uart_ok (uart w)"
  shows "\<exists>m q w'. q = rx_queue (uart w) @ map (\<lambda>j. ucast (reading h w j AND DATA_MSK)) [0..<m] \<and>
    (\<forall>j<m. reading h w j AND RVALID_MSK \<noteq> 0) \<and> (length q = 2047 \<or> reading h w m AND RVALID_MSK = 0) \<and>
    do { (d, w) \<leftarrow> uart_receive d h w; altera_avalon_jtag_uart_read preempt n O_NONBLOCK h w } =
      Some ((if take (nat n) q \<noteq> [] then int (length (take (nat n) q)) else - EWOULDBLOCK, take (nat n) q), w') \<and>
    rx_queue (uart w') = drop (nat n) q"
proof -
  obtain d' m b i e where r: "uart_receive d h w = Some (d', on_uart (\<lambda>sp. sp\<lparr>rx_buf := b, rx_in := i\<rparr>) (logged w e))"
    "uart_ok ((uart w)\<lparr>rx_buf := b, rx_in := i\<rparr>)"
    "rx_queue ((uart w)\<lparr>rx_buf := b, rx_in := i\<rparr>) = rx_queue (uart w) @ map (\<lambda>j. ucast (reading h w j AND DATA_MSK)) [0..<m]"
    "\<forall>j<m. reading h w j AND RVALID_MSK \<noteq> 0" "length (rx_queue (uart w)) + m = 2047 \<or> reading h w m AND RVALID_MSK = 0"
    using receive_result [OF assms] by blast
  define v where "v = on_uart (\<lambda>sp. sp\<lparr>rx_buf := b, rx_in := i\<rparr>) (logged w e)"
  have v: "uart_ok (uart v)" "rx_queue (uart v) = rx_queue (uart w) @ map (\<lambda>j. ucast (reading h w j AND DATA_MSK)) [0..<m]"
    using r(2,3) by (simp_all add: v_def on_uart_logged)
  have "O_NONBLOCK AND O_NONBLOCK \<noteq> 0" by (simp add: O_NONBLOCK_def)
  then obtain w' where "altera_avalon_jtag_uart_read preempt n O_NONBLOCK h v =
      Some ((if take (nat n) (rx_queue (uart v)) \<noteq> [] then int (length (take (nat n) (rx_queue (uart v)))) else - EWOULDBLOCK,
        take (nat n) (rx_queue (uart v))), w')"
    "rx_queue (uart w') = drop (nat n) (rx_queue (uart v))"
    using read_result [OF v(1)] by blast
  then show ?thesis
    using r(1,4,5) v(2) by (intro exI [of _ m] exI [of _ "rx_queue (uart v)"] exI [of _ w']) (simp add: v_def [symmetric])
qed

theorem console_input_in_order_witness:
  "\<exists>m q w'. q = rx_queue (uart world_init) @ map (\<lambda>j. ucast (reading quiet_env world_init j AND DATA_MSK)) [0..<m] \<and>
    do { (d, w) \<leftarrow> uart_receive 0 quiet_env world_init; altera_avalon_jtag_uart_read (\<lambda>_ _. None) 5 O_NONBLOCK quiet_env w } =
      Some ((if take (nat 5) q \<noteq> [] then int (length (take (nat 5) q)) else - EWOULDBLOCK, take (nat 5) q), w')"
  using console_input_in_order [OF uart_init_ok(1), of quiet_env 0 "\<lambda>_ _. None" 5] by blast

subsection \<open>A run of the driver\<close>

definition hello_env :: env where
  \<comment> \<open>a device with room for 64 bytes, which asks for its interrupt once\<close>
  "hello_env = quiet_env\<lparr>rd := \<lambda>tr d r. if d = JTAG_UART_BASE \<and> r = 1 \<and> Iord JTAG_UART_BASE 1 \<notin> set tr then 0x00400200 else 0\<rparr>"

lemma hello_irq:
  assumes "uart_ok (uart w)" and "ju_base (uart w) = JTAG_UART_BASE" and "Iord JTAG_UART_BASE 1 \<notin> set (trace w)"
    and "length (tx_queue (uart w)) < 64"
  shows "\<exists>w'. altera_avalon_jtag_uart_irq hello_env w = Some w'"
proof -
  define u where "u = logged w [Iord JTAG_UART_BASE 1]"
  have u: "uart u = uart w" by (simp add: u_def on_uart_logged)
  obtain n v where v: "uart_transmit 64 u = Some (n, v)" "n > 0" "ju_base (uart v) = JTAG_UART_BASE" "Iord JTAG_UART_BASE 1 \<in> set (trace v)"
    using transmit_result [of u 64] assms(1,2,4) by (auto simp: u u_def on_uart_logged)
  moreover have "unat (drop_bit 16 ((0x00400200 :: uint) AND WSPACE_MSK)) = 64" by (simp add: WSPACE_MSK_def)
  ultimately obtain x where x: "uart_write_irq 0x00400200 hello_env u = Some x" "ju_base (uart x) = JTAG_UART_BASE" "Iord JTAG_UART_BASE 1 \<in> set (trace x)"
    by (auto simp: uart_write_irq_def mask_irq_def on_uart_logged simp del: One_nat_def)
  then have "altera_avalon_jtag_uart_irq hello_env x = Some (logged x [Iord JTAG_UART_BASE 1])"
    by (subst altera_avalon_jtag_uart_irq.simps) (simp add: hello_env_def del: One_nat_def)
  moreover have "altera_avalon_jtag_uart_irq hello_env w = altera_avalon_jtag_uart_irq hello_env x"
    using assms(2,3) x(1) by (subst altera_avalon_jtag_uart_irq.simps)
      (simp add: hello_env_def u_def RI_MSK_def WI_MSK_def del: One_nat_def)
  ultimately show ?thesis by simp
qed

theorem console_output_in_order_witness:
  "\<exists>u w' evs. altera_avalon_jtag_uart_irq hello_env u = Some w' \<and> console_run world_init [72, 105] w' \<and>
    trace w' = trace world_init @ evs \<and> map ucast (words_to (ju_base (uart world_init)) evs) @ tx_queue (uart w') = [72, 105]"
proof -
  have "room (uart world_init) = 2047" by (simp add: room_def uart_init_ok)
  then obtain u where u: "altera_avalon_jtag_uart_write (\<lambda>_ _. None) [72, 105] 0 hello_env world_init = Some (2, u)"
    "uart_ok (uart u)" "ju_base (uart u) = JTAG_UART_BASE" "tx_queue (uart u) = [72, 105]" "Iord JTAG_UART_BASE 1 \<notin> set (trace u)"
    using write_result [OF uart_init_ok(1), of 0 "[72, 105]" "\<lambda>_ _. None" hello_env]
    by (auto simp: uart_init_ok min_def)
  then obtain w' where w': "altera_avalon_jtag_uart_irq hello_env u = Some w'" using hello_irq [of u] by auto
  have "interrupted (\<lambda>_ _. None)" by (simp add: interrupted_def)
  then have "console_run world_init ([] @ take (nat 2) [72, 105]) u"
    using u(1) by (rule console_run.Write [OF console_run.Start])
  then have "console_run world_init [72, 105] w'" using console_run.Serve w' by simp
  with w' console_output_in_order [OF this uart_init_ok(1)] show ?thesis by (auto simp: uart_init_ok)
qed

end
