(* ===== verification/Firmware.thy ===== *)
theory Firmware
  imports HostFrame FpgaSpec Device Interrupt
begin

unbundle bit_operations_syntax

text \<open>
  \<open>bsp.c\<close> and \<open>main.c\<close>: the service of the five sockets, start-up, and one pass of the main loop. The
  receive buffer has 2048 bytes; received data that does not fit has no defined effect.
\<close>

definition UP_ALARM_REGION_STATUS :: uint where "UP_ALARM_REGION_STATUS = 0xc101"
definition UP_ALARM_IO_VALUE :: uint where "UP_ALARM_IO_VALUE = 0xc102"
definition PROTOCOL_FIFO_IN_FIFO_DEPTH :: uint where "PROTOCOL_FIFO_IN_FIFO_DEPTH = 1024"
definition LASER_FIFO_OUT_FIFO_DEPTH :: uint where "LASER_FIFO_OUT_FIFO_DEPTH = 2048"

subsection \<open>The sockets\<close>

definition serve_client :: "byte \<Rightarrow> env \<Rightarrow> world \<Rightarrow> world option" where
  \<comment> \<open>the case of an established connection\<close>
  "serve_client s h w = do {
     (ir, w) \<leftarrow> getSn_IR s h w;
     w \<leftarrow> (if ir AND Sn_IR_CON \<noteq> 0 then setSn_IR s Sn_IR_CON h w else Some w);
     (len, w) \<leftarrow> getSn_RX_RSR s h w;
     if len > 0
     then do {
       (_, bs, w) \<leftarrow> recv s len h w;
       buf \<leftarrow> blit (rx_buffer w) 0 bs;
       let w = w\<lparr>rx_buffer := buf\<rparr>;
       pc2dev_parse s (rx_buffer w) (int (unat len)) h w }
     else Some w
   }"

definition serve_socket ::
    "byte \<Rightarrow> (world \<Rightarrow> world option) \<Rightarrow> (world \<Rightarrow> world option) \<Rightarrow> env \<Rightarrow> world \<Rightarrow> world option" where
  \<comment> \<open>the switch over the state of a TCP socket; what follows serving a client and what a closed
    socket needs differ\<close>
  "serve_socket s served closed h w = do {
     (status, w) \<leftarrow> getSn_SR s h w;
     if status = SOCK_INIT then do { (_, w) \<leftarrow> listen s h w; Some w }
     else if status = SOCK_ESTABLISHED then do { w \<leftarrow> serve_client s h w; served w }
     else if status = SOCK_CLOSE_WAIT then close_socket s h w
     else if status = SOCK_CLOSED then closed w
     else Some w
   }"

definition reset_network :: "env \<Rightarrow> world \<Rightarrow> world option" where
  \<comment> \<open>the configuration port has been closed after a connection\<close>
  "reset_network h w =
     (if isTcpEstablished w \<noteq> 0
      then do {
        w \<leftarrow> Reset_W5500 w;
        w \<leftarrow> delay_ms 500 w;
        let w = set_default w;
        w \<leftarrow> set_network h w;
        Some (w\<lparr>isTcpEstablished := 0\<rparr>) }
      else Some w)"

definition open_socket :: "byte \<Rightarrow> byte \<Rightarrow> half \<Rightarrow> byte \<Rightarrow> env \<Rightarrow> world \<Rightarrow> world option" where
  "open_socket s protocol port flag h w = do { (_, w) \<leftarrow> socket s protocol port flag h w; Some w }"

definition run_socket0 :: "env \<Rightarrow> world \<Rightarrow> world option" where
  "run_socket0 h = serve_socket SOCKET0 (\<lambda>w. Some (w\<lparr>isTcpEstablished := 1\<rparr>))
     (\<lambda>w. do { w \<leftarrow> open_socket SOCKET0 Sn_MR_TCP 2111 Sn_MR_ND h w; reset_network h w }) h"

definition run_socket1 :: "env \<Rightarrow> world \<Rightarrow> world option" where
  "run_socket1 h = serve_socket SOCKET1 Some
     (\<lambda>w. do { w \<leftarrow> open_socket SOCKET1 Sn_MR_TCP 2111 Sn_MR_ND h w;
       if isTcpEstablished w \<noteq> 0 then Some (w\<lparr>isTcpEstablished := 0\<rparr>) else Some w }) h"

definition run_socket4 :: "env \<Rightarrow> world \<Rightarrow> world option" where
  "run_socket4 h = serve_socket SOCKET4 Some (open_socket SOCKET4 Sn_MR_TCP 2112 Sn_MR_ND h) h"

definition run_socket5 :: "env \<Rightarrow> world \<Rightarrow> world option" where
  "run_socket5 h = serve_socket SOCKET5 Some (open_socket SOCKET5 Sn_MR_TCP 2112 Sn_MR_ND h) h"

definition answer_broadcast :: "half \<Rightarrow> env \<Rightarrow> world \<Rightarrow> world option" where
  \<comment> \<open>a search request: the answer is broadcast, and the current region announced again\<close>
  "answer_broadcast len h w = do {
     buf \<leftarrow> blit (rx_buffer w) 0 (replicate (unat len + 1) 0);
     let w = w\<lparr>rx_buffer := buf\<rparr>;
     (dg, w) \<leftarrow> recvfrom SOCKET7 len h w;
     buf \<leftarrow> blit (rx_buffer w) 0 (dg_data dg);
     let w = w\<lparr>rx_buffer := buf\<rparr>;
     let remote_port = (case dg_port dg of Some p \<Rightarrow> p | None \<Rightarrow> ucast (indet h ''remote_port'' (trace w)));
     (_, w) \<leftarrow> sendto SOCKET7 udp_reponse 1213 [255, 255, 255, 255] remote_port h w;
     Some (w\<lparr>alarm_region := (alarm_region w)\<lparr>change_region_flag := 0x01\<rparr>, isPowerUp := 0x01\<rparr>)
   }"

definition run_socket7 :: "env \<Rightarrow> world \<Rightarrow> world option" where
  "run_socket7 h w = do {
     (status, w) \<leftarrow> getSn_SR SOCKET7 h w;
     if status = SOCK_UDP
     then do {
       w \<leftarrow> delay_ms 10 w;
       (ir, w) \<leftarrow> getSn_IR SOCKET7 h w;
       w \<leftarrow> (if ir AND Sn_IR_RECV \<noteq> 0 then setSn_IR SOCKET7 Sn_IR_RECV h w else Some w);
       (len, w) \<leftarrow> getSn_RX_RSR SOCKET7 h w;
       if len > 0 then answer_broadcast len h w else Some w }
     else if status = SOCK_CLOSED then open_socket SOCKET7 Sn_MR_UDP 30718 0 h w
     else Some w
   }"

definition tim561_run :: "env \<Rightarrow> world \<Rightarrow> world option" where
  "tim561_run h w = do {
     w \<leftarrow> run_socket0 h w;
     w \<leftarrow> run_socket1 h w;
     w \<leftarrow> run_socket4 h w;
     w \<leftarrow> run_socket5 h w;
     run_socket7 h w
   }"

subsection \<open>Start-up\<close>

definition init_avalon_fifo :: "env \<Rightarrow> 'a bus_scheme \<Rightarrow> 'a bus_scheme option" where
  "init_avalon_fifo h w = do {
     (_, w) \<leftarrow> altera_avalon_fifo_init PROTOCOL_FIFO_IN_CSR_BASE 0 2 (PROTOCOL_FIFO_IN_FIFO_DEPTH - 2) h w;
     (_, w) \<leftarrow> altera_avalon_fifo_init LASER_FIFO_IN_CSR_BASE 0 2 (LASER_FIFO_OUT_FIFO_DEPTH - 2) h w;
     (_, w) \<leftarrow> altera_avalon_fifo_init SPIWR_FIFO_IN_CSR_BASE 0 2 120 h w;
     (_, w) \<leftarrow> altera_avalon_fifo_init SPIRD_FIFO_IN_CSR_BASE 0 2 120 h w;
     Some w
   }"

definition load_regions :: "env \<Rightarrow> world \<Rightarrow> world option" where
  \<comment> \<open>the three regions of the selected group\<close>
  "load_regions h w = do {
     (_, w) \<leftarrow> region_read_from_rom (unat (change_region_value (alarm_region w)) * 3) h w;
     (_, w) \<leftarrow> region_read_from_rom (unat (change_region_value (alarm_region w)) * 3 + 1) h w;
     (_, w) \<leftarrow> region_read_from_rom (unat (change_region_value (alarm_region w)) * 3 + 2) h w;
     Some w
   }"

definition start_hardware :: "env \<Rightarrow> world \<Rightarrow> world option" where
  "start_hardware h w = do {
     w \<leftarrow> init_avalon_fifo h w;
     w \<leftarrow> IINCHIP_CSon w;
     w \<leftarrow> Reset_W5500 w;
     w \<leftarrow> IOWR_PIO_DATA POWER_LED_BASE (ucast LED_ON) w;
     w \<leftarrow> IOWR_PIO_DATA STATUS_LED_BASE (ucast LED_OFF) w;
     w \<leftarrow> delay_ms 500 w;
     let w = set_default w;
     set_network h w
   }"

definition select_first :: "byte \<Rightarrow> world \<Rightarrow> world" where
  \<comment> \<open>the switch position at power-up asks for its regions and for an announcement\<close>
  "select_first v w = w\<lparr>alarm_region := (alarm_region w)\<lparr>change_region_value := v, change_region_flag := 0x01\<rparr>,
     isPowerUp := 0x01\<rparr>"

definition load_settings :: "env \<Rightarrow> world \<Rightarrow> world option" where
  "load_settings h w = do {
     w \<leftarrow> load_regions h w;
     w \<leftarrow> read_sys_para h w;
     w \<leftarrow> init_fpga_sys h w;
     w \<leftarrow> timer_initial w;
     watchdog_init w
   }"

definition main_init :: "env \<Rightarrow> world \<Rightarrow> world option" where
  \<comment> \<open>\<open>LaserData\<close>, the array of the ring buffer, is static and starts cleared\<close>
  "main_init h w = do {
     w \<leftarrow> start_hardware h w;
     (v, w) \<leftarrow> rd_switch_io_value h w;
     w \<leftarrow> load_settings h (select_first v w);
     q \<leftarrow> queue_init (LaserDataQueue w) (replicate 2048 0) 2048;
     Some (w\<lparr>LaserDataQueue := q\<rparr>)
   }"

subsection \<open>The main loop\<close>

definition take_word :: "env \<Rightarrow> world \<Rightarrow> (uint \<times> world) option" where
  \<comment> \<open>one word from the FPGA into the ring; a full ring is emptied first\<close>
  "take_word h w = do {
     full \<leftarrow> queue_is_full (LaserDataQueue w);
     let w = (if full then w\<lparr>LaserDataQueue := queue_clear (LaserDataQueue w)\<rparr> else w);
     (recv_data, w) \<leftarrow> read_fpga_data h w;
     (_, q) \<leftarrow> queue_push (LaserDataQueue w) recv_data;
     Some (recv_data, w\<lparr>LaserDataQueue := q\<rparr>)
   }"

partial_function (option) take_words :: "env \<Rightarrow> world \<Rightarrow> world option" where
  \<comment> \<open>until the hardware FIFO is empty or a word ends with the trailer's mark\<close>
  "take_words h w = do {
     (more, w) \<leftarrow> fpga_is_has_data h w;
     if more
     then do {
       (recv_data, w) \<leftarrow> take_word h w;
       if recv_data AND 0xffff = 0xeeee
       then Some (w\<lparr>LaserDataQueue := (LaserDataQueue w)\<lparr>frame_over_flag := 0x01\<rparr>\<rparr>)
       else take_words h w }
     else Some w
   }"

definition parse_frames :: "env \<Rightarrow> world \<Rightarrow> world option" where
  "parse_frames h w =
     (if frame_over_flag (LaserDataQueue w) = 0x01
      then do {
        (_, w) \<leftarrow> fpga2nios_parse h w;
        Some (w\<lparr>LaserDataQueue := (LaserDataQueue w)\<lparr>frame_over_flag := 0x00\<rparr>\<rparr>) }
      else Some w)"

definition c_strlen :: "byte list \<Rightarrow> nat option" where
  \<comment> \<open>without a terminator in the array the length is not defined\<close>
  "c_strlen xs = (let n = length (takeWhile (\<lambda>b. b \<noteq> 0) xs) in if n < length xs then Some n else None)"

definition send_both :: "byte list \<Rightarrow> half \<Rightarrow> env \<Rightarrow> world \<Rightarrow> world option" where
  "send_both buf len h w = do {
     (_, w) \<leftarrow> send SOCKET0 buf len h w;
     (_, w) \<leftarrow> send SOCKET1 buf len h w;
     Some w
   }"

definition region_report :: "world \<Rightarrow> byte list" where
  "region_report w = [0x12, 0x34, byte_of 8 UP_ALARM_REGION_STATUS, byte_of 0 UP_ALARM_REGION_STATUS,
     0, 0, 0, 4, 0, 0, 0, ucast (region_alarm (sys_warn w)), 0xee, 0xee, 0xee, 0xee]"

partial_function (option) send_chunks :: "uint \<Rightarrow> env \<Rightarrow> world \<Rightarrow> world option" where
  "send_chunks offset h w = do {
     w \<leftarrow> IOWR_PIO_DATA W5500_INT_BASE 0x01 w;
     n \<leftarrow> c_strlen (send_buffer w);
     let rest = word_of_nat n - offset;
     if rest \<ge> 1460
     then do {
       w \<leftarrow> send_both (drop (unat offset) (send_buffer w)) 1460 h w;
       send_chunks (offset + 1460) h w }
     else if rest < 1460 \<and> rest > 0
     then do {
       w \<leftarrow> send_both (drop (unat offset) (send_buffer w)) (ucast rest) h w;
       w \<leftarrow> IOWR_PIO_DATA W5500_INT_BASE 0x00 w;
       sb \<leftarrow> blit (send_buffer w) 0 (region_report w);
       let w = w\<lparr>send_buffer := sb\<rparr>;
       send_both (send_buffer w) 16 h w }
     else Some w
   }"

definition send_scan :: "env \<Rightarrow> world \<Rightarrow> world option" where
  "send_scan h w =
     (if pos_finish (CycleData w)
      then do {
        let w = w\<lparr>CycleData := (CycleData w)\<lparr>pos_finish := False\<rparr>\<rparr>;
        w \<leftarrow> sick_pos_packet w;
        send_chunks 0 h w }
      else Some w)"

definition alarm_bits :: "Sys_warn \<Rightarrow> uint" where
  "alarm_bits s = motor_low_speed_alarm s OR ld_not_work_alarm s OR temp_out_alarm s OR window_dust_alarm s"

definition toggle_status :: "led_time_flag_t \<Rightarrow> led_time_flag_t" where
  "toggle_status l = l\<lparr>status_led_value := NOT (status_led_value l) AND 0x01\<rparr>"

definition blink_status ::
    "(led_time_flag_t \<Rightarrow> byte) \<Rightarrow> (led_time_flag_t \<Rightarrow> led_time_flag_t) \<Rightarrow> world \<Rightarrow> world option" where
  \<comment> \<open>the shape of both blinking alarms: a raised flag is cleared and switches the lamp\<close>
  "blink_status flag clear w =
     (if flag (led_time_flag w) \<noteq> 0
      then (let l = toggle_status (clear (led_time_flag w)) in
        led_status_light (status_led_value l) (w\<lparr>led_time_flag := l\<rparr>))
      else Some w)"

definition indicate_alarm :: "env \<Rightarrow> world \<Rightarrow> world option" where
  "indicate_alarm h w = (let s = sys_warn w in
     if motor_low_speed_alarm s OR ld_not_work_alarm s \<noteq> 0
     then do {
       w \<leftarrow> led_status_light LED_ON w;
       w \<leftarrow> set_laser_paramter LASER_FREQ (alarm_bits s) h w;
       set_laser_paramter LASER_ENABLE 0 h w }
     else if window_dust_alarm s \<noteq> 0
     then do {
       w \<leftarrow> blink_status status_led_1s_flag (\<lambda>l. l\<lparr>status_led_1s_flag := 0\<rparr>) w;
       set_laser_paramter LASER_FREQ (alarm_bits s) h w }
     else if temp_out_alarm s \<noteq> 0
     then do {
       w \<leftarrow> blink_status status_led_300ms_flag (\<lambda>l. l\<lparr>status_led_300ms_flag := 0\<rparr>) w;
       set_laser_paramter LASER_FREQ (alarm_bits s) h w }
     else Some w)"

definition announce_region :: "env \<Rightarrow> world \<Rightarrow> world option" where
  \<comment> \<open>the selected group, to both configuration clients\<close>
  "announce_region h w = do {
     let w = w\<lparr>nios2pc := (nios2pc w)\<lparr>n_command := UP_ALARM_IO_VALUE, n_data_len := 4,
       n_value := ucast (change_region_value (alarm_region w))\<rparr>\<rparr>;
     (len, w) \<leftarrow> pc2dev_packet h w;
     send_both (send_buffer w) (word_of_nat len) h w
   }"

definition greet_client :: "env \<Rightarrow> world \<Rightarrow> world option" where
  "greet_client h w =
     (if isTcpEstablished w AND isPowerUp w \<noteq> 0
      then announce_region h (w\<lparr>isPowerUp := 0x00\<rparr>)
      else Some w)"

definition reload_region :: "env \<Rightarrow> world \<Rightarrow> world option" where
  "reload_region h w =
     (if change_region_flag (alarm_region w) = 0x01
      then do {
        let w = w\<lparr>alarm_region := (alarm_region w)\<lparr>change_region_flag := 0x00\<rparr>\<rparr>;
        w \<leftarrow> load_regions h w;
        announce_region h w }
      else Some w)"

definition feed_dog :: "world \<Rightarrow> world option" where
  \<comment> \<open>a host asks for a restart by letting the watchdog expire\<close>
  "feed_dog w = (if reset_nios w \<noteq> ENABLE then watchdog_feed w else Some w)"

definition main_pass :: "env \<Rightarrow> world \<Rightarrow> world option" where
  "main_pass h w = do {
     w \<leftarrow> tim561_run h w;
     w \<leftarrow> take_words h w;
     w \<leftarrow> parse_frames h w;
     w \<leftarrow> send_scan h w;
     w \<leftarrow> indicate_alarm h w;
     w \<leftarrow> note_switch h w;
     w \<leftarrow> greet_client h w;
     w \<leftarrow> reload_region h w;
     feed_dog w
   }"

subsection \<open>The EEPROM endurance test\<close>

partial_function (option) test_loop :: "env \<Rightarrow> world \<Rightarrow> world option" where
  \<comment> \<open>\<open>while(1)\<close>: \<open>time\<close> is 1 in every round; the bytes read back go nowhere\<close>
  "test_loop h w = do {
     w \<leftarrow> eeprom_write_page 4096 (replicate 1622 0x1e) 1622 h w;
     (_, w) \<leftarrow> eeprom_sequential_read 4096 1622 h w;
     w \<leftarrow> delay_us 1000 w;
     test_loop h w
   }"

definition test :: "env \<Rightarrow> world \<Rightarrow> world option" where
  "test h w = do {
     w \<leftarrow> IINCHIP_CSon w;
     w \<leftarrow> Reset_W5500 w;
     w \<leftarrow> delay_ms 500 w;
     w \<leftarrow> IOWR_PIO_DATA W5500_INT_BASE 0x00 w;
     test_loop h w
   }"

lemma test_never_returns: "test h w = None"
proof -
  have "test_loop h w = None" for w
    by (rule ccontr, drule not_None_eq [THEN iffD1], elim exE, erule test_loop.raw_induct [rotated])
      (auto split: bind_splits)
  then show ?thesis by (auto simp: test_def IINCHIP_CSon_def Reset_W5500_def split: bind_splits)
qed

end
