(* ===== verification/FirmwareSpec.thy ===== *)
theory FirmwareSpec
  imports Firmware BootSpec
begin

unbundle bit_operations_syntax

text \<open>
  What holds in every state the running program can reach. \<open>firmware_frame\<close> extends the contract of
  the host commands to the sockets and to start-up, \<open>pass_frame\<close> to the whole main loop and the
  interrupt; the reachable states are the closure of start-up under passes and interrupts.
\<close>

subsection \<open>The contract of a pass\<close>

lemma fifo_setup_total: "\<exists>c w'. altera_avalon_fifo_init a i e f h w = Some (c, w')"
  by (simp add: altera_avalon_fifo_init_def altera_avalon_fifo_clear_event_def altera_avalon_fifo_write_ienable_def
      altera_avalon_fifo_write_almostfull_def altera_avalon_fifo_write_almostempty_def)

locale firmware_frame = host_frame +
  assumes config: "R w (w\<lparr>ConfigMsg := c\<rparr>)"
    and sizes: "length ss = length (SSIZE w) \<Longrightarrow> length rs = length (RSIZE w) \<Longrightarrow> R w (w\<lparr>SSIZE := ss, RSIZE := rs\<rparr>)"
    and received: "length buf = length (rx_buffer w) \<Longrightarrow> R w (w\<lparr>rx_buffer := buf\<rparr>)"
    and flags: "R w (w\<lparr>isTcpEstablished := u\<rparr>)" "R w (w\<lparr>isPowerUp := v\<rparr>)"
    and switch: "x \<le> 15 \<Longrightarrow> R w (w\<lparr>alarm_region := selected x (alarm_region w)\<rparr>)"
    and start_switch: "x \<le> 15 \<Longrightarrow> R w (w\<lparr>alarm_region := (alarm_region w)\<lparr>change_region_value := x, change_region_flag := y\<rparr>\<rparr>)"
begin

lemma keeps_net: "keeps only_net f \<Longrightarrow> keeps R f"
  by (erule keeps_mono) (rule net)

lemma keepsv_net: "keepsv only_net f \<Longrightarrow> keepsv R f"
  by (erule keepsv_mono) (rule net)

lemma keeps_traced: "keeps only_trace f \<Longrightarrow> keeps R f"
  by (erule keeps_mono) (rule only_trace_R)

lemma keepsv_traced: "keepsv only_trace f \<Longrightarrow> keepsv R f"
  by (erule keepsv_mono) (rule only_trace_R)

lemmas hw = keeps_traced [OF keeps_iowr] keeps_traced [OF keeps_delay_ms] keeps_traced [OF keeps_spi(2)]
  keepsv_traced [OF keepsv_fifo_init] keepsv_traced [OF keepsv_fifo(2)] keepsv_traced [OF keepsv_fifo(4)]
  keeps_traced [OF keeps_registers(5)] keeps_traced [OF keeps_registers(6)]
  keeps_traced [OF keeps_registers(10)] keepsv_traced [OF keeps_registers(8)] keepsv_traced [OF keeps_registers(9)]
  keepsv_traced [OF keeps_registers(12)] keeps_traced [OF keeps_command(2)]
  keepsv_traced [OF keepsv_listen] keepsv_traced [OF keepsv_send] keepsv_traced [OF keepsv_sendto]
  keepsv_traced [OF keepsv_recvfrom] keepsv_net [OF keepsv_socket]
  keepsv_traced [OF keeps_addresses(5)] keepsv_traced [OF keeps_addresses(6)] keepsv_traced [OF keeps_addresses(8)]

lemma keeps_update1:
  "keeps R (\<lambda>w. Some (w\<lparr>isTcpEstablished := u\<rparr>))" "keeps R (\<lambda>w. Some (set_default w))"
  by (simp_all add: keeps_def flags set_default_def config Let_def)

lemma sysinit_R: "keeps R (sysinit t r h)"
  unfolding keeps_def
proof (intro allI impI)
  fix w w' :: world
  assume "sysinit t r h w = Some w'"
  then obtain s where run: "for_each [0..<MAX_SOCK_NUM] (sysinit_step t r h) ((0, 0), w) = Some (s, w')"
    by (auto simp: sysinit_def)
  have wr: "IINCHIP_WRITE a v h x = Some y \<Longrightarrow> R x y" for a v x y
    using keepsD [OF keeps_traced [OF keeps_chip(1)]] by blast
  have "(\<lambda>(_, v). R w v) (s, w')"
    using run
  proof (rule for_each_inv)
    fix i a b
    assume "(\<lambda>(_, v). R w v) a" and st: "sysinit_step t r h i a = Some b"
    moreover obtain x y v where a: "a = ((x, y), v)" by (metis prod.collapse)
    moreover obtain z u where b: "b = (z, u)" by (cases b)
    ultimately obtain v1 v2 ss rs where "R w v" "R v v1" "R v1 v2" and "u = v2\<lparr>SSIZE := ss, RSIZE := rs\<rparr>"
      "length ss = length (SSIZE v2)" "length rs = length (RSIZE v2)"
      by (auto simp: Let_def arr_set_eq_Some split: bind_splits dest!: wr)
    moreover from this(5,6) have "R v2 (v2\<lparr>SSIZE := ss, RSIZE := rs\<rparr>)" by (rule sizes)
    ultimately show "(\<lambda>(_, v). R w v) b" by (simp add: b) (blast intro: R_trans)
  qed (simp add: R_refl)
  then show "R w w'" by simp
qed

lemma keeps_set_network: "keeps R (set_network h)"
proof -
  note set = keeps_traced [OF keeps_addresses(1)] keeps_traced [OF keeps_addresses(2)]
    keeps_traced [OF keeps_addresses(3)] keeps_traced [OF keeps_addresses(4)]
  show ?thesis
    unfolding set_network_def
    by (intro keeps_intros hw sysinit_R
        keeps_at [where f = "\<lambda>a. setSHAR a h", OF set(3)] keeps_at [where f = "\<lambda>a. setSUBR a h", OF set(2)]
        keeps_at [where f = "\<lambda>a. setGAR a h", OF set(1)] keeps_at [where f = "\<lambda>a. setSIPR a h", OF set(4)])
qed

lemma keeps_reset: "keeps R Reset_W5500"
  unfolding Reset_W5500_def by (intro keeps_intros hw)

lemma keeps_load_regions: "keeps R (load_regions h)"
  unfolding load_regions_def
  by (intro keeps_intros keepsv_at [where f = "\<lambda>n. region_read_from_rom n h", OF keepsv_region_read])

lemma keeps_set_default: "keeps R f \<Longrightarrow> keeps R (\<lambda>w. f (set_default w))"
  by (rule keeps_upd) (simp add: set_default_def config Let_def)

subsection \<open>The sockets\<close>

lemma serve_client_R: "keeps R (serve_client s h)"
proof -
  define take where "take = (\<lambda>len w. do {
       (_, bs, w) \<leftarrow> recv s len h w;
       buf \<leftarrow> blit (rx_buffer w) 0 bs;
       let w = w\<lparr>rx_buffer := buf\<rparr>;
       pc2dev_parse s (rx_buffer w) (int (unat len)) h w })"
  have "keeps R (take len)" for len
    unfolding keeps_def
  proof (intro allI impI)
    fix w w'
    assume "take len w = Some w'"
    then obtain n bs v buf where v: "recv s len h w = Some (n, bs, v)" and buf: "blit (rx_buffer v) 0 bs = Some buf"
      and p: "pc2dev_parse s buf (int (unat len)) h (v\<lparr>rx_buffer := buf\<rparr>) = Some w'"
      by (auto simp: take_def Let_def split: bind_splits)
    have "R w v" by (rule only_trace_R [OF recv_only_trace [OF v]])
    moreover have "R v (v\<lparr>rx_buffer := buf\<rparr>)" by (rule received [OF blit_length [OF buf]])
    ultimately show "R w w'" using parse_R [OF p] by (blast intro: R_trans)
  qed
  then show ?thesis
    unfolding serve_client_def take_def by (intro keeps_intros hw)
qed

lemma serve_socket_R:
  "keeps R served \<Longrightarrow> keeps R closed \<Longrightarrow> keeps R (serve_socket s served closed h)"
  unfolding serve_socket_def by (intro keeps_intros hw serve_client_R)

lemma keeps_open: "keeps R (open_socket s p port f h)"
  unfolding open_socket_def by (intro keeps_intros hw)

lemma keeps_reset_network: "keeps R (reset_network h)"
  unfolding reset_network_def Let_def
  by (intro keeps_intros keeps_reset hw keeps_set_default keeps_set_network keeps_update1)

lemma answer_broadcast_R: "keeps R (answer_broadcast len h)"
  unfolding keeps_def
proof (intro allI impI)
  fix w w'
  assume "answer_broadcast len h w = Some w'"
  then obtain b0 dg v b1 port n u where b0: "blit (rx_buffer w) 0 (replicate (unat len + 1) 0) = Some b0"
    and rcv: "recvfrom SOCKET7 len h (w\<lparr>rx_buffer := b0\<rparr>) = Some (dg, v)"
    and b1: "blit (rx_buffer v) 0 (dg_data dg) = Some b1"
    and snd: "sendto SOCKET7 udp_reponse 1213 [255, 255, 255, 255] port h (v\<lparr>rx_buffer := b1\<rparr>) = Some (n, u)"
    and w': "w' = u\<lparr>alarm_region := (alarm_region u)\<lparr>change_region_flag := 1\<rparr>, isPowerUp := 1\<rparr>"
    by (auto simp: answer_broadcast_def Let_def split: bind_splits)
  have "R w (w\<lparr>rx_buffer := b0\<rparr>)" "R v (v\<lparr>rx_buffer := b1\<rparr>)"
    by (rule received [OF blit_length [OF b0]], rule received [OF blit_length [OF b1]])
  moreover have "R (w\<lparr>rx_buffer := b0\<rparr>) v" "R (v\<lparr>rx_buffer := b1\<rparr>) u"
    using keepsvD [OF keepsv_traced [OF keepsv_recvfrom] rcv] keepsvD [OF keepsv_traced [OF keepsv_sendto] snd] .
  moreover have "R u (u\<lparr>alarm_region := (alarm_region u)\<lparr>change_region_flag := 1\<rparr>\<rparr>)"
    by (rule region) (simp add: region_kept_def)
  moreover have "R (u\<lparr>alarm_region := (alarm_region u)\<lparr>change_region_flag := 1\<rparr>\<rparr>) w'"
    unfolding w' by (rule flags(2))
  ultimately show "R w w'" by (blast intro: R_trans)
qed

lemma keeps_tim561_run: "keeps R (tim561_run h)"
  unfolding tim561_run_def run_socket0_def run_socket1_def run_socket4_def run_socket5_def run_socket7_def
  by (intro keeps_intros serve_socket_R keeps_open keeps_reset_network keeps_update1 hw answer_broadcast_R)

end

locale pass_frame = firmware_frame +
  assumes parsed: "fpga2nios_parse h w = Some (r, w') \<Longrightarrow> R w w'"
    and ring: "(queue_inv (LaserDataQueue w) \<Longrightarrow> queue_inv q) \<Longrightarrow> R w (w\<lparr>LaserDataQueue := q\<rparr>)"
    and lamps: "(timer_ok (led_time_flag w) \<Longrightarrow> timer_ok l) \<Longrightarrow> R w (w\<lparr>led_time_flag := l\<rparr>)"
    and handed_over: "R w (w\<lparr>CycleData := (CycleData w)\<lparr>pos_finish := False\<rparr>\<rparr>)"
    and telegram: "length sb = 8448 \<Longrightarrow> R w (w\<lparr>send_buffer := sb\<rparr>)"
begin

lemma keepsv_take_word: "keepsv R (take_word h)"
  unfolding keepsv_def
proof (intro allI impI)
  fix w x w'
  assume "take_word h w = Some (x, w')"
  then obtain full v q b u where u: "u = (if full then w\<lparr>LaserDataQueue := queue_clear (LaserDataQueue w)\<rparr> else w)"
    and rd: "read_fpga_data h u = Some (x, v)" and q: "queue_push (LaserDataQueue v) x = Some (b, q)"
    and w': "w' = v\<lparr>LaserDataQueue := q\<rparr>"
    by (auto simp: take_word_def Let_def split: bind_splits)
  have "R w u" unfolding u by (auto simp: R_refl intro: ring queue_clear_inv)
  moreover have "keepsv R (read_fpga_data h)"
    unfolding read_fpga_data_def by (intro keepsv_bind hw keepsv_done)
  then have "R u v" using rd by (rule keepsvD)
  moreover have "R v w'" unfolding w' using q by (intro ring) (rule queue_push_inv)
  ultimately show "R w w'" by (blast intro: R_trans)
qed

lemma keepsv_has_data: "keepsv R (fpga_is_has_data h)"
  unfolding fpga_is_has_data_def by (intro keepsv_bind hw keepsv_done)

lemma frame_flag_R: "R w (w\<lparr>LaserDataQueue := (LaserDataQueue w)\<lparr>frame_over_flag := b\<rparr>\<rparr>)"
  by (rule ring) (simp add: queue_inv_def)

lemma take_words_R: "keeps R (take_words h)"
proof -
  have "R w w'" if "take_words h w = Some w'" for w w'
    by (rule take_words.raw_induct [OF _ that])
      (auto simp: R_refl split: bind_splits if_splits dest!: keepsvD [OF keepsv_has_data] keepsvD [OF keepsv_take_word],
        blast intro: R_trans frame_flag_R, blast intro: R_trans)
  then show ?thesis by (simp add: keeps_def)
qed

lemma keeps_parse_frames: "keeps R (parse_frames h)"
proof -
  have "keepsv R (fpga2nios_parse h)" by (simp add: keepsv_def parsed)
  moreover have "keeps R (\<lambda>w. Some (w\<lparr>LaserDataQueue := (LaserDataQueue w)\<lparr>frame_over_flag := b\<rparr>\<rparr>))" for b
    by (simp add: keeps_def frame_flag_R)
  ultimately show ?thesis unfolding parse_frames_def by (intro keeps_intros)
qed

lemma keeps_send_both: "keeps R (send_both b n h)"
  unfolding send_both_def by (intro keeps_intros hw)

lemma keeps_send_buffer: "keeps R (\<lambda>w. send_both (f (send_buffer w)) n h w)"
  by (rule keeps_at [where f = "\<lambda>b. send_both b n h", OF keeps_send_both])

lemma keeps_report: "keeps R (\<lambda>w. do {
    sb \<leftarrow> blit (send_buffer w) 0 (region_report w);
    let w = w\<lparr>send_buffer := sb\<rparr>;
    send_both (send_buffer w) 16 h w })"
  unfolding keeps_def Let_def
  by (auto split: bind_splits dest!: blit_length keepsD [OF keeps_send_both]) (rule R_trans [OF send_buf])

lemma send_chunks_R: "keeps R (send_chunks off h)"
proof -
  have "(\<lambda>off h w w'. R w w') off h w w'" if run: "send_chunks off h w = Some w'" for w w'
  proof (rule send_chunks.raw_induct [OF _ run])
    fix again :: "uint \<Rightarrow> env \<Rightarrow> world \<Rightarrow> world option" and off :: uint and h :: env and w w' :: world
    assume IH: "\<And>off h w w'. again off h w = Some w' \<Longrightarrow> R w w'"
    have again: "keeps R (again off h)" for off h using IH by (auto simp: keeps_def)
    assume body: "do {
       w \<leftarrow> IOWR_PIO_DATA W5500_INT_BASE 1 w;
       n \<leftarrow> c_strlen (send_buffer w);
       let rest = word_of_nat n - off;
       if rest \<ge> 1460
       then do {
         w \<leftarrow> send_both (drop (unat off) (send_buffer w)) 1460 h w;
         again (off + 1460) h w }
       else if rest < 1460 \<and> rest > 0
       then do {
         w \<leftarrow> send_both (drop (unat off) (send_buffer w)) (ucast rest) h w;
         w \<leftarrow> IOWR_PIO_DATA W5500_INT_BASE 0 w;
         sb \<leftarrow> blit (send_buffer w) 0 (region_report w);
         let w = w\<lparr>send_buffer := sb\<rparr>;
         send_both (send_buffer w) 16 h w }
       else Some w } = Some w'"
    have "keeps R (\<lambda>w. do {
       n \<leftarrow> c_strlen (send_buffer w);
       let rest = word_of_nat n - off;
       if rest \<ge> 1460
       then do {
         w \<leftarrow> send_both (drop (unat off) (send_buffer w)) 1460 h w;
         again (off + 1460) h w }
       else if rest < 1460 \<and> rest > 0
       then do {
         w \<leftarrow> send_both (drop (unat off) (send_buffer w)) (ucast rest) h w;
         w \<leftarrow> IOWR_PIO_DATA W5500_INT_BASE 0 w;
         sb \<leftarrow> blit (send_buffer w) 0 (region_report w);
         let w = w\<lparr>send_buffer := sb\<rparr>;
         send_both (send_buffer w) 16 h w }
       else Some w })"
      unfolding Let_def [of "word_of_nat _ - _"]
      by (intro keeps_pure keeps_if keeps_seq keeps_done keeps_report hw(1) again
          keeps_send_buffer [where f = "drop (unat off)"])
    from keeps_seq [OF hw(1) this] body show "R w w'" by (rule keepsD)
  qed
  then show ?thesis by (simp add: keeps_def)
qed

lemma pos_packet_R: "keeps R sick_pos_packet"
  unfolding keeps_def sick_pos_packet_def Let_def
  by (auto simp: arr_set_eq_Some dest!: blit_length split: bind_splits intro!: telegram)

lemma keeps_send_scan: "keeps R (send_scan h)"
proof -
  show ?thesis
    unfolding send_scan_def Let_def
    by (intro keeps_if keeps_done keeps_upd [where u = "\<lambda>w. w\<lparr>CycleData := (CycleData w)\<lparr>pos_finish := False\<rparr>\<rparr>"]
        handed_over keeps_seq pos_packet_R send_chunks_R)
qed

lemma keeps_blink_status:
  assumes "\<And>l. timer_ok l \<Longrightarrow> timer_ok (clear l)"
  shows "keeps R (blink_status flag clear)"
proof -
  have "timer_ok l \<Longrightarrow> timer_ok (toggle_status l)" for l
    by (simp add: timer_ok_def toggle_status_def)
  then have "R w (w\<lparr>led_time_flag := toggle_status (clear (led_time_flag w))\<rparr>)" for w
    using assms by (intro lamps) blast
  moreover have "R v (logged v e)" for v e by (rule only_trace_R) simp
  ultimately have "R w (logged (w\<lparr>led_time_flag := toggle_status (clear (led_time_flag w))\<rparr>) e)" for w e
    by (blast intro: R_trans)
  then show ?thesis
    by (auto simp: keeps_def blink_status_def led_status_light_def Let_def R_refl)
qed

lemma keeps_indicate_alarm: "keeps R (indicate_alarm h)"
proof -
  have led: "keeps R (led_status_light b)" for b unfolding led_status_light_def by (rule hw)
  have cleared: "timer_ok l \<Longrightarrow> timer_ok (l\<lparr>status_led_1s_flag := 0\<rparr>)"
    "timer_ok l \<Longrightarrow> timer_ok (l\<lparr>status_led_300ms_flag := 0\<rparr>)" for l
    by (simp_all add: timer_ok_def)
  have cases: "keeps R (\<lambda>w. if c w then do { w \<leftarrow> led_status_light LED_ON w; w \<leftarrow> set_laser_paramter LASER_FREQ b h w; set_laser_paramter LASER_ENABLE 0 h w }
     else if d w then do { w \<leftarrow> blink_status status_led_1s_flag (\<lambda>l. l\<lparr>status_led_1s_flag := 0\<rparr>) w; set_laser_paramter LASER_FREQ b h w }
     else if e w then do { w \<leftarrow> blink_status status_led_300ms_flag (\<lambda>l. l\<lparr>status_led_300ms_flag := 0\<rparr>) w; set_laser_paramter LASER_FREQ b h w }
     else Some w)" for b c d e
    by (intro keeps_if keeps_seq keeps_done led keeps_sends keeps_blink_status cleared)
  show ?thesis
    unfolding keeps_def
  proof (intro allI impI)
    fix w w'
    assume "indicate_alarm h w = Some w'"
    then show "R w w'"
      unfolding indicate_alarm_def Let_def
      by (rule keepsD [OF cases [of "\<lambda>w. motor_low_speed_alarm (sys_warn w) OR ld_not_work_alarm (sys_warn w) \<noteq> 0"
        "alarm_bits (sys_warn w)" "\<lambda>w. window_dust_alarm (sys_warn w) \<noteq> 0" "\<lambda>w. temp_out_alarm (sys_warn w) \<noteq> 0"]])
  qed
qed

lemma keeps_note_switch: "keeps R (note_switch h)"
proof -
  have "R w ((logged w e)\<lparr>alarm_region := selected x (alarm_region w)\<rparr>)" if "x \<le> 15" for w e x
  proof -
    have "R (logged w e) ((logged w e)\<lparr>alarm_region := selected x (alarm_region (logged w e))\<rparr>)"
      by (rule switch [OF that])
    moreover have "alarm_region (logged w e) = alarm_region w" by (simp add: logged_def)
    moreover have "R w (logged w e)" by (rule only_trace_R) simp
    ultimately show ?thesis by (metis R_trans)
  qed
  then show ?thesis by (simp add: keeps_def note_switch_eq switch_value_def switch_value_le)
qed

lemma announce_region_R: "keeps R (announce_region h)"
  unfolding keeps_def
proof (intro allI impI)
  fix w w' :: world
  define u where "u = w\<lparr>nios2pc := (nios2pc w)\<lparr>n_command := UP_ALARM_IO_VALUE, n_data_len := 4,
       n_value := ucast (change_region_value (alarm_region w))\<rparr>\<rparr>"
  assume "announce_region h w = Some w'"
  then obtain len v where pk: "pc2dev_packet h u = Some (len, v)"
    and sd: "send_both (send_buffer v) (word_of_nat len) h v = Some w'"
    by (auto simp: announce_region_def u_def Let_def split: bind_splits)
  obtain x sb where "only_trace u x" "length sb = length (send_buffer x)" "v = x\<lparr>send_buffer := sb\<rparr>"
    using pc2dev_packet_frame [OF pk] by blast
  then have "R u x" "R x v" by (simp_all add: only_trace_R send_buf)
  moreover have "R w u" unfolding u_def by (rule to_pc)
  ultimately show "R w w'" using keepsD [OF keeps_send_both sd] by (blast intro: R_trans)
qed

lemma keeps_greet_reload: "keeps R (greet_client h)" "keeps R (reload_region h)"
proof -
  show "keeps R (greet_client h)"
    unfolding greet_client_def
    by (intro keeps_if keeps_done keeps_upd [where u = "\<lambda>w. w\<lparr>isPowerUp := 0\<rparr>"] flags announce_region_R)
  have "R w (w\<lparr>alarm_region := (alarm_region w)\<lparr>change_region_flag := 0\<rparr>\<rparr>)" for w
    by (rule region) (simp add: region_kept_def)
  then show "keeps R (reload_region h)"
    unfolding reload_region_def Let_def
    by (intro keeps_if keeps_done keeps_seq keeps_load_regions announce_region_R
        keeps_upd [where u = "\<lambda>w. w\<lparr>alarm_region := (alarm_region w)\<lparr>change_region_flag := 0\<rparr>\<rparr>"])
qed

lemma keeps_isr: "keeps R (timer_isr_interrupt h)"
proof -
  have led: "R w (w\<lparr>led_time_flag := g (led_time_flag w)\<rparr>)" if "\<And>l. timer_ok l \<Longrightarrow> timer_ok (g l)" for g w
    using that by (intro lamps)
  have lit: "keeps R (led_power_light b)" for b unfolding led_power_light_def by (rule hw)
  have tog: "keeps R (\<lambda>w. led_power_light (power_led_value (g (led_time_flag w))) (w\<lparr>led_time_flag := g (led_time_flag w)\<rparr>))"
    if "\<And>l. timer_ok l \<Longrightarrow> timer_ok (g l)" for g
  proof -
    have "R w (w\<lparr>led_time_flag := g (led_time_flag w)\<rparr>)" for w using that by (rule led)
    then show ?thesis using keepsD [OF lit] unfolding keeps_def by (blast intro: R_trans)
  qed
  have ok: "timer_ok l \<Longrightarrow> timer_ok (toggle_power (l\<lparr>power_led_300ms_flag := 0\<rparr>))"
    "timer_ok l \<Longrightarrow> timer_ok (toggle_power (l\<lparr>power_led_1s_flag := 0\<rparr>))"
    "timer_ok l \<Longrightarrow> timer_ok (toggle_power (l\<lparr>power_led_2s_flag := 0\<rparr>))" for l
    by (simp_all add: timer_ok_def toggle_power_def)
  have blink: "keeps R blink_power"
    unfolding blink_power_def Let_def
    by (intro keeps_if keeps_done lit tog [OF ok(1)] tog [OF ok(2)] tog [OF ok(3)])
  have "keeps R (\<lambda>w. do { w \<leftarrow> note_switch h w; Some (w\<lparr>led_time_flag := (led_time_flag w)\<lparr>cnt_30ms := 0\<rparr>\<rparr>) })"
  proof (intro keeps_seq keeps_note_switch)
    have "R w (w\<lparr>led_time_flag := (led_time_flag w)\<lparr>cnt_30ms := 0\<rparr>\<rparr>)" for w
      by (rule led) (simp add: timer_ok_def)
    then show "keeps R (\<lambda>w. Some (w\<lparr>led_time_flag := (led_time_flag w)\<lparr>cnt_30ms := 0\<rparr>\<rparr>))"
      by (simp add: keeps_def)
  qed
  moreover have "R w (w\<lparr>led_time_flag := (led_time_flag w)\<lparr>cnt_30ms := cnt_30ms (led_time_flag w) + 1\<rparr>\<rparr>)"
    if "cnt_30ms (led_time_flag w) \<noteq> 3" for w
    using that by (intro lamps) (simp add: timer_ok_def below_limit)
  ultimately have sample: "keeps R (sample_switch h)"
    unfolding keeps_def sample_switch_def by simp
  show ?thesis
    unfolding timer_isr_interrupt_def Let_def
    by (intro keeps_seq hw(1) keeps_upd [where u = "\<lambda>w. w\<lparr>led_time_flag := tick_counters (led_time_flag w)\<rparr>"]
        led tick_counters_ok sample blink)
qed

lemma keeps_main_pass: "keeps R (main_pass h)"
  unfolding main_pass_def feed_dog_def watchdog_feed_def
  by (intro keeps_intros keeps_tim561_run take_words_R keeps_parse_frames keeps_send_scan keeps_indicate_alarm
      keeps_note_switch keeps_greet_reload hw)

end

subsection \<open>Start-up\<close>

definition body_ok :: "world \<Rightarrow> bool" where
  \<comment> \<open>what holds even before the ring buffer has been set up\<close>
  "body_ok w \<longleftrightarrow> world_wf w \<and> region_alarm (sys_warn w) \<le> 7 \<and>
     motor_low_speed_alarm (sys_warn w) \<le> 1 \<and> ld_not_work_alarm (sys_warn w) \<le> 1 \<and>
     window_dust_alarm (sys_warn w) \<le> 1 \<and> temp_out_alarm (sys_warn w) \<le> 1 \<and> warn_len (sys_warn w) \<le> 5 \<and>
     timer_ok (led_time_flag w) \<and> switch_ok (alarm_region w)"

definition firmware_ok :: "world \<Rightarrow> bool" where
  "firmware_ok w \<longleftrightarrow> fpga_ok w \<and> timer_ok (led_time_flag w) \<and> switch_ok (alarm_region w)"

lemma firmware_ok_iff: "firmware_ok w \<longleftrightarrow> body_ok w \<and> queue_inv (LaserDataQueue w)"
  by (auto simp: firmware_ok_def body_ok_def fpga_ok_def)

definition booting :: "world \<Rightarrow> world \<Rightarrow> bool" where
  "booting w w' \<longleftrightarrow> hal w' = hal w \<and> (body_ok w \<longrightarrow> body_ok w')"

definition sound :: "world \<Rightarrow> world \<Rightarrow> bool" where
  "sound w w' \<longleftrightarrow> (firmware_ok w \<longrightarrow> firmware_ok w' \<and> hal w' = hal w \<and> (params_ok (SysPara w) \<longrightarrow> params_ok (SysPara w')))"

lemma body_ok_net: "only_net w w' \<Longrightarrow> body_ok w' = body_ok w"
  by (auto simp: only_net_def body_ok_def world_wf_def)

lemma body_ok_updates:
  "body_ok (w\<lparr>nios2pc := n\<rparr>) = body_ok w" "body_ok (w\<lparr>Nios2FPGA_pck := c\<rparr>) = body_ok w"
  "body_ok (w\<lparr>sMI_3E_flag := b\<rparr>) = body_ok w" "body_ok (w\<lparr>reset_nios := u\<rparr>) = body_ok w"
  "body_ok (w\<lparr>pc2nios := p\<rparr>) = body_ok w" "body_ok (w\<lparr>ConfigMsg := cm\<rparr>) = body_ok w"
  "body_ok (w\<lparr>isTcpEstablished := t\<rparr>) = body_ok w" "body_ok (w\<lparr>isPowerUp := t\<rparr>) = body_ok w"
  "body_ok (w\<lparr>LaserDataQueue := q\<rparr>) = body_ok w" "body_ok (w\<lparr>alt_flash_dev_list := ds\<rparr>) = body_ok w"
  "body_ok (w\<lparr>hal := s\<rparr>) = body_ok w"
  "body_ok (w\<lparr>CycleData := (CycleData w)\<lparr>pos_finish := pf\<rparr>\<rparr>) = body_ok w"
  by (simp_all add: body_ok_def world_wf_def)

lemma body_ok_arrays:
  "length sb = length (send_buffer w) \<Longrightarrow> body_ok (w\<lparr>send_buffer := sb\<rparr>) = body_ok w"
  "length sb = 8448 \<Longrightarrow> body_ok w \<Longrightarrow> body_ok (w\<lparr>send_buffer := sb\<rparr>)"
  "length rb = length (rx_buffer w) \<Longrightarrow> body_ok (w\<lparr>rx_buffer := rb\<rparr>) = body_ok w"
  "length ss = length (SSIZE w) \<Longrightarrow> length rs = length (RSIZE w) \<Longrightarrow> body_ok (w\<lparr>SSIZE := ss, RSIZE := rs\<rparr>) = body_ok w"
  "length (image_data i) = 256 \<Longrightarrow> body_ok w \<Longrightarrow> body_ok (w\<lparr>image := i\<rparr>)"
  "image_data i = image_data (image w) \<Longrightarrow> body_ok (w\<lparr>image := i\<rparr>) = body_ok w"
  by (simp_all add: body_ok_def world_wf_def)

lemma body_ok_members:
  "region_kept (alarm_region w) r \<Longrightarrow> body_ok (w\<lparr>alarm_region := r\<rparr>) = body_ok w"
  "legal_change (SysPara w) s \<Longrightarrow> body_ok w \<Longrightarrow> body_ok (w\<lparr>SysPara := s\<rparr>)"
  "x \<le> 15 \<Longrightarrow> body_ok w \<Longrightarrow> body_ok (w\<lparr>alarm_region := selected x (alarm_region w)\<rparr>)"
  "x \<le> 15 \<Longrightarrow> body_ok w \<Longrightarrow> body_ok (w\<lparr>alarm_region := (alarm_region w)\<lparr>change_region_value := x, change_region_flag := y\<rparr>\<rparr>)"
  "timer_ok l \<Longrightarrow> body_ok w \<Longrightarrow> body_ok (w\<lparr>led_time_flag := l\<rparr>)"
proof -
  show "region_kept (alarm_region w) r \<Longrightarrow> body_ok (w\<lparr>alarm_region := r\<rparr>) = body_ok w"
    by (simp add: body_ok_def world_wf_def region_kept_def switch_ok_def)
  show "legal_change (SysPara w) s \<Longrightarrow> body_ok w \<Longrightarrow> body_ok (w\<lparr>SysPara := s\<rparr>)"
    by (simp add: body_ok_def world_wf_def legal_change_def)
  have "length (region_buffer (selected x r)) = length (region_buffer r)" "length (zenith_save (selected x r)) = length (zenith_save r)" for r
    by (simp_all add: selected_def Let_def)
  then show "x \<le> 15 \<Longrightarrow> body_ok w \<Longrightarrow> body_ok (w\<lparr>alarm_region := selected x (alarm_region w)\<rparr>)"
    by (simp add: body_ok_def world_wf_def selected_ok)
  show "x \<le> 15 \<Longrightarrow> body_ok w \<Longrightarrow> body_ok (w\<lparr>alarm_region := (alarm_region w)\<lparr>change_region_value := x, change_region_flag := y\<rparr>\<rparr>)"
    by (simp add: body_ok_def world_wf_def switch_ok_def)
  show "timer_ok l \<Longrightarrow> body_ok w \<Longrightarrow> body_ok (w\<lparr>led_time_flag := l\<rparr>)"
    by (simp add: body_ok_def world_wf_def)
qed

lemmas body_ok_simps = body_ok_updates body_ok_arrays(1,3,4) body_ok_members(1)
lemmas body_ok_intros = body_ok_arrays(2,5) body_ok_members(2-5)

lemma body_ok_picture: "length (image_data i) = 256 \<or> image_data i = image_data (image w) \<Longrightarrow> body_ok w \<Longrightarrow> body_ok (w\<lparr>image := i\<rparr>)"
  using body_ok_arrays(5,6) by blast

lemma params_ok_net: "only_net w w' \<Longrightarrow> SysPara w' = SysPara w \<and> LaserDataQueue w' = LaserDataQueue w \<and> hal w' = hal w"
  by (auto simp: only_net_def)

interpretation boot: firmware_frame booting
  by unfold_locales (simp_all add: booting_def body_ok_net params_ok_net body_ok_simps body_ok_picture body_ok_intros)

interpretation run: pass_frame sound
proof unfold_locales
  fix w w' :: world and h r
  assume "fpga2nios_parse h w = Some (r, w')"
  then show "sound w w'"
    using fpga_parse_ok by (auto simp: sound_def firmware_ok_def aside_def)
next
  fix w :: world and l
  assume "timer_ok (led_time_flag w) \<Longrightarrow> timer_ok l"
  moreover have "body_ok w \<Longrightarrow> timer_ok (led_time_flag w)" by (simp add: body_ok_def)
  ultimately show "sound w (w\<lparr>led_time_flag := l\<rparr>)"
    by (simp add: sound_def firmware_ok_iff body_ok_intros)
qed (simp_all add: sound_def firmware_ok_iff body_ok_net params_ok_net body_ok_simps body_ok_picture body_ok_intros legal_change_def,
    blast intro: params_guarded_ok)

lemma sequential_read_length:
  assumes "eeprom_sequential_read addr len h w = Some (bs, w')" and "addr \<le> AT24C1024_MAX_ADDR"
  shows "length bs = unat len"
proof -
  have "eeprom_get n h w = Some (bs, w') \<Longrightarrow> length bs = n" for n and w w' :: "'a bus_scheme" and bs
    by (induction n arbitrary: w bs) (auto split: bind_splits)
  moreover have "\<not> addr > AT24C1024_MAX_ADDR" using assms(2) by simp
  ultimately show ?thesis using assms(1) by (auto simp: eeprom_sequential_read_def split: bind_splits)
qed

lemma read_para_booting: "keeps booting (read_sys_para_loop n h)"
proof (induction n)
  case 0
  show ?case by (simp add: keeps_def booting_def)
next
  case (Suc n)
  show ?case
    unfolding keeps_def
  proof (intro allI impI)
    fix w w'
    assume "read_sys_para_loop (Suc n) h w = Some w'"
    then obtain buf v where rd: "eeprom_sequential_read SYS_PARA_ADDR (word_of_nat SYS_PARA_SIZE) h w = Some (buf, v)"
      and rest: "w' = v\<lparr>SysPara := restore_para buf h (v\<lparr>SysPara := (SysPara v)\<lparr>dust_threshold := 400\<rparr>\<rparr>)\<rparr> \<or>
        read_sys_para_loop n h (v\<lparr>SysPara := (SysPara v)\<lparr>dust_threshold := 400\<rparr>\<rparr>) = Some w'"
      by (auto simp: Let_def split: bind_splits if_splits)
    have "length buf = 308"
      using sequential_read_length [OF rd] by (simp add: SYS_PARA_ADDR_def AT24C1024_MAX_ADDR_def SYS_PARA_SIZE_def)
    then have "sys_para_wf (restore_para buf h u)" for u :: world
      by (simp add: restore_para_def sys_para_of_bytes_def sys_para_wf_def bytes_at_def FPGA_VERSION_def DEV_PN_NUM_def)
    then have full: "booting v (v\<lparr>SysPara := restore_para buf h u\<rparr>)" for u :: world
      by (simp add: booting_def body_ok_def world_wf_def)
    have set: "booting v (v\<lparr>SysPara := (SysPara v)\<lparr>dust_threshold := 400\<rparr>\<rparr>)"
      by (simp add: booting_def body_ok_def world_wf_def sys_para_wf_def)
    have "booting w v" by (rule keepsvD [OF boot.keepsv_traced [OF keepsv_eeprom_sequential_read] rd])
    moreover from rest have "booting v w'"
    proof
      assume "w' = v\<lparr>SysPara := restore_para buf h (v\<lparr>SysPara := (SysPara v)\<lparr>dust_threshold := 400\<rparr>\<rparr>)\<rparr>"
      then show ?thesis by (simp only: full)
    next
      assume "read_sys_para_loop n h (v\<lparr>SysPara := (SysPara v)\<lparr>dust_threshold := 400\<rparr>\<rparr>) = Some w'"
      then show ?thesis by (rule boot.R_trans [OF set keepsD [OF Suc.IH]])
    qed
    ultimately show "booting w w'" by (rule boot.R_trans)
  qed
qed

lemma start_hardware_booting: "keeps booting (start_hardware h)"
  unfolding start_hardware_def init_avalon_fifo_def Let_def
  by (intro boot.keeps_intros boot.hw boot.keeps_reset boot.keeps_set_default boot.keeps_set_network)

lemma select_first_booting: "v \<le> 15 \<Longrightarrow> booting w (select_first v w)"
  unfolding select_first_def by (rule boot.R_trans [OF boot.start_switch boot.flags(2)])

lemma init_fpga_booting: "keeps booting (init_fpga_sys h)"
proof -
  have "keeps booting (\<lambda>w. set_laser_paramter c (field (SysPara w)) h w)" for c field
    by (rule keeps_at [where f = "\<lambda>d. set_laser_paramter c d h", OF boot.keeps_sends(4)])
  then have tab: "keeps booting (for_each init_table (\<lambda>(c, field) w. set_laser_paramter c (field (SysPara w)) h w))"
    by (intro boot.keeps_for) (simp add: case_prod_beta)
  have word: "keeps booting (put_word d h)" for d
    by (rule boot.keeps_traced [OF keeps_put_word])
  have "keeps booting (write_laser_presdo a h)" for a
    unfolding write_laser_presdo_def by (intro boot.keeps_seq boot.keeps_for boot.keeps_pure word)
  then have "keeps booting (\<lambda>w. write_laser_presdo (laser_presdo (SysPara w) @ [xxx1 (SysPara w), xxx2 (SysPara w)]) h w)"
    by (rule keeps_at [where f = "\<lambda>a. write_laser_presdo a h"])
  with tab show ?thesis
    unfolding init_fpga_sys_def by (rule boot.keeps_seq)
qed

definition settings :: "env \<Rightarrow> world \<Rightarrow> world option" where
  \<comment> \<open>what is loaded before the periodic interrupt is started\<close>
  "settings h w = do { w \<leftarrow> load_regions h w; w \<leftarrow> read_sys_para h w; init_fpga_sys h w }"

lemma settings_booting: "keeps booting (settings h)"
  unfolding settings_def read_sys_para_def
  by (intro boot.keeps_seq boot.keeps_load_regions read_para_booting init_fpga_booting)

lemma timer_initial_result:
  assumes "wired f (hal w)"
  shows "\<exists>evs. timer_initial w = Some ((logged w evs)\<lparr>hal := (hal w)\<lparr>alt_irq := (alt_irq (hal w))[2 := Some Timer_isr_interrupt]\<rparr>\<rparr>)"
proof -
  define s where "s = (hal w)\<lparr>alt_irq := (alt_irq (hal w))[2 := Some Timer_isr_interrupt]\<rparr>"
  have "length (alt_irq (hal w)) = 32" "alt_irq_active (hal w) OR 4 = alt_irq_active s"
    "alt_irq_active s = nios2_ienable s" using assms by (simp_all add: wired_def s_def)
  moreover from this have "s\<lparr>alt_irq_active := alt_irq_active s, nios2_ienable := alt_irq_active s\<rparr> = s" by simp
  ultimately have "alt_ic_isr_register 0 LED_TIMER_IRQ (Some Timer_isr_interrupt) (hal w) = Some (0, s)"
    by (simp add: isr_register_result LED_TIMER_IRQ_def s_def)
  then have "timer_initial w = Some ((logged w [Iowr LED_TIMER_BASE 3 15, Iowr LED_TIMER_BASE 2 16960, Iowr LED_TIMER_BASE 1 7])\<lparr>hal := s\<rparr>)"
    by (simp add: timer_initial_def hal_do_def logged_def del: One_nat_def)
  then show ?thesis unfolding s_def by blast
qed

lemma load_settings_result:
  assumes "settings h w = Some v" and "wired f (hal w)"
  shows "\<exists>evs. load_settings h w =
    Some ((logged v evs)\<lparr>hal := (hal w)\<lparr>alt_irq := (alt_irq (hal w))[2 := Some Timer_isr_interrupt]\<rparr>\<rparr>)"
proof -
  have "hal v = hal w" using keepsD [OF settings_booting assms(1)] by (simp add: booting_def)
  moreover from this obtain evs where "timer_initial v =
    Some ((logged v evs)\<lparr>hal := (hal v)\<lparr>alt_irq := (alt_irq (hal v))[2 := Some Timer_isr_interrupt]\<rparr>\<rparr>)"
    using timer_initial_result [of f v] assms(2) by auto
  ultimately have "load_settings h w = Some ((logged v (evs @ [Iowr WATCHDOG_BASE 1 4]))\<lparr>hal := (hal w)\<lparr>alt_irq := (alt_irq (hal w))[2 := Some Timer_isr_interrupt]\<rparr>\<rparr>)"
    using assms(1) by (auto simp: settings_def load_settings_def watchdog_init_def logged_def simp del: One_nat_def split: bind_splits)
  then show ?thesis by blast
qed

definition clock_up :: "world \<Rightarrow> bool" where
  \<comment> \<open>between the start of the board support package and that of the program\<close>
  "clock_up w \<longleftrightarrow> body_ok w \<and> wired Alt_avalon_timer_sc_irq (hal w)"

definition running :: "world \<Rightarrow> bool" where
  "running w \<longleftrightarrow> firmware_ok w \<and> wired Timer_isr_interrupt (hal w)"

lemma main_init_ok:
  assumes "main_init h w = Some w'" and "clock_up w"
  shows "running w' \<and> nios2_status (hal w') = nios2_status (hal w) \<and> clockwork (hal w') = clockwork (hal w) \<and> uart w' = uart w"
proof -
  obtain a x b c q where a: "start_hardware h w = Some a"
    and sw: "rd_switch_io_value h a = Some (x, b)"
    and c: "load_settings h (select_first x b) = Some c"
    and q: "queue_init (LaserDataQueue c) (replicate 2048 0) 2048 = Some q"
    and w': "w' = c\<lparr>LaserDataQueue := q\<rparr>"
    using assms(1) unfolding main_init_def by (auto split: bind_splits)
  have "x \<le> 15" "booting a b"
    using sw by (auto simp: rd_switch_io_value_def switch_value_le Let_def intro!: boot.only_trace_R)
  then have up: "booting w (select_first x b)"
    using keepsD [OF start_hardware_booting a] select_first_booting by (blast intro: boot.R_trans)
  then have wired: "wired Alt_avalon_timer_sc_irq (hal (select_first x b))" and hal: "hal (select_first x b) = hal w"
    using assms(2) by (simp_all add: booting_def clock_up_def)
  obtain v where v: "settings h (select_first x b) = Some v"
    using c unfolding load_settings_def settings_def by (auto split: bind_splits)
  then obtain evs where c': "c = (logged v evs)\<lparr>hal := (hal w)\<lparr>alt_irq := (alt_irq (hal w))[2 := Some Timer_isr_interrupt]\<rparr>\<rparr>"
    using load_settings_result [OF v wired] c hal by auto
  have "booting w v" by (rule boot.R_trans [OF up keepsD [OF settings_booting v]])
  then have "body_ok v" using assms(2) by (simp add: booting_def clock_up_def)
  then have "body_ok c" using boot.only_trace_R [of v "logged v evs"] by (simp add: c' booting_def body_ok_updates)
  moreover have "queue_inv q"
    using queue_init_result [of "replicate 2048 0" 2048 "LaserDataQueue c"] q by auto
  ultimately have "firmware_ok w'" by (simp add: firmware_ok_iff w' body_ok_updates)
  then show ?thesis using assms(2) by (simp add: running_def clock_up_def w' c' wired_def clockwork_def)
qed

subsection \<open>Interrupts\<close>

lemma firmware_ok_hal: "firmware_ok (w\<lparr>hal := s\<rparr>) = firmware_ok w"
  by (simp add: firmware_ok_iff body_ok_updates)

lemma only_hal_ok:
  assumes "only_hal w w'"
  shows "body_ok w' = body_ok w" "firmware_ok w' = firmware_ok w"
proof -
  obtain evs s where w': "w' = (logged w evs)\<lparr>hal := s\<rparr>" using assms by (auto simp: only_hal_def logged_def)
  show "body_ok w' = body_ok w" unfolding w' by (simp add: body_ok_updates body_ok_def world_wf_def logged_def)
  then show "firmware_ok w' = firmware_ok w" by (simp add: firmware_ok_iff w' logged_def)
qed

lemma wired_wiring: "wiring s = wiring t \<Longrightarrow> wired f s = wired f t"
  by (simp add: wiring_def wired_def)

lemma in_table: "arr_get xs i = Some x \<Longrightarrow> x \<in> set xs"
  by (auto simp: arr_get_def in_set_conv_nth split: if_splits)

interpretation early: dispatched clock_up h for h
proof
  fix w i f w'
  assume up: "clock_up w" and "arr_get (alt_irq (hal w)) i = Some (Some f)" and run: "call_isr f h w = Some w'"
  then have "Some f \<in> set (alt_irq (hal w))" by (simp add: in_table)
  then have "f = Alt_avalon_timer_sc_irq \<or> f = Altera_avalon_jtag_uart_irq"
    using wired_handlers up unfolding clock_up_def by blast
  then have "serves w w'"
    using run keepsD [OF clock_irq_serves] keepsD [OF uart_irq_tends]
    by (elim disjE) (simp_all add: call_isr_def tends_def)
  then have "only_hal w w'" and "wiring (hal w') = wiring (hal w)" by (simp_all add: serves_def)
  then show "clock_up w'"
    using up wired_wiring only_hal_ok(1) unfolding clock_up_def by blast
qed (simp add: clock_up_def body_ok_updates wired_def)

lemma running_isr:
  assumes "running w" and "Some f \<in> set (alt_irq (hal w))" and "call_isr f h w = Some w'"
  shows "running w' \<and> clockwork (hal w') = clockwork (hal w)"
proof -
  have ok: "firmware_ok w" "wired Timer_isr_interrupt (hal w)" using assms(1) by (simp_all add: running_def)
  consider "f = Timer_isr_interrupt" | "f = Altera_avalon_jtag_uart_irq" using wired_handlers [OF ok(2) assms(2)] by blast
  then show ?thesis
  proof cases
    case 1
    then have "sound w w'" using assms(3) keepsD [OF run.keeps_isr] by (simp add: call_isr_def)
    then show ?thesis using ok by (simp add: sound_def running_def)
  next
    case 2
    then have "tends w w'" using assms(3) keepsD [OF uart_irq_tends] by (simp add: call_isr_def)
    then have "only_hal w w'" "wiring (hal w') = wiring (hal w)" and "clockwork (hal w') = clockwork (hal w)"
      by (simp_all add: tends_def serves_def)
    then show ?thesis using ok wired_wiring only_hal_ok(2) unfolding running_def by blast
  qed
qed

interpretation late: dispatched "\<lambda>w. running w \<and> clockwork (hal w) = c" h for c h
proof
  fix w i f w'
  assume "running w \<and> clockwork (hal w) = c" "arr_get (alt_irq (hal w)) i = Some (Some f)" "call_isr f h w = Some w'"
  then show "running w' \<and> clockwork (hal w') = c" using running_isr in_table by metis
qed (simp add: running_def firmware_ok_hal wired_def clockwork_def)

lemma pass_running:
  assumes "main_pass h w = Some w'" and "running w"
  shows "running w' \<and> hal w' = hal w"
  using keepsD [OF run.keeps_main_pass assms(1)] assms(2) by (simp add: sound_def running_def)

lemma interrupt_status:
  assumes "interrupt h w = Some w'"
  shows "nios2_status (hal w') = nios2_status (hal w)"
  using assms unfolding interrupt_def alt_irq_disable_all_def
  by (auto simp: alt_irq_enable_all_def split: bind_splits if_splits)

subsection \<open>Reachable states\<close>

inductive started :: "world \<Rightarrow> bool" where
  \<comment> \<open>before \<open>main\<close> takes over the line of the clock\<close>
  Power: "alt_main h world_init = Some w \<Longrightarrow> started w"
| Clock: "started w \<Longrightarrow> interrupt h w = Some w' \<Longrightarrow> started w'"

inductive reachable :: "world \<Rightarrow> bool" where
  Boot: "started v \<Longrightarrow> main_init h v = Some w \<Longrightarrow> reachable w"
| Pass: "reachable w \<Longrightarrow> main_pass h w = Some w' \<Longrightarrow> reachable w'"
| Tick: "reachable w \<Longrightarrow> interrupt h w = Some w' \<Longrightarrow> reachable w'"

lemma world_init_body: "body_ok world_init"
  using world_init_wf
  by (simp add: body_ok_def timer_ok_def switch_ok_def world_init_def warn_init_def led_init_def region_init_def)

lemma wired_booted: "wired Alt_avalon_timer_sc_irq hal_booted"
  by (simp add: wired_def hal_booted_def)

lemma clock_world_body: "body_ok (clock_world w) = body_ok w"
  by (simp add: clock_world_def body_ok_updates logged_def) (simp add: body_ok_def world_wf_def)

lemma main_body:
  assumes "alt_main h w = Some v" and "body_ok w" and "hal w = hal_init"
  shows "clock_up v \<and> hal v = hal_booted"
proof -
  obtain r u where u: "alt_epcs_flash_init epcs_flash h (clock_world w) = Some (r, u)"
    and v: "v = (logged u [Iowr JTAG_UART_BASE 1 1])\<lparr>hal := hal_booted\<rparr>"
    using assms(1) boot_result [OF assms(3)] by (auto simp del: One_nat_def split: bind_splits)
  obtain x ds where "only_net (clock_world w) x" "u = x\<lparr>alt_flash_dev_list := ds\<rparr>" using flash_init_frame [OF u] by blast
  then have "body_ok u" using assms(2) by (simp add: body_ok_net body_ok_updates clock_world_body)
  then have "body_ok v"
    using boot.only_trace_R [of u "logged u [Iowr JTAG_UART_BASE 1 1]"] by (simp add: v booting_def body_ok_updates)
  then show ?thesis by (simp add: clock_up_def v wired_booted)
qed

lemma started_up: "started w \<Longrightarrow> clock_up w \<and> nios2_status (hal w) = 1"
proof (induction rule: started.induct)
  case (Power h w)
  have "hal world_init = hal_init" by (simp add: world_init_def)
  then show ?case using main_body [OF Power world_init_body] by (simp add: hal_booted_def)
next
  case (Clock w h w')
  then show ?case using early.interrupt_keeps interrupt_status by metis
qed

lemma reachable_running: "reachable w \<Longrightarrow> running w \<and> nios2_status (hal w) = 1"
proof (induction rule: reachable.induct)
  case (Boot v h w)
  then show ?case using main_init_ok started_up by metis
next
  case (Pass w h w')
  then show ?case using pass_running by metis
next
  case (Tick w h w')
  then show ?case using late.interrupt_keeps [of h w w'] interrupt_status by metis
qed

lemma reachable_ok: "reachable w \<Longrightarrow> firmware_ok w"
  using reachable_running by (simp add: running_def)

subsection \<open>Start-up comes to an end\<close>

definition devices_ready :: "env \<Rightarrow> bool" where
  \<comment> \<open>the FIFOs take every word, and the receive FIFO of the network chip's bridge is one\<close>
  "devices_ready h \<longleftrightarrow> never_full h SPIWR_FIFO_IN_CSR_BASE \<and> never_full h PROTOCOL_FIFO_IN_CSR_BASE \<and>
     (\<exists>due. spi_bridge h due)"

lemma init_fifo_total: "\<exists>w'. init_avalon_fifo h w = Some w'"
proof -
  obtain a w1 where "altera_avalon_fifo_init PROTOCOL_FIFO_IN_CSR_BASE 0 2 (PROTOCOL_FIFO_IN_FIFO_DEPTH - 2) h w = Some (a, w1)"
    using fifo_setup_total by blast
  moreover obtain b w2 where "altera_avalon_fifo_init LASER_FIFO_IN_CSR_BASE 0 2 (LASER_FIFO_OUT_FIFO_DEPTH - 2) h w1 = Some (b, w2)"
    using fifo_setup_total by blast
  moreover obtain c w3 where "altera_avalon_fifo_init SPIWR_FIFO_IN_CSR_BASE 0 2 120 h w2 = Some (c, w3)"
    using fifo_setup_total by blast
  moreover obtain d w4 where "altera_avalon_fifo_init SPIRD_FIFO_IN_CSR_BASE 0 2 120 h w3 = Some (d, w4)"
    using fifo_setup_total by blast
  ultimately show ?thesis by (simp add: init_avalon_fifo_def)
qed

lemma start_hardware_total:
  assumes "devices_ready h" and "body_ok w"
  shows "\<exists>w'. start_hardware h w = Some w'"
proof -
  obtain a where a: "init_avalon_fifo h w = Some a" using init_fifo_total by blast
  define pre where "pre = (\<lambda>w :: world. do {
     w \<leftarrow> init_avalon_fifo h w;
     w \<leftarrow> IINCHIP_CSon w;
     w \<leftarrow> Reset_W5500 w;
     w \<leftarrow> IOWR_PIO_DATA POWER_LED_BASE (ucast LED_ON) w;
     w \<leftarrow> IOWR_PIO_DATA STATUS_LED_BASE (ucast LED_OFF) w;
     delay_ms 500 w })"
  obtain b where b: "pre w = Some b"
    using a by (simp add: pre_def IINCHIP_CSon_def Reset_W5500_def)
  have "keeps booting pre"
    unfolding pre_def init_avalon_fifo_def by (intro boot.keeps_intros boot.hw boot.keeps_reset)
  then have "body_ok b" using b assms(2) by (auto simp: keeps_def booting_def)
  then have "length (SSIZE (set_default b)) = 8" "length (RSIZE (set_default b)) = 8"
    by (simp_all add: body_ok_def world_wf_def set_default_def Let_def)
  moreover have "length (cfg_mac (ConfigMsg (set_default b))) = 6" "length (cfg_sub (ConfigMsg (set_default b))) = 4"
    "length (cfg_gw (ConfigMsg (set_default b))) = 4" "length (cfg_lip (ConfigMsg (set_default b))) = 4"
    by (simp_all add: set_default_def Let_def)
  moreover obtain due where "never_full h SPIWR_FIFO_IN_CSR_BASE" "spi_bridge h due"
    using assms(1) by (auto simp: devices_ready_def)
  ultimately obtain c where "set_network h (set_default b) = Some c"
    using set_network_result by blast
  then show ?thesis
    using b unfolding start_hardware_def pre_def Let_def by (auto split: bind_splits)
qed

lemma region_read_total:
  assumes "body_ok w"
  shows "\<exists>x w'. region_read_from_rom num h w = Some (x, w') \<and> body_ok w'"
proof -
  have "length (region_buffer (alarm_region w)) = 811"
    using assms by (simp add: body_ok_def world_wf_def TARGET_NUMBER_def)
  then obtain w' where r: "region_read_from_rom num h w = Some (True, w')" using region_read_returns by blast
  then have "body_ok w'"
    using assms keepsvD [OF boot.keepsv_region_read r] by (simp add: booting_def)
  with r show ?thesis by blast
qed

lemma region_number_bound:
  assumes "body_ok w"
  shows "unat (change_region_value (alarm_region w)) * 3 < 48" "unat (change_region_value (alarm_region w)) * 3 + 1 < 48"
    "unat (change_region_value (alarm_region w)) * 3 + 2 < 48"
proof -
  have "change_region_value (alarm_region w) \<le> 15" using assms by (simp add: body_ok_def switch_ok_def)
  then have "unat (change_region_value (alarm_region w)) \<le> 15" by (simp add: word_le_nat_alt)
  then show "unat (change_region_value (alarm_region w)) * 3 < 48" "unat (change_region_value (alarm_region w)) * 3 + 1 < 48"
    "unat (change_region_value (alarm_region w)) * 3 + 2 < 48" by simp_all
qed

lemma load_regions_total:
  assumes "body_ok w"
  shows "\<exists>w'. load_regions h w = Some w'"
proof -
  obtain x1 w1 where 1: "region_read_from_rom (unat (change_region_value (alarm_region w)) * 3) h w = Some (x1, w1)" "body_ok w1"
    using region_read_total [OF assms] by blast
  obtain x2 w2 where 2: "region_read_from_rom (unat (change_region_value (alarm_region w1)) * 3 + 1) h w1 = Some (x2, w2)" "body_ok w2"
    using region_read_total [OF 1(2)] by blast
  obtain x3 w3 where "region_read_from_rom (unat (change_region_value (alarm_region w2)) * 3 + 2) h w2 = Some (x3, w3)"
    using region_read_total [OF 2(2)] by blast
  with 1 2 show ?thesis by (simp add: load_regions_def)
qed

lemma settings_total:
  assumes "devices_ready h" and "body_ok w"
  shows "\<exists>w'. settings h w = Some w'"
proof -
  obtain a where a: "load_regions h w = Some a" using load_regions_total [OF assms(2)] by blast
  have "body_ok a" using keepsD [OF boot.keeps_load_regions a] assms(2) by (simp add: booting_def)
  obtain b where b: "read_sys_para h a = Some b"
    using read_sys_para_loop_total unfolding read_sys_para_def by blast
  then have "body_ok b"
    using keepsD [OF read_para_booting] \<open>body_ok a\<close> unfolding read_sys_para_def booting_def by blast
  then have "sys_para_wf (SysPara b)" by (simp add: body_ok_def world_wf_def)
  then obtain c where "init_fpga_sys h b = Some c"
    using init_fpga_sys_result assms(1) unfolding devices_ready_def by blast
  with a b show ?thesis by (simp add: settings_def)
qed

lemma main_init_total:
  assumes "devices_ready h" and "clock_up w"
  shows "\<exists>w'. main_init h w = Some w'"
proof -
  have up: "body_ok w" "wired Alt_avalon_timer_sc_irq (hal w)" using assms(2) by (simp_all add: clock_up_def)
  obtain a where a: "start_hardware h w = Some a" using start_hardware_total [OF assms(1) up(1)] by blast
  obtain x b where sw: "rd_switch_io_value h a = Some (x, b)" by (simp add: rd_switch_io_value_def)
  then have "x \<le> 15" "booting a b"
    by (auto simp: rd_switch_io_value_def switch_value_le Let_def intro!: boot.only_trace_R)
  then have ok: "body_ok (select_first x b)" "hal (select_first x b) = hal w"
    using keepsD [OF start_hardware_booting a] select_first_booting up(1) by (auto simp: booting_def)
  obtain v where "settings h (select_first x b) = Some v" using settings_total [OF assms(1) ok(1)] by blast
  then obtain c where c: "load_settings h (select_first x b) = Some c"
    using load_settings_result up(2) ok(2) by metis
  obtain q where "queue_init (LaserDataQueue c) (replicate 2048 0) 2048 = Some q"
    using queue_init_result [of "replicate 2048 0" 2048] by auto
  with a sw c show ?thesis by (simp add: main_init_def)
qed

lemma alt_main_total:
  assumes "flash_chip h miso" and "spi_idle w" and "hal w = hal_init"
  shows "\<exists>u. alt_main h w = Some u"
proof -
  have "spi_idle (clock_world w)" using assms(2) by (cases "spi_seen (trace w)") (simp add: spi_idle_def spi_seen_append clock_world_def)
  then obtain f r v where "alt_epcs_flash_query epcs_flash h (clock_world w) = Some ((r, f), v)"
    using flash_query_result [OF assms(1)] by blast
  then show ?thesis
    by (simp add: boot_result [OF assms(3)] alt_epcs_flash_init_def case_prod_beta del: One_nat_def)
qed

text \<open>C5: start-up comes to an end: with FIFOs that take what they are sent, a network chip that answers
  its read-backs as it likes through a receive FIFO that works as documented, and a working flash chip,
  known or not, the start-up code of the board support package and the initialisation of \<open>main\<close> return
  from every well-formed memory, whatever the EEPROM holds, acknowledges or fails to acknowledge, and
  leave a state in which all the invariants of the main loop hold and interrupts are enabled.\<close>

theorem boot_completes:
  assumes "devices_ready h" and "flash_chip h miso" and "spi_idle w" and "body_ok w" and "hal w = hal_init"
  shows "\<exists>w'. do { w \<leftarrow> alt_main h w; main_init h w } = Some w' \<and> firmware_ok w' \<and> alt_irq_enabled (hal w') = 1"
proof -
  obtain u where u: "alt_main h w = Some u" using alt_main_total [OF assms(2,3,5)] by blast
  then have up: "clock_up u" "hal u = hal_booted" using main_body assms(4,5) by blast+
  then obtain w' where w': "main_init h u = Some w'" using main_init_total [OF assms(1)] by blast
  then have "firmware_ok w'" "nios2_status (hal w') = 1"
    using main_init_ok [OF w' up(1)] up(2) by (simp_all add: running_def hal_booted_def)
  then show ?thesis using u w' by (simp add: alt_irq_enabled_def NIOS2_STATUS_PIE_MSK_def)
qed

definition board_env :: env where
  \<comment> \<open>a network chip that answers (\<open>bridge_env\<close>), an EEPROM that acknowledges, a flash chip\<close>
  "board_env = spi_env demo_chip (bridge_env demo_mem)"

lemma board_env: "devices_ready board_env" "flash_chip board_env demo_chip"
proof -
  show "flash_chip board_env demo_chip" unfolding board_env_def by (rule demo_flash_chip)
  have "spi_bridge board_env (\<lambda>tr. length (bridge_queue demo_mem tr))"
    using bridge_env_bridge(2) [of demo_mem] by (simp add: spi_bridge_def board_env_def spi_env_def)
  then show "devices_ready board_env"
    by (auto simp: devices_ready_def board_env_def never_full_def spi_env_def bridge_env_def quiet_env_def Let_def)
qed

lemma world_init_spi: "spi_idle world_init"
  by (simp add: spi_idle_def spi_seen_def world_init_def)

lemma world_init_hal: "hal world_init = hal_init"
  by (simp add: world_init_def)

theorem boot_completes_witness:
  "\<exists>w'. do { w \<leftarrow> alt_main board_env world_init; main_init board_env w } = Some w' \<and> firmware_ok w' \<and>
    alt_irq_enabled (hal w') = 1"
  by (rule boot_completes [OF board_env world_init_spi world_init_body world_init_hal])

text \<open>C2: in every state the program can reach from power-up, by passes of the main loop and interrupts in any
  order and whatever the devices, hosts and FPGA send, every array has its declared length, the ring
  buffer stays inside its array, the alarms, counters and lamps keep their ranges, and the regions
  the switch selects are three of the forty-eight that exist.\<close>

theorem firmware_invariant:
  assumes "reachable w"
  shows "world_wf w \<and> queue_inv (LaserDataQueue w) \<and> timer_ok (led_time_flag w) \<and>
    region_alarm (sys_warn w) \<le> 7 \<and> motor_low_speed_alarm (sys_warn w) \<le> 1 \<and> ld_not_work_alarm (sys_warn w) \<le> 1 \<and>
    window_dust_alarm (sys_warn w) \<le> 1 \<and> temp_out_alarm (sys_warn w) \<le> 1 \<and> warn_len (sys_warn w) \<le> 5 \<and>
    unat (change_region_value (alarm_region w)) * 3 + 2 < 48"
proof -
  have "body_ok w" "queue_inv (LaserDataQueue w)"
    using reachable_ok [OF assms] by (simp_all add: firmware_ok_iff)
  then show ?thesis using region_number_bound [of w] by (simp add: body_ok_def)
qed

lemma rest_boots: "\<exists>v w. alt_main board_env world_init = Some v \<and> main_init board_env v = Some w"
proof -
  obtain v where v: "alt_main board_env world_init = Some v"
    using alt_main_total [OF board_env(2) world_init_spi world_init_hal] by blast
  then have "clock_up v" using main_body world_init_body world_init_hal by blast
  then show ?thesis using v main_init_total [OF board_env(1)] by blast
qed

lemma rest_reachable: "\<exists>v w. alt_main board_env world_init = Some v \<and> main_init board_env v = Some w \<and> reachable w"
  using rest_boots started.Power reachable.Boot by blast

theorem firmware_invariant_witness:
  "\<exists>v w. alt_main board_env world_init = Some v \<and> main_init board_env v = Some w \<and> reachable w \<and>
    world_wf w \<and> queue_inv (LaserDataQueue w)"
  using rest_reachable firmware_invariant by blast

text \<open>C7: no interrupt is lost or unserved: whenever the program is in its main loop, interrupts are enabled,
  and a raised line that is enabled has a handler, the console's or the program's own, that the
  dispatcher finds first.\<close>

theorem interrupts_served:
  assumes "reachable w"
  shows "alt_irq_enabled (hal w) = 1 \<and> (alt_irq_pending h w \<noteq> 0 \<longrightarrow>
    (\<exists>i g. first_active (alt_irq_pending h w) = Some i \<and> arr_get (alt_irq (hal w)) i = Some (Some g) \<and>
      g \<in> {Timer_isr_interrupt, Altera_avalon_jtag_uart_irq}))"
  using reachable_running [OF assms] wired_dispatch
  by (simp add: running_def alt_irq_enabled_def NIOS2_STATUS_PIE_MSK_def)

definition tick_env :: "world \<Rightarrow> env" where
  \<comment> \<open>the timer asks for one interrupt\<close>
  "tick_env w = board_env\<lparr>irq_lines := \<lambda>tr. if length tr \<le> length (trace w) then 4 else 0\<rparr>"

lemma blink_returns: "\<exists>w' es. blink_power u = Some w' \<and> trace w' = trace u @ es"
proof -
  define good where "good = (\<lambda>r :: world option. \<exists>w' es. r = Some w' \<and> trace w' = trace u @ es)"
  have lit: "good (led_power_light b v)" if "trace v = trace u" for b and v :: world
    using that by (simp add: good_def led_power_light_def)
  have "good (Some u)" by (simp add: good_def)
  moreover have "good x \<Longrightarrow> good y \<Longrightarrow> good (if c then x else y)" for c x y by simp
  ultimately have "good (blink_power u)"
    unfolding blink_power_def Let_def by (simp add: lit)
  then show ?thesis by (simp add: good_def)
qed

lemma isr_returns: "\<exists>w'. timer_isr_interrupt h w = Some w' \<and> length (trace w) < length (trace w')"
proof -
  define v where "v = (logged w [Iowr LED_TIMER_BASE 0 (NOT 1)])\<lparr>led_time_flag := tick_counters (led_time_flag w)\<rparr>"
  have isr: "timer_isr_interrupt h w = do { w \<leftarrow> sample_switch h v; blink_power w }"
    by (simp add: timer_isr_interrupt_def v_def, simp add: logged_def)
  obtain u evs where "sample_switch h v = Some u" "trace u = trace v @ evs"
    using sample_switch_frame [of h v] by auto
  moreover obtain w' es where "blink_power u = Some w'" "trace w' = trace u @ es" using blink_returns by blast
  ultimately show ?thesis unfolding isr by (auto simp: v_def)
qed

lemma tick_pending: "running w \<Longrightarrow> alt_irq_pending (tick_env w) w = 4"
  by (simp add: running_def wired_def alt_irq_pending_def tick_env_def)

lemma tick_happens:
  assumes "reachable w"
  shows "\<exists>w'. interrupt (tick_env w) w = Some w'"
proof -
  have run: "running w" and on: "nios2_status (hal w) = 1" using reachable_running [OF assms] by simp_all
  define u where "u = w\<lparr>hal := (hal w)\<lparr>nios2_status := 0\<rparr>\<rparr>"
  obtain v where v: "timer_isr_interrupt (tick_env w) u = Some v" "length (trace u) < length (trace v)" using isr_returns by blast
  then have "alt_irq_pending (tick_env w) v = 0" by (simp add: alt_irq_pending_def tick_env_def u_def)
  moreover have "first_active 4 = Some 2" by code_simp
  moreover have "alt_irq_pending (tick_env w) u = 4" using tick_pending [OF run] by (simp add: alt_irq_pending_def u_def)
  moreover have "arr_get (alt_irq (hal u)) 2 = Some (Some Timer_isr_interrupt)"
    using run by (simp add: running_def wired_def u_def arr_get_def)
  ultimately have "alt_irq_handler (tick_env w) u = Some v"
    using v(1) by (simp add: alt_irq_handler_def irq_loop.simps call_isr_def)
  then show ?thesis
    using tick_pending [OF run] on by (simp add: interrupt_def alt_irq_enabled_def alt_irq_disable_all_def NIOS2_STATUS_PIE_MSK_def u_def)
qed

theorem interrupts_served_witness:
  "\<exists>w i g. reachable w \<and> alt_irq_pending (tick_env w) w = 4 \<and> first_active (alt_irq_pending (tick_env w) w) = Some i \<and>
    arr_get (alt_irq (hal w)) i = Some (Some g)"
proof -
  obtain w where w: "reachable w" using rest_reachable by blast
  moreover from this have "alt_irq_pending (tick_env w) w = 4" using tick_pending reachable_running by blast
  ultimately show ?thesis using interrupts_served [OF w, of "tick_env w"] by auto
qed

text \<open>C6: the system clock of the board support package stands still while the program runs: \<open>timer_initial\<close>
  registers its own handler for the line of the clock, so that from then on no interrupt and no pass
  of the main loop advances the tick count, runs an alarm, or changes what the console driver knows
  of its host.\<close>

theorem clock_stopped:
  assumes "reachable w" and "interrupt h w = Some w' \<or> main_pass h w = Some w'"
  shows "alt_nticks (hal w') = alt_nticks (hal w) \<and> alarms (hal w') = alarms (hal w) \<and>
    ju_host_inactive (uart w') = ju_host_inactive (uart w)"
proof -
  have run: "running w" using reachable_running [OF assms(1)] by simp
  have "clockwork (hal w') = clockwork (hal w)"
    using assms(2)
  proof
    assume "interrupt h w = Some w'"
    then show ?thesis using late.interrupt_keeps [of h w w' "clockwork (hal w)"] run by simp
  next
    assume "main_pass h w = Some w'"
    then show ?thesis using pass_running run by simp
  qed
  then show ?thesis by (simp add: clockwork_def)
qed

theorem clock_stopped_witness:
  "\<exists>w w'. reachable w \<and> alt_irq_pending (tick_env w) w = 4 \<and> interrupt (tick_env w) w = Some w' \<and>
    alt_nticks (hal w') = alt_nticks (hal w)"
proof -
  obtain w where w: "reachable w" using rest_reachable by blast
  then obtain w' where w': "interrupt (tick_env w) w = Some w'" using tick_happens by blast
  have "alt_irq_pending (tick_env w) w = 4" using tick_pending reachable_running w by blast
  with w w' clock_stopped [OF w disjI1, OF w'] show ?thesis by blast
qed

end
