(* ===== verification/ConsoleSpec.thy ===== *)
theory ConsoleSpec
  imports FirmwareSpec UartSpec
begin

unbundle bit_operations_syntax

text \<open>
  The console in the running program. Its buffers stay well-formed in every reachable state, and a
  blocking write that finds no room while the host takes nothing does not return: the time-out of
  the driver counts ticks of a clock that \<open>main\<close> has stopped.
\<close>

subsection \<open>The buffers of the running program\<close>

definition console_ok :: "altera_avalon_jtag_uart_state \<Rightarrow> bool" where
  "console_ok sp \<longleftrightarrow> uart_ok sp \<and> ju_timeout sp = 10 \<and> ju_base sp = JTAG_UART_BASE"

definition attends :: "world \<Rightarrow> world \<Rightarrow> bool" where
  "attends w w' \<longleftrightarrow> (console_ok (uart w) \<longrightarrow> console_ok (uart w'))"

interpretation at: frame_rel attends
  by unfold_locales (simp_all add: attends_def)

lemma attends_trace: "only_trace w w' \<Longrightarrow> attends w w'" for w :: world
  by (auto simp: only_trace_def attends_def)

lemma attends_on_uart: "(\<And>sp. uart_ok sp \<Longrightarrow> uart_ok (f sp)) \<Longrightarrow> (\<And>sp. ju_timeout (f sp) = ju_timeout sp) \<Longrightarrow>
    (\<And>sp. ju_base (f sp) = ju_base sp) \<Longrightarrow> attends w (on_uart f w)"
  by (simp add: attends_def console_ok_def)

lemma attends_transmit: "keepsv attends (uart_transmit n)"
  unfolding keepsv_def
proof (intro allI impI)
  fix w x w'
  assume run: "uart_transmit n w = Some (x, w')"
  show "attends w w'"
  proof (cases "uart_ok (uart w)")
    case True
    then show ?thesis using transmit_result [OF True, of n] run by (auto simp: attends_def console_ok_def on_uart_logged)
  qed (simp add: attends_def console_ok_def)
qed

interpretation attending: console_frame attends
proof
  fix w :: world and r v e n and b :: "byte list"
  show "attends w (on_uart (\<lambda>sp. sp\<lparr>ju_irq_enable := e sp\<rparr>) w)"
    by (rule attends_on_uart) (simp_all add: uart_ok_def)
  show "keepsv attends (uart_transmit n)" by (rule attends_transmit)
  assume "length b = length (rx_buf (uart w))"
  then show "attends w (on_uart (\<lambda>sp. sp\<lparr>rx_buf := b, rx_in := buf_next (rx_in sp)\<rparr>) w)"
    by (simp add: attends_def console_ok_def uart_ok_def buf_next_step(2))
qed (simp_all add: attends_trace)

lemma timeout_attends: "keepsv attends (altera_avalon_jtag_uart_timeout h)"
proof -
  have "attends v (on_uart (\<lambda>sp. sp\<lparr>ju_host_inactive := e sp\<rparr>) v)" for v e
    by (rule attends_on_uart) (simp_all add: uart_ok_def)
  then show ?thesis
    by (auto simp: keepsv_def altera_avalon_jtag_uart_timeout_def simp del: iord_logged iowr_logged split: bind_splits if_splits
        dest!: keepsvD [OF keepsv_iord] keepsD [OF keeps_iowr] attends_trace intro: at.R_trans)
qed

interpretation ticking: clock_frame attends
proof
  fix w w' :: world
  assume "only_trace w w'"
  then show "attends w w'" by (rule attends_trace)
next
  show "keepsv attends (run_callback c h)" for c h
    unfolding run_callback_def by (cases c) (simp add: timeout_attends)
qed (simp_all add: attends_def on_hal_def)

lemma isr_attends:
  assumes "call_isr f h w = Some w'" and "f = Alt_avalon_timer_sc_irq \<or> f = Altera_avalon_jtag_uart_irq"
  shows "attends w w'"
  using assms keepsD [OF ticking.keeps_clock_irq] keepsD [OF attending.keeps_uart_irq] by (auto simp: call_isr_def)

interpretation early_console: dispatched "\<lambda>w. clock_up w \<and> console_ok (uart w)" h for h
proof
  fix w i f w'
  assume up: "clock_up w \<and> console_ok (uart w)" and f: "arr_get (alt_irq (hal w)) i = Some (Some f)"
    and "bit (alt_irq_pending h w) i" and run: "call_isr f h w = Some w'"
  then have "f = Alt_avalon_timer_sc_irq \<or> f = Altera_avalon_jtag_uart_irq"
    using wired_handlers in_table [OF f] unfolding clock_up_def by blast
  moreover have "clock_up w'" using early.served [OF _ f _ run] up \<open>bit (alt_irq_pending h w) i\<close> by blast
  ultimately show "clock_up w' \<and> console_ok (uart w')" using isr_attends [OF run] up by (simp add: attends_def)
qed (use early.status in simp)

interpretation late_console: dispatched "\<lambda>w. running w \<and> console_ok (uart w)" h for h
proof
  fix w i f w'
  assume up: "running w \<and> console_ok (uart w)" and f: "arr_get (alt_irq (hal w)) i = Some (Some f)"
    and "bit (alt_irq_pending h w) i" and run: "call_isr f h w = Some w'"
  have g: "f = Timer_isr_interrupt \<or> f = Altera_avalon_jtag_uart_irq"
    using wired_handlers in_table [OF f] up unfolding running_def by blast
  have "running w'" using running_isr [OF _ in_table [OF f] run] up by blast
  moreover have "console_ok (uart w')"
    using g
  proof
    assume "f = Timer_isr_interrupt"
    then have "hal w' = hal w"
      using keepsD [OF run.keeps_isr] run up by (simp add: call_isr_def sound_def running_def)
    then show ?thesis using up by simp
  qed (use isr_attends [OF run] up in \<open>simp add: attends_def\<close>)
  ultimately show "running w' \<and> console_ok (uart w')" ..
qed (use late.status in simp)

lemma started_console: "started w \<Longrightarrow> console_ok (uart w)"
proof (induction rule: started.induct)
  case (Power h w)
  have "hal w = hal_booted" using main_body [OF Power world_init_body world_init_hal] by simp
  then show ?case
    using uart_init_ok by (simp add: hal_booted_def console_ok_def uart_ok_def jtag_uart_init_state_def
        ALTERA_AVALON_JTAG_UART_BUF_LEN_def ALTERA_AVALON_JTAG_UART_DEFAULT_TIMEOUT_def)
next
  case (Clock w h w')
  then show ?case using early_console.interrupt_keeps started_up by blast
qed

lemma main_init_uart:
  assumes "main_init h w = Some w'" and "clock_up w"
  shows "uart w' = uart w"
  using main_init_ok [OF assms] by simp

lemma reachable_console: "reachable w \<Longrightarrow> console_ok (uart w)"
proof (induction rule: reachable.induct)
  case (Boot v h w)
  then show ?case using main_init_uart started_up started_console by metis
next
  case (Pass w h w')
  then show ?case using pass_running reachable_running by metis
next
  case (Tick w h w')
  then show ?case using late_console.interrupt_keeps reachable_running by blast
qed

subsection \<open>A host that takes nothing\<close>

definition console_silent :: "env \<Rightarrow> bool" where
  \<comment> \<open>the console never asks for an interrupt\<close>
  "console_silent h \<longleftrightarrow> (\<forall>tr. \<not> bit (irq_lines h tr) 0)"

definition stuck :: "env \<Rightarrow> altera_avalon_jtag_uart_state \<Rightarrow> world \<Rightarrow> bool" where
  "stuck h sp w \<longleftrightarrow> running w \<and> console_silent h \<and> uart w = sp"

interpretation stuck: dispatched "stuck h sp" h for h sp
proof
  fix w i f w'
  assume st: "stuck h sp w" and f: "arr_get (alt_irq (hal w)) i = Some (Some f)"
    and i: "bit (alt_irq_pending h w) i" and run: "call_isr f h w = Some w'"
  have wired: "wired Timer_isr_interrupt (hal w)" using st by (simp add: stuck_def running_def)
  then have "i = 2"
    using wired_lines [OF wired] i st by (auto simp: alt_irq_pending_def stuck_def console_silent_def bit_and_iff)
  then have "f = Timer_isr_interrupt" using f wired by (simp add: wired_def arr_get_def)
  then have "hal w' = hal w" "running w'"
    using keepsD [OF run.keeps_isr] running_isr [OF _ in_table [OF f] run] run st
    by (simp_all add: call_isr_def sound_def running_def stuck_def)
  then show "stuck h sp w'" using st by (simp add: stuck_def)
qed (simp add: stuck_def running_def firmware_ok_hal wired_def)

lemma running_logged: "running (logged w e) = running w"
  using only_hal_ok(2) [of w "logged w e"] tends_trace [of w "logged w e"]
  by (simp add: running_def on_uart_logged tends_def serves_def)

lemma running_on_uart: "running (on_uart f w) = running w"
  by (simp add: running_def on_uart_def on_hal_def firmware_ok_hal wired_def)

lemma stuck_wait:
  assumes "stuck h sp w" and "ju_host_inactive sp < ju_timeout sp"
  shows "uart_wait (\<lambda>w. tx_out sp = tx_out (uart w)) interrupt h w = None"
proof -
  let ?s = "\<lambda>w. tx_out sp = tx_out (uart w)"
  have "\<not> stuck h sp w" if "uart_wait ?s interrupt h w = Some w'" for w'
  proof -
    have "s = ?s \<longrightarrow> p = interrupt \<longrightarrow> k = h \<longrightarrow> \<not> stuck h sp w" if "uart_wait s p k w = Some w'" for s p k w w'
    proof (rule uart_wait.raw_induct [where P = "\<lambda>s p k w w'. s = ?s \<longrightarrow> p = interrupt \<longrightarrow> k = h \<longrightarrow> \<not> stuck h sp w", OF _ that])
      fix again :: "(world \<Rightarrow> bool) \<Rightarrow> (env \<Rightarrow> world \<Rightarrow> world option) \<Rightarrow> env \<Rightarrow> world \<Rightarrow> world option" and s p k w w'
      assume IH: "\<And>s p k w w'. again s p k w = Some w' \<Longrightarrow> s = ?s \<longrightarrow> p = interrupt \<longrightarrow> k = h \<longrightarrow> \<not> stuck h sp w"
        and run: "(if s w \<and> ju_host_inactive (uart w) < ju_timeout (uart w)
          then do { w \<leftarrow> emit (Spin 1) w; w \<leftarrow> p k w; again s p k w } else Some w) = Some w'"
      show "s = ?s \<longrightarrow> p = interrupt \<longrightarrow> k = h \<longrightarrow> \<not> stuck h sp w"
      proof (intro impI notI)
        assume eq: "s = ?s" "p = interrupt" "k = h" and st: "stuck h sp w"
        then have "uart w = sp" by (simp add: stuck_def)
        then obtain v where v: "interrupt h (logged w [Spin 1]) = Some v" "again ?s interrupt h v = Some w'"
          using run assms(2) by (auto simp: eq split: bind_splits)
        have "stuck h sp (logged w [Spin 1])" using st by (simp add: stuck_def running_logged on_uart_logged)
        then have "stuck h sp v" by (rule stuck.interrupt_keeps [OF v(1)])
        with IH [OF v(2)] show False by blast
      qed
    qed
    with that show ?thesis by blast
  qed
  with assms(1) show ?thesis by (cases "uart_wait ?s interrupt h w") auto
qed

text \<open>C32: a program that prints to a host that is gone hangs: a blocking write of more bytes than the transmit
  buffer has room for does not return when the console never asks for an interrupt, whatever the
  timer and the other devices do meanwhile. The driver gives up after ten time-outs of a second,
  but its alarm is driven by the clock that \<open>timer_initial\<close> has stopped, so that the count of the
  time-outs stays where it was.\<close>

theorem console_write_blocks:
  assumes "reachable w" and "console_silent h" and "ju_host_inactive (uart w) < 10"
    and "length bs > room (uart w)" and "flags AND O_NONBLOCK = 0"
  shows "altera_avalon_jtag_uart_write interrupt bs flags h w = None"
proof -
  have ok: "uart_ok (uart w)" "ju_timeout (uart w) = 10" and run: "running w"
    using reachable_console [OF assms(1)] reachable_running [OF assms(1)] by (simp_all add: console_ok_def)
  obtain b i where c: "uart_copy_in bs w = Some (drop (room (uart w)) bs, on_uart (\<lambda>sp. sp\<lparr>tx_buf := b, tx_in := i\<rparr>) w)"
    using copy_in_result [OF ok(1)] by blast
  define u where "u = on_uart (\<lambda>sp. sp\<lparr>tx_buf := b, tx_in := i\<rparr>) w"
  define v where "v = on_uart (\<lambda>sp. sp\<lparr>ju_irq_enable := ju_irq_enable sp OR WE_MSK\<rparr>)
    (logged u [Iowr (ju_base (uart u)) 1 (ju_irq_enable (uart u) OR WE_MSK)])"
  have v: "enable_irq WE_MSK u = Some v" unfolding v_def by (rule enable_irq_result)
  have "stuck h (uart v) v"
    using run assms(2) by (simp add: stuck_def v_def u_def running_on_uart running_logged)
  moreover have "ju_host_inactive (uart v) < ju_timeout (uart v)"
    using assms(3) ok(2) by (simp add: v_def u_def on_uart_logged)
  ultimately have "uart_wait (\<lambda>w. tx_out (uart v) = tx_out (uart w)) interrupt h v = None" by (rule stuck_wait)
  moreover have "drop (room (uart w)) bs \<noteq> []" using assms(4) by simp
  ultimately have "uart_write_loop interrupt bs flags h w = None"
    using c v assms(5) by (subst uart_write_loop.simps) (simp add: u_def [symmetric])
  then show ?thesis by (simp add: altera_avalon_jtag_uart_write_def)
qed

theorem console_write_blocks_witness:
  "\<exists>w. reachable w \<and> altera_avalon_jtag_uart_write interrupt (replicate 2048 0) 0 board_env w = None"
proof -
  obtain v w where w: "alt_main board_env world_init = Some v" "main_init board_env v = Some w" "reachable w"
    using rest_reachable by blast
  have v: "clock_up v" "hal v = hal_booted" using main_body [OF w(1) world_init_body world_init_hal] by simp_all
  then have "uart w = uart v" using main_init_uart [OF w(2)] by simp
  then have "ju_host_inactive (uart w) < 10" using v(2) by (simp add: hal_booted_def jtag_uart_init_state_def)
  moreover have "console_silent board_env"
    by (simp add: console_silent_def board_env_def bridge_env_def spi_env_def quiet_env_def)
  moreover have "length (replicate 2048 (0 :: byte)) > room (uart w)" by (simp add: room_def)
  ultimately show ?thesis using console_write_blocks [OF w(3), of board_env "replicate 2048 0" 0] w(3) by auto
qed

end
