(* ===== verification/ClockSpec.thy ===== *)
theory ClockSpec
  imports BootSpec UartSpec
begin

unbundle bit_operations_syntax

text \<open>
  The clock of the support package while it runs: every interrupt of the timer is one tick, and the
  alarm of the console driver runs exactly when its ticks have passed, also when the tick count rolls
  over. It is the count of its runs that ends the waiting of the console driver.
\<close>

definition console_alarm :: "nat \<Rightarrow> world \<Rightarrow> bool" where
  \<comment> \<open>the alarm of the console is the only one and is to run at the \<open>d\<close>-th tick\<close>
  "console_alarm d w \<longleftrightarrow> alt_alarm_list (hal w) = [0] \<and> alt_tick_rate (hal w) \<noteq> 0 \<and>
     (\<exists>a. alarms (hal w) = [a] \<and> al_callback a = Altera_avalon_jtag_uart_timeout \<and> due d (alt_nticks (hal w)) a)"

definition host_gone :: "env \<Rightarrow> bool" where
  \<comment> \<open>the console never reports that a host has been active\<close>
  "host_gone h \<longleftrightarrow> (\<forall>tr. rd h tr JTAG_UART_BASE 1 AND AC_MSK = 0)"

definition served :: "event list \<Rightarrow> nat" where
  \<comment> \<open>the interrupts of the timer served: each service clears the timer's status\<close>
  "served tr = count_list tr (Iowr LED_TIMER_BASE 0 0)"

lemma served_simps [simp]:
  "served [] = 0" "served (xs @ ys) = served xs + served ys"
  "served (e # es) = (if e = Iowr LED_TIMER_BASE 0 0 then Suc (served es) else served es)"
  by (simp_all add: served_def)

fun clock_interrupts :: "nat \<Rightarrow> env \<Rightarrow> world \<Rightarrow> world option" where
  "clock_interrupts 0 h w = Some w"
| "clock_interrupts (Suc n) h w = do {
     w \<leftarrow> alt_avalon_timer_sc_irq run_callback LED_TIMER_BASE h w;
     clock_interrupts n h w
   }"

lemma on_hal_logged: "on_hal f (logged w evs) = logged (on_hal f w) evs"
  by (simp add: on_hal_def logged_def)

lemma on_hal_on_hal: "on_hal f (on_hal g w) = on_hal (f \<circ> g) w"
  by (simp add: on_hal_def)

lemmas hal_logged = on_uart_logged(2)

lemma timeout_result:
  assumes "host_gone h" and "ju_base (uart w) = JTAG_UART_BASE" and "unat (ju_host_inactive (uart w)) < 2 ^ 31 - 3"
  shows "altera_avalon_jtag_uart_timeout h w = Some (alt_tick_rate (hal w),
    on_uart (\<lambda>sp. sp\<lparr>ju_host_inactive := ju_host_inactive sp + 1\<rparr>) (logged w [Iord JTAG_UART_BASE 1]))"
proof -
  have "ju_host_inactive (uart w) < word_of_int (INT_MAX - 2)"
    using assms(3) by (simp add: word_less_nat_alt INT_MAX_def)
  then show ?thesis
    using assms(1,2) by (simp add: altera_avalon_jtag_uart_timeout_def host_gone_def alt_ticks_per_second_def hal_logged del: One_nat_def)
qed

lemma tick_single:
  assumes "alarms (hal w) = [a]" and "alt_alarm_list (hal w) = [0]"
    and "t = alt_nticks (hal w) + 1" and "u = on_hal (\<lambda>s. s\<lparr>alt_nticks := t, alarms := [wound t a]\<rparr>) w"
  shows "alt_tick call h w =
    (if al_time (wound t a) \<le> t \<and> al_rollover (wound t a) = 0 then fire call 0 (wound t a) h u else Some u)"
proof -
  have "on_hal (\<lambda>s. s\<lparr>alarms := (alarms s)[0 := wound t a]\<rparr>) (on_hal (\<lambda>s. s\<lparr>alt_nticks := alt_nticks s + 1\<rparr>) w) = u"
    using assms by (simp add: on_hal_def)
  then show ?thesis
    using assms(1,2) by (simp add: alt_tick_def Let_def arr_get_def assms(3) [symmetric] split: bind_split)
qed

lemma tick_waits:
  assumes "console_alarm d w" and "d \<noteq> 1"
  shows "\<exists>w'. alt_tick run_callback h w = Some w' \<and> console_alarm (d - 1) w' \<and> uart w' = uart w \<and>
    alt_nticks (hal w') = alt_nticks (hal w) + 1 \<and> alt_tick_rate (hal w') = alt_tick_rate (hal w) \<and> trace w' = trace w"
proof -
  obtain a where a: "alarms (hal w) = [a]" "al_callback a = Altera_avalon_jtag_uart_timeout" "due d (alt_nticks (hal w)) a"
    and l: "alt_alarm_list (hal w) = [0]" "alt_tick_rate (hal w) \<noteq> 0"
    using assms(1) by (auto simp: console_alarm_def)
  have "alt_tick run_callback h w =
    Some (on_hal (\<lambda>s. s\<lparr>alt_nticks := alt_nticks (hal w) + 1, alarms := [wound (alt_nticks (hal w) + 1) a]\<rparr>) w)"
    using due_tick(1) [OF a(3)] assms(2) by (auto simp: tick_single [OF a(1) l(1) refl refl])
  then show ?thesis
    using due_tick(2) [OF a(3) assms(2)] a(2) l by (auto simp: console_alarm_def wound_def)
qed

lemma tick_fires:
  assumes "console_alarm 1 w" and "host_gone h" and "ju_base (uart w) = JTAG_UART_BASE"
    and "unat (ju_host_inactive (uart w)) < 2 ^ 31 - 3"
  shows "\<exists>w'. alt_tick run_callback h w = Some w' \<and> console_alarm (unat (alt_tick_rate (hal w))) w' \<and>
    uart w' = (uart w)\<lparr>ju_host_inactive := ju_host_inactive (uart w) + 1\<rparr> \<and>
    alt_nticks (hal w') = alt_nticks (hal w) + 1 \<and> alt_tick_rate (hal w') = alt_tick_rate (hal w) \<and>
    trace w' = trace w @ [Iord JTAG_UART_BASE 1]"
proof -
  obtain a where a: "alarms (hal w) = [a]" "al_callback a = Altera_avalon_jtag_uart_timeout" "due 1 (alt_nticks (hal w)) a"
    and l: "alt_alarm_list (hal w) = [0]" "alt_tick_rate (hal w) \<noteq> 0"
    using assms(1) by (auto simp: console_alarm_def)
  define t where "t = alt_nticks (hal w) + 1"
  define a' where "a' = wound t a"
  have now: "al_time a' = t" "al_rollover a' = 0" "al_callback a' = Altera_avalon_jtag_uart_timeout"
    using due_tick(1,3) [OF a(3)] a(2) by (auto simp: a'_def t_def wound_def)
  have rate: "0 < unat (alt_tick_rate (hal w))" "unat (alt_tick_rate (hal w)) < 2 ^ 32"
    using l(2) unat32 [of "alt_tick_rate (hal w)"] by (simp_all add: unat_gt_0)
  define u where "u = on_hal (\<lambda>s. s\<lparr>alt_nticks := t, alarms := [a']\<rparr>) w"
  have u: "uart u = uart w" "alt_tick_rate (hal u) = alt_tick_rate (hal w)" by (simp_all add: u_def)
  have call: "run_callback (al_callback a') h u = Some (alt_tick_rate (hal w),
    on_uart (\<lambda>sp. sp\<lparr>ju_host_inactive := ju_host_inactive sp + 1\<rparr>) (logged u [Iord JTAG_UART_BASE 1]))"
    using timeout_result [OF assms(2), of u] assms(3,4) u by (simp add: run_callback_def now(3))
  have "due (unat (alt_tick_rate (hal w))) t (rearm t (alt_tick_rate (hal w)) a')"
    using due_rearm [OF now(1,2) rate] by simp
  moreover have "al_callback (rearm t (alt_tick_rate (hal w)) a') = Altera_avalon_jtag_uart_timeout"
    using now(3) by (simp add: rearm_def Let_def)
  moreover have "alt_tick run_callback h w = Some (on_hal (\<lambda>s. s\<lparr>alarms := [rearm t (alt_tick_rate (hal w)) a']\<rparr>)
    (on_uart (\<lambda>sp. sp\<lparr>ju_host_inactive := ju_host_inactive sp + 1\<rparr>) (logged u [Iord JTAG_UART_BASE 1])))"
    using l now call by (simp add: tick_single [OF a(1) l(1) t_def refl] a'_def [symmetric] u_def [symmetric] fire_def)
      (simp add: u_def hal_logged arr_get_def on_hal_def on_uart_def logged_def)
  ultimately show ?thesis
    using l by (auto simp: console_alarm_def hal_logged u_def t_def)
qed

lemma clock_interrupt_result:
  assumes "alt_tick run_callback h (on_hal (\<lambda>s. s\<lparr>nios2_status := nios2_status s AND NOT NIOS2_STATUS_PIE_MSK\<rparr>)
    (logged w [Iowr b 0 0, Iord b 1])) = Some v"
  shows "alt_avalon_timer_sc_irq run_callback b h w = Some (on_hal (\<lambda>s. s\<lparr>nios2_status := nios2_status (hal w)\<rparr>) v)"
  using assms by (simp add: alt_avalon_timer_sc_irq_def alt_irq_disable_all_def alt_irq_enable_all_def on_hal_def
      logged_def Let_def del: One_nat_def)

lemma clock_interrupt_step:
  assumes "console_alarm d w" and "host_gone h" and "ju_base (uart w) = JTAG_UART_BASE"
    and "unat (ju_host_inactive (uart w)) < 2 ^ 31 - 3" and "r = unat (alt_tick_rate (hal w))"
  shows "\<exists>w'. alt_avalon_timer_sc_irq run_callback LED_TIMER_BASE h w = Some w' \<and>
    console_alarm (if d = 1 then r else d - 1) w' \<and>
    uart w' = (uart w)\<lparr>ju_host_inactive := ju_host_inactive (uart w) + (if d = 1 then 1 else 0)\<rparr> \<and>
    alt_nticks (hal w') = alt_nticks (hal w) + 1 \<and> alt_tick_rate (hal w') = alt_tick_rate (hal w) \<and>
    served (trace w') = Suc (served (trace w))"
proof -
  define u where "u = on_hal (\<lambda>s. s\<lparr>nios2_status := nios2_status s AND NOT NIOS2_STATUS_PIE_MSK\<rparr>)
    (logged w [Iowr LED_TIMER_BASE 0 0, Iord LED_TIMER_BASE 1])"
  have u: "console_alarm d u" "uart u = uart w" "alt_nticks (hal u) = alt_nticks (hal w)" "alt_tick_rate (hal u) = alt_tick_rate (hal w)"
    "served (trace u) = Suc (served (trace w))"
    using assms(1) by (simp_all add: u_def hal_logged console_alarm_def)
  have "\<exists>v. alt_tick run_callback h u = Some v \<and> console_alarm (if d = 1 then r else d - 1) v \<and>
    uart v = (uart w)\<lparr>ju_host_inactive := ju_host_inactive (uart w) + (if d = 1 then 1 else 0)\<rparr> \<and>
    alt_nticks (hal v) = alt_nticks (hal w) + 1 \<and> alt_tick_rate (hal v) = alt_tick_rate (hal w) \<and>
    served (trace v) = Suc (served (trace w))"
  proof (cases "d = 1")
    case True
    then obtain v where "alt_tick run_callback h u = Some v" "console_alarm r v"
      "uart v = (uart w)\<lparr>ju_host_inactive := ju_host_inactive (uart w) + 1\<rparr>" "alt_nticks (hal v) = alt_nticks (hal w) + 1"
      "alt_tick_rate (hal v) = alt_tick_rate (hal w)" "trace v = trace u @ [Iord JTAG_UART_BASE 1]"
      using tick_fires [of u h] u assms by (auto simp del: One_nat_def)
    then show ?thesis using True u(5) by simp
  next
    case False
    then show ?thesis using tick_waits [OF u(1) False, of h] u by auto
  qed
  then obtain v where v: "alt_tick run_callback h u = Some v" "console_alarm (if d = 1 then r else d - 1) v"
    "uart v = (uart w)\<lparr>ju_host_inactive := ju_host_inactive (uart w) + (if d = 1 then 1 else 0)\<rparr>"
    "alt_nticks (hal v) = alt_nticks (hal w) + 1" "alt_tick_rate (hal v) = alt_tick_rate (hal w)"
    "served (trace v) = Suc (served (trace w))" by blast
  show ?thesis
    using clock_interrupt_result [OF v(1) [unfolded u_def]] v(2-) by (auto simp: console_alarm_def)
qed

lemma div_step:
  fixes n r d :: nat
  assumes "0 < r" and "0 < d"
  shows "(Suc n + r - d) div r = (if d = 1 then 1 else 0) + (n + r - (if d = 1 then r else d - 1)) div r"
  using assms by (simp add: div_add_self2)

text \<open>While the clock runs, the time-out of the console driver keeps time: with no host there, \<open>n\<close>
  interrupts of the timer advance the tick count by \<open>n\<close>, across a roll-over as well, and the count of
  seconds without a host by one at the \<open>d\<close>-th and then once every second, however long it takes.\<close>

lemma clock_interrupts_count:
  assumes "console_alarm d w" and "host_gone h" and "ju_base (uart w) = JTAG_UART_BASE"
    and "unat (ju_host_inactive (uart w)) + n < 2 ^ 31 - 3" and "r = unat (alt_tick_rate (hal w))"
  shows "\<exists>w'. clock_interrupts n h w = Some w' \<and> alt_nticks (hal w') = alt_nticks (hal w) + word_of_nat n \<and>
    unat (ju_host_inactive (uart w')) = unat (ju_host_inactive (uart w)) + (n + r - d) div r"
  using assms
proof (induction n arbitrary: w d)
  case 0
  have "0 < r" "0 < d" using "0.prems"(1,5) by (auto simp: console_alarm_def due_def unat_gt_0)
  then show ?case by simp
next
  case (Suc n)
  obtain v where v: "alt_avalon_timer_sc_irq run_callback LED_TIMER_BASE h w = Some v"
    "console_alarm (if d = 1 then r else d - 1) v"
    "uart v = (uart w)\<lparr>ju_host_inactive := ju_host_inactive (uart w) + (if d = 1 then 1 else 0)\<rparr>"
    "alt_nticks (hal v) = alt_nticks (hal w) + 1" "alt_tick_rate (hal v) = alt_tick_rate (hal w)"
    using clock_interrupt_step [OF Suc.prems(1-3) _ Suc.prems(5)] Suc.prems(4) by auto
  have inc: "unat (ju_host_inactive (uart v)) = unat (ju_host_inactive (uart w)) + (if d = 1 then 1 else 0)"
    using Suc.prems(4) unat_plus_nat [of 1 "ju_host_inactive (uart w)"] by (simp add: v(3))
  have "unat (ju_host_inactive (uart v)) + n < 2 ^ 31 - 3" using Suc.prems(4) by (simp add: inc)
  then obtain w' where w': "clock_interrupts n h v = Some w'" "alt_nticks (hal w') = alt_nticks (hal v) + word_of_nat n"
    "unat (ju_host_inactive (uart w')) = unat (ju_host_inactive (uart v)) + (n + r - (if d = 1 then r else d - 1)) div r"
    using Suc.IH [OF v(2) Suc.prems(2)] Suc.prems(3,5) v(3,5) by auto
  have "0 < r" "0 < d" using Suc.prems(1,5) by (auto simp: console_alarm_def due_def unat_gt_0)
  from div_step [OF this, of n] show ?case using v(1,4) w' inc by (simp del: div_mult_self1 add.commute)
qed

subsection \<open>Waiting\<close>

abbreviation "clock_irq \<equiv> alt_avalon_timer_sc_irq run_callback LED_TIMER_BASE"

lemma last_second:
  fixes t i r d :: nat
  assumes "i < t" and "0 < d"
  shows "(t - i - 1) * r + d = 1 + (if d = 1 then if Suc i = t then 0 else (t - Suc i - 1) * r + r else (t - i - 1) * r + (d - 1))"
proof -
  obtain m where "t = Suc i + m" using assms(1) less_imp_Suc_add by fastforce
  then show ?thesis using assms(2) by (cases m) auto
qed

lemma wait_times_out:
  assumes "console_alarm d w" and "host_gone h" and "ju_base (uart w) = JTAG_UART_BASE"
    and "ju_host_inactive (uart w) < ju_timeout (uart w)" and "unat (ju_timeout (uart w)) < 2 ^ 31 - 3"
    and "n = (unat (ju_timeout (uart w)) - unat (ju_host_inactive (uart w)) - 1) * unat (alt_tick_rate (hal w)) + d"
  shows "\<exists>w'. uart_wait (\<lambda>v. out' = tx_out (uart v)) clock_irq h w = Some w' \<and>
    (out' = tx_out (uart w) \<longrightarrow> uart w' = (uart w)\<lparr>ju_host_inactive := ju_timeout (uart w)\<rparr> \<and>
      served (trace w') = served (trace w) + n \<and> alt_nticks (hal w') = alt_nticks (hal w) + word_of_nat n)"
  using assms
proof (induction n arbitrary: w d rule: less_induct)
  case (less n)
  let ?r = "unat (alt_tick_rate (hal w))"
  let ?i = "unat (ju_host_inactive (uart w))"
  let ?t = "unat (ju_timeout (uart w))"
  have it: "?i < ?t" using less.prems(4) by (simp add: word_less_nat_alt)
  have pos: "0 < d" using less.prems(1) by (auto simp: console_alarm_def due_def)
  note n = less.prems(6) [unfolded last_second [OF it pos]]
  have u: "console_alarm d (logged w [Spin 1])" "uart (logged w [Spin 1]) = uart w"
    using less.prems(1) by (simp_all add: console_alarm_def hal_logged)
  obtain v where v: "clock_irq h (logged w [Spin 1]) = Some v" "console_alarm (if d = 1 then ?r else d - 1) v"
    "uart v = (uart w)\<lparr>ju_host_inactive := ju_host_inactive (uart w) + (if d = 1 then 1 else 0)\<rparr>"
    "alt_tick_rate (hal v) = alt_tick_rate (hal w)" "alt_nticks (hal v) = alt_nticks (hal w) + 1"
    "served (trace v) = Suc (served (trace w))"
    using clock_interrupt_step [OF u(1) less.prems(2), of ?r] u(2) less.prems(3,5) it by (auto simp: hal_logged)
  have to: "ju_timeout (uart v) = ju_timeout (uart w)" by (simp add: v(3))
  have inc: "unat (ju_host_inactive (uart v)) = ?i + (if d = 1 then 1 else 0)"
    using less.prems(5) it unat_plus_nat [of 1 "ju_host_inactive (uart w)"] by (simp add: v(3))
  show ?case
  proof (cases "out' = tx_out (uart w)")
    case False
    then show ?thesis by (subst uart_wait.simps) simp
  next
    case True
    then have step: "uart_wait (\<lambda>v. out' = tx_out (uart v)) clock_irq h w = uart_wait (\<lambda>v. out' = tx_out (uart v)) clock_irq h v"
      using less.prems(4) v(1) by (subst uart_wait.simps) simp
    show ?thesis
    proof (cases "ju_host_inactive (uart v) < ju_timeout (uart v)")
      case True
      then have "?i + (if d = 1 then 1 else 0) < ?t" using inc v(3) by (simp add: word_less_nat_alt)
      define k where "k = n - 1"
      have k: "n = Suc k" using n by (simp add: k_def)
      have m: "k = (unat (ju_timeout (uart v)) - unat (ju_host_inactive (uart v)) - 1) * unat (alt_tick_rate (hal v)) +
          (if d = 1 then ?r else d - 1)"
        using n inc to \<open>?i + (if d = 1 then 1 else 0) < ?t\<close> by (auto simp: v(4) k_def)
      have "ju_base (uart v) = JTAG_UART_BASE" "unat (ju_timeout (uart v)) < 2 ^ 31 - 3"
        using less.prems(3,5) by (simp_all add: v(3))
      from less.IH [OF _ v(2) less.prems(2) this(1) True this(2) m] k obtain w' where
        w': "uart_wait (\<lambda>v. out' = tx_out (uart v)) clock_irq h v = Some w'"
        "out' = tx_out (uart v) \<longrightarrow> uart w' = (uart v)\<lparr>ju_host_inactive := ju_timeout (uart v)\<rparr> \<and>
          served (trace w') = served (trace v) + k \<and> alt_nticks (hal w') = alt_nticks (hal v) + word_of_nat k"
        by blast
      have "out' = tx_out (uart v)" using \<open>out' = tx_out (uart w)\<close> by (simp add: v(3))
      then have "uart w' = (uart w)\<lparr>ju_host_inactive := ju_timeout (uart w)\<rparr>" "served (trace w') = served (trace w) + n"
        "alt_nticks (hal w') = alt_nticks (hal w) + word_of_nat n"
        using w'(2) by (simp_all add: v(3,5,6) k)
      then show ?thesis using step w'(1) by simp
    next
      case False
      then have last: "ju_host_inactive (uart v) = ju_timeout (uart w)" "d = 1" "Suc ?i = ?t"
        using inc it v(3) by (auto simp: word_less_nat_alt word_unat_eq_iff split: if_splits)
      then have "n = 1" using n by simp
      then show ?thesis using False step v(3,5,6) last by (subst (asm) uart_wait.simps) auto
    qed
  qed
qed

text \<open>C33: while the clock runs, a program that prints to a host that is gone is not held up for ever: a
  blocking write of more bytes than the transmit buffer has room for returns after the driver's time-out,
  exactly: with \<open>i\<close> of the \<open>T\<close> seconds of the time-out already counted and the console's alarm due at the
  \<open>d\<close>-th tick, it returns at the tick of the alarm's last run, \<open>T - i - 1\<close> seconds after the \<open>d\<close>-th tick. That
  many interrupts of the timer are served, no more and no fewer, and the tick count advances by as
  many, modulo its 32 bits: the alarm keeps time when the count rolls over during the wait. The write has
  stored as many bytes as there was room for and returns their number, or the error code when there
  was none; the console counts as idle for the whole time-out.\<close>

theorem console_write_gives_up:
  assumes "uart_ok (uart w)" and "console_alarm d w" and "host_gone h" and "ju_base (uart w) = JTAG_UART_BASE"
    and "ju_host_inactive (uart w) < ju_timeout (uart w)" and "unat (ju_timeout (uart w)) < 2 ^ 31 - 3"
    and "length bs > room (uart w)" and "flags AND O_NONBLOCK = 0"
    and "n = (unat (ju_timeout (uart w)) - unat (ju_host_inactive (uart w)) - 1) * unat (alt_tick_rate (hal w)) + d"
  shows "\<exists>w'. altera_avalon_jtag_uart_write clock_irq bs flags h w =
      Some (if room (uart w) \<noteq> 0 then int (room (uart w)) else - EIO, w') \<and>
    tx_queue (uart w') = tx_queue (uart w) @ take (room (uart w)) bs \<and> ju_host_inactive (uart w') = ju_timeout (uart w) \<and>
    served (trace w') = served (trace w) + n \<and> alt_nticks (hal w') = alt_nticks (hal w) + word_of_nat n"
proof -
  obtain b i where c: "uart_copy_in bs w = Some (drop (room (uart w)) bs, on_uart (\<lambda>sp. sp\<lparr>tx_buf := b, tx_in := i\<rparr>) w)"
    and q: "tx_queue ((uart w)\<lparr>tx_buf := b, tx_in := i\<rparr>) = tx_queue (uart w) @ take (room (uart w)) bs"
    using copy_in_result [OF assms(1)] by blast
  define u where "u = on_uart (\<lambda>sp. sp\<lparr>tx_buf := b, tx_in := i\<rparr>) w"
  define v where "v = on_uart (\<lambda>sp. sp\<lparr>ju_irq_enable := ju_irq_enable sp OR WE_MSK\<rparr>)
    (logged u [Iowr (ju_base (uart u)) 1 (ju_irq_enable (uart u) OR WE_MSK)])"
  have e: "enable_irq WE_MSK u = Some v" unfolding v_def by (rule enable_irq_result)
  have v: "uart v = (uart w)\<lparr>tx_buf := b, tx_in := i, ju_irq_enable := ju_irq_enable (uart w) OR WE_MSK\<rparr>"
    "alt_tick_rate (hal v) = alt_tick_rate (hal w)" "alt_nticks (hal v) = alt_nticks (hal w)" "served (trace v) = served (trace w)"
    using assms(4) by (simp_all add: v_def u_def on_uart_logged)
  have "console_alarm d v" using assms(2) by (simp add: console_alarm_def v_def u_def on_uart_logged)
  then obtain w' where w': "uart_wait (\<lambda>x. tx_out (uart v) = tx_out (uart x)) clock_irq h v = Some w'"
    "uart w' = (uart v)\<lparr>ju_host_inactive := ju_timeout (uart v)\<rparr>"
    "served (trace w') = served (trace v) + n" "alt_nticks (hal w') = alt_nticks (hal v) + word_of_nat n"
    using wait_times_out [of d v h n "tx_out (uart v)"] assms(3-6,9) v by auto
  have "ju_host_inactive (uart w') \<noteq> 0" using w'(2) v(1) assms(5) by (auto simp: word_less_nat_alt)
  moreover have "drop (room (uart w)) bs \<noteq> []" using assms(7) by simp
  ultimately have "uart_write_loop clock_irq bs flags h w = Some (drop (room (uart w)) bs, w')"
    using c e w'(1) assms(8) by (subst uart_write_loop.simps) (simp add: u_def [symmetric])
  moreover have "tx_queue (uart w') = tx_queue ((uart w)\<lparr>tx_buf := b, tx_in := i\<rparr>)"
    by (simp add: w'(2) v(1) tx_queue_def)
  ultimately show ?thesis
    using assms(7,8) q w'(2-4) v by (auto simp: altera_avalon_jtag_uart_write_def Let_def)
qed

text \<open>The witness: the tick count stands 500 below its roll-over, the alarm is due at the 1001st tick.\<close>

definition late_world :: world where
  "late_world = world_init\<lparr>hal := hal_booted\<lparr>alt_nticks := - 500,
     alarms := [\<lparr>al_time = 501, al_rollover = 1, al_callback = Altera_avalon_jtag_uart_timeout\<rparr>]\<rparr>\<rparr>"

theorem console_write_gives_up_witness:
  "\<exists>w'. altera_avalon_jtag_uart_write clock_irq (replicate 2048 7) 0 quiet_env late_world = Some (2047, w') \<and>
    ju_host_inactive (uart w') = 10 \<and> served (trace w') = 10001 \<and> alt_nticks (hal w') = 9501"
proof -
  have b: "uart_ok (uart late_world)" "room (uart late_world) = 2047" "ju_base (uart late_world) = JTAG_UART_BASE"
    "ju_timeout (uart late_world) = 10" "ju_host_inactive (uart late_world) = 0" "alt_nticks (hal late_world) = - 500"
    "alt_tick_rate (hal late_world) = 1000" "served (trace late_world) = 0"
    by (simp_all add: late_world_def hal_booted_def jtag_uart_init_state_def uart_ok_def ALTERA_AVALON_JTAG_UART_BUF_LEN_def room_def
        tx_queue_def ALTERA_AVALON_JTAG_UART_DEFAULT_TIMEOUT_def world_init_def)
  have "host_gone quiet_env" by (simp add: host_gone_def quiet_env_def)
  moreover have "console_alarm 1001 late_world"
    by (simp add: late_world_def console_alarm_def hal_booted_def hal_init_def due_def)
  ultimately show ?thesis
    using console_write_gives_up [of late_world 1001 quiet_env "replicate 2048 7" 0 10001] b by auto
qed

end
