(* ===== verification/FileSpec.thy ===== *)
theory FileSpec
  imports BootSpec
begin

unbundle bit_operations_syntax

text \<open>
  What the pool of file descriptors promises: \<open>pool_ok\<close> holds from start-up on, opening a device takes
  the lowest free descriptor or fails for one of three reasons, closing it gives the descriptor back,
  and a device that is locked for exclusive access is not opened again. The lock itself overlooks the
  highest descriptor.
\<close>

definition used :: "hal \<Rightarrow> nat \<Rightarrow> bool" where
  "used s i \<longleftrightarrow> fd_dev (alt_fd_list s ! i) \<noteq> None"

definition pool_ok :: "hal \<Rightarrow> bool" where
  "pool_ok s \<longleftrightarrow> length (alt_fd_list s) = 32 \<and> - 1 \<le> alt_max_fd s \<and> alt_max_fd s < 32 \<and>
     (\<forall>i<32. used s i \<longrightarrow> int i \<le> max 2 (alt_max_fd s)) \<and> (\<forall>i<3. used s i) \<and>
     (\<forall>i<32. \<not> used s i \<longrightarrow> fd_flags (alt_fd_list s ! i) = 0)"

definition exclusive :: "alt_dev \<Rightarrow> hal \<Rightarrow> bool" where
  \<comment> \<open>some descriptor has the device for itself\<close>
  "exclusive dev s \<longleftrightarrow> (\<exists>i<32. fd_dev (alt_fd_list s ! i) = Some dev \<and> fd_flags (alt_fd_list s ! i) AND ALT_FD_EXCL \<noteq> 0)"

definition free_fds :: "hal \<Rightarrow> nat list" where
  "free_fds s = filter (\<lambda>i. \<not> used s i) [0..<32]"

definition promised :: "string \<Rightarrow> hal \<Rightarrow> int + nat \<times> alt_dev" where
  \<comment> \<open>what \<open>open\<close> promises: an error code, or the descriptor and its device\<close>
  "promised file s = (case alt_find_dev alt_dev_name file (alt_dev_list s) of
     None \<Rightarrow> Inl ENODEV
   | Some dev \<Rightarrow> if free_fds s = [] then Inl EMFILE
       else if exclusive dev s then Inl EACCES else Inr (hd (free_fds s), dev))"

definition opened :: "alt_dev \<Rightarrow> uint \<Rightarrow> alt_fd \<Rightarrow> alt_fd" where
  "opened dev flags f = f\<lparr>fd_dev := Some dev, fd_flags := flags AND NOT ALT_FD_FLAGS_MASK OR ALT_FD_DEV\<rparr>"

lemma opened_fields: "(opened dev flags f)\<lparr>fd_flags := x, fd_dev := d\<rparr> = f\<lparr>fd_flags := x, fd_dev := d\<rparr>"
  by (simp add: opened_def)

lemma first_free_filter:
  "first_free i fds = (case filter (\<lambda>j. fd_dev (fds ! j) = None) [0..<length fds] of [] \<Rightarrow> None | j # _ \<Rightarrow> Some (i + j))"
proof (induction fds arbitrary: i)
  case (Cons f fds)
  have "[0..<length (f # fds)] = 0 # map Suc [0..<length fds]" by (simp add: upt_conv_Cons map_Suc_upt del: upt_Suc)
  then show ?case by (simp add: Cons filter_map o_def split: list.splits)
qed simp

lemma first_free_result:
  assumes "pool_ok s"
  shows "first_free 0 (alt_fd_list s) = (if free_fds s = [] then None else Some (hd (free_fds s)))"
  using assms by (simp add: first_free_filter free_fds_def used_def pool_ok_def split: list.splits)

lemma hd_free:
  assumes "free_fds s \<noteq> []" and "pool_ok s" and "k = hd (free_fds s)"
  shows "k < 32" "\<not> used s k" "3 \<le> k"
proof -
  have "k \<in> set (free_fds s)" using assms(1,3) by simp
  then show "k < 32" "\<not> used s k" by (simp_all add: free_fds_def)
  then show "3 \<le> k" using assms(2) by (auto simp: pool_ok_def not_le [symmetric])
qed

lemma free_lowest:
  assumes "j < hd (free_fds s)" and "free_fds s \<noteq> []" and "hd (free_fds s) < 32"
  shows "used s j"
proof (rule ccontr)
  assume "\<not> used s j"
  then have "j \<in> set (free_fds s)" using assms by (simp add: free_fds_def)
  moreover have "sorted (free_fds s)" by (simp add: free_fds_def sorted_wrt_filter)
  ultimately show False using assms(1,2) by (cases "free_fds s") auto
qed

lemma get_fd_result:
  assumes "pool_ok s"
  shows "alt_get_fd dev s = (if free_fds s = [] then (- EMFILE, s)
    else let k = hd (free_fds s) in (int k, s\<lparr>alt_fd_list := (alt_fd_list s)[k := (alt_fd_list s ! k)\<lparr>fd_dev := Some dev\<rparr>],
      alt_max_fd := max (int k) (alt_max_fd s)\<rparr>))"
  by (simp add: alt_get_fd_def first_free_result [OF assms] Let_def max_def)

lemma unat_fd: "0 \<le> m \<Longrightarrow> m < 32 \<Longrightarrow> unat (word_of_int m :: uint) = nat m"
  by (simp add: unat_eq_nat_uint uint_word_of_int)

lemma locked_result:
  assumes "pool_ok s" and "k < 32" and "3 \<le> k" and "\<not> used s k" and "m = max (int k) (alt_max_fd s)"
  shows "alt_file_locked (int k) (s\<lparr>alt_fd_list := (alt_fd_list s)[k := f], alt_max_fd := m\<rparr>) =
    Some (if \<exists>i<32. i \<noteq> k \<and> fd_dev (alt_fd_list s ! i) = fd_dev f \<and> fd_flags (alt_fd_list s ! i) AND ALT_FD_EXCL \<noteq> 0 then - EACCES else 0,
      s\<lparr>alt_fd_list := (alt_fd_list s)[k := f\<lparr>fd_flags := fd_flags f OR ALT_FD_DEV\<rparr>], alt_max_fd := m\<rparr>)"
proof -
  have len: "length (alt_fd_list s) = 32" and m: "0 \<le> m" "m < 32"
    using assms by (auto simp: pool_ok_def)
  have "(\<exists>j\<in>{0..<nat m + 1}. fd_dev ((alt_fd_list s)[k := g] ! j) = fd_dev f \<and> fd_flags ((alt_fd_list s)[k := g] ! j) AND ALT_FD_EXCL \<noteq> 0 \<and> int j \<noteq> int k) \<longleftrightarrow>
    (\<exists>i<32. i \<noteq> k \<and> fd_dev (alt_fd_list s ! i) = fd_dev f \<and> fd_flags (alt_fd_list s ! i) AND ALT_FD_EXCL \<noteq> 0)" (is "?l \<longleftrightarrow> ?r") for g
  proof
    assume ?l
    then obtain j where j: "j < nat m + 1" "j \<noteq> k" "fd_dev (alt_fd_list s ! j) = fd_dev f" "fd_flags (alt_fd_list s ! j) AND ALT_FD_EXCL \<noteq> 0"
      by (auto simp: nth_list_update)
    moreover have "j < 32" using j(1) m by linarith
    ultimately show ?r by blast
  next
    assume ?r
    then obtain i where i: "i < 32" "i \<noteq> k" "fd_dev (alt_fd_list s ! i) = fd_dev f" "fd_flags (alt_fd_list s ! i) AND ALT_FD_EXCL \<noteq> 0"
      by blast
    have "used s i" using i(1,4) assms(1) by (auto simp: pool_ok_def)
    then have "int i \<le> max 2 (alt_max_fd s)" using i(1) assms(1) by (simp add: pool_ok_def)
    then have "i < nat m + 1" using assms(3,5) by auto
    then show ?l using i by (intro bexI [of _ i]) simp_all
  qed
  then show ?thesis
    using m assms(2) len by (simp add: alt_file_locked_def set_fd_def get_fd_def slice_def unat_fd Let_def nat_add_distrib)
qed

definition after_open :: "string \<Rightarrow> uint \<Rightarrow> hal \<Rightarrow> int \<times> hal" where
  \<comment> \<open>the pool after \<open>open\<close>; only the mark of the highest descriptor may stay raised by a refusal\<close>
  "after_open file flags s = (let m = (case alt_find_dev alt_dev_name file (alt_dev_list s) of
       Some dev \<Rightarrow> if free_fds s = [] then alt_max_fd s else max (int (hd (free_fds s))) (alt_max_fd s)
     | None \<Rightarrow> alt_max_fd s) in
     case promised file s of
       Inl e \<Rightarrow> (- 1, s\<lparr>alt_max_fd := m, alt_errno := e\<rparr>)
     | Inr (k, dev) \<Rightarrow> (int k, s\<lparr>alt_fd_list := (alt_fd_list s)[k := opened dev flags (alt_fd_list s ! k)], alt_max_fd := m\<rparr>))"

lemma pool_mark:
  assumes "pool_ok s" and "alt_max_fd s \<le> m" and "m < 32"
  shows "pool_ok (s\<lparr>alt_max_fd := m, alt_errno := e\<rparr>)"
  using assms by (auto simp: pool_ok_def used_def)

lemma pool_opened:
  assumes "pool_ok s" and "k < 32" and "fd_dev f \<noteq> None" and "m = max (int k) (alt_max_fd s)"
  shows "pool_ok (s\<lparr>alt_fd_list := (alt_fd_list s)[k := f], alt_max_fd := m\<rparr>)"
  using assms by (auto simp: pool_ok_def used_def nth_list_update)

lemma exclusive_others:
  assumes "\<not> used s k"
  shows "exclusive dev s \<longleftrightarrow> (\<exists>i<32. i \<noteq> k \<and> fd_dev (alt_fd_list s ! i) = Some dev \<and> fd_flags (alt_fd_list s ! i) AND ALT_FD_EXCL \<noteq> 0)"
  using assms by (auto simp: exclusive_def used_def)

text \<open>C35: opening a device, on every branch: an unknown name, a pool without a free descriptor and a device
  that another descriptor has for itself are refused with their codes and leave the descriptors as they
  were; otherwise the lowest free descriptor, and no other, becomes one of the device, without the
  flags that are reserved to the pool. The pool stays well-formed.\<close>

theorem open_every_branch:
  assumes "pool_ok s"
  shows "ALT_OPEN file flags s = Some (after_open file flags s) \<and> pool_ok (snd (after_open file flags s))"
proof (cases "alt_find_dev alt_dev_name file (alt_dev_list s)")
  case None
  have "pool_ok (s\<lparr>alt_errno := ENODEV\<rparr>)" using pool_mark [OF assms order.refl, of ENODEV] assms by (simp add: pool_ok_def)
  then show ?thesis using None by (simp add: ALT_OPEN_def after_open_def promised_def fail_def)
next
  case (Some dev)
  show ?thesis
  proof (cases "free_fds s = []")
    case True
    have "pool_ok (s\<lparr>alt_errno := EMFILE\<rparr>)" using pool_mark [OF assms order.refl, of EMFILE] assms by (simp add: pool_ok_def)
    then show ?thesis
      using Some True by (simp add: ALT_OPEN_def after_open_def promised_def fail_def get_fd_result [OF assms] EMFILE_def)
  next
    case False
    define k where "k = hd (free_fds s)"
    define m where "m = max (int k) (alt_max_fd s)"
    define f where "f = (alt_fd_list s ! k)\<lparr>fd_dev := Some dev, fd_flags := flags AND NOT ALT_FD_FLAGS_MASK\<rparr>"
    note k = hd_free [OF False assms k_def]
    have len: "length (alt_fd_list s) = 32" and m: "alt_max_fd s \<le> m" "m < 32" using assms k(1) by (auto simp: pool_ok_def m_def)
    have get: "alt_get_fd dev s = (int k, s\<lparr>alt_fd_list := (alt_fd_list s)[k := (alt_fd_list s ! k)\<lparr>fd_dev := Some dev\<rparr>], alt_max_fd := m\<rparr>)"
      using False by (simp add: get_fd_result [OF assms] k_def [symmetric] m_def)
    have lock: "alt_file_locked (int k) (s\<lparr>alt_fd_list := (alt_fd_list s)[k := f], alt_max_fd := m\<rparr>) =
      Some (if exclusive dev s then - EACCES else 0, s\<lparr>alt_fd_list := (alt_fd_list s)[k := opened dev flags (alt_fd_list s ! k)], alt_max_fd := m\<rparr>)"
      by (simp add: locked_result [OF assms k(1,3,2) m_def] exclusive_others [OF k(2)] f_def opened_def)
    have swap: "s\<lparr>alt_max_fd := m, alt_fd_list := l\<rparr> = s\<lparr>alt_fd_list := l, alt_max_fd := m\<rparr>" for l by simp
    have freed: "(alt_fd_list s)[k := (alt_fd_list s ! k)\<lparr>fd_flags := 0, fd_dev := None\<rparr>] = alt_fd_list s"
    proof -
      have "fd_flags (alt_fd_list s ! k) = 0" "fd_dev (alt_fd_list s ! k) = None"
        using k assms by (simp_all add: pool_ok_def used_def)
      then have "(alt_fd_list s ! k)\<lparr>fd_flags := 0, fd_dev := None\<rparr> = alt_fd_list s ! k" by (cases "alt_fd_list s ! k") simp
      then show ?thesis by (simp only: list_update_id)
    qed
    have "ALT_OPEN file flags s = Some (after_open file flags s)"
      using Some False lock k(3) freed len k(1)
      by (simp add: ALT_OPEN_def get set_fd_def f_def [symmetric] after_open_def promised_def k_def [symmetric] m_def [symmetric]
          alt_release_fd_def fail_def EACCES_def Let_def swap opened_fields)
    moreover have "pool_ok (snd (after_open file flags s))"
      using Some False pool_mark [OF assms m] pool_opened [OF assms k(1) _ m_def]
      by (simp add: after_open_def promised_def k_def [symmetric] m_def [symmetric] opened_def Let_def)
    ultimately show ?thesis by blast
  qed
qed

lemma standard_pool: "alt_fd_list hal_booted = standard_fds" "alt_max_fd hal_booted = 3" "length standard_fds = 32"
  "i < 32 \<Longrightarrow> standard_fds ! i = (if i = 0 then console_fd O_RDONLY else if i < 3 then console_fd O_WRONLY else closed_fd)"
  by (auto simp: hal_booted_def standard_fds_def nth_append nth_Cons split: nat.splits)

lemma booted_pool: "pool_ok hal_booted"
proof -
  have "used hal_booted i \<longleftrightarrow> i < 3" if "i < 32" for i
    using that console_fd_simps(1) by (simp add: used_def standard_pool closed_fd_def)
  then show ?thesis by (auto simp: pool_ok_def standard_pool closed_fd_def)
qed

lemma booted_free: "free_fds hal_booted = [3..<32]"
proof -
  have "used hal_booted i \<longleftrightarrow> i < 3" if "i < 32" for i
    using that console_fd_simps(1) by (simp add: used_def standard_pool closed_fd_def)
  then have "free_fds hal_booted = filter (\<lambda>i. \<not> i < 3) [0..<32]" unfolding free_fds_def by (intro filter_cong) auto
  also have "\<dots> = [3..<32]" by code_simp
  finally show ?thesis .
qed

lemma booted_shared: "\<not> exclusive dev hal_booted"
  using console_fd_simps(2,3) by (auto simp: exclusive_def standard_pool closed_fd_def)

theorem open_every_branch_witness:
  "\<exists>s. ALT_OPEN ''/dev/jtag_uart'' 2 hal_booted = Some (3, s) \<and> pool_ok s \<and> alt_fd_list s = standard_fds[3 := console_fd 2]"
proof -
  have d: "alt_dev_list hal_booted = [Jtag_uart_dev, Alt_dev_null]" by (simp add: hal_booted_def)
  have p: "promised ''/dev/jtag_uart'' hal_booted = Inr (3, Jtag_uart_dev)"
    using alt_find_console by (simp add: promised_def d booted_free booted_shared)
  have "standard_fds ! 3 = closed_fd" by (simp add: standard_pool)
  then have "after_open ''/dev/jtag_uart'' 2 hal_booted = (3, hal_booted\<lparr>alt_fd_list := standard_fds[3 := console_fd 2], alt_max_fd := 3\<rparr>)"
    using alt_find_console
    by (simp add: after_open_def p d booted_free standard_pool opened_def closed_fd_def console_fd_def)
  then show ?thesis using open_every_branch [OF booted_pool, of "''/dev/jtag_uart''" 2] by simp
qed

subsection \<open>Closing and locking\<close>

lemma close_returns:
  assumes "pool_ok s" and "promised file s = Inr (k, dev)"
  shows "\<exists>s'. alt_release_fd (int k) (snd (after_open file flags s)) = Some s' \<and> alt_fd_list s' = alt_fd_list s"
proof -
  have "free_fds s \<noteq> []" and k: "k = hd (free_fds s)"
    using assms(2) by (auto simp: promised_def split: option.splits if_splits)
  note k3 = hd_free [OF this(1) assms(1) k]
  have "fd_flags (alt_fd_list s ! k) = 0" "fd_dev (alt_fd_list s ! k) = None" "length (alt_fd_list s) = 32"
    using k3 assms(1) by (simp_all add: pool_ok_def used_def)
  then have "(alt_fd_list s)[k := (alt_fd_list s ! k)\<lparr>fd_flags := 0, fd_dev := None\<rparr>] = alt_fd_list s"
    by (metis (full_types) alt_fd.surjective alt_fd.update_convs(1,3) list_update_id)
  then show ?thesis
    using k3 \<open>length _ = 32\<close> by (simp add: after_open_def assms(2) alt_release_fd_def set_fd_def opened_fields Let_def)
qed

lemma lock_excludes:
  assumes "alt_fd_lock (int i) s = Some (0, s')" and "i < 32" and "length (alt_fd_list s) = 32" and "fd_dev (alt_fd_list s ! i) = Some dev"
  shows "exclusive dev s'"
proof -
  have "s' = s\<lparr>alt_fd_list := (alt_fd_list s)[i := (alt_fd_list s ! i)\<lparr>fd_flags := fd_flags (alt_fd_list s ! i) OR ALT_FD_EXCL\<rparr>]\<rparr>"
    using assms(1-3) by (auto simp: alt_fd_lock_def get_fd_def set_fd_def EACCES_def split: bind_splits if_splits)
  moreover have "(x OR ALT_FD_EXCL) AND ALT_FD_EXCL \<noteq> 0" for x
  proof -
    have "bit ((x OR ALT_FD_EXCL) AND ALT_FD_EXCL) 31" by (simp add: ALT_FD_EXCL_def bit_simps bit_numeral_rec)
    then show ?thesis by force
  qed
  ultimately show ?thesis using assms(2-4) by (auto simp: exclusive_def intro!: exI [of _ i])
qed

lemma lock_misses_highest:
  assumes "length (alt_fd_list s) = 32" and "alt_max_fd s = int j" and "j < 32" and "i < 32" and "i \<noteq> j"
    and "\<And>l. l < j \<Longrightarrow> l \<noteq> i \<Longrightarrow> fd_dev (alt_fd_list s ! l) \<noteq> fd_dev (alt_fd_list s ! i)"
  shows "\<exists>s'. alt_fd_lock (int i) s = Some (0, s') \<and> alt_fd_list s' ! j = alt_fd_list s ! j"
  using assms by (auto simp: alt_fd_lock_def get_fd_def set_fd_def slice_def Let_def)

end
