(* ===== verification/Llist.thy ===== *)
theory Llist
  imports Prelude
begin

text \<open>
  The doubly linked lists of the support package (\<open>sys/alt_llist.h\<close>): every list is a ring of links
  through its head. The links live in a store, a map from addresses to links; following an address that
  holds none leaves defined behaviour. The lists of \<open>Hal\<close> (registered alarms and devices) are what
  these rings represent: a theorem below justifies that insertion is \<open>#\<close> and removal \<open>remove1\<close> there.
\<close>

type_synonym addr = nat

record alt_llist =
  ll_next :: addr
  ll_previous :: addr

type_synonym links = "addr \<Rightarrow> alt_llist option"

definition set_next :: "addr \<Rightarrow> addr \<Rightarrow> links \<Rightarrow> links option" where
  "set_next a v m = do { l \<leftarrow> m a; Some (m(a \<mapsto> l\<lparr>ll_next := v\<rparr>)) }"

definition set_previous :: "addr \<Rightarrow> addr \<Rightarrow> links \<Rightarrow> links option" where
  "set_previous a v m = do { l \<leftarrow> m a; Some (m(a \<mapsto> l\<lparr>ll_previous := v\<rparr>)) }"

definition ALT_LLIST_HEAD :: "addr \<Rightarrow> alt_llist" where
  "ALT_LLIST_HEAD head = \<lparr>ll_next = head, ll_previous = head\<rparr>"

definition alt_llist_insert :: "addr \<Rightarrow> addr \<Rightarrow> links \<Rightarrow> links option" where
  "alt_llist_insert list entry m = do {
     m \<leftarrow> set_previous entry list m;
     l \<leftarrow> m list;
     m \<leftarrow> set_next entry (ll_next l) m;
     l \<leftarrow> m list;
     m \<leftarrow> set_previous (ll_next l) entry m;
     set_next list entry m
   }"

definition alt_llist_remove :: "addr \<Rightarrow> links \<Rightarrow> links option" where
  "alt_llist_remove entry m = do {
     e \<leftarrow> m entry;
     m \<leftarrow> set_previous (ll_next e) (ll_previous e) m;
     e \<leftarrow> m entry;
     m \<leftarrow> set_next (ll_previous e) (ll_next e) m;
     m \<leftarrow> set_previous entry entry m;
     set_next entry entry m
   }"

partial_function (option) walk :: "links \<Rightarrow> addr \<Rightarrow> addr \<Rightarrow> addr list option" where
  \<comment> \<open>the elements a loop over the list visits, as in \<open>alt_find_dev\<close>: from \<open>a\<close> until the head comes back\<close>
  "walk m head a =
     (if a = head then Some []
      else do { l \<leftarrow> m a; rest \<leftarrow> walk m head (ll_next l); Some (a # rest) })"

subsection \<open>Rings\<close>

definition nxt :: "links \<Rightarrow> addr \<Rightarrow> addr option" where "nxt m a = map_option ll_next (m a)"
definition prv :: "links \<Rightarrow> addr \<Rightarrow> addr option" where "prv m a = map_option ll_previous (m a)"

fun linked :: "links \<Rightarrow> addr list \<Rightarrow> bool" where
  "linked m (a # b # xs) \<longleftrightarrow> nxt m a = Some b \<and> prv m b = Some a \<and> linked m (b # xs)"
| "linked m _ \<longleftrightarrow> True"

definition represents :: "links \<Rightarrow> addr \<Rightarrow> addr list \<Rightarrow> bool" where
  "represents m head xs \<longleftrightarrow> distinct (head # xs) \<and> linked m (head # xs @ [head])"

lemma linked_append: "linked m (xs @ y # zs) \<longleftrightarrow> linked m (xs @ [y]) \<and> linked m (y # zs)"
  by (induction m xs rule: linked.induct) (auto simp: neq_Nil_conv split: list.splits)

lemma linked_cong:
  assumes "linked m ys" and "\<And>a. a \<in> set (butlast ys) \<Longrightarrow> nxt m' a = nxt m a" and "\<And>a. a \<in> set (tl ys) \<Longrightarrow> prv m' a = prv m a"
  shows "linked m' ys"
  using assms
proof (induction m ys rule: linked.induct)
  case (1 m a b xs)
  have "linked m' (b # xs)"
    by (rule "1.IH") (use "1.prems" in \<open>cases xs; simp\<close>)+
  then show ?case using "1.prems" by simp
qed simp_all

lemma set_link_simps:
  "set_next a v m = (if m a = None then None else Some (m(a \<mapsto> (the (m a))\<lparr>ll_next := v\<rparr>)))"
  "set_previous a v m = (if m a = None then None else Some (m(a \<mapsto> (the (m a))\<lparr>ll_previous := v\<rparr>)))"
  by (auto simp: set_next_def set_previous_def)

lemma nxt_upd: "nxt (m(a \<mapsto> l)) b = (if b = a then Some (ll_next l) else nxt m b)"
  by (simp add: nxt_def)

lemma prv_upd: "prv (m(a \<mapsto> l)) b = (if b = a then Some (ll_previous l) else prv m b)"
  by (simp add: prv_def)

lemma nxt_some: "nxt m a = Some b \<Longrightarrow> \<exists>l. m a = Some l \<and> ll_next l = b"
  by (auto simp: nxt_def)

lemma prv_some: "prv m a = Some b \<Longrightarrow> \<exists>l. m a = Some l \<and> ll_previous l = b"
  by (auto simp: prv_def)

lemma insert_links:
  assumes "nxt m list = Some b" and "m b \<noteq> None" and "m entry \<noteq> None" and "entry \<noteq> list" and "entry \<noteq> b"
  shows "\<exists>m'. alt_llist_insert list entry m = Some m' \<and> dom m' = dom m \<and>
    (\<forall>a. nxt m' a = (if a = list then Some entry else if a = entry then Some b else nxt m a)) \<and>
    (\<forall>a. prv m' a = (if a = entry then Some list else if a = b then Some entry else prv m a))"
  using assms by (auto simp: alt_llist_insert_def set_link_simps nxt_upd prv_upd dest!: nxt_some)
    (auto simp: nxt_def prv_def split: if_splits)

lemma remove_links:
  assumes "nxt m e = Some n" and "prv m e = Some p" and "m n \<noteq> None" and "m p \<noteq> None" and "e \<noteq> n" and "e \<noteq> p"
  shows "\<exists>m'. alt_llist_remove e m = Some m' \<and> dom m' = dom m \<and>
    (\<forall>a. nxt m' a = (if a = p then Some n else if a = e then Some e else nxt m a)) \<and>
    (\<forall>a. prv m' a = (if a = n then Some p else if a = e then Some e else prv m a))"
  using assms by (auto simp: alt_llist_remove_def set_link_simps nxt_upd prv_upd dest!: nxt_some prv_some)
    (auto simp: nxt_def prv_def split: if_splits)

lemma linked_nxt: "linked m (ys @ [z]) \<Longrightarrow> a \<in> set ys \<Longrightarrow> m a \<noteq> None"
proof (induction ys)
  case (Cons y ys)
  then show ?case by (cases ys) (auto dest: nxt_some)
qed simp

lemma represents_dom: "represents m head xs \<Longrightarrow> a \<in> insert head (set xs) \<Longrightarrow> m a \<noteq> None"
  using linked_nxt [of m "head # xs" head] by (simp add: represents_def)

lemma represents_empty: "m head = Some (ALT_LLIST_HEAD head) \<Longrightarrow> represents m head []"
  by (simp add: represents_def nxt_def prv_def ALT_LLIST_HEAD_def)

lemma insert_represents:
  assumes "represents m head xs" and "entry \<notin> insert head (set xs)" and "m entry \<noteq> None"
  shows "\<exists>m'. alt_llist_insert head entry m = Some m' \<and> dom m' = dom m \<and> represents m' head (entry # xs)"
proof -
  obtain b rest where b: "xs @ [head] = b # rest" by (cases "xs @ [head]") auto
  have dist: "distinct (b # rest)" "set (butlast (b # rest)) = set xs"
    using assms(1) by (simp_all only: b [symmetric] butlast_snoc) (simp add: represents_def)
  have lk: "linked m (head # b # rest)" using assms(1) by (simp add: represents_def b)
  have "b \<in> insert head (set xs)" using arg_cong [OF b, of set] by auto
  then have "m b \<noteq> None" "entry \<noteq> b" using represents_dom [OF assms(1)] assms(2) by auto
  then obtain m' where m': "alt_llist_insert head entry m = Some m'" "dom m' = dom m"
    "\<And>a. nxt m' a = (if a = head then Some entry else if a = entry then Some b else nxt m a)"
    "\<And>a. prv m' a = (if a = entry then Some head else if a = b then Some entry else prv m a)"
    using insert_links [of m head b entry] lk assms(2,3) by auto
  have "linked m' (b # rest)"
  proof (rule linked_cong)
    show "linked m (b # rest)" using lk by simp
    show "nxt m' a = nxt m a" if "a \<in> set (butlast (b # rest))" for a
      using that dist(2) assms(1,2) by (auto simp: m'(3) represents_def)
    show "prv m' a = prv m a" if "a \<in> set (tl (b # rest))" for a
    proof -
      have "a \<in> insert head (set xs)" using that arg_cong [OF b, of set] by auto
      then show ?thesis using that dist(1) assms(2) by (auto simp: m'(4))
    qed
  qed
  then have "linked m' (head # entry # xs @ [head])" unfolding b using assms(2) \<open>entry \<noteq> b\<close> by (auto simp: m'(3,4))
  then show ?thesis using m'(1,2) assms(1,2) by (auto simp: represents_def)
qed

lemma remove_represents:
  assumes "represents m head (as @ e # bs)"
  shows "\<exists>m'. alt_llist_remove e m = Some m' \<and> dom m' = dom m \<and> represents m' head (as @ bs) \<and>
    m' e = Some (ALT_LLIST_HEAD e)"
proof -
  define p where "p = last (head # as)"
  define us where "us = butlast (head # as)"
  have up: "head # as = us @ [p]" by (simp add: us_def p_def)
  obtain n vs where nv: "bs @ [head] = n # vs" by (cases "bs @ [head]") auto
  have dist: "distinct (head # as @ e # bs)" using assms by (simp add: represents_def)
  have whole: "head # (as @ e # bs) @ [head] = us @ p # e # n # vs"
  proof -
    have "(head # as) @ e # (bs @ [head]) = us @ p # e # n # vs" unfolding up nv by simp
    then show ?thesis by simp
  qed
  have lk: "linked m (us @ p # e # n # vs)" using assms unfolding represents_def whole by blast
  then have parts: "linked m (us @ [p])" "linked m (n # vs)" "nxt m p = Some e" "prv m e = Some p" "nxt m e = Some n" "prv m n = Some e"
    using linked_append [of m us p "e # n # vs"] by simp_all
  have "insert p (set us) = insert head (set as)" "insert n (set vs) = insert head (set bs)"
    using arg_cong [OF up, of set] arg_cong [OF nv, of set] by auto
  moreover have "set (tl (us @ [p])) = set as" "set (butlast (n # vs)) = set bs"
    by (simp_all add: up [symmetric] nv [symmetric])
  moreover have "distinct (us @ [p])" "distinct (n # vs)"
    using dist by (auto simp: up [symmetric] nv [symmetric])
  ultimately have sets: "insert p (set us) = insert head (set as)" "insert n (set vs) = insert head (set bs)"
    "set (tl (us @ [p])) = set as" "set (butlast (n # vs)) = set bs" "distinct (us @ [p])" "distinct (n # vs)" by blast+
  have "e \<noteq> n" "e \<noteq> p" using sets(1,2) dist by auto
  moreover have "m n \<noteq> None" "m p \<noteq> None" using parts(3,6) by (auto dest: nxt_some prv_some)
  ultimately obtain m' where m': "alt_llist_remove e m = Some m'" "dom m' = dom m"
    "\<And>a. nxt m' a = (if a = p then Some n else if a = e then Some e else nxt m a)"
    "\<And>a. prv m' a = (if a = n then Some p else if a = e then Some e else prv m a)"
    using remove_links [OF parts(5,4)] by auto
  have "linked m' (us @ [p])"
  proof (rule linked_cong [OF parts(1)])
    show "nxt m' a = nxt m a" if "a \<in> set (butlast (us @ [p]))" for a
      using that sets(1,5) dist by (auto simp: m'(3))
    show "prv m' a = prv m a" if "a \<in> set (tl (us @ [p]))" for a
      using that sets(2,3) dist by (auto simp: m'(4))
  qed
  moreover have "linked m' (n # vs)"
  proof (rule linked_cong [OF parts(2)])
    show "nxt m' a = nxt m a" if "a \<in> set (butlast (n # vs))" for a
      using that sets(1,4) dist by (auto simp: m'(3))
    show "prv m' a = prv m a" if "a \<in> set (tl (n # vs))" for a
      using that sets(2,6) dist by (auto simp: m'(4))
  qed
  moreover have "nxt m' p = Some n" "prv m' n = Some p" by (simp_all add: m'(3,4))
  ultimately have "linked m' (us @ p # n # vs)" using linked_append [of m' us p "n # vs"] by simp
  moreover have "head # (as @ bs) @ [head] = us @ p # n # vs"
  proof -
    have "(head # as) @ (bs @ [head]) = us @ p # n # vs" unfolding up nv by simp
    then show ?thesis by simp
  qed
  ultimately have "linked m' (head # (as @ bs) @ [head])" by simp
  moreover have "m' e = Some (ALT_LLIST_HEAD e)"
    using \<open>e \<noteq> n\<close> \<open>e \<noteq> p\<close> m'(3) [of e] m'(4) [of e] by (cases "m' e") (auto simp: nxt_def prv_def ALT_LLIST_HEAD_def)
  ultimately show ?thesis using m'(1,2) dist by (auto simp: represents_def)
qed

lemma remove_again: "m e = Some (ALT_LLIST_HEAD e) \<Longrightarrow> alt_llist_remove e m = Some m"
  by (auto simp: alt_llist_remove_def set_link_simps ALT_LLIST_HEAD_def)

lemma walk_suffix:
  assumes "linked m (a # xs @ [head])" and "head \<notin> set xs"
  shows "\<exists>b. nxt m a = Some b \<and> walk m head b = Some xs"
  using assms
proof (induction xs arbitrary: a)
  case Nil
  then show ?case by (simp add: walk.simps)
next
  case (Cons x xs)
  then have "nxt m a = Some x" "head \<noteq> x" by simp_all
  moreover obtain b where "nxt m x = Some b" "walk m head b = Some xs"
    using Cons.IH [of x] Cons.prems by auto
  ultimately show ?case by (subst walk.simps) (auto dest: nxt_some)
qed

lemma walk_represents:
  assumes "represents m head xs"
  shows "\<exists>l. m head = Some l \<and> walk m head (ll_next l) = Some xs"
  using walk_suffix [of m head xs head] assms by (auto simp: represents_def dest: nxt_some)

subsection \<open>Refinement\<close>

datatype list_op = Insert addr | Remove addr

fun link_op :: "addr \<Rightarrow> list_op \<Rightarrow> links \<Rightarrow> links option" where
  "link_op head (Insert e) m = alt_llist_insert head e m"
| "link_op head (Remove e) m = alt_llist_remove e m"

fun on_list :: "list_op \<Rightarrow> addr list \<Rightarrow> addr list" where
  "on_list (Insert e) xs = e # xs"
| "on_list (Remove e) xs = remove1 e xs"

fun allowed :: "links \<Rightarrow> addr \<Rightarrow> list_op \<Rightarrow> addr list \<Rightarrow> bool" where
  \<comment> \<open>what the callers guarantee: no element is inserted twice; a removed one is or has been in the list\<close>
  "allowed m head (Insert e) xs \<longleftrightarrow> e \<noteq> head \<and> e \<notin> set xs \<and> e \<in> dom m"
| "allowed m head (Remove e) xs \<longleftrightarrow> e \<in> set xs \<or> m e = Some (ALT_LLIST_HEAD e)"

lemma op_represents:
  assumes "represents m head xs" and "allowed m head oper xs"
  shows "\<exists>m'. link_op head oper m = Some m' \<and> dom m' = dom m \<and> represents m' head (on_list oper xs)"
proof (cases oper)
  case (Insert e)
  then show ?thesis using insert_represents [OF assms(1), of e] assms(2) by auto
next
  case (Remove e)
  show ?thesis
  proof (cases "e \<in> set xs")
    case True
    then obtain as bs where xs: "xs = as @ e # bs" "e \<notin> set as" by (meson split_list_first)
    then have "remove1 e xs = as @ bs" by (simp add: remove1_append)
    then show ?thesis using remove_represents [of m head as e bs] assms(1) by (auto simp: xs Remove)
  next
    case False
    then have "m e = Some (ALT_LLIST_HEAD e)" using assms(2) Remove by simp
    then show ?thesis using remove_again [of m e] assms(1) False by (simp add: Remove remove1_idem)
  qed
qed

inductive linked_run :: "addr \<Rightarrow> links \<times> addr list \<Rightarrow> links \<times> addr list \<Rightarrow> bool" for head where
  \<comment> \<open>any calls the callers make, on the store and on the list\<close>
  Start: "linked_run head c c"
| Step: "linked_run head c (m, xs) \<Longrightarrow> allowed m head oper xs \<Longrightarrow> link_op head oper m = Some m' \<Longrightarrow>
    linked_run head c (m', on_list oper xs)"

lemma run_represents:
  assumes "linked_run head c c'" and "represents (fst c) head (snd c)"
  shows "represents (fst c') head (snd c')"
  using assms
proof (induction rule: linked_run.induct)
  case (Step c m xs oper m')
  then show ?case using op_represents [of m head xs oper] by auto
qed

text \<open>C34: the linked lists are lists: however the callers insert and remove elements, a call that is allowed
  returns, a loop over the links visits exactly the elements of the list kept with \<open>#\<close> and
  \<open>remove1\<close>, in order, and ends; removing an element a second time is harmless.\<close>

theorem llist_refines_list:
  assumes "linked_run head (m, xs) (m', ys)" and "represents m head xs"
  shows "(\<exists>l. m' head = Some l \<and> walk m' head (ll_next l) = Some ys) \<and>
    (allowed m' head oper ys \<longrightarrow> (\<exists>m''. link_op head oper m' = Some m'' \<and> represents m'' head (on_list oper ys)))"
proof -
  have r: "represents m' head ys" using run_represents [OF assms(1)] assms(2) by simp
  show ?thesis using walk_represents [OF r] op_represents [OF r] by blast
qed

definition demo_links :: links where
  "demo_links = [0 \<mapsto> ALT_LLIST_HEAD 0, 1 \<mapsto> \<lparr>ll_next = 0, ll_previous = 0\<rparr>, 2 \<mapsto> \<lparr>ll_next = 0, ll_previous = 0\<rparr>]"

theorem llist_refines_list_witness:
  "\<exists>m' l. linked_run 0 (demo_links, []) (m', [2]) \<and> m' 0 = Some l \<and> walk m' 0 (ll_next l) = Some [2]"
proof -
  have r: "represents demo_links 0 []" by (rule represents_empty) (simp add: demo_links_def)
  have "linked_run 0 (demo_links, []) (demo_links, [])" by (rule Start)
  moreover obtain m1 where m1: "link_op 0 (Insert 1) demo_links = Some m1" "dom m1 = dom demo_links" "represents m1 0 [1]"
    using op_represents [OF r, of "Insert 1"] by (auto simp: demo_links_def)
  moreover obtain m2 where m2: "link_op 0 (Insert 2) m1 = Some m2" "dom m2 = dom m1" "represents m2 0 [2, 1]"
    using op_represents [OF m1(3), of "Insert 2"] m1(2) by (auto simp: demo_links_def)
  moreover obtain m3 where m3: "link_op 0 (Remove 1) m2 = Some m3"
    using op_represents [OF m2(3), of "Remove 1"] by auto
  ultimately have run: "linked_run 0 (demo_links, []) (m3, [2])"
    using Step [of 0 "(demo_links, [])" demo_links "[]" "Insert 1" m1] Step [of 0 "(demo_links, [])" m1 "[1]" "Insert 2" m2]
      Step [of 0 "(demo_links, [])" m2 "[2, 1]" "Remove 1" m3] by (simp add: demo_links_def)
  show ?thesis using llist_refines_list [OF run r] run by blast
qed

end
