(* ===== verification/Services.thy ===== *)
theory Services
  imports SysClock
begin

unbundle bit_operations_syntax

text \<open>
  Services of the support package that the program links and does not call yet: the time of day
  (\<open>alt_gettod.c\<close>, \<open>alt_settod.c\<close>, \<open>alt_times.c\<close>), the heap (\<open>alt_sbrk.c\<close>), busy waiting (\<open>alt_busy_sleep.c\<close>)
  and formatted output (\<open>alt_printf.c\<close>). A \<open>long\<close> is an \<open>int\<close> within 32 bits; sums with an unsigned number
  are unsigned and converted back.
\<close>

definition ENOSYS :: int where "ENOSYS = 88"
definition ALT_US :: int where "ALT_US = 1000000"

subsection \<open>Time of day\<close>

record timeval =
  tv_sec :: int
  tv_usec :: int

record timezone =
  tz_minuteswest :: int
  tz_dsttime :: int

record tod =
  alt_resettime :: timeval
  alt_timezone :: timezone

definition tod_init :: tod where
  "tod_init = \<lparr>alt_resettime = \<lparr>tv_sec = 0, tv_usec = 0\<rparr>, alt_timezone = \<lparr>tz_minuteswest = 0, tz_dsttime = 0\<rparr>\<rparr>"

definition ALT_SETTIMEOFDAY :: "timeval \<Rightarrow> timezone \<Rightarrow> hal \<Rightarrow> tod \<Rightarrow> int \<times> hal \<times> tod" where
  "ALT_SETTIMEOFDAY t tz s d =
     (let nticks = alt_nticks s; tick_rate = alt_ticks_per_second s in
      if tick_rate \<noteq> 0
      then (0, s, d\<lparr>alt_resettime :=
          \<lparr>tv_sec = sint (word_of_int (tv_sec t) - nticks div tick_rate),
           tv_usec = sint (word_of_int (tv_usec t) - nticks * (word_of_int ALT_US div tick_rate) mod word_of_int ALT_US)\<rparr>,
        alt_timezone := tz\<rparr>)
      else (- 1, s\<lparr>alt_errno := ENOSYS\<rparr>, d))"

function borrow :: "int \<Rightarrow> int \<Rightarrow> int \<times> int" where
  \<comment> \<open>the loop \<open>while (tv_usec < 0)\<close>\<close>
  "borrow sec usec =
     (if usec < 0 then if sec \<le> 0 then (0, 0) else borrow (sec - 1) (usec + ALT_US) else (sec, usec))"
  by pat_completeness auto
termination by (relation "measure (\<lambda>(_, usec). nat (- usec))") (auto simp: ALT_US_def)

function carry :: "int \<Rightarrow> int \<Rightarrow> (int \<times> int) option" where
  \<comment> \<open>the loop \<open>while (tv_usec >= ALT_US)\<close>; the seconds may overflow\<close>
  "carry sec usec =
     (if usec \<ge> ALT_US then if sec + 1 \<le> INT_MAX then carry (sec + 1) (usec - ALT_US) else None else Some (sec, usec))"
  by pat_completeness auto
termination by (relation "measure (\<lambda>(_, usec). nat usec)") (auto simp: ALT_US_def)

declare borrow.simps [simp del] carry.simps [simp del]

definition ALT_GETTIMEOFDAY :: "bool \<Rightarrow> hal \<Rightarrow> tod \<Rightarrow> (int \<times> (timeval \<times> timezone option) option) option" where
  \<comment> \<open>whether a time zone is asked for; the return value and what has been stored\<close>
  "ALT_GETTIMEOFDAY want s d =
     (let nticks = alt_nticks s; tick_rate = alt_ticks_per_second s in
      if tick_rate \<noteq> 0
      then do {
        let sec = sint (word_of_int (tv_sec (alt_resettime d)) + nticks div tick_rate);
        let usec = sint ((word_of_int (tv_usec (alt_resettime d)) :: uint) +
          ucast ((ucast nticks :: 64 word) * ucast (word_of_int ALT_US div tick_rate) mod word_of_int ALT_US));
        let (sec, usec) = borrow sec usec;
        (sec, usec) \<leftarrow> carry sec usec;
        Some (0, Some (\<lparr>tv_sec = sec, tv_usec = usec\<rparr>, if want then Some (alt_timezone d) else None)) }
      else Some (- ENOTSUP, None))"

record tms =
  tms_utime :: int
  tms_stime :: int
  tms_cutime :: int
  tms_cstime :: int

definition ALT_TIMES :: "hal \<Rightarrow> (uint \<times> tms option) \<times> hal" where
  \<comment> \<open>the return value, what has been stored, and the state\<close>
  "ALT_TIMES s = (let ticks = alt_nticks s in
     if alt_ticks_per_second s = 0 then ((0, None), s\<lparr>alt_errno := ENOSYS\<rparr>)
     else ((ticks, Some \<lparr>tms_utime = 0, tms_stime = uint ticks, tms_cutime = 0, tms_cstime = 0\<rparr>), s))"

subsection \<open>Heap\<close>

definition ALT_SBRK :: "uint \<Rightarrow> int \<Rightarrow> hal \<Rightarrow> uint \<Rightarrow> ((uint \<times> uint) \<times> hal) option" where
  \<comment> \<open>with \<open>__alt_heap_limit\<close> and \<open>heap_end\<close>; the result, and \<open>heap_end\<close> afterwards. A sum outside the
    address space is undefined\<close>
  "ALT_SBRK limit incr s heap_end = do {
     let (context, s) = alt_irq_disable_all s;
     let heap_end = (heap_end + 3) AND NOT 3;
     let new_end = uint heap_end + incr;
     if new_end < 0 \<or> new_end \<ge> 2 ^ 32 then None
     else if new_end > uint limit then Some ((- 1, heap_end), alt_irq_enable_all context s)
     else Some ((heap_end, word_of_int new_end), alt_irq_enable_all context s)
   }"

subsection \<open>Busy waiting\<close>

definition ALT_CPU_FREQ :: uint where "ALT_CPU_FREQ = 100000000"
definition NIOS2_CPU_IMPLEMENTATION :: string where "NIOS2_CPU_IMPLEMENTATION = ''fast''"

definition loop_bne :: "uint \<Rightarrow> nat" where
  \<comment> \<open>the rounds of \<open>addi %0, %0, -1; bne %0, zero, 0b\<close>\<close>
  "loop_bne x = (if x = 0 then 2 ^ 32 else unat x)"

definition loop_bgt :: "uint \<Rightarrow> nat" where
  \<comment> \<open>the rounds of \<open>addi %0, %0, -1; bgt %0, zero, 0b\<close>, a signed comparison\<close>
  "loop_bgt x = (if 0 < sint x then unat x else if x = 0x80000000 then 2 ^ 31 else 1)"

definition alt_busy_sleep :: "uint \<Rightarrow> nat" where
  \<comment> \<open>the rounds of all its loops\<close>
  "alt_busy_sleep us =
     (let cycles_per_loop = (if NIOS2_CPU_IMPLEMENTATION = ''tiny'' then 9 else 3);
          per_us = ALT_CPU_FREQ div (cycles_per_loop * 1000000);
          big_loops = sint (us div (word_of_int INT_MAX div per_us)) in
      if big_loops \<noteq> 0
      then nat big_loops * loop_bne (word_of_int INT_MAX) +
        loop_bne ((us - word_of_int big_loops * (word_of_int INT_MAX div per_us)) * per_us)
      else loop_bgt (us * per_us))"

subsection \<open>Formatted output\<close>

datatype parg = Int_arg uint | Str_arg string

fun leading :: "uint \<Rightarrow> nat \<Rightarrow> nat" where
  \<comment> \<open>the first digit that is not zero, from digit \<open>d\<close> down; digit 0 when the others are zero\<close>
  "leading v 0 = 0"
| "leading v (Suc d) = (if v AND push_bit (4 * Suc d) 0xF = 0 then leading v d else Suc d)"

definition hex_digit :: "uint \<Rightarrow> nat \<Rightarrow> char" where
  "hex_digit v d = (let digit = unat (drop_bit (4 * d) (v AND push_bit (4 * d) 0xF)) in
     if digit \<le> 9 then char_of (48 + digit) else char_of (97 + digit - 10))"

definition hex_text :: "uint \<Rightarrow> string" where
  "hex_text v = (if v = 0 then ''0'' else map (hex_digit v) (rev [0..<leading v 7 + 1]))"

fun alt_printf :: "string \<Rightarrow> parg list \<Rightarrow> string option" where
  \<comment> \<open>the characters given to \<open>alt_putchar\<close>; an argument of the wrong type is undefined\<close>
  "alt_printf [] args = Some []"
| "alt_printf (c # w) args =
     (if c \<noteq> CHR ''%'' then map_option ((#) c) (alt_printf w args)
      else case w of
        [] \<Rightarrow> Some []
      | f # w \<Rightarrow>
          if f = CHR ''%'' then map_option ((#) f) (alt_printf w args)
          else if f = CHR ''c'' then (case args of Int_arg v # args \<Rightarrow> map_option ((#) (char_of (unat v))) (alt_printf w args) | _ \<Rightarrow> None)
          else if f = CHR ''x'' then (case args of Int_arg v # args \<Rightarrow> map_option ((@) (hex_text v)) (alt_printf w args) | _ \<Rightarrow> None)
          else if f = CHR ''s'' then (case args of Str_arg t # args \<Rightarrow> map_option ((@) t) (alt_printf w args) | _ \<Rightarrow> None)
          else alt_printf w args)"

subsection \<open>The clock on the wall\<close>

lemma sint_of_int: "- (2 ^ 31) \<le> i \<Longrightarrow> i < 2 ^ 31 \<Longrightarrow> sint (word_of_int i :: uint) = i"
  by (simp add: signed_of_int signed_take_bit_int_eq_self)

lemma borrow_result:
  assumes "- ALT_US \<le> usec" and "usec < 0 \<longrightarrow> 0 < sec"
  shows "borrow sec usec = (if usec < 0 then (sec - 1, usec + ALT_US) else (sec, usec))"
  using assms by (auto simp: borrow.simps [of sec usec] borrow.simps [of "sec - 1"])

lemma carry_result:
  assumes "usec < 2 * ALT_US" and "sec < INT_MAX"
  shows "carry sec usec = Some (if ALT_US \<le> usec then (sec + 1, usec - ALT_US) else (sec, usec))"
  using assms by (auto simp: carry.simps [of sec usec] carry.simps [of "sec + 1"])

text \<open>The two halves of a number of ticks: whole seconds, and microseconds of the last one.\<close>

lemma tick_split:
  fixes n r q :: nat
  assumes "r * q = 1000000"
  shows "n * q = (n div r) * 1000000 + n * q mod 1000000" "n * q mod 1000000 < 1000000"
proof -
  have q: "0 < q" using assms by (cases q) auto
  have "n * q div 1000000 = n div r"
    using q by (simp add: assms [symmetric])
  then show "n * q = (n div r) * 1000000 + n * q mod 1000000" using div_mult_mod_eq [of "n * q" 1000000] by simp
  show "n * q mod 1000000 < 1000000" by simp
qed

lemma unsigned_parts:
  fixes ticks rate :: uint
  assumes "unat rate * q = 1000000" and "unat ticks * q < 2 ^ 32"
  shows "unat (ticks * (word_of_int ALT_US div rate) mod word_of_int ALT_US) = unat ticks * q mod 1000000"
proof -
  have r: "0 < unat rate" using assms(1) by (cases "unat rate") auto
  have us: "unat (word_of_int ALT_US :: uint) = 1000000" by (simp add: ALT_US_def)
  have "unat (word_of_int ALT_US div rate) = 1000000 div unat rate" by (simp add: unat_div us)
  also have "\<dots> = q" using r by (simp add: assms(1) [symmetric])
  finally have "unat (ticks * (word_of_int ALT_US div rate)) = unat ticks * q"
    using assms(2) by (simp add: unat_word_ariths)
  then show ?thesis by (simp add: unat_mod us)
qed

lemma unsigned_parts64:
  fixes ticks rate :: uint
  assumes "unat rate * q = 1000000"
  shows "unat ((ucast ticks :: 64 word) * ucast (word_of_int ALT_US div rate) mod word_of_int ALT_US) = unat ticks * q mod 1000000"
proof -
  have r: "0 < unat rate" using assms(1) by (cases "unat rate") auto
  have us: "unat (word_of_int ALT_US :: uint) = 1000000" "unat (word_of_int ALT_US :: 64 word) = 1000000"
    by (simp_all add: ALT_US_def)
  have "unat (word_of_int ALT_US div rate) = 1000000 div unat rate" by (simp add: unat_div us)
  also have "\<dots> = q" using r by (simp add: assms [symmetric])
  finally have q: "unat (word_of_int ALT_US div rate) = q" .
  have "q \<le> 1000000" using r assms by (metis dvd_imp_le dvd_triv_right zero_less_numeral)
  then have "unat ticks * q \<le> 2 ^ 32 * 1000000" using unat32 [of ticks] by (intro mult_le_mono) simp_all
  moreover have wide: "unat (ucast x :: 64 word) = unat x" for x :: uint
    using unat32 [of x] by (simp add: unsigned_ucast_eq take_bit_nat_eq_self)
  ultimately have "unat ((ucast ticks :: 64 word) * ucast (word_of_int ALT_US div rate)) = unat ticks * q"
    by (simp add: unat_word_ariths(2) wide q)
  then show ?thesis by (simp add: unat_mod us)
qed

lemma word_parts:
  fixes w :: uint
  assumes "unat w = n"
  shows "word_of_int i - w = word_of_int (i - int n)" "word_of_int i + w = word_of_int (i + int n)"
  using assms by (auto simp: of_nat_diff)

lemma set_result:
  assumes "unat (alt_tick_rate s) * q = 1000000" and "unat (alt_nticks s) * q < 2 ^ 32"
    and "0 \<le> tv_sec t" "tv_sec t < 2 ^ 31" "0 \<le> tv_usec t" "tv_usec t < 1000000"
  shows "ALT_SETTIMEOFDAY t tz s d = (0, s, d\<lparr>alt_resettime := \<lparr>tv_sec = tv_sec t - int (unat (alt_nticks s) div unat (alt_tick_rate s)),
      tv_usec = tv_usec t - int (unat (alt_nticks s) * q mod 1000000)\<rparr>, alt_timezone := tz\<rparr>)"
proof -
  let ?n = "unat (alt_nticks s)"
  let ?r = "unat (alt_tick_rate s)"
  have r: "alt_tick_rate s \<noteq> 0" using assms(1) by auto
  have split: "?n * q = (?n div ?r) * 1000000 + ?n * q mod 1000000" "?n * q mod 1000000 < 1000000"
    by (rule tick_split [OF assms(1)])+
  have small: "X * 1000000 + x < 2 ^ 32 \<Longrightarrow> X < 2 ^ 31" for X x :: nat by simp
  have "?n div ?r < 2 ^ 31" by (rule small [of _ "?n * q mod 1000000"]) (use assms(2) in \<open>simp only: split(1) [symmetric]\<close>)
  moreover have "int X < 2 ^ 31 \<Longrightarrow> - (2 ^ 31) \<le> tv_sec t - int X \<and> tv_sec t - int X < 2 ^ 31" for X
    using assms(3,4) by simp
  ultimately have "- (2 ^ 31) \<le> tv_sec t - int (?n div ?r) \<and> tv_sec t - int (?n div ?r) < 2 ^ 31"
    by (simp only: of_nat_less_numeral_power_cancel_iff)
  then have "sint (word_of_int (tv_sec t) - alt_nticks s div alt_tick_rate s) = tv_sec t - int (?n div ?r)"
    by (subst word_parts [OF unat_div], intro sint_of_int) blast+
  moreover have "sint (word_of_int (tv_usec t) - alt_nticks s * (word_of_int ALT_US div alt_tick_rate s) mod word_of_int ALT_US) =
      tv_usec t - int (?n * q mod 1000000)"
  proof -
    have "- (2 ^ 31) \<le> tv_usec t - int m \<and> tv_usec t - int m < 2 ^ 31" if "m < 1000000" for m
      using that assms(5,6) by simp
    from this [OF split(2)] show ?thesis
      by (subst word_parts [OF unsigned_parts [OF assms(1,2)]], intro sint_of_int) blast+
  qed
  ultimately show ?thesis using r by (simp add: ALT_SETTIMEOFDAY_def alt_ticks_per_second_def Let_def)
qed

lemma get_result:
  fixes d :: tod and s :: hal
  assumes "unat (alt_tick_rate s) * q = 1000000"
    and "sec = tv_sec (alt_resettime d) + int (unat (alt_nticks s) div unat (alt_tick_rate s))"
    and "usec = tv_usec (alt_resettime d) + int (unat (alt_nticks s) * q mod 1000000)"
    and "0 \<le> sec * 1000000 + usec" "- 1000000 \<le> usec" "usec < 2000000" "0 \<le> sec" "sec < 2 ^ 31 - 1"
  shows "ALT_GETTIMEOFDAY want s d = Some (0, Some (\<lparr>tv_sec = (sec * 1000000 + usec) div 1000000,
      tv_usec = (sec * 1000000 + usec) mod 1000000\<rparr>, if want then Some (alt_timezone d) else None))"
proof -
  have r: "alt_tick_rate s \<noteq> 0" using assms(1) by auto
  have parts: "sint (word_of_int (tv_sec (alt_resettime d)) + alt_nticks s div alt_tick_rate s) = sec"
    using assms(7,8) by (subst word_parts(2) [OF unat_div]) (simp add: sint_of_int assms(2) [symmetric])
  have "unat (ucast ((ucast (alt_nticks s) :: 64 word) * ucast (word_of_int ALT_US div alt_tick_rate s) mod word_of_int ALT_US) :: uint) =
      unat (alt_nticks s) * q mod 1000000"
    using unsigned_parts64 [OF assms(1), of "alt_nticks s"] by (simp add: unsigned_ucast_eq take_bit_nat_eq_self)
  from word_parts(2) [OF this, of "tv_usec (alt_resettime d)"]
  have parts2: "sint ((word_of_int (tv_usec (alt_resettime d)) :: uint) +
      ucast ((ucast (alt_nticks s) :: 64 word) * ucast (word_of_int ALT_US div alt_tick_rate s) mod word_of_int ALT_US)) = usec"
    using assms(5,6) by (simp add: sint_of_int assms(3) [symmetric])
  have pos: "usec < 0 \<longrightarrow> 0 < sec" using assms(4,7) by auto
  have "borrow sec usec = (if usec < 0 then (sec - 1, usec + ALT_US) else (sec, usec))"
    using assms(5) pos by (intro borrow_result) (simp_all add: ALT_US_def)
  moreover have "(sec * 1000000 + usec) div 1000000 = c \<and> (sec * 1000000 + usec) mod 1000000 = e"
    if "sec * 1000000 + usec = 1000000 * c + e" "0 \<le> e" "e < 1000000" for c e
    using int_div_pos_eq [OF that] int_mod_pos_eq [OF that] by blast
  note this [of "sec - 1" "usec + 1000000"] this [of sec usec] this [of "sec + 1" "usec - 1000000"]
  moreover have "ALT_GETTIMEOFDAY want s d = do {
      (sec, usec) \<leftarrow> (case borrow sec usec of (sec, usec) \<Rightarrow> carry sec usec);
      Some (0, Some (\<lparr>tv_sec = sec, tv_usec = usec\<rparr>, if want then Some (alt_timezone d) else None)) }"
    unfolding ALT_GETTIMEOFDAY_def alt_ticks_per_second_def Let_def parts parts2 using r by (simp split: prod.splits)
  ultimately show ?thesis
    using assms(5,6,8)
    by (cases "usec < 0"; cases "1000000 \<le> usec"; simp add: carry_result ALT_US_def INT_MAX_def)
qed

text \<open>Time on the wall passes as the ticks do: when \<open>settimeofday\<close> has set a time and \<open>k\<close> ticks have
  passed, \<open>gettimeofday\<close> returns that time and \<open>k\<close> ticks more, to the microsecond and with the
  microseconds below a second; for \<open>k = 0\<close> the time that has been set. It is so while the product
  of ticks and microseconds of a tick fits 32 bits.\<close>

theorem wall_clock_advances:
  assumes "unat (alt_tick_rate s) * q = 1000000" and "unat (alt_nticks s) * q < 2 ^ 32"
    and "0 \<le> tv_sec t" "0 \<le> tv_usec t" "tv_usec t < 1000000"
    and "alt_tick_rate s' = alt_tick_rate s" "unat (alt_nticks s') = unat (alt_nticks s) + k"
    and "tv_sec t + int (k div unat (alt_tick_rate s)) + 2 < 2 ^ 31"
    and "now = tv_sec t * 1000000 + tv_usec t + int (k * q)"
  shows "\<exists>d'. ALT_SETTIMEOFDAY t tz s d = (0, s, d') \<and>
    ALT_GETTIMEOFDAY True s' d' = Some (0, Some (\<lparr>tv_sec = now div 1000000, tv_usec = now mod 1000000\<rparr>, Some tz))"
proof -
  let ?r = "unat (alt_tick_rate s)" and ?n = "unat (alt_nticks s)"
  define X x Y y where "X = ?n div ?r" and "x = ?n * q mod 1000000" and "Y = (?n + k) div ?r" and "y = (?n + k) * q mod 1000000"
  have n: "?n * q = X * 1000000 + x" "x < 1000000" and m: "(?n + k) * q = Y * 1000000 + y" "y < 1000000"
    using tick_split [OF assms(1), of ?n] tick_split [OF assms(1), of "?n + k"] by (simp_all add: X_def x_def Y_def y_def)
  define sec usec where "sec = tv_sec t - int X + int Y" and "usec = tv_usec t - int x + int y"
  have now: "sec * 1000000 + usec = now"
  proof -
    have "int (Y * 1000000 + y) = int (X * 1000000 + x) + int (k * q)"
      unfolding n(1) [symmetric] m(1) [symmetric] by (simp add: distrib_right)
    then show ?thesis unfolding assms(9) sec_def usec_def by simp
  qed
  have XY: "X \<le> Y" "Y \<le> X + k div ?r + 1"
  proof -
    show "X \<le> Y" unfolding X_def Y_def by (rule div_le_mono) simp
    have "0 < ?r" using assms(1) by (cases ?r) auto
    then have "?n mod ?r + k mod ?r < 2 * ?r" using mod_less_divisor [of ?r ?n] mod_less_divisor [of ?r k] by linarith
    then have "(?n mod ?r + k mod ?r) div ?r \<le> 1" by (simp add: less_mult_imp_div_less less_Suc_eq_le [symmetric])
    then show "Y \<le> X + k div ?r + 1" unfolding X_def Y_def by (subst div_add1_eq) simp
  qed
  define d' where "d' = d\<lparr>alt_resettime := \<lparr>tv_sec = tv_sec t - int X, tv_usec = tv_usec t - int x\<rparr>, alt_timezone := tz\<rparr>"
  have "tv_sec t < 2 ^ 31" using assms(8) by linarith
  then have set: "ALT_SETTIMEOFDAY t tz s d = (0, s, d')"
    unfolding d'_def X_def x_def by (rule set_result [OF assms(1-3) _ assms(4,5)])
  have r': "unat (alt_tick_rate s') * q = 1000000" using assms(1,6) by simp
  have parts: "sec = tv_sec (alt_resettime d') + int (unat (alt_nticks s') div unat (alt_tick_rate s'))"
    "usec = tv_usec (alt_resettime d') + int (unat (alt_nticks s') * q mod 1000000)"
    by (simp_all add: d'_def sec_def usec_def Y_def y_def assms(6,7))
  have bounds: "0 \<le> sec * 1000000 + usec" "- 1000000 \<le> usec" "usec < 2000000" "0 \<le> sec" "sec < 2 ^ 31 - 1"
  proof -
    show "0 \<le> sec * 1000000 + usec" unfolding now using assms(3,4,9) by simp
    show "- 1000000 \<le> usec" "usec < 2000000" using n(2) m(2) assms(4,5) by (simp_all add: usec_def)
    show "0 \<le> sec" using XY(1) assms(3) by (simp add: sec_def)
    have "int Y \<le> int X + int (k div ?r) + 1" using XY(2) by linarith
    then show "sec < 2 ^ 31 - 1" using assms(8) unfolding sec_def by linarith
  qed
  have "alt_timezone d' = tz" by (simp add: d'_def)
  then show ?thesis using set get_result [OF r' parts bounds, of True] by (simp add: now)
qed

theorem wall_clock_advances_witness:
  "\<exists>d'. ALT_SETTIMEOFDAY \<lparr>tv_sec = 100, tv_usec = 999500\<rparr> (alt_timezone tod_init) (hal_init\<lparr>alt_tick_rate := 1000, alt_nticks := 7\<rparr>) tod_init =
      (0, hal_init\<lparr>alt_tick_rate := 1000, alt_nticks := 7\<rparr>, d') \<and>
    ALT_GETTIMEOFDAY True (hal_init\<lparr>alt_tick_rate := 1000, alt_nticks := 9\<rparr>) d' =
      Some (0, Some (\<lparr>tv_sec = 101, tv_usec = 1500\<rparr>, Some (alt_timezone tod_init)))"
  using wall_clock_advances [of "hal_init\<lparr>alt_tick_rate := 1000, alt_nticks := 7\<rparr>" 1000 "\<lparr>tv_sec = 100, tv_usec = 999500\<rparr>"
      "hal_init\<lparr>alt_tick_rate := 1000, alt_nticks := 9\<rparr>" 2 101001500 "alt_timezone tod_init" tod_init] by simp

text \<open>The product of \<open>settimeofday\<close> is computed in 32 bits, the one of \<open>gettimeofday\<close> in 64: from the
  4294968th tick on, a bit more than an hour after the start, the time that comes back is not the one that
  has been set.\<close>

lemma settod_wraps:
  "ALT_GETTIMEOFDAY False (hal_init\<lparr>alt_tick_rate := 1000, alt_nticks := 4294968\<rparr>)
     (snd (snd (ALT_SETTIMEOFDAY \<lparr>tv_sec = 5000, tv_usec = 0\<rparr> z (hal_init\<lparr>alt_tick_rate := 1000, alt_nticks := 4294968\<rparr>) tod_init))) =
   Some (0, Some (\<lparr>tv_sec = 5000, tv_usec = 967296\<rparr>, None))"
  by (simp add: ALT_SETTIMEOFDAY_def ALT_GETTIMEOFDAY_def alt_ticks_per_second_def ALT_US_def Let_def borrow.simps carry.simps)

lemma no_clock_no_time:
  "alt_tick_rate s = 0 \<Longrightarrow> ALT_GETTIMEOFDAY b s d = Some (- ENOTSUP, None) \<and>
    ALT_SETTIMEOFDAY t z s d = (- 1, s\<lparr>alt_errno := ENOSYS\<rparr>, d) \<and> fst (ALT_TIMES s) = (0, None)"
  by (simp add: ALT_GETTIMEOFDAY_def ALT_SETTIMEOFDAY_def ALT_TIMES_def alt_ticks_per_second_def Let_def)

subsection \<open>Allocation\<close>

lemma align_word: "((x + 3) AND NOT 3) AND 3 = 0" for x :: uint
  by (simp add: and.assoc)

lemma uint_offset:
  fixes x :: uint
  assumes "0 \<le> uint x + i" and "uint x + i < 2 ^ 32"
  shows "uint (x + word_of_int i) = uint x + i"
proof -
  have "x + word_of_int i = word_of_int (uint x + i)" by simp
  then show ?thesis using assms by (simp only: uint_word_of_int) simp
qed

lemma sbrk_result:
  assumes "ALT_SBRK limit incr s e = Some ((p, e'), s')" and "p \<noteq> - 1"
  shows "s' = s \<and> p = (e + 3) AND NOT 3 \<and> uint e' = uint p + incr \<and> e' \<le> limit"
  using assms by (auto simp: ALT_SBRK_def alt_irq_disable_all_def alt_irq_enable_all_def Let_def word_le_def
      uint_offset split: if_splits)

lemma sbrk_refuses:
  assumes "ALT_SBRK limit incr s e = Some ((- 1, e'), s')" and "(e + 3) AND NOT 3 \<noteq> (- 1 :: uint)"
  shows "s' = s \<and> e' = (e + 3) AND NOT 3 \<and> uint limit < uint e' + incr"
  using assms by (auto simp: ALT_SBRK_def alt_irq_disable_all_def alt_irq_enable_all_def Let_def split: if_splits)

subsection \<open>Delays\<close>

lemma sleep_rounds:
  assumes "us < 65075262" and "0 < us"
  shows "alt_busy_sleep us = unat us * 33"
proof -
  have u: "unat us < 65075262" using assms(1) by (simp add: word_less_nat_alt)
  have "us div 65075262 = 0" using assms(1) by (simp add: div_word_less)
  moreover have m: "unat (us * 33) = unat us * 33" using u by (simp add: unat_word_ariths(2))
  moreover have "0 < sint (us * 33)"
  proof -
    have "sint (us * 33) = int (unat (us * 33))" using u m by (intro sint_small) simp
    moreover have "0 < unat us" using assms(2) by (simp add: word_less_nat_alt)
    ultimately show ?thesis unfolding m by linarith
  qed
  ultimately show ?thesis
    by (simp add: alt_busy_sleep_def NIOS2_CPU_IMPLEMENTATION_def ALT_CPU_FREQ_def INT_MAX_def Let_def loop_bgt_def)
qed

lemma sleep_overruns: "alt_busy_sleep 65075262 = 2147483647 + 2 ^ 32"
  \<comment> \<open>what is left for the last loop is 0, which its test, unlike the one of the short delays, takes for \<open>2 ^ 32\<close> rounds\<close>
  by (simp add: alt_busy_sleep_def NIOS2_CPU_IMPLEMENTATION_def ALT_CPU_FREQ_def INT_MAX_def Let_def loop_bne_def)

subsection \<open>Hexadecimal numbers\<close>

definition hex_char_value :: "char \<Rightarrow> nat" where
  "hex_char_value c = (if of_char c \<le> (57 :: nat) then of_char c - 48 else of_char c - 87)"

definition hex_value :: "string \<Rightarrow> nat" where
  "hex_value t = foldl (\<lambda>a c. 16 * a + hex_char_value c) 0 t"

lemma digit_nibble: "unat (drop_bit (4 * d) (v AND push_bit (4 * d) 0xF)) = unat v div 16 ^ d mod 16" if "d < 8" for v :: uint
proof -
  have m: "(0xF :: uint) = mask 4" by (simp add: mask_eq_exp_minus_1)
  have "drop_bit (4 * d) (v AND push_bit (4 * d) 0xF) = take_bit 4 (drop_bit (4 * d) v)"
    unfolding m using that by (intro bit_word_eqI) (auto simp: bit_simps)
  moreover have "unat (take_bit 4 (drop_bit (4 * d) v)) = unat v div 2 ^ (4 * d) mod 2 ^ 4"
  proof -
    have "unat (take_bit 4 x) = take_bit 4 (unat x)" for x :: uint by (rule unsigned_take_bit_eq)
    moreover have "unat (drop_bit (4 * d) v) = drop_bit (4 * d) (unat v)"
      using unat32 [of v] by (subst unsigned_drop_bit_eq, subst take_bit_nat_eq_self) simp_all
    ultimately show ?thesis by (simp only: take_bit_nat_def drop_bit_nat_def)
  qed
  ultimately show ?thesis by (simp add: power_mult)
qed

lemma digit_value: "d < 8 \<Longrightarrow> hex_char_value (hex_digit v d) = unat v div 16 ^ d mod 16"
proof -
  assume "d < 8"
  moreover have "hex_char_value (if n \<le> 9 then char_of (48 + n) else char_of (97 + n - 10)) = n" if "n < 16" for n :: nat
    using that by (simp add: hex_char_value_def)
  ultimately show ?thesis unfolding hex_digit_def Let_def by (simp only: digit_nibble mod_less_divisor zero_less_numeral)
qed

lemma digits_value:
  "k \<le> 8 \<Longrightarrow> foldl (\<lambda>a c. 16 * a + hex_char_value c) a (map (hex_digit v) (rev [0..<k])) = a * 16 ^ k + unat v mod 16 ^ k"
proof (induction k arbitrary: a)
  case (Suc k)
  have "unat v mod 16 ^ Suc k = 16 ^ k * (unat v div 16 ^ k mod 16) + unat v mod 16 ^ k"
    using mod_mult2_eq [of "unat v" "16 ^ k" 16] by (simp add: mult.commute)
  then show ?case using Suc by (simp add: digit_value algebra_simps)
qed simp

lemma leading_bound: "unat v < 16 ^ (d + 1) \<Longrightarrow> d < 8 \<Longrightarrow> unat v < 16 ^ (leading v d + 1) \<and> leading v d \<le> d"
proof (induction d)
  case (Suc d)
  show ?case
  proof (cases "v AND push_bit (4 * Suc d) 0xF = 0")
    case True
    then have "unat v div 16 ^ Suc d mod 16 = 0" using digit_nibble [OF Suc.prems(2), of v] by simp
    moreover have "unat v div 16 ^ Suc d < 16" using Suc.prems(1) by (simp add: less_mult_imp_div_less mult.commute)
    ultimately have "unat v div 16 ^ Suc d = 0" by simp
    then have "unat v < 16 ^ (d + 1)" by (simp add: div_eq_0_iff)
    then show ?thesis using Suc.IH Suc.prems(2) True by simp
  next
    case False
    then show ?thesis using Suc.prems by simp
  qed
qed simp

lemma hex_text_value: "hex_value (hex_text v) = unat v"
proof (cases "v = 0")
  case True
  then show ?thesis by (simp add: hex_text_def hex_value_def hex_char_value_def)
next
  case False
  have "unat v < 16 ^ (leading v 7 + 1)" "leading v 7 \<le> 7"
    using leading_bound [of v 7] unat32 [of v] by simp_all
  then show ?thesis
    using False digits_value [of "leading v 7 + 1" 0 v] by (simp add: hex_text_def hex_value_def del: power_Suc)
qed

lemma printf_plain: "CHR ''%'' \<notin> set t \<Longrightarrow> alt_printf (t @ w) args = map_option ((@) t) (alt_printf w args)"
  by (induction t; cases "alt_printf w args") auto

lemma printf_hex:
  "CHR ''%'' \<notin> set t \<Longrightarrow> alt_printf (t @ ''%x'' @ w) (Int_arg v # args) = map_option (\<lambda>u. t @ hex_text v @ u) (alt_printf w args)"
  by (cases "alt_printf w args") (simp_all add: printf_plain)

end
