(* ===== verification/ScanReport.thy ===== *)
theory ScanReport
  imports FirmwareSpec
begin

unbundle bit_operations_syntax

text \<open>
  From the FPGA's words to the clients: a parsed turn leaves on both configuration sockets as its
  telegram, cut into pieces of 1460 bytes, with the report of the region alarms behind it.
\<close>

subsection \<open>Pieces\<close>

function pieces :: "byte list \<Rightarrow> byte list list" where
  "pieces xs = (if length xs \<ge> 1460 then take 1460 xs # pieces (drop 1460 xs) else if xs = [] then [] else [xs])"
  by pat_completeness auto

termination
  by (relation "measure length") auto

declare pieces.simps [simp del]

lemma pieces_concat: "concat (pieces xs) = xs"
  by (induction xs rule: pieces.induct) (subst pieces.simps, auto)

lemma pieces_short: "p \<in> set (pieces xs) \<Longrightarrow> length p \<le> 1460"
proof (induction xs rule: pieces.induct)
  case (1 xs)
  then show ?case by (subst (asm) (2) pieces.simps) (auto split: if_splits)
qed

definition to_both :: "byte list list \<Rightarrow> (nat \<times> byte list) list" where
  \<comment> \<open>every message to socket 0, then to socket 1\<close>
  "to_both ms = concat (map (\<lambda>m. [(0, m), (1, m)]) ms)"

lemma to_both_simps [simp]:
  "to_both [] = []" "to_both (m # ms) = (0, m) # (1, m) # to_both ms" "to_both (xs @ ys) = to_both xs @ to_both ys"
  by (simp_all add: to_both_def)

subsection \<open>Two clients that keep up\<close>

definition clients_ready :: "env \<Rightarrow> world \<Rightarrow> bool" where
  \<comment> \<open>both sockets take a full segment\<close>
  "clients_ready h w \<longleftrightarrow> (\<forall>s \<in> {SOCKET0, SOCKET1}. \<exists>room mx. client_ready h s room \<and> 1460 \<le> room \<and>
     getIINCHIP_TxMAX s w = Some mx \<and> 1460 \<le> mx)"

lemma clients_ready_SSIZE: "SSIZE v = SSIZE w \<Longrightarrow> clients_ready h v = clients_ready h w"
  by (simp add: clients_ready_def getIINCHIP_TxMAX_def)

lemma send_ready:
  assumes "clients_ready h w" and "s \<in> {SOCKET0, SOCKET1}" and "len \<noteq> 0" and "len \<le> 1460" and "unat len \<le> length buf"
  shows "\<exists>evs. send s buf len h w = Some (len, logged w evs) \<and> tx.sees evs [(unat s, take (unat len) buf)]"
proof -
  obtain room mx where "client_ready h s room" "1460 \<le> room" "getIINCHIP_TxMAX s w = Some mx" "1460 \<le> mx"
    using assms(1,2) unfolding clients_ready_def by blast
  moreover from this have "len \<le> mx" "len \<le> room" using assms(4) by (auto intro: order_trans)
  ultimately show ?thesis using send_delivers assms(3,5) by blast
qed

lemma send_both_delivers:
  assumes "clients_ready h w" and "len \<noteq> 0" and "len \<le> 1460" and "unat len \<le> length buf"
  shows "\<exists>evs. send_both buf len h w = Some (logged w evs) \<and> tx.sees evs (to_both [take (unat len) buf])"
proof -
  obtain e where e: "send SOCKET0 buf len h w = Some (len, logged w e)" "tx.sees e [(unat SOCKET0, take (unat len) buf)]"
    using send_ready [OF assms(1) _ assms(2-4), of SOCKET0] by blast
  have "clients_ready h (logged w e)"
    using assms(1) clients_ready_SSIZE [of "logged w e" w] by (simp add: logged_def)
  then obtain f where f: "send SOCKET1 buf len h (logged w e) = Some (len, logged (logged w e) f)"
    "tx.sees f [(unat SOCKET1, take (unat len) buf)]"
    using send_ready [OF _ _ assms(2-4), of h _ SOCKET1] by blast
  show ?thesis
    using e f tx.sees_append [OF e(2) f(2)]
    by (intro exI [of _ "e @ f"]) (simp add: send_both_def SOCKET0_def SOCKET1_def)
qed

lemma sees_pio: "tx.sees [Iowr W5500_INT_BASE 0 v] []"
  by (simp add: tx.sees_def)

lemma region_report_length: "length (region_report w) = 16"
  by (simp add: region_report_def)

lemma c_strlen_text: "0 \<notin> set T \<Longrightarrow> c_strlen (T @ 0 # pad) = Some (length T)"
proof -
  assume "0 \<notin> set T"
  then have "takeWhile (\<lambda>b. b \<noteq> 0) (T @ 0 # pad) = T" by (subst takeWhile_append2) auto
  then show ?thesis by (simp add: c_strlen_def Let_def)
qed

lemma rest_nat:
  fixes off :: uint
  assumes "unat off \<le> n" and "n < 2 ^ 31"
  shows "unat (word_of_nat n - off) = n - unat off"
proof -
  have n: "unat (word_of_nat n :: uint) = n" using assms(2) by (simp add: unat_of_nat)
  then have "off \<le> word_of_nat n" using assms(1) by (simp only: word_le_nat_alt)
  then show ?thesis using n by (simp only: unat_sub)
qed

lemma send_chunks_step:
  fixes off :: uint
  assumes "send_buffer w = T @ 0 # pad" and "0 \<notin> set T"
  defines "v \<equiv> logged w [Iowr W5500_INT_BASE 0 1]"
  shows "send_chunks off h w = (let rest = word_of_nat (length T) - off in if rest \<ge> 1460
     then do { w \<leftarrow> send_both (drop (unat off) (T @ 0 # pad)) 1460 h v; send_chunks (off + 1460) h w }
     else if rest < 1460 \<and> rest > 0
     then do {
       w \<leftarrow> send_both (drop (unat off) (T @ 0 # pad)) (ucast rest) h v;
       w \<leftarrow> IOWR_PIO_DATA W5500_INT_BASE 0x00 w;
       sb \<leftarrow> blit (send_buffer w) 0 (region_report w);
       let w = w\<lparr>send_buffer := sb\<rparr>;
       send_both (send_buffer w) 16 h w }
     else Some v)"
  using c_strlen_text [OF assms(2), of pad] assms(1)
  by (subst send_chunks.simps) (simp add: v_def Let_def logged_def)

lemma chunk_full:
  assumes "clients_ready h w" and "send_buffer w = T @ 0 # pad" and "0 \<notin> set T" and "length T < 2 ^ 30"
    and "unat off \<le> length T" and "1460 \<le> length T - unat off"
  shows "\<exists>e. send_chunks off h w = send_chunks (off + 1460) h (logged w e) \<and>
    tx.sees e (to_both [take 1460 (drop (unat off) T)])"
proof -
  define v where "v = logged w [Iowr W5500_INT_BASE 0 1]"
  have "unat (word_of_nat (length T) - off) = length T - unat off"
    by (rule rest_nat) (use assms(4,5) in simp_all)
  then have ge: "word_of_nat (length T) - off \<ge> 1460" using assms(6) by (simp add: word_le_nat_alt)
  have "clients_ready h v"
    using assms(1) clients_ready_SSIZE [of v w] by (simp add: v_def logged_def)
  moreover have "unat (1460 :: half) \<le> length (drop (unat off) (T @ 0 # pad))"
    "take (unat (1460 :: half)) (drop (unat off) (T @ 0 # pad)) = take 1460 (drop (unat off) T)"
    using assms(5,6) by simp_all
  ultimately obtain e where e: "send_both (drop (unat off) (T @ 0 # pad)) 1460 h v = Some (logged v e)"
    "tx.sees e (to_both [take 1460 (drop (unat off) T)])"
    using send_both_delivers [of h v 1460 "drop (unat off) (T @ 0 # pad)"] by auto
  then show ?thesis
    using ge tx.sees_append [OF sees_pio [of 1] e(2)] send_chunks_step [OF assms(2,3), of off h]
    by (intro exI [of _ "Iowr W5500_INT_BASE 0 1 # e"]) (simp add: v_def Let_def)
qed

lemma chunk_rest:
  assumes "clients_ready h w" and "send_buffer w = T @ 0 # pad" and "0 \<notin> set T" and "length T < 2 ^ 30"
    and "16 \<le> length (send_buffer w)" and "0 < length T - unat off" and "length T - unat off < 1460"
  shows "\<exists>evs sb. send_chunks off h w = Some ((logged w evs)\<lparr>send_buffer := sb\<rparr>) \<and>
    tx.sees evs (to_both [drop (unat off) T, region_report w])"
proof -
  define v where "v = logged w [Iowr W5500_INT_BASE 0 1]"
  define rest where "rest = word_of_nat (length T) - off"
  have rest: "unat rest = length T - unat off"
    unfolding rest_def by (rule rest_nat) (use assms(4,6) in simp_all)
  have lt: "\<not> rest \<ge> 1460" "rest < 1460" "rest > 0"
    using assms(6,7) by (simp_all add: word_le_nat_alt word_less_nat_alt rest)
  have uc: "unat (ucast rest :: half) = length T - unat off"
    using assms(7) rest by (simp add: unsigned_ucast_eq unsigned_take_bit_eq take_bit_eq_mod)
  then have fits: "(ucast rest :: half) \<noteq> 0" "(ucast rest :: half) \<le> 1460"
    using assms(6,7) by (auto simp: word_le_nat_alt)
  have "clients_ready h v"
    using assms(1) clients_ready_SSIZE [of v w] by (simp add: v_def logged_def)
  moreover have dr: "drop (unat off) (T @ 0 # pad) = drop (unat off) T @ 0 # pad" using assms(6) by simp
  ultimately obtain e where e: "send_both (drop (unat off) (T @ 0 # pad)) (ucast rest) h v = Some (logged v e)"
    "tx.sees e (to_both [drop (unat off) T])"
    using send_both_delivers [of h v "ucast rest" "drop (unat off) (T @ 0 # pad)"] fits by (auto simp: uc dr)
  define u where "u = logged v (e @ [Iowr W5500_INT_BASE 0 0])"
  have u: "send_buffer u = T @ 0 # pad" "region_report u = region_report w" "SSIZE u = SSIZE w"
    using assms(2) by (simp_all add: u_def v_def logged_def region_report_def)
  have "16 \<le> length (T @ 0 # pad)" using assms(2,5) by simp
  then obtain sb where sb: "blit (T @ 0 # pad) 0 (region_report w) = Some sb" "take 16 sb = region_report w" "16 \<le> length sb"
    using region_report_length [of w] by (auto simp: blit_def)
  have "clients_ready h (u\<lparr>send_buffer := sb\<rparr>)"
    using assms(1) clients_ready_SSIZE [of "u\<lparr>send_buffer := sb\<rparr>" w] u(3) by simp
  then obtain f where f: "send_both sb 16 h (u\<lparr>send_buffer := sb\<rparr>) = Some (logged (u\<lparr>send_buffer := sb\<rparr>) f)"
    "tx.sees f (to_both [region_report w])"
    using send_both_delivers [of h "u\<lparr>send_buffer := sb\<rparr>" 16 sb] sb by auto
  have "send_chunks off h w = Some (logged (u\<lparr>send_buffer := sb\<rparr>) f)"
    using e(1) f(1) sb(1) lt u(1,2)
    by (simp add: send_chunks_step [OF assms(2,3)] v_def [symmetric] rest_def [symmetric] u_def [symmetric] Let_def)
  then show ?thesis
    using tx.sees_append [OF sees_pio [of 1] tx.sees_append [OF e(2) tx.sees_append [OF sees_pio [of 0] f(2)]]]
    by (intro exI [of _ "Iowr W5500_INT_BASE 0 1 # e @ Iowr W5500_INT_BASE 0 0 # f"] exI [of _ sb])
      (simp add: u_def v_def logged_def)
qed

lemma send_chunks_delivers:
  assumes "clients_ready h w" and "send_buffer w = T @ 0 # pad" and "0 \<notin> set T" and "length T < 2 ^ 30"
    and "16 \<le> length (send_buffer w)" and "unat off \<le> length T"
  shows "\<exists>evs sb. send_chunks off h w = Some ((logged w evs)\<lparr>send_buffer := sb\<rparr>) \<and>
    tx.sees evs (to_both (pieces (drop (unat off) T) @
      (if (length T - unat off) mod 1460 = 0 then [] else [region_report w])))"
  using assms
proof (induction "length T - unat off" arbitrary: off w rule: less_induct)
  case less
  consider (full) "1460 \<le> length T - unat off" | (part) "0 < length T - unat off" "length T - unat off < 1460"
    | (none) "length T - unat off = 0" by linarith
  then show ?case
  proof cases
    case full
    obtain e where e: "send_chunks off h w = send_chunks (off + 1460) h (logged w e)"
      "tx.sees e (to_both [take 1460 (drop (unat off) T)])"
      using chunk_full [OF less.prems(1-4,6) full] by blast
    have off: "unat (off + 1460) = unat off + 1460"
      using unat_add_small [of off 1460] full less.prems(4) by simp
    have u: "send_buffer (logged w e) = T @ 0 # pad" "SSIZE (logged w e) = SSIZE w" "region_report (logged w e) = region_report w"
      using less.prems(2) by (simp_all add: logged_def region_report_def)
    have sm: "length T - unat (off + 1460) < length T - unat off" "unat (off + 1460) \<le> length T"
      using full unfolding off by linarith+
    have more: "clients_ready h (logged w e)" "16 \<le> length (send_buffer (logged w e))"
      using less.prems(1,2,5) u(1) clients_ready_SSIZE [OF u(2)] by simp_all
    obtain f sb where f: "send_chunks (off + 1460) h (logged w e) = Some ((logged (logged w e) f)\<lparr>send_buffer := sb\<rparr>)"
      "tx.sees f (to_both (pieces (drop (unat off + 1460) T) @
        (if (length T - (unat off + 1460)) mod 1460 = 0 then [] else [region_report w])))"
      using less.hyps [OF sm(1) more(1) u(1) less.prems(3,4) more(2) sm(2)] unfolding off u(3) by blast
    have "length T - unat off = (length T - (unat off + 1460)) + 1460" using full by simp
    then have mod: "(length T - (unat off + 1460)) mod 1460 = (length T - unat off) mod 1460" by (metis mod_add_self2)
    have pc: "pieces (drop (unat off) T) = take 1460 (drop (unat off) T) # pieces (drop (unat off + 1460) T)"
      using full by (subst pieces.simps) (simp add: add.commute)
    show ?thesis
      using e(1) f(1) tx.sees_append [OF e(2) f(2)]
      by (intro exI [of _ "e @ f"] exI [of _ sb]) (simp add: pc mod)
  next
    case part
    then have "pieces (drop (unat off) T) = [drop (unat off) T]" by (subst pieces.simps) auto
    with part show ?thesis using chunk_rest [OF less.prems(1-5) part] by simp
  next
    case none
    have "word_of_nat (length T) - off = 0"
      using rest_nat [of off "length T"] less.prems(4,6) none by (simp add: unat_eq_0)
    then have "send_chunks off h w = Some (logged w [Iowr W5500_INT_BASE 0 1])"
      by (simp add: send_chunks_step [OF less.prems(2,3)] Let_def)
    moreover have "pieces (drop (unat off) T) = []" using none by (subst pieces.simps) simp
    ultimately show ?thesis
      using none sees_pio by (intro exI [of _ "[Iowr W5500_INT_BASE 0 1]"] exI [of _ "send_buffer w"]) (simp add: logged_def)
  qed
qed

subsection \<open>A whole turn\<close>

definition telegram :: "uint list \<Rightarrow> byte list" where
  \<comment> \<open>what the clients should get for one turn of these values\<close>
  "telegram vs = [0x02] @ cstr frame_start @ concat (map distance_text vs) @ cstr RSSI_Field_start @
     concat (map gray_text vs) @ cstr RSSI_Field_end @ [0x03]"

lemma text_lits: "0 \<notin> set (cstr frame_start)" "0 \<notin> set (cstr RSSI_Field_start)" "0 \<notin> set (cstr RSSI_Field_end)"
  by (rule c_text_bytes, simp add: c_text_def frame_start_def RSSI_Field_start_def RSSI_Field_end_def)+

lemma value_texts: "0 \<notin> set (distance_text v)" "0 \<notin> set (gray_text v)"
proof -
  have "list_all (\<lambda>n. upper_hex n \<noteq> 0) [0..<16]"
    by (simp add: upt_rec upper_hex_def)
  then have digit: "upper_hex (n mod 16) \<noteq> 0" for n by (simp add: list_all_iff)
  show "0 \<notin> set (distance_text v)" "0 \<notin> set (gray_text v)"
    using value_chars [of v] digit by (auto simp: eq_commute [of 0])
qed

lemma telegram_text: "0 \<notin> set (telegram vs)"
  using text_lits value_texts by (auto simp: telegram_def)

lemma telegram_length: "length (telegram vs) = 163 + 8 * length vs"
proof -
  have "length frame_start = 108" "length RSSI_Field_start = 41" "length RSSI_Field_end = 12"
    by (simp_all add: frame_start_def RSSI_Field_start_def RSSI_Field_end_def)
  then show ?thesis using texts_length [of vs] by (simp add: telegram_def)
qed

lemma telegram_no_multiple: "length (telegram vs) mod 1460 \<noteq> 0"
proof
  assume "length (telegram vs) mod 1460 = 0"
  then have "1460 dvd 163 + 8 * length vs" by (simp only: telegram_length dvd_eq_mod_eq_0)
  then have "2 dvd 163 + 8 * length vs" by (rule dvd_trans [rotated]) simp
  then show False by presburger
qed

lemma send_scan_delivers:
  assumes "clients_ready h w" and "pos_finish (CycleData w)"
    and "length (distance_data (CycleData w)) = TARGET_NUMBER * 5" and "length (gray_data (CycleData w)) = TARGET_NUMBER * 5"
    and "length vs \<le> TARGET_NUMBER" and "unat (distance_len (CycleData w)) = 5 * length vs" and "unat (gray_len (CycleData w)) = 3 * length vs"
    and "take (5 * length vs) (distance_data (CycleData w)) = concat (map distance_text vs)"
    and "take (3 * length vs) (gray_data (CycleData w)) = concat (map gray_text vs)"
  shows "\<exists>w' evs. send_scan h w = Some w' \<and> trace w' = trace w @ evs \<and> \<not> pos_finish (CycleData w') \<and>
    tx_log evs = to_both (pieces (telegram vs) @ [region_report w])"
proof -
  define v where "v = w\<lparr>CycleData := (CycleData w)\<lparr>pos_finish := False\<rparr>\<rparr>"
  have "length vs \<le> 811" using assms(5) by (simp add: TARGET_NUMBER_def)
  obtain pad where pk: "sick_pos_packet v = Some (v\<lparr>send_buffer := telegram vs @ replicate pad 0\<rparr>)"
    and pad: "163 + 5 * length vs + 3 * length vs + pad = 8448"
    using pos_packet_result [of v] assms(3-9) by (auto simp: v_def telegram_def TARGET_NUMBER_def)
  then obtain pad' where pad': "pad = Suc pad'" using \<open>length vs \<le> 811\<close> by (cases pad) auto
  define u where "u = v\<lparr>send_buffer := telegram vs @ 0 # replicate pad' 0\<rparr>"
  have u: "clients_ready h u" "send_buffer u = telegram vs @ 0 # replicate pad' 0" "region_report u = region_report w"
    using assms(1) clients_ready_SSIZE [of u w] by (simp_all add: u_def v_def region_report_def)
  have small: "length (telegram vs) < 2 ^ 30" "16 \<le> length (send_buffer u)"
    using \<open>length vs \<le> 811\<close> by (simp_all add: u telegram_length)
  obtain evs sb where "send_chunks 0 h u = Some ((logged u evs)\<lparr>send_buffer := sb\<rparr>)"
    "tx.sees evs (to_both (pieces (telegram vs) @ [region_report w]))"
    using send_chunks_delivers [OF u(1,2) telegram_text small, of 0] telegram_no_multiple u(3) by auto
  moreover have "send_scan h w = send_chunks 0 h u"
    using assms(2) pk by (simp add: send_scan_def Let_def u_def pad' v_def)
  ultimately show ?thesis
    using sees_tx by (intro exI [of _ "(logged u evs)\<lparr>send_buffer := sb\<rparr>"] exI [of _ evs]) (auto simp: u_def v_def logged_def)
qed

text \<open>C1: one turn, from the FPGA's words to the network: with two clients that keep up, parsing an intact
  distance frame and sending the scan puts on both configuration sockets, each in pieces of at most
  1460 bytes, exactly the telegram of the frame's values in order, and behind it the sixteen bytes
  that report the region flags of the frame's trailer; the turn is then marked as sent.\<close>

theorem turn_reaches_clients:
  assumes "queue_inv (LaserDataQueue w)" and "list_all (\<lambda>v. \<not> is_head v) junk" and "length vs \<le> TARGET_NUMBER"
    and "queue_list (LaserDataQueue w) = junk @ [0x1234a003, word_of_nat (length vs)] @ vs @ trailer # rest"
    and "trailer AND 0xfffffff = 0xeeeeeee" and "world_wf w" and "clients_ready h w"
  shows "\<exists>w' evs. do { (_, w) \<leftarrow> fpga2nios_parse h w; send_scan h w } = Some w' \<and> trace w' = trace w @ evs \<and>
    \<not> pos_finish (CycleData w') \<and> concat (pieces (telegram vs)) = telegram vs \<and>
    list_all (\<lambda>p. length p \<le> 1460) (pieces (telegram vs)) \<and>
    tx_log evs = to_both (pieces (telegram vs) @
      [[0x12, 0x34, 0xc1, 0x01, 0, 0, 0, 4, 0, 0, 0, ucast (region_flags (board_type (SysPara w)) trailer), 0xee, 0xee, 0xee, 0xee]])"
proof -
  have arrays: "length (distance_data (CycleData w)) = TARGET_NUMBER * 5" "length (gray_data (CycleData w)) = TARGET_NUMBER * 5"
    using assms(6) by (simp_all add: world_wf_def)
  obtain u where parse: "fpga2nios_parse h w = Some (-1, u)" and u: "trace u = trace w" "SSIZE u = SSIZE w"
      "length (distance_data (CycleData u)) = TARGET_NUMBER * 5" "length (gray_data (CycleData u)) = TARGET_NUMBER * 5"
    and turn: "pos_finish (CycleData u)" "region_alarm (sys_warn u) = region_flags (board_type (SysPara w)) trailer"
      "unat (distance_len (CycleData u)) = 5 * length vs" "unat (gray_len (CycleData u)) = 3 * length vs"
      "take (5 * length vs) (distance_data (CycleData u)) = concat (map distance_text vs)"
      "take (3 * length vs) (gray_data (CycleData u)) = concat (map gray_text vs)"
    using turn_result [OF assms(1-4) arrays, of h] assms(5) by auto
  have "clients_ready h u" using assms(7) clients_ready_SSIZE [OF u(2)] by simp
  then obtain w' evs where "send_scan h u = Some w'" "trace w' = trace u @ evs" "\<not> pos_finish (CycleData w')"
    "tx_log evs = to_both (pieces (telegram vs) @ [region_report u])"
    using send_scan_delivers [OF _ turn(1) u(3,4) assms(3) turn(3-6)] by blast
  moreover have "region_report u = [0x12, 0x34, 0xc1, 0x01, 0, 0, 0, 4, 0, 0, 0,
      ucast (region_flags (board_type (SysPara w)) trailer), 0xee, 0xee, 0xee, 0xee]"
    by (simp add: region_report_def turn(2) UP_ALARM_REGION_STATUS_def byte_of_def)
  ultimately show ?thesis using parse u(1) pieces_concat pieces_short by (auto simp: list_all_iff)
qed

definition two_clients :: "half list \<Rightarrow> byte" where
  \<comment> \<open>sockets 0 and 1 connected, 2048 bytes free, send interrupt raised\<close>
  "two_clients ws = (if ws \<in> {read_words (Sn_SR 0), read_words (Sn_SR 1)} then 0x17
     else if ws \<in> {read_words (Sn_IR 0), read_words (Sn_IR 1)} then 0x10
     else if ws \<in> {read_words (Sn_TX_FSR0 0), read_words (Sn_TX_FSR0 1)} then 8 else 0)"

lemma two_clients_ready:
  assumes "SSIZE w = replicate 8 2048"
  shows "clients_ready (chip_env two_clients) w"
proof -
  have "client_ready (chip_env two_clients) 0 0x800" "client_ready (chip_env two_clients) 1 0x800"
    by (rule chip_env_ready; simp add: two_clients_def reg_words)+
  moreover have "getIINCHIP_TxMAX 0 w = Some 2048" "getIINCHIP_TxMAX 1 w = Some 2048"
    using assms by (simp_all add: getIINCHIP_TxMAX_def)
  ultimately show ?thesis
    unfolding clients_ready_def SOCKET0_def SOCKET1_def by (auto intro!: exI [of _ 2048])
qed

lemma two_values_telegram:
  "pieces (telegram [0x00ab0123, 0x00cd0456]) = [telegram [0x00ab0123, 0x00cd0456]]"
  by (subst pieces.simps) (auto simp: telegram_length, simp add: telegram_def)

theorem turn_reaches_clients_witness:
  "\<exists>w' evs. do { (_, w) \<leftarrow> fpga2nios_parse (chip_env two_clients)
        (world_init\<lparr>LaserDataQueue := turn_queue, SSIZE := replicate 8 2048\<rparr>); send_scan (chip_env two_clients) w } = Some w' \<and>
    trace w' = evs \<and> tx_log evs = to_both [telegram [0x00ab0123, 0x00cd0456],
      [0x12, 0x34, 0xc1, 0x01, 0, 0, 0, 4, 0, 0, 0, 4, 0xee, 0xee, 0xee, 0xee]]"
proof -
  let ?w = "world_init\<lparr>LaserDataQueue := turn_queue, SSIZE := replicate 8 2048\<rparr>"
  let ?h = "chip_env two_clients"
  have "queue_inv (LaserDataQueue ?w)" "list_all (\<lambda>v. \<not> is_head v) [7]" "length [0x00ab0123 :: uint, 0x00cd0456] \<le> TARGET_NUMBER"
    "queue_list (LaserDataQueue ?w) = [7] @ [0x1234a003, word_of_nat (length [0x00ab0123 :: uint, 0x00cd0456])] @
       [0x00ab0123, 0x00cd0456] @ 0x3eeeeeee # []" "(0x3eeeeeee :: uint) AND 0xfffffff = 0xeeeeeee"
    by (simp_all add: turn_queue_facts is_head_def FRAME_HEAD_def TARGET_NUMBER_def)
  moreover have "world_wf ?w" using world_init_wf by (simp add: world_wf_def)
  moreover have "clients_ready ?h ?w" by (rule two_clients_ready) simp
  ultimately have "\<exists>w' evs. do { (_, w) \<leftarrow> fpga2nios_parse ?h ?w; send_scan ?h w } = Some w' \<and> trace w' = trace ?w @ evs \<and>
    \<not> pos_finish (CycleData w') \<and>
    concat (pieces (telegram [0x00ab0123, 0x00cd0456])) = telegram [0x00ab0123, 0x00cd0456] \<and>
    list_all (\<lambda>p. length p \<le> 1460) (pieces (telegram [0x00ab0123, 0x00cd0456])) \<and>
    tx_log evs = to_both (pieces (telegram [0x00ab0123, 0x00cd0456]) @
      [[0x12, 0x34, 0xc1, 0x01, 0, 0, 0, 4, 0, 0, 0, ucast (region_flags (board_type (SysPara ?w)) 0x3eeeeeee), 0xee, 0xee, 0xee, 0xee]])"
    by (rule turn_reaches_clients)
  moreover have "(ucast (region_flags (board_type (SysPara ?w)) 0x3eeeeeee) :: byte) = 4"
    by (simp add: region_flags_def world_init_def SysPara_init_def)
  moreover have "trace ?w = []" by (simp add: world_init_def)
  ultimately show ?thesis unfolding two_values_telegram by auto
qed

end
