(* ===== verification/UpdateSpec.thy ===== *)
theory UpdateSpec
  imports HostSpec
begin

unbundle bit_operations_syntax

text \<open>
  A remote update from the host's packet to the flash chip: what the chip is sent when a page of the
  image is written or blocks are erased, and what the host gets back. The flash driver's contract
  (\<open>EpcsSpec\<close>, \<open>RemoteUpdate\<close>) is used through the transactions it puts on the SPI bus.
\<close>

definition flash_log :: "world \<Rightarrow> world \<Rightarrow> byte list list \<Rightarrow> bool" where
  \<comment> \<open>from one state to another the chip has seen these transactions, status readings apart\<close>
  "flash_log w v xs \<longleftrightarrow> (\<exists>evs new. trace v = trace w @ evs \<and> spi_past v = spi_past w @ new \<and> essential new = xs)"

lemma flash_log_extends:
  assumes "spi_extends u v xs" and "trace u = trace w" and "trace v' = trace v"
  shows "flash_log w v' xs"
proof -
  have "spi_past u = spi_past w" "spi_past v' = spi_past v" using assms(2,3) by (simp_all add: spi_past_def)
  then show ?thesis
    using assms unfolding flash_log_def spi_extends_def by (auto simp: logged_def)
qed

definition update_header :: "byte \<Rightarrow> byte \<Rightarrow> uint \<Rightarrow> uint \<Rightarrow> uint \<Rightarrow> byte list" where
  "update_header m1 m0 command len para =
     [m1, m0, byte_of 8 command, byte_of 0 command] @ be32_bytes len @ be32_bytes para"

lemma update_header_length [simp]: "length (update_header m1 m0 c n p) = 12"
  by (simp add: update_header_def be32_bytes_def)

definition parsed :: "byte \<Rightarrow> byte \<Rightarrow> uint \<Rightarrow> uint \<Rightarrow> world \<Rightarrow> world" where
  \<comment> \<open>the state after the header of such a packet has been taken\<close>
  "parsed m1 m0 command len w =
     w\<lparr>pc2nios := (pc2nios w)\<lparr>p_head := be16 m1 m0, p_command := command, p_data_len := len\<rparr>,
       SysPara := (SysPara w)\<lparr>pc_command_value := pc_command_value (SysPara w) + 1\<rparr>\<rparr>"

lemma parse_update_header:
  assumes "be16 (byte_of 8 command) (byte_of 0 command) = command"
  shows "parse_header (update_header m1 m0 command len para @ rest) w = Some (para, parsed m1 m0 command len w)"
proof -
  have "slice (update_header m1 m0 command len para @ rest) 0 12 = Some (update_header m1 m0 command len para)"
    by (simp add: slice_eq_Some)
  then show ?thesis
    using assms by (simp add: parse_header_def update_header_def be32_bytes_def parsed_def Let_def)
qed

lemma update_commands:
  "be16 (byte_of 8 PC_REMOTE_UPDATE_WRITE) (byte_of 0 PC_REMOTE_UPDATE_WRITE) = PC_REMOTE_UPDATE_WRITE"
  "be16 (byte_of 8 PC_REMOTE_UPDATE_ERASE) (byte_of 0 PC_REMOTE_UPDATE_ERASE) = PC_REMOTE_UPDATE_ERASE"
  by (simp_all add: be16_def byte_of_def host_commands)

lemma update_dispatch:
  "p_command (pc2nios w) = PC_REMOTE_UPDATE_WRITE \<Longrightarrow> other_command s buf p h w = update_write s buf p h w"
  "p_command (pc2nios w) = PC_REMOTE_UPDATE_ERASE \<Longrightarrow> other_command s buf p h w = for_each [0..<unat p] (\<lambda>i w. do {
     (_, w) \<leftarrow> image_erase (int i) h w; if int_ok (int i + 1) then Some w else None }) w"
  "PC_REMOTE_UPDATE_WRITE \<noteq> PC_SET_ALARM_REGION" "PC_REMOTE_UPDATE_ERASE \<noteq> PC_SET_ALARM_REGION"
  unfolding other_command_def by (simp_all add: host_commands fpga_commands Let_def)

subsection \<open>The answer\<close>

lemma pack_image_result:
  assumes "276 \<le> length (send_buffer w)" and "length (image_data (image w)) = 256"
    and "n_command (nios2pc w) = NIOS_REMOTE_WRITE_REPONSE"
  shows "\<exists>sb. pc2dev_packet h w = Some (272, w\<lparr>send_buffer := sb\<rparr>) \<and>
    take 272 sb = reply_head (nios2pc w) @ be32_bytes (image_addr (image w)) @ image_data (image w) @ take 4 (drop 268 (send_buffer w))"
proof -
  define S H A D c where "S = send_buffer w" and "H = reply_head (nios2pc w)" and "A = be32_bytes (image_addr (image w))"
    and "D = image_data (image w)" and "c = (ucast (indet h ''checksum'' (trace w)) :: byte)"
  note parts = S_def [symmetric] H_def [symmetric] A_def [symmetric] D_def [symmetric] c_def [symmetric]
  have S: "276 \<le> length S" and len: "length H = 8" "length A = 4" "length D = 256"
    using assms(1,2) by (simp_all add: S_def H_def A_def D_def be32_bytes_def)
  have hd: "reply_header (nios2pc w) S = Some (H @ drop 8 S)"
    using S by (simp add: reply_header_at H_def)
  have s1: "blit (H @ drop 8 S) 8 A = Some ((H @ A) @ drop 12 S)"
    using S len by (simp add: blit_def)
  have s2: "blit ((H @ A) @ drop 12 S) 12 D = Some ((H @ A @ D) @ drop 268 S)"
    using S len by (simp add: blit_def)
  have s3: "xor_first c ((H @ A @ D) @ drop 268 S) (8 + 4 + 256) = Some (xor_all c (H @ A @ D))"
    using len by (intro xor_prefix) simp
  let ?sb = "(H @ A @ D) @ take 4 (drop 268 S) @ [0, 0, 0, xor_all c (H @ A @ D)] @ drop 276 S"
  have s4: "blit ((H @ A @ D) @ drop 268 S) 272 [0, 0, 0, xor_all c (H @ A @ D)] = Some ?sb"
    using S len by (simp add: blit_def min_def)
  have d: "slice D 0 256 = Some D" using len by (simp add: slice_eq_Some)
  have ne: "NIOS_REMOTE_WRITE_REPONSE \<notin> {NIOS_UP_ALARM_REGION, NIOS_UP_REGION_DATA, NIOS_UP_RESPONSE_PC, NIOS_UP_RADAR_PARA}"
    by (simp add: host_commands)
  have "pack_image (H @ drop 8 S) h w = Some ((8 + 4 + 256 + 4, ?sb), w)"
    unfolding pack_image_def Let_def parts by (simp only: s1 d s2 s3 s4 bind.bind_lunit)
  then have "pc2dev_packet h w = Some (272, w\<lparr>send_buffer := ?sb\<rparr>)"
    using ne unfolding pc2dev_packet_def Let_def parts by (simp add: hd assms(3))
  moreover have "take 272 ?sb = H @ A @ D @ take 4 (drop 268 S)"
    using S len by simp
  ultimately show ?thesis unfolding parts by blast
qed

text \<open>C9: a page of the new firmware, from the host's packet to the chip and back: at a page boundary
  inside a known device the chip is sent one write enable, one page program with the packet's address
  and bytes and one read of the same page; the answer, 272 bytes, carries the address and the bytes
  read back, which are those of the packet if the chip keeps what it was programmed, and then four
  bytes of the send buffer as it was before: the checksum is put behind the bytes that are sent.\<close>

theorem host_update_page:
  assumes "flash_chip h miso" and "spi_idle w" and "alt_flash_open_dev EPCS_FLASH_NAME w = Some f" and "flash_dev_ok f"
    and "0 \<le> sint a" and "sint a mod 256 = 0" and "sint a + 256 \<le> dev_bytes f" and "length dat = 256"
    and "276 \<le> length (send_buffer w)"
    and "\<And>new. essential new = program_txns (four_bytes_mode f) (sint a, dat) \<Longrightarrow>
      holds miso (spi_past w @ new) (four_bytes_mode f) (sint a) dat"
  shows "\<exists>v sb. flash_log w v (program_txns (four_bytes_mode f) (sint a, dat) @ read_txns (four_bytes_mode f) (sint a) 256) \<and>
    pc2dev_command s (update_header m1 m0 PC_REMOTE_UPDATE_WRITE len a @ dat @ rest) h w =
      do { (_, w) \<leftarrow> send s sb 272 h (v\<lparr>send_buffer := sb\<rparr>); Some (True, w) } \<and>
    take 272 sb = [byte_of 8 (n_head (nios2pc w)), byte_of 0 (n_head (nios2pc w)), byte_of 8 NIOS_REMOTE_WRITE_REPONSE,
      byte_of 0 NIOS_REMOTE_WRITE_REPONSE] @ be32_bytes 260 @ be32_bytes a @ dat @ take 4 (drop 268 (send_buffer w))"
proof -
  define u where "u = (parsed m1 m0 PC_REMOTE_UPDATE_WRITE len w)\<lparr>image := \<lparr>image_addr = a, image_data = dat\<rparr>\<rparr>"
  have u: "trace u = trace w" "alt_flash_dev_list u = alt_flash_dev_list w" "image u = \<lparr>image_addr = a, image_data = dat\<rparr>"
    "nios2pc u = nios2pc w" "send_buffer u = send_buffer w"
    by (simp_all add: u_def parsed_def)
  have idle: "spi_idle u" "spi_past u = spi_past w" "alt_flash_open_dev EPCS_FLASH_NAME u = Some f"
    using assms(2,3) by (simp_all add: spi_idle_def spi_past_def u alt_flash_open_dev_def)
  have dat: "take 256 dat = dat" using assms(8) by simp
  obtain x where x: "image_write (sint a) dat h u = Some (0, x)" "spi_extends u x (program_txns (four_bytes_mode f) (sint a, dat))"
    using image_write_transacts [OF assms(1) idle(1,3) assms(4-7), of dat] assms(8) unfolding dat by auto
  have "holds miso (spi_past x) (four_bytes_mode f) (sint a) dat"
    using x(2) assms(10) idle(2) by (auto simp: spi_extends_def)
  moreover have "alt_flash_open_dev EPCS_FLASH_NAME x = Some f"
    using idle(3) extends_devices [OF x(2)] by (simp add: alt_flash_open_dev_def)
  moreover have "sint a < dev_bytes f" using assms(7) by simp
  ultimately obtain y where y: "image_read (sint a) h x = Some ((0, Some dat), y)" "spi_extends x y (read_txns (four_bytes_mode f) (sint a) 256)"
    using image_read_transacts [OF assms(1) spi_extends_idle [OF x(2)] _ assms(4,5)] assms(8) by blast
  note ext = spi_extends_trans [OF x(2) y(2)]
  have same: "image x = image u" "image y = image u" "nios2pc y = nios2pc u" "send_buffer y = send_buffer u"
    using x(2) y(2) by (auto simp: spi_extends_def logged_def)
  define v where "v = y\<lparr>image := (image y)\<lparr>image_data := dat\<rparr>,
    nios2pc := (nios2pc y)\<lparr>n_command := NIOS_REMOTE_WRITE_REPONSE, n_data_len := 4 + 256\<rparr>\<rparr>"
  obtain sb where sb: "pc2dev_packet h v = Some (272, v\<lparr>send_buffer := sb\<rparr>)"
    "take 272 sb = reply_head (nios2pc v) @ be32_bytes (image_addr (image v)) @ image_data (image v) @ take 4 (drop 268 (send_buffer v))"
    using pack_image_result [of v h] assms(8,9) by (auto simp: v_def same u)
  have "update_write s (update_header m1 m0 PC_REMOTE_UPDATE_WRITE len a @ dat @ rest) a h (parsed m1 m0 PC_REMOTE_UPDATE_WRITE len w) =
      pc_reply s NIOS_REMOTE_WRITE_REPONSE (4 + 256) h (y\<lparr>image := (image y)\<lparr>image_data := dat\<rparr>\<rparr>)"
    using assms(8) x(1) y(1) same u(3) unfolding update_write_def u_def by (simp add: slice_def Let_def)
  also have "\<dots> = do { (_, w) \<leftarrow> send s sb 272 h (v\<lparr>send_buffer := sb\<rparr>); Some w }"
    using sb(1) by (simp add: pc_reply_def v_def Let_def)
  finally have "pc2dev_command s (update_header m1 m0 PC_REMOTE_UPDATE_WRITE len a @ dat @ rest) h w =
      do { (_, w) \<leftarrow> send s sb 272 h (v\<lparr>send_buffer := sb\<rparr>); Some (True, w) }"
    using update_dispatch by (simp add: pc2dev_command_def parse_update_header update_commands parsed_def split: bind_splits)
  moreover have "flash_log w v (program_txns (four_bytes_mode f) (sint a, dat) @ read_txns (four_bytes_mode f) (sint a) 256)"
    by (rule flash_log_extends [OF ext u(1)]) (simp add: v_def)
  ultimately show ?thesis
    using sb(2) by (intro exI [of _ v] exI [of _ sb]) (simp add: v_def same u reply_head_def)
qed

lemma demo_update_facts:
  "spi_idle (world_init\<lparr>alt_flash_dev_list := [demo_dev]\<rparr>)" "length (send_buffer (world_init\<lparr>alt_flash_dev_list := [demo_dev]\<rparr>)) = 8448"
  "sint (0x10300 :: uint) = 0x10300"
  by (simp_all add: spi_idle_def spi_seen_def world_init_def)

theorem host_update_page_witness:
  "\<exists>v sb. flash_log (world_init\<lparr>alt_flash_dev_list := [demo_dev]\<rparr>) v
      (program_txns 0 (0x10300, replicate 256 7) @ read_txns 0 0x10300 256) \<and>
    pc2dev_command 1 (update_header 0x12 0x34 PC_REMOTE_UPDATE_WRITE 260 0x10300 @ replicate 256 7 @ [0, 0, 0, 0])
        (spi_env demo_chip quiet_env) (world_init\<lparr>alt_flash_dev_list := [demo_dev]\<rparr>) =
      do { (_, w) \<leftarrow> send 1 sb 272 (spi_env demo_chip quiet_env) (v\<lparr>send_buffer := sb\<rparr>); Some (True, w) } \<and>
    take 256 (drop 12 sb) = replicate 256 7"
proof -
  let ?w = "world_init\<lparr>alt_flash_dev_list := [demo_dev]\<rparr>" and ?h = "spi_env demo_chip quiet_env"
  obtain v sb where v: "flash_log ?w v (program_txns (four_bytes_mode demo_dev) (sint (0x10300 :: uint), replicate 256 7) @
        read_txns (four_bytes_mode demo_dev) (sint (0x10300 :: uint)) 256)"
    "pc2dev_command 1 (update_header 0x12 0x34 PC_REMOTE_UPDATE_WRITE 260 0x10300 @ replicate 256 7 @ [0, 0, 0, 0]) ?h ?w =
      do { (_, w) \<leftarrow> send 1 sb 272 ?h (v\<lparr>send_buffer := sb\<rparr>); Some (True, w) }"
    and sb: "take 272 sb = [byte_of 8 (n_head (nios2pc ?w)), byte_of 0 (n_head (nios2pc ?w)), byte_of 8 NIOS_REMOTE_WRITE_REPONSE,
      byte_of 0 NIOS_REMOTE_WRITE_REPONSE] @ be32_bytes 260 @ be32_bytes 0x10300 @ replicate 256 7 @ take 4 (drop 268 (send_buffer ?w))"
    using host_update_page [OF demo_flash_chip [of quiet_env] demo_update_facts(1) demo_dev_ok(4,1), of "0x10300" "replicate 256 7" 1 "0x12" "0x34" 260 "[0, 0, 0, 0]"]
      demo_update_facts(2,3) demo_dev_ok(2,3) demo_chip_holds [of _ "0x10300" "replicate 256 7" "spi_past ?w"] by auto
  have "take 256 (drop 12 sb) = take 256 (drop 12 (take 272 sb))" by (simp add: drop_take)
  also have "\<dots> = replicate 256 7" unfolding sb by (simp add: be32_bytes_def)
  finally show ?thesis using v by (auto simp: demo_update_facts(3) demo_dev_ok(2))
qed

text \<open>C20: the erase command erases blocks from the start of the flash on: for a block count that fits the device
  the chip is sent one write enable and one sector erase for each of the blocks 0, 1, and so on, in
  this order, and the packet is done; nothing is answered.\<close>

theorem host_update_erase:
  assumes "flash_chip h miso" and "spi_idle w" and "alt_flash_open_dev EPCS_FLASH_NAME w = Some f" and "flash_dev_ok f"
    and "int (unat n) * EPCS_BLOCK_SIZE \<le> dev_bytes f"
  shows "\<exists>v. pc2dev_command s (update_header m1 m0 PC_REMOTE_UPDATE_ERASE len n @ rest) h w = Some (True, v) \<and>
    flash_log w v (concat (map (\<lambda>i. erase_txns (four_bytes_mode f) (int i * EPCS_BLOCK_SIZE)) [0..<unat n]))"
proof -
  define step where "step = (\<lambda>i w :: world. do {
     (_, w) \<leftarrow> image_erase (int i) h w; if int_ok (int i + 1) then Some w else None })"
  let ?w = "parsed m1 m0 PC_REMOTE_UPDATE_ERASE len w"
  have idle: "spi_idle ?w" "alt_flash_open_dev EPCS_FLASH_NAME ?w = Some f"
    using assms(2,3) by (simp_all add: parsed_def spi_idle_def alt_flash_open_dev_def)
  have "\<exists>v. for_each [0..<k] step ?w = Some v \<and>
      spi_extends ?w v (concat (map (\<lambda>i. erase_txns (four_bytes_mode f) (int i * EPCS_BLOCK_SIZE)) [0..<k]))"
    if "int k * EPCS_BLOCK_SIZE \<le> dev_bytes f" for k
    using that
  proof (induction k)
    case 0
    then show ?case using spi_extends_refl [OF idle(1)] by simp
  next
    case (Suc k)
    have block: "int k * EPCS_BLOCK_SIZE < dev_bytes f" "int (Suc k) * 65536 \<le> 2 ^ 27"
      using Suc.prems assms(4) by (simp_all add: EPCS_BLOCK_SIZE_def flash_dev_ok_def)
    then obtain v where v: "for_each [0..<k] step ?w = Some v"
      "spi_extends ?w v (concat (map (\<lambda>i. erase_txns (four_bytes_mode f) (int i * EPCS_BLOCK_SIZE)) [0..<k]))"
      using Suc.IH by auto
    have "alt_flash_open_dev EPCS_FLASH_NAME v = Some f"
      using idle(2) extends_devices [OF v(2)] by (simp add: alt_flash_open_dev_def)
    then obtain x where x: "image_erase (int k) h v = Some (0, x)"
      "spi_extends v x (erase_txns (four_bytes_mode f) (int k * EPCS_BLOCK_SIZE))"
      using image_erase_transacts [OF assms(1) spi_extends_idle [OF v(2)] _ assms(4) _ block(1)] by auto
    have "int_ok (int k + 1)" using block(2) by (simp add: int_ok_def)
    then have "step k v = Some x" using x(1) by (simp add: step_def)
    then show ?case using v spi_extends_trans [OF v(2) x(2)] by (auto simp: for_each_append)
  qed
  from this [OF assms(5)] obtain v where v: "for_each [0..<unat n] step ?w = Some v"
    "spi_extends ?w v (concat (map (\<lambda>i. erase_txns (four_bytes_mode f) (int i * EPCS_BLOCK_SIZE)) [0..<unat n]))" by blast
  have "pc2dev_command s (update_header m1 m0 PC_REMOTE_UPDATE_ERASE len n @ rest) h w = Some (True, v)"
    using update_dispatch(2) [of ?w] update_dispatch(4) v(1) unfolding step_def [abs_def]
    by (simp add: pc2dev_command_def parse_update_header update_commands parsed_def)
  moreover have "flash_log w v (concat (map (\<lambda>i. erase_txns (four_bytes_mode f) (int i * EPCS_BLOCK_SIZE)) [0..<unat n]))"
    by (rule flash_log_extends [OF v(2)]) (simp_all add: parsed_def)
  ultimately show ?thesis by blast
qed

theorem host_update_erase_witness:
  "\<exists>v. pc2dev_command 1 (update_header 0x12 0x34 PC_REMOTE_UPDATE_ERASE 4 2 @ [0, 0, 0, 0]) (spi_env demo_chip quiet_env)
      (world_init\<lparr>alt_flash_dev_list := [demo_dev]\<rparr>) = Some (True, v) \<and>
    flash_log (world_init\<lparr>alt_flash_dev_list := [demo_dev]\<rparr>) v [[0x06], [0xD8, 0, 0, 0], [0x06], [0xD8, 1, 0, 0]]"
  using host_update_erase [OF demo_flash_chip [of quiet_env] demo_update_facts(1) demo_dev_ok(4,1), of 2 1 "0x12" "0x34" 4 "[0, 0, 0, 0]"]
  by (simp add: demo_dev_ok(2,3) EPCS_BLOCK_SIZE_def erase_txns_def mode_in_def mode_out_def epcs_codes epcs_address_def
      upt_conv_Cons)

end
