(* ===== verification/Spec2Isabelle.thy ===== *)
theory Spec2Isabelle
  imports RingQueue SysPara IicProtocol SocketSpec World Nios2Fpga Region Device RemoteUpdate Transmit Tim561 Sick Pc2dev HostFrame
    HostSpec Fpga2Nios FpgaSpec Interrupt Dispatch HalFrame BootSpec UartSpec Firmware FirmwareSpec ConsoleSpec ClockSpec FileSpec Llist Services ScanReport UpdateSpec
begin

text \<open>
  A model of the firmware of a TIM561-compatible laser scanner
  (\<open>src/fpga_project/software/scan\<close> and the drivers it uses of \<open>scan_bsp\<close>). The program runs on a
  soft processor beside an FPGA that measures, a W5500 network chip, an EEPROM on a two-wire bus and
  a serial flash. Its main loop takes measuring words from a FIFO of the FPGA, turns them into
  telegrams for the network clients, serves the commands of hosts, keeps parameters and alarm regions
  in the EEPROM, drives lamps from the timer interrupt and writes firmware images to the flash.

  \<^bold>\<open>State, devices, undefinedness.\<close> The state every operation threads is a record that grows along
  the layers: \<open>bus\<close> (\<open>Bus\<close>) has the trace of the register accesses made so far, \<open>net\<close> adds the tables of
  the socket driver, \<open>world\<close> (\<open>World\<close>) the global variables of the program
  and, in its field \<open>hal\<close>, the state of the support package (\<open>Hal\<close>). The hardware is a parameter
  \<open>env\<close>: what a register read returns is a function of the device, the register and the whole trace
  before, so every property holds for all hardware its hypotheses do not exclude. \<open>irq_lines\<close> says which
  interrupt lines are raised, \<open>indet\<close> stands for what uninitialised variables and memory past an object hold. The result \<open>None\<close> is a
  run that does not return or that leaves defined behaviour (an array index out of range, a
  signed overflow, a division by zero); the theorems therefore state \<open>Some\<close> where they claim that the
  code returns. Loops that wait for a device or for a counter no bound is known of are \<open>partial_function (option)\<close>, without
  fuel. Machine integers are words of their C width; \<open>int\<close> values are checked by \<open>int_ok\<close>.
  Left shifts of \<open>int\<close> into the sign bit (\<open>buf[8] << 24\<close> in \<open>pc2dev.c\<close>) are the 32-bit shifts GCC defines them to be.

  \<^bold>\<open>Parts and theories.\<close>
  \<^item> \<open>Prelude\<close>: integer types, checked array accesses, byte orders, \<open>for_each\<close>, the contracts
    \<open>fifo_store\<close> and \<open>invariant_machine\<close>.
  \<^item> \<open>RingQueue\<close> (\<open>queue.c\<close>): the ring buffer between the FPGA FIFO and the parser; it refines a bounded list.
  \<^item> \<open>Bus\<close> (\<open>system.h\<close>, \<open>altera_avalon_fifo_util.c\<close>, delays of \<open>bsp.c\<close>): register accesses, FIFO driver, the
    frame contract \<open>frame_rel\<close>.
  \<^item> \<open>Spi\<close>, \<open>EpcsFlash\<close>, \<open>EpcsSpec\<close> (\<open>altera_avalon_spi.c\<close>, \<open>epcs_commands.c\<close>,
    \<open>altera_avalon_epcs_flash_controller.c\<close>): the serial flash, and what its chip sees.
  \<^item> \<open>SysPara\<close> (\<open>bsp.h\<close>): the parameters and their 308-byte image.
  \<^item> \<open>Iic\<close>, \<open>IicProtocol\<close> (\<open>iic.c\<close>): the bit-banged EEPROM bus and the bus monitor that reads it.
  \<^item> \<open>W5500\<close>, \<open>Sockets\<close>, \<open>SocketSpec\<close> (\<open>w5500.c\<close>, \<open>socket.c\<close>): registers, buffers and sockets of the network
    chip; the observer \<open>chip_step\<close> follows the frames on the SPI bridge.
  \<^item> \<open>World\<close>: the global variables with their initialisers.
  \<^item> \<open>Nios2Fpga\<close> (\<open>nios2fpga_protocol.c\<close>): frames to the FPGA. \<open>Region\<close> (\<open>region.c\<close>): alarm regions and stored
    parameters. \<open>Device\<close> (\<open>device.c\<close>): the network configuration.
  \<^item> \<open>RemoteUpdate\<close> (\<open>remote_update.c\<close>, the flash layer of the HAL): image pages, device list, registration.
  \<^item> \<open>Transmit\<close>: the observer \<open>tx_step\<close>, what a connected client receives.
  \<^item> \<open>Tim561\<close>, \<open>Sick\<close> (\<open>tim561.c\<close>, \<open>sick_protocol.c\<close>): the emulated scanner protocol, its tables of 572
    requests, and the telegram of a turn.
  \<^item> \<open>Pc2dev\<close>, \<open>HostFrame\<close>, \<open>HostSpec\<close>, \<open>UpdateSpec\<close> (\<open>pc2dev.c\<close>): host packets, what they may change, what the
    host can rely on, remote update end to end.
  \<^item> \<open>Fpga2Nios\<close>, \<open>FpgaSpec\<close> (\<open>fpga2nios_protocol.c\<close>): frames from the FPGA, texts, alarms.
  \<^item> \<open>Interrupt\<close> (\<open>led.c\<close>, \<open>user_interrupt.c\<close>, \<open>status_led.c\<close>): lamps, timer interrupt, watchdog.
  \<^item> \<open>Hal\<close>, \<open>SysClock\<close> (\<open>alt_iic.c\<close>, \<open>alt_iic_isr_register.c\<close>, \<open>altera_nios2_gen2_irq.c\<close>,
    \<open>alt_alarm_start.c\<close>, \<open>alt_tick.c\<close>, \<open>altera_avalon_timer_sc.c\<close>): interrupt controller and handler table,
    the tick and the alarms of the system clock.
  \<^item> \<open>JtagUart\<close> (\<open>altera_avalon_jtag_uart_init.c\<close>, \<open>_read.c\<close>, \<open>_write.c\<close>, \<open>_ioctl.c\<close>): the console driver.
    A caller that waits is interrupted through the parameter \<open>preempt\<close>. \<open>FileDesc\<close> (\<open>alt_open.c\<close>,
    \<open>alt_write.c\<close> and the other system calls): devices and file descriptors.
  \<^item> \<open>SysInit\<close>, \<open>Dispatch\<close> (\<open>alt_sys_init.c\<close>, \<open>alt_main.c\<close>, \<open>alt_irq_handler.c\<close>): start-up before \<open>main\<close>, and
    \<open>interrupt\<close>, the dispatch of the raised lines to their handlers.
  \<^item> \<open>Llist\<close> (\<open>alt_llist.h\<close>): the linked lists at the level of pointers; they refine the lists of \<open>Hal\<close>.
  \<^item> \<open>Services\<close> (\<open>alt_gettod.c\<close>, \<open>alt_settod.c\<close>, \<open>alt_times.c\<close>, \<open>alt_sbrk.c\<close>, \<open>alt_busy_sleep.c\<close>, \<open>alt_printf.c\<close>):
    linked services the program does not call yet.
  \<^item> \<open>HalFrame\<close>, \<open>BootSpec\<close>, \<open>UartSpec\<close>, \<open>ClockSpec\<close>, \<open>FileSpec\<close>: what handlers leave alone; the state the
    support package hands to \<open>main\<close>; the rings of the console as byte queues; the time the alarms keep;
    the pool of descriptors.
  \<^item> \<open>Firmware\<close>, \<open>FirmwareSpec\<close>, \<open>ConsoleSpec\<close>, \<open>ScanReport\<close> (\<open>bsp.c\<close>, \<open>main.c\<close>): socket service, start-up, a
    pass of the main loop, the states the program can reach, printing in them, and a turn on its way to the clients.

  \<^bold>\<open>How the parts interact.\<close> \<open>alt_main\<close> brings up the support package and calls \<open>main\<close>, whose start-up is
  \<open>main_init\<close> and whose loop repeats \<open>main_pass\<close>. A pass takes the words of the FPGA into the ring
  (\<open>take_words\<close>), lets \<open>fpga2nios_parse\<close> make texts of them, sends the telegram (\<open>send_scan\<close>), serves the
  sockets (\<open>tim561_run\<close>), each of which calls \<open>pc2dev_parse\<close> or the scanner protocol, and acts on the flags
  the interrupt has set. \<open>reachable\<close> closes the start-up under passes and interrupts; \<open>started\<close> are the
  states before \<open>main_init\<close>, in which the clock still has its handler. Interrupts are modelled between
  passes and inside the waits of the console driver, not at every instruction of a pass, so races on
  the flags within a pass are outside the model.

  \<^bold>\<open>What the lemmas show.\<close> Frames: the interpretations of \<open>frame_rel\<close>, \<open>console_frame\<close> and
  \<open>clock_frame\<close> give what each component leaves alone, whatever the hardware answers. Invariants:
  \<open>ring_machine\<close>, the steady relation of the measuring side, the packet loop, the dispatcher (\<open>dispatched\<close>)
  and the reachable states of the firmware. Refinement: the ring buffers of the FPGA words and of the
  console are queues, the linked lists are lists, across any interleaving of callers and handler. Function: for hardware
  that keeps its documented behaviour, the exact effect of an operation and what the device sees of
  it (EEPROM transactions, network frames, SPI transactions, data a client receives). Termination:
  the packet loop, the frame search, start-up, the waits of the console driver while the
  clock runs. Errors: what the code does with broken connections,
  unknown requests, addresses outside the flash, lengths that nobody checks.

  \<^bold>\<open>Hypotheses about hardware.\<close> \<open>never_full\<close>: a FIFO has room. \<open>spi_bridge\<close>: the FIFO behind which the
  network chip answers works as its core documents, with answers left open; \<open>devices_ready\<close> is both, for start-up,
  and says nothing of the EEPROM. \<open>able\<close>, \<open>clients_ready\<close>: a socket is connected, has room and completes
  its sends. \<open>spi_core\<close> and \<open>flash_chip\<close>: the SPI core shifts one byte per write and the flash chip's
  write-in-progress bit comes down; \<open>holds\<close>: the chip keeps what it was programmed. \<open>console_silent\<close>,
  \<open>host_gone\<close>: nobody listens at the console. Each theorem that
  uses one has a witness on concrete hardware that satisfies it.

  \<^bold>\<open>Not modelled.\<close> \<open>reboot\<close> jumps through an address. The functions under \<open>__MACRAW__\<close> are not compiled.
  Of the board support package the following is left out: the start-up and exception entry in assembly
  (an exception is its effect on the status register), cache maintenance and \<open>alt_gmon.c\<close> (no state of the
  program), \<open>alt_log_printf.c\<close> and the small console driver (not compiled), \<open>printf\<close> of the C library, and the
  stubs for processes, environment and files that only return an error.
\<close>

end
